(* ===== verification/Prelude.thy ===== *)
theory Prelude
  imports Complex_Main "HOL-Library.AList"
begin

text \<open>
  Shared vocabulary of the development: the exceptions of the modelled code, the
  state-and-exception type of its stateful operations, JSON payloads, and the list and
  predicate-transformer lemmas that every component uses.

  A Python operation that may raise and may change the database is a function from a state
  to a pair of a result and a state.  An exception does not undo the writes made before it:
  only \<open>atomicP\<close> (a \<open>transaction.atomic\<close> block) does that.
\<close>

section \<open>JSON\<close>

text \<open>The payloads of the services are JSON; an object is an association list.\<close>

datatype json =
    JNull
  | JBool bool
  | JNum rat
  | JStr string
  | JArr "json list"
  | JObj "(string \<times> json) list"

section \<open>Exceptions\<close>

text \<open>\<open>HTTPError\<close> of \<open>requests\<close> carries the response, if there is one: its status and its JSON
  body, if it has one.\<close>

datatype exn =
    ValidationError
  | ObjectDoesNotExist
  | MultipleObjectsReturned
  | TransitionNotAllowed
  | PermissionDenied
  | ImproperlyConfigured
  | PyTypeError
  | PyValueError
  | PyKeyError
  | PyIndexError
  | PyAttributeError
  | InvalidOperation
  | IntegrityError
  | NotSupportedException
  | GenericException
  | EdxApiError
  | GatewayError
  | VerifiedProgramNoEnrollmentError
  | VerifiedProgramInvalidBasketError
  | VerifiedProgramInvalidOrderError
  | RecursionError
  | PathOverflow
  | DataError
  | InvalidKeyError
  | SourceCourseIncompleteError
  | SourceRunRetirementError
  | RetirementContractCollisionError
  | AssertionError
  | ConnectionError
  | HTTPError "(nat \<times> json option) option"
  | OpenEdXOAuth2Error
  | NoEdxApiAuthError
  | EdxApiUserUpdateError
  | UserNameUpdateFailedException
  | EdxApiRegistrationValidationException
  | EdxApiEmailSettingsErrorException
  | UnknownEdxApiEmailSettingsException
  | CourseRunAPIError
  | PyNotImplementedError
  | PyRuntimeError
  | EnrollmentCreationFailedError
  | ExportComplianceDataError "string list"

section \<open>Operations with a state and exceptions\<close>

type_synonym ('s, 'a) py = "'s \<Rightarrow> (exn + 'a) \<times> 's"

definition ret :: "'a \<Rightarrow> ('s, 'a) py" where
  "ret x = (\<lambda>s. (Inr x, s))"

definition raise :: "exn \<Rightarrow> ('s, 'a) py" where
  "raise e = (\<lambda>s. (Inl e, s))"

definition bindP :: "('s, 'a) py \<Rightarrow> ('a \<Rightarrow> ('s, 'b) py) \<Rightarrow> ('s, 'b) py" where
  "bindP m f = (\<lambda>s. case m s of (Inl e, s') \<Rightarrow> (Inl e, s') | (Inr x, s') \<Rightarrow> f x s')"

definition thenP :: "('s, 'a) py \<Rightarrow> ('s, 'b) py \<Rightarrow> ('s, 'b) py" where
  "thenP m n = bindP m (\<lambda>_. n)"

definition gets :: "('s \<Rightarrow> 'a) \<Rightarrow> ('s, 'a) py" where
  "gets f = (\<lambda>s. (Inr (f s), s))"

definition modify :: "('s \<Rightarrow> 's) \<Rightarrow> ('s, unit) py" where
  "modify f = (\<lambda>s. (Inr (), f s))"

text \<open>A pure computation that may raise, run inside an operation.\<close>

definition liftE :: "('s \<Rightarrow> exn + 'a) \<Rightarrow> ('s, 'a) py" where
  "liftE f = (\<lambda>s. (f s, s))"

text \<open>\<open>try: m except e: h e\<close>; the writes made by \<open>m\<close> stay.\<close>

definition catchP :: "('s, 'a) py \<Rightarrow> (exn \<Rightarrow> ('s, 'a) py) \<Rightarrow> ('s, 'a) py" where
  "catchP m h = (\<lambda>s. case m s of (Inl e, s') \<Rightarrow> h e s' | (Inr x, s') \<Rightarrow> (Inr x, s'))"

definition whenP :: "bool \<Rightarrow> ('s, unit) py \<Rightarrow> ('s, unit) py" where
  "whenP b m = (if b then m else ret ())"

fun forP :: "('a \<Rightarrow> ('s, unit) py) \<Rightarrow> 'a list \<Rightarrow> ('s, unit) py" where
  "forP f [] = ret ()"
| "forP f (x # xs) = thenP (f x) (forP f xs)"

fun foldP :: "('b \<Rightarrow> 'a \<Rightarrow> ('s, 'b) py) \<Rightarrow> 'b \<Rightarrow> 'a list \<Rightarrow> ('s, 'b) py" where
  "foldP f b [] = ret b"
| "foldP f b (x # xs) = bindP (f b x) (\<lambda>b. foldP f b xs)"

lemmas py_defs = ret_def raise_def bindP_def thenP_def gets_def modify_def liftE_def
  catchP_def whenP_def

lemma bindP_ret [simp]: "bindP (ret x) f = f x"
  by (simp add: bindP_def ret_def)

lemma bindP_raise [simp]: "bindP (raise e) f = raise e"
  by (simp add: bindP_def raise_def)

lemma bindP_assoc: "bindP (bindP m f) g = bindP m (\<lambda>x. bindP (f x) g)"
  by (rule ext) (simp add: bindP_def split: prod.splits sum.splits)

lemma thenP_ret [simp]: "thenP (ret x) n = n"
  by (simp add: thenP_def)

lemma bindP_Inr: "m s = (Inr x, s') \<Longrightarrow> bindP m f s = f x s'"
  by (simp add: bindP_def)

lemma bindP_Inl: "m s = (Inl e, s') \<Longrightarrow> bindP m f s = (Inl e, s')"
  by (simp add: bindP_def)

lemma thenP_Inr: "m s = (Inr x, s') \<Longrightarrow> thenP m n s = n s'"
  by (simp add: thenP_def bindP_Inr)

lemma thenP_Inl: "m s = (Inl e, s') \<Longrightarrow> thenP m n s = (Inl e, s')"
  by (simp add: thenP_def bindP_Inl)

text \<open>How a sequence of operations came to return: what each part returned, in which state.\<close>

lemma bindP_eq_Inr: "bindP m f s = (Inr y, t) \<longleftrightarrow> (\<exists>x u. m s = (Inr x, u) \<and> f x u = (Inr y, t))"
  by (auto simp: bindP_def split: prod.splits sum.splits)

lemma thenP_eq_Inr: "thenP m n s = (Inr y, t) \<longleftrightarrow> (\<exists>x u. m s = (Inr x, u) \<and> n u = (Inr y, t))"
  by (simp add: thenP_def bindP_eq_Inr)

lemma liftE_eq_Inr: "liftE g s = (Inr x, t) \<longleftrightarrow> g s = Inr x \<and> t = s"
  by (auto simp: liftE_def)

lemma ret_eq: "ret x s = (r, t) \<longleftrightarrow> r = Inr x \<and> t = s"
  by (auto simp: ret_def)

lemma raise_eq: "raise e s = (r, t) \<longleftrightarrow> r = Inl e \<and> t = s"
  by (auto simp: raise_def)

lemma gets_eq: "gets g s = (r, t) \<longleftrightarrow> r = Inr (g s) \<and> t = s"
  by (auto simp: gets_def)

lemma modify_eq: "modify g s = (r, t) \<longleftrightarrow> r = Inr () \<and> t = g s"
  by (auto simp: modify_def)

lemmas run_eqs = bindP_eq_Inr thenP_eq_Inr liftE_eq_Inr ret_eq raise_eq gets_eq modify_eq

lemma gets_bind [simp]: "bindP (gets g) f s = f (g s) s"
  by (simp add: bindP_def gets_def)

lemma liftE_bind: "bindP (liftE g) f s = (case g s of Inl e \<Rightarrow> (Inl e, s) | Inr x \<Rightarrow> f x s)"
  by (simp add: bindP_def liftE_def split: sum.splits)

section \<open>Invariants through the operations\<close>

text \<open>
  \<open>keeps P m\<close>: whatever \<open>m\<close> returns or raises, it leaves \<open>P\<close> true.  The rules follow the
  combinators, so that an invariant of a whole handler is shown by applying them.
\<close>

definition keeps :: "('s \<Rightarrow> bool) \<Rightarrow> ('s, 'a) py \<Rightarrow> bool" where
  "keeps P m \<longleftrightarrow> (\<forall>s. P s \<longrightarrow> P (snd (m s)))"

named_theorems keeps_intro \<open>rules that reduce an invariant of an operation to its parts\<close>

lemma keepsI: "(\<And>s. P s \<Longrightarrow> P (snd (m s))) \<Longrightarrow> keeps P m"
  by (simp add: keeps_def)

lemma keepsD: "keeps P m \<Longrightarrow> P s \<Longrightarrow> P (snd (m s))"
  by (simp add: keeps_def)

lemma keeps_ret [keeps_intro]: "keeps P (ret x)"
  by (simp add: keeps_def ret_def)

lemma keeps_raise [keeps_intro]: "keeps P (raise e)"
  by (simp add: keeps_def raise_def)

lemma keeps_gets [keeps_intro]: "keeps P (gets f)"
  by (simp add: keeps_def gets_def)

lemma keeps_liftE [keeps_intro]: "keeps P (liftE f)"
  by (simp add: keeps_def liftE_def)

lemma keeps_modify: "(\<And>s. P s \<Longrightarrow> P (f s)) \<Longrightarrow> keeps P (modify f)"
  by (simp add: keeps_def modify_def)

lemma keeps_bindP [keeps_intro]:
  "keeps P m \<Longrightarrow> (\<And>x. keeps P (f x)) \<Longrightarrow> keeps P (bindP m f)"
  by (fastforce simp: keeps_def bindP_def split: prod.splits sum.splits)

lemma keeps_thenP [keeps_intro]: "keeps P m \<Longrightarrow> keeps P n \<Longrightarrow> keeps P (thenP m n)"
  by (simp add: thenP_def keeps_bindP)

lemma keeps_catchP [keeps_intro]:
  "keeps P m \<Longrightarrow> (\<And>e. keeps P (h e)) \<Longrightarrow> keeps P (catchP m h)"
  by (fastforce simp: keeps_def catchP_def split: prod.splits sum.splits)

lemma keeps_whenP [keeps_intro]: "(b \<Longrightarrow> keeps P m) \<Longrightarrow> keeps P (whenP b m)"
  by (simp add: whenP_def keeps_ret)

lemma keeps_if [keeps_intro]:
  "(b \<Longrightarrow> keeps P m) \<Longrightarrow> (\<not> b \<Longrightarrow> keeps P n) \<Longrightarrow> keeps P (if b then m else n)"
  by simp

lemma keeps_forP [keeps_intro]: "(\<And>x. keeps P (f x)) \<Longrightarrow> keeps P (forP f xs)"
  by (induction xs) (auto intro: keeps_ret keeps_thenP)

lemma keeps_case_option [keeps_intro]:
  "(x = None \<Longrightarrow> keeps P m) \<Longrightarrow> (\<And>y. x = Some y \<Longrightarrow> keeps P (f y)) \<Longrightarrow>
   keeps P (case x of None \<Rightarrow> m | Some y \<Rightarrow> f y)"
  by (cases x) auto

lemma keeps_case_sum [keeps_intro]:
  "(\<And>e. x = Inl e \<Longrightarrow> keeps P (g e)) \<Longrightarrow> (\<And>y. x = Inr y \<Longrightarrow> keeps P (f y)) \<Longrightarrow>
   keeps P (case x of Inl e \<Rightarrow> g e | Inr y \<Rightarrow> f y)"
  by (cases x) auto

lemma keeps_case_prod [keeps_intro]:
  "(\<And>a b. x = (a, b) \<Longrightarrow> keeps P (f a b)) \<Longrightarrow> keeps P (case x of (a, b) \<Rightarrow> f a b)"
  by (cases x) auto

lemma keeps_case_list [keeps_intro]:
  "(xs = [] \<Longrightarrow> keeps P m) \<Longrightarrow> (\<And>y ys. xs = y # ys \<Longrightarrow> keeps P (f y ys)) \<Longrightarrow>
   keeps P (case xs of [] \<Rightarrow> m | y # ys \<Rightarrow> f y ys)"
  by (cases xs) auto

lemma keeps_let [keeps_intro]: "(\<And>x. keeps P (f x)) \<Longrightarrow> keeps P (let x = e in f x)"
  by (simp add: Let_def)

lemma keeps_foldP [keeps_intro]: "(\<And>b x. keeps P (f b x)) \<Longrightarrow> keeps P (foldP f b xs)"
  by (induction xs arbitrary: b) (auto intro: keeps_ret keeps_bindP)

section \<open>An invariant and what an operation returns\<close>

text \<open>\<open>ensures I P Q m\<close>: from a state with the invariant \<open>I\<close> and the precondition \<open>P\<close>, \<open>m\<close> leaves \<open>I\<close>
  true even when it raises, and what it returns satisfies \<open>Q\<close>.\<close>

definition ensures :: "('s \<Rightarrow> bool) \<Rightarrow> ('s \<Rightarrow> bool) \<Rightarrow> ('a \<Rightarrow> 's \<Rightarrow> bool) \<Rightarrow> ('s, 'a) py \<Rightarrow> bool" where
  "ensures I P Q m \<longleftrightarrow> (\<forall>s. I s \<longrightarrow> P s \<longrightarrow>
     I (snd (m s)) \<and> (\<forall>x. fst (m s) = Inr x \<longrightarrow> Q x (snd (m s))))"

lemma ensuresI: "(\<And>s. I s \<Longrightarrow> P s \<Longrightarrow> I (snd (m s))) \<Longrightarrow>
    (\<And>s x t. I s \<Longrightarrow> P s \<Longrightarrow> m s = (Inr x, t) \<Longrightarrow> Q x t) \<Longrightarrow> ensures I P Q m"
  unfolding ensures_def by (metis prod.collapse)

lemma ensures_state: "ensures I P Q m \<Longrightarrow> I s \<Longrightarrow> P s \<Longrightarrow> I (snd (m s))"
  by (simp add: ensures_def)

lemma ensures_result: "ensures I P Q m \<Longrightarrow> I s \<Longrightarrow> P s \<Longrightarrow> m s = (Inr x, t) \<Longrightarrow> I t \<and> Q x t"
  unfolding ensures_def by (metis fst_conv snd_conv)

lemma ensures_bindP:
  assumes m: "ensures I P Q m" and f: "\<And>x. ensures I (Q x) R (f x)"
  shows "ensures I P R (bindP m f)"
  unfolding ensures_def
proof (intro allI impI)
  fix s assume s: "I s" "P s"
  show "I (snd (bindP m f s)) \<and> (\<forall>y. fst (bindP m f s) = Inr y \<longrightarrow> R y (snd (bindP m f s)))"
  proof (cases "m s")
    case (Pair r t)
    show ?thesis
    proof (cases r)
      case (Inl e)
      then show ?thesis using Pair ensures_state [OF m s] by (simp add: bindP_def)
    next
      case (Inr x)
      then have t: "I t \<and> Q x t" using Pair ensures_result [OF m s] by simp
      then have "I (snd (f x t)) \<and> (\<forall>y. fst (f x t) = Inr y \<longrightarrow> R y (snd (f x t)))"
        using f [of x] unfolding ensures_def by blast
      then show ?thesis using Pair Inr by (simp add: bindP_def)
    qed
  qed
qed

lemma ensures_thenP: "ensures I P (\<lambda>_. Q) m \<Longrightarrow> ensures I Q R n \<Longrightarrow> ensures I P R (thenP m n)"
  unfolding thenP_def by (rule ensures_bindP)

lemma ensures_weaken: "ensures I P Q m \<Longrightarrow> (\<And>s. I s \<Longrightarrow> P' s \<Longrightarrow> P s) \<Longrightarrow> ensures I P' Q m"
  unfolding ensures_def by blast

section \<open>Where an invariant is lost\<close>

text \<open>\<open>loses P Q m\<close>: only results that satisfy \<open>Q\<close> are allowed to break \<open>P\<close>.  What a rule of a
  business process forbids outside of one case is stated so: \<open>P\<close> is the prohibition, \<open>Q\<close> the case.\<close>

definition loses :: "('s \<Rightarrow> bool) \<Rightarrow> (exn + 'a \<Rightarrow> 's \<Rightarrow> bool) \<Rightarrow> ('s, 'a) py \<Rightarrow> bool" where
  "loses P Q m \<longleftrightarrow> (\<forall>s. P s \<longrightarrow> \<not> P (snd (m s)) \<longrightarrow> Q (fst (m s)) (snd (m s)))"

lemma losesI: "(\<And>s res t. P s \<Longrightarrow> m s = (res, t) \<Longrightarrow> \<not> P t \<Longrightarrow> Q res t) \<Longrightarrow> loses P Q m"
  by (simp add: loses_def)

lemma losesD: "loses P Q m \<Longrightarrow> P s \<Longrightarrow> m s = (res, t) \<Longrightarrow> \<not> P t \<Longrightarrow> Q res t"
  unfolding loses_def by (metis fst_conv snd_conv)

lemma loses_keeps: "keeps P m \<Longrightarrow> loses P Q m"
  by (simp add: loses_def keeps_def)

lemma loses_bindP:
  assumes "keeps P m" "\<And>x. loses P Q (f x)"
  shows "loses P Q (bindP m f)"
proof (rule losesI)
  fix s res t assume s: "P s" and run: "bindP m f s = (res, t)" and t: "\<not> P t"
  have s1: "P (snd (m s))" by (rule keepsD [OF assms(1) s])
  obtain x where "m s = (Inr x, snd (m s))"
    using run t s1 by (cases "m s"; cases "fst (m s)") (auto simp: bindP_def)
  from bindP_Inr [where m = m and f = f, OF this] have "f x (snd (m s)) = (res, t)" using run by simp
  then show "Q res t" by (rule losesD [OF assms(2) s1 _ t])
qed

lemma loses_thenP: "keeps P m \<Longrightarrow> loses P Q n \<Longrightarrow> loses P Q (thenP m n)"
  by (simp add: thenP_def loses_bindP)

lemma loses_case_option:
  "(x = None \<Longrightarrow> loses P Q m) \<Longrightarrow> (\<And>y. x = Some y \<Longrightarrow> loses P Q (f y)) \<Longrightarrow>
   loses P Q (case x of None \<Rightarrow> m | Some y \<Rightarrow> f y)"
  by (cases x) auto

lemma loses_if: "(b \<Longrightarrow> loses P Q m) \<Longrightarrow> (\<not> b \<Longrightarrow> loses P Q n) \<Longrightarrow> loses P Q (if b then m else n)"
  by simp

section \<open>Operations that never raise\<close>

definition never_raises :: "('s, 'a) py \<Rightarrow> bool" where
  "never_raises m \<longleftrightarrow> (\<forall>s. \<exists>x t. m s = (Inr x, t))"

named_theorems never_raises_intro \<open>rules that reduce the absence of exceptions to the parts\<close>

lemma never_raisesE: "never_raises m \<Longrightarrow> (\<And>x t. m s = (Inr x, t) \<Longrightarrow> R) \<Longrightarrow> R"
  unfolding never_raises_def by metis

lemma never_raises_ret [never_raises_intro]: "never_raises (ret x)"
  by (simp add: never_raises_def ret_def)

lemma never_raises_gets [never_raises_intro]: "never_raises (gets f)"
  by (simp add: never_raises_def gets_def)

lemma never_raises_modify [never_raises_intro]: "never_raises (modify f)"
  by (simp add: never_raises_def modify_def)

lemma never_raises_bindP [never_raises_intro]:
  assumes "never_raises m" "\<And>x. never_raises (f x)"
  shows "never_raises (bindP m f)"
  unfolding never_raises_def
proof
  fix s
  obtain x t where "m s = (Inr x, t)" using assms(1) by (rule never_raisesE)
  moreover obtain y u where "f x t = (Inr y, u)" using assms(2) by (rule never_raisesE)
  ultimately show "\<exists>y u. bindP m f s = (Inr y, u)" by (simp add: bindP_Inr)
qed

lemma never_raises_thenP [never_raises_intro]:
  "never_raises m \<Longrightarrow> never_raises n \<Longrightarrow> never_raises (thenP m n)"
  by (simp add: thenP_def never_raises_bindP)

lemma never_raises_catchP [never_raises_intro]:
  assumes "\<And>e. never_raises (h e)"
  shows "never_raises (catchP m h)"
  unfolding never_raises_def
proof
  fix s
  show "\<exists>x t. catchP m h s = (Inr x, t)"
  proof (cases "m s")
    case (Pair r t)
    show ?thesis
    proof (cases r)
      case (Inl e)
      then show ?thesis using Pair assms [of e] by (simp add: catchP_def never_raises_def)
    qed (simp add: catchP_def Pair)
  qed
qed

lemma never_raises_whenP [never_raises_intro]: "(b \<Longrightarrow> never_raises m) \<Longrightarrow> never_raises (whenP b m)"
  by (simp add: whenP_def never_raises_ret)

lemma never_raises_if [never_raises_intro]:
  "(b \<Longrightarrow> never_raises m) \<Longrightarrow> (\<not> b \<Longrightarrow> never_raises n) \<Longrightarrow> never_raises (if b then m else n)"
  by simp

lemma never_raises_case_option [never_raises_intro]:
  "(x = None \<Longrightarrow> never_raises m) \<Longrightarrow> (\<And>y. x = Some y \<Longrightarrow> never_raises (f y)) \<Longrightarrow>
   never_raises (case x of None \<Rightarrow> m | Some y \<Rightarrow> f y)"
  by (cases x) auto

lemma never_raises_case_prod [never_raises_intro]:
  "(\<And>a b. x = (a, b) \<Longrightarrow> never_raises (f a b)) \<Longrightarrow> never_raises (case x of (a, b) \<Rightarrow> f a b)"
  by (cases x) auto

lemma never_raises_forP [never_raises_intro]: "(\<And>x. never_raises (f x)) \<Longrightarrow> never_raises (forP f xs)"
  by (induction xs) (auto intro: never_raises_ret never_raises_thenP)

lemma forP_append: "forP f (xs @ ys) = thenP (forP f xs) (forP f ys)"
  by (induction xs) (simp_all add: thenP_def bindP_assoc)

section \<open>Operations that may not return\<close>

text \<open>A loop without a bound: \<open>None\<close> when it never returns.\<close>

type_synonym ('s, 'a) pyo = "'s \<Rightarrow> ((exn + 'a) \<times> 's) option"

definition liftO :: "('s, 'a) py \<Rightarrow> ('s, 'a) pyo" where
  "liftO m = (\<lambda>s. Some (m s))"

definition bindO :: "('s, 'a) pyo \<Rightarrow> ('a \<Rightarrow> ('s, 'b) pyo) \<Rightarrow> ('s, 'b) pyo" where
  "bindO m f = (\<lambda>s. case m s of None \<Rightarrow> None
     | Some (Inl e, t) \<Rightarrow> Some (Inl e, t) | Some (Inr x, t) \<Rightarrow> f x t)"

definition catchO :: "('s, 'a) pyo \<Rightarrow> (exn \<Rightarrow> ('s, 'a) pyo) \<Rightarrow> ('s, 'a) pyo" where
  "catchO m h = (\<lambda>s. case m s of None \<Rightarrow> None
     | Some (Inl e, t) \<Rightarrow> h e t | Some (Inr x, t) \<Rightarrow> Some (Inr x, t))"

text \<open>\<open>try: m finally: f\<close> where \<open>f\<close> neither raises nor returns.\<close>

definition finallyO :: "('s, 'a) pyo \<Rightarrow> ('s \<Rightarrow> 's) \<Rightarrow> ('s, 'a) pyo" where
  "finallyO m f = (\<lambda>s. map_option (\<lambda>(r, t). (r, f t)) (m s))"

fun forO :: "('a \<Rightarrow> ('s, unit) pyo) \<Rightarrow> 'a list \<Rightarrow> ('s, unit) pyo" where
  "forO f [] = liftO (ret ())"
| "forO f (x # xs) = bindO (f x) (\<lambda>_. forO f xs)"

lemma liftO_bind: "bindO (liftO m) f s = (case m s of (Inl e, t) \<Rightarrow> Some (Inl e, t) | (Inr x, t) \<Rightarrow> f x t)"
  by (simp add: bindO_def liftO_def split: prod.splits sum.splits)

text \<open>An invariant of whatever returns.\<close>

definition keepsO :: "('s \<Rightarrow> bool) \<Rightarrow> ('s, 'a) pyo \<Rightarrow> bool" where
  "keepsO P m \<longleftrightarrow> (\<forall>s r t. P s \<longrightarrow> m s = Some (r, t) \<longrightarrow> P t)"

lemma keepsOD: "keepsO P m \<Longrightarrow> P s \<Longrightarrow> m s = Some (r, t) \<Longrightarrow> P t"
  unfolding keepsO_def by blast

lemma keepsO_lift [keeps_intro]: "keeps P m \<Longrightarrow> keepsO P (liftO m)"
  unfolding keepsO_def keeps_def liftO_def by (metis option.inject snd_conv)

lemma keepsO_bind [keeps_intro]: "keepsO P m \<Longrightarrow> (\<And>x. keepsO P (f x)) \<Longrightarrow> keepsO P (bindO m f)"
proof -
  assume m: "keepsO P m" and f: "\<And>x. keepsO P (f x)"
  show "keepsO P (bindO m f)"
    unfolding keepsO_def bindO_def
    by (auto split: option.splits prod.splits sum.splits dest: keepsOD [OF m] keepsOD [OF f])
qed

lemma keepsO_catch [keeps_intro]: "keepsO P m \<Longrightarrow> (\<And>e. keepsO P (h e)) \<Longrightarrow> keepsO P (catchO m h)"
proof -
  assume m: "keepsO P m" and h: "\<And>e. keepsO P (h e)"
  show "keepsO P (catchO m h)"
    unfolding keepsO_def catchO_def
    by (auto split: option.splits prod.splits sum.splits dest: keepsOD [OF m] keepsOD [OF h])
qed

lemma keepsO_finally [keeps_intro]: "keepsO P m \<Longrightarrow> (\<And>s. P s \<Longrightarrow> P (f s)) \<Longrightarrow> keepsO P (finallyO m f)"
  unfolding keepsO_def finallyO_def by auto

lemma keepsO_for [keeps_intro]: "(\<And>x. keepsO P (f x)) \<Longrightarrow> keepsO P (forO f xs)"
  by (induction xs) (auto intro: keepsO_lift keeps_ret keepsO_bind)

lemma keepsO_if [keeps_intro]: "(b \<Longrightarrow> keepsO P m) \<Longrightarrow> (\<not> b \<Longrightarrow> keepsO P n) \<Longrightarrow> keepsO P (if b then m else n)"
  by simp

lemma keepsO_case_option [keeps_intro]:
  "(x = None \<Longrightarrow> keepsO P m) \<Longrightarrow> (\<And>y. x = Some y \<Longrightarrow> keepsO P (f y)) \<Longrightarrow>
   keepsO P (case x of None \<Rightarrow> m | Some y \<Rightarrow> f y)"
  by (cases x) auto

section \<open>Pure computations that may raise\<close>

text \<open>Run a list of fallible steps in order, stopping at the first exception.\<close>

fun mapE :: "('a \<Rightarrow> exn + 'b) \<Rightarrow> 'a list \<Rightarrow> exn + 'b list" where
  "mapE f [] = Inr []"
| "mapE f (x # xs) =
     (case f x of Inl e \<Rightarrow> Inl e
      | Inr y \<Rightarrow> (case mapE f xs of Inl e \<Rightarrow> Inl e | Inr ys \<Rightarrow> Inr (y # ys)))"

definition bindE :: "exn + 'a \<Rightarrow> ('a \<Rightarrow> exn + 'b) \<Rightarrow> exn + 'b" where
  "bindE r f = (case r of Inl e \<Rightarrow> Inl e | Inr x \<Rightarrow> f x)"

lemma bindE_simps [simp]: "bindE (Inl e) f = Inl e" "bindE (Inr x) f = f x"
  by (simp_all add: bindE_def)

lemma bindE_eq_Inr: "bindE r f = Inr y \<longleftrightarrow> (\<exists>x. r = Inr x \<and> f x = Inr y)"
  by (cases r) auto

lemma mapE_Inr_map: "(\<And>x. x \<in> set xs \<Longrightarrow> f x = Inr (g x)) \<Longrightarrow> mapE f xs = Inr (map g xs)"
  by (induction xs) auto

lemma mapE_cong: "(\<And>x. x \<in> set xs \<Longrightarrow> f x = g x) \<Longrightarrow> mapE f xs = mapE g xs"
  by (induction xs) (auto split: sum.splits)

lemma mapE_length: "mapE f xs = Inr ys \<Longrightarrow> length ys = length xs"
  by (induction xs arbitrary: ys) (auto split: sum.splits)

section \<open>Lists as tables\<close>

text \<open>A table is a list of rows in primary-key order; the first row of a query set is the
  head of the filtered list, the last its final element.\<close>

definition first :: "'a list \<Rightarrow> 'a option" where
  "first xs = (case xs of [] \<Rightarrow> None | x # _ \<Rightarrow> Some x)"

definition last_opt :: "'a list \<Rightarrow> 'a option" where
  "last_opt xs = (if xs = [] then None else Some (last xs))"

text \<open>\<open>.get()\<close>: exactly one row, or an exception.\<close>

definition get_one :: "'a list \<Rightarrow> exn + 'a" where
  "get_one xs = (case xs of [] \<Rightarrow> Inl ObjectDoesNotExist | [x] \<Rightarrow> Inr x
                 | _ \<Rightarrow> Inl MultipleObjectsReturned)"

definition exists_row :: "('a \<Rightarrow> bool) \<Rightarrow> 'a list \<Rightarrow> bool" where
  "exists_row p xs = list_ex p xs"

definition count_rows :: "('a \<Rightarrow> bool) \<Rightarrow> 'a list \<Rightarrow> nat" where
  "count_rows p xs = length (filter p xs)"

definition update_rows :: "('a \<Rightarrow> bool) \<Rightarrow> ('a \<Rightarrow> 'a) \<Rightarrow> 'a list \<Rightarrow> 'a list" where
  "update_rows p f xs = map (\<lambda>x. if p x then f x else x) xs"

lemma first_simps [simp]: "first [] = None" "first (x # xs) = Some x"
  by (simp_all add: first_def)

lemma first_filter_SomeD: "first (filter p xs) = Some x \<Longrightarrow> x \<in> set xs \<and> p x"
  by (induction xs) (auto split: if_splits)

lemma first_filter_None [simp]: "first (filter p xs) = None \<longleftrightarrow> (\<forall>x \<in> set xs. \<not> p x)"
  by (induction xs) auto

lemma get_one_simps [simp]:
  "get_one [] = Inl ObjectDoesNotExist" "get_one [x] = Inr x"
  "get_one (x # y # zs) = Inl MultipleObjectsReturned"
  by (simp_all add: get_one_def)

lemma get_one_Inr [simp]: "get_one xs = Inr x \<longleftrightarrow> xs = [x]"
  by (auto simp: get_one_def split: list.splits)

lemma exists_row_iff: "exists_row p xs \<longleftrightarrow> (\<exists>x \<in> set xs. p x)"
  by (simp add: exists_row_def list_ex_iff)

lemma exists_row_count: "exists_row p xs \<longleftrightarrow> 0 < count_rows p xs"
  by (auto simp: exists_row_iff count_rows_def filter_empty_conv)

lemma exists_row_simps [simp]:
  "exists_row p [] = False" "exists_row p (x # xs) = (p x \<or> exists_row p xs)"
  by (simp_all add: exists_row_def)

lemma count_rows_simps [simp]:
  "count_rows p [] = 0" "count_rows p (x # xs) = (if p x then Suc (count_rows p xs) else count_rows p xs)"
  by (simp_all add: count_rows_def)

lemma count_rows_append [simp]: "count_rows p (xs @ ys) = count_rows p xs + count_rows p ys"
  by (simp add: count_rows_def)

lemma count_rows_mono: "(\<And>x. p x \<Longrightarrow> q x) \<Longrightarrow> count_rows p xs \<le> count_rows q xs"
  by (induction xs) auto

lemma update_rows_simps [simp]:
  "update_rows p f [] = []"
  "update_rows p f (x # xs) = (if p x then f x else x) # update_rows p f xs"
  by (simp_all add: update_rows_def)

lemma length_update_rows [simp]: "length (update_rows p f xs) = length xs"
  by (simp add: update_rows_def)

lemma map_update_rows: "(\<And>x. g (f x) = g x) \<Longrightarrow> map g (update_rows p f xs) = map g xs"
  by (simp add: update_rows_def)

lemma set_update_rowsD: "y \<in> set (update_rows p f xs) \<Longrightarrow> \<exists>x \<in> set xs. y = x \<or> (p x \<and> y = f x)"
  by (auto simp: update_rows_def split: if_splits)

lemma first_update_rows:
  "(\<And>x. q (f x) = q x) \<Longrightarrow>
   first (filter q (update_rows p f xs)) =
     map_option (\<lambda>x. if p x then f x else x) (first (filter q xs))"
  by (induction xs) auto

lemma filter_update_other:
  "(\<And>x. x \<in> set xs \<Longrightarrow> p x \<Longrightarrow> \<not> q x) \<Longrightarrow> (\<And>x. p x \<Longrightarrow> \<not> q (f x)) \<Longrightarrow>
   filter q (update_rows p f xs) = filter q xs"
  by (induction xs) auto

lemma map_update_key:
  assumes "distinct (map f xs)" "e \<in> set xs" "g e' = g e"
  shows "map g (update_rows (\<lambda>r. f r = f e) (\<lambda>_. e') xs) = map g xs"
proof -
  have "x = e" if "x \<in> set xs" "f x = f e" for x
    using that assms(1,2) by (meson distinct_map inj_onD)
  then show ?thesis using assms(3) by (auto simp: update_rows_def)
qed

lemma update_key_mem: "e \<in> set xs \<Longrightarrow> e' \<in> set (update_rows (\<lambda>r. f r = f e) (\<lambda>_. e') xs)"
  by (auto simp: update_rows_def)

lemma filter_key_unique:
  "distinct (map f xs) \<Longrightarrow> x \<in> set xs \<Longrightarrow> filter (\<lambda>y. f y = f x) xs = [x]"
  by (induction xs) (auto simp: filter_empty_conv image_iff)

section \<open>Reading JSON payloads\<close>

text \<open>\<open>d.get(k)\<close> of a dict; \<open>None\<close> where the key is missing.\<close>

definition jget :: "json \<Rightarrow> string \<Rightarrow> json option" where
  "jget j k = (case j of JObj kvs \<Rightarrow> map_of kvs k | _ \<Rightarrow> None)"

text \<open>Python's truth value of a payload entry.\<close>

definition jtruthy :: "json option \<Rightarrow> bool" where
  "jtruthy x = (case x of None \<Rightarrow> False | Some JNull \<Rightarrow> False | Some (JBool b) \<Rightarrow> b
     | Some (JNum r) \<Rightarrow> r \<noteq> 0 | Some (JStr t) \<Rightarrow> t \<noteq> [] | Some (JArr xs) \<Rightarrow> xs \<noteq> []
     | Some (JObj kvs) \<Rightarrow> kvs \<noteq> [])"

definition is_dict :: "json option \<Rightarrow> bool" where
  "is_dict x = (case x of Some (JObj _) \<Rightarrow> True | _ \<Rightarrow> False)"

definition jset :: "json \<Rightarrow> string \<Rightarrow> json \<Rightarrow> json" where
  "jset j k v = (case j of JObj kvs \<Rightarrow> JObj (AList.update k v kvs) | _ \<Rightarrow> j)"

text \<open>A string of a nullable column that is neither null nor empty.\<close>

definition has_text :: "string option \<Rightarrow> bool" where
  "has_text x = (case x of None \<Rightarrow> False | Some t \<Rightarrow> t \<noteq> [])"

lemma has_text_simps [simp]: "\<not> has_text None" "has_text (Some t) \<longleftrightarrow> t \<noteq> []"
  by (simp_all add: has_text_def)

end
