(* ===== verification/Decimals.thy ===== *)
theory Decimals
  imports Prelude
begin

text \<open>
  The decimal arithmetic the pricing code uses: Python's \<open>decimal.Decimal\<close> as exact
  rationals, the round-half-even rounding of \<open>round(x, 2)\<close> and
  \<open>quantize(Decimal("0.01"))\<close>, and the grammar of \<open>Decimal(str)\<close>.
  Python computes with 28 significant digits; \<open>Discounts\<close> shows that the prices stay within
  them, so that exact arithmetic is what the code computes.
\<close>

section \<open>Rounding half to even\<close>

definition half_even :: "rat \<Rightarrow> int" where
  "half_even x =
     (let f = \<lfloor>x\<rfloor>; d = x - of_int f
      in if d < 1 / 2 then f else if d > 1 / 2 then f + 1 else if even f then f else f + 1)"

definition quantize2 :: "rat \<Rightarrow> rat" where
  "quantize2 x = of_int (half_even (x * 100)) / 100"

lemma half_even_of_int [simp]: "half_even (of_int n) = n"
  by (simp add: half_even_def)

lemma half_even_error: "\<bar>of_int (half_even x) - x\<bar> \<le> 1 / 2"
proof -
  have "of_int \<lfloor>x\<rfloor> \<le> x" "x < of_int \<lfloor>x\<rfloor> + 1"
    using floor_correct [of x] by simp_all
  then show ?thesis
    by (simp add: half_even_def Let_def abs_le_iff)
qed

lemma half_even_floor: "half_even x = \<lfloor>x\<rfloor> \<or> half_even x = \<lfloor>x\<rfloor> + 1"
  by (auto simp: half_even_def Let_def)

lemma half_even_mono: "x \<le> y \<Longrightarrow> half_even x \<le> half_even y"
proof -
  assume le: "x \<le> y"
  then have fl: "\<lfloor>x\<rfloor> \<le> \<lfloor>y\<rfloor>" by (rule floor_mono)
  show ?thesis
  proof (cases "\<lfloor>x\<rfloor> = \<lfloor>y\<rfloor>")
    case True
    then show ?thesis using le by (auto simp: half_even_def Let_def)
  next
    case False
    with fl have "\<lfloor>x\<rfloor> + 1 \<le> \<lfloor>y\<rfloor>" by simp
    then show ?thesis using half_even_floor [of x] half_even_floor [of y] by auto
  qed
qed

lemma half_even_nonneg: "0 \<le> x \<Longrightarrow> 0 \<le> half_even x"
  using half_even_mono [of 0 x] half_even_of_int [of 0] by simp

lemma quantize2_0 [simp]: "quantize2 0 = 0"
  using half_even_of_int [of 0] by (simp add: quantize2_def)

lemma quantize2_mono: "x \<le> y \<Longrightarrow> quantize2 x \<le> quantize2 y"
  by (simp add: quantize2_def half_even_mono divide_right_mono)

lemma quantize2_nonneg: "0 \<le> x \<Longrightarrow> 0 \<le> quantize2 x"
  using quantize2_mono [of 0 x] by simp

lemma quantize2_error: "\<bar>quantize2 x - x\<bar> \<le> 1 / 200"
proof -
  have "\<bar>of_int (half_even (x * 100)) - x * 100\<bar> \<le> 1 / 2" by (rule half_even_error)
  then show ?thesis by (simp add: quantize2_def field_simps abs_le_iff)
qed

text \<open>Amounts with two decimal places: what a \<open>DecimalField(decimal_places=2)\<close> holds.\<close>

definition is_cents :: "rat \<Rightarrow> bool" where
  "is_cents x \<longleftrightarrow> of_int \<lfloor>x * 100\<rfloor> = x * 100"

lemma quantize2_cents: "is_cents x \<Longrightarrow> quantize2 x = x"
proof -
  assume "is_cents x"
  then have "x * 100 = of_int \<lfloor>x * 100\<rfloor>" unfolding is_cents_def by (rule sym)
  then have "half_even (x * 100) = \<lfloor>x * 100\<rfloor>" by (metis half_even_of_int)
  then show ?thesis using \<open>is_cents x\<close> by (simp add: quantize2_def is_cents_def)
qed

lemma is_cents_quantize2 [simp]: "is_cents (quantize2 x)"
  by (simp add: is_cents_def quantize2_def)

lemma quantize2_idem [simp]: "quantize2 (quantize2 x) = quantize2 x"
  by (simp add: quantize2_cents)

lemma quantize2_le: "is_cents y \<Longrightarrow> x \<le> y \<Longrightarrow> quantize2 x \<le> y"
  using quantize2_mono [of x y] by (simp add: quantize2_cents)

section \<open>Reading a decimal from a string\<close>

definition is_digit :: "char \<Rightarrow> bool" where
  "is_digit c \<longleftrightarrow> 48 \<le> (of_char c :: nat) \<and> (of_char c :: nat) \<le> 57"

definition digit_val :: "char \<Rightarrow> nat" where
  "digit_val c = (of_char c :: nat) - 48"

definition digits_val :: "string \<Rightarrow> nat" where
  "digits_val s = foldl (\<lambda>n c. 10 * n + digit_val c) 0 s"

definition is_space :: "char \<Rightarrow> bool" where
  "is_space c \<longleftrightarrow> c \<in> {CHR '' '', CHR 0x09, CHR 0x0A, CHR 0x0B, CHR 0x0C, CHR 0x0D}"

definition strip :: "string \<Rightarrow> string" where
  "strip s = rev (dropWhile is_space (rev (dropWhile is_space s)))"

definition take_sign :: "string \<Rightarrow> bool \<times> string" where
  "take_sign s = (case s of c # r \<Rightarrow>
      if c = CHR ''-'' then (True, r) else if c = CHR ''+'' then (False, r) else (False, s)
    | [] \<Rightarrow> (False, []))"

text \<open>\<open>int(str)\<close>: an optional sign and at least one digit; \<open>None\<close> is \<open>ValueError\<close>.\<close>

definition parse_int :: "string \<Rightarrow> int option" where
  "parse_int str =
     (let (neg, r) = take_sign (strip str)
      in if r = [] \<or> \<not> list_all is_digit r then None
         else Some (if neg then - int (digits_val r) else int (digits_val r)))"

definition pow10 :: "int \<Rightarrow> rat" where
  "pow10 e = (if 0 \<le> e then 10 ^ nat e else 1 / 10 ^ nat (- e))"

text \<open>\<open>Decimal(str)\<close> for a finite number; \<open>None\<close> is \<open>InvalidOperation\<close>.\<close>

definition parse_decimal :: "string \<Rightarrow> rat option" where
  "parse_decimal str =
     (let (neg, r) = take_sign (filter (\<lambda>c. c \<noteq> CHR ''_'') (strip str));
          ip = takeWhile is_digit r; r1 = dropWhile is_digit r;
          (fp, r2) = (case r1 of c # t \<Rightarrow>
              if c = CHR ''.'' then (takeWhile is_digit t, dropWhile is_digit t) else ([], r1)
            | [] \<Rightarrow> ([], []));
          m = rat_of_nat (digits_val (ip @ fp)) / 10 ^ length fp;
          v = (if neg then - m else m)
      in if ip = [] \<and> fp = [] then None
         else (case r2 of [] \<Rightarrow> Some v
               | c # e \<Rightarrow>
                   if c = CHR ''e'' \<or> c = CHR ''E''
                   then (if e \<noteq> [] \<and> \<not> is_space (hd e)
                         then map_option (\<lambda>k. v * pow10 k) (parse_int e) else None)
                   else None))"

text \<open>\<open>Decimal(v)\<close> of a payload entry: numbers and numeric strings.\<close>

definition json_decimal :: "json \<Rightarrow> exn + rat" where
  "json_decimal j =
     (case j of JNum r \<Rightarrow> Inr r
      | JBool b \<Rightarrow> Inr (if b then 1 else 0)
      | JStr t \<Rightarrow> (case parse_decimal t of Some r \<Rightarrow> Inr r | None \<Rightarrow> Inl InvalidOperation)
      | _ \<Rightarrow> Inl PyTypeError)"

text \<open>\<open>int(v)\<close> of a payload entry (\<open>int\<close> truncates a number towards zero).\<close>

definition json_int :: "json \<Rightarrow> exn + int" where
  "json_int j =
     (case j of JNum r \<Rightarrow> Inr (if 0 \<le> r then \<lfloor>r\<rfloor> else \<lceil>r\<rceil>)
      | JBool b \<Rightarrow> Inr (if b then 1 else 0)
      | JStr t \<Rightarrow> (case parse_int t of Some n \<Rightarrow> Inr n | None \<Rightarrow> Inl PyValueError)
      | _ \<Rightarrow> Inl PyTypeError)"

lemma parse_decimal_example: "parse_decimal ''-12.50'' = Some (- 25 / 2)"
  by code_simp

lemma parse_decimal_exponent_example: "parse_decimal '' 1.5E2 '' = Some 150"
  by code_simp

lemma parse_decimal_reject_example: "parse_decimal ''12.5.0'' = None"
  by code_simp

section \<open>Decimal numerals\<close>

text \<open>\<open>str(n)\<close> of a natural number, used in reference numbers and generated codes.\<close>

fun show_nat_fuel :: "nat \<Rightarrow> nat \<Rightarrow> string" where
  "show_nat_fuel 0 n = []"
| "show_nat_fuel (Suc k) n =
     (if n < 10 then [char_of (48 + n)]
      else show_nat_fuel k (n div 10) @ [char_of (48 + n mod 10)])"

definition show_nat :: "nat \<Rightarrow> string" where
  "show_nat n = show_nat_fuel (Suc n) n"

lemma is_digit_char_of: "d < 10 \<Longrightarrow> is_digit (char_of (48 + d :: nat))"
  by (simp add: is_digit_def)

lemma digit_val_char_of: "d < 10 \<Longrightarrow> digit_val (char_of (48 + d :: nat)) = d"
  by (simp add: digit_val_def)

lemma digits_val_snoc: "digits_val (s @ [c]) = 10 * digits_val s + digit_val c"
  by (simp add: digits_val_def)

lemma show_nat_fuel_digits: "n < k \<Longrightarrow> show_nat_fuel k n \<noteq> [] \<and> list_all is_digit (show_nat_fuel k n)"
proof (induction k arbitrary: n)
  case (Suc k)
  show ?case
  proof (cases "n < 10")
    case False
    with Suc.prems have "n div 10 < k" by arith
    with Suc.IH [of "n div 10"] False show ?thesis by (simp add: is_digit_char_of)
  qed (simp add: is_digit_char_of)
qed simp

lemma digits_val_show_nat_fuel: "n < k \<Longrightarrow> digits_val (show_nat_fuel k n) = n"
proof (induction k arbitrary: n)
  case (Suc k)
  show ?case
  proof (cases "n < 10")
    case True
    then show ?thesis by (simp add: digits_val_def digit_val_char_of)
  next
    case False
    with Suc.prems have "n div 10 < k" by arith
    with Suc.IH [of "n div 10"] False show ?thesis
      by (simp add: digits_val_snoc digit_val_char_of)
  qed
qed simp

lemma show_nat_digits: "show_nat n \<noteq> []" "list_all is_digit (show_nat n)"
  unfolding show_nat_def using show_nat_fuel_digits [of n "Suc n"] by blast+

lemma digits_val_show_nat [simp]: "digits_val (show_nat n) = n"
  unfolding show_nat_def by (rule digits_val_show_nat_fuel) simp

lemma show_nat_inject [simp]: "show_nat m = show_nat n \<longleftrightarrow> m = n"
  by (metis digits_val_show_nat)

lemma digit_not_special: "is_digit c \<Longrightarrow> \<not> is_space c \<and> c \<noteq> CHR ''-'' \<and> c \<noteq> CHR ''+''"
  by (auto simp: is_digit_def is_space_def)

lemma strip_digits: "list_all is_digit s \<Longrightarrow> strip s = s"
proof (cases s)
  case (Cons c r)
  assume all: "list_all is_digit s"
  then have 1: "dropWhile is_space s = s" using Cons digit_not_special by auto
  have "dropWhile is_space (rev s) = rev s"
  proof (cases "rev s")
    case (Cons d t)
    then have "d \<in> set s" by (metis list.set_intros(1) set_rev)
    with all have "is_digit d" by (simp add: list_all_iff)
    then show ?thesis using Cons digit_not_special by auto
  qed simp
  with 1 show ?thesis by (simp add: strip_def)
qed (simp add: strip_def)

text \<open>Reading back what was printed.\<close>

lemma parse_int_show_nat: "parse_int (show_nat n) = Some (int n)"
proof -
  obtain c r where cr: "show_nat n = c # r" using show_nat_digits(1) by (cases "show_nat n") auto
  have all: "list_all is_digit (show_nat n)" by (rule show_nat_digits)
  with cr have "is_digit c" by simp
  then have "take_sign (show_nat n) = (False, show_nat n)"
    using cr digit_not_special [of c] by (simp add: take_sign_def)
  with all show ?thesis
    by (simp add: parse_int_def strip_digits [OF all] show_nat_digits(1))
qed

end
