(* ===== verification/Schema.thy ===== *)
theory Schema
  imports Decimals
begin

text \<open>
  The data model: one record per Django model, with the source's class names and the columns
  the modelled operations read or write, and the database state \<open>db\<close>, one list of rows per
  table in primary-key order.

  A foreign key to a row that none of the modelled operations updates (a product version, a
  discount, a course of a run) is held by value, as the object that the ORM attribute returns;
  a foreign key to a row they do update (an order, a basket, an enrollment's user) is held by
  its id.  Django's model equality is equality of primary keys, and is written so below.
  Datetimes are integers (seconds); \<open>now\<close> is the clock that \<open>now_in_utc()\<close> reads, constant
  during one operation; \<open>session_basket\<close> and
  \<open>session_order\<close> are the anonymous basket id and the order reference of the request's session.  \<open>next_id\<close> supplies the fresh primary keys and \<open>uuid4\<close> values.
\<close>

section \<open>Courseware\<close>

record Course =
  crs_id :: nat
  crs_readable_id :: string
  crs_title :: string
  crs_live :: bool
  crs_blocked_countries :: "string list"

record Contract =
  ctr_id :: nat
  ctr_organization :: nat
  ctr_active :: bool
  ctr_start :: "int option"
  ctr_end :: "int option"
  ctr_fixed_price :: "rat option"
  ctr_max_learners :: "nat option"
  ctr_membership_type :: string
  ctr_name :: string

record CourseRun =
  run_id :: nat
  run_course :: Course
  run_title :: string
  run_courseware_id :: string
  run_tag :: string
  run_start_date :: "int option"
  run_end_date :: "int option"
  run_enrollment_start :: "int option"
  run_enrollment_end :: "int option"
  run_expiration_date :: "int option"
  run_upgrade_deadline :: "int option"
  run_live :: bool
  run_is_self_paced :: bool
  run_enrollment_modes :: "string list"
  run_b2b_contract :: "Contract option"
  run_is_source_run :: bool
  run_is_primary_language :: bool
  run_language :: string
  run_certificate_available_date :: "int option"
  run_variant_industry :: string
  run_variant_length :: string

text \<open>\<open>prg_requires_payment\<close>: one of the program's enrollment modes requires payment.\<close>

record Program =
  prg_id :: nat
  prg_readable_id :: string
  prg_title :: string
  prg_live :: bool
  prg_requires_payment :: bool

record ProgramRun =
  prun_id :: nat
  prun_program :: Program
  prun_run_tag :: string

record RelatedProgram =
  rel_first :: Program
  rel_second :: Program

text \<open>
  A node of a program's requirements tree (\<open>ProgramRequirement\<close>, a treebeard \<open>MP_Node\<close>):
  its \<open>path\<close> is the path of its parent followed by one step of four characters.
\<close>

datatype node_type = NT_PROGRAM_ROOT | NT_OPERATOR | NT_COURSE | NT_PROGRAM

datatype req_operator = ALL_OF | MIN_NUMBER_OF

record ProgramRequirement =
  req_id :: nat
  req_path :: string
  req_depth :: nat
  req_node_type :: node_type
  req_operator :: "req_operator option"
  req_operator_value :: "string option"
  req_program :: nat
  req_course :: "Course option"
  req_required_program :: "Program option"
  req_title :: string
  req_elective_flag :: bool

text \<open>The two models of \<open>courses\<close> that a product may sell (\<open>valid_purchasable_objects_list\<close>).\<close>

datatype content_type = CT_CourseRun | CT_Program

datatype purchasable = PurchRun CourseRun | PurchProgram Program

section \<open>Ecommerce\<close>

record Product =
  prod_id :: nat
  prod_content_type :: content_type
  prod_object_id :: nat
  prod_price :: rat
  prod_description :: string
  prod_is_active :: bool

text \<open>A \<open>reversion\<close> version of a product: its \<open>field_dict\<close> is the product as it was saved.\<close>

record Version =
  ver_id :: nat
  ver_object_id :: nat
  ver_field_dict :: Product

datatype discount_type = PERCENT_OFF | DOLLARS_OFF | FIXED_PRICE | OTHER_DISCOUNT_TYPE

datatype redemption_type = ONE_TIME | ONE_TIME_PER_USER | UNLIMITED | OTHER_REDEMPTION_TYPE

datatype payment_type = MARKETING | SALES | FINANCIAL_ASSISTANCE | CUSTOMER_SUPPORT | STAFF | LEGACY

record Discount =
  disc_id :: nat
  disc_amount :: rat
  disc_automatic :: bool
  disc_type :: discount_type
  disc_redemption_type :: redemption_type
  disc_payment_type :: "payment_type option"
  disc_max_redemptions :: "nat option"
  disc_code :: string
  disc_activation_date :: "int option"
  disc_expiration_date :: "int option"
  disc_is_bulk :: bool
  disc_is_program_discount :: "bool option"

record DiscountProduct =
  dp_discount :: nat
  dp_product :: "nat option"

record UserDiscount =
  ud_discount :: Discount
  ud_user :: nat

record Basket =
  bkt_id :: nat
  bkt_user :: "nat option"
  bkt_anonymous_id :: "string option"
  bkt_updated_on :: int

record BasketItem =
  bi_id :: nat
  bi_basket :: nat
  bi_product :: Product
  bi_quantity :: nat

record BasketDiscount =
  bd_id :: nat
  bd_redemption_date :: int
  bd_redeemed_by :: nat
  bd_redeemed_discount :: Discount
  bd_redeemed_basket :: nat

text \<open>The gateway names of the \<open>mitol.payment_gateway\<close> package and any other text of the column.\<close>

datatype gateway = GW_CYBERSOURCE | GW_STRIPE | GW_NONE | GW_OTHER string

datatype OrderStatus =
    PENDING | FULFILLED | CANCELED | DECLINED | ERRORED | REFUNDED | REVIEW | PARTIALLY_REFUNDED

text \<open>The choices of the state column can be listed, so that quantifiers over them are computed.\<close>

instantiation OrderStatus :: enum
begin

definition enum_OrderStatus :: "OrderStatus list" where
  "enum_OrderStatus = [PENDING, FULFILLED, CANCELED, DECLINED, ERRORED, REFUNDED, REVIEW, PARTIALLY_REFUNDED]"

definition enum_all_OrderStatus :: "(OrderStatus \<Rightarrow> bool) \<Rightarrow> bool" where
  "enum_all_OrderStatus P = list_all P (enum_class.enum :: OrderStatus list)"

definition enum_ex_OrderStatus :: "(OrderStatus \<Rightarrow> bool) \<Rightarrow> bool" where
  "enum_ex_OrderStatus P = list_ex P (enum_class.enum :: OrderStatus list)"

instance
proof
  have all: "x \<in> set (enum_class.enum :: OrderStatus list)" for x :: OrderStatus
    by (cases x) (simp_all add: enum_OrderStatus_def)
  show "(UNIV :: OrderStatus set) = set enum_class.enum" using all by blast
  show "distinct (enum_class.enum :: OrderStatus list)" by (simp add: enum_OrderStatus_def)
  show "enum_class.enum_all P = Ball UNIV P" for P :: "OrderStatus \<Rightarrow> bool"
    using all by (auto simp: enum_all_OrderStatus_def list_all_iff)
  show "enum_class.enum_ex P = Bex UNIV P" for P :: "OrderStatus \<Rightarrow> bool"
    using all by (auto simp: enum_ex_OrderStatus_def list_ex_iff)
qed

end

record Order =
  ord_id :: nat
  ord_state :: OrderStatus
  ord_purchaser :: nat
  ord_total_price_paid :: rat
  ord_reference_number :: "string option"
  ord_gateway_type :: gateway
  ord_created_on :: int

record Line =
  ln_id :: nat
  ln_order :: nat
  ln_product_version :: Version
  ln_quantity :: nat
  ln_purchased_content_type :: "content_type option"
  ln_purchased_object_id :: "nat option"

datatype transaction_type = TX_PAYMENT | TX_REFUND

record Transaction =
  tx_id :: nat
  tx_transaction_id :: string
  tx_order :: nat
  tx_amount :: rat
  tx_data :: json
  tx_type :: transaction_type
  tx_reason :: string

record DiscountRedemption =
  rd_id :: nat
  rd_redemption_date :: int
  rd_redeemed_by :: nat
  rd_redeemed_discount :: Discount
  rd_redeemed_order :: nat

record StripeEventLog =
  sel_event_id :: string
  sel_event_type :: string
  sel_event_data :: json
  sel_related_order :: "nat option"

section \<open>Enrollments\<close>

record CourseRunEnrollment =
  cre_id :: nat
  cre_user :: nat
  cre_run :: CourseRun
  cre_change_status :: "string option"
  cre_active :: bool
  cre_enrollment_mode :: string
  cre_edx_enrolled :: bool
  cre_edx_emails_subscription :: bool
  cre_retry_count :: nat
  cre_created_on :: int

record ProgramEnrollment =
  pe_id :: nat
  pe_user :: nat
  pe_program :: Program
  pe_change_status :: "string option"
  pe_active :: bool
  pe_enrollment_mode :: string

record PaidCourseRun =
  pcr_user :: nat
  pcr_course_run :: nat
  pcr_order :: nat

record PaidProgram =
  pp_user :: nat
  pp_program :: nat
  pp_order :: nat

section \<open>Grades and certificates\<close>

text \<open>Grades are floats that the code only compares; they are rationals here.\<close>

record CourseRunGrade =
  crg_id :: nat
  crg_user :: nat
  crg_run :: CourseRun
  crg_grade :: rat
  crg_letter_grade :: "string option"
  crg_passed :: bool
  crg_set_by_admin :: bool

record CourseRunCertificate =
  crc_id :: nat
  crc_user :: nat
  crc_run :: CourseRun
  crc_is_revoked :: bool
  crc_has_credential :: bool
  crc_issue_date :: int

record ProgramCertificate =
  pc_id :: nat
  pc_user :: nat
  pc_program :: Program
  pc_is_revoked :: bool
  pc_has_credential :: bool
  pc_issue_date :: int

section \<open>Financial assistance\<close>

datatype courseware = CW_Course Course | CW_Run CourseRun | CW_Program Program | CW_ProgramRun ProgramRun

datatype flexible_price_status =
    FP_APPROVED | FP_AUTO_APPROVED | FP_CREATED | FP_PENDING_MANUAL_APPROVAL | FP_DENIED | FP_RESET


record FlexiblePriceTier =
  tier_id :: nat
  tier_discount :: Discount
  tier_courseware_type :: string
  tier_courseware_object_id :: nat
  tier_current :: bool
  tier_income_threshold_usd :: rat

record FlexiblePrice =
  fp_id :: nat
  fp_user :: nat
  fp_status :: flexible_price_status
  fp_income_usd :: "rat option"
  fp_country_of_income :: "string option"
  fp_courseware_type :: string
  fp_courseware_object_id :: nat
  fp_tier :: "FlexiblePriceTier option"

record CountryIncomeThreshold =
  cit_country_code :: string
  cit_income_threshold :: int

record CurrencyExchangeRate =
  cer_currency_code :: string
  cer_description :: "string option"
  cer_exchange_rate :: rat

section \<open>Users and requests\<close>

text \<open>The columns of \<open>request.user\<close> that the code reads, its contracts by primary key.\<close>

record User =
  usr_id :: nat
  usr_is_authenticated :: bool
  usr_is_staff :: bool
  usr_is_active :: bool
  usr_edx_username :: "string option"
  usr_global_id :: "string option"
  usr_country :: string
  usr_b2b_contracts :: "nat list"

record UserOrganization =
  uo_user :: nat
  uo_organization :: nat
  uo_keep_until_seen :: bool
  uo_is_manager :: bool

record Organization =
  orgn_id :: nat
  orgn_sso_organization_id :: "string option"
  orgn_org_key :: string
  orgn_org_key_prefix :: string
  orgn_name :: string

text \<open>A code of a contract that was assigned or redeemed (\<open>DiscountContractAttachmentRedemption\<close>).\<close>

record ContractAttachment =
  ca_id :: nat
  ca_discount :: nat
  ca_user :: "nat option"
  ca_contract :: nat
  ca_assigned_email :: string
  ca_assigned_name :: string
  ca_assigned_by :: "nat option"
  ca_redeemed_on :: "int option"
  ca_created_on :: int
  ca_last_reminder_sent_on :: "int option"
  ca_email_message_id :: string
  ca_email_status :: string
  ca_email_status_timestamp :: "rat option"

record ContractProgramItem =
  cpi_contract :: nat
  cpi_program :: nat
  cpi_sort_order :: int

text \<open>The variants that a course or a contract supports (\<open>src/variants/models.py\<close>); the content type is
  whether the object is a contract.\<close>

record SupportedVariant =
  sv_id :: nat
  sv_of_contract :: bool
  sv_object_id :: nat
  sv_language :: string
  sv_variant_length :: string
  sv_variant_industry :: string
  sv_active :: bool
  sv_b2b_only :: bool
  sv_default_variant :: bool

record EnrollmentMode =
  em_slug :: string
  em_display_name :: string
  em_requires_payment :: bool

section \<open>What leaves the process\<close>

text \<open>Celery tasks and third-party synchronisations, in the order they are queued.\<close>

datatype effect =
    SyncHubspotDeal nat bool
  | SyncHubspotCartAdd nat nat bool
  | SyncHubspotLine nat
  | SendOrderReceipt nat
  | SendOrderRefundEmail nat
  | QueueDowngrade nat
  | QueueCreateUser nat
  | SubscribeEdxEmails nat
  | SendEnrollmentEmail nat nat
  | SendUnenrollmentEmail nat nat
  | SendEnrollmentFailure nat
  | AttachOrganization nat nat
  | SyncHubspotUser nat
  | SyncRunCertificate nat
  | SyncProgramCertificate nat
  | UpdateContractSheet nat
  | CheckEnrollmentCodes nat
  | CloneCourserun nat string
  | SendCodeEmails "nat list"
  | SendTestCodeEmail string nat
  | ProcessMailgunEvent json
  | CreateContractRuns nat nat string
  | FixClonedRun nat
  | PushEdxModes nat

text \<open>The requests that change course runs in Open edX, in the order they were sent: title, pacing and
  schedule of a run, a clone, a new mode with its price and expiry.\<close>

datatype studio_request =
    UpdateRun string string bool "int option" "int option" "int option" "int option"
  | CloneRun string string
  | CreateMode string string string int "int option"

section \<open>The database\<close>

text \<open>The Django settings that the modelled code reads, tokens by whether they are set.\<close>

record settings =
  set_default_gateway :: gateway
  set_environment :: string
  set_basket_cull_age :: int
  set_ignore_edx_failures :: bool
  set_hubspot_token :: bool
  set_uai_hubspot_token :: bool
  set_certificate_window :: int
  set_multiple_cart_items :: bool

record db =
  conf :: settings
  now :: int
  next_id :: nat
  courses :: "Course list"
  course_runs :: "CourseRun list"
  programs :: "Program list"
  related_programs :: "RelatedProgram list"
  requirements :: "ProgramRequirement list"
  contracts :: "Contract list"
  products :: "Product list"
  versions :: "Version list"
  discounts :: "Discount list"
  discount_products :: "DiscountProduct list"
  user_discounts :: "UserDiscount list"
  baskets :: "Basket list"
  basket_items :: "BasketItem list"
  basket_discounts :: "BasketDiscount list"
  orders :: "Order list"
  order_lines :: "Line list"
  transactions :: "Transaction list"
  redemptions :: "DiscountRedemption list"
  stripe_log :: "StripeEventLog list"
  run_enrollments :: "CourseRunEnrollment list"
  program_enrollments :: "ProgramEnrollment list"
  paid_course_runs :: "PaidCourseRun list"
  paid_programs :: "PaidProgram list"
  tiers :: "FlexiblePriceTier list"
  flexible_prices :: "FlexiblePrice list"
  country_thresholds :: "CountryIncomeThreshold list"
  exchange_rates :: "CurrencyExchangeRate list"
  users :: "User list"
  user_organizations :: "UserOrganization list"
  organizations :: "Organization list"
  org_cache :: "(nat \<times> (string \<times> bool) list) list"
  attachments :: "ContractAttachment list"
  contract_programs :: "ContractProgramItem list"
  supported_variants :: "SupportedVariant list"
  enrollment_modes :: "EnrollmentMode list"
  run_grades :: "CourseRunGrade list"
  run_certificates :: "CourseRunCertificate list"
  program_certificates :: "ProgramCertificate list"
  session_basket :: "string option"
  session_order :: "string option"
  in_atomic :: bool
  studio_log :: "studio_request list"
  outbox :: "effect list"
  on_commit :: "effect list"

type_synonym 'a op = "(db, 'a) py"

definition default_settings :: settings where
  "default_settings = \<lparr>set_default_gateway = GW_CYBERSOURCE, set_environment = ''dev'',
     set_basket_cull_age = 1209600, set_ignore_edx_failures = False, set_hubspot_token = False,
     set_uai_hubspot_token = False, set_certificate_window = 2592000, set_multiple_cart_items = False\<rparr>"

definition empty_db :: db where
  "empty_db = \<lparr>conf = default_settings, now = 0, next_id = 1, courses = [], course_runs = [], programs = [],
     related_programs = [], requirements = [], contracts = [], products = [], versions = [],
     discounts = [], discount_products = [], user_discounts = [], baskets = [], basket_items = [],
     basket_discounts = [], orders = [], order_lines = [], transactions = [], redemptions = [],
     stripe_log = [], run_enrollments = [], program_enrollments = [], paid_course_runs = [],
     paid_programs = [], tiers = [], flexible_prices = [], country_thresholds = [],
     exchange_rates = [], users = [], user_organizations = [],
     organizations = [], org_cache = [], attachments = [], contract_programs = [], supported_variants = [], enrollment_modes = [], run_grades = [],
     run_certificates = [], program_certificates = [], session_basket = None, session_order = None,
     in_atomic = False, studio_log = [], outbox = [], on_commit = []\<rparr>"

text \<open>A fresh primary key.\<close>

definition fresh_id :: "nat op" where
  "fresh_id = (\<lambda>s. (Inr (next_id s), s\<lparr>next_id := Suc (next_id s)\<rparr>))"

text \<open>\<open>str(uuid.uuid4())\<close>: a string that no earlier call returned.\<close>

definition uuid4 :: "string op" where
  "uuid4 = (\<lambda>s. (Inr (''uuid-'' @ show_nat (next_id s)), s\<lparr>next_id := Suc (next_id s)\<rparr>))"

text \<open>Queue a Celery task or a synchronisation at once.\<close>

definition emit :: "effect \<Rightarrow> unit op" where
  "emit e = modify (\<lambda>s. s\<lparr>outbox := outbox s @ [e]\<rparr>)"

text \<open>\<open>transaction.on_commit\<close>: at the end of the outermost atomic block, at once outside of one.\<close>

definition emit_on_commit :: "effect \<Rightarrow> unit op" where
  "emit_on_commit e = modify (\<lambda>s. if in_atomic s then s\<lparr>on_commit := on_commit s @ [e]\<rparr>
                                   else s\<lparr>outbox := outbox s @ [e]\<rparr>)"

text \<open>
  \<open>with transaction.atomic()\<close>: an exception restores the tables and drops the callbacks
  registered inside the block; what was already queued elsewhere, and the sequences the
  primary keys come from, are not rolled back.  The end of the outermost block runs the
  callbacks.
\<close>

definition leave_atomic :: "db \<Rightarrow> db \<Rightarrow> db" where
  "leave_atomic s t = (if in_atomic s then t\<lparr>in_atomic := True\<rparr>
     else t\<lparr>in_atomic := False, outbox := outbox t @ on_commit t, on_commit := []\<rparr>)"

definition atomicP :: "'a op \<Rightarrow> 'a op" where
  "atomicP m = (\<lambda>s. case m (s\<lparr>in_atomic := True\<rparr>) of
      (Inl e, t) \<Rightarrow> (Inl e, s\<lparr>next_id := next_id t, outbox := outbox t\<rparr>)
    | (Inr x, t) \<Rightarrow> (Inr x, leave_atomic s t))"

lemma atomicP_Inr:
  "m (s\<lparr>in_atomic := True\<rparr>) = (Inr x, t) \<Longrightarrow> atomicP m s = (Inr x, leave_atomic s t)"
  by (simp add: atomicP_def)

lemma atomicP_Inl:
  "m (s\<lparr>in_atomic := True\<rparr>) = (Inl e, t) \<Longrightarrow>
   atomicP m s = (Inl e, s\<lparr>next_id := next_id t, outbox := outbox t\<rparr>)"
  by (simp add: atomicP_def)

text \<open>What an atomic block changes besides the writes of its body.\<close>

definition bookkeeping :: "nat \<Rightarrow> bool \<Rightarrow> effect list \<Rightarrow> effect list \<Rightarrow> db \<Rightarrow> db" where
  "bookkeeping n b es cs s = s\<lparr>next_id := n, in_atomic := b, outbox := es, on_commit := cs\<rparr>"

lemma leave_atomic_bookkeeping:
  "\<exists>b es cs. leave_atomic s t = bookkeeping (next_id t) b es cs t"
  unfolding leave_atomic_def bookkeeping_def by (cases t) auto

lemma leave_atomic_simps [simp]:
  "baskets (leave_atomic s t) = baskets t" "basket_items (leave_atomic s t) = basket_items t"
  "basket_discounts (leave_atomic s t) = basket_discounts t" "next_id (leave_atomic s t) = next_id t"
  "orders (leave_atomic s t) = orders t" "order_lines (leave_atomic s t) = order_lines t"
  "redemptions (leave_atomic s t) = redemptions t" "transactions (leave_atomic s t) = transactions t"
  "products (leave_atomic s t) = products t" "versions (leave_atomic s t) = versions t"
  "discounts (leave_atomic s t) = discounts t" "now (leave_atomic s t) = now t"
  "run_enrollments (leave_atomic s t) = run_enrollments t"
  "program_enrollments (leave_atomic s t) = program_enrollments t"
  "paid_course_runs (leave_atomic s t) = paid_course_runs t"
  "paid_programs (leave_atomic s t) = paid_programs t"
  "exchange_rates (leave_atomic s t) = exchange_rates t"
  by (simp_all add: leave_atomic_def)

text \<open>\<open>purchasable_object\<close> of a product, \<open>purchased_object\<close> of a line: generic foreign keys,
  \<open>None\<close> where the object does not exist.\<close>

definition resolve_object :: "db \<Rightarrow> content_type \<Rightarrow> nat \<Rightarrow> purchasable option" where
  "resolve_object s ct oid =
     (case ct of
        CT_CourseRun \<Rightarrow> map_option PurchRun (first (filter (\<lambda>r. run_id r = oid) (course_runs s)))
      | CT_Program \<Rightarrow> map_option PurchProgram (first (filter (\<lambda>p. prg_id p = oid) (programs s))))"

definition purchasable_object :: "db \<Rightarrow> Product \<Rightarrow> purchasable option" where
  "purchasable_object s p = resolve_object s (prod_content_type p) (prod_object_id p)"

definition purchased_object :: "db \<Rightarrow> Line \<Rightarrow> purchasable option" where
  "purchased_object s l =
     (case (ln_purchased_content_type l, ln_purchased_object_id l) of
        (Some ct, Some oid) \<Rightarrow> resolve_object s ct oid
      | _ \<Rightarrow> None)"

definition is_product_courserun :: "db \<Rightarrow> Product \<Rightarrow> bool" where
  "is_product_courserun s p = (case purchasable_object s p of Some (PurchRun _) \<Rightarrow> True | _ \<Rightarrow> False)"

definition is_product_program :: "db \<Rightarrow> Product \<Rightarrow> bool" where
  "is_product_program s p = (case purchasable_object s p of Some (PurchProgram _) \<Rightarrow> True | _ \<Rightarrow> False)"

text \<open>Rows of the related tables of one object.\<close>

definition find_user :: "db \<Rightarrow> nat \<Rightarrow> User option" where
  "find_user s u = first (filter (\<lambda>r. usr_id r = u) (users s))"

definition items_of :: "db \<Rightarrow> nat \<Rightarrow> BasketItem list" where
  "items_of s b = filter (\<lambda>i. bi_basket i = b) (basket_items s)"

definition basket_discounts_of :: "db \<Rightarrow> nat \<Rightarrow> BasketDiscount list" where
  "basket_discounts_of s b = filter (\<lambda>d. bd_redeemed_basket d = b) (basket_discounts s)"

definition lines_of :: "db \<Rightarrow> nat \<Rightarrow> Line list" where
  "lines_of s o1 = filter (\<lambda>l. ln_order l = o1) (order_lines s)"

definition redemptions_of_order :: "db \<Rightarrow> nat \<Rightarrow> DiscountRedemption list" where
  "redemptions_of_order s o1 = filter (\<lambda>r. rd_redeemed_order r = o1) (redemptions s)"

definition transactions_of :: "db \<Rightarrow> nat \<Rightarrow> Transaction list" where
  "transactions_of s o1 = filter (\<lambda>t. tx_order t = o1) (transactions s)"

definition find_order :: "db \<Rightarrow> nat \<Rightarrow> Order option" where
  "find_order s o1 = first (filter (\<lambda>r. ord_id r = o1) (orders s))"

definition order_state :: "db \<Rightarrow> nat \<Rightarrow> OrderStatus option" where
  "order_state s o1 = map_option ord_state (find_order s o1)"

definition update_order :: "nat \<Rightarrow> (Order \<Rightarrow> Order) \<Rightarrow> db \<Rightarrow> db" where
  "update_order o1 f s = s\<lparr>orders := update_rows (\<lambda>r. ord_id r = o1) f (orders s)\<rparr>"

lemma find_order_update:
  "(\<And>r. ord_id (f r) = ord_id r) \<Longrightarrow>
   find_order (update_order o1 f s) o2 =
     (if o1 = o2 then map_option f (find_order s o2) else find_order s o2)"
proof -
  assume id: "\<And>r. ord_id (f r) = ord_id r"
  have "find_order (update_order o1 f s) o2 =
      map_option (\<lambda>x. if ord_id x = o1 then f x else x) (find_order s o2)"
    unfolding find_order_def update_order_def by (simp add: first_update_rows id)
  moreover have "\<And>x. find_order s o2 = Some x \<Longrightarrow> ord_id x = o2"
    unfolding find_order_def by (drule first_filter_SomeD) simp
  ultimately show ?thesis by (cases "find_order s o2") auto
qed

lemma order_state_update:
  "(\<And>r. ord_id (f r) = ord_id r) \<Longrightarrow> (\<And>r. ord_state (f r) = ord_state r) \<Longrightarrow>
   order_state (update_order o1 f s) o2 = order_state s o2"
  by (simp add: order_state_def find_order_update option.map_comp comp_def)

lemma find_order_id: "find_order s o1 = Some r \<Longrightarrow> ord_id r = o1"
  unfolding find_order_def by (drule first_filter_SomeD) simp

end
