(* ===== verification/Courseware.thy ===== *)
theory Courseware
  imports Schema
begin

text \<open>
  Courses, course runs and programs (\<open>src/courses/models.py\<close>, \<open>src/courses/utils.py\<close>): when a
  run is past, in progress, upgradable, enrollable, also as the query-set filters that are
  meant to agree with those properties; the run a course offers first; the programs related to
  a program; which objects are UAI.
\<close>

section \<open>Course runs and the clock\<close>

definition verified_mode :: string where "verified_mode = ''verified''"
definition audit_mode :: string where "audit_mode = ''audit''"

definition is_past :: "db \<Rightarrow> CourseRun \<Rightarrow> bool" where
  "is_past s r = (case run_end_date r of None \<Rightarrow> False | Some e \<Rightarrow> e < now s)"

definition is_in_progress :: "db \<Rightarrow> CourseRun \<Rightarrow> bool" where
  "is_in_progress s r =
     (case run_start_date r of None \<Rightarrow> False
      | Some b \<Rightarrow>
          (if b > now s then False
           else \<not> (case run_end_date r of None \<Rightarrow> False | Some e \<Rightarrow> e \<le> now s)))"

definition run_has_product :: "db \<Rightarrow> CourseRun \<Rightarrow> bool" where
  "run_has_product s r =
     exists_row (\<lambda>p. prod_is_active p \<and> prod_content_type p = CT_CourseRun \<and>
                     prod_object_id p = run_id r) (products s)"

definition is_upgradable :: "db \<Rightarrow> CourseRun \<Rightarrow> bool" where
  "is_upgradable s r =
     (let has_product = run_has_product s r;
          has_verified_mode = verified_mode \<in> set (run_enrollment_modes r)
      in run_live r
         \<and> (case run_upgrade_deadline r of None \<Rightarrow> True | Some d \<Rightarrow> d > now s)
         \<and> has_product \<and> has_verified_mode)"

definition is_enrollable :: "db \<Rightarrow> CourseRun \<Rightarrow> bool" where
  "is_enrollable s r \<longleftrightarrow>
     (run_enrollment_end r = None \<or> (\<exists>e. run_enrollment_end r = Some e \<and> e > now s))
     \<and> run_enrollment_start r \<noteq> None
     \<and> (\<exists>b. run_enrollment_start r = Some b \<and> b \<le> now s)
     \<and> run_live r
     \<and> run_start_date r \<noteq> None"

lemma is_enrollable_code [code]:
  "is_enrollable s r =
     ((case run_enrollment_end r of None \<Rightarrow> True | Some e \<Rightarrow> e > now s)
      \<and> (case run_enrollment_start r of None \<Rightarrow> False | Some b \<Rightarrow> b \<le> now s)
      \<and> run_live r \<and> run_start_date r \<noteq> None)"
  by (auto simp: is_enrollable_def split: option.splits)

definition is_enrollable_for_b2b :: "db \<Rightarrow> CourseRun \<Rightarrow> bool" where
  "is_enrollable_for_b2b s r =
     (case run_b2b_contract r of None \<Rightarrow> False
      | Some c \<Rightarrow>
          (case ctr_max_learners c of
             None \<Rightarrow> is_enrollable s r
           | Some m \<Rightarrow>
               if m = 0 then is_enrollable s r
               else count_rows (\<lambda>e. run_id (cre_run e) = run_id r \<and> cre_active e
                                    \<and> cre_change_status e = None) (run_enrollments s) < m
                    \<and> is_enrollable s r))"

definition is_fake_course_run :: "CourseRun \<Rightarrow> bool" where
  "is_fake_course_run r = (take 4 (run_tag r) = ''fake'')"

section \<open>The same conditions as query-set filters\<close>

text \<open>SQL comparisons with NULL are not true: a \<open>Q(f__gt=x)\<close> on a null column drops the row.\<close>

definition q_gt :: "int option \<Rightarrow> int \<Rightarrow> bool" where
  "q_gt f x = (case f of None \<Rightarrow> False | Some v \<Rightarrow> v > x)"

definition q_lte :: "int option \<Rightarrow> int \<Rightarrow> bool" where
  "q_lte f x = (case f of None \<Rightarrow> False | Some v \<Rightarrow> v \<le> x)"

definition q_lt :: "int option \<Rightarrow> int \<Rightarrow> bool" where
  "q_lt f x = (case f of None \<Rightarrow> False | Some v \<Rightarrow> v < x)"

definition q_gte :: "int option \<Rightarrow> int \<Rightarrow> bool" where
  "q_gte f x = (case f of None \<Rightarrow> False | Some v \<Rightarrow> v \<ge> x)"

lemmas q_defs = q_gt_def q_lte_def q_lt_def q_gte_def

definition get_enrollable_filter :: "db \<Rightarrow> int option \<Rightarrow> CourseRun \<Rightarrow> bool" where
  "get_enrollable_filter s enrollment_end_date r =
     (let cutoff = (case enrollment_end_date of None \<Rightarrow> now s | Some d \<Rightarrow> d)
      in (run_enrollment_end r = None \<or> q_gt (run_enrollment_end r) cutoff)
         \<and> run_enrollment_start r \<noteq> None
         \<and> q_lte (run_enrollment_start r) (now s)
         \<and> run_live r
         \<and> run_start_date r \<noteq> None)"

definition enrollable :: "db \<Rightarrow> int option \<Rightarrow> CourseRun list \<Rightarrow> CourseRun list" where
  "enrollable s d rs = filter (get_enrollable_filter s d) rs"

definition unenrollable_filter :: "db \<Rightarrow> CourseRun \<Rightarrow> bool" where
  "unenrollable_filter s r \<longleftrightarrow>
     \<not> run_live r \<or> run_start_date r = None
     \<or> (q_lte (run_enrollment_end r) (now s) \<or> q_gt (run_enrollment_start r) (now s))"

definition unenrollable :: "db \<Rightarrow> CourseRun list \<Rightarrow> CourseRun list" where
  "unenrollable s rs = filter (unenrollable_filter s) rs"

definition live_runs :: "bool \<Rightarrow> CourseRun list \<Rightarrow> CourseRun list" where
  "live_runs include_b2b rs =
     filter (\<lambda>r. run_live r \<and> (include_b2b \<or> run_b2b_contract r = None)) rs"

definition available :: "db \<Rightarrow> bool \<Rightarrow> CourseRun list \<Rightarrow> CourseRun list" where
  "available s include_b2b rs =
     filter (\<lambda>r. (include_b2b \<or> run_b2b_contract r = None)
                 \<and> (run_end_date r = None \<or> q_gt (run_end_date r) (now s))) rs"

text \<open>The default manager of \<open>CourseRun\<close> hides source runs.\<close>

definition usable_runs :: "db \<Rightarrow> CourseRun list" where
  "usable_runs s = filter (\<lambda>r. \<not> (run_is_source_run r \<or> run_tag r = ''SOURCE'')) (course_runs s)"

definition get_enrollable_courseruns_qs :: "db \<Rightarrow> int option \<Rightarrow> nat list option \<Rightarrow> CourseRun list" where
  "get_enrollable_courseruns_qs s d valid_courses =
     (let qs = enrollable s d (usable_runs s)
      in case valid_courses of
           Some cs \<Rightarrow> if cs = [] then qs else filter (\<lambda>r. crs_id (run_course r) \<in> set cs) qs
         | None \<Rightarrow> qs)"

definition get_enrollable_courses :: "db \<Rightarrow> int option \<Rightarrow> Course list \<Rightarrow> Course list" where
  "get_enrollable_courses s d cs =
     filter (\<lambda>c. exists_row (\<lambda>r. crs_id (run_course r) = crs_id c) (enrollable s d (usable_runs s))) cs"

definition get_unenrollable_courses :: "db \<Rightarrow> Course list \<Rightarrow> Course list" where
  "get_unenrollable_courses s cs =
     filter (\<lambda>c. exists_row (\<lambda>r. crs_id (run_course r) = crs_id c) (unenrollable s (usable_runs s))) cs"

definition get_archived_courseruns :: "db \<Rightarrow> CourseRun list \<Rightarrow> CourseRun list" where
  "get_archived_courseruns s rs =
     filter (\<lambda>r. get_enrollable_filter s (Some (now s)) r \<and> q_lt (run_end_date r) (now s)
                 \<and> (run_enrollment_end r = None \<or> q_gt (run_enrollment_end r) (now s))) rs"

definition get_dated_courseruns :: "db \<Rightarrow> CourseRun list \<Rightarrow> CourseRun list" where
  "get_dated_courseruns s rs = filter (\<lambda>r. get_enrollable_filter s None r \<and> \<not> run_is_self_paced r) rs"

lemma get_enrollable_filter_now: "get_enrollable_filter s None r = is_enrollable s r"
  by (auto simp: get_enrollable_filter_def is_enrollable_def q_defs split: option.splits)

lemma get_enrollable_filter_at_now: "get_enrollable_filter s (Some (now s)) r = is_enrollable s r"
  by (auto simp: get_enrollable_filter_def is_enrollable_def q_defs split: option.splits)

lemma enrollable_not_unenrollable: "is_enrollable s r \<Longrightarrow> \<not> unenrollable_filter s r"
  by (auto simp: is_enrollable_def unenrollable_filter_def q_defs split: option.splits)

lemma neither_enrollable_nor_unenrollable:
  "(\<not> is_enrollable s r \<and> \<not> unenrollable_filter s r) \<longleftrightarrow>
     run_live r \<and> run_start_date r \<noteq> None \<and> run_enrollment_start r = None
     \<and> \<not> q_lte (run_enrollment_end r) (now s)"
  by (auto simp: is_enrollable_def unenrollable_filter_def q_defs split: option.splits)

section \<open>Saving a course run\<close>

text \<open>
  \<open>CourseRun.clean\<close>; \<open>lang_known\<close> is whether \<open>pycountry.languages.lookup\<close> finds the code, or
  the code is one of the overrides in the settings of the variants.
\<close>

definition clean_language :: "(string \<Rightarrow> bool) \<Rightarrow> string \<Rightarrow> exn + unit" where
  "clean_language lang_known l =
     (if l = [] then Inr () else if lang_known l then Inr () else Inl ValidationError)"

definition clean_course_run :: "(string \<Rightarrow> bool) \<Rightarrow> CourseRun \<Rightarrow> exn + unit" where
  "clean_course_run lang_known r =
     bindE (clean_language lang_known (run_language r)) (\<lambda>_.
       case run_expiration_date r of None \<Rightarrow> Inr ()
       | Some x \<Rightarrow>
           if q_gt (run_start_date r) x then Inl ValidationError
           else if q_gt (run_end_date r) x then Inl ValidationError
           else Inr ())"

lemma clean_course_run_ok:
  "clean_course_run lang_known r = Inr () \<Longrightarrow> run_expiration_date r = Some x \<Longrightarrow>
   (\<forall>b. run_start_date r = Some b \<longrightarrow> b \<le> x) \<and> (\<forall>e. run_end_date r = Some e \<longrightarrow> e \<le> x)"
  by (auto simp: clean_course_run_def bindE_def q_defs split: sum.splits if_splits option.splits)

section \<open>The run a course offers first\<close>

definition start_key :: "CourseRun \<Rightarrow> int" where
  "start_key r = (case run_start_date r of None \<Rightarrow> 0 | Some b \<Rightarrow> b)"

text \<open>\<open>order_by("start_date", "-is_primary_language").first()\<close>\<close>

definition first_by_start :: "CourseRun list \<Rightarrow> CourseRun option" where
  "first_by_start rs =
     first (sort_key start_key (sort_key (\<lambda>r. if run_is_primary_language r then 0 else 1 :: nat) rs))"

definition canonical_language :: "CourseRun \<Rightarrow> bool" where
  "canonical_language r \<longleftrightarrow> run_is_primary_language r \<or> run_language r \<in> {'''', ''en''}"

definition best_run :: "db \<Rightarrow> CourseRun list \<Rightarrow> CourseRun option" where
  "best_run s rs =
     (let open_runs = filter canonical_language (enrollable s None rs)
      in case first_by_start
               (filter (\<lambda>r. run_end_date r = None \<or> q_gt (run_end_date r) (now s)) open_runs) of
           Some r \<Rightarrow> Some r
         | None \<Rightarrow> first_by_start open_runs)"

definition runs_of_course :: "db \<Rightarrow> nat \<Rightarrow> CourseRun list" where
  "runs_of_course s c = filter (\<lambda>r. crs_id (run_course r) = c) (course_runs s)"

definition first_unexpired_run :: "db \<Rightarrow> Course \<Rightarrow> CourseRun option" where
  "first_unexpired_run s c =
     best_run s (filter (\<lambda>r. run_b2b_contract r = None)
                        (filter (\<lambda>r. crs_id (run_course r) = crs_id c) (usable_runs s)))"

definition get_first_unexpired_b2b_run :: "db \<Rightarrow> Course \<Rightarrow> nat list \<Rightarrow> CourseRun option" where
  "get_first_unexpired_b2b_run s c user_contracts =
     best_run s (filter (\<lambda>r. case run_b2b_contract r of None \<Rightarrow> False
                             | Some k \<Rightarrow> ctr_id k \<in> set user_contracts)
                        (filter (\<lambda>r. crs_id (run_course r) = crs_id c) (usable_runs s)))"

definition get_filtered_runs ::
  "db \<Rightarrow> Course \<Rightarrow> bool option \<Rightarrow> nat option \<Rightarrow> nat option \<Rightarrow> CourseRun list" where
  "get_filtered_runs s c courserun_is_enrollable org_id contract_id =
     (let rs = sort_key run_id (filter (\<lambda>r. crs_id (run_course r) = crs_id c) (usable_runs s));
          rs = (case courserun_is_enrollable of None \<Rightarrow> rs
                | Some b \<Rightarrow> filter (\<lambda>r. is_enrollable s r = b) rs);
          rs = (case org_id of None \<Rightarrow> rs
                | Some oid \<Rightarrow> filter (\<lambda>r. map_option ctr_organization (run_b2b_contract r) = Some oid) rs);
          rs = (case contract_id of None \<Rightarrow> rs
                | Some k \<Rightarrow> filter (\<lambda>r. map_option ctr_id (run_b2b_contract r) = Some k) rs)
      in if org_id = None \<and> contract_id = None
         then filter (\<lambda>r. run_b2b_contract r = None) rs else rs)"

definition active_products :: "db \<Rightarrow> Course \<Rightarrow> Product list" where
  "active_products s c =
     (case first_unexpired_run s c of None \<Rightarrow> []
      | Some r \<Rightarrow> filter (\<lambda>p. prod_is_active p \<and> prod_content_type p = CT_CourseRun
                              \<and> prod_object_id p = run_id r) (products s))"

lemma first_eq_hd: "first xs = (if xs = [] then None else Some (hd xs))"
  by (cases xs) auto

lemma first_by_start_None [simp]: "first_by_start rs = None \<longleftrightarrow> rs = []"
  by (simp add: first_by_start_def first_eq_hd) (metis set_empty set_sort)

lemma first_by_start_Some:
  assumes "first_by_start rs = Some r"
  shows "r \<in> set rs" and "\<And>x. x \<in> set rs \<Longrightarrow> start_key r \<le> start_key x"
proof -
  let ?p = "sort_key (\<lambda>r. if run_is_primary_language r then 0 else 1 :: nat) rs"
  let ?l = "sort_key start_key ?p"
  have ne: "?l \<noteq> []" and r: "r = hd ?l"
    using assms by (auto simp: first_by_start_def first_eq_hd split: if_splits)
  have set: "set ?l = set rs" by simp
  then show "r \<in> set rs" using ne r by (metis list.set_sel(1))
  have "sorted (map start_key ?l)" by simp
  then have "\<forall>x \<in> set ?l. start_key (hd ?l) \<le> start_key x"
    using ne by (cases ?l) auto
  then show "\<And>x. x \<in> set rs \<Longrightarrow> start_key r \<le> start_key x" using set r by simp
qed

section \<open>Programs\<close>

definition related_programs_qs :: "db \<Rightarrow> Program \<Rightarrow> RelatedProgram list" where
  "related_programs_qs s p =
     filter (\<lambda>r. prg_id (rel_first r) = prg_id p \<or> prg_id (rel_second r) = prg_id p) (related_programs s)"

definition related_programs_of :: "db \<Rightarrow> Program \<Rightarrow> Program list" where
  "related_programs_of s p =
     map (\<lambda>r. if prg_id (rel_first r) = prg_id p then rel_second r else rel_first r)
         (related_programs_qs s p)"

definition add_related_program :: "Program \<Rightarrow> Program \<Rightarrow> RelatedProgram op" where
  "add_related_program self program = (\<lambda>s.
     let qs = filter (\<lambda>r. prg_id (rel_first r) = prg_id program \<or> prg_id (rel_second r) = prg_id program)
                     (related_programs_qs s self)
     in if qs = []
        then let r = \<lparr>rel_first = self, rel_second = program\<rparr>
             in (Inr r, s\<lparr>related_programs := related_programs s @ [r]\<rparr>)
        else (get_one qs, s))"

text \<open>\<open>Course.programs\<close>: the programs that have the course as a requirement, by program id.\<close>

definition find_program :: "db \<Rightarrow> nat \<Rightarrow> Program option" where
  "find_program s k = first (filter (\<lambda>p. prg_id p = k) (programs s))"

definition programs_of_course :: "db \<Rightarrow> Course \<Rightarrow> Program list" where
  "programs_of_course s c =
     List.map_filter (find_program s)
       (sort (remdups (map req_program
         (filter (\<lambda>q. req_node_type q = NT_COURSE \<and> map_option crs_id (req_course q) = Some (crs_id c))
                 (requirements s)))))"

definition is_country_blocked :: "Course \<Rightarrow> User \<Rightarrow> bool" where
  "is_country_blocked c u = (usr_country u \<in> set (crs_blocked_countries c))"

section \<open>UAI courseware\<close>

definition starts_with :: "string \<Rightarrow> string \<Rightarrow> bool" where
  "starts_with p t = (take (length p) t = p)"

definition is_uai_course_run :: "CourseRun option \<Rightarrow> bool" where
  "is_uai_course_run r =
     (case r of None \<Rightarrow> False
      | Some r \<Rightarrow> run_courseware_id r \<noteq> []
                  \<and> (starts_with ''UAI_'' (run_courseware_id r)
                     \<or> starts_with ''course-v1:UAI_'' (run_courseware_id r)))"

definition is_uai_program :: "Program option \<Rightarrow> bool" where
  "is_uai_program p =
     (case p of None \<Rightarrow> False
      | Some p \<Rightarrow> prg_readable_id p \<noteq> [] \<and> starts_with ''program-v1:UAI'' (prg_readable_id p))"

text \<open>A string split at the last \<open>+\<close>: the course number of a readable id.\<close>

definition course_number :: "string \<Rightarrow> string" where
  "course_number rid = rev (takeWhile (\<lambda>c. c \<noteq> CHR ''+'') (rev rid))"

definition program_run_readable_id :: "ProgramRun \<Rightarrow> string" where
  "program_run_readable_id pr = prg_readable_id (prun_program pr) @ ''+'' @ prun_run_tag pr"

definition is_grade_valid :: "rat \<Rightarrow> bool" where
  "is_grade_valid g \<longleftrightarrow> 0 \<le> g \<and> g \<le> 1"

text \<open>\<open>re.match("^[A-F]$", s)\<close>; \<open>$\<close> also matches before a final newline.\<close>

definition is_letter_grade_valid :: "string \<Rightarrow> bool" where
  "is_letter_grade_valid t =
     (case t of [c] \<Rightarrow> c \<in> set ''ABCDEF''
      | [c, d] \<Rightarrow> c \<in> set ''ABCDEF'' \<and> d = CHR 0x0A
      | _ \<Rightarrow> False)"

definition not_ended :: "db \<Rightarrow> CourseRun \<Rightarrow> bool" where
  "not_ended s r \<longleftrightarrow> (case run_end_date r of None \<Rightarrow> True | Some e \<Rightarrow> now s < e)"

text \<open>The run offered first: enrollable, in the course's language, before its end when there is
  such a run, and the earliest of those.\<close>

lemma best_run_Some:
  assumes "best_run s rs = Some r"
  shows "r \<in> set rs \<and> is_enrollable s r \<and> canonical_language r
    \<and> (\<forall>x \<in> set rs. is_enrollable s x \<and> canonical_language x \<and> not_ended s x \<longrightarrow>
          not_ended s r \<and> start_key r \<le> start_key x)"
proof -
  let ?open = "filter canonical_language (enrollable s None rs)"
  let ?p = "\<lambda>r. run_end_date r = None \<or> q_gt (run_end_date r) (now s)"
  have p: "?p = not_ended s" by (auto simp: fun_eq_iff not_ended_def q_defs split: option.split)
  have mem: "x \<in> set ?open \<longleftrightarrow> x \<in> set rs \<and> is_enrollable s x \<and> canonical_language x" for x
    by (auto simp: enrollable_def get_enrollable_filter_now)
  have run: "best_run s rs = (case first_by_start (filter ?p ?open) of Some r \<Rightarrow> Some r | None \<Rightarrow> first_by_start ?open)"
    unfolding best_run_def Let_def by (rule refl)
  show ?thesis
  proof (cases "first_by_start (filter ?p ?open)")
    case None
    then have "first_by_start ?open = Some r" using assms unfolding run None option.case by blast
    from first_by_start_Some(1) [OF this] show ?thesis
      using None mem unfolding p first_by_start_None filter_empty_conv by blast
  next
    case (Some x)
    then have "first_by_start (filter (not_ended s) ?open) = Some r" using assms unfolding run p by simp
    note f = first_by_start_Some [OF this]
    have "r \<in> set ?open" "not_ended s r" using f(1) by simp_all
    moreover have "start_key r \<le> start_key x" if "x \<in> set ?open" "not_ended s x" for x
      using that by (intro f(2)) simp
    ultimately show ?thesis unfolding mem by blast
  qed
qed

lemma best_run_None:
  "best_run s rs = None \<longleftrightarrow> (\<forall>x \<in> set rs. \<not> (is_enrollable s x \<and> canonical_language x))"
proof
  assume n: "best_run s rs = None"
  then have "filter canonical_language (enrollable s None rs) = []"
    unfolding best_run_def Let_def by (auto split: option.splits)
  then show "\<forall>x \<in> set rs. \<not> (is_enrollable s x \<and> canonical_language x)"
    by (auto simp: filter_empty_conv enrollable_def get_enrollable_filter_now)
next
  assume "\<forall>x \<in> set rs. \<not> (is_enrollable s x \<and> canonical_language x)"
  then show "best_run s rs = None" using best_run_Some [of s rs] by (cases "best_run s rs") blast+
qed

text \<open>The run that a course offers first.\<close>

lemma run_offered_first:
  "(case first_unexpired_run s c of
      None \<Rightarrow> (\<forall>x \<in> set (usable_runs s). crs_id (run_course x) = crs_id c \<longrightarrow> run_b2b_contract x = None \<longrightarrow>
                 \<not> (is_enrollable s x \<and> canonical_language x))
    | Some r \<Rightarrow> r \<in> set (usable_runs s) \<and> crs_id (run_course r) = crs_id c \<and> run_b2b_contract r = None
        \<and> is_enrollable s r \<and> canonical_language r
        \<and> (\<forall>x \<in> set (usable_runs s). crs_id (run_course x) = crs_id c \<and> run_b2b_contract x = None
              \<and> is_enrollable s x \<and> canonical_language x \<and> not_ended s x \<longrightarrow>
              not_ended s r \<and> start_key r \<le> start_key x))"
proof (cases "first_unexpired_run s c")
  case None
  then have "\<forall>x \<in> set (usable_runs s). crs_id (run_course x) = crs_id c \<longrightarrow> run_b2b_contract x = None \<longrightarrow>
      \<not> (is_enrollable s x \<and> canonical_language x)"
    unfolding first_unexpired_run_def best_run_None by simp
  then show ?thesis by (simp add: None)
next
  case (Some r)
  show ?thesis
    using best_run_Some [OF Some [unfolded first_unexpired_run_def]] unfolding Some option.case set_filter by blast
qed

end
