(* ===== verification/Discounts.thy ===== *)
theory Discounts
  imports Courseware
begin

text \<open>
  Discounts (\<open>src/ecommerce/discounts.py\<close> and the models \<open>Discount\<close>, \<open>DiscountProduct\<close>,
  \<open>UserDiscount\<close>, \<open>DiscountRedemption\<close> of \<open>src/ecommerce/models.py\<close>): the price a discount
  gives a product, the best price of a list of discounts, and when a discount may be redeemed.
\<close>

section \<open>Product versions\<close>

definition versions_for :: "db \<Rightarrow> Product \<Rightarrow> Version list" where
  "versions_for s p = filter (\<lambda>v. ver_object_id v = prod_id p) (versions s)"

definition resolve_product_version :: "db \<Rightarrow> Product \<Rightarrow> Version option \<Rightarrow> exn + Product" where
  "resolve_product_version s product product_version =
     (case product_version of None \<Rightarrow> Inr product
      | Some v \<Rightarrow>
          (let vs = versions_for s product
           in if vs = [] then Inr product
              else (case first (filter (\<lambda>t. ver_id t = ver_id v) vs) of
                      Some t \<Rightarrow> Inr (ver_field_dict t)
                    | None \<Rightarrow> Inl PyTypeError)))"

section \<open>The price a discount gives\<close>

definition percent_off_price :: "Discount \<Rightarrow> Product \<Rightarrow> rat" where
  "percent_off_price d p =
     quantize2 (prod_price p - prod_price p * (disc_amount d / 100))"

definition dollars_off_price :: "Discount \<Rightarrow> Product \<Rightarrow> rat" where
  "dollars_off_price d p =
     (if prod_price p < disc_amount d then 0 else prod_price p - disc_amount d)"

definition fixed_price :: "Discount \<Rightarrow> Product \<Rightarrow> rat" where
  "fixed_price d p = disc_amount d"

text \<open>\<open>DiscountType.for_discount\<close> looks the class up in the registry: an unknown type is a
  \<open>KeyError\<close>.\<close>

definition get_product_price :: "Discount \<Rightarrow> Product \<Rightarrow> exn + rat" where
  "get_product_price d p =
     (case disc_type d of
        PERCENT_OFF \<Rightarrow> Inr (percent_off_price d p)
      | DOLLARS_OFF \<Rightarrow> Inr (dollars_off_price d p)
      | FIXED_PRICE \<Rightarrow> Inr (fixed_price d p)
      | OTHER_DISCOUNT_TYPE \<Rightarrow> Inl PyKeyError)"

fun apply_discounts :: "Discount list \<Rightarrow> Product \<Rightarrow> rat \<Rightarrow> exn + rat" where
  "apply_discounts [] p price = Inr price"
| "apply_discounts (d # ds) p price =
     (case get_product_price d p of
        Inl e \<Rightarrow> Inl e
      | Inr x \<Rightarrow> apply_discounts ds p (min x price))"

definition get_discounted_price :: "db \<Rightarrow> Discount list \<Rightarrow> Product \<Rightarrow> Version option \<Rightarrow> exn + rat" where
  "get_discounted_price s ds product product_version =
     bindE (resolve_product_version s product product_version)
       (\<lambda>p. apply_discounts ds p (prod_price p))"

definition known_type :: "Discount \<Rightarrow> bool" where
  "known_type d \<longleftrightarrow> disc_type d \<noteq> OTHER_DISCOUNT_TYPE"

text \<open>The price function of a discount of a known type.\<close>

definition price_of :: "Discount \<Rightarrow> Product \<Rightarrow> rat" where
  "price_of d p = (case disc_type d of PERCENT_OFF \<Rightarrow> percent_off_price d p
     | DOLLARS_OFF \<Rightarrow> dollars_off_price d p | _ \<Rightarrow> fixed_price d p)"

lemma get_product_price_known: "known_type d \<Longrightarrow> get_product_price d p = Inr (price_of d p)"
  by (auto simp: known_type_def get_product_price_def price_of_def split: discount_type.splits)

text \<open>The loop computes the minimum of the list price and the discounted prices.\<close>

lemma apply_discounts_fold:
  "list_all known_type ds \<Longrightarrow>
   apply_discounts ds p x = Inr (foldr min (map (\<lambda>d. price_of d p) ds) x)"
proof (induction ds arbitrary: x)
  case (Cons d ds)
  have "foldr min ys (min a x) = min a (foldr min ys x)" for ys and a :: rat
    by (induction ys) (auto simp: min.left_commute)
  with Cons show ?case by (simp add: get_product_price_known)
qed simp

lemma foldr_min_le: "foldr min ys x \<le> (x :: rat)"
  by (induction ys) (auto simp: min.coboundedI2)

lemma foldr_min_le_elem: "y \<in> set ys \<Longrightarrow> foldr min ys x \<le> (y :: rat)"
  by (induction ys) (auto simp: min.coboundedI1 min.coboundedI2)

lemma foldr_min_in: "foldr min ys x = (x :: rat) \<or> foldr min ys x \<in> set ys"
  by (induction ys) (auto simp: min_def)

lemma foldr_min_Min: "foldr min ys x = Min (insert (x :: rat) (set ys))"
proof (rule Min_eqI [symmetric])
  show "foldr min ys x \<in> insert x (set ys)" using foldr_min_in [of ys x] by auto
  fix y assume "y \<in> insert x (set ys)"
  then show "foldr min ys x \<le> y" using foldr_min_le foldr_min_le_elem by auto
qed simp

lemma apply_discounts_Min:
  "list_all known_type ds \<Longrightarrow>
   apply_discounts ds p x = Inr (Min (insert x ((\<lambda>d. price_of d p) ` set ds)))"
  by (simp add: apply_discounts_fold foldr_min_Min)

lemma apply_discounts_unknown:
  "\<not> list_all known_type ds \<Longrightarrow> apply_discounts ds p x = Inl PyKeyError"
proof (induction ds arbitrary: x)
  case (Cons d ds)
  show ?case
  proof (cases "known_type d")
    case True
    with Cons show ?thesis by (simp add: get_product_price_known)
  next
    case False
    then show ?thesis by (simp add: get_product_price_def known_type_def)
  qed
qed simp

section \<open>Prices within their bounds\<close>

text \<open>
  A discount that the code's own checks would let through: a percentage of at most 100, no
  negative amount.
\<close>

definition sane_amount :: "Discount \<Rightarrow> bool" where
  "sane_amount d \<longleftrightarrow> known_type d \<and> 0 \<le> disc_amount d \<and> (disc_type d = PERCENT_OFF \<longrightarrow> disc_amount d \<le> 100)"

lemma percent_off_nonneg:
  assumes "0 \<le> prod_price p" "disc_amount d \<le> 100"
  shows "0 \<le> percent_off_price d p"
proof -
  have "prod_price p * (disc_amount d / 100) \<le> prod_price p * 1"
    using assms by (intro mult_left_mono) auto
  then show ?thesis by (simp add: percent_off_price_def quantize2_nonneg)
qed

lemma price_of_nonneg: "sane_amount d \<Longrightarrow> 0 \<le> prod_price p \<Longrightarrow> 0 \<le> price_of d p"
  by (auto simp: sane_amount_def price_of_def dollars_off_price_def fixed_price_def
      percent_off_nonneg split: discount_type.splits)

lemma apply_discounts_bounds:
  assumes "list_all sane_amount ds" "0 \<le> prod_price p" "apply_discounts ds p (prod_price p) = Inr x"
  shows "0 \<le> x" and "x \<le> prod_price p"
proof -
  have known: "list_all known_type ds"
    using assms(1) by (auto simp: list_all_iff sane_amount_def)
  then have x: "x = Min (insert (prod_price p) ((\<lambda>d. price_of d p) ` set ds))"
    using assms(3) by (simp add: apply_discounts_Min)
  show "x \<le> prod_price p" unfolding x by (rule Min_le) auto
  have "\<forall>y \<in> insert (prod_price p) ((\<lambda>d. price_of d p) ` set ds). 0 \<le> y"
    using assms(1,2) price_of_nonneg by (auto simp: list_all_iff)
  then show "0 \<le> x" unfolding x by (simp add: Min_ge_iff)
qed

lemma percent_off_cents: "is_cents (percent_off_price d p)"
  by (simp add: percent_off_price_def)

lemma percent_off_le:
  assumes "is_cents (prod_price p)" "0 \<le> prod_price p" "0 \<le> disc_amount d"
  shows "percent_off_price d p \<le> prod_price p"
  unfolding percent_off_price_def using assms by (intro quantize2_le) auto

text \<open>
  The columns hold a price of at most 7 digits, two of them after the point, and an amount of
  at most 20 digits, five of them after the point.  Every number that
  \<open>PercentDiscount\<close> computes is then an integer of at most 28 digits over a power of ten, so
  that the default decimal context (28 digits) rounds none of them.
\<close>

definition column_price :: "rat \<Rightarrow> bool" where
  "column_price x \<longleftrightarrow> (\<exists>c :: int. x = of_int c / 10 ^ 2 \<and> \<bar>c\<bar> < 10 ^ 7)"

definition column_amount :: "rat \<Rightarrow> bool" where
  "column_amount x \<longleftrightarrow> (\<exists>a :: int. x = of_int a / 10 ^ 5 \<and> \<bar>a\<bar> < 10 ^ 20)"

lemma percent_off_digits:
  assumes "column_price x" "column_amount a"
  shows "\<exists>n :: int. a / 100 = of_int n / 10 ^ 7 \<and> \<bar>n\<bar> < 10 ^ 28"
    and "\<exists>n :: int. x * (a / 100) = of_int n / 10 ^ 9 \<and> \<bar>n\<bar> < 10 ^ 28"
    and "\<exists>n :: int. x - x * (a / 100) = of_int n / 10 ^ 9 \<and> \<bar>n\<bar> < 10 ^ 28"
proof -
  obtain c b :: int where c: "x = of_int c / 10 ^ 2" "\<bar>c\<bar> < 10 ^ 7"
    and b: "a = of_int b / 10 ^ 5" "\<bar>b\<bar> < 10 ^ 20"
    using assms by (auto simp: column_price_def column_amount_def)
  have cb: "\<bar>c * b\<bar> \<le> 10 ^ 7 * 10 ^ 20"
    unfolding abs_mult using c(2) b(2) by (intro mult_mono) auto
  show "\<exists>n :: int. a / 100 = of_int n / 10 ^ 7 \<and> \<bar>n\<bar> < 10 ^ 28"
    using b by (intro exI [of _ b]) simp
  show "\<exists>n :: int. x * (a / 100) = of_int n / 10 ^ 9 \<and> \<bar>n\<bar> < 10 ^ 28"
    unfolding b(1) c(1) using cb by (intro exI [of _ "c * b"]) simp
  have "\<bar>10 ^ 7 * c - c * b\<bar> \<le> 10 ^ 7 * \<bar>c\<bar> + \<bar>c * b\<bar>"
    using abs_triangle_ineq4 [of "10 ^ 7 * c" "c * b"] by (simp add: abs_mult)
  also have "\<dots> < 10 ^ 28" using c(2) cb by simp
  finally have "\<bar>10 ^ 7 * c - c * b\<bar> < 10 ^ 28" .
  then show "\<exists>n :: int. x - x * (a / 100) = of_int n / 10 ^ 9 \<and> \<bar>n\<bar> < 10 ^ 28"
    unfolding b(1) c(1) by (intro exI [of _ "10 ^ 7 * c - c * b"]) (simp add: field_simps)
qed

section \<open>When a discount may be redeemed\<close>

definition check_date_validity :: "db \<Rightarrow> Discount \<Rightarrow> exn + bool" where
  "check_date_validity s d =
     (if q_lt (disc_expiration_date d) (now s) then Inl ValidationError
      else if (case (disc_expiration_date d, disc_activation_date d) of
                 (Some e, Some a) \<Rightarrow> a > e | _ \<Rightarrow> False) then Inl ValidationError
      else Inr True)"

text \<open>\<open>Discount.save\<close> of a new discount: the dates are checked before the row is written.\<close>

definition create_discount :: "Discount \<Rightarrow> Discount op" where
  "create_discount d =
     bindP (liftE (\<lambda>s. check_date_validity s d)) (\<lambda>ok.
     bindP fresh_id (\<lambda>i.
       let d' = d\<lparr>disc_id := i\<rparr>
       in if ok then thenP (modify (\<lambda>s. s\<lparr>discounts := discounts s @ [d']\<rparr>)) (ret d') else ret d'))"

definition is_redeemed :: "db \<Rightarrow> Discount \<Rightarrow> bool" where
  "is_redeemed s d = exists_row (\<lambda>r. disc_id (rd_redeemed_discount r) = disc_id d) (redemptions s)"

text \<open>Redemptions of the discount by orders that are fulfilled.\<close>

definition fulfilled_redemptions :: "db \<Rightarrow> Discount \<Rightarrow> DiscountRedemption list" where
  "fulfilled_redemptions s d =
     filter (\<lambda>r. disc_id (rd_redeemed_discount r) = disc_id d
                 \<and> order_state s (rd_redeemed_order r) = Some FULFILLED) (redemptions s)"

definition valid_now :: "db \<Rightarrow> Discount \<Rightarrow> bool" where
  "valid_now s d =
     (if q_gt (disc_activation_date d) (now s) then False
      else if q_lte (disc_expiration_date d) (now s) then False
      else True)"

definition check_validity :: "db \<Rightarrow> Discount \<Rightarrow> nat option \<Rightarrow> bool" where
  "check_validity s d user =
     (if disc_redemption_type d = ONE_TIME \<and> length (fulfilled_redemptions s d) > 0 then False
      else if disc_redemption_type d = ONE_TIME_PER_USER
              \<and> count_rows (\<lambda>r. Some (rd_redeemed_by r) = user) (fulfilled_redemptions s d) > 0
           then False
      else if (case disc_max_redemptions d of None \<Rightarrow> False
               | Some m \<Rightarrow> m > 0 \<and> length (fulfilled_redemptions s d) \<ge> m) then False
      else valid_now s d)"

definition products_of_discount :: "db \<Rightarrow> Discount \<Rightarrow> nat list" where
  "products_of_discount s d =
     List.map_filter dp_product (filter (\<lambda>r. dp_discount r = disc_id d) (discount_products s))"

definition discount_product_rows :: "db \<Rightarrow> Discount \<Rightarrow> DiscountProduct list" where
  "discount_product_rows s d = filter (\<lambda>r. dp_discount r = disc_id d) (discount_products s)"

definition discount_applies_to :: "db \<Rightarrow> Discount \<Rightarrow> Product list \<Rightarrow> bool" where
  "discount_applies_to s d ps =
     exists_row (\<lambda>r. case dp_product r of None \<Rightarrow> False | Some i \<Rightarrow> i \<in> prod_id ` set ps)
       (discount_product_rows s d)"

definition check_validity_with_products :: "db \<Rightarrow> Discount \<Rightarrow> Product list \<Rightarrow> bool" where
  "check_validity_with_products s d ps =
     (if discount_product_rows s d \<noteq> [] \<and> \<not> discount_applies_to s d ps then False
      else valid_now s d)"

definition user_discount_rows :: "db \<Rightarrow> Discount \<Rightarrow> UserDiscount list" where
  "user_discount_rows s d = filter (\<lambda>u. disc_id (ud_discount u) = disc_id d) (user_discounts s)"

text \<open>
  \<open>Discount.is_valid\<close>, its conjuncts in the order of the code: a comparison with a null
  \<open>max_redemptions\<close> is a \<open>TypeError\<close>, raised only when the earlier conjuncts hold.
\<close>

definition redemption_limit_valid :: "db \<Rightarrow> Discount \<Rightarrow> exn + bool" where
  "redemption_limit_valid s d =
     (case disc_max_redemptions d of
        None \<Rightarrow> Inl PyTypeError
      | Some m \<Rightarrow>
          Inr (m = 0 \<or> count_rows (\<lambda>r. disc_id (rd_redeemed_discount r) = disc_id d) (redemptions s) < m))"

definition is_valid :: "db \<Rightarrow> Discount \<Rightarrow> Basket \<Rightarrow> bool \<Rightarrow> exn + bool" where
  "is_valid s d basket allow_finaid =
     (if \<not> (allow_finaid \<or> disc_payment_type d \<noteq> Some FINANCIAL_ASSISTANCE) then Inr False
      else if \<not> (discount_product_rows s d = []
                 \<or> discount_applies_to s d (map bi_product (items_of s (bkt_id basket)))) then Inr False
      else if \<not> (user_discount_rows s d = []
                 \<or> exists_row (\<lambda>u. Some (ud_user u) = bkt_user basket) (user_discount_rows s d)) then Inr False
      else bindE (redemption_limit_valid s d) (\<lambda>ok.
        Inr (ok
             \<and> (case disc_activation_date d of None \<Rightarrow> True | Some a \<Rightarrow> now s \<ge> a)
             \<and> (case disc_expiration_date d of None \<Rightarrow> True | Some e \<Rightarrow> now s \<le> e))))"

definition discount_product :: "db \<Rightarrow> Discount \<Rightarrow> Product \<Rightarrow> nat option \<Rightarrow> exn + rat option" where
  "discount_product s d product user =
     (if (user = None \<and> valid_now s d) \<or> check_validity s d user
      then bindE (get_discounted_price s [d] product None) (\<lambda>x. Inr (Some (quantize2 x)))
      else Inr None)"

definition is_full_discount :: "Discount \<Rightarrow> bool" where
  "is_full_discount d \<longleftrightarrow>
     (disc_type d = PERCENT_OFF \<and> disc_amount d = 100) \<or> (disc_type d = FIXED_PRICE \<and> disc_amount d = 0)"

text \<open>\<open>Discount.b2b_contracts\<close>: the contracts of the runs that the discount's products sell.\<close>

definition b2b_contracts_of_discount :: "db \<Rightarrow> Discount \<Rightarrow> Contract list" where
  "b2b_contracts_of_discount s d =
     (let run_ids = map prod_object_id
            (filter (\<lambda>p. prod_content_type p = CT_CourseRun \<and> prod_id p \<in> set (products_of_discount s d))
                    (products s));
          cids = List.map_filter (\<lambda>r. map_option ctr_id (run_b2b_contract r))
                   (filter (\<lambda>r. run_id r \<in> set run_ids) (usable_runs s))
      in filter (\<lambda>c. ctr_id c \<in> set cids) (contracts s))"

text \<open>\<open>f"{amount:.2f}"\<close> and \<open>Discount.friendly_format\<close>.\<close>

definition format_decimal :: "rat \<Rightarrow> string" where
  "format_decimal x =
     (let n = half_even (x * 100); m = nat \<bar>n\<bar>;
          frac = show_nat (m mod 100)
      in (if x < 0 then ''-'' else '''') @ show_nat (m div 100) @ ''.''
         @ (if length frac < 2 then ''0'' else '''') @ frac)"

definition friendly_format :: "Discount \<Rightarrow> string" where
  "friendly_format d =
     (let amount = format_decimal (disc_amount d)
      in case disc_type d of
           PERCENT_OFF \<Rightarrow> amount @ ''% off''
         | DOLLARS_OFF \<Rightarrow> ''$'' @ amount @ '' off''
         | FIXED_PRICE \<Rightarrow> ''a fixed price of $'' @ amount
         | OTHER_DISCOUNT_TYPE \<Rightarrow> ''Indeterminate Discount'')"

section \<open>Facts about validity\<close>

lemma valid_now_iff:
  "valid_now s d \<longleftrightarrow> (\<forall>a. disc_activation_date d = Some a \<longrightarrow> a \<le> now s)
     \<and> (\<forall>e. disc_expiration_date d = Some e \<longrightarrow> now s < e)"
  by (auto simp: valid_now_def q_defs split: option.splits)

lemma check_validity_valid_now: "check_validity s d u \<Longrightarrow> valid_now s d"
  by (auto simp: check_validity_def split: if_splits option.splits)

lemma check_validity_one_time:
  "check_validity s d u \<Longrightarrow> disc_redemption_type d = ONE_TIME \<Longrightarrow> fulfilled_redemptions s d = []"
  by (auto simp: check_validity_def split: if_splits)

lemma check_validity_per_user:
  "check_validity s d (Some u) \<Longrightarrow> disc_redemption_type d = ONE_TIME_PER_USER \<Longrightarrow>
   r \<in> set (fulfilled_redemptions s d) \<Longrightarrow> rd_redeemed_by r \<noteq> u"
  by (force simp: check_validity_def count_rows_def filter_empty_conv split: if_splits)

lemma check_validity_limit:
  "check_validity s d u \<Longrightarrow> disc_max_redemptions d = Some m \<Longrightarrow> 0 < m \<Longrightarrow>
   length (fulfilled_redemptions s d) < m"
  by (auto simp: check_validity_def split: if_splits)

lemma check_validity_iff:
  "check_validity s d (Some u) \<longleftrightarrow>
     valid_now s d
     \<and> (disc_redemption_type d = ONE_TIME \<longrightarrow> fulfilled_redemptions s d = [])
     \<and> (disc_redemption_type d = ONE_TIME_PER_USER \<longrightarrow>
          (\<forall>r \<in> set (fulfilled_redemptions s d). rd_redeemed_by r \<noteq> u))
     \<and> (\<forall>m. disc_max_redemptions d = Some m \<longrightarrow> 0 < m \<longrightarrow> length (fulfilled_redemptions s d) < m)"
  by (auto simp: check_validity_def count_rows_def filter_empty_conv split: option.splits)

lemma get_discounted_price_one:
  "get_discounted_price s [d] p None =
     (if known_type d then Inr (min (price_of d p) (prod_price p)) else Inl PyKeyError)"
proof (cases "known_type d")
  case True
  then show ?thesis
    by (simp add: get_discounted_price_def resolve_product_version_def get_product_price_known)
next
  case False
  then show ?thesis
    by (simp add: get_discounted_price_def resolve_product_version_def get_product_price_def
        known_type_def)
qed

lemma full_discount_price:
  "is_full_discount d \<Longrightarrow> price_of d p = 0"
  by (auto simp: is_full_discount_def price_of_def percent_off_price_def fixed_price_def)

lemma full_discount_known: "is_full_discount d \<Longrightarrow> known_type d"
  by (auto simp: is_full_discount_def known_type_def)

end
