(* ===== verification/FlexiblePricing.thy ===== *)
theory FlexiblePricing
  imports Discounts
begin

text \<open>
  Financial assistance (\<open>src/flexiblepricing/api.py\<close>): which courseware a learner's
  application counts for, the tier of an income, when an application is approved without
  review, and the discount that an approved application gives a product.
\<close>

section \<open>Courseware of an application\<close>

text \<open>The content type and primary key that \<open>ContentType.objects.get_for_model\<close> and \<open>.id\<close> give.\<close>

fun courseware_key :: "courseware \<Rightarrow> string \<times> nat" where
  "courseware_key (CW_Course c) = (''course'', crs_id c)"
| "courseware_key (CW_Run r) = (''courserun'', run_id r)"
| "courseware_key (CW_Program p) = (''program'', prg_id p)"
| "courseware_key (CW_ProgramRun r) = (''programrun'', prun_id r)"

text \<open>
  The courseware that an object's price may be reduced for, in the order in which it is tried.
  A program run of a program with related programs indexes a \<open>Program\<close>: a \<open>TypeError\<close>.
\<close>

definition eligible_of_course :: "db \<Rightarrow> Course \<Rightarrow> courseware list" where
  "eligible_of_course s c =
     (let ps = programs_of_course s c
      in if ps \<noteq> []
         then map CW_Program ps @ [CW_Course c] @ map CW_Program (concat (map (related_programs_of s) ps))
         else [CW_Course c])"

fun get_ordered_eligible_coursewares :: "db \<Rightarrow> courseware \<Rightarrow> exn + courseware list" where
  "get_ordered_eligible_coursewares s (CW_Run r) = Inr (eligible_of_course s (run_course r))"
| "get_ordered_eligible_coursewares s (CW_Course c) = Inr (eligible_of_course s c)"
| "get_ordered_eligible_coursewares s (CW_ProgramRun r) =
     (if related_programs_of s (prun_program r) = [] then Inr [CW_Program (prun_program r)]
      else Inl PyTypeError)"
| "get_ordered_eligible_coursewares s (CW_Program p) = Inr [CW_Program p]"

definition courseware_of_purchasable :: "purchasable \<Rightarrow> courseware" where
  "courseware_of_purchasable x = (case x of PurchRun r \<Rightarrow> CW_Run r | PurchProgram p \<Rightarrow> CW_Program p)"

section \<open>The tier of an income\<close>

definition tier_candidates :: "db \<Rightarrow> courseware \<Rightarrow> rat \<Rightarrow> FlexiblePriceTier list" where
  "tier_candidates s c income =
     filter (\<lambda>t. tier_current t \<and> tier_income_threshold_usd t \<le> income
                 \<and> (tier_courseware_type t, tier_courseware_object_id t) = courseware_key c) (tiers s)"

definition best_tier :: "db \<Rightarrow> courseware \<Rightarrow> rat \<Rightarrow> FlexiblePriceTier option" where
  "best_tier s c income = first (sort_key (\<lambda>t. - tier_income_threshold_usd t) (tier_candidates s c income))"

fun find_tier :: "db \<Rightarrow> courseware list \<Rightarrow> rat \<Rightarrow> exn + FlexiblePriceTier" where
  "find_tier s [] income = Inl ImproperlyConfigured"
| "find_tier s (c # cs) income =
     (case best_tier s c income of Some t \<Rightarrow> Inr t | None \<Rightarrow> find_tier s cs income)"

definition determine_tier_courseware :: "db \<Rightarrow> courseware \<Rightarrow> rat \<Rightarrow> exn + FlexiblePriceTier" where
  "determine_tier_courseware s c income =
     bindE (get_ordered_eligible_coursewares s c) (\<lambda>cs. find_tier s cs income)"

section \<open>Approval without review\<close>

definition default_income_threshold :: int where "default_income_threshold = 75000"

definition determine_auto_approval :: "db \<Rightarrow> FlexiblePrice \<Rightarrow> FlexiblePriceTier \<Rightarrow> exn + bool" where
  "determine_auto_approval s fp tier =
     (let income_threshold =
            (case get_one (filter (\<lambda>c. Some (cit_country_code c) = fp_country_of_income fp)
                                  (country_thresholds s)) of
               Inr c \<Rightarrow> Inr (cit_income_threshold c)
             | Inl e \<Rightarrow> if e = ObjectDoesNotExist then Inr default_income_threshold else Inl e)
      in bindE income_threshold (\<lambda>t.
           if disc_amount (tier_discount tier) = 0 then Inr True
           else if t = 0 then Inr True
           else (case fp_income_usd fp of None \<Rightarrow> Inl PyTypeError
                 | Some i \<Rightarrow> Inr (i > of_int t))))"

section \<open>The discount of an approved application\<close>

definition is_approved :: "FlexiblePrice \<Rightarrow> bool" where
  "is_approved fp \<longleftrightarrow> fp_status fp = FP_APPROVED \<or> fp_status fp = FP_AUTO_APPROVED"

definition is_denied :: "FlexiblePrice \<Rightarrow> bool" where
  "is_denied fp \<longleftrightarrow> fp_status fp = FP_DENIED"

definition is_reset :: "FlexiblePrice \<Rightarrow> bool" where
  "is_reset fp \<longleftrightarrow> fp_status fp = FP_RESET"

definition applications :: "db \<Rightarrow> nat \<Rightarrow> courseware \<Rightarrow> FlexiblePrice list" where
  "applications s user c =
     filter (\<lambda>f. (fp_courseware_type f, fp_courseware_object_id f) = courseware_key c \<and> fp_user f = user)
       (flexible_prices s)"

text \<open>The discount of the application's tier, joined by a left join, is active now.\<close>

definition tier_discount_active :: "db \<Rightarrow> FlexiblePrice \<Rightarrow> bool" where
  "tier_discount_active s f =
     (case fp_tier f of None \<Rightarrow> True
      | Some t \<Rightarrow>
          (disc_activation_date (tier_discount t) = None
           \<or> q_lte (disc_activation_date (tier_discount t)) (now s))
          \<and> (disc_expiration_date (tier_discount t) = None
             \<or> q_gte (disc_expiration_date (tier_discount t)) (now s)))"

text \<open>\<open>flexible_price.tier.current and status in (...)\<close>; no tier is an \<open>AttributeError\<close>.\<close>

definition approved_tier :: "FlexiblePrice \<Rightarrow> exn + FlexiblePriceTier option" where
  "approved_tier f =
     (case fp_tier f of None \<Rightarrow> Inl PyAttributeError
      | Some t \<Rightarrow> Inr (if tier_current t \<and> is_approved f then Some t else None))"

fun flexible_price_discount_for :: "db \<Rightarrow> nat \<Rightarrow> courseware list \<Rightarrow> exn + Discount option" where
  "flexible_price_discount_for s user [] = Inr None"
| "flexible_price_discount_for s user (c # cs) =
     (case first (filter (tier_discount_active s) (applications s user c)) of
        None \<Rightarrow> flexible_price_discount_for s user cs
      | Some f \<Rightarrow> bindE (approved_tier f) (\<lambda>t.
          case t of Some t \<Rightarrow> Inr (Some (tier_discount t))
          | None \<Rightarrow> flexible_price_discount_for s user cs))"

text \<open>The product may be missing (a query set's \<open>first()\<close>), and so may the object it sells.\<close>

definition determine_courseware_flexible_price_discount ::
  "db \<Rightarrow> Product option \<Rightarrow> User \<Rightarrow> exn + Discount option" where
  "determine_courseware_flexible_price_discount s product user =
     (if \<not> usr_is_authenticated user then Inr None
      else (case product of None \<Rightarrow> Inr None
        | Some p \<Rightarrow>
            (case purchasable_object s p of None \<Rightarrow> Inl PyAttributeError
             | Some x \<Rightarrow>
                 bindE (get_ordered_eligible_coursewares s (courseware_of_purchasable x))
                   (flexible_price_discount_for s (usr_id user)))))"

fun flexible_price_approved_for :: "db \<Rightarrow> nat \<Rightarrow> courseware list \<Rightarrow> exn + bool" where
  "flexible_price_approved_for s user [] = Inr False"
| "flexible_price_approved_for s user (c # cs) =
     (case first (applications s user c) of
        None \<Rightarrow> flexible_price_approved_for s user cs
      | Some f \<Rightarrow> bindE (approved_tier f) (\<lambda>t.
          if t \<noteq> None then Inr True else flexible_price_approved_for s user cs))"

definition is_courseware_flexible_price_approved :: "db \<Rightarrow> CourseRun \<Rightarrow> User \<Rightarrow> exn + bool" where
  "is_courseware_flexible_price_approved s r user =
     (if \<not> usr_is_authenticated user then Inr False
      else bindE (get_ordered_eligible_coursewares s (CW_Run r))
             (flexible_price_approved_for s (usr_id user)))"

section \<open>Exchange rates\<close>

definition disallowed_currency_types :: "string list" where
  "disallowed_currency_types = [''CUP'', ''CUC'', ''IRR'', ''SYP'', ''KPW'']"

definition exchange_rate_row :: "(string \<times> string) list \<Rightarrow> string \<times> rat \<Rightarrow> CurrencyExchangeRate" where
  "exchange_rate_row descriptions r =
     \<lparr>cer_currency_code = fst r, cer_description = map_of descriptions (fst r), cer_exchange_rate = snd r\<rparr>"

definition update_currency_exchange_rate ::
  "(string \<times> rat) list \<Rightarrow> (string \<times> string) list \<Rightarrow> unit op" where
  "update_currency_exchange_rate rates descriptions =
     atomicP
       (thenP (modify (\<lambda>s. s\<lparr>exchange_rates := []\<rparr>))
         (forP (\<lambda>r. whenP (fst r \<notin> set disallowed_currency_types)
                     (modify (\<lambda>s. s\<lparr>exchange_rates := exchange_rates s @ [exchange_rate_row descriptions r]\<rparr>)))
               rates))"

lemma exchange_rate_loop:
  "forP (\<lambda>r. whenP (fst r \<notin> set disallowed_currency_types)
      (modify (\<lambda>s. s\<lparr>exchange_rates := exchange_rates s @ [exchange_rate_row d r]\<rparr>))) rates s =
   (Inr (), s\<lparr>exchange_rates := exchange_rates s
      @ map (exchange_rate_row d) (filter (\<lambda>r. fst r \<notin> set disallowed_currency_types) rates)\<rparr>)"
  by (induction rates arbitrary: s) (simp_all add: py_defs)

section \<open>Facts\<close>

lemma best_tier_Some:
  assumes "best_tier s c income = Some t"
  shows "t \<in> set (tier_candidates s c income)"
    and "\<And>u. u \<in> set (tier_candidates s c income) \<Longrightarrow>
           tier_income_threshold_usd u \<le> tier_income_threshold_usd t"
proof -
  let ?l = "sort_key (\<lambda>t. - tier_income_threshold_usd t) (tier_candidates s c income)"
  have ne: "?l \<noteq> []" and t: "t = hd ?l"
    using assms by (auto simp: best_tier_def first_eq_hd split: if_splits)
  have set: "set ?l = set (tier_candidates s c income)" by simp
  then show "t \<in> set (tier_candidates s c income)" using ne t by (metis list.set_sel(1))
  have "sorted (map (\<lambda>t. - tier_income_threshold_usd t) ?l)" by simp
  then have "\<forall>x \<in> set ?l. - tier_income_threshold_usd (hd ?l) \<le> - tier_income_threshold_usd x"
    using ne by (cases ?l) auto
  then show "\<And>u. u \<in> set (tier_candidates s c income) \<Longrightarrow>
      tier_income_threshold_usd u \<le> tier_income_threshold_usd t"
    using set t by simp
qed

lemma best_tier_None: "best_tier s c income = None \<longleftrightarrow> tier_candidates s c income = []"
  by (simp add: best_tier_def first_eq_hd) (metis set_empty set_sort)

lemma find_tier_Inr:
  "find_tier s cs income = Inr t \<Longrightarrow>
   \<exists>pre c post. cs = pre @ c # post \<and> (\<forall>d \<in> set pre. tier_candidates s d income = [])
     \<and> best_tier s c income = Some t"
proof (induction cs)
  case (Cons c cs)
  show ?case
  proof (cases "best_tier s c income")
    case None
    with Cons obtain pre d post where "cs = pre @ d # post"
      "\<forall>e \<in> set pre. tier_candidates s e income = []" "best_tier s d income = Some t" by auto
    with None show ?thesis
      by (intro exI [of _ "c # pre"] exI [of _ d] exI [of _ post]) (simp add: best_tier_None)
  next
    case (Some u)
    with Cons.prems show ?thesis by (intro exI [of _ "[]"] exI [of _ c] exI [of _ cs]) simp
  qed
qed simp

lemma find_tier_Inl:
  "find_tier s cs income = Inl e \<longleftrightarrow>
     e = ImproperlyConfigured \<and> (\<forall>c \<in> set cs. tier_candidates s c income = [])"
  by (induction cs) (auto simp: best_tier_None [symmetric] split: option.splits)

text \<open>A discount found for a product is that of an approved application of the user, to a
  current tier, for courseware that the product counts for.\<close>

lemma flexible_price_discount_for_Some:
  "flexible_price_discount_for s u cs = Inr (Some d) \<Longrightarrow>
   \<exists>c f t. c \<in> set cs \<and> f \<in> set (flexible_prices s) \<and> fp_user f = u
     \<and> (fp_courseware_type f, fp_courseware_object_id f) = courseware_key c
     \<and> is_approved f \<and> fp_tier f = Some t \<and> tier_current t \<and> tier_discount t = d
     \<and> tier_discount_active s f"
proof (induction cs)
  case (Cons c cs)
  show ?case
  proof (cases "first (filter (tier_discount_active s) (applications s u c))")
    case None
    with Cons show ?thesis by auto
  next
    case (Some f)
    then have f: "tier_discount_active s f" "f \<in> set (flexible_prices s)" "fp_user f = u"
        "(fp_courseware_type f, fp_courseware_object_id f) = courseware_key c"
      using first_filter_SomeD [OF Some] by (auto simp: applications_def)
    show ?thesis
    proof (cases "approved_tier f")
      case (Inl e)
      with Some Cons.prems show ?thesis by simp
    next
      case (Inr x)
      show ?thesis
      proof (cases x)
        case None
        with Inr Some Cons show ?thesis by auto
      next
        case (Some t)
        with Inr \<open>first _ = Some f\<close> Cons.prems have "tier_discount t = d" by simp
        moreover have "fp_tier f = Some t" "tier_current t" "is_approved f"
          using Inr Some by (auto simp: approved_tier_def split: option.splits if_splits)
        ultimately show ?thesis using f by auto
      qed
    qed
  qed
qed simp

text \<open>The tier of an income: the highest threshold not above it, of the first courseware in the order
  of \<open>get_ordered_eligible_coursewares\<close> that has one; an exception when no courseware has.\<close>

lemma income_tier:
  assumes "get_ordered_eligible_coursewares s c = Inr cs"
  shows "(\<forall>t. determine_tier_courseware s c income = Inr t \<longrightarrow>
      (\<exists>pre d post. cs = pre @ d # post \<and> (\<forall>e \<in> set pre. tier_candidates s e income = [])
         \<and> t \<in> set (tier_candidates s d income)
         \<and> (\<forall>u \<in> set (tier_candidates s d income). tier_income_threshold_usd u \<le> tier_income_threshold_usd t)))
    \<and> (\<forall>e. determine_tier_courseware s c income = Inl e \<longleftrightarrow>
         e = ImproperlyConfigured \<and> (\<forall>d \<in> set cs. tier_candidates s d income = []))"
proof -
  have d: "determine_tier_courseware s c income = find_tier s cs income"
    using assms by (simp add: determine_tier_courseware_def)
  show ?thesis unfolding d using find_tier_Inr best_tier_Some find_tier_Inl by metis
qed

lemma exchange_rates_replaced:
  "fst (update_currency_exchange_rate rates descriptions s) = Inr ()
   \<and> exchange_rates (snd (update_currency_exchange_rate rates descriptions s)) =
       map (exchange_rate_row descriptions) (filter (\<lambda>r. fst r \<notin> set disallowed_currency_types) rates)"
  by (simp add: update_currency_exchange_rate_def atomicP_def thenP_def bindP_def modify_def
      exchange_rate_loop [unfolded modify_def])

end
