(* ===== verification/Lines.thy ===== *)
theory Lines
  imports Discounts
begin

text \<open>
  The lines of an order (\<open>Line\<close> in \<open>src/ecommerce/models.py\<close>): the product and the price of a
  line at the version it was ordered, and the questions the rest of the code asks of an order's
  lines (\<open>src/courses/utils.py\<close>, \<open>src/hubspot_sync/task_helpers.py\<close>).
\<close>

section \<open>Products\<close>

text \<open>The default manager of \<open>Product\<close> hides products that are not active.\<close>

definition active_products_qs :: "db \<Rightarrow> Product list" where
  "active_products_qs s = filter prod_is_active (products s)"

definition delete_products :: "(Product \<Rightarrow> bool) \<Rightarrow> unit op" where
  "delete_products p =
     modify (\<lambda>s. s\<lparr>products := update_rows (\<lambda>r. prod_is_active r \<and> p r) (\<lambda>r. r\<lparr>prod_is_active := False\<rparr>)
                                 (products s)\<rparr>)"

definition delete_product :: "Product \<Rightarrow> unit op" where
  "delete_product p =
     modify (\<lambda>s. s\<lparr>products := update_rows (\<lambda>r. prod_id r = prod_id p) (\<lambda>r. r\<lparr>prod_is_active := False\<rparr>)
                                 (products s)\<rparr>)"

section \<open>The price of a line\<close>

definition all_product :: "db \<Rightarrow> nat \<Rightarrow> exn + Product" where
  "all_product s pid = get_one (filter (\<lambda>p. prod_id p = pid) (products s))"

definition unit_price :: "Line \<Rightarrow> rat" where
  "unit_price l = prod_price (ver_field_dict (ln_product_version l))"

definition line_total_price :: "Line \<Rightarrow> rat" where
  "line_total_price l = unit_price l * rat_of_nat (ln_quantity l)"

definition item_description :: "Line \<Rightarrow> string" where
  "item_description l = prod_description (ver_field_dict (ln_product_version l))"

definition line_discounted_price :: "db \<Rightarrow> Line \<Rightarrow> exn + rat" where
  "line_discounted_price s l =
     bindE (all_product s (ver_object_id (ln_product_version l))) (\<lambda>p.
     bindE (get_discounted_price s (map rd_redeemed_discount (redemptions_of_order s (ln_order l)))
              p (Some (ln_product_version l))) (\<lambda>x.
       Inr (quantize2 x * rat_of_nat (ln_quantity l))))"

definition line_product :: "db \<Rightarrow> Line \<Rightarrow> exn + Product" where
  "line_product s l =
     bindE (all_product s (prod_id (ver_field_dict (ln_product_version l))))
       (\<lambda>p. resolve_product_version s p (Some (ln_product_version l)))"

definition line_courseware :: "db \<Rightarrow> Line \<Rightarrow> string" where
  "line_courseware s l =
     (case purchased_object s l of
        Some (PurchRun r) \<Rightarrow> crs_title (run_course r)
      | Some (PurchProgram p) \<Rightarrow> prg_readable_id p
      | None \<Rightarrow> ''Invalid Product'')"

text \<open>\<open>Order.purchased_runs\<close>\<close>

definition purchased_runs :: "db \<Rightarrow> nat \<Rightarrow> CourseRun list" where
  "purchased_runs s o1 =
     List.map_filter (\<lambda>l. case purchased_object s l of Some (PurchRun r) \<Rightarrow> Some r | _ \<Rightarrow> None)
       (lines_of s o1)"

section \<open>Questions about an order\<close>

fun any_uai_line :: "db \<Rightarrow> Line list \<Rightarrow> exn + bool" where
  "any_uai_line s [] = Inr False"
| "any_uai_line s (l # ls) =
     bindE (case purchased_object s l of
              Some x \<Rightarrow> Inr (Some x)
            | None \<Rightarrow> bindE (line_product s l) (\<lambda>p. Inr (purchasable_object s p))) (\<lambda>obj.
       case obj of
         None \<Rightarrow> any_uai_line s ls
       | Some (PurchRun r) \<Rightarrow> if is_uai_course_run (Some r) then Inr True else any_uai_line s ls
       | Some (PurchProgram p) \<Rightarrow> if is_uai_program (Some p) then Inr True else any_uai_line s ls)"

definition is_uai_order :: "db \<Rightarrow> nat \<Rightarrow> exn + bool" where
  "is_uai_order s o1 = any_uai_line s (lines_of s o1)"

fun any_contract_line :: "db \<Rightarrow> Line list \<Rightarrow> exn + bool" where
  "any_contract_line s [] = Inr False"
| "any_contract_line s (l # ls) =
     bindE (line_product s l) (\<lambda>p.
       case purchasable_object s p of
         Some (PurchRun r) \<Rightarrow> if run_b2b_contract r \<noteq> None then Inr True else any_contract_line s ls
       | _ \<Rightarrow> any_contract_line s ls)"

definition is_contract_order :: "db \<Rightarrow> nat \<Rightarrow> exn + bool" where
  "is_contract_order s o1 = any_contract_line s (lines_of s o1)"

section \<open>Synchronisation of an order\<close>

definition order_is_for_program_enrolled_course :: "db \<Rightarrow> Order \<Rightarrow> bool" where
  "order_is_for_program_enrolled_course s order =
     (let course_ids = map (crs_id \<circ> run_course) (purchased_runs s (ord_id order))
      in if course_ids = [] then False
         else exists_row (\<lambda>e. pe_user e = ord_purchaser order \<and>
                exists_row (\<lambda>q. req_program q = prg_id (pe_program e)
                                \<and> (case req_course q of None \<Rightarrow> False | Some c \<Rightarrow> crs_id c \<in> set course_ids))
                  (requirements s)) (program_enrollments s))"

definition user_has_contracts :: "db \<Rightarrow> nat \<Rightarrow> bool" where
  "user_has_contracts s u = (case find_user s u of None \<Rightarrow> False | Some r \<Rightarrow> usr_b2b_contracts r \<noteq> [])"

definition hubspot_token :: "db \<Rightarrow> bool \<Rightarrow> bool" where
  "hubspot_token s is_uai =
     (if is_uai then set_uai_hubspot_token (conf s) \<or> set_hubspot_token (conf s)
      else set_hubspot_token (conf s))"

definition sync_hubspot_deal :: "nat \<Rightarrow> unit op" where
  "sync_hubspot_deal o1 = (\<lambda>s.
     case find_order s o1 of
       None \<Rightarrow> (Inl ObjectDoesNotExist, s)
     | Some order \<Rightarrow>
         if user_has_contracts s (ord_purchaser order) then (Inr (), s)
         else if order_is_for_program_enrolled_course s order then (Inr (), s)
         else if lines_of s o1 = [] then (Inr (), s)
         else (case is_uai_order s o1 of
                 Inl e \<Rightarrow> (Inl e, s)
               | Inr is_uai \<Rightarrow>
                   (if hubspot_token s is_uai then emit (SyncHubspotDeal o1 is_uai) s else (Inr (), s))))"

definition sync_hubspot_line_by_line_id :: "nat option \<Rightarrow> unit op" where
  "sync_hubspot_line_by_line_id lid = (\<lambda>s.
     case lid of None \<Rightarrow> (Inr (), s)
     | Some i \<Rightarrow> if set_hubspot_token (conf s) then emit (SyncHubspotLine i) s else (Inr (), s))"

definition sync_hubspot_cart_add :: "User \<Rightarrow> Product \<Rightarrow> bool \<Rightarrow> unit op" where
  "sync_hubspot_cart_add u p is_uai = (\<lambda>s.
     if set_hubspot_token (conf s) \<or> set_uai_hubspot_token (conf s)
     then emit (SyncHubspotCartAdd (usr_id u) (prod_id p) is_uai) s else (Inr (), s))"

section \<open>Facts\<close>

text \<open>The synchronisations only append to the queue of tasks.\<close>

definition only_outbox :: "db \<Rightarrow> db \<Rightarrow> bool" where
  "only_outbox s t \<longleftrightarrow> (\<exists>es. t = s\<lparr>outbox := outbox s @ es\<rparr>)"

lemma only_outbox_refl: "only_outbox s s"
  unfolding only_outbox_def by (intro exI [of _ "[]"]) simp

lemma emit_result: "emit e s = (Inr (), s\<lparr>outbox := outbox s @ [e]\<rparr>)"
  by (simp add: emit_def modify_def)

lemma never_raises_emit [never_raises_intro]: "never_raises (emit e)"
  by (simp add: never_raises_def emit_result)

lemma never_raises_emit_on_commit [never_raises_intro]: "never_raises (emit_on_commit e)"
  by (simp add: never_raises_def emit_on_commit_def modify_def)

lemma emit_only_outbox: "only_outbox s (snd (emit e s))"
  by (auto simp: only_outbox_def emit_result)

lemma sync_hubspot_deal_only_outbox: "only_outbox s (snd (sync_hubspot_deal o1 s))"
  by (simp add: sync_hubspot_deal_def emit_only_outbox only_outbox_refl split: option.split sum.split)

lemma sync_hubspot_cart_add_only_outbox: "only_outbox s (snd (sync_hubspot_cart_add u p b s))"
  by (simp add: sync_hubspot_cart_add_def emit_only_outbox only_outbox_refl)

lemma sync_hubspot_cart_add_Inr: "fst (sync_hubspot_cart_add u p b s) = Inr ()"
  by (simp add: sync_hubspot_cart_add_def emit_result)

lemma keeps_sync_hubspot_deal:
  "(\<And>s es. P s \<Longrightarrow> P (s\<lparr>outbox := es\<rparr>)) \<Longrightarrow> keeps P (sync_hubspot_deal o1)"
  unfolding keeps_def using sync_hubspot_deal_only_outbox by (metis only_outbox_def)

lemma keeps_sync_hubspot_cart_add:
  "(\<And>s es. P s \<Longrightarrow> P (s\<lparr>outbox := es\<rparr>)) \<Longrightarrow> keeps P (sync_hubspot_cart_add u p b)"
  unfolding keeps_def using sync_hubspot_cart_add_only_outbox by (metis only_outbox_def)

lemma keeps_emit: "(\<And>s es. P s \<Longrightarrow> P (s\<lparr>outbox := es\<rparr>)) \<Longrightarrow> keeps P (emit e)"
  by (simp add: keeps_def emit_result)

lemma keeps_emit_on_commit:
  "(\<And>s es. P s \<Longrightarrow> P (s\<lparr>on_commit := es\<rparr>)) \<Longrightarrow> (\<And>s es. P s \<Longrightarrow> P (s\<lparr>outbox := es\<rparr>)) \<Longrightarrow>
   keeps P (emit_on_commit e)"
  by (simp add: keeps_def emit_on_commit_def modify_def)

text \<open>
  The price of a line at its own version, where that version is one of the product's.
\<close>

lemma line_discounted_price_sound:
  assumes "line_discounted_price s l = Inr x" and "ln_quantity l = 1"
  shows "is_cents x"
proof -
  obtain y where "x = quantize2 y"
    using assms by (auto simp: line_discounted_price_def bindE_eq_Inr)
  then show ?thesis by simp
qed

end
