(* ===== verification/Baskets.thy ===== *)
theory Baskets
  imports FlexiblePricing Lines
begin

text \<open>
  Baskets (\<open>Basket\<close>, \<open>BasketItem\<close>, \<open>BasketDiscount\<close> in \<open>src/ecommerce/models.py\<close>, the
  basket operations of \<open>src/ecommerce/api.py\<close> and the basket views of
  \<open>src/ecommerce/views/v0/__init__.py\<close>): what a basket holds, how a request finds or claims one,
  how a discount gets into it, and how it compares with an order.
\<close>

section \<open>Questions about a basket\<close>

definition is_anonymous :: "Basket \<Rightarrow> bool" where
  "is_anonymous b \<longleftrightarrow> bkt_user b = None"

definition get_products :: "db \<Rightarrow> Basket \<Rightarrow> Product list" where
  "get_products s b = map bi_product (items_of s (bkt_id b))"

definition has_user_blocked_products :: "db \<Rightarrow> Basket \<Rightarrow> User \<Rightarrow> bool" where
  "has_user_blocked_products s b user =
     list_ex (\<lambda>i. case purchasable_object s (bi_product i) of
                Some (PurchRun r) \<Rightarrow> is_country_blocked (run_course r) user | _ \<Rightarrow> False)
       (items_of s (bkt_id b))"

text \<open>\<open>PaidCourseRun.fulfilled_paid_course_run_exists\<close>\<close>

definition fulfilled_paid_course_run_exists :: "db \<Rightarrow> nat \<Rightarrow> CourseRun \<Rightarrow> bool" where
  "fulfilled_paid_course_run_exists s user run =
     exists_row (\<lambda>p. pcr_user p = user \<and> pcr_course_run p = run_id run
                     \<and> order_state s (pcr_order p) = Some FULFILLED) (paid_course_runs s)"

definition has_user_purchased_same_courserun :: "db \<Rightarrow> Basket \<Rightarrow> User \<Rightarrow> bool" where
  "has_user_purchased_same_courserun s b user =
     list_ex (\<lambda>i. case purchasable_object s (bi_product i) of
                Some (PurchRun r) \<Rightarrow> fulfilled_paid_course_run_exists s (usr_id user) r | _ \<Rightarrow> False)
       (items_of s (bkt_id b))"

text \<open>The loop returns in its first iteration: only the first item is examined.\<close>

definition has_user_purchased_non_upgradable_courserun :: "db \<Rightarrow> Basket \<Rightarrow> bool" where
  "has_user_purchased_non_upgradable_courserun s b =
     (case items_of s (bkt_id b) of
        [] \<Rightarrow> False
      | i # _ \<Rightarrow> (case purchasable_object s (bi_product i) of
                   Some (PurchRun r) \<Rightarrow> \<not> is_upgradable s r | _ \<Rightarrow> False))"

definition item_discounted_price :: "db \<Rightarrow> BasketItem \<Rightarrow> exn + rat" where
  "item_discounted_price s i =
     bindE (get_discounted_price s (map bd_redeemed_discount (basket_discounts_of s (bi_basket i)))
              (bi_product i) None) (\<lambda>x. Inr (quantize2 x * rat_of_nat (bi_quantity i)))"

definition item_base_price :: "BasketItem \<Rightarrow> rat" where
  "item_base_price i = prod_price (bi_product i) * rat_of_nat (bi_quantity i)"

text \<open>Every basket item is compared with every line, and every discount with every redemption.\<close>

definition all_lines_match :: "db \<Rightarrow> BasketItem list \<Rightarrow> Line list \<Rightarrow> exn + bool" where
  "all_lines_match s is ls =
     (if is = [] then Inr True
      else bindE (mapE (line_product s) ls) (\<lambda>ps.
        Inr (list_all (\<lambda>i. list_all (\<lambda>p. prod_id p = prod_id (bi_product i)) ps) is)))"

definition compare_to_order :: "db \<Rightarrow> Basket \<Rightarrow> Order \<Rightarrow> exn + bool" where
  "compare_to_order s b order =
     (if bkt_user b \<noteq> Some (ord_purchaser order) then Inr False
      else
        let is = items_of s (bkt_id b); ls = lines_of s (ord_id order);
            ds = basket_discounts_of s (bkt_id b); rs = redemptions_of_order s (ord_id order);
            discounts_found = (length ds = length rs
              \<and> list_all (\<lambda>d. list_all (\<lambda>r. disc_id (bd_redeemed_discount d)
                                              = disc_id (rd_redeemed_discount r)) rs) ds)
        in if length is = length ls
           then bindE (all_lines_match s is ls) (\<lambda>items_found. Inr (items_found \<and> discounts_found))
           else Inr False)"

section \<open>Finding the basket of a request\<close>

definition delete_baskets :: "(Basket \<Rightarrow> bool) \<Rightarrow> db \<Rightarrow> db" where
  "delete_baskets p s =
     (let gone = map bkt_id (filter p (baskets s))
      in s\<lparr>baskets := filter (\<lambda>b. \<not> p b) (baskets s),
           basket_items := filter (\<lambda>i. bi_basket i \<notin> set gone) (basket_items s),
           basket_discounts := filter (\<lambda>d. bd_redeemed_basket d \<notin> set gone) (basket_discounts s)\<rparr>)"

definition delete_basket :: "Basket \<Rightarrow> unit op" where
  "delete_basket b = modify (delete_baskets (\<lambda>r. bkt_id r = bkt_id b))"

definition get_or_create_basket :: "nat option \<Rightarrow> string option \<Rightarrow> Basket op" where
  "get_or_create_basket user anon = (\<lambda>s.
     case get_one (filter (\<lambda>b. if user \<noteq> None then bkt_user b = user else bkt_anonymous_id b = anon)
                          (baskets s)) of
       Inr b \<Rightarrow> (Inr b, s)
     | Inl e \<Rightarrow>
         if e = ObjectDoesNotExist
         then let b = \<lparr>bkt_id = next_id s, bkt_user = user, bkt_anonymous_id = anon, bkt_updated_on = now s\<rparr>
              in (Inr b, s\<lparr>baskets := baskets s @ [b], next_id := Suc (next_id s)\<rparr>)
         else (Inl e, s))"

text \<open>\<open>establish_basket\<close>; \<open>create_user\<close> is the synchronous creation of the edX user.\<close>

definition establish_basket :: "(User \<Rightarrow> unit op) \<Rightarrow> User \<Rightarrow> bool \<Rightarrow> Basket op" where
  "establish_basket create_user user no_delay =
     thenP (whenP (usr_edx_username user = None \<or> usr_edx_username user = Some '''')
             (if no_delay then create_user user else emit (QueueCreateUser (usr_id user))))
       (get_or_create_basket (Some (usr_id user)) None)"

text \<open>The calls of \<open>establish_basket\<close> that queue the creation of the edX user.\<close>

definition establish_basket_delayed :: "User \<Rightarrow> Basket op" where
  "establish_basket_delayed user = establish_basket (\<lambda>_. ret ()) user False"

definition get_anonymous_basket_id :: "bool \<Rightarrow> string option op" where
  "get_anonymous_basket_id create = (\<lambda>s.
     if session_basket s = None \<and> create
     then bindP uuid4 (\<lambda>i. thenP (modify (\<lambda>s. s\<lparr>session_basket := Some i\<rparr>)) (ret (Some i))) s
     else (Inr (session_basket s), s))"

definition establish_basket_for_request :: "User \<Rightarrow> bool \<Rightarrow> Basket op" where
  "establish_basket_for_request user for_update =
     bindP (if usr_is_authenticated user then establish_basket_delayed user
            else bindP (get_anonymous_basket_id True) (\<lambda>anon. get_or_create_basket None anon)) (\<lambda>b.
       if for_update then liftE (\<lambda>s. get_one (filter (\<lambda>r. bkt_id r = bkt_id b) (baskets s)))
       else ret b)"

section \<open>Discounts in a basket\<close>

text \<open>Writes of \<open>BasketDiscount\<close>: one per user and basket, and the user may not be null.\<close>

definition save_basket_discount :: "nat option \<Rightarrow> Basket \<Rightarrow> Discount \<Rightarrow> unit op" where
  "save_basket_discount user b d = (\<lambda>s.
     case user of
       None \<Rightarrow> (Inl IntegrityError, s)
     | Some u \<Rightarrow>
         if exists_row (\<lambda>r. bd_redeemed_by r = u \<and> bd_redeemed_basket r = bkt_id b) (basket_discounts s)
         then (Inl IntegrityError, s)
         else (Inr (), s\<lparr>basket_discounts := basket_discounts s
                   @ [\<lparr>bd_id = next_id s, bd_redemption_date = now s, bd_redeemed_by = u,
                      bd_redeemed_discount = d, bd_redeemed_basket = bkt_id b\<rparr>],
                next_id := Suc (next_id s)\<rparr>))"

definition update_or_create_basket_discount :: "Basket \<Rightarrow> Discount \<Rightarrow> unit op" where
  "update_or_create_basket_discount b d = (\<lambda>s.
     let match = (\<lambda>r. Some (bd_redeemed_by r) = bkt_user b \<and> bd_redeemed_basket r = bkt_id b)
     in case get_one (filter match (basket_discounts s)) of
          Inr r \<Rightarrow> (Inr (), s\<lparr>basket_discounts :=
              update_rows match (\<lambda>r. r\<lparr>bd_redeemed_discount := d, bd_redemption_date := now s\<rparr>)
                (basket_discounts s)\<rparr>)
        | Inl e \<Rightarrow> if e = ObjectDoesNotExist then save_basket_discount (bkt_user b) b d s else (Inl e, s))"

definition delete_basket_discounts :: "(BasketDiscount \<Rightarrow> bool) \<Rightarrow> unit op" where
  "delete_basket_discounts p =
     modify (\<lambda>s. s\<lparr>basket_discounts := filter (\<lambda>d. \<not> p d) (basket_discounts s)\<rparr>)"

definition check_discount_for_products :: "db \<Rightarrow> Discount \<Rightarrow> Basket \<Rightarrow> bool" where
  "check_discount_for_products s d b = check_validity_with_products s d (get_products s b)"

definition check_basket_discounts_for_validity :: "User \<Rightarrow> bool op" where
  "check_basket_discounts_for_validity user =
     bindP (establish_basket_delayed user) (\<lambda>b. gets (\<lambda>s.
       list_all (\<lambda>bd. check_validity s (bd_redeemed_discount bd) (bkt_user b)
                       \<and> check_discount_for_products s (bd_redeemed_discount bd) b)
         (basket_discounts_of s (bkt_id b))))"

definition choose_user_discount :: "db \<Rightarrow> Product \<Rightarrow> User \<Rightarrow> exn + Discount option" where
  "choose_user_discount s product user =
     bindE (determine_courseware_flexible_price_discount s (Some product) user) (\<lambda>fp.
       Inr (case fp of Some d \<Rightarrow> Some d
            | None \<Rightarrow> map_option ud_discount (first (filter (\<lambda>u. ud_user u = usr_id user) (user_discounts s)))))"

definition apply_user_discounts :: "User \<Rightarrow> unit op" where
  "apply_user_discounts user =
     bindP (establish_basket_delayed user) (\<lambda>b.
     thenP (delete_basket_discounts (\<lambda>r. bd_redeemed_basket r = bkt_id b
              \<and> disc_payment_type (bd_redeemed_discount r) = Some FINANCIAL_ASSISTANCE))
     (bindP (gets (\<lambda>s. basket_discounts_of s (bkt_id b))) (\<lambda>ds.
      if ds \<noteq> [] then ret ()
      else bindP (gets (\<lambda>s. items_of s (bkt_id b))) (\<lambda>is.
        case is of
          [] \<Rightarrow> ret ()
        | i # _ \<Rightarrow>
            bindP (liftE (\<lambda>s. choose_user_discount s (bi_product i) user)) (\<lambda>discount.
              case discount of
                None \<Rightarrow> ret ()
              | Some d \<Rightarrow>
                  bindP (gets (\<lambda>s. check_discount_for_products s d b \<and> check_validity s d (Some (usr_id user))))
                    (\<lambda>ok. if \<not> ok then ret () else save_basket_discount (Some (usr_id user)) b d))))))"

definition is_user_discount :: "db \<Rightarrow> Discount \<Rightarrow> nat option \<Rightarrow> bool" where
  "is_user_discount s d user = exists_row (\<lambda>u. Some (ud_user u) = user) (user_discount_rows s d)"

definition has_price_tiers :: "db \<Rightarrow> Discount \<Rightarrow> bool" where
  "has_price_tiers s d = exists_row (\<lambda>t. disc_id (tier_discount t) = disc_id d) (tiers s)"

text \<open>The join of a basket's discounts with their user discounts; a null user matches a discount
  that has none.\<close>

definition basket_has_user_discount :: "db \<Rightarrow> Basket \<Rightarrow> bool" where
  "basket_has_user_discount s b =
     exists_row (\<lambda>bd. case bkt_user b of
         None \<Rightarrow> user_discount_rows s (bd_redeemed_discount bd) = []
       | Some u \<Rightarrow> is_user_discount s (bd_redeemed_discount bd) (Some u))
       (basket_discounts_of s (bkt_id b))"

fun found_better :: "db \<Rightarrow> Discount \<Rightarrow> nat option \<Rightarrow> BasketItem list \<Rightarrow> exn + bool" where
  "found_better s d user [] = Inr False"
| "found_better s d user (i # is) =
     bindE (discount_product s d (bi_product i) user) (\<lambda>test_price.
       case test_price of
         None \<Rightarrow> found_better s d user is
       | Some t \<Rightarrow>
           if t = 0 then found_better s d user is
           else bindE (item_discounted_price s i) (\<lambda>current.
             if current \<ge> t then Inr True else found_better s d user is))"

definition discount_may_replace :: "db \<Rightarrow> Basket \<Rightarrow> Discount \<Rightarrow> bool \<Rightarrow> exn + bool" where
  "discount_may_replace s b d allow_finaid =
     (if is_user_discount s d (bkt_user b)
      then Inr (\<not> exists_row (\<lambda>bd. has_price_tiers s (bd_redeemed_discount bd))
                  (basket_discounts_of s (bkt_id b)))
      else if has_price_tiers s d \<and> \<not> allow_finaid then Inr False
      else if basket_has_user_discount s b \<and> has_price_tiers s d \<and> allow_finaid then Inr True
      else if basket_has_user_discount s b then Inr False
      else found_better s d (bkt_user b) (items_of s (bkt_id b)))"

definition apply_discount_to_basket :: "Basket \<Rightarrow> Discount \<Rightarrow> bool \<Rightarrow> unit op" where
  "apply_discount_to_basket b d allow_finaid =
     bindP (liftE (\<lambda>s. is_valid s d b allow_finaid)) (\<lambda>valid.
     if \<not> valid then ret ()
     else bindP (gets (\<lambda>s. basket_discounts_of s (bkt_id b) \<noteq> [] \<and> items_of s (bkt_id b) \<noteq> [])) (\<lambda>occupied.
       bindP (if occupied then liftE (\<lambda>s. discount_may_replace s b d allow_finaid) else ret True) (\<lambda>ok.
         whenP ok (update_or_create_basket_discount b d))))"

section \<open>Discounts that apply by themselves\<close>

definition finaid_discounts_for :: "db \<Rightarrow> Basket \<Rightarrow> exn + nat list" where
  "finaid_discounts_for s b =
     bindE (mapE (\<lambda>p. case bkt_user b of
                None \<Rightarrow> Inl PyAttributeError
              | Some u \<Rightarrow> (case find_user s u of
                    None \<Rightarrow> Inl ObjectDoesNotExist
                  | Some r \<Rightarrow> determine_courseware_flexible_price_discount s (Some p) r))
             (get_products s b)) (\<lambda>ds. Inr (List.map_filter (map_option disc_id) ds))"

definition join_user_discounts :: "db \<Rightarrow> Discount \<Rightarrow> nat option list" where
  "join_user_discounts s d =
     (case user_discount_rows s d of [] \<Rightarrow> [None] | us \<Rightarrow> map (\<lambda>u. Some (ud_user u)) us)"

definition get_auto_apply_discounts_for_basket :: "db \<Rightarrow> nat \<Rightarrow> exn + Discount list" where
  "get_auto_apply_discounts_for_basket s basket_id =
     bindE (get_one (filter (\<lambda>b. bkt_id b = basket_id) (baskets s))) (\<lambda>b.
     bindE (finaid_discounts_for s b) (\<lambda>finaid.
       Inr (concat (map (\<lambda>d. map (\<lambda>_. d)
                (filter (\<lambda>u. u = bkt_user b \<or> disc_id d \<in> set finaid \<or> disc_automatic d)
                        (join_user_discounts s d)))
              (filter (\<lambda>d. (disc_activation_date d = None \<or> q_lte (disc_activation_date d) (now s))
                           \<and> (disc_expiration_date d = None \<or> q_gt (disc_expiration_date d) (now s)))
                      (discounts s))))))"

section \<open>Claiming and culling anonymous baskets\<close>

text \<open>The anonymous basket becomes the user's, and the user's other baskets go.\<close>

definition claim_row :: "User \<Rightarrow> Basket \<Rightarrow> Basket" where
  "claim_row user r = r\<lparr>bkt_user := Some (usr_id user), bkt_anonymous_id := None\<rparr>"

definition claimed :: "User \<Rightarrow> Basket \<Rightarrow> db \<Rightarrow> db" where
  "claimed user b s =
     (let s1 = delete_baskets (\<lambda>r. bkt_user r = Some (usr_id user) \<and> bkt_id r \<noteq> bkt_id b) s
      in s1\<lparr>baskets := update_rows (\<lambda>r. bkt_id r = bkt_id b) (claim_row user) (baskets s1)\<rparr>)"

definition claim_block :: "User \<Rightarrow> string \<Rightarrow> Basket option op" where
  "claim_block user anon = (\<lambda>s.
     case get_one (filter (\<lambda>b. bkt_anonymous_id b = Some anon) (baskets s)) of
       Inl e \<Rightarrow> if e = ObjectDoesNotExist then (Inr None, s) else (Inl e, s)
     | Inr b \<Rightarrow> (Inr (Some (claim_row user b)), claimed user b s))"

definition claim_anonymous_basket :: "User \<Rightarrow> Basket option op" where
  "claim_anonymous_basket user =
     bindP (get_anonymous_basket_id False) (\<lambda>anon.
     case anon of
       None \<Rightarrow> ret None
     | Some a \<Rightarrow>
         bindP (atomicP (claim_block user a)) (\<lambda>found.
           case found of
             None \<Rightarrow> ret None
           | Some b \<Rightarrow>
               thenP (modify (\<lambda>s. s\<lparr>session_basket := None\<rparr>))
                 (thenP (apply_user_discounts user) (ret (Some b)))))"

definition cull_anonymous_baskets :: "unit op" where
  "cull_anonymous_baskets =
     modify (\<lambda>s. delete_baskets (\<lambda>b. bkt_anonymous_id b \<noteq> None
                \<and> bkt_updated_on b < now s - set_basket_cull_age (conf s)) s)"

section \<open>The basket views\<close>

datatype response = Response nat | Redirect string

definition update_or_create_item :: "Basket \<Rightarrow> Product \<Rightarrow> nat \<Rightarrow> bool op" where
  "update_or_create_item b p quantity = (\<lambda>s.
     let match = (\<lambda>i. bi_basket i = bkt_id b \<and> prod_id (bi_product i) = prod_id p)
     in case get_one (filter match (basket_items s)) of
          Inr i \<Rightarrow> (Inr False, s\<lparr>basket_items := update_rows match (\<lambda>i. i\<lparr>bi_quantity := quantity\<rparr>)
                                                     (basket_items s)\<rparr>)
        | Inl e \<Rightarrow>
            if e = ObjectDoesNotExist
            then (Inr True, s\<lparr>basket_items := basket_items s
                    @ [\<lparr>bi_id = next_id s, bi_basket = bkt_id b, bi_product = p, bi_quantity = quantity\<rparr>],
                  next_id := Suc (next_id s)\<rparr>)
            else (Inl e, s))"

definition product_is_uai :: "db \<Rightarrow> Product \<Rightarrow> bool" where
  "product_is_uai s p =
     (case purchasable_object s p of
        Some (PurchRun r) \<Rightarrow> is_uai_course_run (Some r)
      | Some (PurchProgram g) \<Rightarrow> is_uai_program (Some g)
      | None \<Rightarrow> False)"

definition sync_cart_add :: "User \<Rightarrow> Product \<Rightarrow> unit op" where
  "sync_cart_add user p = bindP (gets (\<lambda>s. product_is_uai s p)) (sync_hubspot_cart_add user p)"

definition get_active_product :: "db \<Rightarrow> nat \<Rightarrow> exn + Product" where
  "get_active_product s pid = get_one (filter (\<lambda>p. prod_id p = pid) (active_products_qs s))"

definition get_discount_by_code :: "db \<Rightarrow> string \<Rightarrow> exn + Discount" where
  "get_discount_by_code s code = get_one (filter (\<lambda>d. disc_code d = code) (discounts s))"

text \<open>A code that is not found is ignored; any other exception propagates.\<close>

definition apply_code_to_basket :: "Basket \<Rightarrow> string option \<Rightarrow> unit op" where
  "apply_code_to_basket b code =
     (case code of
        None \<Rightarrow> ret ()
      | Some c \<Rightarrow>
          if c = [] then ret ()
          else catchP (bindP (liftE (\<lambda>s. get_discount_by_code s c)) (\<lambda>d. apply_discount_to_basket b d False))
                 (\<lambda>e. if e = ObjectDoesNotExist then ret () else raise e))"

definition reapply_discounts :: "Basket \<Rightarrow> string option \<Rightarrow> unit op" where
  "reapply_discounts b code =
     bindP (gets (\<lambda>s. map bd_redeemed_discount (basket_discounts_of s (bkt_id b)))) (\<lambda>existing.
     bindP (liftE (\<lambda>s. get_auto_apply_discounts_for_basket s (bkt_id b))) (\<lambda>auto.
     thenP (delete_basket_discounts (\<lambda>r. bd_redeemed_basket r = bkt_id b))
     (thenP (forP (\<lambda>d. apply_discount_to_basket b d True) (existing @ auto))
       (apply_code_to_basket b code))))"

definition create_basket_from_product ::
  "User \<Rightarrow> nat \<Rightarrow> string option \<Rightarrow> nat \<Rightarrow> bool \<Rightarrow> response op" where
  "create_basket_from_product user product_id code quantity checkout = (\<lambda>s.
     case get_active_product s product_id of
       Inl e \<Rightarrow> if e = ObjectDoesNotExist then (Inr (Response 404), s) else (Inl e, s)
     | Inr product \<Rightarrow>
         bindP (atomicP
           (bindP (establish_basket_for_request user True) (\<lambda>b.
            bindP (update_or_create_item b product quantity) (\<lambda>created.
            thenP (whenP (usr_is_authenticated user)
                     (thenP (sync_cart_add user product) (reapply_discounts b code)))
              (ret created))))) (\<lambda>created.
         ret (if checkout
              then Redirect (if usr_is_authenticated user then ''checkout_interstitial_page''
                             else ''checkout-anonymous'')
              else Response (if created then 201 else 200))) s)"

definition create_basket_with_products ::
  "User \<Rightarrow> (nat \<times> nat) list \<Rightarrow> string option \<Rightarrow> bool \<Rightarrow> response op" where
  "create_basket_with_products user product_ids code checkout =
     bindP (establish_basket_delayed user) (\<lambda>b s.
       case mapE (\<lambda>(pid, q). bindE (get_active_product s pid) (\<lambda>p. Inr (p, q))) product_ids of
         Inl e \<Rightarrow> if e = ObjectDoesNotExist then (Inr (Response 404), s) else (Inl e, s)
       | Inr ps \<Rightarrow>
           thenP (forP (\<lambda>(p, q). thenP (bindP (update_or_create_item b p q) (\<lambda>_. ret ()))
                                      (sync_cart_add user p)) ps)
           (bindP (liftE (\<lambda>s. get_auto_apply_discounts_for_basket s (bkt_id b))) (\<lambda>auto.
            thenP (forP (\<lambda>d. apply_discount_to_basket b d True) auto)
            (thenP (apply_code_to_basket b code)
              (ret (if checkout then Redirect ''checkout_interstitial_page'' else Response 200))))) s)"

definition clear_basket :: "User \<Rightarrow> response op" where
  "clear_basket user =
     thenP (atomicP (bindP (establish_basket_for_request user True) delete_basket)) (ret (Response 204))"

text \<open>The view calls \<open>Basket.establish_basket\<close>, which does not exist.\<close>

definition add_discount_to_basket :: "User \<Rightarrow> string \<Rightarrow> response op" where
  "add_discount_to_basket user code = raise PyAttributeError"

section \<open>The tables of baskets stay well-formed\<close>

text \<open>
  Distinct primary keys, at most one basket per user and per anonymous id, and exactly one of
  the two on every basket (the constraint \<open>basket_user_xor_anonymous_id\<close>); at most one
  discount per user and basket (\<open>unique_basket_discount\<close>).
\<close>

definition one_basket_each :: "Basket set \<Rightarrow> bool" where
  "one_basket_each B \<longleftrightarrow>
     (\<forall>b \<in> B. (bkt_user b = None) \<noteq> (bkt_anonymous_id b = None))
     \<and> inj_on bkt_user {b \<in> B. bkt_user b \<noteq> None}
     \<and> inj_on bkt_anonymous_id {b \<in> B. bkt_anonymous_id b \<noteq> None}"

definition baskets_ok :: "db \<Rightarrow> bool" where
  "baskets_ok s \<longleftrightarrow> distinct (map bkt_id (baskets s)) \<and> one_basket_each (set (baskets s)) \<and> (\<forall>b \<in> set (baskets s). bkt_id b < next_id s)
     \<and> distinct (map (\<lambda>d. (bd_redeemed_by d, bd_redeemed_basket d)) (basket_discounts s))"

lemma one_basket_each_subset:
  assumes "one_basket_each B" "C \<subseteq> B"
  shows "one_basket_each C"
  unfolding one_basket_each_def
proof (intro conjI)
  show "\<forall>b \<in> C. (bkt_user b = None) \<noteq> (bkt_anonymous_id b = None)"
    using assms by (meson one_basket_each_def subsetD)
  show "inj_on bkt_user {b \<in> C. bkt_user b \<noteq> None}"
    using assms by (auto simp: one_basket_each_def elim: inj_on_subset)
  show "inj_on bkt_anonymous_id {b \<in> C. bkt_anonymous_id b \<noteq> None}"
    using assms by (auto simp: one_basket_each_def elim: inj_on_subset)
qed

lemma one_basket_each_insert_user:
  assumes "one_basket_each B" "bkt_user b = Some u" "bkt_anonymous_id b = None"
    "\<forall>c \<in> B. bkt_user c \<noteq> Some u"
  shows "one_basket_each (insert b B)"
proof -
  have "{c \<in> insert b B. bkt_user c \<noteq> None} = insert b {c \<in> B. bkt_user c \<noteq> None}"
    and "{c \<in> insert b B. bkt_anonymous_id c \<noteq> None} = {c \<in> B. bkt_anonymous_id c \<noteq> None}"
    using assms(2,3) by auto
  with assms show ?thesis unfolding one_basket_each_def by (auto simp: image_iff)
qed

lemma one_basket_each_insert_anonymous:
  assumes "one_basket_each B" "bkt_user b = None" "bkt_anonymous_id b = Some a"
    "\<forall>c \<in> B. bkt_anonymous_id c \<noteq> Some a"
  shows "one_basket_each (insert b B)"
proof -
  have "{c \<in> insert b B. bkt_user c \<noteq> None} = {c \<in> B. bkt_user c \<noteq> None}"
    and "{c \<in> insert b B. bkt_anonymous_id c \<noteq> None} = insert b {c \<in> B. bkt_anonymous_id c \<noteq> None}"
    using assms(2,3) by auto
  with assms show ?thesis unfolding one_basket_each_def by (auto simp: image_iff)
qed

lemma get_one_ObjectDoesNotExist: "get_one xs = Inl ObjectDoesNotExist \<longleftrightarrow> xs = []"
  by (auto simp: get_one_def split: list.splits)

lemma baskets_ok_same:
  "baskets_ok s \<Longrightarrow> baskets t = baskets s \<Longrightarrow> basket_discounts t = basket_discounts s \<Longrightarrow>
   next_id s \<le> next_id t \<Longrightarrow> baskets_ok t"
  by (auto simp: baskets_ok_def)

lemma baskets_ok_outbox [simp]: "baskets_ok (s\<lparr>outbox := es\<rparr>) = baskets_ok s"
  by (simp add: baskets_ok_def)

lemma distinct_map_filter_pred: "distinct (map f xs) \<Longrightarrow> distinct (map f (filter p xs))"
  by (rule distinct_map_filter)

lemma delete_baskets_ok: "baskets_ok s \<Longrightarrow> baskets_ok (delete_baskets p s)"
  by (auto simp: baskets_ok_def delete_baskets_def Let_def distinct_map_filter
      elim: one_basket_each_subset)

lemma baskets_ok_add:
  assumes "baskets_ok s" "one_basket_each (insert b (set (baskets s)))" "bkt_id b = next_id s"
  shows "baskets_ok (s\<lparr>baskets := baskets s @ [b], next_id := Suc (next_id s)\<rparr>)"
  using assms by (auto simp: baskets_ok_def less_Suc_eq)

lemma keeps_get_or_create_user:
  "keeps baskets_ok (get_or_create_basket (Some u) None)"
proof (rule keepsI)
  fix s assume ok: "baskets_ok s"
  then have "one_basket_each (set (baskets s))" by (simp add: baskets_ok_def)
  then show "baskets_ok (snd (get_or_create_basket (Some u) None s))"
    using ok by (auto simp: get_or_create_basket_def get_one_ObjectDoesNotExist Let_def filter_empty_conv
        split: sum.splits intro!: baskets_ok_add one_basket_each_insert_user)
qed

lemma keeps_get_or_create_anonymous:
  "keeps baskets_ok (get_or_create_basket None (Some a))"
proof (rule keepsI)
  fix s assume ok: "baskets_ok s"
  then have "one_basket_each (set (baskets s))" by (simp add: baskets_ok_def)
  then show "baskets_ok (snd (get_or_create_basket None (Some a) s))"
    using ok by (auto simp: get_or_create_basket_def get_one_ObjectDoesNotExist Let_def filter_empty_conv
        split: sum.splits intro!: baskets_ok_add one_basket_each_insert_anonymous)
qed

lemma keeps_baskets_establish: "keeps baskets_ok (establish_basket_delayed user)"
  unfolding establish_basket_delayed_def establish_basket_def
  by (intro keeps_intro keeps_emit keeps_get_or_create_user) auto

lemma get_anonymous_basket_id_True:
  "\<exists>a t. get_anonymous_basket_id True s = (Inr (Some a), t) \<and> baskets t = baskets s
     \<and> basket_discounts t = basket_discounts s \<and> next_id s \<le> next_id t"
  by (cases "session_basket s")
    (auto simp: get_anonymous_basket_id_def uuid4_def py_defs)

lemma keeps_baskets_establish_for_request:
  "keeps baskets_ok (establish_basket_for_request user b)"
proof -
  have "keeps baskets_ok (bindP (get_anonymous_basket_id True) (\<lambda>anon. get_or_create_basket None anon))"
  proof (rule keepsI)
    fix s assume ok: "baskets_ok s"
    obtain a t where t: "get_anonymous_basket_id True s = (Inr (Some a), t)" "baskets t = baskets s"
        "basket_discounts t = basket_discounts s" "next_id s \<le> next_id t"
      using get_anonymous_basket_id_True by blast
    with ok have "baskets_ok t" by (metis baskets_ok_same)
    then show "baskets_ok (snd (bindP (get_anonymous_basket_id True)
        (\<lambda>anon. get_or_create_basket None anon) s))"
      using keepsD [OF keeps_get_or_create_anonymous] t(1) by (simp add: bindP_Inr)
  qed
  then have "keeps baskets_ok (if usr_is_authenticated user then establish_basket_delayed user
      else bindP (get_anonymous_basket_id True) (\<lambda>anon. get_or_create_basket None anon))"
    by (simp add: keeps_baskets_establish)
  then show ?thesis unfolding establish_basket_for_request_def
    by (rule keeps_bindP) (intro keeps_if keeps_liftE keeps_ret)
qed

lemma keeps_baskets_save_discount: "keeps baskets_ok (save_basket_discount u b d)"
  by (rule keepsI)
    (auto simp: save_basket_discount_def baskets_ok_def exists_row_iff split: option.splits
      intro: less_SucI)

lemma map_update_discount_rows:
  "map (\<lambda>d. (bd_redeemed_by d, bd_redeemed_basket d))
     (update_rows m (\<lambda>r. r\<lparr>bd_redeemed_discount := d, bd_redemption_date := n\<rparr>) xs) =
   map (\<lambda>d. (bd_redeemed_by d, bd_redeemed_basket d)) xs"
  by (rule map_update_rows) simp

lemma keeps_baskets_update_or_create: "keeps baskets_ok (update_or_create_basket_discount b d)"
proof (rule keepsI)
  fix s assume ok: "baskets_ok s"
  show "baskets_ok (snd (update_or_create_basket_discount b d s))"
    using ok keepsD [OF keeps_baskets_save_discount ok]
    by (auto simp: update_or_create_basket_discount_def Let_def baskets_ok_def map_update_discount_rows
        split: sum.splits)
qed

lemma keeps_baskets_delete_discounts: "keeps baskets_ok (delete_basket_discounts p)"
  by (rule keepsI)
    (auto simp: delete_basket_discounts_def modify_def baskets_ok_def distinct_map_filter)

lemmas keeps_baskets = keeps_baskets_establish keeps_baskets_establish_for_request
  keeps_baskets_save_discount keeps_baskets_update_or_create keeps_baskets_delete_discounts

lemma keeps_baskets_apply_user_discounts: "keeps baskets_ok (apply_user_discounts user)"
  unfolding apply_user_discounts_def by (intro keeps_intro keeps_baskets)

lemma keeps_baskets_apply_discount: "keeps baskets_ok (apply_discount_to_basket b d f)"
  unfolding apply_discount_to_basket_def by (intro keeps_intro keeps_baskets)

lemma keeps_baskets_item: "keeps baskets_ok (update_or_create_item b p q)"
  by (rule keepsI)
    (auto simp: update_or_create_item_def baskets_ok_def Let_def split: sum.splits intro: less_SucI)

text \<open>The sequence of primary keys only grows.\<close>

definition next_id_from :: "nat \<Rightarrow> db \<Rightarrow> bool" where
  "next_id_from n s \<longleftrightarrow> n \<le> next_id s"

lemma next_id_from_outbox [simp]: "next_id_from n (s\<lparr>outbox := es\<rparr>) = next_id_from n s"
  by (simp add: next_id_from_def)

lemma keeps_next_get_or_create: "keeps (next_id_from n) (get_or_create_basket u a)"
  by (rule keepsI) (auto simp: next_id_from_def get_or_create_basket_def Let_def split: sum.splits)

lemma keeps_next_anonymous: "keeps (next_id_from n) (get_anonymous_basket_id c)"
  by (rule keepsI) (auto simp: next_id_from_def get_anonymous_basket_id_def uuid4_def py_defs)

lemma keeps_next_establish: "keeps (next_id_from n) (establish_basket_delayed user)"
  unfolding establish_basket_delayed_def establish_basket_def
  by (intro keeps_intro keeps_emit keeps_next_get_or_create) auto

lemma keeps_next_establish_for_request: "keeps (next_id_from n) (establish_basket_for_request user b)"
  unfolding establish_basket_for_request_def
  by (intro keeps_bindP keeps_if keeps_next_establish keeps_next_anonymous keeps_next_get_or_create
      keeps_liftE keeps_ret)

lemma keeps_next_item: "keeps (next_id_from n) (update_or_create_item b p q)"
  by (rule keepsI) (auto simp: next_id_from_def update_or_create_item_def Let_def split: sum.splits)

lemma keeps_next_save_discount: "keeps (next_id_from n) (save_basket_discount u b d)"
  by (rule keepsI) (auto simp: next_id_from_def save_basket_discount_def split: option.splits)

lemma keeps_next_update_or_create: "keeps (next_id_from n) (update_or_create_basket_discount b d)"
proof (rule keepsI)
  fix s assume "next_id_from n s"
  from this keepsD [OF keeps_next_save_discount this]
  show "next_id_from n (snd (update_or_create_basket_discount b d s))"
    by (auto simp: next_id_from_def update_or_create_basket_discount_def Let_def split: sum.splits)
qed

lemma keeps_next_delete_discounts: "keeps (next_id_from n) (delete_basket_discounts p)"
  by (rule keepsI) (simp add: next_id_from_def delete_basket_discounts_def modify_def)

lemmas keeps_next = keeps_next_establish keeps_next_establish_for_request keeps_next_item
  keeps_next_save_discount keeps_next_update_or_create keeps_next_delete_discounts

lemma keeps_next_apply_discount: "keeps (next_id_from n) (apply_discount_to_basket b d f)"
  unfolding apply_discount_to_basket_def by (intro keeps_intro keeps_next)

lemma keeps_reapply:
  assumes "\<And>d f. keeps P (apply_discount_to_basket b d f)" "\<And>p. keeps P (delete_basket_discounts p)"
  shows "keeps P (reapply_discounts b code)"
  unfolding reapply_discounts_def apply_code_to_basket_def
  by (intro keeps_intro assms)

lemma keeps_sync_cart_add:
  "(\<And>s es. P s \<Longrightarrow> P (s\<lparr>outbox := es\<rparr>)) \<Longrightarrow> keeps P (sync_cart_add user p)"
  unfolding sync_cart_add_def by (intro keeps_bindP keeps_gets keeps_sync_hubspot_cart_add)

lemma keeps_atomicP:
  assumes "keeps P m" and "\<And>n. keeps (next_id_from n) m"
    and frame: "\<And>s n b es cs. P s \<Longrightarrow> next_id s \<le> n \<Longrightarrow> P (bookkeeping n b es cs s)"
  shows "keeps P (atomicP m)"
proof (rule keepsI)
  fix s assume P: "P s"
  let ?s = "s\<lparr>in_atomic := True\<rparr>"
  have eq: "?s = bookkeeping (next_id s) True (outbox s) (on_commit s) s" by (simp add: bookkeeping_def)
  have P': "P ?s" unfolding eq by (rule frame [OF P]) simp
  have le: "next_id s \<le> next_id (snd (m ?s))"
    using keepsD [OF assms(2), of "next_id s" ?s] by (simp add: next_id_from_def)
  show "P (snd (atomicP m s))"
  proof (cases "m ?s")
    case (Pair r t)
    show ?thesis
    proof (cases r)
      case (Inl e)
      have "s\<lparr>next_id := next_id t, outbox := outbox t\<rparr> =
          bookkeeping (next_id t) (in_atomic s) (outbox t) (on_commit s) s"
        by (simp add: bookkeeping_def)
      then show ?thesis using Pair Inl frame [OF P, of "next_id t"] le by (simp add: atomicP_def)
    next
      case (Inr x)
      obtain b es cs where "leave_atomic s t = bookkeeping (next_id t) b es cs t"
        using leave_atomic_bookkeeping by blast
      moreover have "P t" using keepsD [OF assms(1) P'] Pair by simp
      ultimately show ?thesis using Pair Inr frame [of t "next_id t"] by (simp add: atomicP_def)
    qed
  qed
qed

lemma baskets_ok_next_id: "baskets_ok s \<Longrightarrow> next_id s \<le> n \<Longrightarrow> baskets_ok (bookkeeping n b es cs s)"
  by (auto simp: baskets_ok_def bookkeeping_def)

section \<open>The handlers\<close>

lemma keeps_baskets_create_from_product:
  "keeps baskets_ok (create_basket_from_product user pid code q checkout)"
proof -
  let ?in = "\<lambda>product. bindP (establish_basket_for_request user True) (\<lambda>b.
            bindP (update_or_create_item b product q) (\<lambda>created.
            thenP (whenP (usr_is_authenticated user)
                     (thenP (sync_cart_add user product) (reapply_discounts b code)))
              (ret created)))"
  have 1: "keeps baskets_ok (?in p)" for p
    by (intro keeps_intro keeps_baskets keeps_baskets_item keeps_sync_cart_add keeps_reapply
        keeps_baskets_apply_discount) simp
  have 2: "keeps (next_id_from n) (?in p)" for p n
    by (intro keeps_intro keeps_next keeps_sync_cart_add keeps_reapply keeps_next_apply_discount) simp
  have 3: "keeps baskets_ok (bindP (atomicP (?in p)) (\<lambda>c. ret (f c)))" for p and f :: "bool \<Rightarrow> response"
    by (intro keeps_bindP keeps_atomicP 1 2 baskets_ok_next_id keeps_ret)
  show ?thesis
  proof (rule keepsI)
    fix s assume ok: "baskets_ok s"
    show "baskets_ok (snd (create_basket_from_product user pid code q checkout s))"
    proof (cases "get_active_product s pid")
      case (Inl e)
      with ok show ?thesis by (simp add: create_basket_from_product_def)
    next
      case (Inr p)
      show ?thesis unfolding create_basket_from_product_def Inr sum.case by (rule keepsD [OF 3 ok])
    qed
  qed
qed

lemma keeps_baskets_delete_basket: "keeps baskets_ok (delete_basket b)"
  unfolding delete_basket_def by (intro keeps_modify delete_baskets_ok)

lemma keeps_next_delete_basket: "keeps (next_id_from n) (delete_basket b)"
  by (rule keepsI) (simp add: next_id_from_def delete_basket_def modify_def delete_baskets_def Let_def)

lemma keeps_baskets_clear: "keeps baskets_ok (clear_basket user)"
  unfolding clear_basket_def
  by (intro keeps_intro keeps_atomicP keeps_baskets keeps_next keeps_baskets_delete_basket
      keeps_next_delete_basket baskets_ok_next_id)

lemma keeps_baskets_cull: "keeps baskets_ok cull_anonymous_baskets"
  unfolding cull_anonymous_baskets_def by (intro keeps_modify delete_baskets_ok)

lemma claim_row_simps [simp]:
  "bkt_id (claim_row user r) = bkt_id r" "bkt_user (claim_row user r) = Some (usr_id user)"
  "bkt_anonymous_id (claim_row user r) = None"
  by (simp_all add: claim_row_def)

lemma one_basket_each_claimed:
  assumes "one_basket_each B" "\<forall>r \<in> B. bkt_user r = Some (usr_id user) \<longrightarrow> bkt_id r = i"
    "\<forall>r \<in> B. \<forall>t \<in> B. bkt_id r = bkt_id t \<longrightarrow> r = t"
  shows "one_basket_each ((\<lambda>r. if bkt_id r = i then claim_row user r else r) ` B)"
    (is "one_basket_each (?f ` B)")
  unfolding one_basket_each_def
proof (intro conjI)
  show "\<forall>b \<in> ?f ` B. (bkt_user b = None) \<noteq> (bkt_anonymous_id b = None)"
    using assms(1) by (auto simp: one_basket_each_def)
  have user: "bkt_user r = bkt_user t \<Longrightarrow> bkt_user r \<noteq> None \<Longrightarrow> r = t" if "r \<in> B" "t \<in> B" for r t
    using assms(1) that by (auto simp: one_basket_each_def inj_on_def)
  have anon: "bkt_anonymous_id r = bkt_anonymous_id t \<Longrightarrow> bkt_anonymous_id r \<noteq> None \<Longrightarrow> r = t"
    if "r \<in> B" "t \<in> B" for r t
    using assms(1) that by (auto simp: one_basket_each_def inj_on_def)
  have own: "bkt_user (?f r) = Some (usr_id user) \<Longrightarrow> bkt_id r = i" if "r \<in> B" for r
    using assms(2) that by (cases "bkt_id r = i") simp_all
  show "inj_on bkt_user {b \<in> ?f ` B. bkt_user b \<noteq> None}"
  proof (rule inj_onI)
    fix x y assume "x \<in> {b \<in> ?f ` B. bkt_user b \<noteq> None}" "y \<in> {b \<in> ?f ` B. bkt_user b \<noteq> None}"
      and eq: "bkt_user x = bkt_user y"
    then obtain r t where rt: "r \<in> B" "t \<in> B" "x = ?f r" "y = ?f t" "bkt_user x \<noteq> None" by auto
    show "x = y"
    proof (cases "bkt_id r = i \<or> bkt_id t = i")
      case True
      then have x: "bkt_user x = Some (usr_id user)" using rt(3,4) eq by auto
      have "bkt_id r = i" by (rule own [OF rt(1)]) (use x rt(3) in \<open>simp only:\<close>)
      moreover have "bkt_id t = i" by (rule own [OF rt(2)]) (use x eq rt(4) in \<open>simp only:\<close>)
      ultimately have "bkt_id r = bkt_id t" by simp
      then have "r = t" using rt(1,2) assms(3) by blast
      then show ?thesis using rt by simp
    next
      case False
      then show ?thesis using rt eq user [of r t] by auto
    qed
  qed
  show "inj_on bkt_anonymous_id {b \<in> ?f ` B. bkt_anonymous_id b \<noteq> None}"
  proof (rule inj_onI)
    fix x y assume "x \<in> {b \<in> ?f ` B. bkt_anonymous_id b \<noteq> None}"
      "y \<in> {b \<in> ?f ` B. bkt_anonymous_id b \<noteq> None}" and eq: "bkt_anonymous_id x = bkt_anonymous_id y"
    then obtain r t where rt: "r \<in> B" "t \<in> B" "x = ?f r" "y = ?f t" "bkt_anonymous_id x \<noteq> None"
      "bkt_anonymous_id y \<noteq> None" by auto
    then have "bkt_id r \<noteq> i" "bkt_id t \<noteq> i" by auto
    then show "x = y" using rt eq anon [of r t] by auto
  qed
qed

lemma map_id_claim: "map bkt_id (update_rows p (claim_row user) bs) = map bkt_id bs"
  by (rule map_update_rows) simp

lemma claimed_ok:
  assumes ok: "baskets_ok s"
  shows "baskets_ok (claimed user b s)"
proof -
  let ?s1 = "delete_baskets (\<lambda>r. bkt_user r = Some (usr_id user) \<and> bkt_id r \<noteq> bkt_id b) s"
  have ok1: "baskets_ok ?s1" using ok by (rule delete_baskets_ok)
  have own: "\<forall>r \<in> set (baskets ?s1). bkt_user r = Some (usr_id user) \<longrightarrow> bkt_id r = bkt_id b"
    by (auto simp: delete_baskets_def Let_def)
  have inj: "\<forall>r \<in> set (baskets ?s1). \<forall>t \<in> set (baskets ?s1). bkt_id r = bkt_id t \<longrightarrow> r = t"
    using ok1 unfolding baskets_ok_def by (meson distinct_map inj_onD)
  have img: "set (baskets (claimed user b s)) =
      (\<lambda>r. if bkt_id r = bkt_id b then claim_row user r else r) ` set (baskets ?s1)"
    by (simp add: claimed_def Let_def update_rows_def)
  have one: "one_basket_each (set (baskets ?s1))" using ok1 by (simp add: baskets_ok_def)
  have "one_basket_each (set (baskets (claimed user b s)))"
    unfolding img by (rule one_basket_each_claimed [OF one own inj])
  moreover have "\<forall>r \<in> set (baskets (claimed user b s)). bkt_id r < next_id (claimed user b s)"
    using ok1 by (auto simp: baskets_ok_def claimed_def Let_def dest!: set_update_rowsD)
  ultimately show ?thesis
    using ok1 by (simp add: baskets_ok_def claimed_def Let_def map_id_claim)
qed

lemma claim_cases:
  assumes "claim_anonymous_basket user s = (r, t)"
  obtains (none) "r = Inr None" "baskets t = baskets s" "basket_discounts t = basket_discounts s"
      "next_id t = next_id s"
  | (multiple) e where "r = Inl e" "baskets t = baskets s"
      "basket_discounts t = basket_discounts s" "next_id t = next_id s"
  | (found) a b s1 where "session_basket s = Some a"
      "filter (\<lambda>b. bkt_anonymous_id b = Some a) (baskets s) = [b]"
      "baskets s1 = baskets (claimed user b s)"
      "basket_discounts s1 = basket_discounts (claimed user b s)" "next_id s1 = next_id s"
      "(r, t) = thenP (apply_user_discounts user) (ret (Some (claim_row user b))) s1"
proof (cases "session_basket s")
  case None
  then have "claim_anonymous_basket user s = (Inr None, s)"
    by (simp add: claim_anonymous_basket_def get_anonymous_basket_id_def bindP_def ret_def)
  with assms have "r = Inr None" "t = s" by auto
  then show thesis by (intro none) simp_all
next
  case (Some a)
  show thesis
  proof (cases "get_one (filter (\<lambda>b. bkt_anonymous_id b = Some a) (baskets s))")
    case (Inl e)
    show thesis
    proof (cases "e = ObjectDoesNotExist")
      case True
      with Some Inl have "claim_anonymous_basket user s = (Inr None, leave_atomic s (s\<lparr>in_atomic := True\<rparr>))"
        by (simp add: claim_anonymous_basket_def get_anonymous_basket_id_def bindP_def ret_def atomicP_def
            claim_block_def)
      with assms show thesis by (intro none) auto
    next
      case False
      with Some Inl have "claim_anonymous_basket user s = (Inl e, s)"
        by (simp add: claim_anonymous_basket_def get_anonymous_basket_id_def bindP_def ret_def atomicP_def
            claim_block_def)
      with assms show thesis by (intro multiple [of e]) auto
    qed
  next
    case (Inr b)
    let ?s1 = "(leave_atomic s (claimed user b (s\<lparr>in_atomic := True\<rparr>)))\<lparr>session_basket := None\<rparr>"
    from Some Inr have "claim_anonymous_basket user s =
        thenP (apply_user_discounts user) (ret (Some (claim_row user b))) ?s1"
      by (simp add: claim_anonymous_basket_def get_anonymous_basket_id_def bindP_def atomicP_def
          claim_block_def thenP_def modify_def)
    moreover have "baskets ?s1 = baskets (claimed user b s)"
      "basket_discounts ?s1 = basket_discounts (claimed user b s)" "next_id ?s1 = next_id s"
      by (simp_all add: claimed_def delete_baskets_def Let_def)
    ultimately show thesis using assms Some Inr by (intro found [of a b ?s1]) auto
  qed
qed

lemma next_id_claimed [simp]: "next_id (claimed user b s) = next_id s"
  by (simp add: claimed_def delete_baskets_def Let_def)

lemma keeps_baskets_claim: "keeps baskets_ok (claim_anonymous_basket user)"
proof (rule keepsI)
  fix s assume ok: "baskets_ok s"
  obtain r t where rt: "claim_anonymous_basket user s = (r, t)" by (cases "claim_anonymous_basket user s")
  from rt show "baskets_ok (snd (claim_anonymous_basket user s))"
  proof (cases rule: claim_cases)
    case none
    with rt ok show ?thesis by (simp add: baskets_ok_def)
  next
    case multiple
    with rt ok show ?thesis by (simp add: baskets_ok_def)
  next
    case (found a b s1)
    have "baskets_ok s1"
      using claimed_ok [OF ok, of user b] found(3-5) by (simp add: baskets_ok_def)
    from keepsD [OF keeps_thenP [OF keeps_baskets_apply_user_discounts keeps_ret] this]
    show ?thesis using rt found(6) by (metis snd_conv)
  qed
qed

section \<open>Discounts in a basket only get better\<close>

lemma basket_discounts_of_mem: "r \<in> set (basket_discounts_of s b) \<Longrightarrow> bd_redeemed_basket r = b"
  by (simp add: basket_discounts_of_def)

lemma items_of_mem: "i \<in> set (items_of s b) \<Longrightarrow> bi_basket i = b"
  by (simp add: items_of_def)

lemma basket_discount_match:
  assumes "basket_discounts_of s (bkt_id b) = [r]" "bkt_user b = Some (bd_redeemed_by r)"
  shows "filter (\<lambda>x. Some (bd_redeemed_by x) = bkt_user b \<and> bd_redeemed_basket x = bkt_id b)
           (basket_discounts s) = [r]"
proof -
  have "filter (\<lambda>x. Some (bd_redeemed_by x) = bkt_user b \<and> bd_redeemed_basket x = bkt_id b)
           (basket_discounts s)
      = filter (\<lambda>x. Some (bd_redeemed_by x) = bkt_user b) (basket_discounts_of s (bkt_id b))"
    by (simp add: basket_discounts_of_def conj_commute)
  then show ?thesis using assms by simp
qed

lemma filter_update_rows:
  "(\<And>x. q (f x) = q x) \<Longrightarrow> filter q (update_rows p f xs) = update_rows p f (filter q xs)"
  by (induction xs) auto

lemma update_or_create_replaces:
  assumes "basket_discounts_of s (bkt_id b) = [r]" "bkt_user b = Some (bd_redeemed_by r)"
  shows "\<exists>t. update_or_create_basket_discount b d s = (Inr (), t)
     \<and> map bd_redeemed_discount (basket_discounts_of t (bkt_id b)) = [d]
     \<and> items_of t (bkt_id b) = items_of s (bkt_id b)"
proof -
  let ?m = "\<lambda>x. Some (bd_redeemed_by x) = bkt_user b \<and> bd_redeemed_basket x = bkt_id b"
  let ?f = "\<lambda>x. x\<lparr>bd_redeemed_discount := d, bd_redemption_date := now s\<rparr>"
  let ?t = "s\<lparr>basket_discounts := update_rows ?m ?f (basket_discounts s)\<rparr>"
  have res: "update_or_create_basket_discount b d s = (Inr (), ?t)"
    by (simp add: update_or_create_basket_discount_def basket_discount_match [OF assms])
  have "basket_discounts_of ?t (bkt_id b) = update_rows ?m ?f (basket_discounts_of s (bkt_id b))"
    by (simp add: basket_discounts_of_def filter_update_rows)
  moreover have "bd_redeemed_basket r = bkt_id b"
    using basket_discounts_of_mem [of r s "bkt_id b"] assms(1) by simp
  ultimately have "map bd_redeemed_discount (basket_discounts_of ?t (bkt_id b)) = [d]"
    using assms by simp
  then show ?thesis using res by (auto simp: items_of_def)
qed

lemma get_discounted_price_now: "get_discounted_price s ds p None = get_discounted_price t ds p None"
  by (simp add: get_discounted_price_def resolve_product_version_def)

lemma apply_discount_never_worse:
  assumes r: "basket_discounts_of s (bkt_id b) = [r]" "bkt_user b = Some (bd_redeemed_by r)"
    and i: "items_of s (bkt_id b) = [i]" "bi_quantity i = 1"
    and plain: "\<not> is_user_discount s d (bkt_user b)" "\<not> basket_has_user_discount s b"
    and run: "apply_discount_to_basket b d f s = (Inr (), t)"
    and x: "item_discounted_price s i = Inr x"
  shows "\<exists>y. item_discounted_price t i = Inr y \<and> y \<le> x"
proof -
  have bi: "bi_basket i = bkt_id b"
    using items_of_mem [of i s "bkt_id b"] i(1) by simp
  show ?thesis
  proof (cases "t = s")
    case True
    with x show ?thesis by auto
  next
    case False
    have may: "discount_may_replace s b d f = Inr True"
      and upd: "update_or_create_basket_discount b d s = (Inr (), t)"
      using run False r(1) i(1)
      by (auto simp: apply_discount_to_basket_def py_defs split: sum.splits if_splits)
    from may plain have "found_better s d (bkt_user b) [i] = Inr True"
      using i(1) by (auto simp: discount_may_replace_def split: if_splits)
    then obtain tp where tp: "discount_product s d (bi_product i) (bkt_user b) = Inr (Some tp)" "x \<ge> tp"
      using x by (auto simp: bindE_eq_Inr split: option.splits if_splits)
    then obtain z where z: "get_discounted_price s [d] (bi_product i) None = Inr z" "tp = quantize2 z"
      by (auto simp: discount_product_def bindE_eq_Inr split: if_splits)
    have "map bd_redeemed_discount (basket_discounts_of t (bkt_id b)) = [d]"
      using update_or_create_replaces [OF r, of d] upd by auto
    then have "item_discounted_price t i = Inr (quantize2 z)"
      using z(1) i(2) bi by (simp add: item_discounted_price_def get_discounted_price_now [of t _ _ s])
    then show ?thesis using tp(2) z(2) by blast
  qed
qed

text \<open>A discount assigned to the user gives way only to an allowed financial-assistance one.\<close>

lemma user_discount_kept:
  assumes "basket_has_user_discount s b" "items_of s (bkt_id b) \<noteq> []"
    and "\<not> is_user_discount s d (bkt_user b)" "\<not> (has_price_tiers s d \<and> f)"
  shows "snd (apply_discount_to_basket b d f s) = s"
proof -
  have "basket_discounts_of s (bkt_id b) \<noteq> []"
    using assms(1) by (auto simp: basket_has_user_discount_def)
  then show ?thesis
    using assms by (auto simp: apply_discount_to_basket_def discount_may_replace_def py_defs split: sum.splits)
qed

text \<open>A code that makes a product free never replaces a discount: its price 0 is not a truth.\<close>

lemma free_code_never_replaces:
  assumes "is_full_discount d" "\<forall>i \<in> set items. 0 \<le> prod_price (bi_product i)"
  shows "found_better s d user items \<noteq> Inr True"
  using assms(2)
proof (induction items)
  case (Cons i items)
  have "min (price_of d (bi_product i)) (prod_price (bi_product i)) = 0"
    using assms(1) Cons.prems by (simp add: full_discount_price min_def)
  then have "discount_product s d (bi_product i) user \<in> {Inr None, Inr (Some 0)}"
    using assms(1) by (simp add: discount_product_def get_discounted_price_one full_discount_known)
  then show ?case using Cons by auto
qed simp

lemma free_code_ignored:
  assumes "is_full_discount d" "\<forall>i \<in> set (items_of s (bkt_id b)). 0 \<le> prod_price (bi_product i)"
    and "basket_discounts_of s (bkt_id b) \<noteq> []" "items_of s (bkt_id b) \<noteq> []"
    and "\<not> is_user_discount s d (bkt_user b)" "\<not> has_price_tiers s d"
  shows "snd (apply_discount_to_basket b d f s) = s"
proof -
  have "found_better s d (bkt_user b) (items_of s (bkt_id b)) \<noteq> Inr True"
    using free_code_never_replaces [OF assms(1,2)] by simp
  then show ?thesis
    using assms by (auto simp: apply_discount_to_basket_def discount_may_replace_def py_defs split: sum.splits)
qed

section \<open>Comparison with an order\<close>

lemma compare_to_order_single:
  assumes "items_of s (bkt_id b) = [i]" "lines_of s (ord_id o1) = [l]" "line_product s l = Inr p"
    and "basket_discounts_of s (bkt_id b) = ds" "redemptions_of_order s (ord_id o1) = rs"
    and "length ds \<le> 1"
  shows "compare_to_order s b o1 =
    Inr (bkt_user b = Some (ord_purchaser o1) \<and> prod_id p = prod_id (bi_product i)
         \<and> map (disc_id \<circ> bd_redeemed_discount) ds = map (disc_id \<circ> rd_redeemed_discount) rs)"
proof -
  have "(length ds = length rs \<and> list_all (\<lambda>d. list_all (\<lambda>r. disc_id (bd_redeemed_discount d)
            = disc_id (rd_redeemed_discount r)) rs) ds) =
        (map (disc_id \<circ> bd_redeemed_discount) ds = map (disc_id \<circ> rd_redeemed_discount) rs)"
  proof (cases ds)
    case (Cons d ds')
    then show ?thesis using assms(6) by (cases rs) auto
  qed auto
  then show ?thesis using assms(1-5) by (auto simp: compare_to_order_def all_lines_match_def Let_def)
qed

lemma compare_to_order_distinct_items:
  assumes "i \<in> set (items_of s (bkt_id b))" "j \<in> set (items_of s (bkt_id b))"
    and "prod_id (bi_product i) \<noteq> prod_id (bi_product j)"
    and "mapE (line_product s) (lines_of s (ord_id o1)) = Inr ps"
  shows "compare_to_order s b o1 = Inr False"
proof (cases "length (items_of s (bkt_id b)) = length (lines_of s (ord_id o1))")
  case True
  then obtain p ps' where p: "ps = p # ps'"
    using assms(1,4) mapE_length [OF assms(4)] by (cases ps) auto
  have "\<not> list_all (\<lambda>i. list_all (\<lambda>p. prod_id p = prod_id (bi_product i)) ps) (items_of s (bkt_id b))"
    unfolding list_all_iff p using assms(1-3) by (metis list.set_intros(1))
  moreover have "items_of s (bkt_id b) \<noteq> []" using assms(1) by auto
  ultimately show ?thesis
    using assms(4) by (simp add: compare_to_order_def all_lines_match_def Let_def)
next
  case False
  then show ?thesis by (simp add: compare_to_order_def Let_def)
qed

section \<open>Culling and claiming\<close>

lemma cull_keeps_user_baskets:
  assumes "b \<in> set (baskets s)" "(bkt_user b = None) \<noteq> (bkt_anonymous_id b = None)" "bkt_user b \<noteq> None"
  shows "b \<in> set (baskets (snd (cull_anonymous_baskets s)))"
  using assms by (auto simp: cull_anonymous_baskets_def modify_def delete_baskets_def Let_def)

lemma cull_exact:
  "baskets (snd (cull_anonymous_baskets s)) =
     filter (\<lambda>b. bkt_anonymous_id b = None \<or> now s - set_basket_cull_age (conf s) \<le> bkt_updated_on b) (baskets s)"
  by (auto simp: cull_anonymous_baskets_def modify_def delete_baskets_def Let_def intro: filter_cong)

text \<open>A user who has a basket keeps it when discounts are applied.\<close>

lemma keeps_found_basket:
  assumes "filter (\<lambda>r. bkt_user r = Some (usr_id user)) B = [b]"
  shows "keeps (\<lambda>s. baskets s = B) (apply_user_discounts user)"
proof -
  have "keeps (\<lambda>s. baskets s = B) (get_or_create_basket (Some (usr_id user)) None)"
    by (rule keepsI) (use assms in \<open>simp add: get_or_create_basket_def\<close>)
  then have "keeps (\<lambda>s. baskets s = B) (establish_basket_delayed user)"
    unfolding establish_basket_delayed_def establish_basket_def
    by (intro keeps_intro keeps_emit) simp_all
  moreover have "keeps (\<lambda>s. baskets s = B) (save_basket_discount u c d)" for u c d
    by (rule keepsI) (simp add: save_basket_discount_def split: option.split)
  moreover have "keeps (\<lambda>s. baskets s = B) (delete_basket_discounts p)" for p
    unfolding delete_basket_discounts_def by (rule keeps_modify) simp
  ultimately show ?thesis
    unfolding apply_user_discounts_def by (intro keeps_intro)
qed

lemma filter_claimed:
  assumes ok: "baskets_ok s" and b: "filter (\<lambda>b. bkt_anonymous_id b = Some a) (baskets s) = [b]"
  shows "filter (\<lambda>r. bkt_user r = Some (usr_id user)) (baskets (claimed user b s)) = [claim_row user b]"
    and "filter (\<lambda>r. bkt_anonymous_id r = Some a) (baskets (claimed user b s)) = []"
proof -
  let ?gone = "\<lambda>r. bkt_user r = Some (usr_id user) \<and> bkt_id r \<noteq> bkt_id b"
  let ?left = "filter (\<lambda>r. \<not> ?gone r) (baskets s)"
  have bs: "baskets (claimed user b s) = update_rows (\<lambda>r. bkt_id r = bkt_id b) (claim_row user) ?left"
    by (simp add: claimed_def delete_baskets_def Let_def)
  have mem: "b \<in> set (baskets s)" "bkt_anonymous_id b = Some a"
    using arg_cong [OF b, of set] by auto
  have one: "filter (\<lambda>r. bkt_id r = bkt_id b) (baskets s) = [b]"
    using ok mem(1) by (simp add: baskets_ok_def filter_key_unique)
  have "filter (\<lambda>r. bkt_user r = Some (usr_id user)) (update_rows (\<lambda>r. bkt_id r = bkt_id b) (claim_row user)
      (filter (\<lambda>r. \<not> ?gone r) bs)) = map (claim_row user) (filter (\<lambda>r. bkt_id r = bkt_id b) bs)" for bs
    by (induction bs) (auto simp: claim_row_def)
  then show "filter (\<lambda>r. bkt_user r = Some (usr_id user)) (baskets (claimed user b s)) = [claim_row user b]"
    by (simp add: bs one)
  have "\<forall>r \<in> set (baskets s). bkt_anonymous_id r = Some a \<longrightarrow> r = b"
    using arg_cong [OF b, of set] by auto
  then show "filter (\<lambda>r. bkt_anonymous_id r = Some a) (baskets (claimed user b s)) = []"
    by (auto simp: bs filter_empty_conv update_rows_def claim_row_def)
qed

lemma claim_result:
  assumes ok: "baskets_ok s" and run: "claim_anonymous_basket user s = (Inr (Some c), t)"
  shows "\<exists>a. session_basket s = Some a \<and> bkt_user c = Some (usr_id user)
    \<and> filter (\<lambda>r. bkt_user r = Some (usr_id user)) (baskets t) = [c]
    \<and> filter (\<lambda>r. bkt_anonymous_id r = Some a) (baskets t) = []"
  using run
proof (cases rule: claim_cases)
  case (found a b s1)
  note f = filter_claimed [OF ok found(2), of user]
  have "keeps (\<lambda>s. baskets s = baskets s1) (thenP (apply_user_discounts user) (ret (Some (claim_row user b))))"
    using keeps_found_basket [of user "baskets s1"] f(1) found(3) by (intro keeps_intro) simp_all
  from keepsD [OF this, of s1] found(6) have "baskets t = baskets s1" by (metis snd_conv)
  moreover have "c = claim_row user b"
    using found(6) by (auto simp: thenP_def bindP_def ret_def split: prod.splits sum.splits)
  ultimately show ?thesis using f found(1,3) by simp
qed simp_all

end
