(* ===== verification/Enrollments.thy ===== *)
theory Enrollments
  imports Baskets
begin

text \<open>
  Enrollments (\<open>src/courses/api.py\<close>, \<open>EnrollmentModel\<close> and its subclasses and
  \<open>PaidCourseRun\<close>, \<open>PaidProgram\<close> in \<open>src/courses/models.py\<close>, the enrollment calls of
  \<open>src/openedx/api.py\<close>): creating, upgrading, downgrading, deactivating and deferring local
  enrollments while the same change is requested from edX, and the retries of failed requests.

  The edX REST client is a parameter: what its server answers.  Audit rows are not modelled.
\<close>

section \<open>The edX client\<close>

datatype edx_error = EdxHttpError "nat option" | EdxUnknownError | OpenEdxUserMissingError

record edx =
  edx_user_ready :: "nat \<Rightarrow> bool"
  edx_get_enrollments :: "nat \<Rightarrow> string \<Rightarrow> edx_error + (string \<times> bool) list"
  edx_create_student_enrollment :: "nat \<Rightarrow> string \<Rightarrow> string \<Rightarrow> edx_error + bool"
  edx_deactivate_enrollment :: "nat \<Rightarrow> string \<Rightarrow> edx_error + unit"

definition existing_edx_enrollment :: "edx \<Rightarrow> nat \<Rightarrow> string \<Rightarrow> string \<Rightarrow> bool \<Rightarrow> edx_error + bool" where
  "existing_edx_enrollment x user course_id mode is_active =
     (case edx_get_enrollments x user course_id of
        Inl e \<Rightarrow> Inl e
      | Inr es \<Rightarrow> Inr (list_ex (\<lambda>(m, a). m = mode \<and> a = is_active) es))"

fun enroll_loop :: "edx \<Rightarrow> nat \<Rightarrow> string \<Rightarrow> CourseRun list \<Rightarrow> edx_error + unit" where
  "enroll_loop x user mode [] = Inr ()"
| "enroll_loop x user mode (r # rs) =
     (case existing_edx_enrollment x user (run_courseware_id r) mode True of
        Inl e \<Rightarrow> Inl e
      | Inr True \<Rightarrow> enroll_loop x user mode rs
      | Inr False \<Rightarrow>
          (case edx_create_student_enrollment x user (run_courseware_id r) mode of
             Inl e \<Rightarrow> Inl e
           | Inr True \<Rightarrow> enroll_loop x user mode rs
           | Inr False \<Rightarrow>
               (case edx_create_student_enrollment x user (run_courseware_id r) mode of
                  Inl e \<Rightarrow> Inl e
                | Inr _ \<Rightarrow> enroll_loop x user mode rs)))"

definition enroll_in_edx_course_runs :: "edx \<Rightarrow> nat \<Rightarrow> CourseRun list \<Rightarrow> string \<Rightarrow> edx_error + unit" where
  "enroll_in_edx_course_runs x user rs mode =
     (if \<not> edx_user_ready x user then Inl OpenEdxUserMissingError else enroll_loop x user mode rs)"

definition unenroll_edx_course_run :: "edx \<Rightarrow> CourseRunEnrollment \<Rightarrow> edx_error + unit" where
  "unenroll_edx_course_run x e = edx_deactivate_enrollment x (cre_user e) (run_courseware_id (cre_run e))"

definition is_permanent_enrollment_failure :: "edx_error \<Rightarrow> bool" where
  "is_permanent_enrollment_failure e =
     (case e of
        OpenEdxUserMissingError \<Rightarrow> True
      | EdxUnknownError \<Rightarrow> False
      | EdxHttpError None \<Rightarrow> False
      | EdxHttpError (Some code) \<Rightarrow> 400 \<le> code \<and> code < 500 \<and> code \<noteq> 429)"

section \<open>Enrollment rows\<close>

definition cre_key :: "CourseRunEnrollment \<Rightarrow> nat \<times> nat" where
  "cre_key e = (cre_user e, run_id (cre_run e))"

definition save_run_enrollment :: "CourseRunEnrollment \<Rightarrow> unit op" where
  "save_run_enrollment e =
     modify (\<lambda>s. s\<lparr>run_enrollments := update_rows (\<lambda>r. cre_id r = cre_id e) (\<lambda>_. e) (run_enrollments s)\<rparr>)"

definition deactivate_and_save :: "CourseRunEnrollment \<Rightarrow> string option \<Rightarrow> CourseRunEnrollment op" where
  "deactivate_and_save e change_status =
     (let e' = e\<lparr>cre_active := False, cre_change_status := change_status\<rparr>
      in thenP (save_run_enrollment e') (ret e'))"

definition reactivate_and_save :: "CourseRunEnrollment \<Rightarrow> CourseRunEnrollment op" where
  "reactivate_and_save e =
     (let e' = e\<lparr>cre_active := True, cre_change_status := None\<rparr>
      in thenP (save_run_enrollment e') (ret e'))"

definition update_mode_and_save :: "CourseRunEnrollment \<Rightarrow> string \<Rightarrow> CourseRunEnrollment op" where
  "update_mode_and_save e mode =
     (let e' = e\<lparr>cre_enrollment_mode := mode\<rparr> in thenP (save_run_enrollment e') (ret e'))"

definition get_or_create_run_enrollment ::
  "nat \<Rightarrow> CourseRun \<Rightarrow> string option \<Rightarrow> bool \<Rightarrow> string \<Rightarrow> (CourseRunEnrollment \<times> bool) op" where
  "get_or_create_run_enrollment user run change_status edx_enrolled mode = (\<lambda>s.
     case get_one (filter (\<lambda>e. cre_key e = (user, run_id run)) (run_enrollments s)) of
       Inr e \<Rightarrow> (Inr (e, False), s)
     | Inl err \<Rightarrow>
         if err = ObjectDoesNotExist
         then let e = \<lparr>cre_id = next_id s, cre_user = user, cre_run = run, cre_change_status = change_status,
                       cre_active = True, cre_enrollment_mode = mode, cre_edx_enrolled = edx_enrolled,
                       cre_edx_emails_subscription = True, cre_retry_count = 0, cre_created_on = now s\<rparr>
              in (Inr (e, True), s\<lparr>run_enrollments := run_enrollments s @ [e], next_id := Suc (next_id s)\<rparr>)
         else (Inl err, s))"

definition create_local_enrollment :: "nat \<Rightarrow> CourseRun \<Rightarrow> string \<Rightarrow> (CourseRunEnrollment \<times> bool) op" where
  "create_local_enrollment user run mode =
     bindP (get_or_create_run_enrollment user run None True mode) (\<lambda>(e, created).
     bindP (if \<not> created \<and> \<not> cre_active e then reactivate_and_save e else ret e) (\<lambda>e.
     if \<not> cre_edx_enrolled e
     then let e' = e\<lparr>cre_edx_enrolled := True\<rparr>
          in thenP (save_run_enrollment e') (ret (e', created))
     else ret (e, created)))"

section \<open>Organization membership\<close>

definition membership_autos :: "string list" where
  "membership_autos = [''auto'', ''managed'']"

definition add_user_contract :: "nat \<Rightarrow> nat \<Rightarrow> unit op" where
  "add_user_contract user c =
     modify (\<lambda>s. s\<lparr>users := update_rows (\<lambda>u. usr_id u = user \<and> c \<notin> set (usr_b2b_contracts u))
                             (\<lambda>u. u\<lparr>usr_b2b_contracts := usr_b2b_contracts u @ [c]\<rparr>) (users s)\<rparr>)"

definition add_user_contracts :: "nat \<Rightarrow> nat \<Rightarrow> unit op" where
  "add_user_contracts org user =
     bindP (gets (\<lambda>s. filter (\<lambda>c. ctr_organization c = org \<and> ctr_membership_type c \<in> set membership_autos
                                    \<and> ctr_active c) (contracts s)))
       (forP (\<lambda>c. add_user_contract user (ctr_id c)))"

text \<open>The request that attaches the user in Keycloak only logs its failures.\<close>

definition process_add_org_membership :: "nat \<Rightarrow> nat \<Rightarrow> bool \<Rightarrow> unit op" where
  "process_add_org_membership user org keep_until_seen =
     bindP (gets (\<lambda>s. exists_row (\<lambda>o1. uo_user o1 = user \<and> uo_organization o1 = org) (user_organizations s)))
       (\<lambda>present. whenP (\<not> present)
          (thenP (modify (\<lambda>s. s\<lparr>user_organizations := user_organizations s
                     @ [\<lparr>uo_user = user, uo_organization = org, uo_keep_until_seen = keep_until_seen, uo_is_manager = False\<rparr>]\<rparr>))
          (thenP (emit (AttachOrganization user org)) (add_user_contracts org user))))"

definition remove_user_contracts :: "nat \<Rightarrow> nat \<Rightarrow> unit op" where
  "remove_user_contracts org user = modify (\<lambda>s.
     let gone = map ctr_id (filter (\<lambda>c. ctr_organization c = org \<and> ctr_membership_type c \<in> set membership_autos)
                                   (contracts s))
     in s\<lparr>users := update_rows (\<lambda>u. usr_id u = user)
            (\<lambda>u. u\<lparr>usr_b2b_contracts := filter (\<lambda>c. c \<notin> set gone) (usr_b2b_contracts u)\<rparr>) (users s)\<rparr>)"

definition process_remove_org_membership :: "nat \<Rightarrow> nat \<Rightarrow> unit op" where
  "process_remove_org_membership user org =
     thenP (remove_user_contracts org user) (\<lambda>s.
       let mine = (\<lambda>o1. uo_user o1 = user \<and> uo_organization o1 = org)
       in case get_one (filter mine (user_organizations s)) of
            Inl e \<Rightarrow> (Inl e, s)
          | Inr _ \<Rightarrow> (Inr (), s\<lparr>user_organizations := filter (\<lambda>o1. \<not> mine o1) (user_organizations s)\<rparr>))"

definition add_run_contract :: "nat \<Rightarrow> CourseRun \<Rightarrow> unit op" where
  "add_run_contract user run =
     (case run_b2b_contract run of
        None \<Rightarrow> ret ()
      | Some c \<Rightarrow> thenP (process_add_org_membership user (ctr_organization c) True)
                        (add_user_contract user (ctr_id c)))"

section \<open>Enrolling in course runs\<close>

text \<open>
  The body of the loop for one run: the enrollment, whether it was downgraded, and whether it
  was reactivated, in which case the subscription to the course's emails is requested; outside
  of a transaction that callback runs at once.
\<close>

definition enroll_run ::
  "nat \<Rightarrow> string option \<Rightarrow> string \<Rightarrow> bool \<Rightarrow> CourseRun \<Rightarrow> (CourseRunEnrollment \<times> bool \<times> bool) op" where
  "enroll_run user change_status mode edx_ok run =
     bindP (get_or_create_run_enrollment user run change_status edx_ok mode) (\<lambda>(e, created).
     thenP (add_run_contract user run)
     (if created then ret (e, False, False)
      else
        let mode_changed = (mode \<noteq> cre_enrollment_mode e);
            e1 = e\<lparr>cre_edx_enrolled := edx_ok, cre_change_status := change_status\<rparr>
        in thenP (save_run_enrollment e1)
          (if cre_active e1 \<and> mode_changed
           then bindP (update_mode_and_save e1 mode) (\<lambda>e2.
                  ret (e2, mode = audit_mode \<and> cre_enrollment_mode e1 = verified_mode, False))
           else if \<not> cre_active e1
           then bindP (reactivate_and_save (if mode_changed then e1\<lparr>cre_enrollment_mode := mode\<rparr> else e1)) (\<lambda>e2.
                thenP (bindP (gets in_atomic) (\<lambda>inside. whenP (\<not> inside) (emit (SubscribeEdxEmails (cre_id e2)))))
                  (ret (e2, False, True)))
           else ret (e1, False, False))))"

text \<open>
  The loop: successes, whether some run was downgraded so far, the number of callbacks that wait
  for the transaction, and the enrollment the loop variable holds.  The flag is never reset, and
  the callbacks read the loop variable when they run.
\<close>

record enroll_acc =
  acc_success :: "CourseRunEnrollment list"
  acc_downgraded :: bool
  acc_callbacks :: nat
  acc_last :: "CourseRunEnrollment option"

fun enroll_runs ::
  "nat \<Rightarrow> string option \<Rightarrow> string \<Rightarrow> bool \<Rightarrow> CourseRun list \<Rightarrow> enroll_acc \<Rightarrow> enroll_acc op" where
  "enroll_runs user change_status mode edx_ok [] acc = ret acc"
| "enroll_runs user change_status mode edx_ok (r # rs) acc =
     bindP (catchP (bindP (enroll_run user change_status mode edx_ok r) (\<lambda>x. ret (Some x)))
                   (\<lambda>_. thenP (emit (SendEnrollmentFailure user)) (ret None))) (\<lambda>res.
       case res of
         None \<Rightarrow> enroll_runs user change_status mode edx_ok rs acc
       | Some (e, down, again) \<Rightarrow>
           let acc' = \<lparr>acc_success = acc_success acc @ [e], acc_downgraded = acc_downgraded acc \<or> down,
                       acc_callbacks = acc_callbacks acc + (if again then 1 else 0), acc_last = Some e\<rparr>
           in thenP (whenP (cre_edx_enrolled e \<and> \<not> acc_downgraded acc')
                      (emit (SendEnrollmentEmail user (run_id r))))
                (enroll_runs user change_status mode edx_ok rs acc'))"

definition run_callbacks :: "enroll_acc \<Rightarrow> unit op" where
  "run_callbacks acc =
     (case acc_last acc of None \<Rightarrow> ret ()
      | Some e \<Rightarrow> bindP (gets in_atomic) (\<lambda>inside.
          whenP inside (forP (\<lambda>_. emit_on_commit (SubscribeEdxEmails (cre_id e))) [0..<acc_callbacks acc])))"

definition edx_request ::
  "edx \<Rightarrow> nat \<Rightarrow> CourseRun \<Rightarrow> CourseRun list \<Rightarrow> string \<Rightarrow> bool" where
  "edx_request x user r0 rs mode \<longleftrightarrow>
     is_fake_course_run r0 \<or> enroll_in_edx_course_runs x user rs mode = Inr ()"

definition create_run_enrollments ::
  "edx \<Rightarrow> nat \<Rightarrow> CourseRun list \<Rightarrow> string option \<Rightarrow> bool option \<Rightarrow> string \<Rightarrow>
   (CourseRunEnrollment list \<times> bool) op" where
  "create_run_enrollments x user runs change_status keep_failed mode =
     (case runs of
        [] \<Rightarrow> raise PyIndexError
      | r0 # _ \<Rightarrow>
          bindP (gets (\<lambda>s. case keep_failed of Some k \<Rightarrow> k | None \<Rightarrow> set_ignore_edx_failures (conf s))) (\<lambda>keep.
            let edx_ok = edx_request x user r0 runs mode
            in if \<not> edx_ok \<and> \<not> keep then ret ([], False)
               else bindP (enroll_runs user change_status mode edx_ok runs
                        \<lparr>acc_success = [], acc_downgraded = False, acc_callbacks = 0, acc_last = None\<rparr>) (\<lambda>acc.
                    thenP (run_callbacks acc) (ret (acc_success acc, edx_ok)))))"

definition downgrade_learner :: "edx \<Rightarrow> CourseRunEnrollment \<Rightarrow> (CourseRunEnrollment list \<times> bool) op" where
  "downgrade_learner x e = create_run_enrollments x (cre_user e) [cre_run e] None (Some True) audit_mode"

section \<open>Programs\<close>

definition save_program_enrollment :: "ProgramEnrollment \<Rightarrow> unit op" where
  "save_program_enrollment e =
     modify (\<lambda>s. s\<lparr>program_enrollments := update_rows (\<lambda>r. pe_id r = pe_id e) (\<lambda>_. e) (program_enrollments s)\<rparr>)"

definition enroll_program :: "nat \<Rightarrow> string \<Rightarrow> Program \<Rightarrow> ProgramEnrollment op" where
  "enroll_program user mode program = (\<lambda>s.
     case get_one (filter (\<lambda>e. pe_user e = user \<and> prg_id (pe_program e) = prg_id program)
                          (program_enrollments s)) of
       Inl err \<Rightarrow>
         if err = ObjectDoesNotExist
         then let e = \<lparr>pe_id = next_id s, pe_user = user, pe_program = program, pe_change_status = None,
                       pe_active = True, pe_enrollment_mode = mode\<rparr>
              in (Inr e, s\<lparr>program_enrollments := program_enrollments s @ [e], next_id := Suc (next_id s)\<rparr>)
         else (Inl err, s)
     | Inr e \<Rightarrow>
         let e1 = (if pe_change_status e \<noteq> None then e\<lparr>pe_active := True, pe_change_status := None\<rparr> else e);
             e2 = (if pe_enrollment_mode e1 \<noteq> mode then e1\<lparr>pe_enrollment_mode := mode\<rparr> else e1)
         in (thenP (save_program_enrollment e2) (ret e2)) s)"

fun create_program_enrollments :: "nat \<Rightarrow> Program list \<Rightarrow> string \<Rightarrow> ProgramEnrollment list op" where
  "create_program_enrollments user [] mode = ret []"
| "create_program_enrollments user (p # ps) mode =
     bindP (catchP (bindP (enroll_program user mode p) (\<lambda>e. ret [e]))
                   (\<lambda>_. thenP (emit (SendEnrollmentFailure user)) (ret []))) (\<lambda>es.
     bindP (create_program_enrollments user ps mode) (\<lambda>rest. ret (es @ rest)))"

definition upgradable_runs_of_program :: "db \<Rightarrow> nat \<Rightarrow> Program \<Rightarrow> CourseRun list" where
  "upgradable_runs_of_program s user program =
     filter (\<lambda>r. exists_row (\<lambda>q. req_program q = prg_id program
                   \<and> map_option crs_id (req_course q) = Some (crs_id (run_course r))) (requirements s)
               \<and> run_live r \<and> verified_mode \<in> set (run_enrollment_modes r)
               \<and> exists_row (\<lambda>e. cre_key e = (user, run_id r) \<and> cre_enrollment_mode e = audit_mode
                                  \<and> cre_active e) (run_enrollments s)
               \<and> (run_upgrade_deadline r = None \<or> q_gt (run_upgrade_deadline r) (now s))) (usable_runs s)"

definition upgrade_audit_run_enrollments_for_program_purchase ::
  "edx \<Rightarrow> nat \<Rightarrow> Program \<Rightarrow> CourseRunEnrollment list op" where
  "upgrade_audit_run_enrollments_for_program_purchase x user program =
     bindP (gets (\<lambda>s. upgradable_runs_of_program s user program)) (\<lambda>rs.
       if rs = [] then ret []
       else bindP (create_run_enrollments x user rs None (Some True) verified_mode) (\<lambda>(es, _). ret es))"

text \<open>\<open>PaidProgram.fulfilled_paid_program_exists\<close> and \<open>ProgramEnrollment.can_unenroll\<close>\<close>

definition fulfilled_paid_program_exists :: "db \<Rightarrow> nat \<Rightarrow> Program \<Rightarrow> bool" where
  "fulfilled_paid_program_exists s user program =
     exists_row (\<lambda>p. pp_user p = user \<and> pp_program p = prg_id program
                     \<and> order_state s (pp_order p) = Some FULFILLED) (paid_programs s)"

definition program_can_unenroll :: "db \<Rightarrow> ProgramEnrollment \<Rightarrow> bool" where
  "program_can_unenroll s e = (\<not> fulfilled_paid_program_exists s (pe_user e) (pe_program e))"

section \<open>Leaving a course run\<close>

definition run_line_of :: "db \<Rightarrow> CourseRunEnrollment \<Rightarrow> Line option" where
  "run_line_of s e =
     first (filter (\<lambda>l. ln_purchased_object_id l = Some (run_id (cre_run e))
                        \<and> ln_purchased_content_type l = Some CT_CourseRun
                        \<and> (case find_order s (ln_order l) of None \<Rightarrow> False
                           | Some o1 \<Rightarrow> ord_state o1 \<in> {FULFILLED, PENDING} \<and> ord_purchaser o1 = cre_user e))
             (order_lines s))"

definition deactivate_run_enrollment ::
  "edx \<Rightarrow> CourseRunEnrollment \<Rightarrow> string \<Rightarrow> bool option \<Rightarrow> bool \<Rightarrow> CourseRunEnrollment option op" where
  "deactivate_run_enrollment x e change_status keep_failed send_notification =
     bindP (gets (\<lambda>s. case keep_failed of Some k \<Rightarrow> k | None \<Rightarrow> set_ignore_edx_failures (conf s))) (\<lambda>keep.
       let unenrolled = (unenroll_edx_course_run x e = Inr ())
       in if \<not> unenrolled \<and> \<not> keep then ret None
          else
            let e1 = (if unenrolled then e\<lparr>cre_edx_enrolled := False, cre_edx_emails_subscription := False\<rparr>
                      else e)
            in thenP (whenP (unenrolled \<and> send_notification)
                        (emit (SendUnenrollmentEmail (cre_user e) (run_id (cre_run e)))))
               (bindP (deactivate_and_save e1 (Some change_status)) (\<lambda>e2.
                thenP (modify (\<lambda>s. s\<lparr>paid_course_runs := filter (\<lambda>p. \<not> (pcr_user p = cre_user e
                          \<and> pcr_course_run p = run_id (cre_run e))) (paid_course_runs s)\<rparr>))
                (bindP (gets (\<lambda>s. run_line_of s e)) (\<lambda>l.
                 thenP (case l of None \<Rightarrow> ret () | Some l \<Rightarrow> sync_hubspot_line_by_line_id (Some (ln_id l)))
                   (ret (Some e2)))))))"

text \<open>\<open>change_payment_to_run\<close>: the first fulfilled payment; a duplicate is an \<open>IntegrityError\<close>.\<close>

fun update_first :: "('a \<Rightarrow> bool) \<Rightarrow> ('a \<Rightarrow> 'a) \<Rightarrow> 'a list \<Rightarrow> 'a list" where
  "update_first p f [] = []"
| "update_first p f (x # xs) = (if p x then f x # xs else x # update_first p f xs)"

definition change_payment_to_run :: "CourseRunEnrollment \<Rightarrow> CourseRun \<Rightarrow> unit op" where
  "change_payment_to_run e to_run = (\<lambda>s.
     let mine = (\<lambda>p. pcr_user p = cre_user e \<and> pcr_course_run p = run_id (cre_run e)
                     \<and> order_state s (pcr_order p) = Some FULFILLED)
     in case first (filter mine (paid_course_runs s)) of
          None \<Rightarrow> (Inr (), s)
        | Some p \<Rightarrow>
            if run_id to_run \<noteq> pcr_course_run p
               \<and> exists_row (\<lambda>q. pcr_user q = pcr_user p \<and> pcr_course_run q = run_id to_run
                                 \<and> pcr_order q = pcr_order p) (paid_course_runs s)
            then (Inl IntegrityError, s)
            else (Inr (), s\<lparr>paid_course_runs :=
                    update_first mine (\<lambda>p. p\<lparr>pcr_course_run := run_id to_run\<rparr>) (paid_course_runs s)\<rparr>))"

definition status_deferred :: string where "status_deferred = ''deferred''"
definition status_unenrolled :: string where "status_unenrolled = ''unenrolled''"
definition status_refunded :: string where "status_refunded = ''refunded''"

definition active_enrollment_in_mode :: "db \<Rightarrow> nat \<Rightarrow> CourseRun \<Rightarrow> string \<Rightarrow> CourseRunEnrollment option" where
  "active_enrollment_in_mode s user run mode =
     first (filter (\<lambda>e. cre_active e \<and> cre_key e = (user, run_id run) \<and> cre_enrollment_mode e = mode)
             (run_enrollments s))"

definition check_deferral :: "db \<Rightarrow> CourseRunEnrollment \<Rightarrow> CourseRun \<Rightarrow> bool \<Rightarrow> exn + unit" where
  "check_deferral s from_enrollment to_run force =
     (if \<not> force \<and> \<not> cre_active from_enrollment then Inl ValidationError
      else if run_id (cre_run from_enrollment) = run_id to_run then Inl ValidationError
      else if \<not> force \<and> \<not> is_enrollable s to_run then Inl ValidationError
      else if \<not> force \<and> crs_id (run_course (cre_run from_enrollment)) \<noteq> crs_id (run_course to_run)
      then Inl ValidationError
      else Inr ())"

text \<open>An active audit enrollment in the target is deactivated first.\<close>

definition leave_audit_target :: "edx \<Rightarrow> nat \<Rightarrow> CourseRun \<Rightarrow> bool \<Rightarrow> unit op" where
  "leave_audit_target x user to_run keep =
     bindP (gets (\<lambda>s. active_enrollment_in_mode s user to_run audit_mode)) (\<lambda>found.
       case found of
         None \<Rightarrow> ret ()
       | Some e \<Rightarrow>
           bindP (deactivate_run_enrollment x e status_unenrolled (Some keep) True) (\<lambda>res.
             case res of
               None \<Rightarrow> raise GenericException
             | Some e' \<Rightarrow> if cre_edx_enrolled e' then raise GenericException else ret ()))"

definition first_or_none :: "'a list \<Rightarrow> 'a option" where
  "first_or_none xs = first xs"

definition move_enrollment ::
  "edx \<Rightarrow> nat \<Rightarrow> CourseRunEnrollment \<Rightarrow> CourseRun \<Rightarrow> bool \<Rightarrow>
   (CourseRunEnrollment option \<times> CourseRunEnrollment option) op" where
  "move_enrollment x user from_enrollment to_run keep =
     thenP (leave_audit_target x user to_run keep)
     (bindP (create_run_enrollments x user [to_run] None (Some keep) verified_mode) (\<lambda>(to_es, ok).
      if \<not> ok \<and> \<not> keep then raise GenericException
      else bindP (if cre_change_status from_enrollment = Some status_deferred then ret []
                  else bindP (create_run_enrollments x user [cre_run from_enrollment] (Some status_deferred)
                                (Some keep) audit_mode) (\<lambda>(es, ok).
                         if \<not> ok \<and> \<not> keep then raise GenericException else ret es)) (\<lambda>down_es.
      thenP (bindP (gets (\<lambda>s. fulfilled_paid_course_run_exists s user (cre_run from_enrollment))) (\<lambda>paid.
               whenP paid (change_payment_to_run from_enrollment to_run)))
        (ret (first_or_none down_es, first_or_none to_es)))))"

definition defer_enrollment ::
  "edx \<Rightarrow> nat \<Rightarrow> string \<Rightarrow> string option \<Rightarrow> bool \<Rightarrow> bool \<Rightarrow>
   (CourseRunEnrollment option \<times> CourseRunEnrollment option) op" where
  "defer_enrollment x user from_id to_id keep force =
     bindP (liftE (\<lambda>s. get_one (filter (\<lambda>e. cre_user e = user \<and> run_courseware_id (cre_run e) = from_id)
                                       (run_enrollments s)))) (\<lambda>from_enrollment.
     if to_id = None \<or> to_id = Some ''''
     then bindP (create_run_enrollments x user [cre_run from_enrollment] (Some status_deferred) (Some keep)
                   audit_mode) (\<lambda>(es, _). ret (first_or_none es, None))
     else
       bindP (liftE (\<lambda>s. get_one (filter (\<lambda>r. Some (run_courseware_id r) = to_id) (usable_runs s)))) (\<lambda>to_run.
       thenP (liftE (\<lambda>s. check_deferral s from_enrollment to_run force))
       (bindP (gets (\<lambda>s. active_enrollment_in_mode s user to_run verified_mode)) (\<lambda>already.
         if cre_change_status from_enrollment = Some status_deferred \<and> already \<noteq> None
         then ret (Some from_enrollment, already)
         else move_enrollment x user from_enrollment to_run keep))))"

section \<open>Learners of an order\<close>

text \<open>\<open>downgrade_learner_from_order\<close> and \<open>unenroll_learner_from_order\<close>: an order that
  sold no course run is an \<open>IndexError\<close> of the first.\<close>

definition get_order :: "db \<Rightarrow> nat \<Rightarrow> exn + Order" where
  "get_order s o1 = get_one (filter (\<lambda>r. ord_id r = o1) (orders s))"

definition downgrade_learner_from_order :: "edx \<Rightarrow> nat \<Rightarrow> unit op" where
  "downgrade_learner_from_order x o1 =
     bindP (liftE (\<lambda>s. get_order s o1)) (\<lambda>order.
     bindP (gets (\<lambda>s. purchased_runs s o1)) (\<lambda>rs.
     bindP (create_run_enrollments x (ord_purchaser order) rs None (Some True) audit_mode) (\<lambda>_. ret ())))"

definition unenroll_learner_from_order :: "edx \<Rightarrow> nat \<Rightarrow> unit op" where
  "unenroll_learner_from_order x o1 =
     bindP (liftE (\<lambda>s. get_order s o1)) (\<lambda>order.
     bindP (gets (\<lambda>s. purchased_runs s o1)) (forP (\<lambda>r.
     bindP (gets (\<lambda>s. filter (\<lambda>e. cre_active e \<and> cre_key e = (ord_purchaser order, run_id r)) (run_enrollments s)))
       (forP (\<lambda>e. catchP
          (bindP (deactivate_run_enrollment x e status_refunded None True) (\<lambda>res.
             if res = None
             then bindP (deactivate_run_enrollment x e status_refunded (Some True) True) (\<lambda>_. ret ())
             else ret ()))
          (\<lambda>err. if err = ObjectDoesNotExist then ret () else raise err))))))"

section \<open>Retrying failed edX enrollments\<close>

definition repair_grace_seconds :: int where "repair_grace_seconds = 5 * 60"
definition repair_max_retries :: nat where "repair_max_retries = 5"

definition failed_run_enrollments :: "db \<Rightarrow> CourseRunEnrollment list" where
  "failed_run_enrollments s =
     filter (\<lambda>e. cre_active e
                 \<and> (case find_user s (cre_user e) of None \<Rightarrow> False | Some u \<Rightarrow> usr_is_active u)
                 \<and> \<not> cre_edx_enrolled e
                 \<and> cre_created_on e < now s - repair_grace_seconds
                 \<and> cre_retry_count e < repair_max_retries) (run_enrollments s)"

definition retry_one :: "edx \<Rightarrow> CourseRunEnrollment \<Rightarrow> CourseRunEnrollment list op" where
  "retry_one x e =
     (case enroll_in_edx_course_runs x (cre_user e) [cre_run e] (cre_enrollment_mode e) of
        Inl err \<Rightarrow>
          if is_permanent_enrollment_failure err
          then thenP (save_run_enrollment (e\<lparr>cre_retry_count := cre_retry_count e + 1\<rparr>)) (ret [])
          else ret []
      | Inr () \<Rightarrow>
          let e' = e\<lparr>cre_edx_enrolled := True, cre_edx_emails_subscription := True\<rparr>
          in thenP (save_run_enrollment e') (ret [e']))"

fun retry_all :: "edx \<Rightarrow> CourseRunEnrollment list \<Rightarrow> CourseRunEnrollment list op" where
  "retry_all x [] = ret []"
| "retry_all x (e # es) =
     bindP (retry_one x e) (\<lambda>a. bindP (retry_all x es) (\<lambda>b. ret (a @ b)))"

definition retry_failed_edx_enrollments :: "edx \<Rightarrow> CourseRunEnrollment list op" where
  "retry_failed_edx_enrollments x = bindP (gets failed_run_enrollments) (retry_all x)"

section \<open>Enrollment tables\<close>

text \<open>The tables are keyed by user and run (\<open>unique_together\<close>) and by primary key.\<close>

definition enrollments_ok :: "db \<Rightarrow> bool" where
  "enrollments_ok s \<longleftrightarrow> distinct (map cre_key (run_enrollments s)) \<and> distinct (map cre_id (run_enrollments s))
     \<and> (\<forall>e \<in> set (run_enrollments s). cre_id e < next_id s)"

definition find_run_enrollment :: "db \<Rightarrow> nat \<times> nat \<Rightarrow> CourseRunEnrollment option" where
  "find_run_enrollment s k = first (filter (\<lambda>e. cre_key e = k) (run_enrollments s))"

lemma find_run_enrollment_Some:
  "find_run_enrollment s k = Some e \<Longrightarrow> e \<in> set (run_enrollments s) \<and> cre_key e = k"
  unfolding find_run_enrollment_def by (rule first_filter_SomeD)

lemma find_run_enrollment_mem:
  "enrollments_ok s \<Longrightarrow> e \<in> set (run_enrollments s) \<Longrightarrow> find_run_enrollment s (cre_key e) = Some e"
  by (simp add: find_run_enrollment_def enrollments_ok_def filter_key_unique)

lemma get_one_key:
  assumes "enrollments_ok s"
  shows "get_one (filter (\<lambda>e. cre_key e = k) (run_enrollments s)) =
    (case find_run_enrollment s k of None \<Rightarrow> Inl ObjectDoesNotExist | Some e \<Rightarrow> Inr e)"
proof (cases "find_run_enrollment s k")
  case None
  then have "filter (\<lambda>e. cre_key e = k) (run_enrollments s) = []"
    unfolding find_run_enrollment_def by (simp add: filter_empty_conv)
  then show ?thesis using None by simp
next
  case (Some e)
  then have "e \<in> set (run_enrollments s)" "cre_key e = k" using find_run_enrollment_Some by blast+
  then have "filter (\<lambda>x. cre_key x = k) (run_enrollments s) = [e]"
    using filter_key_unique [of cre_key "run_enrollments s" e] assms by (simp add: enrollments_ok_def)
  then show ?thesis using Some by simp
qed

lemma save_run_enrollment_ok:
  assumes ok: "enrollments_ok s" and e: "e \<in> set (run_enrollments s)"
    and same: "cre_id e' = cre_id e" "cre_key e' = cre_key e"
  shows "\<exists>t. save_run_enrollment e' s = (Inr (), t) \<and> enrollments_ok t \<and> next_id t = next_id s
    \<and> e' \<in> set (run_enrollments t) \<and> in_atomic t = in_atomic s
    \<and> find_run_enrollment t = (find_run_enrollment s)(cre_key e := Some e')"
proof -
  let ?rows = "update_rows (\<lambda>r. cre_id r = cre_id e) (\<lambda>_. e') (run_enrollments s)"
  let ?t = "s\<lparr>run_enrollments := ?rows\<rparr>"
  have run: "save_run_enrollment e' s = (Inr (), ?t)"
    by (simp add: save_run_enrollment_def modify_def same(1))
  have d: "distinct (map cre_id (run_enrollments s))" "distinct (map cre_key (run_enrollments s))"
    using ok by (simp_all add: enrollments_ok_def)
  have keys: "map cre_key ?rows = map cre_key (run_enrollments s)"
    by (rule map_update_key [OF d(1) e same(2)])
  have ids: "map cre_id ?rows = map cre_id (run_enrollments s)"
    by (rule map_update_key [OF d(1) e same(1)])
  have mem: "e' \<in> set ?rows" by (rule update_key_mem [OF e])
  have "\<forall>x \<in> set ?rows. cre_id x < next_id s"
    using ok same(1) e by (auto simp: enrollments_ok_def dest!: set_update_rowsD)
  then have ok': "enrollments_ok ?t" using d keys ids by (simp add: enrollments_ok_def)
  have "find_run_enrollment ?t k = ((find_run_enrollment s)(cre_key e := Some e')) k" for k
  proof (cases "k = cre_key e")
    case True
    then show ?thesis using find_run_enrollment_mem [OF ok', of e'] mem same(2) by simp
  next
    case False
    have "cre_key x \<noteq> k" if "x \<in> set (run_enrollments s)" "cre_id x = cre_id e" for x
      using that e False d(1) by (metis distinct_map inj_onD)
    then have "filter (\<lambda>x. cre_key x = k) ?rows = filter (\<lambda>x. cre_key x = k) (run_enrollments s)"
      using False same(2) by (intro filter_update_other) auto
    then show ?thesis using False by (simp add: find_run_enrollment_def)
  qed
  then have "find_run_enrollment ?t = (find_run_enrollment s)(cre_key e := Some e')" by (rule ext)
  then show ?thesis using run ok' mem by auto
qed

text \<open>Adding the contract of a run leaves the enrollments alone.\<close>

definition same_enrollments :: "db \<Rightarrow> db \<Rightarrow> bool" where
  "same_enrollments s t \<longleftrightarrow> run_enrollments t = run_enrollments s \<and> next_id t = next_id s
     \<and> in_atomic t = in_atomic s"

lemma same_enrollments_ok: "same_enrollments s t \<Longrightarrow> enrollments_ok s \<Longrightarrow> enrollments_ok t"
  by (simp add: same_enrollments_def enrollments_ok_def)

lemma same_enrollments_find: "same_enrollments s t \<Longrightarrow> find_run_enrollment t = find_run_enrollment s"
  by (rule ext) (simp add: same_enrollments_def find_run_enrollment_def)

lemma keeps_same_contract: "keeps (same_enrollments s) (add_user_contract u c)"
  by (rule keepsI) (simp add: add_user_contract_def modify_def same_enrollments_def)

lemma keeps_same_emit: "keeps (same_enrollments s) (emit e)"
  by (rule keepsI) (simp add: emit_result same_enrollments_def)

lemma keeps_same_run_contract: "keeps (same_enrollments s) (add_run_contract u r)"
proof -
  have "keeps (same_enrollments s) (modify (\<lambda>s. s\<lparr>user_organizations := f s\<rparr>))" for f
    by (rule keepsI) (simp add: modify_def same_enrollments_def)
  then show ?thesis
    unfolding add_run_contract_def process_add_org_membership_def add_user_contracts_def
    by (intro keeps_intro keeps_same_contract keeps_same_emit)
qed

lemma never_raises_run_contract: "never_raises (add_run_contract u r)"
  unfolding add_run_contract_def process_add_org_membership_def add_user_contracts_def
    add_user_contract_def
  by (intro never_raises_intro)

lemma add_run_contract_ok:
  "\<exists>t. add_run_contract u r s = (Inr (), t) \<and> same_enrollments s t"
proof -
  obtain x t where t: "add_run_contract u r s = (Inr x, t)"
    using never_raises_run_contract by (rule never_raisesE)
  moreover have "same_enrollments s t"
    using keepsD [OF keeps_same_run_contract, of s s u r] t by (simp add: same_enrollments_def)
  ultimately show ?thesis by simp
qed

section \<open>What enrolling achieves\<close>

text \<open>The enrollment \<open>e\<close> is active, in the mode, and records the outcome of the edX request.\<close>

definition enrolled_as :: "string \<Rightarrow> bool \<Rightarrow> CourseRunEnrollment \<Rightarrow> bool" where
  "enrolled_as mode edx_ok e \<longleftrightarrow>
     cre_active e \<and> cre_enrollment_mode e = mode \<and> cre_edx_enrolled e = edx_ok"

lemma get_or_create_cases:
  assumes ok: "enrollments_ok s"
  shows "(\<exists>e. find_run_enrollment s (u, run_id r) = Some e
        \<and> get_or_create_run_enrollment u r cs edx mode s = (Inr (e, False), s))
    \<or> (\<exists>e t. find_run_enrollment s (u, run_id r) = None
        \<and> get_or_create_run_enrollment u r cs edx mode s = (Inr (e, True), t)
        \<and> enrollments_ok t \<and> cre_key e = (u, run_id r) \<and> enrolled_as mode edx e
        \<and> in_atomic t = in_atomic s
        \<and> find_run_enrollment t = (find_run_enrollment s)((u, run_id r) := Some e))"
proof (cases "find_run_enrollment s (u, run_id r)")
  case (Some e)
  then show ?thesis using get_one_key [OF ok, of "(u, run_id r)"]
    by (simp add: get_or_create_run_enrollment_def)
next
  case None
  let ?e = "\<lparr>cre_id = next_id s, cre_user = u, cre_run = r, cre_change_status = cs, cre_active = True,
     cre_enrollment_mode = mode, cre_edx_enrolled = edx, cre_edx_emails_subscription = True,
     cre_retry_count = 0, cre_created_on = now s\<rparr>"
  let ?t = "s\<lparr>run_enrollments := run_enrollments s @ [?e], next_id := Suc (next_id s)\<rparr>"
  have key: "cre_key ?e = (u, run_id r)" by (simp add: cre_key_def)
  have new: "\<forall>x \<in> set (run_enrollments s). cre_key x \<noteq> (u, run_id r)"
    using None by (simp add: find_run_enrollment_def)
  then have ok': "enrollments_ok ?t" using ok key by (force simp: enrollments_ok_def)
  have "find_run_enrollment ?t k = ((find_run_enrollment s)((u, run_id r) := Some ?e)) k" for k
  proof (cases "k = (u, run_id r)")
    case True
    then show ?thesis using find_run_enrollment_mem [OF ok', of ?e] key by simp
  next
    case False
    then show ?thesis using key by (simp add: find_run_enrollment_def)
  qed
  then have "find_run_enrollment ?t = (find_run_enrollment s)((u, run_id r) := Some ?e)" by (rule ext)
  then show ?thesis using None get_one_key [OF ok, of "(u, run_id r)"] ok' key
    by (auto simp: get_or_create_run_enrollment_def enrolled_as_def Let_def)
qed

text \<open>Saving an enrollment found under a key.\<close>

lemma save_found:
  assumes "enrollments_ok s" "find_run_enrollment s k = Some e" "cre_id e' = cre_id e" "cre_key e' = k"
  shows "\<exists>t. save_run_enrollment e' s = (Inr (), t) \<and> enrollments_ok t \<and> next_id t = next_id s
    \<and> in_atomic t = in_atomic s
    \<and> find_run_enrollment t = (find_run_enrollment s)(k := Some e')"
  using save_run_enrollment_ok [OF assms(1), of e e'] find_run_enrollment_Some [OF assms(2)] assms(3,4) by auto

lemma enroll_run_ok:
  assumes ok: "enrollments_ok s"
  shows "\<exists>e d a t. enroll_run u cs mode edx r s = (Inr (e, d, a), t) \<and> enrollments_ok t
    \<and> cre_key e = (u, run_id r) \<and> enrolled_as mode edx e
    \<and> find_run_enrollment t = (find_run_enrollment s)((u, run_id r) := Some e)"
proof -
  consider (old) e where "find_run_enrollment s (u, run_id r) = Some e"
      "get_or_create_run_enrollment u r cs edx mode s = (Inr (e, False), s)"
    | (new) e t where "get_or_create_run_enrollment u r cs edx mode s = (Inr (e, True), t)"
      "enrollments_ok t" "cre_key e = (u, run_id r)" "enrolled_as mode edx e"
      "find_run_enrollment t = (find_run_enrollment s)((u, run_id r) := Some e)"
    using get_or_create_cases [OF ok, of u r cs edx mode] by blast
  then show ?thesis
  proof cases
    case new
    obtain t' where t': "add_run_contract u r t = (Inr (), t')" "same_enrollments t t'"
      using add_run_contract_ok by blast
    have "enroll_run u cs mode edx r s = (Inr (e, False, False), t')"
      by (simp add: enroll_run_def bindP_Inr [where m = "get_or_create_run_enrollment u r cs edx mode", OF new(1)]
          thenP_Inr [where m = "add_run_contract u r", OF t'(1)] ret_def)
    then show ?thesis
      using new t'(2) same_enrollments_ok same_enrollments_find by fastforce
  next
    case old
    let ?k = "(u, run_id r)"
    let ?e1 = "e\<lparr>cre_edx_enrolled := edx, cre_change_status := cs\<rparr>"
    have key: "cre_key e = ?k" using find_run_enrollment_Some [OF old(1)] by simp
    obtain t where t: "add_run_contract u r s = (Inr (), t)" "same_enrollments s t"
      using add_run_contract_ok by blast
    have okt: "enrollments_ok t" "find_run_enrollment t ?k = Some e"
      using t(2) ok old(1) by (simp_all add: same_enrollments_ok same_enrollments_find)
    have k1: "cre_key ?e1 = ?k" using key by (simp add: cre_key_def)
    obtain t1 where t1: "save_run_enrollment ?e1 t = (Inr (), t1)" "enrollments_ok t1"
        "find_run_enrollment t1 = (find_run_enrollment t)(?k := Some ?e1)"
      using save_found [OF okt, of ?e1] k1 by auto
    have f1: "find_run_enrollment t1 ?k = Some ?e1" using t1(3) by simp
    have run: "enroll_run u cs mode edx r s =
        (if cre_active e \<and> mode \<noteq> cre_enrollment_mode e
         then bindP (update_mode_and_save ?e1 mode) (\<lambda>e2.
                ret (e2, mode = audit_mode \<and> cre_enrollment_mode e = verified_mode, False))
         else if \<not> cre_active e
         then bindP (reactivate_and_save (if mode \<noteq> cre_enrollment_mode e
                then ?e1\<lparr>cre_enrollment_mode := mode\<rparr> else ?e1)) (\<lambda>e2.
              thenP (bindP (gets in_atomic) (\<lambda>inside. whenP (\<not> inside) (emit (SubscribeEdxEmails (cre_id e2)))))
                (ret (e2, False, True)))
         else ret (?e1, False, False)) t1"
      using t1(1)
      by (simp add: enroll_run_def Let_def
          bindP_Inr [where m = "get_or_create_run_enrollment u r cs edx mode", OF old(2)]
          thenP_Inr [where m = "add_run_contract u r", OF t(1)]
          thenP_Inr [where m = "save_run_enrollment ?e1", OF t1(1)])
    have other: "find_run_enrollment t1 = (find_run_enrollment s)(?k := Some ?e1)"
      using t1(3) t(2) by (simp add: same_enrollments_find)
    show ?thesis
    proof (cases "cre_active e \<and> mode = cre_enrollment_mode e")
      case True
      then have "enroll_run u cs mode edx r s = (Inr (?e1, False, False), t1)"
        unfolding run by (simp add: ret_def)
      moreover have "enrolled_as mode edx ?e1" using True by (simp add: enrolled_as_def)
      ultimately show ?thesis using t1(2) k1 other by auto
    next
      case change: False
      let ?e2 = "if cre_active e then ?e1\<lparr>cre_enrollment_mode := mode\<rparr>
        else ?e1\<lparr>cre_enrollment_mode := mode, cre_active := True, cre_change_status := None\<rparr>"
      have k2: "cre_key ?e2 = ?k" "cre_id ?e2 = cre_id ?e1" using key by (simp_all add: cre_key_def)
      obtain t2 where t2: "save_run_enrollment ?e2 t1 = (Inr (), t2)" "enrollments_ok t2"
          "find_run_enrollment t2 = (find_run_enrollment t1)(?k := Some ?e2)"
        using save_found [OF t1(2) f1, of ?e2] k2 by auto
      have after: "enrolled_as mode edx ?e2" by (simp add: enrolled_as_def)
      have find2: "find_run_enrollment t2 = (find_run_enrollment s)(?k := Some ?e2)"
        using t2(3) other by simp
      show ?thesis
      proof (cases "cre_active e")
        case True
        then have "\<exists>d. enroll_run u cs mode edx r s = (Inr (?e2, d, False), t2)"
          using change t2(1)
          by (simp add: run update_mode_and_save_def thenP_def bindP_def ret_def Let_def)
        then show ?thesis using t2(2) k2 after find2 by blast
      next
        case False
        have same: "(if mode \<noteq> cre_enrollment_mode e then ?e1\<lparr>cre_enrollment_mode := mode\<rparr> else ?e1)
            \<lparr>cre_active := True, cre_change_status := None\<rparr> = ?e2"
          using False by auto
        obtain t3 where "emit (SubscribeEdxEmails (cre_id ?e2)) t2 = (Inr (), t3)" "same_enrollments t2 t3"
          by (simp add: emit_result same_enrollments_def)
        then have "\<exists>t'. enroll_run u cs mode edx r s = (Inr (?e2, False, True), t') \<and> same_enrollments t2 t'"
          using False t2(1)
          by (cases "in_atomic t2")
            (auto simp: run reactivate_and_save_def same Let_def thenP_def bindP_def ret_def gets_def whenP_def
              same_enrollments_def)
        then show ?thesis
          using t2(2) k2 after find2 by (metis same_enrollments_ok same_enrollments_find)
      qed
    qed
  qed
qed

lemma emit_same_enrollments: "\<exists>t. emit e s = (Inr (), t) \<and> same_enrollments s t"
  by (simp add: emit_result same_enrollments_def)

text \<open>The loop: every run of the list ends with an enrollment as requested, and the enrollments of
  every other user and run are as before.\<close>

lemma enroll_runs_ok:
  assumes "enrollments_ok s"
  shows "\<exists>acc' t. enroll_runs u cs mode edx rs acc s = (Inr acc', t) \<and> enrollments_ok t
    \<and> length (acc_success acc') = length (acc_success acc) + length rs
    \<and> (\<forall>r \<in> set rs. \<exists>e. find_run_enrollment t (u, run_id r) = Some e \<and> enrolled_as mode edx e)
    \<and> (\<forall>k. k \<notin> (\<lambda>r. (u, run_id r)) ` set rs \<longrightarrow> find_run_enrollment t k = find_run_enrollment s k)"
  using assms
proof (induction rs arbitrary: acc s)
  case Nil
  then show ?case by (simp add: ret_def)
next
  case (Cons r rs)
  obtain e d a t where run: "enroll_run u cs mode edx r s = (Inr (e, d, a), t)" and okt: "enrollments_ok t"
    and e: "cre_key e = (u, run_id r)" "enrolled_as mode edx e"
    and find: "find_run_enrollment t = (find_run_enrollment s)((u, run_id r) := Some e)"
    using enroll_run_ok [OF Cons.prems, of u cs mode edx r] by blast
  let ?acc = "\<lparr>acc_success = acc_success acc @ [e], acc_downgraded = acc_downgraded acc \<or> d,
    acc_callbacks = acc_callbacks acc + (if a then 1 else 0), acc_last = Some e\<rparr>"
  let ?m = "catchP (bindP (enroll_run u cs mode edx r) (\<lambda>x. ret (Some x)))
      (\<lambda>_. thenP (emit (SendEnrollmentFailure u)) (ret None))"
  have body: "?m s = (Inr (Some (e, d, a)), t)"
    using run by (simp add: catchP_def bindP_def ret_def)
  obtain t1 where t1: "whenP (cre_edx_enrolled e \<and> \<not> acc_downgraded ?acc)
      (emit (SendEnrollmentEmail u (run_id r))) t = (Inr (), t1)" "same_enrollments t t1"
    using emit_same_enrollments [of "SendEnrollmentEmail u (run_id r)" t]
    by (cases "cre_edx_enrolled e \<and> \<not> acc_downgraded ?acc")
      (auto simp: whenP_def ret_def same_enrollments_def)
  have ok1: "enrollments_ok t1" using t1(2) okt by (rule same_enrollments_ok)
  have find1: "find_run_enrollment t1 = (find_run_enrollment s)((u, run_id r) := Some e)"
    using find same_enrollments_find [OF t1(2)] by simp
  obtain acc' t2 where t2: "enroll_runs u cs mode edx rs ?acc t1 = (Inr acc', t2)" "enrollments_ok t2"
      "length (acc_success acc') = length (acc_success ?acc) + length rs"
      "\<forall>r \<in> set rs. \<exists>e. find_run_enrollment t2 (u, run_id r) = Some e \<and> enrolled_as mode edx e"
      "\<forall>k. k \<notin> (\<lambda>r. (u, run_id r)) ` set rs \<longrightarrow> find_run_enrollment t2 k = find_run_enrollment t1 k"
    using Cons.IH [OF ok1, of ?acc] by blast
  have "enroll_runs u cs mode edx (r # rs) acc s = (Inr acc', t2)"
    using t1(1) t2(1) by (simp add: bindP_Inr [where m = ?m, OF body] Let_def thenP_Inr)
  moreover have "\<exists>x. find_run_enrollment t2 (u, run_id r) = Some x \<and> enrolled_as mode edx x"
    using t2(4,5) find1 e(2) by (cases "(u, run_id r) \<in> (\<lambda>r. (u, run_id r)) ` set rs") auto
  moreover have "find_run_enrollment t2 k = find_run_enrollment s k"
    if "k \<notin> (\<lambda>r. (u, run_id r)) ` set (r # rs)" for k
    using t2(5) find1 that by (cases k) auto
  ultimately show ?case using t2(2,3,4) by auto
qed

lemma keeps_same_on_commit: "keeps (same_enrollments s) (emit_on_commit e)"
  by (rule keepsI) (simp add: emit_on_commit_def modify_def same_enrollments_def)

lemma run_callbacks_ok: "\<exists>t. run_callbacks acc s = (Inr (), t) \<and> same_enrollments s t"
proof -
  have "never_raises (run_callbacks acc)" unfolding run_callbacks_def by (intro never_raises_intro)
  then obtain x t where t: "run_callbacks acc s = (Inr x, t)" by (rule never_raisesE)
  have "keeps (same_enrollments s) (run_callbacks acc)"
    unfolding run_callbacks_def by (intro keeps_intro keeps_same_on_commit)
  from keepsD [OF this, of s] t show ?thesis by (simp add: same_enrollments_def)
qed

text \<open>Enrolling returns as many enrollments as runs unless edX refused and failures are not kept.\<close>

lemma create_run_enrollments_ok:
  assumes "enrollments_ok s" and keep: "edx_request x u (hd rs) rs mode \<or> keep" and "rs \<noteq> []"
  shows "\<exists>es t. create_run_enrollments x u rs cs (Some keep) mode s =
        (Inr (es, edx_request x u (hd rs) rs mode), t)
    \<and> enrollments_ok t \<and> length es = length rs
    \<and> (\<forall>r \<in> set rs. \<exists>e. find_run_enrollment t (u, run_id r) = Some e
          \<and> enrolled_as mode (edx_request x u (hd rs) rs mode) e)
    \<and> (\<forall>k. k \<notin> (\<lambda>r. (u, run_id r)) ` set rs \<longrightarrow> find_run_enrollment t k = find_run_enrollment s k)"
proof -
  obtain r0 rs' where rs: "rs = r0 # rs'" using assms(3) by (cases rs) auto
  let ?edx = "edx_request x u (hd rs) rs mode"
  let ?acc = "\<lparr>acc_success = [], acc_downgraded = False, acc_callbacks = 0, acc_last = None\<rparr>"
  obtain acc t where acc: "enroll_runs u cs mode ?edx rs ?acc s = (Inr acc, t)" "enrollments_ok t"
      "length (acc_success acc) = length rs"
      "\<forall>r \<in> set rs. \<exists>e. find_run_enrollment t (u, run_id r) = Some e \<and> enrolled_as mode ?edx e"
      "\<forall>k. k \<notin> (\<lambda>r. (u, run_id r)) ` set rs \<longrightarrow> find_run_enrollment t k = find_run_enrollment s k"
    using enroll_runs_ok [OF assms(1), of u cs mode ?edx rs ?acc] by auto
  obtain t' where t': "run_callbacks acc t = (Inr (), t')" "same_enrollments t t'"
    using run_callbacks_ok by blast
  have edx: "edx_request x u r0 rs mode = ?edx" using rs by simp
  have "create_run_enrollments x u rs cs (Some keep) mode s = (Inr (acc_success acc, ?edx), t')"
    unfolding create_run_enrollments_def
    using keep acc(1) t'(1)
    by (auto simp: rs gets_bind Let_def bindP_Inr thenP_Inr ret_def)
  then show ?thesis
    using acc t'(2) same_enrollments_ok [OF t'(2)] same_enrollments_find [OF t'(2)] by auto
qed

lemma create_run_enrollments_refused:
  assumes "\<not> edx_request x u (hd rs) rs mode" "rs \<noteq> []"
  shows "create_run_enrollments x u rs cs (Some False) mode s = (Inr ([], False), s)"
  using assms by (cases rs) (auto simp: create_run_enrollments_def Let_def ret_def)

section \<open>Deactivation and deferral\<close>

lemma deactivate_refused:
  assumes "unenroll_edx_course_run x e \<noteq> Inr ()"
  shows "deactivate_run_enrollment x e cs (Some False) n s = (Inr None, s)"
  using assms by (simp add: deactivate_run_enrollment_def Let_def ret_def)

lemma sync_line_ok: "\<exists>t. sync_hubspot_line_by_line_id l s = (Inr (), t) \<and> same_enrollments s t
    \<and> paid_course_runs t = paid_course_runs s"
  by (cases l) (simp_all add: sync_hubspot_line_by_line_id_def emit_result same_enrollments_def)

text \<open>No payment is recorded for the user and run.\<close>

definition unpaid :: "nat \<Rightarrow> nat \<Rightarrow> db \<Rightarrow> bool" where
  "unpaid u r s \<longleftrightarrow> (\<forall>p \<in> set (paid_course_runs s). \<not> (pcr_user p = u \<and> pcr_course_run p = r))"

lemma deactivate_ok:
  assumes ok: "enrollments_ok s" and found: "find_run_enrollment s (cre_key e) = Some e"
    and go: "unenroll_edx_course_run x e = Inr () \<or> keep"
  shows "\<exists>e' t. deactivate_run_enrollment x e cs (Some keep) n s = (Inr (Some e'), t) \<and> enrollments_ok t
    \<and> \<not> cre_active e' \<and> cre_change_status e' = Some cs
    \<and> cre_edx_enrolled e' = (cre_edx_enrolled e \<and> unenroll_edx_course_run x e \<noteq> Inr ())
    \<and> find_run_enrollment t = (find_run_enrollment s)(cre_key e := Some e')
    \<and> unpaid (cre_user e) (run_id (cre_run e)) t"
proof -
  let ?un = "unenroll_edx_course_run x e = Inr ()"
  let ?e1 = "if ?un then e\<lparr>cre_edx_enrolled := False, cre_edx_emails_subscription := False\<rparr> else e"
  let ?e2 = "?e1\<lparr>cre_active := False, cre_change_status := Some cs\<rparr>"
  let ?mail = "whenP (?un \<and> n) (emit (SendUnenrollmentEmail (cre_user e) (run_id (cre_run e))))"
  obtain t0 where t0: "?mail s = (Inr (), t0)" "same_enrollments s t0"
    using emit_same_enrollments [of "SendUnenrollmentEmail (cre_user e) (run_id (cre_run e))" s]
    by (cases "?un \<and> n") (auto simp: whenP_def ret_def same_enrollments_def)
  have ok0: "enrollments_ok t0" "find_run_enrollment t0 (cre_key e) = Some e"
    using same_enrollments_ok [OF t0(2) ok] same_enrollments_find [OF t0(2)] found by simp_all
  have key: "cre_key ?e2 = cre_key e" "cre_id ?e2 = cre_id e" by (simp_all add: cre_key_def)
  obtain t1 where t1: "save_run_enrollment ?e2 t0 = (Inr (), t1)" "enrollments_ok t1"
      "find_run_enrollment t1 = (find_run_enrollment t0)(cre_key e := Some ?e2)"
    using save_found [OF ok0, of ?e2] key by auto
  let ?del = "\<lambda>s. s\<lparr>paid_course_runs := filter (\<lambda>p. \<not> (pcr_user p = cre_user e
      \<and> pcr_course_run p = run_id (cre_run e))) (paid_course_runs s)\<rparr>"
  let ?sync = "case run_line_of (?del t1) e of None \<Rightarrow> ret ()
      | Some l \<Rightarrow> sync_hubspot_line_by_line_id (Some (ln_id l))"
  obtain t2 where t2: "?sync (?del t1) = (Inr (), t2)" "same_enrollments (?del t1) t2"
      "paid_course_runs t2 = paid_course_runs (?del t1)"
  proof (cases "run_line_of (?del t1) e")
    case None
    then show thesis by (intro that [of "?del t1"]) (simp_all add: ret_def same_enrollments_def)
  next
    case (Some l)
    then show thesis using sync_line_ok [of "Some (ln_id l)" "?del t1"] that by auto
  qed
  have save: "deactivate_and_save ?e1 (Some cs) t0 = (Inr ?e2, t1)"
    unfolding deactivate_and_save_def Let_def by (simp only: thenP_Inr [where m = "save_run_enrollment ?e2", OF t1(1)] ret_def)
  have go': "(\<not> ?un \<and> \<not> keep) = False" using go by blast
  have "deactivate_run_enrollment x e cs (Some keep) n s = (Inr (Some ?e2), t2)"
    unfolding deactivate_run_enrollment_def gets_bind option.case Let_def go' if_False
      thenP_Inr [where m = ?mail, OF t0(1)] bindP_Inr [where m = "deactivate_and_save ?e1 (Some cs)", OF save]
    using t2(1) by (simp add: thenP_def bindP_def modify_def gets_def ret_def)
  moreover have "find_run_enrollment t2 = (find_run_enrollment s)(cre_key e := Some ?e2)"
  proof -
    have "find_run_enrollment (?del t1) = find_run_enrollment t1"
      by (rule ext) (simp add: find_run_enrollment_def)
    then show ?thesis
      using t1(3) same_enrollments_find [OF t0(2)] same_enrollments_find [OF t2(2)] by metis
  qed
  moreover have "enrollments_ok t2"
    using t1(2) by (intro same_enrollments_ok [OF t2(2)]) (simp add: enrollments_ok_def)
  moreover have "unpaid (cre_user e) (run_id (cre_run e)) t2" by (simp add: unpaid_def t2(3))
  ultimately show ?thesis by (intro exI [of _ ?e2] exI [of _ t2]) simp
qed

lemma defer_rejected:
  assumes "filter (\<lambda>e. cre_user e = u \<and> run_courseware_id (cre_run e) = from_id) (run_enrollments s) = [f]"
    and "filter (\<lambda>r. run_courseware_id r = to_id) (usable_runs s) = [to_run]" and "to_id \<noteq> ''''"
    and "check_deferral s f to_run force = Inl err"
  shows "defer_enrollment x u from_id (Some to_id) keep force s = (Inl err, s)"
  using assms by (simp add: defer_enrollment_def bindP_def liftE_def thenP_def)

lemma check_deferral_ok:
  "check_deferral s f to_run force = Inr () \<longleftrightarrow>
     run_id (cre_run f) \<noteq> run_id to_run
     \<and> (force \<or> (cre_active f \<and> is_enrollable s to_run
                  \<and> crs_id (run_course (cre_run f)) = crs_id (run_course to_run)))"
  by (auto simp: check_deferral_def)

lemma invalid_deferral:
  assumes "filter (\<lambda>e. cre_user e = u \<and> run_courseware_id (cre_run e) = from_id) (run_enrollments s) = [f]"
    and "filter (\<lambda>r. run_courseware_id r = to_id) (usable_runs s) = [to_run]" "to_id \<noteq> ''''"
    and "\<not> (run_id (cre_run f) \<noteq> run_id to_run
             \<and> (force \<or> (cre_active f \<and> is_enrollable s to_run
                          \<and> crs_id (run_course (cre_run f)) = crs_id (run_course to_run))))"
  shows "\<exists>err. defer_enrollment x u from_id (Some to_id) keep force s = (Inl err, s)"
proof -
  obtain err where "check_deferral s f to_run force = Inl err"
    using assms(4) check_deferral_ok [of s f to_run force] by (cases "check_deferral s f to_run force") auto
  then show ?thesis using defer_rejected [OF assms(1-3)] by blast
qed

section \<open>Retries\<close>

definition retries_bounded :: "db \<Rightarrow> bool" where
  "retries_bounded s \<longleftrightarrow> (\<forall>e \<in> set (run_enrollments s). cre_retry_count e \<le> repair_max_retries)"

lemma keeps_retries_save:
  "cre_retry_count e \<le> repair_max_retries \<Longrightarrow> keeps retries_bounded (save_run_enrollment e)"
  by (rule keepsI) (auto simp: save_run_enrollment_def modify_def retries_bounded_def dest!: set_update_rowsD)

lemma keeps_retries_one:
  assumes "cre_retry_count e < repair_max_retries"
  shows "keeps retries_bounded (retry_one x e)"
proof -
  have "keeps retries_bounded (save_run_enrollment (e\<lparr>cre_retry_count := cre_retry_count e + 1\<rparr>))"
    by (rule keeps_retries_save) (use assms in simp)
  moreover have "keeps retries_bounded
      (save_run_enrollment (e\<lparr>cre_edx_enrolled := True, cre_edx_emails_subscription := True\<rparr>))"
    by (rule keeps_retries_save) (use assms in simp)
  ultimately show ?thesis
    unfolding retry_one_def Let_def by (auto intro!: keeps_intro split: sum.split unit.split)
qed

lemma keeps_retries_all:
  "\<forall>e \<in> set es. cre_retry_count e < repair_max_retries \<Longrightarrow> keeps retries_bounded (retry_all x es)"
  by (induction es) (auto intro!: keeps_intro keeps_retries_one)

lemma keeps_retries: "keeps retries_bounded (retry_failed_edx_enrollments x)"
proof (rule keepsI)
  fix s assume "retries_bounded s"
  moreover have "\<forall>e \<in> set (failed_run_enrollments s). cre_retry_count e < repair_max_retries"
    by (simp add: failed_run_enrollments_def)
  ultimately show "retries_bounded (snd (retry_failed_edx_enrollments x s))"
    unfolding retry_failed_edx_enrollments_def
    using keepsD [OF keeps_retries_all] by simp
qed

text \<open>An outage leaves every row as it was.\<close>

lemma retry_all_outage:
  assumes "\<And>u r m. \<exists>e. enroll_in_edx_course_runs x u [r] m = Inl e \<and> \<not> is_permanent_enrollment_failure e"
  shows "retry_all x es s = (Inr [], s)"
proof (induction es)
  case (Cons e es)
  obtain err where "enroll_in_edx_course_runs x (cre_user e) [cre_run e] (cre_enrollment_mode e) = Inl err"
      "\<not> is_permanent_enrollment_failure err" using assms by blast
  then show ?case using Cons by (simp add: retry_one_def bindP_def ret_def)
qed (simp add: ret_def)

section \<open>What enrolling leaves alone\<close>

text \<open>
  A property of the database that does not look at the tables enrolling writes: enrollments,
  memberships, the key sequence and the queues.  It holds after every enrollment operation.
\<close>

locale enrollment_frame =
  fixes P :: "db \<Rightarrow> bool"
  assumes frame_run_enrollments: "P s \<Longrightarrow> P (s\<lparr>run_enrollments := re\<rparr>)"
    and frame_program_enrollments: "P s \<Longrightarrow> P (s\<lparr>program_enrollments := pe\<rparr>)"
    and frame_next_id: "P s \<Longrightarrow> P (s\<lparr>next_id := n\<rparr>)"
    and frame_users: "P s \<Longrightarrow> P (s\<lparr>users := us\<rparr>)"
    and frame_user_organizations: "P s \<Longrightarrow> P (s\<lparr>user_organizations := uo\<rparr>)"
    and frame_outbox: "P s \<Longrightarrow> P (s\<lparr>outbox := es\<rparr>)"
    and frame_on_commit: "P s \<Longrightarrow> P (s\<lparr>on_commit := es\<rparr>)"
begin

lemma keeps_emits: "keeps P (emit e)" "keeps P (emit_on_commit e)"
  by (auto intro!: keeps_emit keeps_emit_on_commit frame_outbox frame_on_commit)

lemma keeps_save_run: "keeps P (save_run_enrollment e)"
  unfolding save_run_enrollment_def by (intro keeps_modify frame_run_enrollments)

lemma keeps_get_or_create_run: "keeps P (get_or_create_run_enrollment u r cs b m)"
  by (rule keepsI)
    (auto simp: get_or_create_run_enrollment_def Let_def split: sum.splits
      intro: frame_run_enrollments frame_next_id)

lemma keeps_run_contract: "keeps P (add_run_contract u r)"
  unfolding add_run_contract_def process_add_org_membership_def add_user_contracts_def add_user_contract_def
  by (intro keeps_intro keeps_emits keeps_modify frame_users frame_user_organizations)

lemma keeps_enroll_run: "keeps P (enroll_run u cs m b r)"
  unfolding enroll_run_def Let_def update_mode_and_save_def reactivate_and_save_def
  by (intro keeps_intro keeps_get_or_create_run keeps_run_contract keeps_save_run keeps_emits)

lemma keeps_enroll_runs: "keeps P (enroll_runs u cs m b rs acc)"
proof (induction rs arbitrary: acc)
  case (Cons r rs)
  show ?case
    by (simp add: Let_def) (intro keeps_intro keeps_enroll_run keeps_emits Cons.IH)
qed (simp add: keeps_ret)

lemma keeps_create_run_enrollments: "keeps P (create_run_enrollments x u rs cs k m)"
  unfolding create_run_enrollments_def Let_def run_callbacks_def
  by (intro keeps_intro keeps_enroll_runs keeps_emits)

lemma keeps_enroll_program: "keeps P (enroll_program u m p)"
  by (rule keepsI)
    (auto simp: enroll_program_def save_program_enrollment_def Let_def py_defs split: sum.splits
      intro: frame_program_enrollments frame_next_id)

lemma keeps_create_program_enrollments: "keeps P (create_program_enrollments u ps m)"
  by (induction ps) (auto intro!: keeps_intro keeps_enroll_program keeps_emits)

end

text \<open>The payments are such a property: enrolling never touches them.\<close>

interpretation paid_frame: enrollment_frame "\<lambda>s. paid_course_runs s = ps" for ps
  by unfold_locales simp_all

end
