(* ===== verification/Contracts.thy ===== *)
theory Contracts
  imports Enrollments
begin

text \<open>
  B2B contracts (\<open>ContractPage\<close> in \<open>src/b2b/models.py\<close>, \<open>src/b2b/api.py\<close>): the runs and
  products of a contract, its enrollment codes (which are discounts), their creation and removal
  when the contract changes, the checks of a basket that holds contract products, and the
  reconciliation of a learner's organizations.

  Dates of contracts are day numbers.  A filter on a multi-valued relation is an SQL join: a
  discount occurs once for each row it is joined with, and is counted that often.
\<close>

section \<open>Contracts\<close>

definition today :: "db \<Rightarrow> int" where
  "today s = now s div 86400"

text \<open>\<open>ContractPage.is_active\<close> compares a date with a datetime.\<close>

definition contract_is_active :: "Contract \<Rightarrow> exn + bool" where
  "contract_is_active c =
     (if ctr_start c \<noteq> None then Inl PyTypeError
      else if ctr_end c \<noteq> None then Inl PyTypeError
      else Inr (ctr_active c))"

text \<open>The manager \<open>active_objects\<close>, whose comparisons the database makes on dates.\<close>

definition active_contracts :: "db \<Rightarrow> Contract list" where
  "active_contracts s =
     filter (\<lambda>c. ctr_active c \<and> \<not> (q_gt (ctr_start c) (today s) \<or> q_lt (ctr_end c) (today s))) (contracts s)"

definition learner_count :: "db \<Rightarrow> Contract \<Rightarrow> nat" where
  "learner_count s c = count_rows (\<lambda>u. ctr_id c \<in> set (usr_b2b_contracts u)) (users s)"

text \<open>\<open>if self.max_learners\<close>: null and zero both mean no limit.\<close>

definition seat_limit :: "Contract \<Rightarrow> nat option" where
  "seat_limit c = (case ctr_max_learners c of None \<Rightarrow> None | Some m \<Rightarrow> if m = 0 then None else Some m)"

definition is_full :: "db \<Rightarrow> Contract \<Rightarrow> bool" where
  "is_full s c = (case seat_limit c of None \<Rightarrow> False | Some m \<Rightarrow> learner_count s c \<ge> m)"

definition is_overfull :: "db \<Rightarrow> Contract \<Rightarrow> bool" where
  "is_overfull s c = (case seat_limit c of None \<Rightarrow> False | Some m \<Rightarrow> learner_count s c > m)"

definition requires_enrollment_codes :: "Contract \<Rightarrow> bool" where
  "requires_enrollment_codes c \<longleftrightarrow>
     (case ctr_fixed_price c of None \<Rightarrow> False | Some x \<Rightarrow> x > 0)
     \<or> ctr_membership_type c \<notin> set membership_autos"

definition contract_runs :: "db \<Rightarrow> Contract \<Rightarrow> CourseRun list" where
  "contract_runs s c = filter (\<lambda>r. map_option ctr_id (run_b2b_contract r) = Some (ctr_id c)) (usable_runs s)"

definition contract_enrollments :: "db \<Rightarrow> Contract \<Rightarrow> CourseRunEnrollment list" where
  "contract_enrollments s c =
     filter (\<lambda>e. cre_active e \<and> map_option ctr_id (run_b2b_contract (cre_run e)) = Some (ctr_id c)
                 \<and> cre_change_status e = None) (run_enrollments s)"

definition contract_products :: "db \<Rightarrow> Contract \<Rightarrow> Product list" where
  "contract_products s c =
     filter (\<lambda>p. prod_is_active p \<and> prod_content_type p = CT_CourseRun
                 \<and> prod_object_id p \<in> run_id ` set (contract_runs s c)) (products s)"

section \<open>Prices of the contract's products\<close>

text \<open>\<open>price if price else Decimal(0)\<close>\<close>

definition contract_price :: "Contract \<Rightarrow> rat" where
  "contract_price c = (case ctr_fixed_price c of None \<Rightarrow> 0 | Some x \<Rightarrow> x)"

definition get_contract_runs_without_products :: "db \<Rightarrow> Contract \<Rightarrow> CourseRun list" where
  "get_contract_runs_without_products s c =
     filter (\<lambda>r. run_id r \<notin> prod_object_id ` set (contract_products s c)) (contract_runs s c)"

definition get_contract_products_with_bad_pricing :: "db \<Rightarrow> Contract \<Rightarrow> Product list" where
  "get_contract_products_with_bad_pricing s c =
     filter (\<lambda>p. prod_price p \<noteq> contract_price c) (contract_products s c)"

text \<open>A product is unique for the object it sells, products that are not active included
  (the constraint \<open>unique_purchasable_object\<close>); saving it makes its first version.\<close>

definition create_run_product :: "Contract \<Rightarrow> CourseRun \<Rightarrow> unit op" where
  "create_run_product c r = (\<lambda>s.
     if exists_row (\<lambda>p. prod_content_type p = CT_CourseRun \<and> prod_object_id p = run_id r) (products s)
     then (Inl IntegrityError, s)
     else (Inr (), s\<lparr>products := products s
              @ [\<lparr>prod_id = next_id s, prod_content_type = CT_CourseRun, prod_object_id = run_id r,
                 prod_price = contract_price c, prod_description = run_courseware_id r, prod_is_active = True\<rparr>],
            next_id := Suc (next_id s)\<rparr>))"

definition ensure_contract_run_products :: "Contract \<Rightarrow> unit op" where
  "ensure_contract_run_products c =
     bindP (gets (\<lambda>s. get_contract_runs_without_products s c)) (forP (create_run_product c))"

definition set_price :: "nat set \<Rightarrow> rat \<Rightarrow> Product \<Rightarrow> Product" where
  "set_price ids x p = (if prod_id p \<in> ids then p\<lparr>prod_price := x\<rparr> else p)"

text \<open>The product of a basket item is the row itself.\<close>

definition ensure_contract_run_pricing :: "Contract \<Rightarrow> nat op" where
  "ensure_contract_run_pricing c = (\<lambda>s.
     let ids = prod_id ` set (contract_products s c); x = contract_price c
     in (Inr (length (contract_products s c)),
         s\<lparr>products := map (set_price ids x) (products s),
           basket_items := map (\<lambda>i. i\<lparr>bi_product := set_price ids x (bi_product i)\<rparr>) (basket_items s)\<rparr>))"

section \<open>Enrollment codes\<close>

text \<open>\<open>Discount.objects.filter(products__product__in=...)\<close>, and that filtered further by
  \<open>products__product=p\<close>, which joins a second time.\<close>

definition contract_discounts :: "db \<Rightarrow> Contract \<Rightarrow> Discount list" where
  "contract_discounts s c =
     concat (map (\<lambda>dp. filter (\<lambda>d. disc_id d = dp_discount dp) (discounts s))
       (filter (\<lambda>dp. dp_product dp \<in> (Some \<circ> prod_id) ` set (contract_products s c)) (discount_products s)))"

definition links :: "db \<Rightarrow> Discount \<Rightarrow> Product \<Rightarrow> nat" where
  "links s d p = count_rows (\<lambda>dp. dp_discount dp = disc_id d \<and> dp_product dp = Some (prod_id p)) (discount_products s)"

definition contract_product_discounts :: "db \<Rightarrow> Contract \<Rightarrow> Product \<Rightarrow> Discount list" where
  "contract_product_discounts s c p =
     concat (map (\<lambda>d. replicate (links s d p) d) (contract_discounts s c))"

definition get_unused_discounts :: "db \<Rightarrow> Contract \<Rightarrow> Discount list" where
  "get_unused_discounts s c =
     filter (\<lambda>d. d \<in> set (contract_discounts s c) \<and> \<not> is_redeemed s d
                 \<and> \<not> exists_row (\<lambda>a. ca_discount a = disc_id d) (attachments s)) (discounts s)"

text \<open>Writes to a discount reach every row that refers to it.\<close>

definition map_discount :: "nat \<Rightarrow> (Discount \<Rightarrow> Discount) \<Rightarrow> Discount \<Rightarrow> Discount" where
  "map_discount i f d = (if disc_id d = i then f d else d)"

definition map_tier_discount :: "nat \<Rightarrow> (Discount \<Rightarrow> Discount) \<Rightarrow> FlexiblePriceTier \<Rightarrow> FlexiblePriceTier" where
  "map_tier_discount i f t = t\<lparr>tier_discount := map_discount i f (tier_discount t)\<rparr>"

definition write_discount :: "nat \<Rightarrow> (Discount \<Rightarrow> Discount) \<Rightarrow> db \<Rightarrow> db" where
  "write_discount i f s = s\<lparr>
     discounts := map (map_discount i f) (discounts s),
     user_discounts := map (\<lambda>u. u\<lparr>ud_discount := map_discount i f (ud_discount u)\<rparr>) (user_discounts s),
     basket_discounts := map (\<lambda>b. b\<lparr>bd_redeemed_discount := map_discount i f (bd_redeemed_discount b)\<rparr>) (basket_discounts s),
     redemptions := map (\<lambda>r. r\<lparr>rd_redeemed_discount := map_discount i f (rd_redeemed_discount r)\<rparr>) (redemptions s),
     tiers := map (map_tier_discount i f) (tiers s),
     flexible_prices := map (\<lambda>p. p\<lparr>fp_tier := map_option (map_tier_discount i f) (fp_tier p)\<rparr>) (flexible_prices s)\<rparr>"

text \<open>Deleting a discount takes its products, assignments, basket discounts and redemptions with
  it; the discount of a tier is protected.\<close>

definition delete_discount :: "nat \<Rightarrow> unit op" where
  "delete_discount i = (\<lambda>s.
     if exists_row (\<lambda>t. disc_id (tier_discount t) = i) (tiers s) then (Inl IntegrityError, s)
     else (Inr (), s\<lparr>
       discounts := filter (\<lambda>d. disc_id d \<noteq> i) (discounts s),
       discount_products := filter (\<lambda>dp. dp_discount dp \<noteq> i) (discount_products s),
       user_discounts := filter (\<lambda>u. disc_id (ud_discount u) \<noteq> i) (user_discounts s),
       basket_discounts := filter (\<lambda>b. disc_id (bd_redeemed_discount b) \<noteq> i) (basket_discounts s),
       redemptions := filter (\<lambda>r. disc_id (rd_redeemed_discount r) \<noteq> i) (redemptions s)\<rparr>))"

text \<open>A new code: a fixed price, in bulk, for one product.\<close>

definition code_discount :: "nat \<Rightarrow> string \<Rightarrow> rat \<Rightarrow> redemption_type \<Rightarrow> Discount" where
  "code_discount i code amount rt =
     \<lparr>disc_id = i, disc_amount = amount, disc_automatic = False, disc_type = FIXED_PRICE,
      disc_redemption_type = rt, disc_payment_type = Some SALES, disc_max_redemptions = Some 0,
      disc_code = code, disc_activation_date = None, disc_expiration_date = None, disc_is_bulk = True,
      disc_is_program_discount = Some False\<rparr>"

definition create_discount_with_product :: "Product \<Rightarrow> rat \<Rightarrow> redemption_type \<Rightarrow> Discount op" where
  "create_discount_with_product p amount rt =
     bindP uuid4 (\<lambda>code.
     bindP (create_discount (code_discount 0 code amount rt)) (\<lambda>d.
     thenP (modify (\<lambda>s. s\<lparr>discount_products := discount_products s
                        @ [\<lparr>dp_discount = disc_id d, dp_product = Some (prod_id p)\<rparr>]\<rparr>))
       (ret d)))"

definition as_code :: "rat \<Rightarrow> redemption_type \<Rightarrow> Discount \<Rightarrow> Discount" where
  "as_code amount rt d = d\<lparr>disc_redemption_type := rt, disc_amount := amount, disc_type := FIXED_PRICE,
     disc_payment_type := Some SALES, disc_is_bulk := True\<rparr>"

definition update_discount :: "Discount \<Rightarrow> rat \<Rightarrow> redemption_type \<Rightarrow> unit op" where
  "update_discount d amount rt = modify (write_discount (disc_id d) (as_code amount rt))"

definition refresh_discount :: "Discount \<Rightarrow> Discount op" where
  "refresh_discount d = liftE (\<lambda>s. get_one (filter (\<lambda>r. disc_id r = disc_id d) (discounts s)))"

definition ensure_discount_product_association :: "Discount \<Rightarrow> Product \<Rightarrow> bool op" where
  "ensure_discount_product_association d p = (\<lambda>s.
     if links s d p = 0
     then (Inr True, s\<lparr>discount_products := discount_products s
                          @ [\<lparr>dp_discount = disc_id d, dp_product = Some (prod_id p)\<rparr>]\<rparr>)
     else (Inr False, s))"

definition unlink_products :: "Discount \<Rightarrow> (nat \<Rightarrow> bool) \<Rightarrow> unit op" where
  "unlink_products d gone = modify (\<lambda>s. s\<lparr>discount_products := filter (\<lambda>dp.
     \<not> (dp_discount dp = disc_id d \<and> (case dp_product dp of None \<Rightarrow> False | Some i \<Rightarrow> gone i)))
     (discount_products s)\<rparr>)"

definition delete_if_unlinked :: "Discount \<Rightarrow> bool op" where
  "delete_if_unlinked d =
     bindP (refresh_discount d) (\<lambda>_.
     bindP (gets (\<lambda>s. discount_product_rows s d = [])) (\<lambda>none.
       if none then thenP (delete_discount (disc_id d)) (ret True) else ret False))"

definition handle_extra_enrollment_codes :: "Contract \<Rightarrow> Product \<Rightarrow> nat op" where
  "handle_extra_enrollment_codes c p = (\<lambda>s.
     let remove_count = length (contract_product_discounts s c p)
                        - (case seat_limit c of None \<Rightarrow> 1 | Some m \<Rightarrow> m)
     in if remove_count = 0 then (Inr 0, s)
        else thenP (forP (\<lambda>d. thenP (unlink_products d (\<lambda>i. i = prod_id p))
                               (bindP (delete_if_unlinked d) (\<lambda>_. ret ())))
                (take remove_count (rev (sort_key disc_id
                   (filter (\<lambda>d. links s d p > 0) (get_unused_discounts s c))))))
             (ret remove_count) s)"

definition no_codes_step :: "(nat \<Rightarrow> bool) \<Rightarrow> nat \<times> nat \<Rightarrow> Discount \<Rightarrow> (nat \<times> nat) op" where
  "no_codes_step mine counts d =
     thenP (unlink_products d mine)
       (bindP (delete_if_unlinked d) (\<lambda>deleted.
          ret (Suc (fst counts), if deleted then Suc (snd counts) else snd counts)))"

definition handle_sso_free_contract :: "Contract \<Rightarrow> (nat \<times> nat \<times> nat) op" where
  "handle_sso_free_contract c =
     bindP (gets (\<lambda>s. (contract_discounts s c, prod_id ` set (contract_products s c)))) (\<lambda>(ds, ids).
     bindP (foldP (no_codes_step (\<lambda>i. i \<in> ids)) (0, 0) ds) (\<lambda>(created, updated). ret (created, updated, 0)))"

definition discounts_of_product :: "db \<Rightarrow> Product \<Rightarrow> Discount list" where
  "discounts_of_product s p = filter (\<lambda>d. links s d p > 0) (discounts s)"

definition handle_unlimited_seats :: "Contract \<Rightarrow> Product \<Rightarrow> (nat \<times> nat \<times> nat) op" where
  "handle_unlimited_seats c p =
     bindP (gets (\<lambda>s. discounts_of_product s p)) (\<lambda>ds.
     case ds of
       [] \<Rightarrow> bindP (create_discount_with_product p (contract_price c) UNLIMITED) (\<lambda>_. ret (1, 0, 0))
     | [d] \<Rightarrow>
         thenP (update_discount d (contract_price c) UNLIMITED)
         (bindP (refresh_discount d) (\<lambda>d.
          bindP (ensure_discount_product_association d p) (\<lambda>_. ret (0, 1, 0))))
     | _ \<Rightarrow> ret (0, 0, 1))"

definition update_code :: "Contract \<Rightarrow> Product \<Rightarrow> Discount \<Rightarrow> unit op" where
  "update_code c p d =
     thenP (update_discount d (contract_price c) ONE_TIME)
     (bindP (refresh_discount d) (\<lambda>d.
      bindP (ensure_discount_product_association d p) (\<lambda>_. ret ())))"

definition handle_limited_seats :: "Contract \<Rightarrow> Product \<Rightarrow> (nat \<times> nat \<times> nat) op" where
  "handle_limited_seats c p =
     (case seat_limit c of
        None \<Rightarrow> ret (0, 0, 0)
      | Some m \<Rightarrow>
          bindP (gets (\<lambda>s. contract_product_discounts s c p)) (\<lambda>ds.
          thenP (forP (update_code c p) ds)
          (bindP (gets (\<lambda>s. length (contract_product_discounts s c p))) (\<lambda>n.
           if m < n then bindP (handle_extra_enrollment_codes c p) (\<lambda>e. ret (0, length ds, e))
           else thenP (forP (\<lambda>_. bindP (create_discount_with_product p (contract_price c) ONE_TIME) (\<lambda>_. ret ()))
                         [0..<m - n])
                  (ret (m - n, length ds, 0))))))"

definition add_counts :: "nat \<times> nat \<times> nat \<Rightarrow> nat \<times> nat \<times> nat \<Rightarrow> nat \<times> nat \<times> nat" where
  "add_counts a b = (case (a, b) of ((x, y, z), (x', y', z')) \<Rightarrow> (x + x', y + y', z + z'))"

definition ensure_enrollment_codes_exist :: "Contract \<Rightarrow> (nat \<times> nat \<times> nat) op" where
  "ensure_enrollment_codes_exist c =
     (if ctr_membership_type c \<in> set membership_autos \<and> contract_price c = 0
      then handle_sso_free_contract c
      else
        bindP (gets (\<lambda>s. contract_products s c)) (\<lambda>ps.
        bindP (foldP (\<lambda>counts p.
                 bindP (if seat_limit c = None then handle_unlimited_seats c p else handle_limited_seats c p)
                   (\<lambda>more. ret (add_counts counts more))) (0, 0, 0) ps) (\<lambda>totals.
        thenP (emit (UpdateContractSheet (ctr_id c))) (ret totals))))"

section \<open>The codes of a seat-limited contract\<close>

definition codes_ok :: "db \<Rightarrow> bool" where
  "codes_ok s \<longleftrightarrow> distinct (map disc_id (discounts s)) \<and> (\<forall>d \<in> set (discounts s). disc_id d < next_id s)
     \<and> (\<forall>dp \<in> set (discount_products s). dp_discount dp < next_id s)"

text \<open>What the creation of a code does.\<close>

definition with_code :: "Product \<Rightarrow> rat \<Rightarrow> redemption_type \<Rightarrow> db \<Rightarrow> db" where
  "with_code p amount rt s = s\<lparr>next_id := Suc (Suc (next_id s)),
     discounts := discounts s
       @ [code_discount (Suc (next_id s)) (''uuid-'' @ show_nat (next_id s)) amount rt],
     discount_products := discount_products s
       @ [\<lparr>dp_discount = Suc (next_id s), dp_product = Some (prod_id p)\<rparr>]\<rparr>"

lemma create_code_run:
  "\<exists>d. create_discount_with_product p amount rt s = (Inr d, with_code p amount rt s)"
proof -
  let ?d = "code_discount (Suc (next_id s)) (''uuid-'' @ show_nat (next_id s)) amount rt"
  have "(code_discount 0 code amount rt)\<lparr>disc_id := i\<rparr> = code_discount i code amount rt" for i code
    by (simp add: code_discount_def)
  moreover have "check_date_validity t (code_discount 0 code amount rt) = Inr True" for t code
    by (simp add: check_date_validity_def code_discount_def q_lt_def)
  ultimately have "create_discount (code_discount 0 code amount rt) t =
      (Inr (code_discount (next_id t) code amount rt),
       t\<lparr>next_id := Suc (next_id t), discounts := discounts t @ [code_discount (next_id t) code amount rt]\<rparr>)" for t code
    by (simp add: create_discount_def py_defs fresh_id_def Let_def)
  then have "create_discount_with_product p amount rt s = (Inr ?d, with_code p amount rt s)"
    by (simp add: create_discount_with_product_def bindP_def thenP_def uuid4_def modify_def ret_def with_code_def)
      (simp add: code_discount_def)
  then show ?thesis by blast
qed

lemma contract_products_with_code [simp]: "contract_products (with_code p a rt s) c = contract_products s c"
  by (simp add: contract_products_def contract_runs_def usable_runs_def with_code_def)

lemma codes_ok_with_code: "codes_ok s \<Longrightarrow> codes_ok (with_code p a rt s)"
  by (auto simp: codes_ok_def with_code_def code_discount_def)

lemma with_code_simps [simp]:
  "discounts (with_code p a rt s) =
     discounts s @ [code_discount (Suc (next_id s)) (''uuid-'' @ show_nat (next_id s)) a rt]"
  "discount_products (with_code p a rt s) =
     discount_products s @ [\<lparr>dp_discount = Suc (next_id s), dp_product = Some (prod_id p)\<rparr>]"
  "next_id (with_code p a rt s) = Suc (Suc (next_id s))"
  by (simp_all add: with_code_def)

lemma code_discount_simps [simp]:
  "disc_id (code_discount i code a rt) = i" "as_code a rt (code_discount i code a rt) = code_discount i code a rt"
  by (simp_all add: code_discount_def as_code_def)

lemma joined_with_new:
  assumes "\<And>y. y \<in> set ys \<Longrightarrow> \<not> P d y" "Q y0" "P d y0" "\<And>x. x \<in> set xs \<Longrightarrow> \<not> P x y0"
  shows "concat (map (\<lambda>y. filter (\<lambda>x. P x y) (xs @ [d])) (filter Q (ys @ [y0])))
    = concat (map (\<lambda>y. filter (\<lambda>x. P x y) xs) (filter Q ys)) @ [d]"
  using assms by (induction ys) (auto simp: filter_empty_conv)

text \<open>The codes of a contract's product after one more is made: the old ones and the new one.\<close>

lemma contract_product_discounts_with_code:
  assumes ok: "codes_ok s" and p: "p \<in> set (contract_products s c)"
  shows "contract_product_discounts (with_code p a rt s) c p = contract_product_discounts s c p
    @ [code_discount (Suc (next_id s)) (''uuid-'' @ show_nat (next_id s)) a rt]"
proof -
  let ?d = "code_discount (Suc (next_id s)) (''uuid-'' @ show_nat (next_id s)) a rt"
  have all: "contract_discounts (with_code p a rt s) c = contract_discounts s c @ [?d]"
    unfolding contract_discounts_def contract_products_with_code with_code_simps
    by (rule joined_with_new) (use ok p in \<open>auto simp: codes_ok_def filter_empty_conv\<close>)
  have "disc_id d < next_id s" if "d \<in> set (contract_discounts s c)" for d
    using that ok by (auto simp: contract_discounts_def codes_ok_def)
  then have old: "map (\<lambda>d. replicate (links (with_code p a rt s) d p) d) (contract_discounts s c)
      = map (\<lambda>d. replicate (links s d p) d) (contract_discounts s c)"
    by (intro map_cong refl) (fastforce simp: links_def)
  have "links (with_code p a rt s) ?d p = 1"
    using ok by (auto simp: links_def codes_ok_def count_rows_def filter_empty_conv)
  then show ?thesis
    unfolding contract_product_discounts_def all map_append concat_append old by simp
qed

text \<open>What an update of a code does.\<close>

lemma disc_id_as_code [simp]: "disc_id (as_code a rt d) = disc_id d"
  by (simp add: as_code_def)

lemma disc_id_map_discount [simp]: "disc_id (map_discount i (as_code a rt) d) = disc_id d"
  by (simp add: map_discount_def)

lemma write_discount_simps [simp]:
  "discounts (write_discount i f s) = map (map_discount i f) (discounts s)"
  "discount_products (write_discount i f s) = discount_products s"
  "next_id (write_discount i f s) = next_id s"
  "contract_products (write_discount i f s) c = contract_products s c"
  "links (write_discount i f s) d p = links s d p"
  by (simp_all add: write_discount_def contract_products_def contract_runs_def usable_runs_def links_def)

lemma contract_discounts_write:
  "contract_discounts (write_discount i (as_code a rt) s) c
    = map (map_discount i (as_code a rt)) (contract_discounts s c)"
  by (simp add: contract_discounts_def map_concat filter_map comp_def)

lemma contract_product_discounts_write:
  "contract_product_discounts (write_discount i (as_code a rt) s) c p
    = map (map_discount i (as_code a rt)) (contract_product_discounts s c p)"
proof -
  have "links s (map_discount i (as_code a rt) d) p = links s d p" for d
    by (simp add: links_def)
  then show ?thesis
    by (simp add: contract_product_discounts_def contract_discounts_write map_concat comp_def)
qed

lemma codes_ok_write: "codes_ok s \<Longrightarrow> codes_ok (write_discount i (as_code a rt) s)"
  by (auto simp: codes_ok_def comp_def)

lemma update_code_run:
  assumes ok: "codes_ok s" and d: "disc_id d \<in> disc_id ` set (discounts s)" and l: "links s d p > 0"
  shows "update_code c p d s = (Inr (), write_discount (disc_id d) (as_code (contract_price c) ONE_TIME) s)"
proof -
  let ?f = "as_code (contract_price c) ONE_TIME"
  let ?t = "write_discount (disc_id d) ?f s"
  obtain e where e: "e \<in> set (discounts s)" "disc_id e = disc_id d" using d by (metis imageE)
  have ids: "map disc_id (discounts ?t) = map disc_id (discounts s)" by (simp add: comp_def)
  have "map_discount (disc_id d) ?f e \<in> set (discounts ?t)"
    using e(1) by simp
  moreover have "distinct (map disc_id (discounts ?t))"
    using ok unfolding ids by (simp add: codes_ok_def)
  ultimately have one: "filter (\<lambda>r. disc_id r = disc_id d) (discounts ?t) = [map_discount (disc_id d) ?f e]"
    using filter_key_unique [of disc_id "discounts ?t" "map_discount (disc_id d) ?f e"] e(2) by simp
  have "links s (map_discount (disc_id d) ?f e) p > 0" using l e(2) by (simp add: links_def)
  then show ?thesis
    unfolding update_code_def update_discount_def refresh_discount_def
    by (simp only: thenP_def bindP_def modify_def liftE_def one get_one_simps prod.case sum.case)
       (simp add: ensure_discount_product_association_def ret_def)
qed

lemma contract_product_discountsD:
  "d \<in> set (contract_product_discounts s c p) \<Longrightarrow> d \<in> set (discounts s) \<and> links s d p > 0"
  by (auto simp: contract_product_discounts_def contract_discounts_def split: if_splits)

lemma links_id: "disc_id d = disc_id e \<Longrightarrow> links s d p = links s e p"
  by (simp add: links_def)

text \<open>The update of a list of codes of a product: every code of the list becomes a code of the
  contract's price.\<close>

lemma update_codes_run:
  assumes "codes_ok s" "\<And>d. d \<in> set ds \<Longrightarrow> d \<in> set (discounts s) \<and> links s d p > 0"
  shows "forP (update_code c p) ds s =
    (Inr (), foldl (\<lambda>t d. write_discount (disc_id d) (as_code (contract_price c) ONE_TIME) t) s ds)"
  using assms
proof (induction ds rule: rev_induct)
  case Nil
  then show ?case by (simp add: ret_def)
next
  case (snoc d ds)
  let ?w = "\<lambda>t d. write_discount (disc_id d) (as_code (contract_price c) ONE_TIME) t"
  let ?t = "foldl ?w s ds"
  have keep: "codes_ok t \<Longrightarrow> codes_ok (foldl ?w t es) \<and> disc_id ` set (discounts (foldl ?w t es)) = disc_id ` set (discounts t)
      \<and> links (foldl ?w t es) e p = links t e p" for t es e
    by (induction es arbitrary: t) (simp_all add: codes_ok_write image_image)
  have "forP (update_code c p) ds s = (Inr (), ?t)" using snoc by simp
  moreover have "update_code c p d ?t = (Inr (), ?w ?t d)"
    using snoc.prems keep [of s ds d] by (intro update_code_run) auto
  ultimately show ?case
    by (simp add: forP_append thenP_Inr) (simp add: thenP_def bindP_def ret_def)
qed

lemma updated_codes:
  fixes ds c
  defines "t \<equiv> \<lambda>s. foldl (\<lambda>t d. write_discount (disc_id d) (as_code (contract_price c) ONE_TIME) t) s ds"
  shows "codes_ok s \<Longrightarrow> codes_ok (t s)"
    and "contract_products (t s) c = contract_products s c"
    and "map disc_id (discounts (t s)) = map disc_id (discounts s)"
    and "map disc_id (contract_product_discounts (t s) c p) = map disc_id (contract_product_discounts s c p)"
  unfolding t_def
  by (induction ds arbitrary: s) (simp_all add: codes_ok_write contract_product_discounts_write comp_def)

lemma as_code_idem [simp]: "as_code a rt (as_code a rt d) = as_code a rt d"
  by (simp add: as_code_def)

lemma updated_codes_rows:
  "contract_product_discounts (foldl (\<lambda>t d. write_discount (disc_id d) (as_code a rt) t) s ds) c p
    = map (\<lambda>e. if disc_id e \<in> disc_id ` set ds then as_code a rt e else e) (contract_product_discounts s c p)"
  by (induction ds arbitrary: s) (auto simp: contract_product_discounts_write map_discount_def)

text \<open>All codes of the product, updated: as many, with the same keys, at the price of the contract.\<close>

lemma refreshed_codes:
  fixes s c p
  defines "ds \<equiv> contract_product_discounts s c p"
  defines "t \<equiv> foldl (\<lambda>t d. write_discount (disc_id d) (as_code (contract_price c) ONE_TIME) t) s ds"
  assumes "codes_ok s"
  shows "forP (update_code c p) ds s = (Inr (), t)" and "codes_ok t"
    and "contract_products t c = contract_products s c"
    and "contract_product_discounts t c p = map (as_code (contract_price c) ONE_TIME) ds"
    and "map disc_id (discounts t) = map disc_id (discounts s)"
proof -
  show "forP (update_code c p) ds s = (Inr (), t)"
    unfolding t_def using assms(3) by (rule update_codes_run) (auto simp: ds_def dest: contract_product_discountsD)
  show "codes_ok t" "contract_products t c = contract_products s c"
    "map disc_id (discounts t) = map disc_id (discounts s)"
    unfolding t_def using assms(3) by (simp_all add: updated_codes)
  show "contract_product_discounts t c p = map (as_code (contract_price c) ONE_TIME) ds"
    unfolding t_def updated_codes_rows ds_def by (rule map_cong) auto
qed

text \<open>The codes that are made for the seats that have none.\<close>

lemma new_codes_run:
  assumes "codes_ok s" "p \<in> set (contract_products s c)"
  shows "\<exists>t new. forP (\<lambda>_. bindP (create_discount_with_product p a rt) (\<lambda>_. ret ())) (xs :: nat list) s = (Inr (), t)
    \<and> codes_ok t \<and> contract_products t c = contract_products s c
    \<and> contract_product_discounts t c p = contract_product_discounts s c p @ new
    \<and> discounts t = discounts s @ new \<and> length new = length xs \<and> (\<forall>d \<in> set new. as_code a rt d = d)"
  using assms
proof (induction xs arbitrary: s)
  case Nil
  then show ?case by (simp add: ret_def)
next
  case (Cons x xs)
  let ?u = "with_code p a rt s"
  have "codes_ok ?u" "p \<in> set (contract_products ?u c)" using Cons.prems codes_ok_with_code by auto
  from Cons.IH [OF this] obtain t new
    where t: "forP (\<lambda>_. bindP (create_discount_with_product p a rt) (\<lambda>_. ret ())) xs ?u = (Inr (), t)"
      and new: "codes_ok t" "contract_products t c = contract_products ?u c"
        "contract_product_discounts t c p = contract_product_discounts ?u c p @ new"
        "discounts t = discounts ?u @ new" "length new = length xs" "\<forall>d \<in> set new. as_code a rt d = d"
    by blast
  obtain d where "create_discount_with_product p a rt s = (Inr d, ?u)" using create_code_run by blast
  then have "bindP (create_discount_with_product p a rt) (\<lambda>_. ret ()) s = (Inr (), ?u)"
    by (simp add: bindP_Inr ret_def)
  then have "forP (\<lambda>_. bindP (create_discount_with_product p a rt) (\<lambda>_. ret ())) (x # xs) s = (Inr (), t)"
    using t by (simp add: thenP_Inr)
  moreover have "contract_product_discounts ?u c p = contract_product_discounts s c p
      @ [code_discount (Suc (next_id s)) (''uuid-'' @ show_nat (next_id s)) a rt]"
    using Cons.prems by (rule contract_product_discounts_with_code)
  ultimately show ?case
    using new by (intro exI [of _ t] exI [of _ "code_discount (Suc (next_id s)) (''uuid-'' @ show_nat (next_id s)) a rt # new"]) simp
qed

text \<open>One code for each seat.\<close>

lemma seats_run:
  assumes ok: "codes_ok s" and p: "p \<in> set (contract_products s c)" and m: "seat_limit c = Some m"
    and n: "length (contract_product_discounts s c p) \<le> m"
  shows "\<exists>t new. handle_limited_seats c p s
      = (Inr (m - length (contract_product_discounts s c p), length (contract_product_discounts s c p), 0), t)
    \<and> codes_ok t \<and> contract_products t c = contract_products s c
    \<and> contract_product_discounts t c p
        = map (as_code (contract_price c) ONE_TIME) (contract_product_discounts s c p) @ new
    \<and> map disc_id (discounts t) = map disc_id (discounts s) @ map disc_id new
    \<and> length new = m - length (contract_product_discounts s c p)
    \<and> (\<forall>d \<in> set new. as_code (contract_price c) ONE_TIME d = d)"
proof -
  let ?ds = "contract_product_discounts s c p"
  note r = refreshed_codes [OF ok, of c p]
  let ?u = "foldl (\<lambda>t d. write_discount (disc_id d) (as_code (contract_price c) ONE_TIME) t) s ?ds"
  have "p \<in> set (contract_products ?u c)" using p r(3) by simp
  from new_codes_run [OF r(2) this, of "contract_price c" ONE_TIME "[0..<m - length ?ds]"]
  obtain t new where t: "forP (\<lambda>_. bindP (create_discount_with_product p (contract_price c) ONE_TIME) (\<lambda>_. ret ()))
      [0..<m - length ?ds] ?u = (Inr (), t)"
    and new: "codes_ok t" "contract_products t c = contract_products ?u c"
      "contract_product_discounts t c p = contract_product_discounts ?u c p @ new"
      "discounts t = discounts ?u @ new" "length new = length [0..<m - length ?ds]"
      "\<forall>d \<in> set new. as_code (contract_price c) ONE_TIME d = d"
    by blast
  have len: "length (contract_product_discounts ?u c p) = length ?ds" using r(4) by simp
  have "handle_limited_seats c p s = (Inr (m - length ?ds, length ?ds, 0), t)"
    unfolding handle_limited_seats_def m option.case gets_bind
      thenP_Inr [where m = "forP (update_code c p) ?ds" and s = s, OF r(1)]
    using n t by (simp add: len thenP_Inr) (simp add: ret_def)
  moreover have "map disc_id (discounts t) = map disc_id (discounts s) @ map disc_id new"
    using new(4) r(5) by simp
  ultimately show ?thesis using new r(3,4) by (intro exI [of _ t] exI [of _ new]) simp
qed

text \<open>
  The codes are counted as rows of the join: a code that is linked to two products of the contract,
  or twice to the product, counts twice.  New codes differ from the old ones and from each other.
\<close>

lemma seats_distinct:
  assumes ok: "codes_ok s" and p: "p \<in> set (contract_products s c)" and m: "seat_limit c = Some m"
    and n: "length (contract_product_discounts s c p) \<le> m"
  shows "\<exists>t new. handle_limited_seats c p s
      = (Inr (m - length (contract_product_discounts s c p), length (contract_product_discounts s c p), 0), t)
    \<and> codes_ok t \<and> contract_products t c = contract_products s c
    \<and> contract_product_discounts t c p
        = map (as_code (contract_price c) ONE_TIME) (contract_product_discounts s c p) @ new
    \<and> map disc_id (discounts t) = map disc_id (discounts s) @ map disc_id new
    \<and> length (contract_product_discounts t c p) = m
    \<and> card (disc_id ` set (contract_product_discounts t c p))
        = m - (length (contract_product_discounts s c p) - card (disc_id ` set (contract_product_discounts s c p)))
    \<and> (\<forall>d \<in> set new. as_code (contract_price c) ONE_TIME d = d)"
proof -
  let ?ds = "contract_product_discounts s c p" and ?w = "as_code (contract_price c) ONE_TIME"
  obtain t new where
    t: "handle_limited_seats c p s = (Inr (m - length ?ds, length ?ds, 0), t)" "codes_ok t"
      "contract_products t c = contract_products s c" "contract_product_discounts t c p = map ?w ?ds @ new"
      "map disc_id (discounts t) = map disc_id (discounts s) @ map disc_id new" "length new = m - length ?ds"
      "\<forall>d \<in> set new. ?w d = d"
    using seats_run [OF assms] by blast
  have dist: "distinct (map disc_id (discounts s) @ map disc_id new)" using t(2,5) by (simp add: codes_ok_def)
  have old: "disc_id ` set ?ds \<subseteq> disc_id ` set (discounts s)" by (auto dest: contract_product_discountsD)
  have "disc_id ` set (contract_product_discounts t c p) = disc_id ` set ?ds \<union> disc_id ` set new"
    using t(4) by (auto simp: image_Un image_image as_code_def)
  moreover have "(disc_id ` set ?ds) \<inter> (disc_id ` set new) = {}" using dist old by auto
  moreover have "card (disc_id ` set new) = length new" using dist by (metis distinct_append distinct_card length_map set_map)
  ultimately have "card (disc_id ` set (contract_product_discounts t c p)) = card (disc_id ` set ?ds) + (m - length ?ds)"
    using t(6) by (simp add: card_Un_disjoint)
  moreover have "card (disc_id ` set ?ds) \<le> length ?ds" by (metis card_length length_map set_map)
  ultimately have "card (disc_id ` set (contract_product_discounts t c p)) = m - (length ?ds - card (disc_id ` set ?ds))"
    using n by simp
  moreover have "length (contract_product_discounts t c p) = m" using t(4,6) n by simp
  ultimately show ?thesis using t by blast
qed

end
