(* ===== verification/ContractBaskets.thy ===== *)
theory ContractBaskets
  imports Contracts Baskets
begin

text \<open>
  The checks of a basket that holds products of B2B contracts
  (\<open>get_free_and_nonfree_contracts\<close>, \<open>is_discount_supplied_for_b2b_purchase\<close>,
  \<open>get_active_contracts_from_basket_items\<close> and \<open>validate_basket_for_b2b_purchase\<close> of
  \<open>src/b2b/api.py\<close>).  A learner who belongs to a free contract needs no code for it; any other
  contract product needs one.
\<close>

definition contract_is_free :: "Contract \<Rightarrow> bool" where
  "contract_is_free c \<longleftrightarrow> contract_price c = 0"

definition get_free_and_nonfree_contracts :: "Contract list \<Rightarrow> Contract list \<times> Contract list" where
  "get_free_and_nonfree_contracts cs = (filter contract_is_free cs, filter (\<lambda>c. \<not> contract_is_free c) cs)"

text \<open>\<open>request.user.b2b_contracts\<close>, read from the database.\<close>

definition contracts_of_user :: "db \<Rightarrow> User \<Rightarrow> nat list" where
  "contracts_of_user s user = (case find_user s (usr_id user) of None \<Rightarrow> [] | Some r \<Rightarrow> usr_b2b_contracts r)"

definition remaining_free_contracts :: "db \<Rightarrow> User \<Rightarrow> Contract list \<Rightarrow> Contract list" where
  "remaining_free_contracts s user free =
     filter (\<lambda>c. ctr_id c \<in> ctr_id ` set free \<and> ctr_id c \<notin> set (contracts_of_user s user)) (contracts s)"

definition is_discount_supplied_for_b2b_purchase :: "User \<Rightarrow> Contract list \<Rightarrow> bool op" where
  "is_discount_supplied_for_b2b_purchase user cs =
     (if cs = [] then ret True
      else bindP (establish_basket_delayed user) (\<lambda>b.
        let (free, nonfree) = get_free_and_nonfree_contracts cs
        in gets (\<lambda>s. if remaining_free_contracts s user free = [] \<and> nonfree = [] then True
                     else basket_discounts_of s (bkt_id b) \<noteq> [])))"

definition item_contract :: "db \<Rightarrow> BasketItem \<Rightarrow> nat option" where
  "item_contract s i =
     (case purchasable_object s (bi_product i) of
        Some (PurchRun r) \<Rightarrow> map_option ctr_id (run_b2b_contract r) | _ \<Rightarrow> None)"

definition get_active_contracts_from_basket_items :: "db \<Rightarrow> Basket \<Rightarrow> Contract list" where
  "get_active_contracts_from_basket_items s b =
     (let ids = List.map_filter (item_contract s)
                  (filter (\<lambda>i. prod_content_type (bi_product i) = CT_CourseRun) (items_of s (bkt_id b)))
      in if ids = [] then [] else filter (\<lambda>c. ctr_id c \<in> set ids \<and> ctr_active c) (contracts s))"

definition validate_basket_for_b2b_purchase :: "User \<Rightarrow> Contract list \<Rightarrow> bool op" where
  "validate_basket_for_b2b_purchase user cs =
     bindP (establish_basket_delayed user) (\<lambda>b.
       let (free, nonfree) = get_free_and_nonfree_contracts cs
       in gets (\<lambda>s.
            let outside = remaining_free_contracts s user free
            in if outside = [] \<and> nonfree = [] then True
               else let ids = prod_id ` set (concat (map (contract_products s) (outside @ nonfree)))
                    in if ids = {} then True
                       else exists_row (\<lambda>bd. exists_row (\<lambda>dp. dp_discount dp = disc_id (bd_redeemed_discount bd)
                                \<and> (case dp_product dp of None \<Rightarrow> False | Some i \<Rightarrow> i \<in> ids))
                              (discount_products s)) (basket_discounts_of s (bkt_id b))))"

section \<open>Facts\<close>

lemma free_and_nonfree_partition:
  "set (fst (get_free_and_nonfree_contracts cs)) \<union> set (snd (get_free_and_nonfree_contracts cs)) = set cs"
  by (auto simp: get_free_and_nonfree_contracts_def)

text \<open>The checks write nothing but the basket that the learner did not have yet.\<close>

lemma keeps_b2b_checks:
  assumes "keeps P (establish_basket_delayed user)"
  shows "keeps P (is_discount_supplied_for_b2b_purchase user cs)"
    and "keeps P (validate_basket_for_b2b_purchase user cs)"
  unfolding is_discount_supplied_for_b2b_purchase_def validate_basket_for_b2b_purchase_def
  by (intro keeps_intro assms; simp add: keeps_gets split: prod.split)+

end
