(* ===== verification/OrderFlow.thy ===== *)
theory OrderFlow
  imports Enrollments
begin

text \<open>
  Orders and their state machine (\<open>OrderFlow\<close>, \<open>Order\<close>, \<open>Transaction\<close> in
  \<open>src/ecommerce/models.py\<close>, the line hooks of \<open>src/ecommerce/hooks/process_transaction_line.py\<close>):
  the transitions with their source states and bodies, the transactions they record, the
  enrollments that fulfilling creates, reference numbers and refund windows.

  An order in memory and its row are identified: no query between setting the state and saving
  it reads the state column.
\<close>

section \<open>The transition wrapper\<close>

text \<open>
  The decorators of the \<open>viewflow.fsm\<close> package wrap the bodies of the transitions: the allowed
  source states, the target, the getter and setter of the state, the callback on success and
  the body.  \<open>permission\<close> is only checked by \<open>has_perm\<close>, which the code does not call.
\<close>

type_synonym fsm =
  "(OrderStatus \<Rightarrow> bool) \<Rightarrow> OrderStatus \<Rightarrow> (db \<Rightarrow> OrderStatus option) \<Rightarrow> (OrderStatus \<Rightarrow> unit op) \<Rightarrow>
   unit op \<Rightarrow> unit op \<Rightarrow> unit op"

text \<open>The documented behaviour: a call from a state that is not a source raises and changes
  nothing; otherwise the target is set, the body runs, an exception of the body restores the
  state and propagates, and the callback follows a success.\<close>

definition viewflow_contract :: "fsm \<Rightarrow> bool" where
  "viewflow_contract f \<longleftrightarrow>
     (\<forall>src target get put success body s st. get s = Some st \<longrightarrow>
        (\<not> src st \<longrightarrow> f src target get put success body s = (Inl TransitionNotAllowed, s))
        \<and> (src st \<longrightarrow> f src target get put success body s =
             thenP (put target) (thenP (catchP body (\<lambda>e. thenP (put st) (raise e))) success) s))
     \<and> (\<forall>src target get put success body s. get s = None \<longrightarrow>
          f src target get put success body s = (Inl ObjectDoesNotExist, s))"

definition viewflow_run :: fsm where
  "viewflow_run src target get put success body = (\<lambda>s.
     case get s of
       None \<Rightarrow> (Inl ObjectDoesNotExist, s)
     | Some st \<Rightarrow>
         if src st
         then thenP (put target) (thenP (catchP body (\<lambda>e. thenP (put st) (raise e))) success) s
         else (Inl TransitionNotAllowed, s))"

lemma viewflow_run_contract: "viewflow_contract viewflow_run"
  by (simp add: viewflow_contract_def viewflow_run_def)

lemma viewflow_contractD: "viewflow_contract f \<Longrightarrow> f = viewflow_run"
  by (intro ext) (simp add: viewflow_contract_def viewflow_run_def split: option.split)

text \<open>What the code under this repository takes from other packages when it handles an order.\<close>

record ext =
  x_fsm :: fsm
  x_edx :: edx

section \<open>Orders\<close>

definition reference_number_prefix :: string where
  "reference_number_prefix = ''mitxonline-''"

definition generate_reference_number :: "db \<Rightarrow> nat \<Rightarrow> string" where
  "generate_reference_number s o1 =
     reference_number_prefix @ set_environment (conf s) @ ''-'' @ show_nat o1"

text \<open>\<open>str.replace(p, "")\<close>: every occurrence from the left; an empty \<open>p\<close> does not occur here.\<close>

fun remove_all :: "nat \<Rightarrow> string \<Rightarrow> string \<Rightarrow> string" where
  "remove_all 0 p t = t"
| "remove_all (Suc n) p t =
     (case t of [] \<Rightarrow> []
      | c # r \<Rightarrow> if starts_with p t then remove_all n p (drop (length p) t) else c # remove_all n p r)"

definition decode_reference_number :: "db \<Rightarrow> string \<Rightarrow> string" where
  "decode_reference_number s refno =
     remove_all (Suc (length refno)) (reference_number_prefix @ set_environment (conf s) @ ''-'') refno"

definition save_order :: "nat \<Rightarrow> unit op" where
  "save_order o1 = modify (\<lambda>s.
     update_order o1 (\<lambda>r. case ord_reference_number r of
        None \<Rightarrow> r\<lparr>ord_reference_number := Some (generate_reference_number s o1)\<rparr>
      | Some _ \<Rightarrow> r) s)"

definition is_review :: "Order \<Rightarrow> bool" where
  "is_review r \<longleftrightarrow> ord_state r = REVIEW"

definition is_fulfilled :: "Order \<Rightarrow> bool" where
  "is_fulfilled r \<longleftrightarrow> ord_state r = FULFILLED"

definition days :: "int \<Rightarrow> int" where "days n = n * 86400"

definition is_refund_eligible :: "db \<Rightarrow> Order \<Rightarrow> bool" where
  "is_refund_eligible s r =
     (if now s \<le> ord_created_on r + days 7 then True
      else list_ex (\<lambda>run. case run_start_date run of None \<Rightarrow> False
                    | Some b \<Rightarrow> b > ord_created_on r \<and> now s \<le> b + days 7)
             (purchased_runs s (ord_id r)))"

section \<open>Transactions\<close>

text \<open>
  The text a \<open>CharField\<close> stores: strings as they are, other values by \<open>str\<close>.  The identifiers of
  the processors are strings or whole numbers; of fractions, lists and dicts the text that Python
  writes is not modelled, and here they raise.
\<close>

definition column_text :: "json \<Rightarrow> exn + string" where
  "column_text j =
     (case j of
        JStr t \<Rightarrow> Inr t
      | JNum r \<Rightarrow> (if of_int \<lfloor>r\<rfloor> \<noteq> r then Inl PyTypeError
          else if 0 \<le> r then Inr (show_nat (nat \<lfloor>r\<rfloor>)) else Inr (CHR ''-'' # show_nat (nat (- \<lfloor>r\<rfloor>))))
      | JBool b \<Rightarrow> Inr (if b then ''True'' else ''False'')
      | _ \<Rightarrow> Inl PyTypeError)"

text \<open>What a \<open>DecimalField\<close> stores: null is an \<open>IntegrityError\<close>, and what is not a decimal a
  \<open>ValidationError\<close>.\<close>

definition column_amount_of :: "json \<Rightarrow> exn + rat" where
  "column_amount_of j =
     (if j = JNull then Inl IntegrityError
      else case json_decimal j of Inr r \<Rightarrow> Inr r | Inl _ \<Rightarrow> Inl ValidationError)"

fun is_infix :: "string \<Rightarrow> string \<Rightarrow> bool" where
  "is_infix p [] = (p = [])"
| "is_infix p (c # t) = (starts_with p (c # t) \<or> is_infix p t)"

definition stripe_amount :: "json \<Rightarrow> exn + json" where
  "stripe_amount d =
     (if \<not> jtruthy (jget d ''data'') then Inr (JNum 0)
      else case jget d ''data'' of
        Some (JObj kvs) \<Rightarrow>
          (case map_of kvs ''object'' of
             Some (JObj obj) \<Rightarrow>
               (case map_of obj ''amount_total'' of
                  Some a \<Rightarrow> bindE (json_decimal a) (\<lambda>r. Inr (JNum (r / 100)))
                | None \<Rightarrow> Inr (JNum 0))
           | Some (JArr xs) \<Rightarrow> if JStr ''amount_total'' \<in> set xs then Inl PyTypeError else Inr (JNum 0)
           | Some (JStr t) \<Rightarrow> if is_infix ''amount_total'' t then Inl PyTypeError else Inr (JNum 0)
           | x \<Rightarrow> if jtruthy x then Inl PyTypeError else Inr (JNum 0))
      | _ \<Rightarrow> Inl PyAttributeError)"

text \<open>The transaction id and amount of a payment, from the gateway of the order.  What is not a dict
  has no \<open>get\<close>.\<close>

definition transaction_payload :: "Order \<Rightarrow> json \<Rightarrow> (json option \<times> json) op" where
  "transaction_payload order d =
     (if ord_total_price_paid order \<noteq> 0 \<and> \<not> is_dict (Some d) then raise PyAttributeError
      else if ord_total_price_paid order = 0 \<or> jtruthy (jget d ''is_administrative'')
      then bindP uuid4 (\<lambda>u. ret (Some (JStr u), JNum 0))
      else case ord_gateway_type order of
        GW_CYBERSOURCE \<Rightarrow>
          ret (jget d ''transaction_id'',
               case jget d ''amount'' of None \<Rightarrow> JNum 0 | Some a \<Rightarrow> a)
      | GW_STRIPE \<Rightarrow> bindP (liftE (\<lambda>_. stripe_amount d)) (\<lambda>a. ret (jget d ''id'', a))
      | _ \<Rightarrow> raise ValidationError)"

text \<open>\<open>order.transactions.get_or_create\<close>: the match among the order's transactions, else a new
  row, whose id must be new in the whole table.\<close>

definition get_or_create_transaction ::
  "nat \<Rightarrow> (Transaction \<Rightarrow> bool) \<Rightarrow> string \<Rightarrow> json \<Rightarrow> json \<Rightarrow> transaction_type \<Rightarrow> string \<Rightarrow> Transaction op" where
  "get_or_create_transaction o1 match tid amount d ty reason = (\<lambda>s.
     case get_one (filter match (transactions_of s o1)) of
       Inr t \<Rightarrow> (Inr t, s)
     | Inl e \<Rightarrow>
         if e \<noteq> ObjectDoesNotExist then (Inl e, s)
         else (case column_amount_of amount of
                 Inl e \<Rightarrow> (Inl e, s)
               | Inr a \<Rightarrow>
                   if exists_row (\<lambda>t. tx_transaction_id t = tid) (transactions s) then (Inl IntegrityError, s)
                   else let t = \<lparr>tx_id = next_id s, tx_transaction_id = tid, tx_order = o1, tx_amount = a,
                                tx_data = d, tx_type = ty, tx_reason = reason\<rparr>
                        in (Inr t, s\<lparr>transactions := transactions s @ [t], next_id := Suc (next_id s)\<rparr>)))"

definition create_transaction :: "nat \<Rightarrow> json \<Rightarrow> string \<Rightarrow> Transaction op" where
  "create_transaction o1 d reason =
     bindP (liftE (\<lambda>s. get_order s o1)) (\<lambda>order.
     bindP (transaction_payload order d) (\<lambda>(tid, amount).
       if \<not> jtruthy tid then raise ValidationError
       else bindP (liftE (\<lambda>_. column_text (the tid))) (\<lambda>tid.
         get_or_create_transaction o1 (\<lambda>t. tx_transaction_id t = tid) tid amount d TX_PAYMENT reason)))"

section \<open>Fulfilling a line\<close>

definition create_paid_course_run :: "nat \<Rightarrow> nat \<Rightarrow> nat \<Rightarrow> unit op" where
  "create_paid_course_run user run o1 = (\<lambda>s.
     let p = \<lparr>pcr_user = user, pcr_course_run = run, pcr_order = o1\<rparr>
     in if p \<in> set (paid_course_runs s) then (Inl IntegrityError, s)
        else (Inr (), s\<lparr>paid_course_runs := paid_course_runs s @ [p]\<rparr>))"

definition create_paid_program :: "nat \<Rightarrow> nat \<Rightarrow> nat \<Rightarrow> unit op" where
  "create_paid_program user program o1 = (\<lambda>s.
     let p = \<lparr>pp_user = user, pp_program = program, pp_order = o1\<rparr>
     in if p \<in> set (paid_programs s) then (Inl IntegrityError, s)
        else (Inr (), s\<lparr>paid_programs := paid_programs s @ [p]\<rparr>))"

definition create_courserun_enrollment :: "edx \<Rightarrow> Order \<Rightarrow> Line \<Rightarrow> unit op" where
  "create_courserun_enrollment x order l =
     bindP (gets (\<lambda>s. (order_state s (ord_id order), purchased_object s l))) (\<lambda>(st, obj).
       if st \<noteq> Some FULFILLED then ret ()
       else case obj of
         Some (PurchRun r) \<Rightarrow>
           bindP (create_run_enrollments x (ord_purchaser order) [r] None (Some True) verified_mode) (\<lambda>_.
             create_paid_course_run (ord_purchaser order) (run_id r) (ord_id order))
       | _ \<Rightarrow> ret ())"

definition create_program_enrollment :: "edx \<Rightarrow> Order \<Rightarrow> Line \<Rightarrow> unit op" where
  "create_program_enrollment x order l =
     bindP (gets (\<lambda>s. (order_state s (ord_id order), purchased_object s l))) (\<lambda>(st, obj).
       if st \<noteq> Some FULFILLED then ret ()
       else case obj of
         Some (PurchProgram p) \<Rightarrow>
           bindP (create_program_enrollments (ord_purchaser order) [p] verified_mode) (\<lambda>_.
           thenP (create_paid_program (ord_purchaser order) (prg_id p) (ord_id order))
             (bindP (upgrade_audit_run_enrollments_for_program_purchase x (ord_purchaser order) p) (\<lambda>_. ret ())))
       | _ \<Rightarrow> ret ())"

text \<open>Both implementations of the hook \<open>process_transaction_line\<close> return \<open>None\<close>, so both run.\<close>

definition process_transaction_line :: "edx \<Rightarrow> Order \<Rightarrow> Line \<Rightarrow> unit op" where
  "process_transaction_line x order l =
     thenP (create_courserun_enrollment x order l) (create_program_enrollment x order l)"

definition create_enrollments :: "edx \<Rightarrow> Order \<Rightarrow> unit op" where
  "create_enrollments x order =
     bindP (gets (\<lambda>s. (order_state s (ord_id order), lines_of s (ord_id order)))) (\<lambda>(st, ls).
       if st \<noteq> Some FULFILLED then ret () else forP (process_transaction_line x order) ls)"

section \<open>The transitions\<close>

definition set_order_state :: "nat \<Rightarrow> OrderStatus \<Rightarrow> unit op" where
  "set_order_state o1 st = modify (update_order o1 (\<lambda>r. r\<lparr>ord_state := st\<rparr>))"

definition transition :: "ext \<Rightarrow> (OrderStatus \<Rightarrow> bool) \<Rightarrow> OrderStatus \<Rightarrow> nat \<Rightarrow> unit op \<Rightarrow> unit op" where
  "transition x src target o1 body =
     x_fsm x src target (\<lambda>s. order_state s o1) (set_order_state o1) (save_order o1) body"

text \<open>\<open>if isinstance(api_response_data, dict): self.create_transaction(api_response_data)\<close>\<close>

definition transaction_if_dict :: "nat \<Rightarrow> json option \<Rightarrow> unit op" where
  "transaction_if_dict o1 d =
     (case d of Some (JObj kvs) \<Rightarrow> bindP (create_transaction o1 (JObj kvs) '''') (\<lambda>_. ret ()) | _ \<Rightarrow> ret ())"

definition cancel :: "ext \<Rightarrow> nat \<Rightarrow> json option \<Rightarrow> unit op" where
  "cancel x o1 d = transition x (\<lambda>_. True) CANCELED o1 (transaction_if_dict o1 d)"

definition decline :: "ext \<Rightarrow> nat \<Rightarrow> unit op" where
  "decline x o1 = transition x (\<lambda>st. st = PENDING) DECLINED o1
     (modify (\<lambda>s. s\<lparr>redemptions := filter (\<lambda>r. rd_redeemed_order r \<noteq> o1) (redemptions s)\<rparr>))"

definition errored :: "ext \<Rightarrow> nat \<Rightarrow> json option \<Rightarrow> unit op" where
  "errored x o1 d = transition x (\<lambda>_. True) ERRORED o1 (transaction_if_dict o1 d)"

definition refund_body :: "nat \<Rightarrow> json option \<Rightarrow> json option \<Rightarrow> string \<Rightarrow> unit op" where
  "refund_body o1 d amount reason =
     (let tid = (if jtruthy d then jget (the d) ''id'' else None)
      in if jtruthy d \<and> \<not> is_dict d then raise PyAttributeError
         else if tid = None \<or> tid = Some JNull then raise ValidationError
         else bindP (liftE (\<lambda>_. column_text (the tid))) (\<lambda>tid.
              bindP (get_or_create_transaction o1
                       (\<lambda>t. tx_transaction_id t = tid \<and> tx_data t = the d \<and> tx_type t = TX_REFUND
                            \<and> tx_reason t = reason
                            \<and> (case amount of None \<Rightarrow> False | Some a \<Rightarrow> column_amount_of a = Inr (tx_amount t)))
                       tid (case amount of None \<Rightarrow> JNull | Some a \<Rightarrow> a) (the d) TX_REFUND reason)
                (\<lambda>_. emit (SendOrderRefundEmail o1))))"

definition refund :: "ext \<Rightarrow> nat \<Rightarrow> json option \<Rightarrow> json option \<Rightarrow> string \<Rightarrow> unit op" where
  "refund x o1 d amount reason = transition x (\<lambda>st. st = FULFILLED) REFUNDED o1 (refund_body o1 d amount reason)"

text \<open>The receipt, except for UAI and contract orders and orders made by a command or a program.\<close>

definition order_receipt :: "nat \<Rightarrow> bool \<Rightarrow> bool \<Rightarrow> bool \<Rightarrow> unit op" where
  "order_receipt o1 already_enrolled skip_receipt skip_fulfillment =
     (if already_enrolled \<or> skip_receipt \<or> skip_fulfillment then ret ()
      else bindP (liftE (\<lambda>s. is_uai_order s o1)) (\<lambda>uai.
        if uai then ret ()
        else bindP (liftE (\<lambda>s. is_contract_order s o1)) (\<lambda>contract.
          if contract then ret () else emit_on_commit (SendOrderReceipt o1))))"

definition fulfill_body :: "ext \<Rightarrow> nat \<Rightarrow> json \<Rightarrow> bool \<Rightarrow> bool \<Rightarrow> bool \<Rightarrow> unit op" where
  "fulfill_body x o1 d already_enrolled skip_receipt skip_fulfillment =
     bindP (create_transaction o1 d '''') (\<lambda>_.
     bindP (liftE (\<lambda>s. get_order s o1)) (\<lambda>order.
     thenP (whenP (\<not> skip_fulfillment) (create_enrollments (x_edx x) order))
       (order_receipt o1 already_enrolled skip_receipt skip_fulfillment)))"

definition fulfill :: "ext \<Rightarrow> nat \<Rightarrow> json \<Rightarrow> bool \<Rightarrow> bool \<Rightarrow> bool \<Rightarrow> unit op" where
  "fulfill x o1 d already_enrolled skip_receipt skip_fulfillment =
     transition x (\<lambda>st. st = PENDING) FULFILLED o1
       (fulfill_body x o1 d already_enrolled skip_receipt skip_fulfillment)"

text \<open>\<open>fulfill_completed_order\<close> (\<open>src/ecommerce/api.py\<close>): the basket goes when it is the order's.\<close>

definition fulfill_completed_order :: "ext \<Rightarrow> nat \<Rightarrow> json \<Rightarrow> Basket option \<Rightarrow> bool \<Rightarrow> bool \<Rightarrow> unit op" where
  "fulfill_completed_order x o1 d basket already_enrolled skip_receipt =
     thenP (fulfill x o1 d already_enrolled skip_receipt False)
     (thenP (sync_hubspot_deal o1)
       (case basket of
          None \<Rightarrow> ret ()
        | Some b \<Rightarrow>
            bindP (liftE (\<lambda>s. bindE (get_order s o1) (compare_to_order s b))) (\<lambda>same.
              whenP same (delete_basket b))))"

section \<open>Reference numbers\<close>

lemma starts_with_self: "starts_with p (p @ t)"
  by (simp add: starts_with_def)

lemma starts_with_hd: "starts_with (c # p) t \<Longrightarrow> t \<noteq> [] \<and> hd t = c"
  by (cases t) (auto simp: starts_with_def)

lemma remove_all_absent:
  "\<forall>d \<in> set t. d \<noteq> c \<Longrightarrow> remove_all n (c # p) t = t"
proof (induction n arbitrary: t)
  case (Suc n)
  then show ?case using starts_with_hd [of c p t] by (cases t) auto
qed simp

lemma remove_all_once:
  "\<forall>d \<in> set t. d \<noteq> c \<Longrightarrow> remove_all (Suc n) (c # p) ((c # p) @ t) = t"
  using starts_with_self [of "c # p" t] by (simp add: remove_all_absent)

lemma prefix_Cons: "reference_number_prefix = CHR ''m'' # ''itxonline-''"
  by (simp add: reference_number_prefix_def)

lemma digits_no_m: "\<forall>d \<in> set (show_nat n). d \<noteq> CHR ''m''"
  using show_nat_digits(2) [of n] by (auto simp: list_all_iff is_digit_def)

text \<open>The payment processors' reference names the order it was made for.\<close>

lemma decode_generate: "decode_reference_number s (generate_reference_number s o1) = show_nat o1"
proof -
  let ?p = "CHR ''m'' # (''itxonline-'' @ set_environment (conf s) @ ''-'')"
  have g: "generate_reference_number s o1 = ?p @ show_nat o1"
    by (simp add: generate_reference_number_def prefix_Cons)
  have p: "reference_number_prefix @ set_environment (conf s) @ ''-'' = ?p"
    by (simp add: prefix_Cons)
  show ?thesis
    unfolding decode_reference_number_def p g
    using remove_all_once [OF digits_no_m] by blast
qed

lemma generate_inject:
  "generate_reference_number s o1 = generate_reference_number s o2 \<longleftrightarrow> o1 = o2"
  by (auto simp: generate_reference_number_def)

section \<open>What the bodies leave alone\<close>

text \<open>
  A property that the enrollments of a purchaser's lines keep, whatever the lines sell: it
  survives verified enrollments, program enrollments and new payment rows.
\<close>

locale line_frame =
  fixes P :: "db \<Rightarrow> bool" and u :: nat
  assumes line_run_enrollments: "keeps P (create_run_enrollments x u rs None (Some True) verified_mode)"
    and line_program_enrollments: "keeps P (create_program_enrollments u ps verified_mode)"
    and line_paid_course_runs: "P s \<Longrightarrow> P (s\<lparr>paid_course_runs := paid_course_runs s @ [p]\<rparr>)"
    and line_paid_programs: "P s \<Longrightarrow> P (s\<lparr>paid_programs := paid_programs s @ [q]\<rparr>)"
begin

lemma keeps_paid: "keeps P (create_paid_course_run v r o1)" "keeps P (create_paid_program v g o1)"
  by (auto intro!: keepsI simp: create_paid_course_run_def create_paid_program_def Let_def
      intro: line_paid_course_runs line_paid_programs)

lemma keeps_courserun_hook:
  assumes "ord_purchaser order = u"
  shows "keeps P (create_courserun_enrollment x order l)"
  unfolding create_courserun_enrollment_def assms
  by (auto intro!: keeps_intro keeps_paid line_run_enrollments split: option.split purchasable.split)

lemma keeps_program_hook:
  assumes "ord_purchaser order = u"
  shows "keeps P (create_program_enrollment x order l)"
proof -
  have "keeps P (upgrade_audit_run_enrollments_for_program_purchase x u p)" for p
    unfolding upgrade_audit_run_enrollments_for_program_purchase_def
    by (intro keeps_intro line_run_enrollments)
  then show ?thesis
    unfolding create_program_enrollment_def assms
    by (intro keeps_bindP keeps_gets keeps_case_prod keeps_if keeps_ret)
      (auto simp del: create_program_enrollments.simps
        intro!: keeps_thenP keeps_bindP keeps_ret keeps_paid line_program_enrollments
        split: option.split purchasable.split)
qed

lemma keeps_line: "ord_purchaser order = u \<Longrightarrow> keeps P (process_transaction_line x order l)"
  unfolding process_transaction_line_def
  by (intro keeps_thenP keeps_courserun_hook keeps_program_hook)

lemma keeps_create_enrollments: "ord_purchaser order = u \<Longrightarrow> keeps P (create_enrollments x order)"
  unfolding create_enrollments_def by (intro keeps_intro keeps_line)

end

text \<open>
  A property that the bodies of all transitions keep: in addition it does not look at the
  transactions, and new payment rows do not hurt it.
\<close>

locale order_frame = enrollment_frame +
  assumes frame_transactions: "P s \<Longrightarrow> P (s\<lparr>transactions := ts\<rparr>)"
    and frame_paid_course_runs: "P s \<Longrightarrow> P (s\<lparr>paid_course_runs := paid_course_runs s @ [p]\<rparr>)"
    and frame_paid_programs: "P s \<Longrightarrow> P (s\<lparr>paid_programs := paid_programs s @ [q]\<rparr>)"

sublocale order_frame \<subseteq> line: line_frame P u for u
  by unfold_locales
    (auto intro: keeps_create_run_enrollments keeps_create_program_enrollments frame_paid_course_runs
      frame_paid_programs)

context order_frame
begin

lemma keeps_get_or_create_transaction: "keeps P (get_or_create_transaction o1 m tid a d ty r)"
  by (rule keepsI)
    (auto simp: get_or_create_transaction_def Let_def split: sum.splits
      intro: frame_transactions frame_next_id)

lemma keeps_create_transaction: "keeps P (create_transaction o1 d reason)"
proof -
  have "keeps P uuid4" by (rule keepsI) (simp add: uuid4_def frame_next_id)
  then have "keeps P (transaction_payload order d)" for order
    unfolding transaction_payload_def
    by (auto intro!: keeps_intro split: gateway.splits)
  then show ?thesis
    unfolding create_transaction_def by (intro keeps_intro keeps_get_or_create_transaction)
qed

lemma keeps_fulfill_body: "keeps P (fulfill_body x o1 d a r f)"
  unfolding fulfill_body_def order_receipt_def
  by (intro keeps_intro keeps_create_transaction line.keeps_create_enrollments [OF refl] keeps_emits)

lemma keeps_transaction_if_dict: "keeps P (transaction_if_dict o1 d)"
  unfolding transaction_if_dict_def
  by (auto intro!: keeps_intro keeps_create_transaction split: option.split json.split)

lemma keeps_refund_body: "keeps P (refund_body o1 d a r)"
  unfolding refund_body_def Let_def by (intro keeps_intro keeps_get_or_create_transaction keeps_emits)

end

text \<open>No body writes the table of orders: the state changes only through the wrapper.\<close>

definition orders_are :: "Order list \<Rightarrow> db \<Rightarrow> bool" where
  "orders_are os s \<longleftrightarrow> orders s = os"

interpretation orders_frame: order_frame "orders_are os" for os
  by unfold_locales (simp_all add: orders_are_def)

text \<open>Nor the lines, the objects they sell, the redemptions or the recorded payments.\<close>

interpretation lines_frame: order_frame
  "\<lambda>s. order_lines s = ls \<and> course_runs s = rs \<and> programs s = ps" for ls rs ps
  by unfold_locales simp_all

interpretation redemptions_frame: order_frame "\<lambda>s. redemptions s = rs" for rs
  by unfold_locales simp_all

interpretation payments_frame: order_frame "\<lambda>s. p \<in> set (paid_course_runs s)" for p
  by unfold_locales simp_all

section \<open>The state machine\<close>

text \<open>The moves of an order's state, one rule per transition of \<open>OrderFlow\<close>.\<close>

inductive order_step :: "OrderStatus \<Rightarrow> OrderStatus \<Rightarrow> bool" where
  step_fulfill: "order_step PENDING FULFILLED"
| step_decline: "order_step PENDING DECLINED"
| step_refund: "order_step FULFILLED REFUNDED"
| step_cancel: "order_step st CANCELED"
| step_error: "order_step st ERRORED"

inductive_cases order_stepE: "order_step st st'"

inductive_simps order_step_to: "order_step st FULFILLED" "order_step st DECLINED"
  "order_step st REFUNDED" "order_step st PENDING" "order_step st REVIEW"
  "order_step st PARTIALLY_REFUNDED"

inductive order_reachable :: "OrderStatus \<Rightarrow> bool" where
  reach_new: "order_reachable PENDING"
| reach_step: "order_reachable st \<Longrightarrow> order_step st st' \<Longrightarrow> order_reachable st'"

code_pred order_step .

text \<open>A closed order can only be canceled or marked as an error, and both are always allowed.\<close>

lemma closed_orders:
  "\<forall>st. (\<forall>st'. order_step st st' \<longrightarrow> st' \<in> {CANCELED, ERRORED}) \<longleftrightarrow> st \<notin> {PENDING, FULFILLED}"
  by code_simp

text \<open>The states an order can be in; review and partial refund are never entered.\<close>

lemma order_reachable_iff:
  "order_reachable st \<longleftrightarrow> st \<in> {PENDING, FULFILLED, DECLINED, REFUNDED, CANCELED, ERRORED}"
proof
  assume "order_reachable st"
  then show "st \<in> {PENDING, FULFILLED, DECLINED, REFUNDED, CANCELED, ERRORED}"
    by induction (auto elim: order_stepE)
next
  have "order_reachable FULFILLED" using reach_new step_fulfill by (rule reach_step)
  moreover from this have "order_reachable REFUNDED" using step_refund by (rule reach_step)
  moreover have "order_reachable DECLINED" using reach_new step_decline by (rule reach_step)
  moreover have "order_reachable CANCELED" using reach_new step_cancel by (rule reach_step)
  moreover have "order_reachable ERRORED" using reach_new step_error by (rule reach_step)
  ultimately show "st \<in> {PENDING, FULFILLED, DECLINED, REFUNDED, CANCELED, ERRORED} \<Longrightarrow> order_reachable st"
    using reach_new by auto
qed

text \<open>Paths: an order that was refunded had been fulfilled, and nothing becomes pending again.\<close>

inductive order_path :: "OrderStatus list \<Rightarrow> bool" where
  path_start: "order_path [PENDING]"
| path_more: "order_path (st # sts) \<Longrightarrow> order_step st st' \<Longrightarrow> order_path (st' # st # sts)"

lemma order_path_last: "order_path sts \<Longrightarrow> last sts = PENDING \<and> sts \<noteq> []"
  by (induction rule: order_path.induct) auto

lemma order_path_pending_once: "order_path sts \<Longrightarrow> PENDING \<notin> set (butlast sts)"
  by (induction rule: order_path.induct) (auto elim: order_stepE)

lemma order_path_previous:
  assumes "order_path (st' # sts)" "st' \<noteq> PENDING"
  shows "\<exists>st rest. sts = st # rest \<and> order_step st st' \<and> order_path sts"
  using assms by (cases rule: order_path.cases) auto

lemma order_path_refunded: "order_path (REFUNDED # sts) \<Longrightarrow> \<exists>rest. sts = FULFILLED # rest"
  using order_path_previous [of REFUNDED sts] by (auto simp: order_step_to)

lemma order_path_fulfilled: "order_path (FULFILLED # sts) \<Longrightarrow> sts = [PENDING]"
proof -
  assume p: "order_path (FULFILLED # sts)"
  then obtain rest where rest: "sts = PENDING # rest"
    using order_path_previous [of FULFILLED sts] by (auto simp: order_step_to)
  then have "PENDING \<in> set (butlast (FULFILLED # sts))" if "rest \<noteq> []" using that by simp
  then show ?thesis using order_path_pending_once [OF p] rest by (cases rest) auto
qed

section \<open>The operations follow the state machine\<close>

lemma order_state_set:
  "order_state s o1 = Some st \<Longrightarrow> \<exists>t. set_order_state o1 st' s = (Inr (), t)
     \<and> t = update_order o1 (\<lambda>r. r\<lparr>ord_state := st'\<rparr>) s \<and> order_state t o1 = Some st'"
  by (auto simp: set_order_state_def modify_def order_state_def find_order_update)

lemma order_state_save: "order_state (update_order o1 (\<lambda>r. case ord_reference_number r of
        None \<Rightarrow> r\<lparr>ord_reference_number := Some n\<rparr> | Some _ \<Rightarrow> r) s) o2 = order_state s o2"
  by (rule order_state_update) (auto split: option.split)

lemma save_order_state: "\<exists>t. save_order o1 s = (Inr (), t) \<and> order_state t o2 = order_state s o2"
  by (simp add: save_order_def modify_def order_state_save)

lemma order_state_orders: "orders t = orders s \<Longrightarrow> order_state t o1 = order_state s o1"
  by (simp add: order_state_def find_order_def)

text \<open>The wrapper with a body that leaves the orders alone.\<close>

lemma transition_cases:
  assumes f: "viewflow_contract (x_fsm x)" and body: "\<And>os. keeps (orders_are os) body"
    and st: "order_state s o1 = Some st"
  shows "(\<not> src st \<and> transition x src target o1 body s = (Inl TransitionNotAllowed, s))
    \<or> (src st \<and> (\<exists>t. transition x src target o1 body s = (Inr (), t) \<and> order_state t o1 = Some target))
    \<or> (src st \<and> (\<exists>e t. transition x src target o1 body s = (Inl e, t) \<and> order_state t o1 = Some st))"
proof (cases "src st")
  case False
  then show ?thesis
    using f st by (simp add: transition_def viewflow_contractD [OF f] viewflow_run_def)
next
  case True
  let ?s1 = "update_order o1 (\<lambda>r. r\<lparr>ord_state := target\<rparr>) s"
  have s1: "set_order_state o1 target s = (Inr (), ?s1)" "order_state ?s1 o1 = Some target"
    using order_state_set [OF st, of target] by auto
  have run: "transition x src target o1 body s =
      thenP (catchP body (\<lambda>e. thenP (set_order_state o1 st) (raise e))) (save_order o1) ?s1"
    using True st s1(1)
    by (simp add: transition_def viewflow_contractD [OF f] viewflow_run_def thenP_Inr)
  show ?thesis
  proof (cases "body ?s1")
    case (Pair r t)
    have "orders t = orders ?s1" using keepsD [OF body, of "orders ?s1" ?s1] Pair by (simp add: orders_are_def)
    then have t: "order_state t o1 = Some target" using s1(2) order_state_orders by metis
    show ?thesis
    proof (cases r)
      case (Inl e)
      obtain t' where t': "set_order_state o1 st t = (Inr (), t')" "order_state t' o1 = Some st"
        using order_state_set [OF t, of st] by auto
      have "transition x src target o1 body s = (Inl e, t')"
        unfolding run using Pair Inl t'(1) by (simp add: thenP_def bindP_def catchP_def raise_def)
      then show ?thesis using True t'(2) by blast
    next
      case (Inr y)
      obtain t' where t': "save_order o1 t = (Inr (), t')" "order_state t' o1 = order_state t o1"
        using save_order_state by blast
      have "transition x src target o1 body s = (Inr (), t')"
        unfolding run using Pair Inr t'(1) by (simp add: thenP_def bindP_def catchP_def)
      then show ?thesis using True t t'(2) by auto
    qed
  qed
qed

text \<open>Every transition moves the state by one rule of the machine or leaves it, and an exception
  leaves it.\<close>

datatype order_op =
    OpCancel "json option"
  | OpDecline
  | OpErrored "json option"
  | OpRefund "json option" "json option" string
  | OpFulfill json bool bool bool

fun run_order_op :: "ext \<Rightarrow> nat \<Rightarrow> order_op \<Rightarrow> unit op" where
  "run_order_op x o1 (OpCancel d) = cancel x o1 d"
| "run_order_op x o1 OpDecline = decline x o1"
| "run_order_op x o1 (OpErrored d) = errored x o1 d"
| "run_order_op x o1 (OpRefund d a r) = refund x o1 d a r"
| "run_order_op x o1 (OpFulfill d a r f) = fulfill x o1 d a r f"

fun op_source :: "order_op \<Rightarrow> OrderStatus \<Rightarrow> bool" where
  "op_source (OpCancel d) st = True"
| "op_source OpDecline st = (st = PENDING)"
| "op_source (OpErrored d) st = True"
| "op_source (OpRefund d a r) st = (st = FULFILLED)"
| "op_source (OpFulfill d a r f) st = (st = PENDING)"

fun op_target :: "order_op \<Rightarrow> OrderStatus" where
  "op_target (OpCancel d) = CANCELED"
| "op_target OpDecline = DECLINED"
| "op_target (OpErrored d) = ERRORED"
| "op_target (OpRefund d a r) = REFUNDED"
| "op_target (OpFulfill d a r f) = FULFILLED"

lemma op_step: "op_source p st \<Longrightarrow> order_step st (op_target p)"
  by (cases p) (auto intro: order_step.intros)

lemma keeps_orders_decline:
  "keeps (orders_are os) (modify (\<lambda>s. s\<lparr>redemptions := filter (\<lambda>r. rd_redeemed_order r \<noteq> o1) (redemptions s)\<rparr>))"
  by (rule keeps_modify) (simp add: orders_are_def)

lemma run_order_op_cases:
  assumes f: "viewflow_contract (x_fsm x)" and st: "order_state s o1 = Some st"
  obtains (refused) "\<not> op_source p st" "run_order_op x o1 p s = (Inl TransitionNotAllowed, s)"
  | (moved) t where "op_source p st" "run_order_op x o1 p s = (Inr (), t)" "order_state t o1 = Some (op_target p)"
  | (failed) e t where "op_source p st" "run_order_op x o1 p s = (Inl e, t)" "order_state t o1 = Some st"
proof -
  note cases' = transition_cases [OF f _ st]
  show thesis
  proof (cases p)
    case (OpCancel d)
    then show thesis
      using cases' [OF orders_frame.keeps_transaction_if_dict, of "\<lambda>_. True" CANCELED o1 d] that
      by (auto simp: cancel_def)
  next
    case OpDecline
    then show thesis
      using cases' [OF keeps_orders_decline, of "\<lambda>st. st = PENDING" DECLINED o1] that
      by (auto simp: decline_def)
  next
    case (OpErrored d)
    then show thesis
      using cases' [OF orders_frame.keeps_transaction_if_dict, of "\<lambda>_. True" ERRORED o1 d] that
      by (auto simp: errored_def)
  next
    case (OpRefund d a r)
    then show thesis
      using cases' [OF orders_frame.keeps_refund_body, of "\<lambda>st. st = FULFILLED" REFUNDED o1 d a r] that
      by (auto simp: refund_def)
  next
    case (OpFulfill d a r f)
    then show thesis
      using cases' [OF orders_frame.keeps_fulfill_body, of "\<lambda>st. st = PENDING" FULFILLED x o1 d a r f] that
      by (auto simp: fulfill_def)
  qed
qed

fun run_order_ops :: "ext \<Rightarrow> nat \<Rightarrow> order_op list \<Rightarrow> db \<Rightarrow> db" where
  "run_order_ops x o1 [] s = s"
| "run_order_ops x o1 (p # ps) s = run_order_ops x o1 ps (snd (run_order_op x o1 p s))"

text \<open>A history of operations, failed ones included, keeps the order in reachable states.\<close>

lemma run_order_ops_reachable:
  assumes "viewflow_contract (x_fsm x)" "order_state s o1 = Some st" "order_reachable st"
  shows "\<exists>st'. order_state (run_order_ops x o1 ps s) o1 = Some st' \<and> order_reachable st'"
  using assms(2,3)
proof (induction ps arbitrary: s st)
  case (Cons p ps)
  from assms(1) Cons.prems(1) show ?case
  proof (cases rule: run_order_op_cases [where p = p])
    case refused
    then show ?thesis using Cons by auto
  next
    case (moved t)
    have "order_reachable (op_target p)"
      using Cons.prems(2) op_step [OF moved(1)] by (rule reach_step)
    then show ?thesis using Cons.IH [of t "op_target p"] moved by simp
  next
    case (failed e t)
    then show ?thesis using Cons.IH [of t st] Cons.prems by simp
  qed
qed auto

section \<open>What fulfilling achieves\<close>

text \<open>The user has an active enrollment of the run in the verified mode.\<close>

definition verified_in :: "nat \<Rightarrow> nat \<Rightarrow> db \<Rightarrow> bool" where
  "verified_in u r s \<longleftrightarrow> enrollments_ok s
     \<and> (\<exists>e. find_run_enrollment s (u, r) = Some e \<and> cre_active e \<and> cre_enrollment_mode e = verified_mode)"

lemma verified_in_frame:
  "verified_in u r s \<Longrightarrow> run_enrollments t = run_enrollments s \<Longrightarrow> next_id s \<le> next_id t \<Longrightarrow> verified_in u r t"
  by (auto simp: verified_in_def enrollments_ok_def find_run_enrollment_def)

lemma enrollments_ok_frame:
  "enrollments_ok s \<Longrightarrow> run_enrollments t = run_enrollments s \<Longrightarrow> next_id s \<le> next_id t \<Longrightarrow> enrollments_ok t"
  by (auto simp: enrollments_ok_def)

lemma keeps_ok_create_run_enrollments:
  "keeps enrollments_ok (create_run_enrollments x u rs cs (Some True) m)"
proof (rule keepsI)
  fix s assume ok: "enrollments_ok s"
  show "enrollments_ok (snd (create_run_enrollments x u rs cs (Some True) m s))"
  proof (cases "rs = []")
    case True
    then show ?thesis using ok by (simp add: create_run_enrollments_def raise_def)
  next
    case False
    then show ?thesis using create_run_enrollments_ok [OF ok, of x u rs m True cs] by auto
  qed
qed

lemma keeps_verified_create_run_enrollments:
  "keeps (verified_in u r) (create_run_enrollments x u rs cs (Some True) verified_mode)"
proof (rule keepsI)
  fix s assume v: "verified_in u r s"
  then have ok: "enrollments_ok s" by (simp add: verified_in_def)
  show "verified_in u r (snd (create_run_enrollments x u rs cs (Some True) verified_mode s))"
  proof (cases "rs = []")
    case True
    then show ?thesis using v by (simp add: create_run_enrollments_def raise_def)
  next
    case False
    obtain es t where run: "create_run_enrollments x u rs cs (Some True) verified_mode s =
          (Inr (es, edx_request x u (hd rs) rs verified_mode), t)"
      and okt: "enrollments_ok t"
      and new: "\<forall>r \<in> set rs. \<exists>e. find_run_enrollment t (u, run_id r) = Some e
          \<and> enrolled_as verified_mode (edx_request x u (hd rs) rs verified_mode) e"
      and old: "\<forall>k. k \<notin> (\<lambda>r. (u, run_id r)) ` set rs \<longrightarrow> find_run_enrollment t k = find_run_enrollment s k"
      using create_run_enrollments_ok [OF ok, of x u rs verified_mode True cs] False by auto
    have "\<exists>e. find_run_enrollment t (u, r) = Some e \<and> cre_active e \<and> cre_enrollment_mode e = verified_mode"
    proof (cases "(u, r) \<in> (\<lambda>r. (u, run_id r)) ` set rs")
      case True
      then show ?thesis using new by (auto simp: enrolled_as_def)
    next
      case False
      then have "find_run_enrollment t (u, r) = find_run_enrollment s (u, r)" using old by blast
      then show ?thesis using v by (simp add: verified_in_def)
    qed
    then show ?thesis using run okt by (simp add: verified_in_def)
  qed
qed

lemma program_enrollments_frame:
  "run_enrollments (snd (create_program_enrollments u ps m s)) = run_enrollments s
   \<and> next_id s \<le> next_id (snd (create_program_enrollments u ps m s))"
proof -
  let ?P = "\<lambda>t. run_enrollments t = run_enrollments s \<and> next_id s \<le> next_id t"
  have 1: "keeps ?P (enroll_program u m p)" for p
    by (rule keepsI)
      (auto simp: enroll_program_def save_program_enrollment_def Let_def py_defs split: sum.splits)
  have 2: "keeps ?P (emit e)" for e by (intro keeps_emit) simp
  have "keeps ?P (create_program_enrollments u ps m)"
    by (induction ps) (auto intro!: keeps_intro 1 2)
  from keepsD [OF this, of s] show ?thesis by simp
qed

lemma keeps_verified_program: "keeps (verified_in u r) (create_program_enrollments v ps m)"
  using program_enrollments_frame by (intro keepsI) (blast intro: verified_in_frame)

lemma keeps_ok_program: "keeps enrollments_ok (create_program_enrollments v ps m)"
  using program_enrollments_frame by (intro keepsI) (blast intro: enrollments_ok_frame)

interpretation verified_frame: line_frame "verified_in u r" u for u r
  by unfold_locales
    (auto intro: keeps_verified_create_run_enrollments keeps_verified_program verified_in_frame)

interpretation enrollments_frame: line_frame enrollments_ok u for u
  by unfold_locales
    (auto intro: keeps_ok_create_run_enrollments keeps_ok_program enrollments_ok_frame)

lemma transaction_enrollments_frame:
  "run_enrollments (snd (create_transaction o1 d reason s)) = run_enrollments s
   \<and> next_id s \<le> next_id (snd (create_transaction o1 d reason s))"
proof -
  let ?P = "\<lambda>t. run_enrollments t = run_enrollments s \<and> next_id s \<le> next_id t"
  have 1: "keeps ?P (get_or_create_transaction o1 m tid a d ty r)" for m tid a ty r
    by (rule keepsI) (auto simp: get_or_create_transaction_def Let_def split: sum.splits)
  have "keeps ?P uuid4" by (rule keepsI) (simp add: uuid4_def)
  then have 2: "keeps ?P (transaction_payload order d)" for order
    unfolding transaction_payload_def by (auto intro!: keeps_intro split: gateway.splits)
  have "keeps ?P (create_transaction o1 d reason)"
    unfolding create_transaction_def by (intro keeps_intro 1 2)
  from keepsD [OF this, of s] show ?thesis by simp
qed

text \<open>The hook for a line that sold a course run: enrolled, and recorded as paid.\<close>

lemma process_line_run:
  assumes ok: "enrollments_ok s" and st: "order_state s (ord_id order) = Some FULFILLED"
    and obj: "purchased_object s l = Some (PurchRun r)"
    and run: "process_transaction_line x order l s = (Inr (), t)"
  shows "verified_in (ord_purchaser order) (run_id r) t"
    and "\<lparr>pcr_user = ord_purchaser order, pcr_course_run = run_id r, pcr_order = ord_id order\<rparr>
           \<in> set (paid_course_runs t)"
proof -
  let ?u = "ord_purchaser order"
  let ?p = "\<lparr>pcr_user = ?u, pcr_course_run = run_id r, pcr_order = ord_id order\<rparr>"
  obtain es s1 where s1: "create_run_enrollments x ?u [r] None (Some True) verified_mode s =
        (Inr (es, edx_request x ?u r [r] verified_mode), s1)" "enrollments_ok s1"
      "\<exists>e. find_run_enrollment s1 (?u, run_id r) = Some e
        \<and> enrolled_as verified_mode (edx_request x ?u r [r] verified_mode) e"
    using create_run_enrollments_ok [OF ok, of x ?u "[r]" verified_mode True None] by auto
  have v1: "verified_in ?u (run_id r) s1" using s1(2,3) by (auto simp: verified_in_def enrolled_as_def)
  have hook: "create_courserun_enrollment x order l s = create_paid_course_run ?u (run_id r) (ord_id order) s1"
    unfolding create_courserun_enrollment_def
    using st obj s1(1) by (simp add: bindP_Inr)
  obtain s2 where s2: "create_courserun_enrollment x order l s = (Inr (), s2)"
      "create_program_enrollment x order l s2 = (Inr (), t)"
    using run unfolding process_transaction_line_def thenP_def bindP_def
    by (auto split: prod.splits sum.splits)
  have v2: "verified_in ?u (run_id r) s2"
    using keepsD [OF verified_frame.keeps_paid(1) v1] s2(1) hook by (metis snd_conv)
  have p2: "?p \<in> set (paid_course_runs s2)"
    using s2(1) hook by (auto simp: create_paid_course_run_def Let_def split: if_splits)
  show "verified_in ?u (run_id r) t"
    using keepsD [OF verified_frame.keeps_program_hook [OF refl] v2] s2(2) by (metis snd_conv)
  show "?p \<in> set (paid_course_runs t)"
    using keepsD [OF payments_frame.line.keeps_program_hook [OF refl] p2] s2(2) by (metis snd_conv)
qed

lemma purchased_object_frame:
  "course_runs t = course_runs s \<Longrightarrow> programs t = programs s \<Longrightarrow> purchased_object t l = purchased_object s l"
  by (simp add: purchased_object_def resolve_object_def split: option.split content_type.split)

text \<open>The loop over the lines.\<close>

lemma process_lines_run:
  assumes "enrollments_ok s" "order_state s (ord_id order) = Some FULFILLED" "l \<in> set ls"
    and "purchased_object s l = Some (PurchRun r)"
    and "forP (process_transaction_line x order) ls s = (Inr (), t)"
  shows "verified_in (ord_purchaser order) (run_id r) t
    \<and> \<lparr>pcr_user = ord_purchaser order, pcr_course_run = run_id r, pcr_order = ord_id order\<rparr>
        \<in> set (paid_course_runs t)"
  using assms
proof (induction ls arbitrary: s)
  case (Cons l' ls)
  let ?u = "ord_purchaser order"
  let ?p = "\<lparr>pcr_user = ?u, pcr_course_run = run_id r, pcr_order = ord_id order\<rparr>"
  obtain s1 where s1: "process_transaction_line x order l' s = (Inr (), s1)"
      "forP (process_transaction_line x order) ls s1 = (Inr (), t)"
    using Cons.prems(5) by (auto simp: thenP_def bindP_def split: prod.splits sum.splits)
  have ok1: "enrollments_ok s1"
    using keepsD [OF enrollments_frame.keeps_line [OF refl] Cons.prems(1)] s1(1) by (metis snd_conv)
  have "orders s1 = orders s"
  proof -
    have "keeps (orders_are (orders s)) (process_transaction_line x order l')"
      by (rule orders_frame.line.keeps_line) simp
    from keepsD [OF this, of s] s1(1) show ?thesis by (simp add: orders_are_def)
  qed
  then have st1: "order_state s1 (ord_id order) = Some FULFILLED"
    using Cons.prems(2) order_state_orders by metis
  have same1: "course_runs s1 = course_runs s" "programs s1 = programs s"
  proof -
    have "keeps (\<lambda>t. order_lines t = order_lines s \<and> course_runs t = course_runs s \<and> programs t = programs s)
        (process_transaction_line x order l')" by (rule lines_frame.line.keeps_line) simp
    from keepsD [OF this, of s] s1(1) show "course_runs s1 = course_runs s" "programs s1 = programs s"
      by simp_all
  qed
  have keep_v: "keeps (verified_in ?u (run_id r)) (forP (process_transaction_line x order) ls)"
    by (intro keeps_forP verified_frame.keeps_line) simp
  have keep_p: "keeps (\<lambda>s. ?p \<in> set (paid_course_runs s)) (forP (process_transaction_line x order) ls)"
    by (intro keeps_forP payments_frame.line.keeps_line) simp
  show ?case
  proof (cases "l = l'")
    case True
    from process_line_run [OF Cons.prems(1,2) _ s1(1)] Cons.prems(4) True
    have "verified_in ?u (run_id r) s1" "?p \<in> set (paid_course_runs s1)" by simp_all
    then show ?thesis using keepsD [OF keep_v] keepsD [OF keep_p] s1(2) by (metis snd_conv)
  next
    case False
    then have "l \<in> set ls" using Cons.prems(3) by simp
    then show ?thesis
      using Cons.IH [OF ok1 st1 _ _ s1(2)] Cons.prems(4) purchased_object_frame [OF same1] by simp
  qed
qed simp

lemma transition_success:
  assumes f: "viewflow_contract (x_fsm x)" and run: "transition x src target o1 body s = (Inr (), t)"
  obtains st t1 where "order_state s o1 = Some st" "src st"
    "body (update_order o1 (\<lambda>r. r\<lparr>ord_state := target\<rparr>) s) = (Inr (), t1)" "save_order o1 t1 = (Inr (), t)"
proof -
  note run' = run [unfolded transition_def viewflow_contractD [OF f] viewflow_run_def]
  obtain st where st: "order_state s o1 = Some st" using run' by (cases "order_state s o1") auto
  with run' have src: "src st" by (auto split: if_splits)
  let ?s1 = "update_order o1 (\<lambda>r. r\<lparr>ord_state := target\<rparr>) s"
  have eq: "thenP (catchP body (\<lambda>e. thenP (set_order_state o1 st) (raise e))) (save_order o1) ?s1 = (Inr (), t)"
    using run' st src by (simp add: thenP_def bindP_def set_order_state_def modify_def)
  obtain r t1 where b: "body ?s1 = (r, t1)" by (cases "body ?s1")
  show thesis
  proof (cases r)
    case (Inl e)
    with eq b show thesis
      by (simp add: thenP_def bindP_def catchP_def raise_def set_order_state_def modify_def)
  next
    case (Inr u)
    with eq b have "save_order o1 t1 = (Inr (), t)" by (simp add: thenP_def bindP_def catchP_def)
    with st src b Inr show thesis using that by simp
  qed
qed

lemma find_order_get: "get_order s o1 = Inr order \<Longrightarrow> find_order s o1 = Some order"
  by (simp add: get_order_def find_order_def)

lemma update_order_frames [simp]:
  "run_enrollments (update_order o1 f s) = run_enrollments s" "next_id (update_order o1 f s) = next_id s"
  "order_lines (update_order o1 f s) = order_lines s" "course_runs (update_order o1 f s) = course_runs s"
  "programs (update_order o1 f s) = programs s" "paid_course_runs (update_order o1 f s) = paid_course_runs s"
  "redemptions (update_order o1 f s) = redemptions s" "transactions (update_order o1 f s) = transactions s"
  by (simp_all add: update_order_def)

lemma keeps_order_receipt:
  assumes "\<And>s es. P s \<Longrightarrow> P (s\<lparr>outbox := es\<rparr>)" "\<And>s es. P s \<Longrightarrow> P (s\<lparr>on_commit := es\<rparr>)"
  shows "keeps P (order_receipt o1 a r f)"
  unfolding order_receipt_def by (intro keeps_intro keeps_emit_on_commit assms)

lemma fulfill_enrolls:
  assumes f: "viewflow_contract (x_fsm x)" and ok: "enrollments_ok s"
    and ord: "find_order s o1 = Some order" and l: "l \<in> set (lines_of s o1)"
    and obj: "purchased_object s l = Some (PurchRun r)"
    and run: "fulfill x o1 d already skip_receipt False s = (Inr (), t)"
  shows "order_state s o1 = Some PENDING \<and> verified_in (ord_purchaser order) (run_id r) t
    \<and> \<lparr>pcr_user = ord_purchaser order, pcr_course_run = run_id r, pcr_order = o1\<rparr> \<in> set (paid_course_runs t)"
proof -
  let ?u = "ord_purchaser order"
  let ?p = "\<lparr>pcr_user = ?u, pcr_course_run = run_id r, pcr_order = o1\<rparr>"
  let ?s1 = "update_order o1 (\<lambda>r. r\<lparr>ord_state := FULFILLED\<rparr>) s"
  obtain t1 where st: "order_state s o1 = Some PENDING"
    and body: "fulfill_body x o1 d already skip_receipt False ?s1 = (Inr (), t1)"
    and save: "save_order o1 t1 = (Inr (), t)"
    using transition_success [OF f run [unfolded fulfill_def]] by metis
  obtain tx s2 order' where s2: "create_transaction o1 d '''' ?s1 = (Inr tx, s2)" "get_order s2 o1 = Inr order'"
    and rest: "thenP (create_enrollments (x_edx x) order') (order_receipt o1 already skip_receipt False) s2
      = (Inr (), t1)"
    using body by (auto simp: fulfill_body_def bindP_def liftE_def whenP_def split: prod.splits sum.splits)
  have same2: "order_lines s2 = order_lines s \<and> course_runs s2 = course_runs s \<and> programs s2 = programs s"
  proof -
    have "keeps (\<lambda>t. order_lines t = order_lines s \<and> course_runs t = course_runs s \<and> programs t = programs s)
        (create_transaction o1 d '''')" by (rule lines_frame.keeps_create_transaction)
    from keepsD [OF this, of ?s1] s2(1) show ?thesis by simp
  qed
  have orders2: "orders s2 = orders ?s1"
  proof -
    have "keeps (orders_are (orders ?s1)) (create_transaction o1 d '''')"
      by (rule orders_frame.keeps_create_transaction)
    from keepsD [OF this, of ?s1] s2(1) show ?thesis by (simp add: orders_are_def)
  qed
  have "find_order s2 o1 = find_order ?s1 o1" using orders2 by (simp add: find_order_def)
  then have order': "order' = order\<lparr>ord_state := FULFILLED\<rparr>"
    using find_order_get [OF s2(2)] ord by (simp add: find_order_update)
  have id: "ord_id order' = o1" "ord_purchaser order' = ?u"
    using order' find_order_id [OF ord] by simp_all
  have st2: "order_state s2 (ord_id order') = Some FULFILLED"
    using find_order_get [OF s2(2)] order' id by (simp add: order_state_def)
  have ok2: "enrollments_ok s2"
    using enrollments_ok_frame [OF ok, of s2] transaction_enrollments_frame [of o1 d "''''" ?s1] s2(1) by simp
  obtain s3 where s3: "create_enrollments (x_edx x) order' s2 = (Inr (), s3)"
      "order_receipt o1 already skip_receipt False s3 = (Inr (), t1)"
    using rest by (auto simp: thenP_def bindP_def split: prod.splits sum.splits)
  have loop: "forP (process_transaction_line (x_edx x) order') (lines_of s2 o1) s2 = (Inr (), s3)"
    using s3(1) st2 id by (simp add: create_enrollments_def)
  have mem: "l \<in> set (lines_of s2 o1)" using l same2 by (simp add: lines_of_def)
  have obj2: "purchased_object s2 l = Some (PurchRun r)" using obj purchased_object_frame same2 by metis
  have 3: "verified_in ?u (run_id r) s3" "?p \<in> set (paid_course_runs s3)"
    using process_lines_run [OF ok2 st2 mem obj2 loop] id by auto
  have k1: "keeps (verified_in ?u (run_id r)) (order_receipt o1 already skip_receipt False)"
    by (rule keeps_order_receipt) (auto intro: verified_in_frame)
  have k2: "keeps (\<lambda>s. ?p \<in> set (paid_course_runs s)) (order_receipt o1 already skip_receipt False)"
    by (rule keeps_order_receipt) simp_all
  have 4: "verified_in ?u (run_id r) t1" "?p \<in> set (paid_course_runs t1)"
    using keepsD [OF k1 3(1)] keepsD [OF k2 3(2)] s3(2) by simp_all
  show ?thesis using st 4 save by (auto simp: save_order_def modify_def intro: verified_in_frame)
qed

section \<open>Recording a payment twice\<close>

text \<open>The payload of a payment that is not administrative is read from the data alone.\<close>

lemma transaction_payload_pure:
  assumes "transaction_payload order d s = (Inr p, t)" "ord_total_price_paid order \<noteq> 0"
    "\<not> jtruthy (jget d ''is_administrative'')"
  shows "t = s \<and> transaction_payload order d s' = (Inr p, s')"
proof (cases "is_dict (Some d)")
  case True
  then show ?thesis using assms
    by (auto simp: transaction_payload_def ret_def raise_def bindP_def liftE_def split: gateway.splits sum.splits)
next
  case False
  then show ?thesis using assms by (simp add: transaction_payload_def raise_def)
qed

text \<open>With a processor's transaction id, recording the same payment again returns the first row.\<close>

lemma create_transaction_idempotent:
  assumes run: "create_transaction o1 d reason s = (Inr tx, t)"
    and one: "distinct (map tx_transaction_id (transactions s))"
    and order: "get_order s o1 = Inr order" "ord_total_price_paid order \<noteq> 0"
      "\<not> jtruthy (jget d ''is_administrative'')"
  shows "create_transaction o1 d reason' t = (Inr tx, t) \<and> tx \<in> set (transactions_of t o1)
    \<and> distinct (map tx_transaction_id (transactions t))"
proof -
  obtain tid amount s' where p: "transaction_payload order d s = (Inr (tid, amount), s')"
    using run order(1) by (auto simp: create_transaction_def bindP_def liftE_def split: prod.splits sum.splits)
  note pure = transaction_payload_pure [OF p order(2,3)]
  from run order(1) p pure obtain tt where tt: "jtruthy tid" "column_text (the tid) = Inr tt"
    and goc: "get_or_create_transaction o1 (\<lambda>t. tx_transaction_id t = tt) tt amount d TX_PAYMENT reason s = (Inr tx, t)"
    by (auto simp: create_transaction_def bindP_def liftE_def raise_def split: if_splits sum.splits)
  have "orders t = orders s"
    using keepsD [OF orders_frame.keeps_get_or_create_transaction, of "orders s" s o1
        "\<lambda>t. tx_transaction_id t = tt" tt amount d TX_PAYMENT reason] goc by (simp add: orders_are_def)
  then have o': "get_order t o1 = Inr order" using order(1) by (simp add: get_order_def)
  have t: "filter (\<lambda>t. tx_transaction_id t = tt) (transactions_of t o1) = [tx]
      \<and> distinct (map tx_transaction_id (transactions t))"
  proof (cases "get_one (filter (\<lambda>t. tx_transaction_id t = tt) (transactions_of s o1))")
    case (Inr u)
    then show ?thesis using goc one by (auto simp: get_or_create_transaction_def)
  next
    case (Inl e)
    then have none: "\<not> exists_row (\<lambda>t. tx_transaction_id t = tt) (transactions s)"
      and tx: "tx_transaction_id tx = tt" "tx_order tx = o1" "transactions t = transactions s @ [tx]"
      using goc by (auto simp: get_or_create_transaction_def Let_def split: if_splits sum.splits)
    have "filter (\<lambda>t. tx_transaction_id t = tt) (transactions_of s o1) = []"
      using none by (auto simp: exists_row_iff transactions_of_def filter_empty_conv)
    then show ?thesis using tx none one by (auto simp: transactions_of_def exists_row_iff)
  qed
  have "tx \<in> set (filter (\<lambda>t. tx_transaction_id t = tt) (transactions_of t o1))" using t by simp
  then have "tx \<in> set (transactions_of t o1)" by simp
  moreover have "create_transaction o1 d reason' t = (Inr tx, t)"
    unfolding create_transaction_def
    using o' tt t pure by (simp add: bindP_def liftE_def get_or_create_transaction_def)
  ultimately show ?thesis using t by simp
qed

text \<open>Declining frees the discounts of the order, and only those.\<close>

lemma decline_frees_discounts:
  assumes "viewflow_contract (x_fsm x)" "decline x o1 s = (Inr (), t)"
  shows "redemptions t = filter (\<lambda>r. rd_redeemed_order r \<noteq> o1) (redemptions s)"
  by (rule transition_success [OF assms(1) assms(2) [unfolded decline_def]])
    (auto simp: modify_def save_order_def)

section \<open>Histories of an order\<close>

text \<open>The states that the successful operations of a history leave the order in.\<close>

fun order_history :: "ext \<Rightarrow> nat \<Rightarrow> order_op list \<Rightarrow> db \<Rightarrow> OrderStatus list" where
  "order_history x o1 [] s = []"
| "order_history x o1 (p # ps) s =
     (case run_order_op x o1 p s of
        (Inl e, t) \<Rightarrow> order_history x o1 ps t
      | (Inr u, t) \<Rightarrow> the (order_state t o1) # order_history x o1 ps t)"

lemma order_history_path:
  assumes "viewflow_contract (x_fsm x)" "order_state s o1 = Some st" "order_path (st # sts)"
  shows "order_path (rev (order_history x o1 ops s) @ st # sts)"
  using assms(2,3)
proof (induction ops arbitrary: s st sts)
  case (Cons p ps)
  from assms(1) Cons.prems(1) show ?case
  proof (cases rule: run_order_op_cases [where p = p])
    case refused
    then show ?thesis using Cons by simp
  next
    case (moved t)
    have "order_path (op_target p # st # sts)"
      using Cons.prems(2) op_step [OF moved(1)] by (rule path_more)
    from Cons.IH [OF moved(3) this] show ?thesis using moved by simp
  next
    case (failed e t)
    then show ?thesis using Cons.IH [OF failed(3) Cons.prems(2)] by simp
  qed
qed simp

lemma order_path_suffix: "order_path (xs @ st # sts) \<Longrightarrow> order_path (st # sts)"
proof (induction xs)
  case (Cons a xs)
  from Cons.prems have "order_path (xs @ st # sts)"
    by (cases rule: order_path.cases) (auto simp: append_eq_Cons_conv)
  then show ?case by (rule Cons.IH)
qed simp

lemma order_path_refund_from_start: "order_path (REFUNDED # sts) \<Longrightarrow> sts = [FULFILLED, PENDING]"
  using order_path_refunded order_path_previous [of REFUNDED sts] order_path_fulfilled by blast

text \<open>In a history of a new order, fulfilling can only come first, and a refund only right after it.\<close>

lemma order_history_refund:
  assumes "viewflow_contract (x_fsm x)" "order_state s o1 = Some PENDING"
    and "REFUNDED \<in> set (order_history x o1 ops s)"
  shows "\<exists>rest. order_history x o1 ops s = FULFILLED # REFUNDED # rest"
proof -
  let ?h = "order_history x o1 ops s"
  have p: "order_path (rev ?h @ [PENDING])" using order_history_path [OF assms(1,2) path_start] .
  obtain as bs where h: "rev ?h = as @ REFUNDED # bs"
    using assms(3) by (metis in_set_conv_decomp set_rev)
  then have "order_path (REFUNDED # bs @ [PENDING])" using p order_path_suffix [of as] by simp
  from order_path_refund_from_start [OF this] have "bs = [FULFILLED]" by (cases bs) auto
  then have "?h = FULFILLED # REFUNDED # rev as" using h by (metis append.simps rev.simps rev_append rev_rev_ident)
  then show ?thesis by blast
qed

lemma order_history_fulfil:
  assumes "viewflow_contract (x_fsm x)" "order_state s o1 = Some PENDING"
    and "order_history x o1 ops s = xs @ FULFILLED # ys"
  shows "xs = []"
proof -
  have "order_path (rev (order_history x o1 ops s) @ [PENDING])"
    using order_history_path [OF assms(1,2) path_start] .
  then have "order_path (FULFILLED # rev xs @ [PENDING])"
    using order_path_suffix [of "rev ys"] by (simp add: assms(3))
  from order_path_fulfilled [OF this] show ?thesis by (cases xs) auto
qed

end
