(* ===== verification/PendingOrders.thy ===== *)
theory PendingOrders
  imports OrderFlow
begin

text \<open>
  Pending orders (\<open>PendingOrder\<close> in \<open>src/ecommerce/models.py\<close>): the order a checkout creates or
  finds again for the products of a basket, its lines, its discounts and its total.
\<close>

section \<open>Creating or finding a pending order\<close>

text \<open>The latest version of a product: version rows are in primary-key order.\<close>

definition latest_version :: "db \<Rightarrow> Product \<Rightarrow> exn + Version" where
  "latest_version s p =
     (case last_opt (versions_for s p) of None \<Rightarrow> Inl PyValueError | Some v \<Rightarrow> Inr v)"

definition line_matches :: "Product list \<Rightarrow> Version list \<Rightarrow> Line \<Rightarrow> bool" where
  "line_matches ps vs l \<longleftrightarrow>
     (case ln_purchased_object_id l of None \<Rightarrow> False | Some i \<Rightarrow> i \<in> prod_object_id ` set ps)
     \<and> (case ln_purchased_content_type l of None \<Rightarrow> False | Some c \<Rightarrow> c \<in> prod_content_type ` set ps)
     \<and> ver_id (ln_product_version l) \<in> ver_id ` set vs"

definition find_pending ::
  "db \<Rightarrow> Product list \<Rightarrow> Version list \<Rightarrow> nat \<Rightarrow> gateway \<Rightarrow> Order option" where
  "find_pending s ps vs user gateway =
     first (filter (\<lambda>r. ord_state r = PENDING \<and> ord_purchaser r = user \<and> ord_gateway_type r = gateway
                        \<and> exists_row (line_matches ps vs) (lines_of s (ord_id r))) (orders s))"

text \<open>\<open>Order.objects.create\<close>: the row, then its reference number.\<close>

definition create_order :: "nat \<Rightarrow> gateway \<Rightarrow> nat op" where
  "create_order user gateway = (\<lambda>s.
     let o1 = next_id s;
         r = \<lparr>ord_id = o1, ord_state = PENDING, ord_purchaser = user, ord_total_price_paid = 0,
              ord_reference_number = None, ord_gateway_type = gateway, ord_created_on = now s\<rparr>
     in thenP (save_order o1) (ret o1) (s\<lparr>orders := orders s @ [r], next_id := Suc o1\<rparr>))"

definition clear_redemptions :: "nat \<Rightarrow> unit op" where
  "clear_redemptions o1 =
     modify (\<lambda>s. s\<lparr>redemptions := filter (\<lambda>r. rd_redeemed_order r \<noteq> o1) (redemptions s)\<rparr>)"

definition create_redemption :: "nat \<Rightarrow> nat \<Rightarrow> Discount \<Rightarrow> unit op" where
  "create_redemption o1 user d = modify (\<lambda>s. s\<lparr>redemptions := redemptions s
       @ [\<lparr>rd_id = next_id s, rd_redemption_date = now s, rd_redeemed_by = user,
          rd_redeemed_discount = d, rd_redeemed_order = o1\<rparr>],
     next_id := Suc (next_id s)\<rparr>)"

definition get_or_create_line :: "nat \<Rightarrow> Product \<Rightarrow> Version \<Rightarrow> Line op" where
  "get_or_create_line o1 p v = (\<lambda>s.
     case get_one (filter (\<lambda>l. ln_purchased_object_id l = Some (prod_object_id p)
                               \<and> ln_purchased_content_type l = Some (prod_content_type p)) (lines_of s o1)) of
       Inr l \<Rightarrow> (Inr l, s)
     | Inl e \<Rightarrow>
         if e = ObjectDoesNotExist
         then let l = \<lparr>ln_id = next_id s, ln_order = o1, ln_product_version = v, ln_quantity = 1,
                       ln_purchased_content_type = Some (prod_content_type p),
                       ln_purchased_object_id = Some (prod_object_id p)\<rparr>
              in (Inr l, s\<lparr>order_lines := order_lines s @ [l], next_id := Suc (next_id s)\<rparr>)
         else (Inl e, s))"

fun add_lines :: "nat \<Rightarrow> (Product \<times> Version) list \<Rightarrow> rat \<Rightarrow> rat op" where
  "add_lines o1 [] tot = ret tot"
| "add_lines o1 ((p, v) # pvs) tot =
     bindP (get_or_create_line o1 p v) (\<lambda>l.
     bindP (liftE (\<lambda>s. line_discounted_price s l)) (\<lambda>x.
       add_lines o1 pvs (tot + x)))"

definition set_total :: "nat \<Rightarrow> rat \<Rightarrow> unit op" where
  "set_total o1 tot =
     thenP (modify (update_order o1 (\<lambda>r. r\<lparr>ord_total_price_paid := tot\<rparr>))) (save_order o1)"

text \<open>\<open>PendingOrder._get_or_create\<close>, run in a transaction; a discount may be \<open>None\<close>.\<close>

definition fill_order ::
  "nat \<Rightarrow> nat \<Rightarrow> Discount option list \<Rightarrow> (Product \<times> Version) list \<Rightarrow> nat op" where
  "fill_order o1 user ds pvs =
     thenP (forP (\<lambda>d. case d of None \<Rightarrow> ret () | Some d \<Rightarrow> create_redemption o1 user d) ds)
     (bindP (add_lines o1 pvs 0) (\<lambda>tot. thenP (set_total o1 tot) (ret o1)))"

definition pending_get_or_create ::
  "Product list \<Rightarrow> nat \<Rightarrow> Discount option list \<Rightarrow> gateway \<Rightarrow> nat op" where
  "pending_get_or_create ps user ds gateway =
     atomicP
       (bindP (liftE (\<lambda>s. mapE (latest_version s) ps)) (\<lambda>vs.
        bindP (gets (\<lambda>s. find_pending s ps vs user gateway)) (\<lambda>found.
        bindP (case found of
                 Some r \<Rightarrow> thenP (clear_redemptions (ord_id r)) (ret (ord_id r))
               | None \<Rightarrow> create_order user gateway) (\<lambda>o1.
          fill_order o1 user ds (zip ps vs)))))"

definition create_from_basket :: "Basket \<Rightarrow> nat \<Rightarrow> gateway \<Rightarrow> nat op" where
  "create_from_basket b user gateway =
     bindP (gets (\<lambda>s. (get_products s b, map bd_redeemed_discount (basket_discounts_of s (bkt_id b)))))
       (\<lambda>(ps, ds). pending_get_or_create ps user (map Some ds) gateway)"

definition create_from_product :: "Product \<Rightarrow> nat \<Rightarrow> Discount option \<Rightarrow> gateway \<Rightarrow> nat op" where
  "create_from_product p user d gateway = pending_get_or_create [p] user [d] gateway"

text \<open>\<open>BasketDiscount.convert_to_order\<close>\<close>

definition convert_to_order :: "BasketDiscount \<Rightarrow> nat \<Rightarrow> DiscountRedemption op" where
  "convert_to_order bd o1 = (\<lambda>s.
     case get_one (filter (\<lambda>r. rd_redemption_date r = bd_redemption_date bd
                               \<and> rd_redeemed_by r = bd_redeemed_by bd
                               \<and> disc_id (rd_redeemed_discount r) = disc_id (bd_redeemed_discount bd)
                               \<and> rd_redeemed_order r = o1) (redemptions s)) of
       Inr r \<Rightarrow> (Inr r, s)
     | Inl e \<Rightarrow>
         if e = ObjectDoesNotExist
         then let r = \<lparr>rd_id = next_id s, rd_redemption_date = bd_redemption_date bd,
                       rd_redeemed_by = bd_redeemed_by bd, rd_redeemed_discount = bd_redeemed_discount bd,
                       rd_redeemed_order = o1\<rparr>
              in (Inr r, s\<lparr>redemptions := redemptions s @ [r], next_id := Suc (next_id s)\<rparr>)
         else (Inl e, s))"

section \<open>The lines of an order and its total\<close>

text \<open>Rows refer to older rows: keys of orders and lines come from the sequence.\<close>

definition orders_ok :: "db \<Rightarrow> bool" where
  "orders_ok s \<longleftrightarrow> distinct (map ord_id (orders s))
     \<and> (\<forall>r \<in> set (orders s). ord_id r < next_id s) \<and> (\<forall>l \<in> set (order_lines s). ln_order l < next_id s)
     \<and> (\<forall>r \<in> set (redemptions s). rd_redeemed_order r < next_id s)"

text \<open>What the price of a line reads.\<close>

definition same_prices :: "nat \<Rightarrow> db \<Rightarrow> db \<Rightarrow> bool" where
  "same_prices o1 s t \<longleftrightarrow> products t = products s \<and> versions t = versions s
     \<and> redemptions_of_order t o1 = redemptions_of_order s o1"

lemma line_price_same:
  "same_prices o1 s t \<Longrightarrow> ln_order l = o1 \<Longrightarrow> line_discounted_price t l = line_discounted_price s l"
  by (simp add: same_prices_def line_discounted_price_def all_product_def get_discounted_price_def
      resolve_product_version_def versions_for_def)

definition new_line :: "nat \<Rightarrow> nat \<Rightarrow> Product \<times> Version \<Rightarrow> Line" where
  "new_line o1 i pv = \<lparr>ln_id = i, ln_order = o1, ln_product_version = snd pv, ln_quantity = 1,
     ln_purchased_content_type = Some (prod_content_type (fst pv)),
     ln_purchased_object_id = Some (prod_object_id (fst pv))\<rparr>"

definition sold_key :: "Product \<Rightarrow> content_type \<times> nat" where
  "sold_key p = (prod_content_type p, prod_object_id p)"

definition line_key :: "Line \<Rightarrow> content_type option \<times> nat option" where
  "line_key l = (ln_purchased_content_type l, ln_purchased_object_id l)"

fun new_lines :: "nat \<Rightarrow> nat \<Rightarrow> (Product \<times> Version) list \<Rightarrow> Line list" where
  "new_lines o1 i [] = []"
| "new_lines o1 i (pv # pvs) = new_line o1 i pv # new_lines o1 (Suc i) pvs"

lemma new_lines_order: "l \<in> set (new_lines o1 i pvs) \<Longrightarrow> ln_order l = o1"
  by (induction pvs arbitrary: i) (auto simp: new_line_def)

lemma line_key_new_line: "line_key (new_line o1 i pv) = map_prod Some Some (sold_key (fst pv))"
  by (simp add: line_key_def new_line_def sold_key_def)

lemma map_line_key_new_lines:
  "map line_key (new_lines o1 i pvs) = map (map_prod Some Some \<circ> sold_key \<circ> fst) pvs"
  by (induction pvs arbitrary: i) (auto simp: line_key_new_line)

definition with_lines :: "db \<Rightarrow> nat \<Rightarrow> (Product \<times> Version) list \<Rightarrow> db" where
  "with_lines s o1 pvs = s\<lparr>order_lines := order_lines s @ new_lines o1 (next_id s) pvs,
     next_id := next_id s + length pvs\<rparr>"

lemma with_lines_simps [simp]:
  "with_lines s o1 [] = s" "orders (with_lines s o1 pvs) = orders s"
  "redemptions (with_lines s o1 pvs) = redemptions s" "products (with_lines s o1 pvs) = products s"
  "versions (with_lines s o1 pvs) = versions s" "conf (with_lines s o1 pvs) = conf s"
  "next_id (with_lines s o1 pvs) = next_id s + length pvs"
  "order_lines (with_lines s o1 pvs) = order_lines s @ new_lines o1 (next_id s) pvs"
  by (simp_all add: with_lines_def)

lemma with_lines_Cons: "with_lines (with_lines s o1 [pv]) o1 pvs = with_lines s o1 (pv # pvs)"
  by (simp add: with_lines_def)

lemma lines_of_with_lines:
  "lines_of (with_lines s o1 pvs) o1 = lines_of s o1 @ new_lines o1 (next_id s) pvs"
proof -
  have "filter (\<lambda>l. ln_order l = o1) (new_lines o1 (next_id s) pvs) = new_lines o1 (next_id s) pvs"
    by (simp add: filter_id_conv new_lines_order)
  then show ?thesis by (simp add: lines_of_def)
qed

lemma same_prices_with_lines: "same_prices o1 s (with_lines s o1 pvs)"
  by (simp add: same_prices_def redemptions_of_order_def)

lemma get_or_create_line_new:
  assumes "map_prod Some Some (sold_key p) \<notin> line_key ` set (lines_of s o1)"
  shows "get_or_create_line o1 p v s = (Inr (new_line o1 (next_id s) (p, v)), with_lines s o1 [(p, v)])"
proof -
  have "filter (\<lambda>l. ln_purchased_object_id l = Some (prod_object_id p)
            \<and> ln_purchased_content_type l = Some (prod_content_type p)) (lines_of s o1) = []"
    using assms by (force simp: filter_empty_conv line_key_def sold_key_def image_iff)
  then show ?thesis
    by (simp add: get_or_create_line_def new_line_def Let_def with_lines_def)
qed

lemma add_lines_new:
  assumes "add_lines o1 pvs tot s = (Inr x, t)" "distinct (map (sold_key \<circ> fst) pvs)"
    and "(map_prod Some Some \<circ> sold_key \<circ> fst) ` set pvs \<inter> line_key ` set (lines_of s o1) = {}"
  shows "t = with_lines s o1 pvs
    \<and> (\<exists>prices. mapE (line_discounted_price s) (new_lines o1 (next_id s) pvs) = Inr prices
                \<and> x = tot + sum_list prices)"
  using assms
proof (induction pvs arbitrary: s tot)
  case Nil
  then show ?case by (auto simp: ret_def)
next
  case (Cons pv pvs)
  obtain p v where pv: "pv = (p, v)" by (cases pv)
  let ?l = "new_line o1 (next_id s) pv" and ?s1 = "with_lines s o1 [pv]"
  have "map_prod Some Some (sold_key p) \<notin> line_key ` set (lines_of s o1)"
    using Cons.prems(3) pv by auto
  then have new: "get_or_create_line o1 p v s = (Inr ?l, ?s1)"
    unfolding pv by (rule get_or_create_line_new)
  have "ln_order ?l = o1" by (simp add: new_line_def)
  note same = line_price_same [OF same_prices_with_lines]
  obtain y where y: "line_discounted_price s ?l = Inr y"
      and rest: "add_lines o1 pvs (tot + y) ?s1 = (Inr x, t)"
    using Cons.prems(1) pv new same [OF \<open>ln_order ?l = o1\<close>, of s "[pv]"]
    by (auto simp: bindP_def liftE_def split: sum.splits)
  have fresh: "(map_prod Some Some \<circ> sold_key \<circ> fst) ` set pvs \<inter> line_key ` set (lines_of ?s1 o1) = {}"
  proof -
    have "sold_key (fst pv) \<notin> (sold_key \<circ> fst) ` set pvs" using Cons.prems(2) by simp
    then have "line_key ?l \<notin> (map_prod Some Some \<circ> sold_key \<circ> fst) ` set pvs"
      by (fastforce simp: line_key_new_line image_iff map_prod_def split: prod.splits)
    then show ?thesis using Cons.prems(3) by (simp add: lines_of_with_lines)
  qed
  obtain prices where IH: "t = with_lines ?s1 o1 pvs"
      "mapE (line_discounted_price ?s1) (new_lines o1 (next_id ?s1) pvs) = Inr prices"
      "x = tot + y + sum_list prices"
    using Cons.IH [OF rest _ fresh] Cons.prems(2) by auto
  have "mapE (line_discounted_price s) (new_lines o1 (Suc (next_id s)) pvs) = Inr prices"
    using IH(2) mapE_cong [of "new_lines o1 (next_id ?s1) pvs" "line_discounted_price ?s1"
        "line_discounted_price s"] same new_lines_order
    by simp
  then show ?case using IH(1,3) y by (simp add: with_lines_Cons)
qed

text \<open>Redeeming the discounts of the basket for the order.\<close>

definition redeem_all :: "nat \<Rightarrow> nat \<Rightarrow> Discount option list \<Rightarrow> unit op" where
  "redeem_all o1 user ds =
     forP (\<lambda>d. case d of None \<Rightarrow> ret () | Some d \<Rightarrow> create_redemption o1 user d) ds"

fun given :: "'a option list \<Rightarrow> 'a list" where
  "given [] = []"
| "given (None # xs) = given xs"
| "given (Some x # xs) = x # given xs"

lemma given_map_Some [simp]: "given (map Some xs) = xs"
  by (induction xs) auto

definition redeemed :: "db \<Rightarrow> nat \<Rightarrow> nat \<Rightarrow> Discount list \<Rightarrow> db \<Rightarrow> bool" where
  "redeemed s o1 user ds t \<longleftrightarrow> (\<exists>rs. map rd_redeemed_discount rs = ds
     \<and> (\<forall>r \<in> set rs. rd_redeemed_order r = o1 \<and> rd_redeemed_by r = user)
     \<and> t = s\<lparr>redemptions := redemptions s @ rs, next_id := next_id s + length ds\<rparr>)"

lemma redeem_all_run:
  "\<exists>t. redeem_all o1 user ds s = (Inr (), t) \<and> redeemed s o1 user (given ds) t"
proof (induction ds arbitrary: s)
  case Nil
  then show ?case by (simp add: redeem_all_def redeemed_def ret_def)
next
  case (Cons d ds)
  show ?case
  proof (cases d)
    case None
    then show ?thesis using Cons.IH [of s] by (simp add: redeem_all_def)
  next
    case (Some c)
    define r where "r = \<lparr>rd_id = next_id s, rd_redemption_date = now s, rd_redeemed_by = user,
          rd_redeemed_discount = c, rd_redeemed_order = o1\<rparr>"
    let ?s1 = "s\<lparr>redemptions := redemptions s @ [r], next_id := Suc (next_id s)\<rparr>"
    have "create_redemption o1 user c s = (Inr (), ?s1)"
      by (simp add: create_redemption_def modify_def r_def)
    then have step: "redeem_all o1 user (d # ds) s = redeem_all o1 user ds ?s1"
      using Some by (simp add: redeem_all_def thenP_Inr)
    obtain t rs where t: "redeem_all o1 user ds ?s1 = (Inr (), t)" "map rd_redeemed_discount rs = given ds"
        "\<forall>r \<in> set rs. rd_redeemed_order r = o1 \<and> rd_redeemed_by r = user"
        "t = ?s1\<lparr>redemptions := redemptions ?s1 @ rs, next_id := next_id ?s1 + length (given ds)\<rparr>"
      using Cons.IH [of ?s1] unfolding redeemed_def by blast
    have "redeemed s o1 user (given (d # ds)) t"
      unfolding redeemed_def using t(2-4) Some
      by (intro exI [of _ "r # rs"]) (simp add: r_def)
    then show ?thesis using step t(1) by auto
  qed
qed

lemma redeemed_simps:
  assumes "redeemed s o1 user ds t"
  shows "orders t = orders s" "order_lines t = order_lines s" "products t = products s"
    "versions t = versions s" "conf t = conf s" "next_id t = next_id s + length ds"
    "lines_of t o2 = lines_of s o2" "redemptions_of_order s o1 = [] \<Longrightarrow>
      map rd_redeemed_discount (redemptions_of_order t o1) = ds"
  using assms unfolding redeemed_def by (auto simp: lines_of_def redemptions_of_order_def)

lemma fill_order_run:
  "\<exists>t. redeemed s o1 user (given ds) t \<and> fill_order o1 user ds pvs s =
     bindP (add_lines o1 pvs 0) (\<lambda>x. thenP (set_total o1 x) (ret o1)) t"
proof -
  obtain t where t: "redeem_all o1 user ds s = (Inr (), t)" "redeemed s o1 user (given ds) t"
    using redeem_all_run by blast
  then show ?thesis
    by (intro exI [of _ t]) (simp add: fill_order_def redeem_all_def [symmetric] thenP_Inr)
qed

lemma set_total_run:
  "set_total o1 x s = (Inr (), snd (save_order o1 (update_order o1 (\<lambda>r. r\<lparr>ord_total_price_paid := x\<rparr>) s)))"
  by (simp add: set_total_def save_order_def py_defs)

text \<open>Lines that the order already has are found again, and nothing is written.\<close>

lemma get_or_create_line_old:
  assumes "distinct (map line_key (lines_of s o1))" "l \<in> set (lines_of s o1)"
    and "line_key l = map_prod Some Some (sold_key p)"
  shows "get_or_create_line o1 p v s = (Inr l, s)"
proof -
  have "filter (\<lambda>l. ln_purchased_object_id l = Some (prod_object_id p)
            \<and> ln_purchased_content_type l = Some (prod_content_type p)) (lines_of s o1)
      = filter (\<lambda>k. line_key k = line_key l) (lines_of s o1)"
    unfolding assms(3) by (rule filter_cong) (auto simp: line_key_def sold_key_def)
  also have "\<dots> = [l]" using assms(1,2) by (rule filter_key_unique)
  finally show ?thesis by (simp add: get_or_create_line_def)
qed

lemma add_lines_old:
  assumes "distinct (map line_key (lines_of s o1))" "set ls \<subseteq> set (lines_of s o1)"
    and "map line_key ls = map (map_prod Some Some \<circ> sold_key \<circ> fst) pvs"
  shows "add_lines o1 pvs x s = (case mapE (line_discounted_price s) ls of
     Inl e \<Rightarrow> (Inl e, s) | Inr prices \<Rightarrow> (Inr (x + sum_list prices), s))"
  using assms(2-)
proof (induction pvs arbitrary: ls x)
  case Nil
  then show ?case by (auto simp: ret_def)
next
  case (Cons pv pvs)
  obtain p v where pv: "pv = (p, v)" by (cases pv)
  obtain l ls' where ls: "ls = l # ls'" "line_key l = map_prod Some Some (sold_key p)"
      "map line_key ls' = map (map_prod Some Some \<circ> sold_key \<circ> fst) pvs"
    using Cons.prems(2) pv by (cases ls) auto
  have found: "get_or_create_line o1 p v s = (Inr l, s)"
    using assms(1) _ ls(2) by (rule get_or_create_line_old) (use Cons.prems(1) ls(1) in auto)
  have IH: "add_lines o1 pvs y s = (case mapE (line_discounted_price s) ls' of
     Inl e \<Rightarrow> (Inl e, s) | Inr prices \<Rightarrow> (Inr (y + sum_list prices), s))" for y
    using Cons.prems(1) ls by (intro Cons.IH) auto
  show ?case
    using found by (simp add: pv ls(1) bindP_Inr liftE_bind IH add.assoc split: sum.splits)
qed

definition order_total :: "db \<Rightarrow> nat \<Rightarrow> exn + rat" where
  "order_total s o1 =
     bindE (mapE (line_discounted_price s) (lines_of s o1)) (\<lambda>prices. Inr (sum_list prices))"

lemma order_total_cong:
  assumes "same_prices o1 s t" "lines_of t o1 = lines_of s o1"
  shows "order_total t o1 = order_total s o1"
proof -
  have "mapE (line_discounted_price t) (lines_of s o1) = mapE (line_discounted_price s) (lines_of s o1)"
    by (rule mapE_cong) (auto simp: lines_of_def intro: line_price_same [OF assms(1)])
  then show ?thesis by (simp add: order_total_def assms(2))
qed

text \<open>What the price of a line reads of the redemptions is the list of their discounts.\<close>

lemma line_price_same_discounts:
  assumes "products t = products s" "versions t = versions s" "ln_order l = o1"
    and "map rd_redeemed_discount (redemptions_of_order t o1)
         = map rd_redeemed_discount (redemptions_of_order s o1)"
  shows "line_discounted_price t l = line_discounted_price s l"
  using assms by (simp add: line_discounted_price_def all_product_def get_discounted_price_def
      resolve_product_version_def versions_for_def)

definition saved_total :: "nat \<Rightarrow> rat \<Rightarrow> db \<Rightarrow> db" where
  "saved_total o1 x s = snd (save_order o1 (update_order o1 (\<lambda>r. r\<lparr>ord_total_price_paid := x\<rparr>) s))"

lemma saved_total_simps [simp]:
  "lines_of (saved_total o1 x s) o2 = lines_of s o2" "order_lines (saved_total o1 x s) = order_lines s"
  "redemptions (saved_total o1 x s) = redemptions s"
  "products (saved_total o1 x s) = products s" "versions (saved_total o1 x s) = versions s"
  by (simp_all add: saved_total_def save_order_def modify_def update_order_def lines_of_def)

lemma find_saved_total:
  "find_order s o1 = Some r \<Longrightarrow> \<exists>r'. find_order (saved_total o1 x s) o1 = Some r'
     \<and> ord_total_price_paid r' = x \<and> ord_state r' = ord_state r \<and> ord_purchaser r' = ord_purchaser r
     \<and> ord_gateway_type r' = ord_gateway_type r"
  unfolding saved_total_def save_order_def modify_def
  by (auto simp: find_order_update split: option.splits)

lemma create_order_new:
  assumes ok: "orders_ok s" and run: "create_order user gw s = (Inr o1, t)"
  shows "o1 = next_id s" "next_id t = Suc o1" "products t = products s" "versions t = versions s"
    "redemptions_of_order t o1 = []" "lines_of t o1 = []"
    "\<exists>r. find_order t o1 = Some r \<and> ord_state r = PENDING \<and> ord_purchaser r = user \<and> ord_gateway_type r = gw"
proof -
  define r where "r = \<lparr>ord_id = next_id s, ord_state = PENDING, ord_purchaser = user, ord_total_price_paid = 0,
              ord_reference_number = None, ord_gateway_type = gw, ord_created_on = now s\<rparr>"
  let ?s1 = "s\<lparr>orders := orders s @ [r], next_id := Suc (next_id s)\<rparr>"
  have t: "o1 = next_id s" "t = snd (save_order o1 ?s1)"
    using run by (auto simp: create_order_def py_defs Let_def save_order_def r_def)
  show "o1 = next_id s" by (rule t(1))
  show "next_id t = Suc o1" "products t = products s" "versions t = versions s"
    using t by (simp_all add: save_order_def modify_def update_order_def)
  show "redemptions_of_order t o1 = []" "lines_of t o1 = []"
    using ok t by (auto simp: save_order_def modify_def update_order_def orders_ok_def
        redemptions_of_order_def lines_of_def filter_empty_conv)
  have "filter (\<lambda>r. ord_id r = o1) (orders s) = []"
    using ok t(1) by (auto simp: orders_ok_def filter_empty_conv)
  then have "find_order ?s1 o1 = Some r" by (simp add: find_order_def r_def t(1))
  then show "\<exists>r. find_order t o1 = Some r \<and> ord_state r = PENDING \<and> ord_purchaser r = user
      \<and> ord_gateway_type r = gw"
    unfolding t(2) save_order_def modify_def
    by (auto simp: find_order_update r_def split: option.splits)
qed

section \<open>What a checkout without a pending order creates\<close>

text \<open>Lines for the products, with the versions read, all redemptions asked for, and the total.\<close>

definition order_for ::
  "nat \<Rightarrow> Product list \<Rightarrow> Version list \<Rightarrow> nat \<Rightarrow> Discount list \<Rightarrow> gateway \<Rightarrow> db \<Rightarrow> bool" where
  "order_for o1 ps vs user ds gateway s \<longleftrightarrow>
     (\<exists>r. find_order s o1 = Some r \<and> ord_state r = PENDING \<and> ord_purchaser r = user
        \<and> ord_gateway_type r = gateway \<and> order_total s o1 = Inr (ord_total_price_paid r))
     \<and> map ln_product_version (lines_of s o1) = vs
     \<and> map line_key (lines_of s o1) = map (map_prod Some Some \<circ> sold_key) ps
     \<and> map rd_redeemed_discount (redemptions_of_order s o1) = ds"

lemma map_version_new_lines: "map ln_product_version (new_lines o1 i pvs) = map snd pvs"
  by (induction pvs arbitrary: i) (auto simp: new_line_def)

lemma order_for_leave [simp]:
  "order_for o1 ps vs user ds gw (leave_atomic s t) = order_for o1 ps vs user ds gw t"
proof -
  have "order_total (leave_atomic s t) o1 = order_total t o1"
    by (rule order_total_cong) (simp_all add: same_prices_def redemptions_of_order_def lines_of_def)
  then show ?thesis by (simp add: order_for_def find_order_def lines_of_def redemptions_of_order_def)
qed

lemma fill_new_order:
  assumes "fill_order o1 user ds pvs s = (Inr x, t)" "lines_of s o1 = []" "redemptions_of_order s o1 = []"
    and "distinct (map (sold_key \<circ> fst) pvs)" "find_order s o1 = Some r" "ord_state r = PENDING"
  shows "order_for o1 (map fst pvs) (map snd pvs) (ord_purchaser r) (given ds) (ord_gateway_type r) t" "x = o1"
proof -
  obtain s1 where s1: "redeemed s o1 user (given ds) s1"
      "fill_order o1 user ds pvs s = bindP (add_lines o1 pvs 0) (\<lambda>x. thenP (set_total o1 x) (ret o1)) s1"
    using fill_order_run by blast
  note r1 = redeemed_simps [OF s1(1)]
  obtain y s2 where add: "add_lines o1 pvs 0 s1 = (Inr y, s2)"
      and fin: "x = o1" "t = saved_total o1 y s2"
    using assms(1) s1(2) by (auto simp: bindP_def thenP_def set_total_run saved_total_def ret_def
        split: prod.splits sum.splits)
  show "x = o1" by (rule fin(1))
  have lines1: "lines_of s1 o1 = []" using r1 assms(2) by simp
  obtain prices where new: "s2 = with_lines s1 o1 pvs" "y = sum_list prices"
      "mapE (line_discounted_price s1) (new_lines o1 (next_id s1) pvs) = Inr prices"
    using add_lines_new [OF add assms(4)] lines1 by auto
  have lines2: "lines_of s2 o1 = new_lines o1 (next_id s1) pvs"
    using lines1 unfolding new(1) by (simp add: lines_of_with_lines)
  have "order_total s2 o1 = Inr y"
    unfolding order_total_def lines2
    using new(2,3) mapE_cong [of "new_lines o1 (next_id s1) pvs" "line_discounted_price s2"
        "line_discounted_price s1"] line_price_same [OF same_prices_with_lines [of o1 s1 pvs]] new_lines_order
    by (simp add: new(1))
  moreover have "order_total t o1 = order_total s2 o1"
    unfolding fin(2) by (rule order_total_cong) (simp_all add: same_prices_def redemptions_of_order_def)
  moreover have "find_order s2 o1 = Some r"
    using assms(5) r1(1) by (simp add: find_order_def new(1))
  then obtain r' where "find_order t o1 = Some r'" "ord_total_price_paid r' = y"
      "ord_state r' = PENDING" "ord_purchaser r' = ord_purchaser r" "ord_gateway_type r' = ord_gateway_type r"
    unfolding fin(2) using find_saved_total [of s2 o1 r y] assms(6) by auto
  moreover have "map rd_redeemed_discount (redemptions_of_order t o1) = given ds"
    using r1(8) assms(3) by (simp add: redemptions_of_order_def fin(2) new(1))
  ultimately show "order_for o1 (map fst pvs) (map snd pvs) (ord_purchaser r) (given ds) (ord_gateway_type r) t"
    using lines2 by (simp add: order_for_def fin(2) map_line_key_new_lines map_version_new_lines comp_assoc)
qed

lemma find_pending_in_atomic [simp]:
  "find_pending (s\<lparr>in_atomic := b\<rparr>) ps vs user gw = find_pending s ps vs user gw"
  "latest_version (s\<lparr>in_atomic := b\<rparr>) = latest_version s"
  "orders_ok (s\<lparr>in_atomic := b\<rparr>) = orders_ok s"
  by (auto simp: find_pending_def latest_version_def lines_of_def versions_for_def orders_ok_def)

theorem pending_order_new:
  assumes "orders_ok s" "mapE (latest_version s) ps = Inr vs" "find_pending s ps vs user gw = None"
    and "distinct (map sold_key ps)" "pending_get_or_create ps user ds gw s = (Inr o1, t)"
  shows "o1 = next_id s \<and> order_for o1 ps vs user (given ds) gw t"
proof -
  let ?s = "s\<lparr>in_atomic := True\<rparr>"
  obtain o2 s1 where c: "create_order user gw ?s = (Inr o2, s1)"
    by (auto simp: create_order_def py_defs save_order_def Let_def)
  have ok: "orders_ok ?s" using assms(1) by simp
  note new = create_order_new [OF ok c]
  obtain r where r: "find_order s1 o2 = Some r" "ord_state r = PENDING" "ord_purchaser r = user"
      "ord_gateway_type r = gw"
    using new(7) by blast
  obtain t1 where f: "fill_order o2 user ds (zip ps vs) s1 = (Inr o1, t1)" and t: "t = leave_atomic s t1"
    using assms(2,3,5) c
    by (auto simp: pending_get_or_create_def atomicP_def liftE_bind bindP_Inr split: prod.splits sum.splits)
  have len: "length vs = length ps" using mapE_length assms(2) by blast
  have "distinct (map (sold_key \<circ> fst) (zip ps vs))"
    using assms(4) len by (simp flip: map_map)
  from fill_new_order [OF f new(6) new(5) this r(1,2)] show ?thesis
    using new(1) len r t by simp
qed

section \<open>A checkout that finds its pending order again\<close>

lemma map_id_saved_total [simp]: "map ord_id (orders (saved_total o1 x s)) = map ord_id (orders s)"
  by (auto simp: saved_total_def save_order_def modify_def update_order_def update_rows_def
      split: option.splits)

lemma fill_old_order:
  assumes "fill_order o1 user ds pvs s = (Inr x, t)" "redemptions_of_order s o1 = []"
    and "distinct (map line_key (lines_of s o1))"
    and "map line_key (lines_of s o1) = map (map_prod Some Some \<circ> sold_key \<circ> fst) pvs"
    and "map ln_product_version (lines_of s o1) = map snd pvs"
    and "find_order s o1 = Some r" "ord_state r = PENDING"
  shows "order_for o1 (map fst pvs) (map snd pvs) (ord_purchaser r) (given ds) (ord_gateway_type r) t"
    "x = o1" "order_lines t = order_lines s" "map ord_id (orders t) = map ord_id (orders s)"
proof -
  obtain s1 where s1: "redeemed s o1 user (given ds) s1"
      "fill_order o1 user ds pvs s = bindP (add_lines o1 pvs 0) (\<lambda>x. thenP (set_total o1 x) (ret o1)) s1"
    using fill_order_run by blast
  note r1 = redeemed_simps [OF s1(1)]
  have old: "add_lines o1 pvs 0 s1 = (case mapE (line_discounted_price s1) (lines_of s o1) of
     Inl e \<Rightarrow> (Inl e, s1) | Inr prices \<Rightarrow> (Inr (sum_list prices), s1))"
    using add_lines_old [of s1 o1 "lines_of s o1" pvs 0] assms(3,4) r1 by (simp split: sum.splits)
  obtain prices where prices: "mapE (line_discounted_price s1) (lines_of s o1) = Inr prices"
      and fin: "x = o1" "t = saved_total o1 (sum_list prices) s1"
    using assms(1) s1(2) old by (auto simp: bindP_def thenP_def set_total_run saved_total_def ret_def
        split: prod.splits sum.splits)
  show "x = o1" by (rule fin(1))
  show "order_lines t = order_lines s" "map ord_id (orders t) = map ord_id (orders s)"
    using r1 by (simp_all add: fin(2))
  have "order_total t o1 = order_total s1 o1"
    unfolding fin(2) by (rule order_total_cong) (simp_all add: same_prices_def redemptions_of_order_def)
  then have "order_total t o1 = Inr (sum_list prices)"
    using prices r1 by (simp add: order_total_def)
  moreover have "find_order s1 o1 = Some r" using assms(6) r1 by (simp add: find_order_def)
  then obtain r' where "find_order t o1 = Some r'" "ord_total_price_paid r' = sum_list prices"
      "ord_state r' = PENDING" "ord_purchaser r' = ord_purchaser r" "ord_gateway_type r' = ord_gateway_type r"
    unfolding fin(2) using find_saved_total [of s1 o1 r "sum_list prices"] assms(7) by auto
  moreover have "map rd_redeemed_discount (redemptions_of_order t o1) = given ds"
    using r1(8) assms(2) by (simp add: redemptions_of_order_def fin(2))
  ultimately show "order_for o1 (map fst pvs) (map snd pvs) (ord_purchaser r) (given ds) (ord_gateway_type r) t"
    using assms(4,5) r1 by (simp add: order_for_def fin(2) comp_assoc)
qed

lemma order_for_found:
  assumes "order_for o1 ps vs user ds0 gw s" "find_pending s ps vs user gw = Some q"
    "ord_id q = o1" "mapE (latest_version s) ps = Inr vs" "distinct (map sold_key ps)"
    and "pending_get_or_create ps user ds gw s = (Inr x, t)"
  shows "x = o1 \<and> order_for o1 ps vs user (given ds) gw t
    \<and> order_lines t = order_lines s \<and> map ord_id (orders t) = map ord_id (orders s)"
proof -
  define s1 where "s1 = s\<lparr>in_atomic := True,
     redemptions := filter (\<lambda>r. rd_redeemed_order r \<noteq> o1) (redemptions s)\<rparr>"
  have clear: "clear_redemptions o1 (s\<lparr>in_atomic := True\<rparr>) = (Inr (), s1)"
    by (simp add: clear_redemptions_def modify_def s1_def)
  obtain t1 where f: "fill_order o1 user ds (zip ps vs) s1 = (Inr x, t1)" and t: "t = leave_atomic s t1"
    using assms(2,3,4,6) clear
    by (auto simp: pending_get_or_create_def atomicP_def liftE_bind bindP_def [of "thenP _ _"] thenP_Inr ret_def
        split: prod.splits sum.splits)
  have len: "length vs = length ps" using mapE_length assms(4) by blast
  have lines: "lines_of s1 o1 = lines_of s o1" by (simp add: s1_def lines_of_def)
  have keys: "map line_key (lines_of s o1) = map (map_prod Some Some \<circ> sold_key) ps"
      "map ln_product_version (lines_of s o1) = vs"
    using assms(1) by (simp_all add: order_for_def)
  have "(map_prod Some Some a = map_prod Some Some b) = (a = b)" for a b :: "content_type \<times> nat"
    by (cases a; cases b) simp
  then have d: "distinct (map line_key (lines_of s1 o1))"
    unfolding lines keys(1) using assms(5) by (simp add: distinct_map inj_on_def comp_def)
  have k: "map line_key (lines_of s1 o1) = map (map_prod Some Some \<circ> sold_key \<circ> fst) (zip ps vs)"
    unfolding lines keys(1) using len by (simp flip: map_map)
  have v: "map ln_product_version (lines_of s1 o1) = map snd (zip ps vs)"
    unfolding lines keys(2) using len by simp
  obtain r where r: "find_order s1 o1 = Some r" "ord_state r = PENDING" "ord_purchaser r = user"
      "ord_gateway_type r = gw"
    using assms(1) by (auto simp: order_for_def s1_def find_order_def)
  have none: "redemptions_of_order s1 o1 = []" by (simp add: redemptions_of_order_def s1_def filter_empty_conv)
  note fill_old_order [OF f none d k v r(1,2)]
  then show ?thesis using t len r by (simp add: s1_def)
qed

text \<open>The order that a checkout created is the one that the next checkout finds.\<close>

lemma with_order_found:
  assumes "orders_ok s" "find_pending s ps vs user gw = None" "order_for (next_id s) ps vs user ds gw t"
    and "length vs = length ps" "ps \<noteq> []"
    and "\<exists>r. orders t = orders s @ [r]" "\<And>o2. o2 < next_id s \<Longrightarrow> lines_of t o2 = lines_of s o2"
  shows "find_pending t ps vs user gw = find_order t (next_id s)"
proof -
  obtain r where r: "find_order t (next_id s) = Some r" "ord_state r = PENDING" "ord_purchaser r = user"
      "ord_gateway_type r = gw"
    using assms(3) by (auto simp: order_for_def)
  obtain r' where r': "orders t = orders s @ [r']" using assms(6) by auto
  have old: "filter (\<lambda>r. ord_id r = next_id s) (orders s) = []"
    using assms(1) by (auto simp: orders_ok_def filter_empty_conv)
  then have rr: "r' = r" "ord_id r = next_id s"
    using r(1) r' by (auto simp: find_order_def split: if_splits)
  obtain p ps' v vs' where ps: "ps = p # ps'" "vs = v # vs'"
    using assms(4,5) by (cases ps; cases vs) auto
  obtain l ls where l: "lines_of t (next_id s) = l # ls"
      "ln_product_version l = v" "line_key l = map_prod Some Some (sold_key p)"
    using assms(3) ps by (cases "lines_of t (next_id s)") (auto simp: order_for_def)
  have "line_matches ps vs l" using l ps by (simp add: line_matches_def line_key_def sold_key_def)
  moreover have "filter (\<lambda>r. ord_state r = PENDING \<and> ord_purchaser r = user \<and> ord_gateway_type r = gw
      \<and> exists_row (line_matches ps vs) (lines_of t (ord_id r))) (orders s) = []"
    using assms(1,2,7) by (auto simp: find_pending_def orders_ok_def filter_empty_conv)
  ultimately show ?thesis
    using r r' rr l(1) by (simp add: find_pending_def)
qed

text \<open>What filling a new order leaves alone.\<close>

definition one_more_order :: "db \<Rightarrow> db \<Rightarrow> bool" where
  "one_more_order s t \<longleftrightarrow> (\<exists>r. orders t = orders s @ [r] \<and> ord_id r = next_id s) \<and> versions t = versions s
     \<and> (\<forall>o2 < next_id s. lines_of t o2 = lines_of s o2)"

lemma keeps_one_more_get_line [keeps_intro]:
  "keeps (one_more_order s) (get_or_create_line (next_id s) p v)"
  by (rule keepsI)
    (auto simp: get_or_create_line_def one_more_order_def Let_def lines_of_def split: sum.splits)

lemma keeps_one_more_lines [keeps_intro]: "keeps (one_more_order s) (add_lines (next_id s) pvs x)"
proof (induction pvs arbitrary: x)
  case (Cons pv pvs)
  then show ?case by (cases pv) (auto intro!: keeps_intro)
qed (auto intro: keeps_intro)

lemma keeps_one_more_fill [keeps_intro]: "orders_ok s \<Longrightarrow> keeps (one_more_order s) (fill_order (next_id s) user ds pvs)"
proof -
  assume ok: "orders_ok s"
  have "keeps (one_more_order s) (create_redemption o1 u d)" for o1 u d
    unfolding create_redemption_def
    by (rule keeps_modify) (simp add: one_more_order_def lines_of_def)
  moreover have "keeps (one_more_order s) (set_total (next_id s) x)" for x
  proof (rule keepsI)
    fix t assume t: "one_more_order s t"
    then obtain r where r: "orders t = orders s @ [r]" "ord_id r = next_id s"
      by (auto simp: one_more_order_def)
    have "update_rows (\<lambda>r. ord_id r = next_id s) f (orders s) = orders s" for f
      using ok by (auto simp: orders_ok_def update_rows_def intro!: map_idI)
    then show "one_more_order s (snd (set_total (next_id s) x t))"
      using t r by (auto simp: set_total_run save_order_def modify_def update_order_def one_more_order_def
          lines_of_def update_rows_def split: option.splits)
  qed
  ultimately show ?thesis unfolding fill_order_def by (intro keeps_intro) auto
qed

lemma one_more_create:
  "orders_ok s \<Longrightarrow> one_more_order s (snd (create_order user gw s))"
  by (auto simp: create_order_def save_order_def py_defs Let_def update_order_def one_more_order_def
      lines_of_def update_rows_def orders_ok_def intro!: map_idI)

lemma pending_order_frame:
  assumes "orders_ok s" "mapE (latest_version s) ps = Inr vs" "find_pending s ps vs user gw = None"
    "pending_get_or_create ps user ds gw s = (Inr o1, t)"
  shows "one_more_order s t"
proof -
  let ?s = "s\<lparr>in_atomic := True\<rparr>"
  obtain o2 s1 where c: "create_order user gw ?s = (Inr o2, s1)"
    by (auto simp: create_order_def py_defs save_order_def Let_def)
  have ok: "orders_ok ?s" using assms(1) by simp
  have o2: "o2 = next_id ?s" using create_order_new(1) [OF ok c] .
  obtain t1 where f: "fill_order o2 user ds (zip ps vs) s1 = (Inr o1, t1)" and t: "t = leave_atomic s t1"
    using assms(2-4) c
    by (auto simp: pending_get_or_create_def atomicP_def liftE_bind bindP_Inr split: prod.splits sum.splits)
  have "one_more_order ?s s1" using one_more_create [OF ok, of user gw] c by simp
  then have "one_more_order ?s t1"
    using keepsD [OF keeps_one_more_fill [OF ok]] f unfolding o2 by (metis snd_conv)
  then show ?thesis by (simp add: t one_more_order_def lines_of_def)
qed

theorem checkout_again:
  assumes "orders_ok s" "mapE (latest_version s) ps = Inr vs" "find_pending s ps vs user gw = None"
    "distinct (map sold_key ps)" "ps \<noteq> []"
    "pending_get_or_create ps user ds gw s = (Inr o1, t)"
    "pending_get_or_create ps user ds' gw t = (Inr o2, u)"
  shows "o2 = o1 \<and> order_for o1 ps vs user (given ds') gw u
    \<and> order_lines u = order_lines t \<and> map ord_id (orders u) = map ord_id (orders t)"
proof -
  have new: "o1 = next_id s" "order_for o1 ps vs user (given ds) gw t"
    using pending_order_new assms(1-4,6) by blast+
  have more: "one_more_order s t" using pending_order_frame assms(1-3,6) by blast
  have len: "length vs = length ps" using mapE_length assms(2) by blast
  have found: "find_pending t ps vs user gw = find_order t (next_id s)"
    using assms(1,3) new len assms(5) more by (intro with_order_found) (auto simp: one_more_order_def)
  obtain q where q: "find_order t o1 = Some q" using new(2) by (auto simp: order_for_def)
  have "latest_version t = latest_version s"
    using more by (simp add: one_more_order_def latest_version_def versions_for_def fun_eq_iff)
  then show ?thesis
    using order_for_found [OF new(2), of q ds' o2 u] found q new(1) find_order_id [OF q] assms(2,4,7)
    by simp
qed

end
