(* ===== verification/Checkout.thy ===== *)
theory Checkout
  imports ContractBaskets PendingOrders
begin

text \<open>
  Checking out and what the payment processors answer (\<open>src/ecommerce/api.py\<close>, the callback
  views of \<open>src/ecommerce/views/legacy/__init__.py\<close>, the Stripe hooks of
  \<open>src/ecommerce/hooks/stripe_webhooks.py\<close>): the checkout payload of a basket, the responses and
  events of CyberSource and Stripe, refunds, and the resolution of orders that stay pending.

  The package \<open>mitol.payment_gateway\<close>, the Stripe client and the feature flags of PostHog are
  the record \<open>processor\<close>.
\<close>

section \<open>The payment processors\<close>

datatype processor_state =
    STATE_ACCEPTED | STATE_DECLINED | STATE_ERROR | STATE_CANCELLED | STATE_REVIEW | STATE_PENDING
  | STATE_OTHER string

record processor_response =
  pr_state :: processor_state
  pr_response_code :: "string option"
  pr_response_data :: json

text \<open>What the checkout hands to the processor; a content type stands for its primary key.\<close>

record gateway_item =
  gi_code :: content_type
  gi_name :: string
  gi_quantity :: nat
  gi_sku :: "content_type \<times> nat"
  gi_unitprice :: rat
  gi_taxable :: rat

record gateway_order =
  go_username :: "string option"
  go_ip_address :: string
  go_reference :: "string option"
  go_items :: "gateway_item list"

text \<open>A Stripe \<open>CheckoutSession\<close> with its \<open>PaymentIntent\<close> (id, status, cancellation reason).\<close>

record checkout_session =
  cs_id :: string
  cs_status :: string
  cs_payment_status :: string
  cs_payment_intent :: "(string \<times> string \<times> string) option"
  cs_dict :: json

record stripe_event =
  ev_id :: string
  ev_type :: string
  ev_session_id :: string
  ev_client_reference_id :: "string option"
  ev_dict :: json

record processor =
  px_start_payment :: "gateway \<Rightarrow> gateway_order \<Rightarrow> string \<Rightarrow> string \<Rightarrow> nat list \<Rightarrow> exn + json"
  px_validate :: "json \<Rightarrow> bool"
  px_response :: "json \<Rightarrow> processor_response"
  px_reference :: "json \<Rightarrow> string"
  px_refund :: "json \<Rightarrow> exn + processor_response"
  px_find_transactions :: "string option list \<Rightarrow> (string \<times> json) list"
  px_session :: "string \<Rightarrow> exn + checkout_session"
  px_flag :: "string \<Rightarrow> string \<Rightarrow> bool"
  px_url :: "string \<Rightarrow> string"

section \<open>The checkout payload\<close>

definition get_checkout_success_url :: "processor \<Rightarrow> gateway \<Rightarrow> exn + string" where
  "get_checkout_success_url px g =
     (if g \<in> {GW_NONE, GW_CYBERSOURCE, GW_STRIPE}
      then Inr (px_url px ''checkout-result-callback'') else Inl ValidationError)"

definition get_checkout_cancel_url :: "processor \<Rightarrow> gateway \<Rightarrow> exn + string" where
  "get_checkout_cancel_url px g =
     (if g \<in> {GW_NONE, GW_CYBERSOURCE, GW_STRIPE}
      then Inr (px_url px ''checkout-result-callback'') else Inl ValidationError)"

datatype refusal =
    CountryBlocked | PurchasedSameCourserun | PurchasedNonUpgradeableCourserun | InvalidDiscounts
  | MissingEnrollmentCode | InvalidB2BBasket | BasketEmpty

datatype checkout_result = Refused refusal | NoCheckout nat | Payload json

definition checkout_gateway :: "processor \<Rightarrow> db \<Rightarrow> User \<Rightarrow> gateway option \<Rightarrow> gateway" where
  "checkout_gateway px s user g =
     (if g \<noteq> None \<and> g \<noteq> Some (GW_OTHER []) then the g
      else if has_text (usr_global_id user) \<and> px_flag px ''stripe'' (the (usr_global_id user)) then GW_STRIPE
      else set_default_gateway (conf s))"

definition refused_for_items :: "db \<Rightarrow> Basket \<Rightarrow> User \<Rightarrow> refusal option" where
  "refused_for_items s b user =
     (if has_user_blocked_products s b user then Some CountryBlocked
      else if has_user_purchased_same_courserun s b user then Some PurchasedSameCourserun
      else if has_user_purchased_non_upgradable_courserun s b then Some PurchasedNonUpgradeableCourserun
      else None)"

text \<open>The checks before an order is made, in their order; invalid discounts are removed from the
  basket and the learner's own applied again.\<close>

definition refuse_checkout :: "User \<Rightarrow> bool \<Rightarrow> Basket \<Rightarrow> refusal option op" where
  "refuse_checkout user skip_discount_check b =
     bindP (gets (\<lambda>s. refused_for_items s b user)) (\<lambda>refused.
     if refused \<noteq> None then ret refused
     else bindP (if skip_discount_check then ret True else check_basket_discounts_for_validity user) (\<lambda>valid.
     if \<not> valid
     then thenP (delete_basket_discounts (\<lambda>d. bd_redeemed_basket d = bkt_id b))
            (thenP (apply_user_discounts user) (ret (Some InvalidDiscounts)))
     else bindP (gets (\<lambda>s. get_active_contracts_from_basket_items s b)) (\<lambda>cs.
     bindP (is_discount_supplied_for_b2b_purchase user cs) (\<lambda>supplied.
     if \<not> supplied then ret (Some MissingEnrollmentCode)
     else bindP (validate_basket_for_b2b_purchase user cs) (\<lambda>ok.
     if \<not> ok then ret (Some InvalidB2BBasket)
     else gets (\<lambda>s. if items_of s (bkt_id b) = [] then Some BasketEmpty else None))))))"

definition gateway_item_of :: "Line \<Rightarrow> rat \<Rightarrow> gateway_item" where
  "gateway_item_of l price =
     (let p = ver_field_dict (ln_product_version l)
      in \<lparr>gi_code = prod_content_type p, gi_name = prod_description p, gi_quantity = 1,
          gi_sku = (prod_content_type p, prod_object_id p), gi_unitprice = price, gi_taxable = 0\<rparr>)"

definition zero_payment_data :: json where
  "zero_payment_data = JObj [(''amount'', JNum 0), (''transaction_id'', JStr ''zero-payment-transaction''),
     (''data'', JObj [(''reason'', JStr ''No payment required'')]), (''is_administrative'', JBool True)]"

definition admin_fulfilled_payment_data :: json where
  "admin_fulfilled_payment_data = JObj [(''amount'', JNum 0),
     (''transaction_id'', JStr ''administratively-fulfilled''),
     (''data'', JObj [(''reason'', JStr ''Order fulfilled administratively.'')]),
     (''is_administrative'', JBool True)]"

definition initial_checkoutsession :: string where
  "initial_checkoutsession = ''Initial CheckoutSession''"

text \<open>The payment that the processor starts for an order whose lines cost something.\<close>

definition start_payment :: "processor \<Rightarrow> User \<Rightarrow> string \<Rightarrow> Basket \<Rightarrow> gateway \<Rightarrow> Order \<Rightarrow> gateway_item list
    \<Rightarrow> checkout_result op" where
  "start_payment px user ip b g order gis =
     bindP (liftE (\<lambda>_. get_checkout_success_url px g)) (\<lambda>success.
     bindP (liftE (\<lambda>_. get_checkout_cancel_url px g)) (\<lambda>cancel_url.
     bindP (liftE (\<lambda>_. px_start_payment px g
              \<lparr>go_username = usr_edx_username user, go_ip_address = ip, go_reference = ord_reference_number order,
               go_items = gis\<rparr> success cancel_url [bkt_id b])) (\<lambda>payload.
     if g = GW_STRIPE
     then (case jget payload ''payload'' of
             None \<Rightarrow> raise PyKeyError
           | Some session \<Rightarrow>
               bindP (create_transaction (ord_id order) session initial_checkoutsession)
                 (\<lambda>_. ret (Payload payload)))
     else ret (Payload payload))))"

text \<open>The order, fulfilled at once when its lines cost nothing in total.\<close>

definition complete_checkout ::
  "ext \<Rightarrow> processor \<Rightarrow> User \<Rightarrow> string \<Rightarrow> bool \<Rightarrow> Basket \<Rightarrow> gateway \<Rightarrow> checkout_result op" where
  "complete_checkout x px user ip skip_receipt b g =
     bindP (create_from_basket b (usr_id user) g) (\<lambda>o1.
     bindP (liftE (\<lambda>s. get_order s o1)) (\<lambda>order.
     bindP (gets (\<lambda>s. lines_of s o1)) (\<lambda>ls.
     bindP (liftE (\<lambda>s. mapE (line_discounted_price s) ls)) (\<lambda>prices.
     if sum_list prices = 0
     then thenP (atomicP (fulfill_completed_order x o1 zero_payment_data (Some b) False skip_receipt))
            (ret (NoCheckout o1))
     else start_payment px user ip b g order (map2 gateway_item_of ls prices)))))"

definition generate_checkout_payload ::
  "ext \<Rightarrow> processor \<Rightarrow> User \<Rightarrow> string \<Rightarrow> bool \<Rightarrow> bool \<Rightarrow> gateway option \<Rightarrow> checkout_result op" where
  "generate_checkout_payload x px user ip skip_discount_check skip_receipt gateway_type =
     bindP (establish_basket_delayed user) (\<lambda>b.
     bindP (gets (\<lambda>s. checkout_gateway px s user gateway_type)) (\<lambda>g.
     bindP (refuse_checkout user skip_discount_check b) (\<lambda>refused.
     case refused of
       Some r \<Rightarrow> ret (Refused r)
     | None \<Rightarrow> complete_checkout x px user ip skip_receipt b g)))"

section \<open>Responses of CyberSource\<close>

definition get_order_from_cybersource_payment_response :: "processor \<Rightarrow> json \<Rightarrow> db \<Rightarrow> exn + Order option" where
  "get_order_from_cybersource_payment_response px req s =
     (case parse_int (decode_reference_number s (px_reference px req)) of
        None \<Rightarrow> Inl PyValueError
      | Some i \<Rightarrow> Inr (if i < 0 then None else find_order s (nat i)))"

text \<open>\<open>reason_code == 100\<close> after the conversion of a code of digits.\<close>

definition is_code_100 :: "string option \<Rightarrow> bool" where
  "is_code_100 c = (case c of None \<Rightarrow> False
     | Some t \<Rightarrow> t \<noteq> [] \<and> list_all is_digit t \<and> digits_val t = 100)"

definition fulfill_from_response :: "ext \<Rightarrow> nat \<Rightarrow> json \<Rightarrow> unit op" where
  "fulfill_from_response x o1 d =
     bindP (liftE (\<lambda>s. get_order s o1)) (\<lambda>order.
     bindP (gets (\<lambda>s. first (filter (\<lambda>b. bkt_user b = Some (ord_purchaser order)) (baskets s)))) (\<lambda>basket.
       fulfill_completed_order x o1 d basket False False))"

definition apply_response :: "ext \<Rightarrow> json \<Rightarrow> nat \<Rightarrow> processor_response \<Rightarrow> unit op" where
  "apply_response x req o1 r =
     (case pr_state r of
        STATE_DECLINED \<Rightarrow> decline x o1
      | STATE_ERROR \<Rightarrow> errored x o1 None
      | STATE_CANCELLED \<Rightarrow> cancel x o1 None
      | STATE_REVIEW \<Rightarrow> cancel x o1 None
      | st \<Rightarrow> if st = STATE_ACCEPTED \<or> is_code_100 (pr_response_code r)
              then fulfill_from_response x o1 req else cancel x o1 None)"

definition process_cybersource_payment_response :: "ext \<Rightarrow> processor \<Rightarrow> json \<Rightarrow> nat \<Rightarrow> OrderStatus op" where
  "process_cybersource_payment_response x px req o1 =
     (if \<not> px_validate px req then raise PermissionDenied
      else thenP (apply_response x req o1 (px_response px req))
        (bindP (liftE (\<lambda>s. get_order s o1)) (\<lambda>order.
         thenP (sync_hubspot_deal o1) (ret (ord_state order)))))"

section \<open>The callbacks\<close>

datatype redirect =
    ToCart string
  | ToDashboard string "string option"
  | ToLearn nat

datatype callback_result = CallbackStatus nat | OrderNotFound | RedirectTo redirect

definition purchased_readable_id :: "db \<Rightarrow> Line \<Rightarrow> string option" where
  "purchased_readable_id s l =
     (case purchased_object s l of
        Some (PurchRun r) \<Rightarrow> Some (run_courseware_id r)
      | Some (PurchProgram p) \<Rightarrow> Some (prg_readable_id p)
      | None \<Rightarrow> None)"

definition has_uai_purchase :: "db \<Rightarrow> nat \<Rightarrow> bool" where
  "has_uai_purchase s o1 =
     list_ex (\<lambda>l. case purchased_readable_id s l of
         None \<Rightarrow> False
       | Some i \<Rightarrow> i \<noteq> [] \<and> (starts_with ''program-v1:UAI+B2C'' i \<or> starts_with ''course-v1:UAI_B2C'' i))
       (lines_of s o1)"

definition should_redirect_to_learn :: "processor \<Rightarrow> db \<Rightarrow> Order \<Rightarrow> exn + bool" where
  "should_redirect_to_learn px s order =
     (if has_uai_purchase s (ord_id order) then Inr True
      else case find_user s (ord_purchaser order) of
        None \<Rightarrow> Inl ObjectDoesNotExist
      | Some u \<Rightarrow> Inr (has_text (usr_global_id u) \<and> px_flag px ''redirect-learn'' (the (usr_global_id u))))"

definition first_courseware :: "db \<Rightarrow> nat \<Rightarrow> exn + string" where
  "first_courseware s o1 =
     (case first (lines_of s o1) of None \<Rightarrow> Inl PyAttributeError | Some l \<Rightarrow> Inr (line_courseware s l))"

definition post_checkout_redirect :: "processor \<Rightarrow> OrderStatus \<Rightarrow> Order \<Rightarrow> db \<Rightarrow> exn + redirect" where
  "post_checkout_redirect px st order s =
     (case st of
        CANCELED \<Rightarrow> Inr (ToCart ''payment-cancelled'')
      | ERRORED \<Rightarrow> Inr (ToCart ''payment-error'')
      | DECLINED \<Rightarrow> Inr (ToCart ''payment-declined'')
      | FULFILLED \<Rightarrow>
          bindE (should_redirect_to_learn px s order) (\<lambda>learn.
            if learn then Inr (ToLearn (ord_id order))
            else bindE (first_courseware s (ord_id order)) (\<lambda>c. Inr (ToDashboard ''payment-accepted'' (Some c))))
      | _ \<Rightarrow> Inr (ToDashboard ''payment-error-unknown'' None))"

text \<open>A request that the processor did not sign raises: the error message reads
  \<open>is_anomymous\<close>, which no user has.\<close>

definition checkout_callback :: "ext \<Rightarrow> processor \<Rightarrow> json \<Rightarrow> callback_result op" where
  "checkout_callback x px req =
     (if \<not> px_validate px req then raise PyAttributeError
      else atomicP (bindP (liftE (get_order_from_cybersource_payment_response px req)) (\<lambda>found.
        case found of
          None \<Rightarrow> ret OrderNotFound
        | Some order \<Rightarrow>
            bindP (if ord_state order = PENDING then process_cybersource_payment_response x px req (ord_id order)
                   else ret (ord_state order)) (\<lambda>st.
            bindP (liftE (post_checkout_redirect px st order)) (\<lambda>r. ret (RedirectTo r))))))"

definition backoffice_callback :: "ext \<Rightarrow> processor \<Rightarrow> json \<Rightarrow> callback_result op" where
  "backoffice_callback x px req =
     (if \<not> px_validate px req then ret (CallbackStatus 401)
      else atomicP (bindP (liftE (get_order_from_cybersource_payment_response px req)) (\<lambda>found.
        case found of
          None \<Rightarrow> ret (CallbackStatus 404)
        | Some order \<Rightarrow>
            thenP (if ord_state order = PENDING
                   then bindP (process_cybersource_payment_response x px req (ord_id order)) (\<lambda>_. ret ())
                   else ret ())
              (ret (CallbackStatus 200)))))"

end
