(* ===== verification/Settlement.thy ===== *)
theory Settlement
  imports Checkout
begin

text \<open>
  What a checkout and the responses of the payment processors do to the orders: the parts of a
  checkout that never change the state of an order, the only one that does, the state that each
  response settles an order in, and the second delivery of a response.
\<close>

section \<open>What a checkout does to the orders\<close>

text \<open>
  A property of the table of orders that new pending orders and writes to an order other than to
  its state do not hurt.  Everything in a checkout keeps it but the transitions.
\<close>

locale order_table_frame =
  fixes P :: "db \<Rightarrow> bool"
  assumes table_only: "P s \<Longrightarrow> orders t = orders s \<Longrightarrow> P t"
    and table_update: "P s \<Longrightarrow> (\<And>r. ord_id (f r) = ord_id r \<and> ord_state (f r) = ord_state r) \<Longrightarrow> P (update_order o1 f s)"
    and table_new: "P s \<Longrightarrow> ord_state r = PENDING \<Longrightarrow> P (s\<lparr>orders := orders s @ [r]\<rparr>)"
begin

lemma table_frame: "(\<And>s. orders (snd (m s)) = orders s) \<Longrightarrow> keeps P m"
  by (rule keepsI) (metis table_only)

lemma keeps_table_modify: "(\<And>s. orders (f s) = orders s) \<Longrightarrow> keeps P (modify f)"
  by (rule keeps_modify) (metis table_only)

lemma keeps_table_atomic:
  assumes "keeps P m"
  shows "keeps P (atomicP m)"
proof (rule keepsI)
  fix s assume P: "P s"
  have "P (s\<lparr>in_atomic := True\<rparr>)" by (rule table_only [OF P]) simp
  then have "P (snd (m (s\<lparr>in_atomic := True\<rparr>)))" using assms by (rule keepsD [rotated])
  then show "P (snd (atomicP m s))"
    by (auto simp: atomicP_def split: prod.split sum.split intro: table_only [OF P] table_only)
qed

lemma keeps_table_basket: "keeps P (establish_basket_delayed user)"
  by (rule table_frame)
    (auto simp: establish_basket_delayed_def establish_basket_def get_or_create_basket_def emit_def py_defs Let_def
      split: sum.split)

lemma keeps_table_discount: "keeps P (save_basket_discount u b d)"
  by (rule table_frame) (auto simp: save_basket_discount_def split: option.split)

lemma keeps_table_user_discounts: "keeps P (apply_user_discounts user)"
proof -
  have "keeps P (delete_basket_discounts p)" for p
    unfolding delete_basket_discounts_def by (rule keeps_table_modify) simp
  then show ?thesis
    unfolding apply_user_discounts_def by (intro keeps_intro keeps_table_basket keeps_table_discount)
qed

lemma keeps_table_refuse: "keeps P (refuse_checkout user skip b)"
proof -
  have "keeps P (delete_basket_discounts p)" for p
    unfolding delete_basket_discounts_def by (rule keeps_table_modify) simp
  then show ?thesis
    unfolding refuse_checkout_def check_basket_discounts_for_validity_def
    by (intro keeps_intro keeps_table_basket keeps_table_user_discounts keeps_b2b_checks)
qed

lemma keeps_table_pending: "keeps P (pending_get_or_create ps user ds g)"
proof -
  have save: "keeps P (save_order o1)" for o1
    unfolding save_order_def by (rule keeps_modify, rule table_update) (auto split: option.split)
  have total: "keeps P (set_total o1 x)" for o1 x
    unfolding set_total_def by (intro keeps_intro save keeps_modify table_update) auto
  have new: "keeps P (create_order user g)"
  proof (rule keepsI)
    fix s assume P: "P s"
    let ?r = "\<lparr>ord_id = next_id s, ord_state = PENDING, ord_purchaser = user, ord_total_price_paid = 0,
      ord_reference_number = None, ord_gateway_type = g, ord_created_on = now s\<rparr>"
    have "P (s\<lparr>orders := orders s @ [?r]\<rparr>)" by (rule table_new [OF P]) simp
    then have "P (s\<lparr>orders := orders s @ [?r], next_id := Suc (next_id s)\<rparr>)" by (rule table_only) simp
    then have "P (snd (save_order (next_id s) (s\<lparr>orders := orders s @ [?r], next_id := Suc (next_id s)\<rparr>)))"
      by (rule keepsD [OF save])
    then show "P (snd (create_order user g s))"
      by (simp add: create_order_def Let_def thenP_def bindP_def save_order_def modify_def ret_def)
  qed
  have clear: "keeps P (clear_redemptions o1)" for o1
    unfolding clear_redemptions_def by (rule keeps_table_modify) simp
  have redeem: "keeps P (create_redemption o1 u d)" for o1 u d
    unfolding create_redemption_def by (rule keeps_table_modify) simp
  have line: "keeps P (get_or_create_line o1 p v)" for o1 p v
    by (rule table_frame) (auto simp: get_or_create_line_def Let_def split: sum.split)
  have add: "keeps P (add_lines o1 pvs x)" for o1 pvs x
  proof (induction pvs arbitrary: x)
    case (Cons pv pvs)
    then show ?case by (cases pv) (auto intro!: keeps_intro line)
  qed (simp add: keeps_ret)
  show ?thesis
    unfolding pending_get_or_create_def fill_order_def
    by (intro keeps_table_atomic keeps_intro save total new clear redeem add)
qed

lemma keeps_table_order: "keeps P (create_from_basket b user g)"
  unfolding create_from_basket_def by (intro keeps_intro keeps_table_pending)

end

text \<open>Such a property is one that the bodies of the transitions keep.\<close>

sublocale order_table_frame \<subseteq> bodies: order_frame P
  by unfold_locales (erule table_only, simp)+

context order_table_frame
begin

lemma keeps_table_payment: "keeps P (start_payment px user ip b g order gis)"
  unfolding start_payment_def
  by (intro keeps_intro bodies.keeps_create_transaction)

lemma keeps_table_sync: "keeps P (sync_hubspot_deal o1)"
  by (rule keeps_sync_hubspot_deal) (erule table_only, simp)

lemma keeps_table_delete_basket: "keeps P (delete_basket b)"
  unfolding delete_basket_def delete_baskets_def by (rule keeps_table_modify) (simp add: Let_def)

lemma keeps_fulfill_completed:
  assumes "keeps P (fulfill x o1 d a r False)"
  shows "keeps P (fulfill_completed_order x o1 d basket a r)"
  unfolding fulfill_completed_order_def
  by (intro keeps_intro assms keeps_table_sync keeps_table_delete_basket)

end

definition unfulfilled :: "nat \<Rightarrow> db \<Rightarrow> bool" where
  "unfulfilled o1 s \<longleftrightarrow> order_state s o1 \<noteq> Some FULFILLED"

definition in_state :: "nat \<Rightarrow> OrderStatus \<Rightarrow> db \<Rightarrow> bool" where
  "in_state o1 st s \<longleftrightarrow> order_state s o1 = Some st"

lemma order_state_new:
  "order_state (s\<lparr>orders := orders s @ [r]\<rparr>) o1 =
     (if order_state s o1 = None \<and> ord_id r = o1 then Some (ord_state r) else order_state s o1)"
  by (auto simp: order_state_def find_order_def first_def split: list.split)

interpretation unfulfilled_frame: order_table_frame "unfulfilled o1" for o1
proof unfold_locales
  show "unfulfilled o1 t" if "unfulfilled o1 s" "orders t = orders s" for s t
    using that order_state_orders [of t s] by (simp add: unfulfilled_def)
  show "unfulfilled o1 (update_order o2 f s)"
    if "unfulfilled o1 s" "\<And>r. ord_id (f r) = ord_id r \<and> ord_state (f r) = ord_state r" for s f o2
    using that by (simp add: unfulfilled_def order_state_update)
  show "unfulfilled o1 (s\<lparr>orders := orders s @ [r]\<rparr>)" if "unfulfilled o1 s" "ord_state r = PENDING" for s r
    using that by (simp add: unfulfilled_def order_state_new)
qed

interpretation in_state_frame: order_table_frame "in_state o1 st" for o1 st
proof unfold_locales
  show "in_state o1 st t" if "in_state o1 st s" "orders t = orders s" for s t
    using that order_state_orders [of t s] by (simp add: in_state_def)
  show "in_state o1 st (update_order o2 f s)"
    if "in_state o1 st s" "\<And>r. ord_id (f r) = ord_id r \<and> ord_state (f r) = ord_state r" for s f o2
    using that by (simp add: in_state_def order_state_update)
  show "in_state o1 st (s\<lparr>orders := orders s @ [r]\<rparr>)" if "in_state o1 st s" "ord_state r = PENDING" for s r
    using that by (simp add: in_state_def order_state_new)
qed

section \<open>The transitions\<close>

text \<open>A transition leaves the state of every other order, and its own order is in the target after
  a success and in its old state after an exception.\<close>

lemma order_state_set_other: "o1 \<noteq> o2 \<Longrightarrow> order_state (snd (set_order_state o2 st s)) o1 = order_state s o1"
  by (simp add: set_order_state_def modify_def order_state_def find_order_update)

lemma keeps_other_transition:
  assumes f: "viewflow_contract (x_fsm x)" and body: "keeps (in_state o1 st) body" and ne: "o1 \<noteq> o2"
  shows "keeps (in_state o1 st) (transition x src target o2 body)"
proof -
  have put: "keeps (in_state o1 st) (set_order_state o2 st')" for st'
    using ne by (intro keepsI) (simp add: in_state_def order_state_set_other)
  have save: "keeps (in_state o1 st) (save_order o2)"
    unfolding save_order_def by (rule keeps_modify, rule in_state_frame.table_update) (auto split: option.split)
  have "keeps (in_state o1 st) (thenP (set_order_state o2 target)
      (thenP (catchP body (\<lambda>e. thenP (set_order_state o2 st') (raise e))) (save_order o2)))" for st'
    by (intro keeps_intro put save body)
  then show ?thesis
    unfolding transition_def viewflow_contractD [OF f] viewflow_run_def keeps_def
    by (auto split: option.split)
qed

text \<open>The bodies of the transitions that do not fulfil.\<close>

lemma keeps_unfulfilled_transition:
  assumes f: "viewflow_contract (x_fsm x)" and body: "\<And>os. keeps (orders_are os) body"
    and ne: "target \<noteq> FULFILLED \<or> o1 \<noteq> o2"
  shows "keeps (unfulfilled o1) (transition x src target o2 body)"
proof (rule keepsI)
  fix s assume u: "unfulfilled o1 s"
  show "unfulfilled o1 (snd (transition x src target o2 body s))"
  proof (cases "order_state s o2")
    case None
    then show ?thesis
      using u by (simp add: transition_def viewflow_contractD [OF f] viewflow_run_def)
  next
    case (Some st)
    show ?thesis
    proof (cases "o1 = o2")
      case True
      then show ?thesis
        using transition_cases [OF f body Some, of src target] u ne Some
        by (auto simp: unfulfilled_def)
    next
      case False
      have other: "order_state (update_order o2 (\<lambda>r. r\<lparr>ord_state := v\<rparr>) t) o1 = order_state t o1" for v t
        using False by (simp add: order_state_def find_order_update)
      have put: "keeps (unfulfilled o1) (set_order_state o2 v)" for v
        by (intro keepsI) (simp add: set_order_state_def modify_def unfulfilled_def other)
      have save: "keeps (unfulfilled o1) (save_order o2)"
        unfolding save_order_def
        by (rule keeps_modify, rule unfulfilled_frame.table_update) (auto split: option.split)
      have body': "keeps (unfulfilled o1) body"
      proof (rule keepsI)
        fix t assume t: "unfulfilled o1 t"
        have "orders (snd (body t)) = orders t"
          using keepsD [OF body, of "orders t" t] by (simp add: orders_are_def)
        then show "unfulfilled o1 (snd (body t))" by (rule unfulfilled_frame.table_only [OF t])
      qed
      have "keeps (unfulfilled o1) (thenP (set_order_state o2 target)
          (thenP (catchP body (\<lambda>e. thenP (set_order_state o2 st) (raise e))) (save_order o2)))"
        by (intro keeps_intro put save body')
      from keepsD [OF this u] u show ?thesis
        unfolding transition_def viewflow_contractD [OF f] viewflow_run_def using Some by simp
    qed
  qed
qed

lemma keeps_unfulfilled_ops:
  assumes "viewflow_contract (x_fsm x)"
  shows "keeps (unfulfilled o1) (cancel x o2 d)" "keeps (unfulfilled o1) (errored x o2 d)"
    "keeps (unfulfilled o1) (decline x o2)" "keeps (unfulfilled o1) (refund x o2 d2 a r)"
    "o1 \<noteq> o2 \<Longrightarrow> keeps (unfulfilled o1) (fulfill x o2 d3 b c e)"
  unfolding cancel_def errored_def decline_def refund_def fulfill_def
  by (intro keeps_unfulfilled_transition assms orders_frame.keeps_transaction_if_dict keeps_orders_decline
      orders_frame.keeps_refund_body orders_frame.keeps_fulfill_body; simp)+

lemma keeps_state_other:
  assumes "viewflow_contract (x_fsm x)" "o1 \<noteq> o2"
  shows "keeps (in_state o1 st) (run_order_op x o2 p)"
proof -
  note b = in_state_frame.bodies.keeps_transaction_if_dict in_state_frame.bodies.keeps_refund_body
    in_state_frame.bodies.keeps_fulfill_body
  have d: "keeps (in_state o1 st) (modify (\<lambda>s. s\<lparr>redemptions := filter (\<lambda>r. rd_redeemed_order r \<noteq> o2) (redemptions s)\<rparr>))"
    by (rule in_state_frame.keeps_table_modify) simp
  show ?thesis
    by (cases p) (simp_all add: cancel_def errored_def decline_def refund_def fulfill_def
        keeps_other_transition [OF assms(1) _ assms(2)] b d)
qed

lemma keeps_unfulfilled_completed:
  assumes "viewflow_contract (x_fsm x)" "o1 \<noteq> o2"
  shows "keeps (unfulfilled o1) (fulfill_completed_order x o2 d basket a r)"
  by (rule unfulfilled_frame.keeps_fulfill_completed) (rule keeps_unfulfilled_ops(5) [OF assms])

text \<open>Only a pending order can be fulfilled.\<close>

lemma fulfill_only_pending:
  assumes f: "viewflow_contract (x_fsm x)" and u: "unfulfilled o1 s"
    and t: "\<not> unfulfilled o1 (snd (fulfill_completed_order x o1 d basket a r s))"
  shows "order_state s o1 = Some PENDING"
proof (rule ccontr)
  assume np: "order_state s o1 \<noteq> Some PENDING"
  have "fulfill_completed_order x o1 d basket a r s = (Inl (if order_state s o1 = None then ObjectDoesNotExist
      else TransitionNotAllowed), s)"
    using np by (auto simp: fulfill_completed_order_def fulfill_def transition_def viewflow_contractD [OF f]
        viewflow_run_def thenP_Inl split: option.split)
  then show False using u t by simp
qed

section \<open>A checkout fulfils free orders only\<close>

text \<open>The lines of an order and what they cost.\<close>

definition same_costs :: "db \<Rightarrow> db \<Rightarrow> bool" where
  "same_costs s t \<longleftrightarrow> products t = products s \<and> versions t = versions s \<and> redemptions t = redemptions s
     \<and> order_lines t = order_lines s"

interpretation costs_frame: order_frame "same_costs s" for s
  by unfold_locales (simp_all add: same_costs_def)

lemma same_costs_total: "same_costs s t \<Longrightarrow> order_total t o1 = order_total s o1"
  by (rule order_total_cong) (simp_all add: same_costs_def same_prices_def lines_of_def redemptions_of_order_def)

lemma keeps_costs_fulfill:
  assumes f: "viewflow_contract (x_fsm x)"
  shows "keeps (same_costs s) (fulfill_completed_order x o1 d basket a r)"
proof -
  have put: "keeps (same_costs s) (set_order_state o1 st)" for st
    unfolding set_order_state_def by (rule keeps_modify) (simp add: same_costs_def update_order_def)
  have save: "keeps (same_costs s) (save_order o1)"
    unfolding save_order_def by (rule keeps_modify) (simp add: same_costs_def update_order_def)
  have "keeps (same_costs s) (thenP (set_order_state o1 FULFILLED)
      (thenP (catchP (fulfill_body x o1 d a r False) (\<lambda>e. thenP (set_order_state o1 st) (raise e))) (save_order o1)))" for st
    by (intro keeps_intro put save costs_frame.keeps_fulfill_body)
  then have "keeps (same_costs s) (fulfill x o1 d a r False)"
    unfolding fulfill_def transition_def viewflow_contractD [OF f] viewflow_run_def keeps_def
    by (auto split: option.split)
  moreover have "keeps (same_costs s) (sync_hubspot_deal o1)"
    by (rule keeps_sync_hubspot_deal) (simp add: same_costs_def)
  moreover have "keeps (same_costs s) (delete_basket b)" for b
    unfolding delete_basket_def delete_baskets_def by (rule keeps_modify) (simp add: same_costs_def Let_def)
  ultimately show ?thesis
    unfolding fulfill_completed_order_def by (intro keeps_intro)
qed

lemma order_total_prices:
  "mapE (line_discounted_price s) (lines_of s o1) = Inr prices \<Longrightarrow> order_total s o1 = Inr (sum_list prices)"
  by (simp add: order_total_def)

text \<open>The last step of the checkout of a free order.\<close>

lemma free_order_fulfilled:
  assumes f: "viewflow_contract (x_fsm x)" and u: "unfulfilled o1 s"
    and t: "\<not> unfulfilled o1 (snd (thenP (atomicP (fulfill_completed_order x o2 d basket a r)) (ret (NoCheckout o2)) s))"
  shows "o1 = o2 \<and> fst (thenP (atomicP (fulfill_completed_order x o2 d basket a r)) (ret (NoCheckout o2)) s)
      = Inr (NoCheckout o2)
    \<and> same_costs s (snd (thenP (atomicP (fulfill_completed_order x o2 d basket a r)) (ret (NoCheckout o2)) s))"
proof -
  let ?m = "fulfill_completed_order x o2 d basket a r"
  have "o1 = o2"
  proof (rule ccontr)
    assume "o1 \<noteq> o2"
    from unfulfilled_frame.keeps_table_atomic [OF keeps_unfulfilled_completed [OF f this]]
    have "keeps (unfulfilled o1) (thenP (atomicP ?m) (ret (NoCheckout o2)))" by (intro keeps_intro)
    from keepsD [OF this u] t show False by blast
  qed
  moreover obtain y t1 where m: "?m (s\<lparr>in_atomic := True\<rparr>) = (Inr y, t1)"
  proof (cases "?m (s\<lparr>in_atomic := True\<rparr>)")
    case (Pair res t1)
    show thesis
    proof (cases res)
      case (Inl e)
      have "unfulfilled o1 (s\<lparr>next_id := next_id t1, outbox := outbox t1\<rparr>)"
        by (rule unfulfilled_frame.table_only [OF u]) simp
      then show thesis using t Pair Inl by (simp add: thenP_def bindP_def atomicP_def)
    qed (use Pair that in simp)
  qed
  then have run: "thenP (atomicP ?m) (ret (NoCheckout o2)) s = (Inr (NoCheckout o2), leave_atomic s t1)"
    by (simp add: thenP_def bindP_def atomicP_def ret_def)
  have "same_costs s (s\<lparr>in_atomic := True\<rparr>)" by (simp add: same_costs_def)
  from keepsD [OF keeps_costs_fulfill [OF f] this] m have "same_costs s t1" by (metis snd_conv)
  then have "same_costs s (leave_atomic s t1)" by (simp add: same_costs_def)
  ultimately show ?thesis using run by simp
qed

lemma loses_complete_checkout:
  assumes f: "viewflow_contract (x_fsm x)"
  shows "loses (unfulfilled o1) (\<lambda>res t. res = Inr (NoCheckout o1) \<and> order_total t o1 = Inr 0)
    (complete_checkout x px user ip skipr b g)"
proof -
  have last: "loses (unfulfilled o1) (\<lambda>res t. res = Inr (NoCheckout o1) \<and> order_total t o1 = Inr 0)
     (bindP (gets (\<lambda>s. lines_of s o2)) (\<lambda>ls.
     bindP (liftE (\<lambda>s. mapE (line_discounted_price s) ls)) (\<lambda>prices.
     if sum_list prices = 0
     then thenP (atomicP (fulfill_completed_order x o2 zero_payment_data (Some b) False skipr)) (ret (NoCheckout o2))
     else start_payment px user ip b g order (map2 gateway_item_of ls prices))))" (is "loses _ _ ?m") for o2 order
  proof (rule losesI)
    fix s res t assume u: "unfulfilled o1 s" and m: "?m s = (res, t)" and t: "\<not> unfulfilled o1 t"
    show "res = Inr (NoCheckout o1) \<and> order_total t o1 = Inr 0"
    proof (cases "mapE (line_discounted_price s) (lines_of s o2)")
      case (Inl e)
      then show ?thesis using m t u by (simp add: liftE_bind)
    next
      case (Inr prices)
      let ?gis = "map2 gateway_item_of (lines_of s o2) prices"
      let ?free = "thenP (atomicP (fulfill_completed_order x o2 zero_payment_data (Some b) False skipr)) (ret (NoCheckout o2))"
      have "unfulfilled o1 (snd (start_payment px user ip b g order ?gis s))"
        by (rule keepsD [OF unfulfilled_frame.keeps_table_payment u])
      then have z: "sum_list prices = 0" and run: "?free s = (res, t)"
        using m t Inr by (auto simp: liftE_bind split: if_splits)
      have "\<not> unfulfilled o1 (snd (?free s))" using run t by simp
      from free_order_fulfilled [OF f u this] run
      have "o1 = o2" "res = Inr (NoCheckout o2)" "same_costs s t" by auto
      then show ?thesis using same_costs_total order_total_prices [OF Inr] z by metis
    qed
  qed
  show ?thesis
    unfolding complete_checkout_def
    by (intro loses_bindP loses_keeps last keeps_liftE unfulfilled_frame.keeps_table_order)
qed

lemma loses_checkout:
  assumes f: "viewflow_contract (x_fsm x)"
  shows "loses (unfulfilled o1) (\<lambda>res t. res = Inr (NoCheckout o1) \<and> order_total t o1 = Inr 0)
    (generate_checkout_payload x px user ip skip skipr g)"
  unfolding generate_checkout_payload_def
  by (intro loses_bindP loses_case_option loses_complete_checkout [OF f] keeps_gets keeps_ret
      unfulfilled_frame.keeps_table_basket unfulfilled_frame.keeps_table_refuse loses_keeps)

section \<open>What a response of CyberSource does\<close>

text \<open>The state that a response settles a pending order in.\<close>

definition response_target :: "processor_response \<Rightarrow> OrderStatus" where
  "response_target r =
     (case pr_state r of
        STATE_DECLINED \<Rightarrow> DECLINED
      | STATE_ERROR \<Rightarrow> ERRORED
      | STATE_CANCELLED \<Rightarrow> CANCELED
      | STATE_REVIEW \<Rightarrow> CANCELED
      | STATE_ACCEPTED \<Rightarrow> FULFILLED
      | _ \<Rightarrow> if is_code_100 (pr_response_code r) then FULFILLED else CANCELED)"

lemma response_target_settled: "response_target r \<noteq> PENDING"
  by (simp add: response_target_def split: processor_state.split)

lemma op_settles:
  assumes "viewflow_contract (x_fsm x)" "order_state s o1 = Some st" "run_order_op x o1 p s = (Inr (), t)"
  shows "in_state o1 (op_target p) t"
  by (rule run_order_op_cases [OF assms(1,2), of p]) (use assms(3) in \<open>auto simp: in_state_def\<close>)

lemma completed_settles:
  assumes f: "viewflow_contract (x_fsm x)" and st: "order_state s o1 = Some st"
    and run: "fulfill_completed_order x o1 d basket a r s = (Inr (), t)"
  shows "in_state o1 FULFILLED t"
proof -
  obtain s1 where s1: "fulfill x o1 d a r False s = (Inr (), s1)"
    and rest: "thenP (sync_hubspot_deal o1) (case basket of None \<Rightarrow> ret ()
        | Some b \<Rightarrow> bindP (liftE (\<lambda>s. bindE (get_order s o1) (compare_to_order s b)))
                     (\<lambda>same. whenP same (delete_basket b))) s1 = (Inr (), t)"
    using run unfolding fulfill_completed_order_def thenP_def
    by (auto simp: bindP_def split: prod.splits sum.splits)
  have "in_state o1 FULFILLED s1" using op_settles [OF f st, of "OpFulfill d a r False" s1] s1 by simp
  moreover have "keeps (in_state o1 FULFILLED) (thenP (sync_hubspot_deal o1) (case basket of None \<Rightarrow> ret ()
        | Some b \<Rightarrow> bindP (liftE (\<lambda>s. bindE (get_order s o1) (compare_to_order s b)))
                     (\<lambda>same. whenP same (delete_basket b))))"
    by (intro keeps_intro in_state_frame.keeps_table_sync in_state_frame.keeps_table_delete_basket)
  ultimately have "in_state o1 FULFILLED (snd (thenP (sync_hubspot_deal o1) (case basket of None \<Rightarrow> ret ()
        | Some b \<Rightarrow> bindP (liftE (\<lambda>s. bindE (get_order s o1) (compare_to_order s b)))
                     (\<lambda>same. whenP same (delete_basket b))) s1))" by (rule keepsD [rotated])
  then show ?thesis by (simp only: rest snd_conv)
qed

lemma from_response_settles:
  assumes f: "viewflow_contract (x_fsm x)" and st: "order_state s o1 = Some st"
    and run: "fulfill_from_response x o1 d s = (Inr (), t)"
  shows "in_state o1 FULFILLED t"
proof -
  obtain basket where "fulfill_completed_order x o1 d basket False False s = (Inr (), t)"
    using run by (auto simp: fulfill_from_response_def liftE_bind split: sum.splits)
  then show ?thesis by (rule completed_settles [OF f st])
qed

lemma apply_response_settles:
  assumes f: "viewflow_contract (x_fsm x)" and st: "order_state s o1 = Some st"
    and run: "apply_response x req o1 r s = (Inr (), t)"
  shows "in_state o1 (response_target r) t"
proof -
  note ops = op_settles [OF f st, of "OpCancel None" t] op_settles [OF f st, of OpDecline t]
    op_settles [OF f st, of "OpErrored None" t]
  show ?thesis
    using run ops from_response_settles [OF f st, of req t]
    by (auto simp: apply_response_def response_target_def split: processor_state.splits if_splits)
qed

lemma process_response_settles:
  assumes f: "viewflow_contract (x_fsm x)" and st: "order_state s o1 = Some st"
    and run: "process_cybersource_payment_response x px req o1 s = (Inr st', t)"
  shows "st' = response_target (px_response px req) \<and> in_state o1 st' t"
proof -
  let ?r = "px_response px req"
  obtain s1 order where s1: "apply_response x req o1 ?r s = (Inr (), s1)" "get_order s1 o1 = Inr order"
    and rest: "thenP (sync_hubspot_deal o1) (ret (ord_state order)) s1 = (Inr st', t)"
    using run unfolding process_cybersource_payment_response_def thenP_def
    by (auto simp: bindP_def liftE_def raise_def split: prod.splits sum.splits if_splits)
  have in1: "in_state o1 (response_target ?r) s1" by (rule apply_response_settles [OF f st s1(1)])
  then have o: "ord_state order = response_target ?r"
    using find_order_get [OF s1(2)] by (simp add: in_state_def order_state_def)
  have "keeps (in_state o1 (response_target ?r)) (thenP (sync_hubspot_deal o1) (ret (ord_state order)))"
    by (intro keeps_intro in_state_frame.keeps_table_sync)
  from keepsD [OF this in1] rest have "in_state o1 (response_target ?r) t" by simp
  moreover have "st' = ord_state order"
    using rest by (auto simp: thenP_def bindP_def ret_def split: prod.splits sum.splits)
  ultimately show ?thesis using o by simp
qed

text \<open>The settings are such a property of the database that no payment touches.\<close>

locale payment_frame = order_frame +
  assumes frame_orders: "P s \<Longrightarrow> P (s\<lparr>orders := os\<rparr>)"
    and frame_redemptions: "P s \<Longrightarrow> P (s\<lparr>redemptions := rs\<rparr>)"
    and frame_baskets: "P s \<Longrightarrow> P (s\<lparr>baskets := bs, basket_items := is, basket_discounts := ds\<rparr>)"
begin

lemma keeps_payment_sync: "keeps P (sync_hubspot_deal o1)"
  by (rule keeps_sync_hubspot_deal) (rule frame_outbox)

lemma keeps_payment_transition:
  assumes f: "viewflow_contract (x_fsm x)" and body: "keeps P body"
  shows "keeps P (transition x src target o1 body)"
proof -
  have put: "keeps P (set_order_state o1 st)" for st
    unfolding set_order_state_def update_order_def by (rule keeps_modify) (rule frame_orders)
  have save: "keeps P (save_order o1)"
    unfolding save_order_def update_order_def by (rule keeps_modify) (rule frame_orders)
  have "keeps P (thenP (set_order_state o1 target)
      (thenP (catchP body (\<lambda>e. thenP (set_order_state o1 st) (raise e))) (save_order o1)))" for st
    by (intro keeps_intro put save body)
  then show ?thesis
    unfolding transition_def viewflow_contractD [OF f] viewflow_run_def keeps_def
    by (auto split: option.split)
qed

lemma keeps_payment_ops:
  assumes f: "viewflow_contract (x_fsm x)"
  shows "keeps P (run_order_op x o1 p)"
proof -
  have "keeps P (modify (\<lambda>s. s\<lparr>redemptions := filter (\<lambda>r. rd_redeemed_order r \<noteq> o1) (redemptions s)\<rparr>))"
    by (rule keeps_modify) (rule frame_redemptions)
  then show ?thesis
    by (cases p) (simp_all add: cancel_def errored_def decline_def refund_def fulfill_def
        keeps_payment_transition [OF f] keeps_transaction_if_dict keeps_refund_body keeps_fulfill_body)
qed

lemma keeps_payment_completed:
  assumes f: "viewflow_contract (x_fsm x)"
  shows "keeps P (fulfill_completed_order x o1 d basket a r)"
proof -
  have "keeps P (delete_basket b)" for b
    unfolding delete_basket_def delete_baskets_def Let_def by (rule keeps_modify) (rule frame_baskets)
  moreover have "keeps P (fulfill x o1 d a r False)"
    using keeps_payment_ops [OF f, of o1 "OpFulfill d a r False"] by simp
  ultimately show ?thesis
    unfolding fulfill_completed_order_def by (intro keeps_intro keeps_payment_sync)
qed

lemma keeps_payment_response:
  assumes f: "viewflow_contract (x_fsm x)"
  shows "keeps P (process_cybersource_payment_response x px req o1)"
proof -
  note ops = keeps_payment_ops [OF f, of o1 "OpCancel None", simplified]
    keeps_payment_ops [OF f, of o1 OpDecline, simplified] keeps_payment_ops [OF f, of o1 "OpErrored None", simplified]
  have "keeps P (fulfill_from_response x o1 req)"
    unfolding fulfill_from_response_def by (intro keeps_intro keeps_payment_completed [OF f])
  then have "keeps P (apply_response x req o1 r)" for r
    using ops by (auto simp: apply_response_def split: processor_state.split)
  then show ?thesis
    unfolding process_cybersource_payment_response_def by (intro keeps_intro keeps_payment_sync)
qed

end

interpretation conf_frame: payment_frame "\<lambda>s. conf s = c" for c
  by unfold_locales simp_all

text \<open>Two deliveries of a response: the second finds the order settled and changes nothing.\<close>

lemma backoffice_settles:
  assumes f: "viewflow_contract (x_fsm x)" and out: "\<not> in_atomic s"
    and found: "get_order_from_cybersource_payment_response px req s = Inr (Some order)"
    and run: "backoffice_callback x px req s = (Inr (CallbackStatus 200), t)"
  shows "order_state t (ord_id order) =
      Some (if ord_state order = PENDING then response_target (px_response px req) else ord_state order)
    \<and> backoffice_callback x px req t = (Inr (CallbackStatus 200), t)"
proof -
  let ?s = "s\<lparr>in_atomic := True\<rparr>"
  let ?o = "ord_id order"
  have valid: "px_validate px req"
    using run by (cases "px_validate px req") (simp_all add: backoffice_callback_def ret_def)
  have fo: "find_order s ?o = Some order"
    using found find_order_id
    by (auto simp: get_order_from_cybersource_payment_response_def split: option.splits if_splits)
  have dec: "get_order_from_cybersource_payment_response px req u =
      (case parse_int (decode_reference_number s (px_reference px req)) of None \<Rightarrow> Inl PyValueError
       | Some i \<Rightarrow> Inr (if i < 0 then None else find_order u (nat i)))" if "conf u = conf s" for u
    using that by (simp add: get_order_from_cybersource_payment_response_def decode_reference_number_def)
  have at: "get_order_from_cybersource_payment_response px req u = Inr (find_order u ?o)" if "conf u = conf s" for u
    using found find_order_id dec [OF that] dec [of s] by (auto split: option.splits if_splits)
  have st: "order_state ?s ?o = Some (ord_state order)" using fo by (simp add: order_state_def find_order_def)
  have found': "get_order_from_cybersource_payment_response px req ?s = Inr (Some order)"
    using at [of ?s] fo by (simp add: find_order_def)
  let ?target = "if ord_state order = PENDING then response_target (px_response px req) else ord_state order"
  let ?m = "thenP (if ord_state order = PENDING
                   then bindP (process_cybersource_payment_response x px req ?o) (\<lambda>_. ret ()) else ret ())
              (ret (CallbackStatus 200))"
  obtain t1 where t: "t = leave_atomic s t1" and m: "?m ?s = (Inr (CallbackStatus 200), t1)"
    using run valid found'
    by (auto simp: backoffice_callback_def atomicP_def liftE_bind split: prod.splits sum.splits)
  have 1: "in_state ?o ?target t1 \<and> conf t1 = conf s"
  proof (cases "ord_state order = PENDING")
    case True
    obtain st' where p: "process_cybersource_payment_response x px req ?o ?s = (Inr st', t1)"
      using m True by (auto simp: thenP_def bindP_def ret_def split: prod.splits sum.splits)
    from process_response_settles [OF f st p] have "in_state ?o ?target t1" using True by auto
    moreover have "conf t1 = conf s"
      using keepsD [OF conf_frame.keeps_payment_response [OF f], of ?s "conf s" px req ?o] p by simp
    ultimately show ?thesis by simp
  next
    case False
    then show ?thesis using m st by (auto simp: thenP_def bindP_def ret_def in_state_def)
  qed
  then have t': "order_state t ?o = Some ?target" "conf t = conf s" "\<not> in_atomic t" "on_commit t = []"
    using out by (auto simp: t in_state_def order_state_def find_order_def leave_atomic_def)
  obtain order' where o': "find_order t ?o = Some order'" "ord_state order' = ?target"
    using t'(1) by (auto simp: order_state_def)
  have settled: "ord_state order' \<noteq> PENDING" using o'(2) response_target_settled by simp
  have "get_order_from_cybersource_payment_response px req (t\<lparr>in_atomic := True\<rparr>) = Inr (Some order')"
    using at [of "t\<lparr>in_atomic := True\<rparr>"] t'(2) o'(1) by (simp add: find_order_def)
  then have "backoffice_callback x px req t = (Inr (CallbackStatus 200), leave_atomic t (t\<lparr>in_atomic := True\<rparr>))"
    using valid settled by (simp add: backoffice_callback_def atomicP_def liftE_bind thenP_def ret_def)
       (simp add: bindP_def)
  moreover have "leave_atomic t (t\<lparr>in_atomic := True\<rparr>) = t"
    using t'(3,4) by (cases t) (simp add: leave_atomic_def)
  ultimately show ?thesis using t'(1) by simp
qed

end
