(* ===== verification/Payments.thy ===== *)
theory Payments
  imports Settlement
begin

text \<open>
  After the checkout: the events of Stripe, refunds, the resolution of orders that stay pending,
  the report on discounts redeemed too often and the generation of discount codes
  (\<open>src/ecommerce/api.py\<close>, \<open>src/ecommerce/hooks/stripe_webhooks.py\<close>).
\<close>

section \<open>Stripe\<close>

definition stripe_events_checkout_session :: "string list" where
  "stripe_events_checkout_session =
     [''checkout.session.completed'', ''checkout.session.expired'', ''checkout.session.async_payment_failed'',
      ''checkout.session.async_payment_succeeded'']"

datatype checkout_status = CsPending | CsPendingAction | CsPaid | CsCancelled | CsError

record session_status =
  ss_status :: checkout_status
  ss_cancel_reason :: string
  ss_action_reason :: string
  ss_payment_intent_id :: string
  ss_transaction :: json

text \<open>The status of a session whose payment has no intent, and of one that has.\<close>

definition status_without_intent :: "checkout_session \<Rightarrow> session_status" where
  "status_without_intent cs =
     (let st = (\<lambda>status reason. \<lparr>ss_status = status, ss_cancel_reason = reason, ss_action_reason = [],
                  ss_payment_intent_id = [], ss_transaction = cs_dict cs\<rparr>)
      in if cs_status cs = ''open'' \<or> cs_status cs = ''complete'' \<and> cs_payment_status cs = ''unpaid''
         then st CsPending []
         else if cs_status cs = ''complete'' \<and> cs_payment_status cs \<in> {''no_payment_required'', ''paid''}
         then st CsPaid []
         else if cs_status cs = ''expired'' \<and> cs_payment_status cs = ''unpaid''
         then st CsCancelled ''expired-unpaid''
         else st CsPending [])"

definition status_with_intent :: "checkout_session \<Rightarrow> string \<times> string \<times> string \<Rightarrow> session_status" where
  "status_with_intent cs intent =
     (case intent of (pid, status, reason) \<Rightarrow>
       let st = (\<lambda>status cancel action. \<lparr>ss_status = status, ss_cancel_reason = cancel,
                   ss_action_reason = action, ss_payment_intent_id = pid, ss_transaction = cs_dict cs\<rparr>)
       in if status = ''processing'' then st CsPending [] []
          else if status = ''succeeded'' then st CsPaid [] []
          else if status = ''cancelled'' then st CsCancelled reason []
          else st CsPendingAction [] status)"

definition process_stripe_checkout_session_status :: "processor \<Rightarrow> string \<Rightarrow> exn + session_status" where
  "process_stripe_checkout_session_status px session_id =
     (if session_id = [] then Inl PyValueError
      else bindE (px_session px session_id) (\<lambda>cs.
        Inr (case cs_payment_intent cs of None \<Rightarrow> status_without_intent cs | Some intent \<Rightarrow> status_with_intent cs intent)))"

text \<open>The constraint on the event type; the session is the event's object.\<close>

definition process_stripe_checkout_session_event :: "stripe_event \<Rightarrow> exn + unit" where
  "process_stripe_checkout_session_event ev =
     (if ev_type ev \<in> set stripe_events_checkout_session then Inr () else Inl PyValueError)"

definition log_stripe_event :: "stripe_event \<Rightarrow> nat option \<Rightarrow> unit op" where
  "log_stripe_event ev related = modify (\<lambda>s. s\<lparr>stripe_log := stripe_log s
     @ [\<lparr>sel_event_id = ev_id ev,
        sel_event_type = (case jget (ev_dict ev) ''type'' of Some (JStr t) \<Rightarrow> t | _ \<Rightarrow> ''invalid.event''),
        sel_event_data = ev_dict ev, sel_related_order = related\<rparr>]\<rparr>)"

definition relate_event :: "stripe_event \<Rightarrow> nat option \<Rightarrow> unit op" where
  "relate_event ev o1 = modify (\<lambda>s. s\<lparr>stripe_log :=
     update_rows (\<lambda>l. sel_event_id l = ev_id ev) (\<lambda>l. l\<lparr>sel_related_order := o1\<rparr>) (stripe_log s)\<rparr>)"

definition orders_with_reference :: "db \<Rightarrow> string option \<Rightarrow> Order list" where
  "orders_with_reference s refno = filter (\<lambda>r. ord_reference_number r = refno) (orders s)"

text \<open>What the status of the session does to the order.\<close>

definition apply_session_status :: "ext \<Rightarrow> json \<Rightarrow> checkout_status \<Rightarrow> nat \<Rightarrow> unit op" where
  "apply_session_status x d status o1 =
     (case status of
        CsCancelled \<Rightarrow> cancel x o1 (Some d)
      | CsError \<Rightarrow> errored x o1 (Some d)
      | CsPending \<Rightarrow> ret ()
      | CsPendingAction \<Rightarrow> ret ()
      | CsPaid \<Rightarrow> fulfill_from_response x o1 d)"

definition process_stripe_checkout_completed :: "ext \<Rightarrow> processor \<Rightarrow> stripe_event \<Rightarrow> nat option op" where
  "process_stripe_checkout_completed x px ev =
     bindP (liftE (\<lambda>_. process_stripe_checkout_session_event ev)) (\<lambda>_.
     bindP (liftE (\<lambda>_. process_stripe_checkout_session_status px (ev_session_id ev))) (\<lambda>status.
     bindP (gets (\<lambda>s. map_option ord_id (first (orders_with_reference s (ev_client_reference_id ev))))) (\<lambda>found.
     thenP (relate_event ev found)
     (case found of
        None \<Rightarrow> ret None
      | Some o1 \<Rightarrow>
          thenP (apply_session_status x (ev_dict ev) (ss_status status) o1) (ret (Some o1))))))"

definition process_stripe_checkout_expired :: "ext \<Rightarrow> stripe_event \<Rightarrow> nat op" where
  "process_stripe_checkout_expired x ev =
     bindP (liftE (\<lambda>_. process_stripe_checkout_session_event ev)) (\<lambda>_.
     bindP (liftE (\<lambda>s. get_one (orders_with_reference s (ev_client_reference_id ev)))) (\<lambda>order.
     thenP (relate_event ev (Some (ord_id order)))
       (thenP (cancel x (ord_id order) (Some (ev_dict ev))) (ret (ord_id order)))))"

text \<open>The hooks on \<open>stripe_event\<close>, the log first.\<close>

definition stripe_webhook :: "ext \<Rightarrow> processor \<Rightarrow> stripe_event \<Rightarrow> unit op" where
  "stripe_webhook x px ev =
     thenP (log_stripe_event ev None)
       (if ev_type ev = ''checkout.session.completed''
        then bindP (process_stripe_checkout_completed x px ev) (\<lambda>_. ret ())
        else if ev_type ev = ''checkout.session.expired''
        then bindP (process_stripe_checkout_expired x ev) (\<lambda>_. ret ())
        else ret ())"

section \<open>Refunds\<close>

text \<open>\<open>"paypal_token" in transaction_dict\<close>; the data of a transaction may be any JSON.\<close>

definition json_contains :: "json \<Rightarrow> string \<Rightarrow> exn + bool" where
  "json_contains j k =
     (case j of
        JObj kvs \<Rightarrow> Inr (k \<in> fst ` set kvs)
      | JArr xs \<Rightarrow> Inr (JStr k \<in> set xs)
      | JStr t \<Rightarrow> Inr (is_infix k t)
      | _ \<Rightarrow> Inl PyTypeError)"

definition find_order_to_refund :: "db \<Rightarrow> nat option \<Rightarrow> string option \<Rightarrow> exn + Order option" where
  "find_order_to_refund s order_id reference_number =
     (if reference_number \<noteq> None
      then bindE (get_one (orders_with_reference s reference_number)) (\<lambda>r. Inr (Some r))
      else case order_id of
        None \<Rightarrow> Inr None
      | Some i \<Rightarrow> bindE (get_order s i) (\<lambda>r. Inr (Some r)))"

text \<open>The payload of the payment with the amount to refund.\<close>

definition refund_request :: "json \<Rightarrow> rat option \<Rightarrow> exn + json" where
  "refund_request d refund_amount =
     bindE (json_contains d ''paypal_token'') (\<lambda>paypal.
       if paypal then Inl GenericException
       else case refund_amount of
         None \<Rightarrow> Inr d
       | Some a \<Rightarrow> if a = 0 then Inr d
                   else if is_dict (Some d) then Inr (jset d ''req_amount'' (JNum a)) else Inl PyTypeError)"

text \<open>The result is the flag of the returned pair; the message is only logged and shown.\<close>

definition refund_order ::
  "ext \<Rightarrow> processor \<Rightarrow> nat option \<Rightarrow> string option \<Rightarrow> rat option \<Rightarrow> string \<Rightarrow> bool \<Rightarrow> bool op" where
  "refund_order x px order_id reference_number refund_amount refund_reason unenroll =
     bindP (liftE (\<lambda>s. find_order_to_refund s order_id reference_number)) (\<lambda>found.
     case found of
       None \<Rightarrow> ret False
     | Some order \<Rightarrow>
         if ord_state order \<noteq> FULFILLED then ret False
         else bindP (gets (\<lambda>s. first (transactions_of s (ord_id order)))) (\<lambda>payment.
           case payment of
             None \<Rightarrow> ret False
           | Some t \<Rightarrow>
               bindP (liftE (\<lambda>_. refund_request (tx_data t) refund_amount)) (\<lambda>d.
               bindP (liftE (\<lambda>_. px_refund px d)) (\<lambda>response.
               if pr_state response \<in> {STATE_ACCEPTED, STATE_PENDING}
               then (case jget d ''req_amount'' of
                       None \<Rightarrow> raise PyKeyError
                     | Some a \<Rightarrow>
                         thenP (refund x (ord_id order) (Some (pr_response_data response)) (Some a) refund_reason)
                           (thenP (whenP unenroll (emit (QueueDowngrade (ord_id order)))) (ret True)))
               else raise GenericException))))"

section \<open>Orders that stay pending\<close>

text \<open>A dictionary from reference numbers to payloads, in insertion order.\<close>

type_synonym resolution = "(string option \<times> json) list"

fun sort_cybersource_payloads :: "json list \<Rightarrow> resolution \<times> resolution \<Rightarrow> exn + resolution \<times> resolution" where
  "sort_cybersource_payloads [] acc = Inr acc"
| "sort_cybersource_payloads (p # ps) (completed, cancelled) =
     (case (jget p ''reason_code'', jget p ''req_reference_number'') of
        (Some code, refno) \<Rightarrow>
          bindE (json_int code) (\<lambda>n.
            case refno of
              None \<Rightarrow> Inl PyKeyError
            | Some r \<Rightarrow>
                bindE (if r = JNull then Inr None else bindE (column_text r) (\<lambda>t. Inr (Some t))) (\<lambda>k.
                  if n = 100 then sort_cybersource_payloads ps (AList.update k p completed, cancelled)
                  else sort_cybersource_payloads ps (completed, AList.update k p cancelled)))
      | (None, _) \<Rightarrow> Inl PyKeyError)"

definition retrieve_pending_cybersource_orders :: "processor \<Rightarrow> Order list \<Rightarrow> exn + resolution \<times> resolution" where
  "retrieve_pending_cybersource_orders px os =
     (if os = [] then Inr ([], [])
      else sort_cybersource_payloads (map snd (px_find_transactions px (map ord_reference_number os))) ([], []))"

text \<open>The id of the session that the checkout logged for the order.\<close>

definition logged_session :: "db \<Rightarrow> Order \<Rightarrow> string option" where
  "logged_session s r =
     (case first (filter (\<lambda>t. tx_reason t = initial_checkoutsession) (transactions_of s (ord_id r))) of
        None \<Rightarrow> None
      | Some t \<Rightarrow>
          if jget (tx_data t) ''object'' = Some (JStr ''checkout.session'')
          then (case jget (tx_data t) ''id'' of Some (JStr i) \<Rightarrow> if i = [] then None else Some i | _ \<Rightarrow> None)
          else None)"

fun sort_stripe_orders :: "processor \<Rightarrow> db \<Rightarrow> Order list \<Rightarrow> resolution \<times> resolution \<Rightarrow> exn + resolution \<times> resolution"
  where
  "sort_stripe_orders px s [] acc = Inr acc"
| "sort_stripe_orders px s (r # rs) (completed, cancelled) =
     (case logged_session s r of
        None \<Rightarrow> sort_stripe_orders px s rs (completed, cancelled)
      | Some i \<Rightarrow>
          bindE (process_stripe_checkout_session_status px i) (\<lambda>st.
            if ss_status st = CsCancelled
            then sort_stripe_orders px s rs
                   (completed, AList.update (ord_reference_number r) (ss_transaction st) cancelled)
            else if ss_status st = CsPaid
            then sort_stripe_orders px s rs
                   (AList.update (ord_reference_number r) (ss_transaction st) completed, cancelled)
            else sort_stripe_orders px s rs (completed, cancelled)))"

definition retrieve_pending_stripe_orders :: "processor \<Rightarrow> db \<Rightarrow> Order list \<Rightarrow> exn + resolution \<times> resolution" where
  "retrieve_pending_stripe_orders px s os = sort_stripe_orders px s os ([], [])"

text \<open>\<open>{**a, **b}\<close>\<close>

definition dict_union :: "resolution \<Rightarrow> resolution \<Rightarrow> resolution" where
  "dict_union a b = foldl (\<lambda>d kv. AList.update (fst kv) (snd kv) d) a b"

definition pending_with_reference :: "db \<Rightarrow> string option \<Rightarrow> Order list" where
  "pending_with_reference s refno = filter (\<lambda>r. ord_state r = PENDING) (orders_with_reference s refno)"

text \<open>One order of a bucket: any exception is logged and counted.\<close>

definition resolve_one :: "(nat \<Rightarrow> json \<Rightarrow> unit op) \<Rightarrow> string option \<times> json \<Rightarrow> bool op" where
  "resolve_one act entry =
     catchP (bindP (liftE (\<lambda>s. get_one (pending_with_reference s (fst entry)))) (\<lambda>order.
             thenP (act (ord_id order) (snd entry))
             (thenP (sync_hubspot_deal (ord_id order)) (ret True))))
       (\<lambda>_. ret False)"

text \<open>The counts: resolved, and failed.\<close>

fun resolve_all :: "(nat \<Rightarrow> json \<Rightarrow> unit op) \<Rightarrow> resolution \<Rightarrow> (nat \<times> nat) op" where
  "resolve_all act [] = ret (0, 0)"
| "resolve_all act (e # es) =
     bindP (resolve_one act e) (\<lambda>ok.
     bindP (resolve_all act es) (\<lambda>(n, failed). ret (if ok then (Suc n, failed) else (n, Suc failed))))"

definition pending_orders :: "db \<Rightarrow> string list \<Rightarrow> Order list" where
  "pending_orders s refnos =
     filter (\<lambda>r. ord_state r = PENDING
               \<and> (refnos = [] \<or> (case ord_reference_number r of None \<Rightarrow> False | Some n \<Rightarrow> n \<in> set refnos)))
       (orders s)"

definition resolution_buckets :: "processor \<Rightarrow> Order list \<Rightarrow> bool \<Rightarrow> db \<Rightarrow> exn + resolution \<times> resolution" where
  "resolution_buckets px os check_status s =
     (if check_status
      then bindE (retrieve_pending_cybersource_orders px (filter (\<lambda>r. ord_gateway_type r = GW_CYBERSOURCE) os))
        (\<lambda>(cs_ok, cs_cancel).
        bindE (retrieve_pending_stripe_orders px s (filter (\<lambda>r. ord_gateway_type r = GW_STRIPE) os))
          (\<lambda>(st_ok, st_cancel). Inr (dict_union cs_ok st_ok, dict_union cs_cancel st_cancel)))
      else Inr (foldl (\<lambda>d r. AList.update (ord_reference_number r) admin_fulfilled_payment_data d) [] os, []))"

definition check_and_process_pending_orders_for_resolution ::
  "ext \<Rightarrow> processor \<Rightarrow> string list \<Rightarrow> bool \<Rightarrow> bool \<Rightarrow> (nat \<times> nat \<times> nat) op" where
  "check_and_process_pending_orders_for_resolution x px refnos check_status skip_fulfillment =
     bindP (gets (\<lambda>s. pending_orders s refnos)) (\<lambda>os.
     if os = [] then ret (0, 0, 0)
     else bindP (liftE (resolution_buckets px os check_status)) (\<lambda>(success, cancelled).
       bindP (resolve_all (\<lambda>o1 d. fulfill x o1 d False False skip_fulfillment) success) (\<lambda>(n, failed).
       bindP (resolve_all (\<lambda>o1 d. cancel x o1 (Some d)) cancelled) (\<lambda>(m, failed2).
         ret (n, m, failed + failed2)))))"

section \<open>Discounts redeemed too often\<close>

definition check_for_duplicate_discount_redemptions :: "db \<Rightarrow> nat list" where
  "check_for_duplicate_discount_redemptions s =
     (let fulfilled = (\<lambda>r. order_state s (rd_redeemed_order r) = Some FULFILLED);
          once = (\<lambda>d. disc_redemption_type d \<in> {ONE_TIME, ONE_TIME_PER_USER})
      in foldl (\<lambda>seen r. let d = rd_redeemed_discount r in
             if disc_id d \<in> set seen then seen
             else if length (fulfilled_redemptions s d) > 1 then seen @ [disc_id d] else seen)
           [] (filter (\<lambda>r. once (rd_redeemed_discount r) \<and> fulfilled r) (redemptions s)))"

section \<open>Generating discount codes\<close>

record code_request =
  cq_discount_type :: discount_type
  cq_payment_type :: "payment_type option"
  cq_amount :: json
  cq_redemption_type :: "redemption_type option"
  cq_one_time :: bool
  cq_once_per_user :: bool
  cq_activates :: "string option"
  cq_expires :: "string option"
  cq_count :: nat
  cq_prefix :: "string option"
  cq_codes :: "string list option"

text \<open>The codes: a batch needs a prefix, a single code is given by the caller.\<close>

fun uuid_codes :: "string \<Rightarrow> nat \<Rightarrow> string list op" where
  "uuid_codes prefix 0 = ret []"
| "uuid_codes prefix (Suc n) =
     bindP uuid4 (\<lambda>u. bindP (uuid_codes prefix n) (\<lambda>cs. ret ((prefix @ u) # cs)))"

definition codes_to_generate :: "code_request \<Rightarrow> string list op" where
  "codes_to_generate q =
     (if cq_count q > 1
      then (case cq_prefix q of
              None \<Rightarrow> raise GenericException
            | Some prefix \<Rightarrow> if length prefix > 63 then raise GenericException else uuid_codes prefix (cq_count q))
      else (case cq_codes q of None \<Rightarrow> raise PyKeyError | Some cs \<Rightarrow> ret cs))"

definition requested_redemption_type :: "code_request \<Rightarrow> redemption_type" where
  "requested_redemption_type q =
     (if cq_redemption_type q \<noteq> None \<and> cq_redemption_type q \<noteq> Some OTHER_REDEMPTION_TYPE
      then the (cq_redemption_type q)
      else if cq_once_per_user q then ONE_TIME_PER_USER
      else if cq_one_time q then ONE_TIME else UNLIMITED)"

definition requested_date :: "(string \<Rightarrow> exn + int) \<Rightarrow> string option \<Rightarrow> exn + int option" where
  "requested_date parse d = (case d of None \<Rightarrow> Inr None | Some t \<Rightarrow> bindE (parse t) (\<lambda>n. Inr (Some n)))"

definition check_code_request :: "code_request \<Rightarrow> exn + rat" where
  "check_code_request q =
     bindE (json_decimal (cq_amount q)) (\<lambda>amount.
       if cq_discount_type q = OTHER_DISCOUNT_TYPE then Inl GenericException
       else if cq_payment_type q = None then Inl GenericException
       else if cq_discount_type q = PERCENT_OFF \<and> amount > 100 then Inl GenericException
       else Inr amount)"

definition generated_discount :: "code_request \<Rightarrow> rat \<Rightarrow> int option \<Rightarrow> int option \<Rightarrow> string \<Rightarrow> Discount" where
  "generated_discount q amount expires activates code =
     \<lparr>disc_id = 0, disc_amount = amount, disc_automatic = False, disc_type = cq_discount_type q,
      disc_redemption_type = requested_redemption_type q, disc_payment_type = cq_payment_type q,
      disc_max_redemptions = Some 0, disc_code = code, disc_activation_date = activates,
      disc_expiration_date = expires, disc_is_bulk = True, disc_is_program_discount = Some False\<rparr>"

fun create_discounts :: "Discount list \<Rightarrow> Discount list op" where
  "create_discounts [] = ret []"
| "create_discounts (d # ds) =
     bindP (create_discount d) (\<lambda>d. bindP (create_discounts ds) (\<lambda>ds. ret (d # ds)))"

definition generate_discount_code :: "(string \<Rightarrow> exn + int) \<Rightarrow> code_request \<Rightarrow> Discount list op" where
  "generate_discount_code parse q =
     bindP (liftE (\<lambda>_. check_code_request q)) (\<lambda>amount.
     bindP (codes_to_generate q) (\<lambda>codes.
     bindP (liftE (\<lambda>_. requested_date parse (cq_expires q))) (\<lambda>expires.
     bindP (liftE (\<lambda>_. requested_date parse (cq_activates q))) (\<lambda>activates.
       create_discounts (map (generated_discount q amount expires activates) codes)))))"

section \<open>Stripe fulfils what was paid\<close>

text \<open>The session says that nothing is left to pay: its payment succeeded, or it is complete
  without a payment intent and was paid or needs no payment.\<close>

definition session_paid :: "checkout_session \<Rightarrow> bool" where
  "session_paid cs \<longleftrightarrow>
     (case cs_payment_intent cs of
        None \<Rightarrow> cs_status cs = ''complete'' \<and> cs_payment_status cs \<in> {''no_payment_required'', ''paid''}
      | Some (pid, status, reason) \<Rightarrow> status = ''succeeded'')"

lemma status_of_session:
  "ss_status (status_without_intent cs) = CsPaid \<longleftrightarrow>
     cs_status cs = ''complete'' \<and> cs_payment_status cs \<in> {''no_payment_required'', ''paid''}"
  "ss_status (status_without_intent cs) \<noteq> CsError"
  "ss_status (status_with_intent cs (pid, st, reason)) = CsPaid \<longleftrightarrow> st = ''succeeded''"
  "ss_status (status_with_intent cs (pid, st, reason)) \<noteq> CsError"
  by (auto simp: status_without_intent_def status_with_intent_def Let_def)

lemma stripe_status_paid:
  assumes "process_stripe_checkout_session_status px i = Inr st"
  shows "ss_status st = CsPaid \<longleftrightarrow> (\<exists>cs. px_session px i = Inr cs \<and> session_paid cs)"
proof -
  obtain cs where cs: "px_session px i = Inr cs" and st: "st =
      (case cs_payment_intent cs of None \<Rightarrow> status_without_intent cs | Some intent \<Rightarrow> status_with_intent cs intent)"
    using assms by (auto simp: process_stripe_checkout_session_status_def bindE_eq_Inr split: if_splits)
  have "ss_status st = CsPaid \<longleftrightarrow> session_paid cs"
  proof (cases "cs_payment_intent cs")
    case None
    then show ?thesis by (simp add: st session_paid_def status_of_session)
  next
    case (Some intent)
    then show ?thesis by (cases intent) (simp add: st session_paid_def status_of_session)
  qed
  then show ?thesis using cs by simp
qed

lemma stripe_status_not_error:
  "process_stripe_checkout_session_status px i = Inr st \<Longrightarrow> ss_status st \<noteq> CsError"
  by (auto simp: process_stripe_checkout_session_status_def bindE_eq_Inr status_of_session
      split: option.splits if_splits)

lemma loses_from_response:
  assumes f: "viewflow_contract (x_fsm x)"
  shows "loses (unfulfilled o1) (\<lambda>_ _. o1 = o2) (fulfill_from_response x o2 d)"
proof (cases "o1 = o2")
  case False
  then have "keeps (unfulfilled o1) (fulfill_from_response x o2 d)"
    unfolding fulfill_from_response_def by (intro keeps_intro keeps_unfulfilled_completed [OF f])
  then show ?thesis by (rule loses_keeps)
qed (simp add: loses_def)

lemma keeps_relate: "keeps (unfulfilled o1) (relate_event ev o2)" "keeps (unfulfilled o1) (log_stripe_event ev o2)"
  unfolding relate_event_def log_stripe_event_def
  by (auto intro!: unfulfilled_frame.keeps_table_modify)

lemma keeps_session_status:
  assumes f: "viewflow_contract (x_fsm x)" and "status \<noteq> CsPaid \<or> o1 \<noteq> o2"
  shows "keeps (unfulfilled o1) (apply_session_status x d status o2)"
proof -
  have "keeps (unfulfilled o1) (fulfill_from_response x o2 d)" if "o1 \<noteq> o2"
    using loses_from_response [OF f, of o1 o2 d] that by (auto simp: loses_def keeps_def)
  then show ?thesis
    using assms(2) keeps_unfulfilled_ops [OF f] by (cases status) (simp_all add: apply_session_status_def keeps_ret)
qed

lemma keeps_stripe_expired:
  "viewflow_contract (x_fsm x) \<Longrightarrow> keeps (unfulfilled o1) (process_stripe_checkout_expired x ev)"
  unfolding process_stripe_checkout_expired_def
  by (intro keeps_intro keeps_relate keeps_unfulfilled_ops)

text \<open>The order that an event is about.\<close>

definition order_of_event :: "stripe_event \<Rightarrow> db \<Rightarrow> nat option" where
  "order_of_event ev s = map_option ord_id (first (orders_with_reference s (ev_client_reference_id ev)))"

lemma stripe_completed_run:
  "process_stripe_checkout_completed x px ev s =
    (case process_stripe_checkout_session_event ev of
       Inl e \<Rightarrow> (Inl e, s)
     | Inr _ \<Rightarrow> (case process_stripe_checkout_session_status px (ev_session_id ev) of
         Inl e \<Rightarrow> (Inl e, s)
       | Inr status \<Rightarrow> thenP (relate_event ev (order_of_event ev s))
           (case order_of_event ev s of
              None \<Rightarrow> ret None
            | Some o1 \<Rightarrow> thenP (apply_session_status x (ev_dict ev) (ss_status status) o1) (ret (Some o1))) s))"
  by (simp add: process_stripe_checkout_completed_def liftE_bind order_of_event_def split: sum.split)

lemma stripe_completed_fulfils:
  assumes f: "viewflow_contract (x_fsm x)" and u: "unfulfilled o1 s"
    and t: "\<not> unfulfilled o1 (snd (process_stripe_checkout_completed x px ev s))"
  shows "order_of_event ev s = Some o1 \<and> (\<exists>cs. px_session px (ev_session_id ev) = Inr cs \<and> session_paid cs)"
proof -
  obtain status where status: "process_stripe_checkout_session_status px (ev_session_id ev) = Inr status"
    and t': "\<not> unfulfilled o1 (snd (thenP (relate_event ev (order_of_event ev s))
           (case order_of_event ev s of
              None \<Rightarrow> ret None
            | Some o1 \<Rightarrow> thenP (apply_session_status x (ev_dict ev) (ss_status status) o1) (ret (Some o1))) s))"
    using t u by (auto simp: stripe_completed_run split: sum.splits)
  have "\<not> (\<forall>o2. order_of_event ev s = Some o2 \<longrightarrow> ss_status status \<noteq> CsPaid \<or> o1 \<noteq> o2)"
  proof
    assume no: "\<forall>o2. order_of_event ev s = Some o2 \<longrightarrow> ss_status status \<noteq> CsPaid \<or> o1 \<noteq> o2"
    have "keeps (unfulfilled o1) (thenP (relate_event ev (order_of_event ev s))
           (case order_of_event ev s of
              None \<Rightarrow> ret None
            | Some o1 \<Rightarrow> thenP (apply_session_status x (ev_dict ev) (ss_status status) o1) (ret (Some o1))))"
      using no by (intro keeps_thenP keeps_relate keeps_case_option keeps_ret keeps_session_status [OF f]) auto
    from keepsD [OF this u] t' show False by blast
  qed
  then show ?thesis using stripe_status_paid [OF status] by blast
qed

lemma stripe_webhook_fulfils:
  assumes f: "viewflow_contract (x_fsm x)" and u: "unfulfilled o1 s"
    and run: "stripe_webhook x px ev s = (res, t)" and t: "\<not> unfulfilled o1 t"
  shows "ev_type ev = ''checkout.session.completed'' \<and> order_of_event ev s = Some o1
    \<and> (\<exists>cs. px_session px (ev_session_id ev) = Inr cs \<and> session_paid cs)"
proof -
  let ?s = "snd (log_stripe_event ev None s)"
  have s: "log_stripe_event ev None s = (Inr (), ?s)" "orders ?s = orders s"
    by (simp_all add: log_stripe_event_def modify_def)
  have us: "unfulfilled o1 ?s" by (rule unfulfilled_frame.table_only [OF u s(2)])
  have tail: "snd (bindP m (\<lambda>_. ret ()) s) = snd (m s)" for m :: "'a op" and s
    by (simp add: bindP_def ret_def split: prod.split sum.split)
  have r: "snd (ret () ?s) = ?s" by (simp add: ret_def)
  have "\<not> unfulfilled o1 (snd (stripe_webhook x px ev s))" using run t by simp
  then have "ev_type ev = ''checkout.session.completed''
      \<and> \<not> unfulfilled o1 (snd (process_stripe_checkout_completed x px ev ?s))"
    unfolding stripe_webhook_def thenP_Inr [where m = "log_stripe_event ev None" and s = s, OF s(1)]
    using keepsD [OF keeps_stripe_expired [OF f] us] us
    by (auto simp: tail r split: if_splits)
  moreover have "order_of_event ev ?s = order_of_event ev s"
    using s(2) by (simp add: order_of_event_def orders_with_reference_def)
  ultimately show ?thesis using stripe_completed_fulfils [OF f us, of px ev] by auto
qed

section \<open>Refunds follow the processor\<close>

text \<open>What an order can be refunded for: it is fulfilled, has a payment, and the processor accepted
  the refund of the amount asked for.\<close>

definition refund_accepted ::
  "processor \<Rightarrow> db \<Rightarrow> nat option \<Rightarrow> string option \<Rightarrow> rat option \<Rightarrow> Order \<Rightarrow> processor_response \<Rightarrow> json \<Rightarrow> bool"
  where
  "refund_accepted px s oid refno amount order response a \<longleftrightarrow>
     find_order_to_refund s oid refno = Inr (Some order) \<and> ord_state order = FULFILLED
     \<and> (\<exists>p d. first (transactions_of s (ord_id order)) = Some p \<and> refund_request (tx_data p) amount = Inr d
          \<and> px_refund px d = Inr response \<and> jget d ''req_amount'' = Some a)
     \<and> pr_state response \<in> {STATE_ACCEPTED, STATE_PENDING}"

lemma refund_order_run:
  assumes "refund_order x px oid refno amount reason unenroll s = (res, t)"
  shows "t = s \<and> res \<noteq> Inr True \<or> (\<exists>order response a. refund_accepted px s oid refno amount order response a
      \<and> thenP (refund x (ord_id order) (Some (pr_response_data response)) (Some a) reason)
          (thenP (whenP unenroll (emit (QueueDowngrade (ord_id order)))) (ret True)) s = (res, t))"
proof (cases "\<exists>order response a. refund_accepted px s oid refno amount order response a")
  case True
  then obtain order response a where acc: "refund_accepted px s oid refno amount order response a" by blast
  then obtain p d where d: "find_order_to_refund s oid refno = Inr (Some order)" "ord_state order = FULFILLED"
    "first (transactions_of s (ord_id order)) = Some p" "refund_request (tx_data p) amount = Inr d"
    "px_refund px d = Inr response" "jget d ''req_amount'' = Some a" "pr_state response \<in> {STATE_ACCEPTED, STATE_PENDING}"
    by (auto simp: refund_accepted_def)
  have "refund_order x px oid refno amount reason unenroll s =
      thenP (refund x (ord_id order) (Some (pr_response_data response)) (Some a) reason)
        (thenP (whenP unenroll (emit (QueueDowngrade (ord_id order)))) (ret True)) s"
    using d by (simp add: refund_order_def liftE_bind)
  then show ?thesis using acc assms by auto
next
  case False
  then have "t = s \<and> res \<noteq> Inr True"
    using assms unfolding refund_order_def refund_accepted_def
    by (auto simp: liftE_bind ret_def raise_def split: sum.splits option.splits if_splits)
  then show ?thesis by simp
qed

text \<open>The refund as it is recorded: with the data and the reason it was made for, and its amount.\<close>

definition refund_recorded :: "db \<Rightarrow> nat \<Rightarrow> json \<Rightarrow> json \<Rightarrow> string \<Rightarrow> bool" where
  "refund_recorded t o1 d a reason \<longleftrightarrow> exists_row (\<lambda>tx. tx_order tx = o1 \<and> tx_type tx = TX_REFUND \<and> tx_data tx = d
     \<and> tx_reason tx = reason \<and> column_amount_of a = Inr (tx_amount tx)) (transactions t)"

lemma refund_transaction_run:
  assumes "get_or_create_transaction o1
       (\<lambda>t. tx_transaction_id t = tid \<and> tx_data t = d \<and> tx_type t = TX_REFUND \<and> tx_reason t = reason
            \<and> column_amount_of a = Inr (tx_amount t)) tid a d TX_REFUND reason s = (r, t)"
  shows "orders t = orders s \<and> outbox t = outbox s
    \<and> (case r of Inl e \<Rightarrow> transactions t = transactions s | Inr tx \<Rightarrow> refund_recorded t o1 d a reason)"
proof -
  let ?m = "\<lambda>t. tx_transaction_id t = tid \<and> tx_data t = d \<and> tx_type t = TX_REFUND \<and> tx_reason t = reason
            \<and> column_amount_of a = Inr (tx_amount t)"
  show ?thesis
  proof (cases "get_one (filter ?m (transactions_of s o1))")
    case (Inr tx)
    then have "tx \<in> set (filter ?m (transactions_of s o1))" by simp
    then have "tx \<in> set (transactions s)" "tx_order tx = o1" "?m tx" by (auto simp: transactions_of_def)
    then have "refund_recorded s o1 d a reason" by (auto simp: refund_recorded_def exists_row_iff)
    moreover have "(r, t) = (Inr tx, s)" using assms Inr by (simp add: get_or_create_transaction_def)
    ultimately show ?thesis by simp
  next
    case (Inl e)
    then show ?thesis using assms
      by (auto simp: get_or_create_transaction_def Let_def refund_recorded_def exists_row_iff split: if_splits sum.splits)
  qed
qed

lemma refund_body_run:
  assumes "refund_body o1 (Some d) (Some a) reason s = (r, t)"
  shows "orders t = orders s
    \<and> (case r of Inl e \<Rightarrow> outbox t = outbox s \<and> transactions t = transactions s
       | Inr u \<Rightarrow> outbox t = outbox s @ [SendOrderRefundEmail o1] \<and> refund_recorded t o1 d a reason)"
proof -
  let ?tid = "if jtruthy (Some d) then jget d ''id'' else None"
  show ?thesis
  proof (cases "jtruthy (Some d) \<and> \<not> is_dict (Some d) \<or> ?tid = None \<or> ?tid = Some JNull
      \<or> (\<exists>e. column_text (the ?tid) = Inl e)")
    case True
    then have "t = s \<and> isl r" using assms
      by (auto simp: refund_body_def Let_def raise_def liftE_bind split: if_splits)
    then show ?thesis by (cases r) simp_all
  next
    case False
    then obtain tid where tid: "column_text (the ?tid) = Inr tid" by (cases "column_text (the ?tid)") auto
    let ?m = "\<lambda>t. tx_transaction_id t = tid \<and> tx_data t = d \<and> tx_type t = TX_REFUND \<and> tx_reason t = reason
            \<and> column_amount_of a = Inr (tx_amount t)"
    obtain q u where g: "get_or_create_transaction o1 ?m tid a d TX_REFUND reason s = (q, u)" by fastforce
    have "jtruthy (Some d)" "is_dict (Some d)" using False by (auto split: if_splits)
    then have "refund_body o1 (Some d) (Some a) reason s
        = bindP (get_or_create_transaction o1 ?m tid a d TX_REFUND reason) (\<lambda>_. emit (SendOrderRefundEmail o1)) s"
      using False tid by (auto simp: refund_body_def Let_def liftE_bind)
    then have "(r, t) = (case q of Inl e \<Rightarrow> (Inl e, u) | Inr tx \<Rightarrow> emit (SendOrderRefundEmail o1) u)"
      using assms g by (cases q) (simp_all add: bindP_def)
    then show ?thesis using refund_transaction_run [OF g]
      by (cases q) (auto simp: emit_def modify_def refund_recorded_def)
  qed
qed

text \<open>The transition: the order is refunded, or nothing but what \<open>save\<close> may fill in is written.\<close>

lemma refund_run:
  assumes f: "viewflow_contract (x_fsm x)" and run: "refund x o1 (Some d) (Some a) reason s = (r, t)"
  shows "(\<forall>o2. o2 \<noteq> o1 \<longrightarrow> find_order t o2 = find_order s o2)
    \<and> (case r of
         Inl e \<Rightarrow> order_state t o1 = order_state s o1 \<and> outbox t = outbox s \<and> transactions t = transactions s
       | Inr u \<Rightarrow> order_state s o1 = Some FULFILLED \<and> order_state t o1 = Some REFUNDED
           \<and> outbox t = outbox s @ [SendOrderRefundEmail o1] \<and> refund_recorded t o1 d a reason)"
proof (cases "order_state s o1 = Some FULFILLED")
  case False
  then have "t = s \<and> isl r"
    using run by (auto simp: refund_def transition_def viewflow_contractD [OF f] viewflow_run_def split: option.splits)
  then show ?thesis by (cases r) simp_all
next
  case True
  let ?put = "\<lambda>st. update_order o1 (\<lambda>r. r\<lparr>ord_state := st\<rparr>)"
  let ?s1 = "?put REFUNDED s"
  obtain q u where b: "refund_body o1 (Some d) (Some a) reason ?s1 = (q, u)" by fastforce
  note body = refund_body_run [OF b]
  have orders: "find_order u o2 = find_order ?s1 o2" for o2 using body by (simp add: find_order_def)
  have eq: "(r, t) = thenP (catchP (refund_body o1 (Some d) (Some a) reason)
      (\<lambda>e. thenP (set_order_state o1 FULFILLED) (raise e))) (save_order o1) ?s1"
    using run True by (simp add: refund_def transition_def viewflow_contractD [OF f] viewflow_run_def thenP_def bindP_def
        set_order_state_def modify_def)
  have frame: "outbox (update_order o1 g v) = outbox v" "transactions (update_order o1 g v) = transactions v" for g v
    by (simp_all add: update_order_def)
  have other: "find_order (update_order o1 g v) o2 = find_order v o2" if "o2 \<noteq> o1" "\<And>r. ord_id (g r) = ord_id r" for g v o2
    using that by (simp add: find_order_update)
  show ?thesis
  proof (cases q)
    case (Inl e)
    then have r: "r = Inl e" "t = ?put FULFILLED u"
      using eq b by (simp_all add: thenP_def bindP_def catchP_def raise_def set_order_state_def modify_def)
    have "order_state t o1 = Some FULFILLED" using True orders
      by (auto simp: r order_state_def find_order_update)
    then show ?thesis using r body Inl True orders other by (simp add: frame)
  next
    case (Inr y)
    let ?fill = "\<lambda>n r. case ord_reference_number r of None \<Rightarrow> r\<lparr>ord_reference_number := Some n\<rparr> | Some _ \<Rightarrow> r"
    obtain n where r: "r = Inr ()" "t = update_order o1 (?fill n) u"
      using eq b Inr by (auto simp: thenP_def bindP_def catchP_def save_order_def modify_def)
    have fill: "ord_id (?fill n z) = ord_id z" "ord_state (?fill n z) = ord_state z" for z by (simp_all split: option.split)
    have "order_state t o1 = Some REFUNDED" using True orders
      unfolding r by (simp add: order_state_update fill) (auto simp: order_state_def find_order_update)
    moreover have "find_order t o2 = find_order s o2" if "o2 \<noteq> o1" for o2
      using other [OF that fill(1)] other [OF that, where g = "\<lambda>r. r\<lparr>ord_state := REFUNDED\<rparr>"] orders unfolding r by simp
    ultimately show ?thesis using r body Inr True by (simp add: frame refund_recorded_def)
  qed
qed

text \<open>What refunding an order comes to.\<close>

lemma refund_order_outcome:
  assumes f: "viewflow_contract (x_fsm x)"
    and run: "refund_order x px oid refno amount reason unenroll s = (res, t)"
  shows "t = s \<and> res \<noteq> Inr True
    \<or> (\<exists>order response a. refund_accepted px s oid refno amount order response a
        \<and> (\<forall>o2. o2 \<noteq> ord_id order \<longrightarrow> find_order t o2 = find_order s o2)
        \<and> (case res of
             Inl e \<Rightarrow> order_state t (ord_id order) = order_state s (ord_id order) \<and> transactions t = transactions s
               \<and> outbox t = outbox s
           | Inr b \<Rightarrow> b \<and> order_state s (ord_id order) = Some FULFILLED \<and> order_state t (ord_id order) = Some REFUNDED
               \<and> refund_recorded t (ord_id order) (pr_response_data response) a reason
               \<and> outbox t = outbox s @ SendOrderRefundEmail (ord_id order)
                   # (if unenroll then [QueueDowngrade (ord_id order)] else [])))"
  using refund_order_run [OF run]
proof
  assume "\<exists>order response a. refund_accepted px s oid refno amount order response a
      \<and> thenP (refund x (ord_id order) (Some (pr_response_data response)) (Some a) reason)
          (thenP (whenP unenroll (emit (QueueDowngrade (ord_id order)))) (ret True)) s = (res, t)"
  then obtain order response a where acc: "refund_accepted px s oid refno amount order response a"
    and eq: "thenP (refund x (ord_id order) (Some (pr_response_data response)) (Some a) reason)
          (thenP (whenP unenroll (emit (QueueDowngrade (ord_id order)))) (ret True)) s = (res, t)" by blast
  obtain r u where r: "refund x (ord_id order) (Some (pr_response_data response)) (Some a) reason s = (r, u)" by fastforce
  have end_eq: "(res, t) = (case r of Inl e \<Rightarrow> (Inl e, u)
      | Inr y \<Rightarrow> (Inr True, if unenroll then u\<lparr>outbox := outbox u @ [QueueDowngrade (ord_id order)]\<rparr> else u))"
    using eq r by (cases r; cases unenroll) (auto simp: thenP_def bindP_def whenP_def emit_def modify_def ret_def)
  note refund_run [OF f r]
  then show ?thesis using acc end_eq
    by (intro disjI2 exI [of _ order] exI [of _ response] exI [of _ a])
      (cases r; auto simp: order_state_def find_order_def refund_recorded_def)
qed simp

section \<open>Orders resolved by hand\<close>

text \<open>Without asking the processors, every pending order is fulfilled with an administrative
  payment.  Keys and reference numbers of the orders are distinct, and a new \<open>uuid4\<close> is no
  transaction id yet.\<close>

definition fresh_uuids :: "db \<Rightarrow> bool" where
  "fresh_uuids s \<longleftrightarrow> (\<forall>n \<ge> next_id s. ''uuid-'' @ show_nat n \<notin> tx_transaction_id ` set (transactions s))"

definition references_ok :: "db \<Rightarrow> bool" where
  "references_ok s \<longleftrightarrow> distinct (map ord_id (orders s)) \<and> distinct (map ord_reference_number (orders s))
     \<and> None \<notin> ord_reference_number ` set (orders s)"

text \<open>The identity of an order: what resolving it leaves alone.\<close>

definition order_ident :: "Order \<Rightarrow> nat \<times> string option" where
  "order_ident r = (ord_id r, ord_reference_number r)"

lemma references_ok_ident:
  "map order_ident (orders t) = map order_ident (orders s) \<Longrightarrow> references_ok s \<Longrightarrow> references_ok t"
proof -
  assume "map order_ident (orders t) = map order_ident (orders s)"
  then have "map fst (map order_ident (orders t)) = map fst (map order_ident (orders s))"
    "map snd (map order_ident (orders t)) = map snd (map order_ident (orders s))" by simp_all
  then have eq: "map ord_id (orders t) = map ord_id (orders s)"
    "map ord_reference_number (orders t) = map ord_reference_number (orders s)"
    by (simp_all add: order_ident_def comp_def)
  assume "references_ok s"
  then show "references_ok t"
    unfolding references_ok_def by (metis eq list.set_map)
qed

lemma get_order_found:
  "references_ok s \<Longrightarrow> r \<in> set (orders s) \<Longrightarrow> get_order s (ord_id r) = Inr r"
  unfolding get_order_def references_ok_def by (simp add: filter_key_unique)

text \<open>Recording an administrative payment cannot fail.\<close>

lemma create_admin_transaction:
  assumes "get_order s o1 = Inr r" "fresh_uuids s"
  shows "\<exists>tx t. create_transaction o1 admin_fulfilled_payment_data reason s = (Inr tx, t)
    \<and> orders t = orders s \<and> fresh_uuids t"
proof -
  let ?u = "''uuid-'' @ show_nat (next_id s)"
  have adm: "jtruthy (jget admin_fulfilled_payment_data ''is_administrative'')" "is_dict (Some admin_fulfilled_payment_data)"
    by (simp_all add: admin_fulfilled_payment_data_def jget_def jtruthy_def is_dict_def)
  have new: "?u \<notin> tx_transaction_id ` set (transactions s)"
    using assms(2) unfolding fresh_uuids_def by blast
  then have none: "filter (\<lambda>t. tx_transaction_id t = ?u) (transactions_of s o1) = []"
    "\<not> exists_row (\<lambda>t. tx_transaction_id t = ?u) (transactions s)"
    by (auto simp: transactions_of_def filter_empty_conv exists_row_iff image_iff)
  let ?s = "s\<lparr>next_id := Suc (next_id s)\<rparr>"
  let ?tx = "\<lparr>tx_id = next_id ?s, tx_transaction_id = ?u, tx_order = o1, tx_amount = 0,
    tx_data = admin_fulfilled_payment_data, tx_type = TX_PAYMENT, tx_reason = reason\<rparr>"
  let ?t = "?s\<lparr>transactions := transactions s @ [?tx], next_id := Suc (Suc (next_id s))\<rparr>"
  have "get_or_create_transaction o1 (\<lambda>t. tx_transaction_id t = ?u) ?u (JNum 0) admin_fulfilled_payment_data TX_PAYMENT
      reason ?s = (Inr ?tx, ?t)"
    using none by (simp add: get_or_create_transaction_def transactions_of_def column_amount_of_def json_decimal_def Let_def)
  then have "create_transaction o1 admin_fulfilled_payment_data reason s = (Inr ?tx, ?t)"
    unfolding create_transaction_def transaction_payload_def using assms(1) adm
    by (simp add: liftE_bind bindP_Inr uuid4_def) (simp add: bindP_def ret_def liftE_def jtruthy_def column_text_def)
  moreover have "fresh_uuids ?t"
    using assms(2) by (auto simp: fresh_uuids_def)
  ultimately show ?thesis by (intro exI [of _ ?tx] exI [of _ ?t]) simp
qed

definition settle :: "nat \<Rightarrow> Order list \<Rightarrow> Order list" where
  "settle o1 os = update_rows (\<lambda>r. ord_id r = o1) (\<lambda>r. r\<lparr>ord_state := FULFILLED\<rparr>) os"

lemma ident_settle [simp]: "map order_ident (settle o1 os) = map order_ident os"
  by (simp add: settle_def map_update_rows order_ident_def)

lemma admin_fulfill:
  assumes f: "viewflow_contract (x_fsm x)" and ok: "references_ok s" "fresh_uuids s"
    and r: "r \<in> set (orders s)" "ord_state r = PENDING"
  shows "\<exists>t. fulfill x (ord_id r) admin_fulfilled_payment_data False False True s = (Inr (), t)
    \<and> orders t = settle (ord_id r) (orders s) \<and> fresh_uuids t"
proof -
  let ?o = "ord_id r" and ?d = admin_fulfilled_payment_data
  let ?r = "r\<lparr>ord_state := FULFILLED\<rparr>"
  let ?s1 = "update_order ?o (\<lambda>r. r\<lparr>ord_state := FULFILLED\<rparr>) s"
  have st: "order_state s ?o = Some PENDING"
    using find_order_get [OF get_order_found [OF ok(1) r(1)]] r(2) by (simp add: order_state_def)
  have orders1: "orders ?s1 = settle ?o (orders s)" by (simp add: update_order_def settle_def)
  have ok1: "references_ok ?s1" using references_ok_ident [OF _ ok(1), of ?s1] orders1 by simp
  have "?r \<in> set (orders ?s1)" using r(1) by (auto simp: update_order_def update_rows_def image_iff)
  from get_order_found [OF ok1 this] have g1: "get_order ?s1 ?o = Inr ?r" by simp
  have "fresh_uuids ?s1" using ok(2) by (simp add: fresh_uuids_def)
  from create_admin_transaction [OF g1 this] obtain tx t1 where
    t1: "create_transaction ?o ?d '''' ?s1 = (Inr tx, t1)" "orders t1 = orders ?s1" "fresh_uuids t1" by blast
  have g2: "get_order t1 ?o = Inr ?r" using g1 t1(2) by (simp add: get_order_def)
  have body: "fulfill_body x ?o ?d False False True ?s1 = (Inr (), t1)"
    unfolding fulfill_body_def bindP_Inr [where m = "create_transaction ?o ?d ''''" and s = ?s1, OF t1(1)]
    using g2 by (simp add: liftE_bind whenP_def order_receipt_def thenP_def) (simp add: ret_def)
  have save: "save_order ?o t1 = (Inr (), t1)"
  proof -
    have refs: "\<forall>q \<in> set (orders t1). ord_reference_number q \<noteq> None"
      using ok1 t1(2) unfolding references_ok_def by (metis image_eqI)
    have "update_rows (\<lambda>q. ord_id q = ?o) (\<lambda>q. case ord_reference_number q of
        None \<Rightarrow> q\<lparr>ord_reference_number := Some n\<rparr> | Some _ \<Rightarrow> q) (orders t1) = orders t1" for n
      using refs by (auto simp: update_rows_def intro!: map_idI split: option.split)
    then show ?thesis by (simp add: save_order_def modify_def update_order_def)
  qed
  have "fulfill x ?o ?d False False True s = (Inr (), t1)"
    unfolding fulfill_def transition_def viewflow_contractD [OF f] viewflow_run_def
    using st body save by (simp add: thenP_def bindP_def catchP_def set_order_state_def modify_def)
  then show ?thesis using t1(2,3) orders1 by auto
qed

text \<open>One order of the bucket; whether the synchronisation with HubSpot succeeds does not matter.\<close>

lemma admin_resolve_one:
  assumes f: "viewflow_contract (x_fsm x)" and ok: "references_ok s" "fresh_uuids s"
    and r: "r \<in> set (orders s)" "ord_state r = PENDING"
  shows "\<exists>b t. resolve_one (\<lambda>o1 d. fulfill x o1 d False False True) (ord_reference_number r, admin_fulfilled_payment_data) s
      = (Inr b, t) \<and> orders t = settle (ord_id r) (orders s) \<and> fresh_uuids t"
proof -
  have "filter (\<lambda>q. ord_reference_number q = ord_reference_number r) (orders s) = [r]"
    using ok(1) r(1) unfolding references_ok_def by (simp add: filter_key_unique)
  then have one: "get_one (pending_with_reference s (ord_reference_number r)) = Inr r"
    using r(2) by (simp add: pending_with_reference_def orders_with_reference_def)
  obtain t where t: "fulfill x (ord_id r) admin_fulfilled_payment_data False False True s = (Inr (), t)"
    "orders t = settle (ord_id r) (orders s)" "fresh_uuids t" using admin_fulfill [OF assms] by blast
  obtain es where es: "snd (sync_hubspot_deal (ord_id r) t) = t\<lparr>outbox := outbox t @ es\<rparr>"
    using sync_hubspot_deal_only_outbox [of t] by (auto simp: only_outbox_def)
  let ?u = "t\<lparr>outbox := outbox t @ es\<rparr>"
  obtain res where "sync_hubspot_deal (ord_id r) t = (res, ?u)" using es by (metis prod.collapse)
  then have "resolve_one (\<lambda>o1 d. fulfill x o1 d False False True) (ord_reference_number r, admin_fulfilled_payment_data) s
      = (Inr (\<not> isl res), ?u)"
    using one t(1) by (cases res)
      (simp_all add: resolve_one_def catchP_def liftE_bind thenP_Inr thenP_Inl ret_def)
  then show ?thesis using t(2,3) by (auto simp: fresh_uuids_def)
qed

lemma admin_resolve_all:
  assumes f: "viewflow_contract (x_fsm x)"
  shows "references_ok s \<Longrightarrow> fresh_uuids s \<Longrightarrow> distinct (map ord_id os) \<Longrightarrow>
    (\<forall>r \<in> set os. \<exists>q \<in> set (orders s). order_ident q = order_ident r \<and> ord_state q = PENDING) \<Longrightarrow>
    \<exists>n e t. resolve_all (\<lambda>o1 d. fulfill x o1 d False False True)
        (map (\<lambda>r. (ord_reference_number r, admin_fulfilled_payment_data)) os) s = (Inr (n, e), t)
      \<and> n + e = length os \<and> (\<forall>o1 \<in> ord_id ` set os. order_state t o1 = Some FULFILLED)
      \<and> (\<forall>o1. o1 \<notin> ord_id ` set os \<longrightarrow> order_state t o1 = order_state s o1)"
proof (induction os arbitrary: s)
  case (Cons r os)
  obtain q where q: "q \<in> set (orders s)" "order_ident q = order_ident r" "ord_state q = PENDING"
    using Cons.prems(4) by auto
  then have id: "ord_id q = ord_id r" "ord_reference_number q = ord_reference_number r"
    by (simp_all add: order_ident_def)
  obtain b s1 where s1: "resolve_one (\<lambda>o1 d. fulfill x o1 d False False True)
        (ord_reference_number r, admin_fulfilled_payment_data) s = (Inr b, s1)"
      "orders s1 = settle (ord_id r) (orders s)" "fresh_uuids s1"
    using admin_resolve_one [OF f Cons.prems(1,2) q(1,3)] id by metis
  have ok1: "references_ok s1" using references_ok_ident [OF _ Cons.prems(1), of s1] s1(2) by simp
  have pend: "\<forall>r' \<in> set os. \<exists>q \<in> set (orders s1). order_ident q = order_ident r' \<and> ord_state q = PENDING"
  proof
    fix r' assume r': "r' \<in> set os"
    then obtain q' where q': "q' \<in> set (orders s)" "order_ident q' = order_ident r'" "ord_state q' = PENDING"
      using Cons.prems(4) by auto
    have "ord_id r' \<noteq> ord_id r" using Cons.prems(3) r' by (auto simp: image_iff)
    then have "ord_id q' \<noteq> ord_id r" using q'(2) by (simp add: order_ident_def)
    then have "q' \<in> set (orders s1)" using q'(1) by (auto simp: s1(2) settle_def update_rows_def)
    then show "\<exists>q \<in> set (orders s1). order_ident q = order_ident r' \<and> ord_state q = PENDING" using q' by blast
  qed
  obtain n e t where t: "resolve_all (\<lambda>o1 d. fulfill x o1 d False False True)
        (map (\<lambda>r. (ord_reference_number r, admin_fulfilled_payment_data)) os) s1 = (Inr (n, e), t)"
      "n + e = length os" "\<forall>o1 \<in> ord_id ` set os. order_state t o1 = Some FULFILLED"
      "\<forall>o1. o1 \<notin> ord_id ` set os \<longrightarrow> order_state t o1 = order_state s1 o1"
    using Cons.IH [OF ok1 s1(3) _ pend] Cons.prems(3) by auto
  have settled: "order_state s1 o1 = (if o1 = ord_id r then Some FULFILLED else order_state s o1)" for o1
  proof -
    have "find_order s1 o1 = find_order (update_order (ord_id r) (\<lambda>r. r\<lparr>ord_state := FULFILLED\<rparr>) s) o1"
      by (simp add: find_order_def s1(2) settle_def update_order_def)
    moreover have "find_order s (ord_id r) \<noteq> None"
      using q(1) id by (auto simp: find_order_def)
    ultimately show ?thesis by (auto simp: order_state_def find_order_update)
  qed
  have "resolve_all (\<lambda>o1 d. fulfill x o1 d False False True)
      (map (\<lambda>r. (ord_reference_number r, admin_fulfilled_payment_data)) (r # os)) s
      = (Inr (if b then (Suc n, e) else (n, Suc e)), t)"
    using s1(1) t(1) by (simp add: bindP_Inr) (simp add: bindP_def ret_def)
  moreover have "r \<notin> set os" "ord_id r \<notin> ord_id ` set os" using Cons.prems(3) by auto
  ultimately show ?case using t(2-4) settled
    by (intro exI [of _ "fst (if b then (Suc n, e) else (n, Suc e))"] exI [of _ "snd (if b then (Suc n, e) else (n, Suc e))"]
        exI [of _ t]) auto
qed (simp add: ret_def)

lemma foldl_new_keys:
  "distinct (map f os) \<Longrightarrow> fst ` set acc \<inter> f ` set os = {} \<Longrightarrow>
   foldl (\<lambda>d r. AList.update (f r) v d) acc os = acc @ map (\<lambda>r. (f r, v)) os"
proof (induction os arbitrary: acc)
  case (Cons r os)
  have "AList.update (f r) v acc = acc @ [(f r, v)]"
    using Cons.prems(2) by (induction acc) auto
  then show ?case using Cons.IH [of "acc @ [(f r, v)]"] Cons.prems by auto
qed simp

theorem resolution_by_hand:
  assumes f: "viewflow_contract (x_fsm x)" and ok: "references_ok s" "fresh_uuids s"
  shows "\<exists>n e t. check_and_process_pending_orders_for_resolution x px refnos False True s = (Inr (n, 0, e), t)
    \<and> n + e = length (pending_orders s refnos)
    \<and> (\<forall>r \<in> set (orders s). order_state t (ord_id r) =
         Some (if r \<in> set (pending_orders s refnos) then FULFILLED else ord_state r))"
proof -
  let ?os = "pending_orders s refnos"
  have sub: "set ?os \<subseteq> set (orders s)" by (auto simp: pending_orders_def)
  have st: "order_state s (ord_id r) = Some (ord_state r)" if "r \<in> set (orders s)" for r
    using find_order_get [OF get_order_found [OF ok(1) that]] by (simp add: order_state_def)
  have inj: "ord_id r \<in> ord_id ` set ?os \<longleftrightarrow> r \<in> set ?os" if "r \<in> set (orders s)" for r
    using ok(1) sub that unfolding references_ok_def distinct_map by (auto dest: inj_onD)
  show ?thesis
  proof (cases "?os = []")
    case True
    then have "check_and_process_pending_orders_for_resolution x px refnos False True s = (Inr (0, 0, 0), s)"
      by (simp add: check_and_process_pending_orders_for_resolution_def ret_def)
    then show ?thesis using True st by auto
  next
    case False
    have d: "distinct (map ord_reference_number ?os)" "distinct (map ord_id ?os)"
      using ok(1) unfolding references_ok_def pending_orders_def by (simp_all add: distinct_map_filter_pred)
    have "resolution_buckets px ?os False s =
        Inr (map (\<lambda>r. (ord_reference_number r, admin_fulfilled_payment_data)) ?os, [])"
      using foldl_new_keys [OF d(1), of "[]" admin_fulfilled_payment_data] by (simp add: resolution_buckets_def)
    moreover have "\<forall>r \<in> set ?os. \<exists>q \<in> set (orders s). order_ident q = order_ident r \<and> ord_state q = PENDING"
      by (auto simp: pending_orders_def)
    from admin_resolve_all [OF f ok d(2) this] obtain n e t where
      t: "resolve_all (\<lambda>o1 d. fulfill x o1 d False False True)
        (map (\<lambda>r. (ord_reference_number r, admin_fulfilled_payment_data)) ?os) s = (Inr (n, e), t)"
      "n + e = length ?os" "\<forall>o1 \<in> ord_id ` set ?os. order_state t o1 = Some FULFILLED"
      "\<forall>o1. o1 \<notin> ord_id ` set ?os \<longrightarrow> order_state t o1 = order_state s o1" by blast
    ultimately have "check_and_process_pending_orders_for_resolution x px refnos False True s = (Inr (n, 0, e), t)"
      using False by (simp add: check_and_process_pending_orders_for_resolution_def liftE_bind bindP_Inr)
        (simp add: ret_def)
    then show ?thesis using t(2-4) st inj by auto
  qed
qed

section \<open>The report on discounts redeemed too often\<close>

lemma foldl_report:
  "distinct acc \<Longrightarrow> distinct (foldl (\<lambda>seen r. if k r \<in> set seen then seen else if P r then seen @ [k r] else seen) acc rs)
   \<and> set (foldl (\<lambda>seen r. if k r \<in> set seen then seen else if P r then seen @ [k r] else seen) acc rs)
     = set acc \<union> k ` {r \<in> set rs. P r}"
proof (induction rs arbitrary: acc)
  case (Cons r rs)
  then show ?case by (simp only: foldl_Cons) (auto split: if_splits)
qed simp

definition redeemed_once_only :: "Discount \<Rightarrow> bool" where
  "redeemed_once_only d \<longleftrightarrow> disc_redemption_type d \<in> {ONE_TIME, ONE_TIME_PER_USER}"

text \<open>A discount is reported when more than one fulfilled order redeemed it, whoever paid them.\<close>

lemma duplicates_report:
  "distinct (check_for_duplicate_discount_redemptions s)
   \<and> set (check_for_duplicate_discount_redemptions s) = (disc_id \<circ> rd_redeemed_discount) `
      {r \<in> set (redemptions s). redeemed_once_only (rd_redeemed_discount r)
         \<and> order_state s (rd_redeemed_order r) = Some FULFILLED
         \<and> 1 < length (fulfilled_redemptions s (rd_redeemed_discount r))}"
  unfolding check_for_duplicate_discount_redemptions_def Let_def
  using foldl_report [of "[]" "\<lambda>r. disc_id (rd_redeemed_discount r)" "\<lambda>r. length (fulfilled_redemptions s (rd_redeemed_discount r)) > 1"
      "filter (\<lambda>r. disc_redemption_type (rd_redeemed_discount r) \<in> {ONE_TIME, ONE_TIME_PER_USER}
        \<and> order_state s (rd_redeemed_order r) = Some FULFILLED) (redemptions s)"]
  by (simp add: redeemed_once_only_def conj_ac comp_def)

section \<open>Batches of discount codes\<close>

lemma uuid_codes_run:
  "uuid_codes p n s = (Inr (map (\<lambda>i. p @ ''uuid-'' @ show_nat i) [next_id s..<next_id s + n]), s\<lparr>next_id := next_id s + n\<rparr>)"
proof (induction n arbitrary: s)
  case (Suc n)
  have "uuid4 s = (Inr (''uuid-'' @ show_nat (next_id s)), s\<lparr>next_id := Suc (next_id s)\<rparr>)" by (simp add: uuid4_def)
  then show ?case
    by (simp add: bindP_Inr Suc) (simp add: bindP_def ret_def upt_rec [of "next_id s"])
qed (simp add: ret_def)

definition numbered :: "nat \<Rightarrow> Discount list \<Rightarrow> Discount list" where
  "numbered n ds = map2 (\<lambda>i d. d\<lparr>disc_id := i\<rparr>) [n..<n + length ds] ds"

lemma numbered_Cons: "numbered n (d # ds) = d\<lparr>disc_id := n\<rparr> # numbered (Suc n) ds"
  by (simp add: numbered_def upt_rec [of n] Suc_le_eq)

lemma numbered_map:
  assumes "\<And>d i. f (d\<lparr>disc_id := i\<rparr>) = f d"
  shows "map f (numbered n ds) = map f ds"
  by (induction ds arbitrary: n) (simp_all add: numbered_Cons assms numbered_def [of _ "[]"])

lemma numbered_ids: "map disc_id (numbered n ds) = [n..<n + length ds]"
proof (induction ds arbitrary: n)
  case (Cons d ds)
  have "[n..<n + length (d # ds)] = n # [Suc n..<Suc n + length ds]" by (subst upt_rec) simp
  then show ?case by (simp only: numbered_Cons list.map Cons.IH) simp
qed (simp add: numbered_def)

lemma create_discounts_run:
  "\<forall>d \<in> set ds. check_date_validity s d = Inr True \<Longrightarrow>
   create_discounts ds s = (Inr (numbered (next_id s) ds),
     s\<lparr>discounts := discounts s @ numbered (next_id s) ds, next_id := next_id s + length ds\<rparr>)"
proof (induction ds arbitrary: s)
  case (Cons d ds)
  let ?s = "s\<lparr>discounts := discounts s @ [d\<lparr>disc_id := next_id s\<rparr>], next_id := Suc (next_id s)\<rparr>"
  have "create_discount d s = (Inr (d\<lparr>disc_id := next_id s\<rparr>), ?s)"
    using Cons.prems by (simp add: create_discount_def liftE_bind fresh_id_def bindP_Inr Let_def)
      (simp add: thenP_def bindP_def modify_def ret_def)
  moreover have "\<forall>d \<in> set ds. check_date_validity ?s d = Inr True"
    using Cons.prems by (simp add: check_date_validity_def)
  ultimately show ?case using Cons.IH [of ?s]
    by (simp add: bindP_Inr numbered_Cons) (simp add: bindP_def ret_def)
qed (simp add: ret_def numbered_def)

lemma batch_of_codes:
  assumes q: "check_code_request q = Inr amount" "1 < cq_count q" "cq_prefix q = Some p" "length p \<le> 63"
    and dates: "requested_date parse (cq_expires q) = Inr e" "requested_date parse (cq_activates q) = Inr a"
    and ok: "check_date_validity s (generated_discount q amount e a [])  = Inr True"
  shows "\<exists>ds t. generate_discount_code parse q s = (Inr ds, t) \<and> discounts t = discounts s @ ds
    \<and> length ds = cq_count q \<and> distinct (map disc_code ds) \<and> distinct (map disc_id ds)
    \<and> (\<forall>d \<in> set ds. \<exists>u. disc_code d = p @ u) 
    \<and> (\<forall>d \<in> set ds. disc_amount d = amount \<and> disc_type d = cq_discount_type q
         \<and> disc_redemption_type d = requested_redemption_type q \<and> disc_is_bulk d
         \<and> disc_activation_date d = a \<and> disc_expiration_date d = e)"
proof -
  let ?n = "cq_count q"
  let ?codes = "map (\<lambda>i. p @ ''uuid-'' @ show_nat i) [next_id s..<next_id s + ?n]"
  let ?s = "s\<lparr>next_id := next_id s + ?n\<rparr>"
  let ?ds = "map (generated_discount q amount e a) ?codes"
  have codes: "codes_to_generate q s = (Inr ?codes, ?s)"
    using q(2-4) by (simp add: codes_to_generate_def uuid_codes_run)
  have "\<forall>d \<in> set ?ds. check_date_validity ?s d = Inr True"
    using ok by (auto simp: check_date_validity_def generated_discount_def split: if_splits option.splits)
  from create_discounts_run [OF this]
  have c: "create_discounts ?ds ?s = (Inr (numbered (next_id ?s) ?ds),
      ?s\<lparr>discounts := discounts ?s @ numbered (next_id ?s) ?ds, next_id := next_id ?s + length ?ds\<rparr>)" .
  have run: "generate_discount_code parse q s = (Inr (numbered (next_id ?s) ?ds),
      ?s\<lparr>discounts := discounts ?s @ numbered (next_id ?s) ?ds, next_id := next_id ?s + length ?ds\<rparr>)"
    unfolding generate_discount_code_def liftE_bind q(1) sum.case
      bindP_Inr [where m = "codes_to_generate q" and s = s, OF codes] dates by (rule c)
  let ?out = "numbered (next_id ?s) ?ds"
  have code: "map disc_code ?out = ?codes"
    by (subst numbered_map) (simp_all add: generated_discount_def comp_def)
  have "distinct ?codes" by (simp add: distinct_map inj_on_def)
  then have d: "distinct (map disc_code ?out)" unfolding code .
  have ids: "distinct (map disc_id ?out)" by (simp add: numbered_ids)
  have fields: "\<forall>d \<in> set ?out. \<exists>i u. d = (generated_discount q amount e a (p @ u))\<lparr>disc_id := i\<rparr>"
    unfolding numbered_def by (auto simp: set_zip) blast
  show ?thesis
    using run d ids fields
    by (intro exI [of _ ?out] exI) (fastforce simp: generated_discount_def numbered_def)
qed

end
