(* ===== verification/PaidEnrollments.thy ===== *)
theory PaidEnrollments
  imports Payments
begin

text \<open>
  Enrollments that are checked out without a payment: a course run of a program that the learner
  bought (\<open>create_verified_program_discount\<close>, \<open>create_verified_program_course_run_enrollment\<close> of
  \<open>src/ecommerce/api.py\<close>) and a course run of a B2B contract (\<open>create_b2b_enrollment\<close> and its
  helpers in \<open>src/b2b/api.py\<close>).  Both put the product and a discount that makes it free in the
  learner's basket and run the checkout.
\<close>

section \<open>Course runs of a program that was bought\<close>

definition product_of_program :: "db \<Rightarrow> Program \<Rightarrow> exn + Product" where
  "product_of_program s g =
     get_one (filter (\<lambda>p. prod_content_type p = CT_Program \<and> prod_object_id p = prg_id g) (products s))"

definition existing_program_discounts :: "db \<Rightarrow> Product \<Rightarrow> Discount list" where
  "existing_program_discounts s p =
     filter (\<lambda>d. (disc_activation_date d = None \<or> q_lte (disc_activation_date d) (now s))
               \<and> (disc_expiration_date d = None \<or> q_gte (disc_expiration_date d) (now s))
               \<and> links s d p > 0 \<and> disc_is_program_discount d = Some True) (discounts s)"

definition program_discount :: "string \<Rightarrow> Discount" where
  "program_discount code = \<lparr>disc_id = 0, disc_amount = 100, disc_automatic = False, disc_type = PERCENT_OFF,
     disc_redemption_type = UNLIMITED, disc_payment_type = Some SALES, disc_max_redemptions = Some 0,
     disc_code = code, disc_activation_date = None, disc_expiration_date = None, disc_is_bulk = True,
     disc_is_program_discount = Some True\<rparr>"

definition create_verified_program_discount :: "Program \<Rightarrow> Discount op" where
  "create_verified_program_discount g =
     bindP (liftE (\<lambda>s. product_of_program s g)) (\<lambda>p.
     bindP (gets (\<lambda>s. existing_program_discounts s p)) (\<lambda>existing.
     if existing \<noteq> [] then ret (last existing)
     else bindP uuid4 (\<lambda>u.
          bindP (create_discount (program_discount (prg_readable_id g @ ''-'' @ u))) (\<lambda>d.
          thenP (modify (\<lambda>s. s\<lparr>discount_products := discount_products s
                           @ [\<lparr>dp_discount = disc_id d, dp_product = Some (prod_id p)\<rparr>]\<rparr>))
            (ret d)))))"

definition clear_basket_rows :: "Basket \<Rightarrow> unit op" where
  "clear_basket_rows b = modify (\<lambda>s. s\<lparr>
     basket_items := filter (\<lambda>i. bi_basket i \<noteq> bkt_id b) (basket_items s),
     basket_discounts := filter (\<lambda>d. bd_redeemed_basket d \<noteq> bkt_id b) (basket_discounts s)\<rparr>)"

definition create_basket_item :: "Basket \<Rightarrow> Product \<Rightarrow> unit op" where
  "create_basket_item b p = modify (\<lambda>s. s\<lparr>basket_items := basket_items s
     @ [\<lparr>bi_id = next_id s, bi_basket = bkt_id b, bi_product = p, bi_quantity = 1\<rparr>], next_id := Suc (next_id s)\<rparr>)"

definition basket_price :: "db \<Rightarrow> Basket \<Rightarrow> exn + rat" where
  "basket_price s b = bindE (mapE (item_discounted_price s) (items_of s (bkt_id b))) (\<lambda>xs. Inr (sum_list xs))"

definition has_verified_program_enrollment :: "db \<Rightarrow> User \<Rightarrow> Program \<Rightarrow> bool" where
  "has_verified_program_enrollment s user g =
     exists_row (\<lambda>e. prg_id (pe_program e) = prg_id g \<and> pe_user e = usr_id user
                   \<and> pe_enrollment_mode e = verified_mode \<and> pe_active e) (program_enrollments s)"

definition active_run_product :: "db \<Rightarrow> CourseRun \<Rightarrow> exn + Product" where
  "active_run_product s r =
     get_one (filter (\<lambda>p. prod_content_type p = CT_CourseRun \<and> prod_object_id p = run_id r \<and> prod_is_active p)
                (products s))"

text \<open>The enrollments of the run that its default manager shows: the active ones.\<close>

definition my_enrollments :: "db \<Rightarrow> User \<Rightarrow> CourseRun \<Rightarrow> CourseRunEnrollment list" where
  "my_enrollments s user r =
     filter (\<lambda>e. run_id (cre_run e) = run_id r \<and> cre_user e = usr_id user \<and> cre_active e) (run_enrollments s)"

definition create_verified_program_course_run_enrollment ::
  "ext \<Rightarrow> processor \<Rightarrow> User \<Rightarrow> string \<Rightarrow> CourseRun \<Rightarrow> Program \<Rightarrow> CourseRunEnrollment op" where
  "create_verified_program_course_run_enrollment x px user ip r g =
     bindP (gets (\<lambda>s. has_verified_program_enrollment s user g)) (\<lambda>verified.
     if \<not> verified then raise VerifiedProgramNoEnrollmentError
     else bindP (create_verified_program_discount g) (\<lambda>d.
     bindP (liftE (\<lambda>s. active_run_product s r)) (\<lambda>p.
     bindP (establish_basket_delayed user) (\<lambda>b.
     thenP (bindP (gets (\<lambda>s. items_of s (bkt_id b) \<noteq> [])) (\<lambda>full. whenP full (clear_basket_rows b)))
     (thenP (create_basket_item b p)
     (thenP (save_basket_discount (Some (usr_id user)) b d)
     (thenP (bindP (gets (\<lambda>s. case purchasable_object s p of
                     Some (PurchRun r) \<Rightarrow> is_uai_course_run (Some r) | _ \<Rightarrow> False))
               (sync_hubspot_cart_add user p))
     (bindP (liftE (\<lambda>s. basket_price s b)) (\<lambda>price.
      if price > 0 then raise VerifiedProgramInvalidBasketError
      else bindP (generate_checkout_payload x px user ip True True None) (\<lambda>processed.
        case processed of
          NoCheckout _ \<Rightarrow> liftE (\<lambda>s. get_one (my_enrollments s user r))
        | _ \<Rightarrow> raise VerifiedProgramInvalidOrderError))))))))))"

section \<open>Course runs of a contract\<close>

datatype b2b_error =
    B2B_DISALLOWED | B2B_ERROR_NO_PRODUCT | B2B_ERROR_NOT_ENROLLABLE | B2B_ERROR_NO_CONTRACT
  | B2B_ERROR_ALREADY_ENROLLED

text \<open>\<open>purchasable_object.b2b_contract\<close>; a program has no such attribute.\<close>

definition contract_of_product :: "db \<Rightarrow> Product \<Rightarrow> exn + (CourseRun \<times> Contract) option" where
  "contract_of_product s p =
     (case purchasable_object s p of
        None \<Rightarrow> Inr None
      | Some (PurchProgram _) \<Rightarrow> Inl PyAttributeError
      | Some (PurchRun r) \<Rightarrow> Inr (map_option (\<lambda>c. (r, c)) (run_b2b_contract r)))"

definition all_enroll_change_statuses :: "string list" where
  "all_enroll_change_statuses = [status_deferred, ''transferred'', status_refunded, status_unenrolled]"

definition already_enrolled :: "db \<Rightarrow> User \<Rightarrow> CourseRun \<Rightarrow> bool" where
  "already_enrolled s user r =
     exists_row (\<lambda>e. cre_enrollment_mode e = verified_mode
        \<and> (case cre_change_status e of None \<Rightarrow> True | Some st \<Rightarrow> st \<notin> set all_enroll_change_statuses))
       (my_enrollments s user r)"

definition validate_b2b_enrollment_prerequisites :: "db \<Rightarrow> User \<Rightarrow> Product \<Rightarrow> exn + b2b_error option" where
  "validate_b2b_enrollment_prerequisites s user p =
     (if \<not> usr_is_authenticated user then Inr (Some B2B_DISALLOWED)
      else bindE (contract_of_product s p) (\<lambda>found. Inr (case found of
        None \<Rightarrow> Some B2B_ERROR_NO_PRODUCT
      | Some (r, c) \<Rightarrow>
          if \<not> is_enrollable_for_b2b s r then Some B2B_ERROR_NOT_ENROLLABLE
          else if ctr_id c \<notin> ctr_id ` set (active_contracts s) then Some B2B_ERROR_NO_CONTRACT
          else if ctr_id c \<notin> set (contracts_of_user s user) then Some B2B_ERROR_NO_CONTRACT
          else if already_enrolled s user r then Some B2B_ERROR_ALREADY_ENROLLED
          else None)))"

text \<open>\<open>create_user\<close> creates the edX user at once.\<close>

definition prepare_basket_for_b2b_enrollment :: "(User \<Rightarrow> unit op) \<Rightarrow> User \<Rightarrow> Product \<Rightarrow> Basket op" where
  "prepare_basket_for_b2b_enrollment create_user user p =
     bindP (establish_basket create_user user True) (\<lambda>b.
     thenP (clear_basket_rows b)
     (thenP (create_basket_item b p)
     (thenP (sync_cart_add user p) (ret b))))"

definition redemption_count :: "db \<Rightarrow> nat \<Rightarrow> nat" where
  "redemption_count s d = count_rows (\<lambda>r. disc_id (rd_redeemed_discount r) = d) (redemptions s)"

text \<open>The codes of the product in the order of its \<open>DiscountProduct\<close> rows: unused, or unlimited.\<close>

definition applicable_codes :: "db \<Rightarrow> Product \<Rightarrow> Discount list" where
  "applicable_codes s p =
     filter (\<lambda>d. disc_is_bulk d \<and> (redemption_count s (disc_id d) = 0 \<or> disc_redemption_type d = UNLIMITED))
       (concat (map (\<lambda>dp. filter (\<lambda>d. disc_id d = dp_discount dp) (discounts s))
         (filter (\<lambda>dp. dp_product dp = Some (prod_id p)) (discount_products s))))"

definition new_b2b_code :: "Product \<Rightarrow> Discount op" where
  "new_b2b_code p =
     bindP (liftE (\<lambda>s. contract_of_product s p)) (\<lambda>found.
     case found of
       None \<Rightarrow> raise PyValueError
     | Some (_, c) \<Rightarrow>
         create_discount_with_product p (contract_price c) (if seat_limit c \<noteq> None then ONE_TIME else UNLIMITED))"

definition apply_available_discount :: "User \<Rightarrow> Product \<Rightarrow> Basket \<Rightarrow> unit op" where
  "apply_available_discount user p b =
     bindP (gets (\<lambda>s. applicable_codes s p)) (\<lambda>ds.
     bindP (case ds of [] \<Rightarrow> new_b2b_code p | d # _ \<Rightarrow> ret d) (\<lambda>d.
       save_basket_discount (Some (usr_id user)) b d))"

datatype b2b_result =
    B2BFailed b2b_error
  | B2BSuccess "nat option"
  | B2BRequiresCheckout rat "checkout_result option"

text \<open>A program is found by its id, must be one of the contract's, and then enrolls the learner.\<close>

definition enroll_in_program_for_b2b :: "User \<Rightarrow> Product \<Rightarrow> string \<Rightarrow> unit op" where
  "enroll_in_program_for_b2b user p program_id =
     bindP (liftE (\<lambda>s. contract_of_product s p)) (\<lambda>found.
     bindP (gets (\<lambda>s. get_one (filter (\<lambda>g. prg_readable_id g = program_id) (programs s)))) (\<lambda>g.
     case g of
       Inl e \<Rightarrow> if e = ObjectDoesNotExist then ret () else raise e
     | Inr g \<Rightarrow>
         bindP (gets (\<lambda>s. exists_row (\<lambda>i. Some (cpi_contract i) = map_option (ctr_id \<circ> snd) found
                                       \<and> cpi_program i = prg_id g) (contract_programs s))) (\<lambda>mine.
         if \<not> mine then ret ()
         else bindP (create_program_enrollments (usr_id user) [g] verified_mode) (\<lambda>_. ret ()))))"

definition order_of_product :: "db \<Rightarrow> User \<Rightarrow> Product \<Rightarrow> nat option" where
  "order_of_product s user p =
     map_option ord_id (first (filter (\<lambda>r. ord_purchaser r = usr_id user
        \<and> exists_row (\<lambda>l. ver_object_id (ln_product_version l) = prod_id p) (lines_of s (ord_id r))) (orders s)))"

text \<open>\<open>del user.openedx_user\<close>: the name of an edX user that was just created is read again.\<close>

definition reread_edx_username :: "db \<Rightarrow> User \<Rightarrow> User" where
  "reread_edx_username s user =
     (if has_text (usr_edx_username user) then user
      else case find_user s (usr_id user) of
        None \<Rightarrow> user | Some r \<Rightarrow> user\<lparr>usr_edx_username := usr_edx_username r\<rparr>)"

definition create_b2b_enrollment ::
  "(User \<Rightarrow> unit op) \<Rightarrow> ext \<Rightarrow> processor \<Rightarrow> User \<Rightarrow> string \<Rightarrow> Product \<Rightarrow> string option \<Rightarrow> b2b_result op" where
  "create_b2b_enrollment create_user x px user ip p program_id =
     bindP (liftE (\<lambda>s. validate_b2b_enrollment_prerequisites s user p)) (\<lambda>err.
     case err of
       Some e \<Rightarrow>
         if e = B2B_ERROR_ALREADY_ENROLLED
         then bindP (gets (\<lambda>s. order_of_product s user p)) (\<lambda>o1. ret (B2BSuccess o1))
         else ret (B2BFailed e)
     | None \<Rightarrow>
         bindP (prepare_basket_for_b2b_enrollment create_user user p) (\<lambda>b.
         bindP (gets (\<lambda>s. reread_edx_username s user)) (\<lambda>user.
         thenP (apply_available_discount user p b)
         (bindP (liftE (\<lambda>s. basket_price s b)) (\<lambda>price.
          if price = 0
          then bindP (generate_checkout_payload x px user ip False False None) (\<lambda>response.
            case response of
              NoCheckout o1 \<Rightarrow>
                thenP (if has_text program_id then enroll_in_program_for_b2b user p (the program_id) else ret ())
                  (ret (B2BSuccess (Some o1)))
            | _ \<Rightarrow> ret (B2BRequiresCheckout price (Some response)))
          else ret (B2BRequiresCheckout price None))))))"

end
