(* ===== verification/CartViews.thy ===== *)
theory CartViews
  imports PaidEnrollments
begin

text \<open>
  The cart and checkout views of \<open>src/ecommerce/views/legacy/__init__.py\<close>: what they answer and what
  they change.  Serialization, pagination and the analytics payload are left out.  A user that is
  not signed in is a \<open>User\<close> with \<open>usr_is_authenticated\<close> false; its id in a queued task stands for null.
\<close>

section \<open>Products and orders on display\<close>

text \<open>\<open>ProductViewSet\<close>: products of runs whose enrollment has ended are hidden (the other part of
  the filter is about products of program runs, which cannot be sold).\<close>

definition products_on_sale :: "db \<Rightarrow> Product list" where
  "products_on_sale s =
     (let closed = map run_id (filter (\<lambda>r. q_lt (run_enrollment_end r) (now s)) (usable_runs s))
      in filter (\<lambda>p. \<not> (prod_content_type p = CT_CourseRun \<and> prod_object_id p \<in> set closed)) (active_products_qs s))"

definition past_orders :: "db \<Rightarrow> User \<Rightarrow> Order list" where
  "past_orders s user =
     rev (sort_key ord_created_on
       (filter (\<lambda>r. ord_state r \<in> {FULFILLED, REFUNDED}) (filter (\<lambda>r. ord_purchaser r = usr_id user) (orders s))))"

definition redeemed_filter :: "db \<Rightarrow> string \<Rightarrow> Discount list \<Rightarrow> Discount list" where
  "redeemed_filter s v ds =
     (if v = ''yes'' then filter (\<lambda>d. redemption_count s (disc_id d) > 0) ds
      else if v = ''no'' then filter (\<lambda>d. redemption_count s (disc_id d) = 0) ds
      else ds)"

section \<open>Discounts of products and of users\<close>

text \<open>An id that no row has violates the foreign key.\<close>

definition get_discount :: "db \<Rightarrow> nat \<Rightarrow> exn + Discount" where
  "get_discount s i = get_one (filter (\<lambda>d. disc_id d = i) (discounts s))"

definition add_discount_product :: "nat \<Rightarrow> nat \<Rightarrow> nat op" where
  "add_discount_product i p =
     bindP (liftE (\<lambda>s. get_discount s i)) (\<lambda>d.
     bindP (gets (\<lambda>s. exists_row (\<lambda>r. dp_discount r = disc_id d \<and> dp_product r = Some p) (discount_products s))) (\<lambda>old.
     bindP (gets (\<lambda>s. exists_row (\<lambda>q. prod_id q = p) (products s))) (\<lambda>known.
     if \<not> old \<and> \<not> known then raise IntegrityError
     else thenP (whenP (\<not> old) (modify (\<lambda>s. s\<lparr>discount_products := discount_products s
               @ [\<lparr>dp_discount = disc_id d, dp_product = Some p\<rparr>]\<rparr>)))
       (ret (if old then 200 else 201)))))"

definition remove_discount_product :: "nat \<Rightarrow> nat \<Rightarrow> unit op" where
  "remove_discount_product i p =
     bindP (liftE (\<lambda>s. get_discount s i)) (\<lambda>d.
     bindP (liftE (\<lambda>s. get_active_product s p)) (\<lambda>q.
       modify (\<lambda>s. s\<lparr>discount_products :=
         filter (\<lambda>r. \<not> (dp_discount r = disc_id d \<and> dp_product r = Some (prod_id q))) (discount_products s)\<rparr>)))"

definition add_user_discount :: "nat \<Rightarrow> nat \<Rightarrow> nat op" where
  "add_user_discount i u =
     bindP (liftE (\<lambda>s. get_discount s i)) (\<lambda>d.
     bindP (gets (\<lambda>s. exists_row (\<lambda>r. disc_id (ud_discount r) = disc_id d \<and> ud_user r = u) (user_discounts s))) (\<lambda>old.
     bindP (gets (\<lambda>s. exists_row (\<lambda>r. usr_id r = u) (users s))) (\<lambda>known.
     if \<not> old \<and> \<not> known then raise IntegrityError
     else thenP (whenP (\<not> old) (modify (\<lambda>s. s\<lparr>user_discounts := user_discounts s @ [\<lparr>ud_discount = d, ud_user = u\<rparr>]\<rparr>)))
       (ret (if old then 200 else 201)))))"

definition remove_user_discount :: "nat \<Rightarrow> nat \<Rightarrow> unit op" where
  "remove_user_discount i u =
     bindP (liftE (\<lambda>s. get_discount s i)) (\<lambda>d.
     bindP (liftE (\<lambda>s. get_one (filter (\<lambda>r. usr_id r = u) (users s)))) (\<lambda>v.
       modify (\<lambda>s. s\<lparr>user_discounts :=
         filter (\<lambda>r. \<not> (disc_id (ud_discount r) = disc_id d \<and> ud_user r = usr_id v)) (user_discounts s)\<rparr>)))"

section \<open>The cart\<close>

text \<open>Looking the code up: any code that may not be used is reported as not found.\<close>

definition code_to_redeem :: "db \<Rightarrow> User \<Rightarrow> Basket \<Rightarrow> string \<Rightarrow> exn + Discount" where
  "code_to_redeem s user b code =
     bindE (get_one (filter (\<lambda>d. disc_code d = strip code)
              (filter (\<lambda>d. disc_payment_type d \<noteq> Some FINANCIAL_ASSISTANCE) (discounts s)))) (\<lambda>d.
       if \<not> check_discount_for_products s d b then Inl ObjectDoesNotExist
       else if \<not> check_validity s d (Some (usr_id user)) then Inl ObjectDoesNotExist
       else Inr d)"

definition better_with_assistance :: "db \<Rightarrow> User \<Rightarrow> Product \<Rightarrow> Discount \<Rightarrow> exn + Discount" where
  "better_with_assistance s user p d =
     bindE (determine_courseware_flexible_price_discount s (Some p) user) (\<lambda>found.
     case found of
       None \<Rightarrow> Inr d
     | Some f \<Rightarrow>
         bindE (get_discounted_price s [f] p None) (\<lambda>flexible_price.
         bindE (get_discounted_price s [d] p None) (\<lambda>discounted_price.
           Inr (if flexible_price < discounted_price then f else d))))"

definition redeem_discount :: "User \<Rightarrow> string \<Rightarrow> response op" where
  "redeem_discount user code =
     bindP (gets (\<lambda>s. get_one (filter (\<lambda>b. bkt_user b = Some (usr_id user)) (baskets s)))) (\<lambda>found.
     case found of
       Inl e \<Rightarrow> if e = ObjectDoesNotExist then ret (Response 406) else raise e
     | Inr b \<Rightarrow>
         bindP (gets (\<lambda>s. code_to_redeem s user b code)) (\<lambda>checked.
         case checked of
           Inl e \<Rightarrow> if e = ObjectDoesNotExist then ret (Response 404) else raise e
         | Inr d \<Rightarrow>
             thenP (delete_basket_discounts (\<lambda>r. bd_redeemed_basket r = bkt_id b))
             (bindP (liftE (\<lambda>s. get_one (items_of s (bkt_id b)))) (\<lambda>i.
              bindP (liftE (\<lambda>s. better_with_assistance s user (bi_product i) d)) (\<lambda>d.
              thenP (save_basket_discount (Some (usr_id user)) b d) (ret (Response 200)))))))"

definition delete_items :: "Basket \<Rightarrow> unit op" where
  "delete_items b = modify (\<lambda>s. s\<lparr>basket_items := filter (\<lambda>i. bi_basket i \<noteq> bkt_id b) (basket_items s)\<rparr>)"

definition add_to_cart :: "User \<Rightarrow> nat \<Rightarrow> response op" where
  "add_to_cart user product_id =
     atomicP
       (bindP (establish_basket_for_request user True) (\<lambda>b.
        bindP (gets (\<lambda>s. set_multiple_cart_items (conf s))) (\<lambda>allow_multiple_items.
        thenP (whenP (\<not> allow_multiple_items) (delete_items b))
        (thenP (delete_basket_discounts (\<lambda>r. bd_redeemed_basket r = bkt_id b))
        (bindP (gets (\<lambda>s. get_active_product s product_id)) (\<lambda>found.
         case found of
           Inl e \<Rightarrow> if e = ObjectDoesNotExist then ret (Response 404) else raise e
         | Inr p \<Rightarrow>
             bindP (gets (\<lambda>s. allow_multiple_items
                 \<and> exists_row (\<lambda>i. prod_id (bi_product i) = prod_id p) (items_of s (bkt_id b)))) (\<lambda>already.
             thenP (whenP (\<not> already) (thenP (create_basket_item b p) (sync_cart_add user p)))
               (ret (Response 200)))))))))"

definition basket_of_request :: "db \<Rightarrow> User \<Rightarrow> Basket option" where
  "basket_of_request s user =
     (if usr_is_authenticated user then first (filter (\<lambda>b. bkt_user b = Some (usr_id user)) (baskets s))
      else if has_text (session_basket s) then first (filter (\<lambda>b. bkt_anonymous_id b = session_basket s) (baskets s))
      else None)"

definition cart :: "User \<Rightarrow> response op" where
  "cart user =
     bindP (gets (\<lambda>s. basket_of_request s user)) (\<lambda>found.
     case found of
       None \<Rightarrow> ret (Response 406)
     | Some b \<Rightarrow>
         bindP (gets (\<lambda>s. get_products s b)) (\<lambda>ps.
         if ps = [] then ret (Response 406)
         else thenP (whenP (usr_is_authenticated user) (apply_user_discounts user)) (ret (Response 200))))"

definition basket_items_count :: "User \<Rightarrow> nat op" where
  "basket_items_count user =
     bindP (if usr_is_authenticated user
            then bindP (get_or_create_basket (Some (usr_id user)) None) (\<lambda>b. ret (Some b))
            else gets (\<lambda>s. basket_of_request s user)) (\<lambda>found.
       gets (\<lambda>s. case found of None \<Rightarrow> 0 | Some b \<Rightarrow> length (items_of s (bkt_id b))))"

section \<open>Checkout pages\<close>

text \<open>\<open>CheckoutProductView\<close>: products by id, and the products of the runs that are named; program
  runs have no products.\<close>

definition products_asked_for :: "db \<Rightarrow> nat list \<Rightarrow> string list \<Rightarrow> Product list" where
  "products_asked_for s product_ids run_ids =
     (let runs_asked = filter (\<lambda>r. run_courseware_id r \<in> set run_ids) (usable_runs s);
          ids = product_ids @ map prod_id (filter (\<lambda>p. prod_content_type p = CT_CourseRun
                   \<and> prod_object_id p \<in> set (map run_id runs_asked)) (products s))
      in filter (\<lambda>p. prod_id p \<in> set ids) (active_products_qs s))"

definition checkout_products :: "User \<Rightarrow> nat list \<Rightarrow> string list \<Rightarrow> response op" where
  "checkout_products user product_ids run_ids =
     thenP (atomicP
       (bindP (establish_basket_for_request user True) (\<lambda>b.
        thenP (delete_items b)
        (thenP (delete_basket_discounts (\<lambda>r. bd_redeemed_basket r = bkt_id b))
        (bindP (gets (\<lambda>s. products_asked_for s product_ids run_ids)) (forP (create_basket_item b)))))))
     (ret (Redirect ''cart''))"

definition anonymous_checkout :: "User \<Rightarrow> response op" where
  "anonymous_checkout user =
     bindP (claim_anonymous_basket user) (\<lambda>_. ret (Redirect ''checkout_interstitial_page''))"

datatype page = NoBasketPage | PageTo redirect | ToProcessor json | PaymentForm json

definition refusal_page :: "refusal \<Rightarrow> redirect" where
  "refusal_page r =
     (case r of
        CountryBlocked \<Rightarrow> ToDashboard ''enroll-blocked'' None
      | PurchasedSameCourserun \<Rightarrow> ToCart ''enroll-duplicated''
      | PurchasedNonUpgradeableCourserun \<Rightarrow> ToCart ''course-non-upgradable''
      | InvalidDiscounts \<Rightarrow> ToCart ''discount-invalid''
      | MissingEnrollmentCode \<Rightarrow> ToCart ''discount-invalid''
      | InvalidB2BBasket \<Rightarrow> ToCart ''discount-invalid''
      | BasketEmpty \<Rightarrow> ToCart ''basket-empty'')"

definition free_order_page :: "processor \<Rightarrow> nat \<Rightarrow> db \<Rightarrow> exn + redirect" where
  "free_order_page px o1 s =
     bindE (get_order s o1) (\<lambda>order.
     bindE (should_redirect_to_learn px s order) (\<lambda>learn.
       if learn then Inr (ToLearn o1)
       else bindE (first_courseware s o1) (\<lambda>c. Inr (ToDashboard ''payment-accepted-no-value'' (Some c)))))"

definition json_text :: "json option \<Rightarrow> string option" where
  "json_text j = (case j of Some (JStr t) \<Rightarrow> Some t | _ \<Rightarrow> None)"

text \<open>A payload with the method GET sends the learner to the processor and leaves the reference of
  the order in the session.\<close>

definition payload_page :: "json \<Rightarrow> page op" where
  "payload_page payload =
     (case jget payload ''method'' of
        None \<Rightarrow> raise PyKeyError
      | Some m \<Rightarrow>
          if m = JStr ''GET''
          then (case (jget payload ''payload'', jget payload ''url'') of
                  (Some session, Some url) \<Rightarrow>
                    thenP (modify (\<lambda>s. s\<lparr>session_order := json_text (jget session ''client_reference_id'')\<rparr>))
                      (ret (ToProcessor url))
                | _ \<Rightarrow> raise PyKeyError)
          else (case jget payload ''payload'' of None \<Rightarrow> raise PyKeyError | Some form \<Rightarrow> ret (PaymentForm form)))"

definition checkout_interstitial :: "ext \<Rightarrow> processor \<Rightarrow> User \<Rightarrow> string \<Rightarrow> page op" where
  "checkout_interstitial x px user ip =
     bindP (catchP (bindP (generate_checkout_payload x px user ip False False None) (\<lambda>r. ret (Some r)))
              (\<lambda>e. if e = ObjectDoesNotExist then ret None else raise e)) (\<lambda>res.
     case res of
       None \<Rightarrow> ret NoBasketPage
     | Some (Refused r) \<Rightarrow> ret (PageTo (refusal_page r))
     | Some (NoCheckout o1) \<Rightarrow> bindP (liftE (free_order_page px o1)) (\<lambda>r. ret (PageTo r))
     | Some (Payload payload) \<Rightarrow> payload_page payload)"

text \<open>\<open>CheckoutCallbackView.get\<close>: where the learner lands when Stripe sends them back.\<close>

definition checkout_return :: "processor \<Rightarrow> db \<Rightarrow> exn + redirect" where
  "checkout_return px s =
     (if has_text (session_order s)
      then (case first (filter (\<lambda>r. ord_reference_number r = session_order s) (orders s)) of
              None \<Rightarrow> Inr (ToDashboard [] None)
            | Some order \<Rightarrow>
                bindE (should_redirect_to_learn px s order) (\<lambda>learn.
                  Inr (if learn then ToLearn (ord_id order) else ToDashboard [] None)))
      else Inr (ToDashboard [] None))"

end
