(* ===== verification/Organizations.thy ===== *)
theory Organizations
  imports Enrollments
begin

text \<open>
  The organizations of a learner (\<open>reconcile_user_orgs\<close> in \<open>src/b2b/api.py\<close>): on every request the
  memberships are brought in line with the organizations that the single sign-on names, with a
  cache that skips the work when nothing changed.
\<close>

section \<open>The reconciliation\<close>

text \<open>The cache holds, per user, the SSO ids of the memberships and whether the payload is expected
  to name them.  It is written sorted and compared sorted: only the elements matter.\<close>

definition same_elements :: "'a list \<Rightarrow> 'a list \<Rightarrow> bool" where
  "same_elements xs ys \<longleftrightarrow> list_all (\<lambda>x. count_list xs x = count_list ys x) (xs @ ys)"

definition cached_membership :: "db \<Rightarrow> nat \<Rightarrow> (string \<times> bool) list" where
  "cached_membership s user = (case map_of (org_cache s) user of None \<Rightarrow> [] | Some xs \<Rightarrow> xs)"

definition nothing_to_do :: "db \<Rightarrow> nat \<Rightarrow> string list \<Rightarrow> bool" where
  "nothing_to_do s user ids \<longleftrightarrow> cached_membership s user \<noteq> []
     \<and> same_elements (map fst (filter snd (cached_membership s user))) ids"

definition is_member :: "db \<Rightarrow> nat \<Rightarrow> nat \<Rightarrow> bool" where
  "is_member s user org = exists_row (\<lambda>m. uo_user m = user \<and> uo_organization m = org) (user_organizations s)"

definition named :: "string list \<Rightarrow> string option \<Rightarrow> bool" where
  "named ids i = (case i of None \<Rightarrow> False | Some i \<Rightarrow> i \<in> set ids)"

definition orgs_to_add :: "db \<Rightarrow> nat \<Rightarrow> string list \<Rightarrow> Organization list" where
  "orgs_to_add s user ids =
     filter (\<lambda>r. named ids (orgn_sso_organization_id r) \<and> \<not> is_member s user (orgn_id r)) (organizations s)"

definition sso_id :: "db \<Rightarrow> nat \<Rightarrow> string option" where
  "sso_id s org = (case first (filter (\<lambda>r. orgn_id r = org) (organizations s)) of
     None \<Rightarrow> None | Some r \<Rightarrow> orgn_sso_organization_id r)"

definition orgs_to_remove :: "db \<Rightarrow> nat \<Rightarrow> string list \<Rightarrow> UserOrganization list" where
  "orgs_to_remove s user ids =
     filter (\<lambda>m. uo_user m = user \<and> \<not> uo_keep_until_seen m \<and> sso_id s (uo_organization m) \<noteq> None
               \<and> \<not> named ids (sso_id s (uo_organization m))) (user_organizations s)"

definition set_membership :: "nat \<Rightarrow> nat \<Rightarrow> unit op" where
  "set_membership user org = modify (\<lambda>s. s\<lparr>user_organizations :=
     (if is_member s user org
      then update_rows (\<lambda>m. uo_user m = user \<and> uo_organization m = org) (\<lambda>m. m\<lparr>uo_keep_until_seen := False\<rparr>)
             (user_organizations s)
      else user_organizations s @ [\<lparr>uo_user = user, uo_organization = org, uo_keep_until_seen = False, uo_is_manager = False\<rparr>])\<rparr>)"

definition delete_membership :: "UserOrganization \<Rightarrow> unit op" where
  "delete_membership d = modify (\<lambda>s. s\<lparr>user_organizations :=
     filter (\<lambda>m. \<not> (uo_user m = uo_user d \<and> uo_organization m = uo_organization d)) (user_organizations s)\<rparr>)"

definition clear_seen :: "nat \<Rightarrow> string list \<Rightarrow> unit op" where
  "clear_seen user ids = modify (\<lambda>s. s\<lparr>user_organizations :=
     update_rows (\<lambda>m. uo_user m = user \<and> named ids (sso_id s (uo_organization m)) \<and> uo_keep_until_seen m)
       (\<lambda>m. m\<lparr>uo_keep_until_seen := False\<rparr>) (user_organizations s)\<rparr>)"

definition none_text :: "string option \<Rightarrow> string" where
  "none_text t = (case t of None \<Rightarrow> ''None'' | Some x \<Rightarrow> x)"

definition membership_snapshot :: "db \<Rightarrow> nat \<Rightarrow> (string \<times> bool) list" where
  "membership_snapshot s user =
     map (\<lambda>m. (none_text (sso_id s (uo_organization m)), \<not> uo_keep_until_seen m))
       (filter (\<lambda>m. uo_user m = user) (user_organizations s))"

text \<open>
  The SSO id is a \<open>UUIDField\<close>: Django turns the ids of the payload into UUIDs when the query sets
  are built, before anything is written, and what is none raises.  \<open>to_uuid\<close> stands for that
  conversion; the UUIDs of the model are their canonical texts.  The cache holds canonical texts
  and is compared with the payload as it came.
\<close>

definition org_uuids :: "(string \<Rightarrow> string option) \<Rightarrow> string list \<Rightarrow> exn + string list" where
  "org_uuids to_uuid ids = mapE (\<lambda>i. case to_uuid i of None \<Rightarrow> Inl ValidationError | Some u \<Rightarrow> Inr u) ids"

definition reconcile_user_orgs :: "(string \<Rightarrow> string option) \<Rightarrow> nat \<Rightarrow> string list \<Rightarrow> (nat \<times> nat) op" where
  "reconcile_user_orgs to_uuid user payload =
     bindP (gets (\<lambda>s. nothing_to_do s user payload)) (\<lambda>skip.
     if skip then ret (0, 0)
     else bindP (liftE (\<lambda>_. org_uuids to_uuid payload)) (\<lambda>ids.
       bindP (gets (\<lambda>s. orgs_to_add s user ids)) (\<lambda>new.
       thenP (forP (\<lambda>r. thenP (set_membership user (orgn_id r)) (add_user_contracts (orgn_id r) user)) new)
       (bindP (gets (\<lambda>s. orgs_to_remove s user ids)) (\<lambda>old.
        thenP (forP (\<lambda>m. thenP (remove_user_contracts (uo_organization m) user) (delete_membership m)) old)
        (bindP (gets (\<lambda>s. membership_snapshot s user)) (\<lambda>snapshot.
         thenP (clear_seen user ids)
         (thenP (modify (\<lambda>s. s\<lparr>org_cache := AList.update user snapshot (org_cache s)\<rparr>))
           (ret (length new, length old))))))))))"

section \<open>The memberships as a map\<close>

text \<open>The memberships of one user: the organizations, each with its flag.\<close>

definition memberships :: "db \<Rightarrow> nat \<Rightarrow> nat \<Rightarrow> bool option" where
  "memberships s user org = map_option uo_keep_until_seen
     (first (filter (\<lambda>m. uo_user m = user \<and> uo_organization m = org) (user_organizations s)))"

text \<open>
  What the reconciliation is for: of the organizations with an SSO id, the learner is in those
  that the payload (its ids as UUIDs) names and in those that are kept until they are seen; the flag is cleared
  when they are seen.
\<close>

definition reconciled :: "db \<Rightarrow> string list \<Rightarrow> (nat \<Rightarrow> bool option) \<Rightarrow> nat \<Rightarrow> bool option" where
  "reconciled s ids M org =
     (case sso_id s org of
        None \<Rightarrow> M org
      | Some i \<Rightarrow> if i \<in> set ids then Some False else if M org = Some True then Some True else None)"

text \<open>One row per user and organization, organizations have distinct keys.\<close>

definition organizations_ok :: "db \<Rightarrow> bool" where
  "organizations_ok s \<longleftrightarrow> distinct (map (\<lambda>m. (uo_user m, uo_organization m)) (user_organizations s))
     \<and> distinct (map orgn_id (organizations s))"

definition same_orgs :: "db \<Rightarrow> db \<Rightarrow> bool" where
  "same_orgs s t \<longleftrightarrow> organizations t = organizations s \<and> contracts t = contracts s"

lemma sso_id_same: "same_orgs s t \<Longrightarrow> sso_id t = sso_id s"
  by (rule ext) (simp add: sso_id_def same_orgs_def)

lemma sso_id_row: "distinct (map orgn_id (organizations s)) \<Longrightarrow> r \<in> set (organizations s) \<Longrightarrow>
    sso_id s (orgn_id r) = orgn_sso_organization_id r"
  by (simp add: sso_id_def filter_key_unique)

lemma memberships_Some: "memberships s user org \<noteq> None \<longleftrightarrow> is_member s user org"
  by (auto simp: memberships_def is_member_def exists_row_iff)

lemma memberships_append:
  "memberships (s\<lparr>user_organizations := user_organizations s @ [m]\<rparr>) user org =
     (case memberships s user org of Some k \<Rightarrow> Some k
      | None \<Rightarrow> if uo_user m = user \<and> uo_organization m = org then Some (uo_keep_until_seen m) else None)"
proof -
  have "first (xs @ ys) = (case first xs of None \<Rightarrow> first ys | Some x \<Rightarrow> Some x)" for xs ys :: "'a list"
    by (cases xs) auto
  from this [of "filter (\<lambda>m. uo_user m = user \<and> uo_organization m = org) (user_organizations s)"]
  show ?thesis unfolding memberships_def by (auto split: option.split)
qed

text \<open>Adding the contracts of an organization only writes users.\<close>

lemma add_contracts_run:
  "\<exists>t. add_user_contracts org user s = (Inr (), t) \<and> same_orgs s t \<and> user_organizations t = user_organizations s
     \<and> org_cache t = org_cache s"
proof -
  have "never_raises (add_user_contracts org user)"
    unfolding add_user_contracts_def add_user_contract_def by (intro never_raises_intro)
  then obtain x t where "add_user_contracts org user s = (Inr x, t)" by (rule never_raisesE)
  then have t: "add_user_contracts org user s = (Inr (), t)" by simp
  let ?P = "\<lambda>t. same_orgs s t \<and> user_organizations t = user_organizations s \<and> org_cache t = org_cache s"
  have "keeps ?P (add_user_contracts org user)"
    unfolding add_user_contracts_def add_user_contract_def by (intro keeps_intro keeps_modify) (auto simp: same_orgs_def)
  moreover have "?P s" by (simp add: same_orgs_def)
  ultimately have "?P (snd (add_user_contracts org user s))" by (rule keepsD)
  then show ?thesis using t by simp
qed

lemma set_new_membership:
  assumes "memberships s user org = None"
  shows "\<exists>t. set_membership user org s = (Inr (), t) \<and> same_orgs s t \<and> org_cache t = org_cache s
    \<and> memberships t = (memberships s)(user := (memberships s user)(org \<mapsto> False))
    \<and> (organizations_ok s \<longrightarrow> organizations_ok t)"
proof -
  let ?m = "\<lparr>uo_user = user, uo_organization = org, uo_keep_until_seen = False, uo_is_manager = False\<rparr>"
  let ?t = "s\<lparr>user_organizations := user_organizations s @ [?m]\<rparr>"
  have new: "\<not> is_member s user org" using assms memberships_Some by metis
  then have run: "set_membership user org s = (Inr (), ?t)" by (simp add: set_membership_def modify_def)
  have "memberships ?t = (memberships s)(user := (memberships s user)(org \<mapsto> False))"
    using assms by (intro ext) (auto simp: memberships_append split: option.split)
  moreover have "organizations_ok s \<longrightarrow> organizations_ok ?t"
    using new by (auto simp: organizations_ok_def is_member_def exists_row_iff)
  ultimately show ?thesis using run by (simp add: same_orgs_def)
qed

lemma add_orgs_run:
  assumes "distinct (map orgn_id rs)" "\<forall>r \<in> set rs. memberships s user (orgn_id r) = None"
  shows "\<exists>t. forP (\<lambda>r. thenP (set_membership user (orgn_id r)) (add_user_contracts (orgn_id r) user)) rs s = (Inr (), t)
    \<and> same_orgs s t \<and> org_cache t = org_cache s
    \<and> memberships t = (memberships s)(user := (\<lambda>org. if org \<in> orgn_id ` set rs then Some False else memberships s user org))
    \<and> (organizations_ok s \<longrightarrow> organizations_ok t)"
  using assms
proof (induction rs arbitrary: s)
  case Nil
  then show ?case by (simp add: ret_def same_orgs_def)
next
  case (Cons r rs)
  let ?f = "\<lambda>r. thenP (set_membership user (orgn_id r)) (add_user_contracts (orgn_id r) user)"
  from Cons.prems(2) have "memberships s user (orgn_id r) = None" by simp
  from set_new_membership [OF this] obtain s1 where
    1: "set_membership user (orgn_id r) s = (Inr (), s1)" "same_orgs s s1" "org_cache s1 = org_cache s"
      "memberships s1 = (memberships s)(user := (memberships s user)(orgn_id r \<mapsto> False))"
      "organizations_ok s \<longrightarrow> organizations_ok s1" by blast
  obtain s2 where 2: "add_user_contracts (orgn_id r) user s1 = (Inr (), s2)" "same_orgs s1 s2"
      "user_organizations s2 = user_organizations s1" "org_cache s2 = org_cache s1"
    using add_contracts_run by blast
  have m2: "memberships s2 = memberships s1" by (intro ext) (simp add: memberships_def 2(3))
  have "orgn_id r' \<noteq> orgn_id r" if "r' \<in> set rs" for r' using Cons.prems(1) that by (metis distinct.simps(2) image_eqI list.simps(9) set_map)
  then have "\<forall>r' \<in> set rs. memberships s2 user (orgn_id r') = None"
    using Cons.prems(2) unfolding m2 1(4) by simp
  moreover have "distinct (map orgn_id rs)" using Cons.prems(1) by simp
  ultimately obtain t where
    3: "forP ?f rs s2 = (Inr (), t)" "same_orgs s2 t" "org_cache t = org_cache s2"
      "memberships t = (memberships s2)(user := (\<lambda>org. if org \<in> orgn_id ` set rs then Some False else memberships s2 user org))"
      "organizations_ok s2 \<longrightarrow> organizations_ok t" using Cons.IH [of s2] by blast
  have "?f r s = (Inr (), s2)"
    by (simp add: thenP_Inr [where m = "set_membership user (orgn_id r)", OF 1(1)] 2(1))
  then have "forP ?f (r # rs) s = (Inr (), t)" using 3(1) by (simp add: thenP_Inr [where m = "?f r"])
  moreover have "same_orgs s t" using 1(2) 2(2) 3(2) by (simp add: same_orgs_def)
  moreover have "organizations_ok s2 = organizations_ok s1" using 2 by (simp add: organizations_ok_def same_orgs_def)
  moreover have "memberships t = (memberships s)(user := (\<lambda>org. if org \<in> orgn_id ` set (r # rs) then Some False else memberships s user org))"
    unfolding 3(4) m2 1(4) by (intro ext) auto
  ultimately show ?case using 1(3,5) 2(4) 3(3,5) by auto
qed

lemma delete_run:
  "\<exists>t. thenP (remove_user_contracts (uo_organization d) user) (delete_membership d) s = (Inr (), t)
    \<and> same_orgs s t \<and> org_cache t = org_cache s
    \<and> memberships t = (memberships s)(uo_user d := (memberships s (uo_user d))(uo_organization d := None))
    \<and> (organizations_ok s \<longrightarrow> organizations_ok t)"
proof -
  let ?k = "\<lambda>m. \<not> (uo_user m = uo_user d \<and> uo_organization m = uo_organization d)"
  have "memberships t = (memberships s)(uo_user d := (memberships s (uo_user d))(uo_organization d := None))"
    if "user_organizations t = filter ?k (user_organizations s)" for t
  proof (intro ext)
    fix u org
    have "filter (\<lambda>m. uo_user m = u \<and> uo_organization m = org) (filter ?k (user_organizations s)) =
        (if u = uo_user d \<and> org = uo_organization d then [] else filter (\<lambda>m. uo_user m = u \<and> uo_organization m = org) (user_organizations s))"
      by (auto intro!: filter_cong simp: filter_empty_conv)
    then show "memberships t u org
        = ((memberships s)(uo_user d := (memberships s (uo_user d))(uo_organization d := None))) u org"
      unfolding memberships_def that by auto
  qed
  then show ?thesis
    by (simp add: thenP_def bindP_def remove_user_contracts_def delete_membership_def modify_def Let_def same_orgs_def
        organizations_ok_def distinct_map_filter)
qed

lemma remove_orgs_run:
  assumes "\<forall>d \<in> set ds. uo_user d = user"
  shows "\<exists>t. forP (\<lambda>m. thenP (remove_user_contracts (uo_organization m) user) (delete_membership m)) ds s = (Inr (), t)
    \<and> same_orgs s t \<and> org_cache t = org_cache s
    \<and> memberships t = (memberships s)(user := (\<lambda>org. if org \<in> uo_organization ` set ds then None else memberships s user org))
    \<and> (organizations_ok s \<longrightarrow> organizations_ok t)"
  using assms
proof (induction ds arbitrary: s)
  case Nil
  then show ?case by (simp add: ret_def same_orgs_def)
next
  case (Cons d ds)
  let ?f = "\<lambda>m. thenP (remove_user_contracts (uo_organization m) user) (delete_membership m)"
  obtain s1 where 1: "?f d s = (Inr (), s1)" "same_orgs s s1" "org_cache s1 = org_cache s"
      "memberships s1 = (memberships s)(uo_user d := (memberships s (uo_user d))(uo_organization d := None))"
      "organizations_ok s \<longrightarrow> organizations_ok s1" using delete_run by blast
  have "\<forall>d \<in> set ds. uo_user d = user" using Cons.prems by simp
  from Cons.IH [OF this, of s1] obtain t where 2: "forP ?f ds s1 = (Inr (), t)" "same_orgs s1 t" "org_cache t = org_cache s1"
      "memberships t = (memberships s1)(user := (\<lambda>org. if org \<in> uo_organization ` set ds then None else memberships s1 user org))"
      "organizations_ok s1 \<longrightarrow> organizations_ok t" by blast
  have "forP ?f (d # ds) s = (Inr (), t)" using 2(1) by (simp add: thenP_Inr [where m = "?f d", OF 1(1)])
  moreover have "memberships t = (memberships s)(user := (\<lambda>org. if org \<in> uo_organization ` set (d # ds) then None else memberships s user org))"
    unfolding 2(4) 1(4) using Cons.prems by (intro ext) auto
  ultimately show ?case using 1(2,3,5) 2(2,3,5) by (auto simp: same_orgs_def)
qed

lemma clear_seen_run:
  "\<exists>t. clear_seen user ids s = (Inr (), t) \<and> same_orgs s t \<and> org_cache t = org_cache s
    \<and> memberships t = (memberships s)(user := (\<lambda>org. map_option (\<lambda>k. k \<and> \<not> named ids (sso_id s org)) (memberships s user org)))
    \<and> (organizations_ok s \<longrightarrow> organizations_ok t)"
proof -
  let ?p = "\<lambda>m. uo_user m = user \<and> named ids (sso_id s (uo_organization m)) \<and> uo_keep_until_seen m"
  let ?t = "s\<lparr>user_organizations := update_rows ?p (\<lambda>m. m\<lparr>uo_keep_until_seen := False\<rparr>) (user_organizations s)\<rparr>"
  have m: "memberships ?t u org = ((memberships s)(user := (\<lambda>org. map_option (\<lambda>k. k \<and> \<not> named ids (sso_id s org))
      (memberships s user org)))) u org" for u org
  proof -
    let ?q = "\<lambda>m. uo_user m = u \<and> uo_organization m = org"
    have "first (filter ?q (user_organizations ?t)) =
        map_option (\<lambda>x. if ?p x then x\<lparr>uo_keep_until_seen := False\<rparr> else x) (first (filter ?q (user_organizations s)))"
      by (simp add: first_update_rows)
    note step = this
    show ?thesis
    proof (cases "first (filter ?q (user_organizations s))")
      case None
      then show ?thesis using step by (cases "u = user") (simp_all add: memberships_def del: first_filter_None)
    next
      case (Some x)
      then have x: "?q x" using first_filter_SomeD by fastforce
      have "memberships s u org = Some (uo_keep_until_seen x)" using Some by (simp add: memberships_def)
      moreover have "memberships ?t u org = Some (uo_keep_until_seen (if ?p x then x\<lparr>uo_keep_until_seen := False\<rparr> else x))"
        using step Some by (simp add: memberships_def)
      ultimately show ?thesis using x by auto
    qed
  qed
  have ok: "organizations_ok s \<longrightarrow> organizations_ok ?t" by (simp add: organizations_ok_def map_update_rows)
  show ?thesis using ok m by (auto simp: clear_seen_def modify_def same_orgs_def intro!: ext)
qed

lemma kept_keys: "organizations_ok s \<Longrightarrow> m \<in> set (user_organizations s) \<Longrightarrow>
    memberships s (uo_user m) (uo_organization m) = Some (uo_keep_until_seen m)"
  using filter_key_unique [of "\<lambda>m. (uo_user m, uo_organization m)" "user_organizations s" m]
  by (simp add: organizations_ok_def memberships_def)

lemma to_remove_keys:
  assumes ok: "organizations_ok s"
  shows "org \<in> uo_organization ` set (orgs_to_remove s user ids) \<longleftrightarrow>
    memberships s user org = Some False \<and> sso_id s org \<noteq> None \<and> \<not> named ids (sso_id s org)"
proof
  assume "org \<in> uo_organization ` set (orgs_to_remove s user ids)"
  then show "memberships s user org = Some False \<and> sso_id s org \<noteq> None \<and> \<not> named ids (sso_id s org)"
    using kept_keys [OF ok] by (auto simp: orgs_to_remove_def)
next
  assume r: "memberships s user org = Some False \<and> sso_id s org \<noteq> None \<and> \<not> named ids (sso_id s org)"
  then obtain m where "first (filter (\<lambda>m. uo_user m = user \<and> uo_organization m = org) (user_organizations s)) = Some m"
      "\<not> uo_keep_until_seen m" by (auto simp: memberships_def)
  then show "org \<in> uo_organization ` set (orgs_to_remove s user ids)"
    using r by (auto simp: orgs_to_remove_def dest!: first_filter_SomeD)
qed

lemma reconcile_refines:
  assumes ok: "organizations_ok s" and miss: "\<not> nothing_to_do s user payload"
    and ids: "org_uuids to_uuid payload = Inr ids"
  shows "\<exists>n t. reconcile_user_orgs to_uuid user payload s = (Inr n, t)
    \<and> memberships t = (memberships s)(user := reconciled s ids (memberships s user)) \<and> organizations_ok t"
proof -
  let ?new = "orgs_to_add s user ids"
  have keys: "org \<in> orgn_id ` set ?new \<longleftrightarrow> named ids (sso_id s org) \<and> memberships s user org = None" for org
  proof
    assume "org \<in> orgn_id ` set ?new"
    then show "named ids (sso_id s org) \<and> memberships s user org = None"
      using ok sso_id_row [of s] memberships_Some [of s user org] by (auto simp: orgs_to_add_def organizations_ok_def)
  next
    assume r: "named ids (sso_id s org) \<and> memberships s user org = None"
    then obtain r where "first (filter (\<lambda>r. orgn_id r = org) (organizations s)) = Some r"
        "named ids (orgn_sso_organization_id r)" by (auto simp: sso_id_def named_def split: option.splits)
    then show "org \<in> orgn_id ` set ?new"
      using r memberships_Some [of s user org] by (auto simp: orgs_to_add_def dest!: first_filter_SomeD)
  qed
  have "distinct (map orgn_id ?new)" using ok by (simp add: organizations_ok_def orgs_to_add_def distinct_map_filter)
  moreover have "\<forall>r \<in> set ?new. memberships s user (orgn_id r) = None" using keys by blast
  ultimately obtain s1 where 1: "forP (\<lambda>r. thenP (set_membership user (orgn_id r)) (add_user_contracts (orgn_id r) user)) ?new s = (Inr (), s1)"
      "same_orgs s s1" "memberships s1 = (memberships s)(user := (\<lambda>org. if org \<in> orgn_id ` set ?new then Some False else memberships s user org))"
      "organizations_ok s \<longrightarrow> organizations_ok s1" using add_orgs_run by blast
  let ?old = "orgs_to_remove s1 user ids"
  have ok1: "organizations_ok s1" using 1(4) ok by blast
  have "\<forall>d \<in> set ?old. uo_user d = user" by (simp add: orgs_to_remove_def)
  then obtain s2 where 2: "forP (\<lambda>m. thenP (remove_user_contracts (uo_organization m) user) (delete_membership m)) ?old s1 = (Inr (), s2)"
      "same_orgs s1 s2" "memberships s2 = (memberships s1)(user := (\<lambda>org. if org \<in> uo_organization ` set ?old then None else memberships s1 user org))"
      "organizations_ok s1 \<longrightarrow> organizations_ok s2" using remove_orgs_run by blast
  obtain s3 where 3: "clear_seen user ids s2 = (Inr (), s3)" "same_orgs s2 s3"
      "memberships s3 = (memberships s2)(user := (\<lambda>org. map_option (\<lambda>k. k \<and> \<not> named ids (sso_id s2 org)) (memberships s2 user org)))"
      "organizations_ok s2 \<longrightarrow> organizations_ok s3" using clear_seen_run by blast
  let ?t = "s3\<lparr>org_cache := AList.update user (membership_snapshot s2 user) (org_cache s3)\<rparr>"
  have run: "reconcile_user_orgs to_uuid user payload s = (Inr (length ?new, length ?old), ?t)"
    using miss ids
    by (simp add: reconcile_user_orgs_def liftE_bind
        thenP_Inr [where m = "forP (\<lambda>r. thenP (set_membership user (orgn_id r)) (add_user_contracts (orgn_id r) user)) ?new", OF 1(1)]
        thenP_Inr [where m = "forP (\<lambda>m. thenP (remove_user_contracts (uo_organization m) user) (delete_membership m)) ?old", OF 2(1)]
        thenP_Inr [where m = "clear_seen user ids", OF 3(1)])
      (simp add: thenP_def bindP_def modify_def ret_def)
  have sso: "sso_id s1 = sso_id s" "sso_id s2 = sso_id s" using sso_id_same 1(2) 2(2) by metis+
  have m: "memberships ?t = memberships s3" by (intro ext) (simp add: memberships_def)
  have "memberships s3 user org = reconciled s ids (memberships s user) org" for org
    unfolding 3(3) 2(3) fun_upd_same to_remove_keys [OF ok1] sso
    by (cases "memberships s user org") (auto simp: 1(3) keys reconciled_def named_def split: option.splits)
  moreover have "memberships s3 u = memberships s u" if "u \<noteq> user" for u using that by (simp add: 3(3) 2(3) 1(3))
  ultimately have "memberships ?t = (memberships s)(user := reconciled s ids (memberships s user))"
    unfolding m by (intro ext) auto
  moreover have "organizations_ok ?t" using 2(4) 3(4) ok1 by (simp add: organizations_ok_def)
  ultimately show ?thesis using run by blast
qed

text \<open>A cache that agrees with the payload, or an id that is no UUID: nothing is written.\<close>

lemma reconcile_skips: "nothing_to_do s user payload \<Longrightarrow> reconcile_user_orgs to_uuid user payload s = (Inr (0, 0), s)"
  by (simp add: reconcile_user_orgs_def ret_def)

lemma reconcile_malformed:
  "\<not> nothing_to_do s user payload \<Longrightarrow> org_uuids to_uuid payload = Inl e \<Longrightarrow>
     reconcile_user_orgs to_uuid user payload s = (Inl e, s)"
  by (simp add: reconcile_user_orgs_def liftE_bind)

lemma org_uuids_Inl: "org_uuids to_uuid ids = Inl e \<Longrightarrow> e = ValidationError"
  unfolding org_uuids_def by (induction ids) (auto split: sum.splits option.splits)

lemma org_uuids_Inr: "(\<exists>us. org_uuids to_uuid ids = Inr us) = (\<forall>i \<in> set ids. to_uuid i \<noteq> None)"
  unfolding org_uuids_def by (induction ids) (auto split: sum.splits option.splits)

lemma org_uuids_set: "org_uuids to_uuid ids = Inr us \<Longrightarrow> us = map (\<lambda>i. the (to_uuid i)) ids"
  unfolding org_uuids_def by (induction ids arbitrary: us) (auto split: sum.splits option.splits)

text \<open>Every case of the reconciliation.\<close>

lemma reconcile_cases:
  assumes "organizations_ok s"
  shows "reconcile_user_orgs to_uuid user payload s = (Inr (0, 0), s) \<and> nothing_to_do s user payload
    \<or> reconcile_user_orgs to_uuid user payload s = (Inl ValidationError, s) \<and> \<not> nothing_to_do s user payload
        \<and> list_ex (\<lambda>i. to_uuid i = None) payload
    \<or> (\<exists>n t. reconcile_user_orgs to_uuid user payload s = (Inr n, t) \<and> \<not> nothing_to_do s user payload
        \<and> list_all (\<lambda>i. to_uuid i \<noteq> None) payload
        \<and> memberships t = (memberships s)(user := reconciled s (map (\<lambda>i. the (to_uuid i)) payload) (memberships s user))
        \<and> organizations_ok t)"
proof (cases "nothing_to_do s user payload")
  case False
  show ?thesis
  proof (cases "org_uuids to_uuid payload")
    case (Inl e)
    then have "\<not> (\<forall>i \<in> set payload. to_uuid i \<noteq> None)" using org_uuids_Inr [of to_uuid payload] by auto
    then show ?thesis
      using False Inl reconcile_malformed org_uuids_Inl [OF Inl] by (auto simp: list_ex_iff)
  next
    case (Inr us)
    then have "\<forall>i \<in> set payload. to_uuid i \<noteq> None" using org_uuids_Inr [of to_uuid payload] by blast
    then show ?thesis using reconcile_refines [OF assms False Inr] False org_uuids_set [OF Inr]
      by (simp add: list_all_iff)
  qed
qed (simp add: reconcile_skips)

end
