(* ===== verification/Deferrals.thy ===== *)
theory Deferrals
  imports Enrollments
begin

text \<open>
  What a deferral achieves (\<open>defer_enrollment\<close> in \<open>src/courses/api.py\<close>): where the learner's
  enrollments are afterwards, and which run the payment is for.
\<close>

text \<open>Payments and orders are left alone by enrolling, and by leaving a run that nobody paid for.\<close>

interpretation paid_orders_frame: enrollment_frame "\<lambda>s. paid_course_runs s = ps \<and> orders s = os" for ps os
  by unfold_locales simp_all

lemma keeps_unpaid_deactivate:
  assumes "\<forall>p \<in> set ps. \<not> (pcr_user p = cre_user e \<and> pcr_course_run p = run_id (cre_run e))"
  shows "keeps (\<lambda>s. paid_course_runs s = ps \<and> orders s = os) (deactivate_run_enrollment x e cs k n)"
proof -
  have "filter (\<lambda>p. \<not> (pcr_user p = cre_user e \<and> pcr_course_run p = run_id (cre_run e))) ps = ps"
    using assms by (simp add: filter_id_conv)
  then have "keeps (\<lambda>s. paid_course_runs s = ps \<and> orders s = os)
      (modify (\<lambda>s. s\<lparr>paid_course_runs := filter (\<lambda>p. \<not> (pcr_user p = cre_user e
          \<and> pcr_course_run p = run_id (cre_run e))) (paid_course_runs s)\<rparr>))"
    by (auto simp: keeps_def modify_def)
  moreover have "keeps (\<lambda>s. paid_course_runs s = ps \<and> orders s = os) (sync_hubspot_line_by_line_id l)" for l
    by (cases l) (simp_all add: keeps_def sync_hubspot_line_by_line_id_def emit_def modify_def)
  ultimately show ?thesis
    unfolding deactivate_run_enrollment_def deactivate_and_save_def Let_def
    by (intro keeps_intro paid_orders_frame.keeps_emits paid_orders_frame.keeps_save_run)
qed

lemma update_first_none: "\<forall>x \<in> set xs. \<not> p x \<Longrightarrow> update_first p f xs = xs"
  by (induction xs) auto

text \<open>The fulfilled payment of the learner for the run that is left.\<close>

definition fulfilled_payment :: "db \<Rightarrow> nat \<Rightarrow> nat \<Rightarrow> PaidCourseRun \<Rightarrow> bool" where
  "fulfilled_payment s u r p \<longleftrightarrow> pcr_user p = u \<and> pcr_course_run p = r \<and> order_state s (pcr_order p) = Some FULFILLED"

lemma move_payment_run:
  assumes f: "cre_user f = u" and un: "unpaid u (run_id to_run) s"
  shows "\<exists>t. bindP (gets (\<lambda>s. fulfilled_paid_course_run_exists s u (cre_run f))) (\<lambda>paid.
      whenP paid (change_payment_to_run f to_run)) s = (Inr (), t)
    \<and> same_enrollments s t
    \<and> paid_course_runs t = update_first (fulfilled_payment s u (run_id (cre_run f)))
        (\<lambda>p. p\<lparr>pcr_course_run := run_id to_run\<rparr>) (paid_course_runs s)"
proof -
  let ?mine = "fulfilled_payment s u (run_id (cre_run f))"
  have ex: "fulfilled_paid_course_run_exists s u (cre_run f) \<longleftrightarrow> (\<exists>p \<in> set (paid_course_runs s). ?mine p)"
    by (simp add: fulfilled_paid_course_run_exists_def exists_row_iff fulfilled_payment_def)
  show ?thesis
  proof (cases "\<exists>p \<in> set (paid_course_runs s). ?mine p")
    case False
    then show ?thesis
      using update_first_none [of "paid_course_runs s" ?mine] ex by (simp add: whenP_def ret_def same_enrollments_def)
  next
    case True
    have mine: "(\<lambda>p. pcr_user p = cre_user f \<and> pcr_course_run p = run_id (cre_run f)
        \<and> order_state s (pcr_order p) = Some FULFILLED) = ?mine"
      by (rule ext) (simp add: fulfilled_payment_def f)
    obtain p where p: "first (filter ?mine (paid_course_runs s)) = Some p"
      using True by (cases "first (filter ?mine (paid_course_runs s))") (auto simp: filter_empty_conv)
    then have "?mine p" using first_filter_SomeD by fast
    then have "\<not> exists_row (\<lambda>q. pcr_user q = pcr_user p \<and> pcr_course_run q = run_id to_run
        \<and> pcr_order q = pcr_order p) (paid_course_runs s)"
      using un by (auto simp: exists_row_iff unpaid_def fulfilled_payment_def)
    then have "change_payment_to_run f to_run s = (Inr (), s\<lparr>paid_course_runs :=
        update_first ?mine (\<lambda>p. p\<lparr>pcr_course_run := run_id to_run\<rparr>) (paid_course_runs s)\<rparr>)"
      unfolding change_payment_to_run_def Let_def mine using p by simp
    then show ?thesis using True ex by (simp add: whenP_def same_enrollments_def)
  qed
qed

text \<open>edX grants what the deferral asks of it: leaving the audit track of the target, the verified
  enrollment there, and audit in the run that is left.\<close>

definition edx_grants :: "edx \<Rightarrow> db \<Rightarrow> nat \<Rightarrow> CourseRun \<Rightarrow> CourseRun \<Rightarrow> bool" where
  "edx_grants x s u from_run to_run \<longleftrightarrow>
     (case active_enrollment_in_mode s u to_run audit_mode of
        None \<Rightarrow> True | Some e \<Rightarrow> unenroll_edx_course_run x e = Inr ())
     \<and> edx_request x u to_run [to_run] verified_mode \<and> edx_request x u from_run [from_run] audit_mode"

lemma leave_audit_run:
  assumes ok: "enrollments_ok s" and un: "unpaid u (run_id to_run) s"
    and go: "case active_enrollment_in_mode s u to_run audit_mode of
        None \<Rightarrow> True | Some e \<Rightarrow> unenroll_edx_course_run x e = Inr ()"
  shows "\<exists>t. leave_audit_target x u to_run keep s = (Inr (), t) \<and> enrollments_ok t
    \<and> (\<forall>k. k \<noteq> (u, run_id to_run) \<longrightarrow> find_run_enrollment t k = find_run_enrollment s k)
    \<and> paid_course_runs t = paid_course_runs s \<and> orders t = orders s"
proof (cases "active_enrollment_in_mode s u to_run audit_mode")
  case None
  then show ?thesis using ok by (simp add: leave_audit_target_def ret_def)
next
  case (Some e)
  then have e: "e \<in> set (run_enrollments s)" "cre_key e = (u, run_id to_run)"
    unfolding active_enrollment_in_mode_def by (auto dest!: first_filter_SomeD)
  have un_e: "unenroll_edx_course_run x e = Inr ()" using go Some by simp
  have found: "find_run_enrollment s (cre_key e) = Some e" by (rule find_run_enrollment_mem [OF ok e(1)])
  obtain e' t where t: "deactivate_run_enrollment x e status_unenrolled (Some keep) True s = (Inr (Some e'), t)"
      "enrollments_ok t" "\<not> cre_edx_enrolled e'"
      "find_run_enrollment t = (find_run_enrollment s)(cre_key e := Some e')"
    using deactivate_ok [OF ok found, of x keep status_unenrolled True] un_e by auto
  have "keeps (\<lambda>t. paid_course_runs t = paid_course_runs s \<and> orders t = orders s)
      (deactivate_run_enrollment x e status_unenrolled (Some keep) True)"
    by (rule keeps_unpaid_deactivate) (use un e(2) in \<open>auto simp: unpaid_def cre_key_def\<close>)
  from keepsD [OF this, of s] t(1) have "paid_course_runs t = paid_course_runs s" "orders t = orders s" by simp_all
  then show ?thesis using Some t e(2)
    by (simp add: leave_audit_target_def ret_def
        bindP_Inr [where m = "deactivate_run_enrollment x e status_unenrolled (Some keep) True"])
qed

text \<open>A deferral that was completed before is not repeated; any other one moves the learner.\<close>

definition deferred_before :: "db \<Rightarrow> nat \<Rightarrow> CourseRunEnrollment \<Rightarrow> CourseRun \<Rightarrow> bool" where
  "deferred_before s u f to_run \<longleftrightarrow> cre_change_status f = Some status_deferred
     \<and> active_enrollment_in_mode s u to_run verified_mode \<noteq> None"

lemma create_enrollment_run:
  assumes "enrollments_ok s" "edx_request x u r [r] mode"
  shows "\<exists>es t. create_run_enrollments x u [r] cs (Some keep) mode s = (Inr (es, True), t) \<and> enrollments_ok t
    \<and> (\<exists>e. find_run_enrollment t (u, run_id r) = Some e \<and> enrolled_as mode True e)
    \<and> (\<forall>k. k \<noteq> (u, run_id r) \<longrightarrow> find_run_enrollment t k = find_run_enrollment s k)
    \<and> paid_course_runs t = paid_course_runs s \<and> orders t = orders s"
proof -
  obtain es t where t: "create_run_enrollments x u [r] cs (Some keep) mode s = (Inr (es, True), t)" "enrollments_ok t"
      "\<exists>e. find_run_enrollment t (u, run_id r) = Some e \<and> enrolled_as mode True e"
      "\<forall>k. k \<noteq> (u, run_id r) \<longrightarrow> find_run_enrollment t k = find_run_enrollment s k"
    using create_run_enrollments_ok [OF assms(1), of x u "[r]" mode keep cs] assms(2) by auto
  have "paid_course_runs t = paid_course_runs s \<and> orders t = orders s"
    using keepsD [OF paid_orders_frame.keeps_create_run_enrollments
        [of "paid_course_runs s" "orders s" x u "[r]" cs "Some keep" mode], of s] t(1) by simp
  then show ?thesis using t by blast
qed

lemma defer_moves:
  assumes ok: "enrollments_ok s"
    and f: "filter (\<lambda>e. cre_user e = u \<and> run_courseware_id (cre_run e) = from_id) (run_enrollments s) = [f]"
    and to_run: "filter (\<lambda>r. run_courseware_id r = to_id) (usable_runs s) = [to_run]" "to_id \<noteq> ''''"
    and check: "check_deferral s f to_run force = Inr ()"
    and new: "\<not> deferred_before s u f to_run"
    and edx: "edx_grants x s u (cre_run f) to_run" and un: "unpaid u (run_id to_run) s"
  shows "\<exists>res t. defer_enrollment x u from_id (Some to_id) keep force s = (Inr res, t)
    \<and> (\<exists>a. find_run_enrollment t (u, run_id to_run) = Some a \<and> enrolled_as verified_mode True a)
    \<and> (if cre_change_status f = Some status_deferred
       then find_run_enrollment t (u, run_id (cre_run f)) = find_run_enrollment s (u, run_id (cre_run f))
       else \<exists>b. find_run_enrollment t (u, run_id (cre_run f)) = Some b \<and> enrolled_as audit_mode True b)
    \<and> paid_course_runs t = update_first (fulfilled_payment s u (run_id (cre_run f)))
        (\<lambda>p. p\<lparr>pcr_course_run := run_id to_run\<rparr>) (paid_course_runs s)"
proof -
  have ne: "(u, run_id (cre_run f)) \<noteq> (u, run_id to_run)" using check by (simp add: check_deferral_ok)
  have user: "cre_user f = u" using arg_cong [OF f, of set] by auto
  have edx': "case active_enrollment_in_mode s u to_run audit_mode of
        None \<Rightarrow> True | Some e \<Rightarrow> unenroll_edx_course_run x e = Inr ()"
      "edx_request x u to_run [to_run] verified_mode" "edx_request x u (cre_run f) [cre_run f] audit_mode"
    using edx by (simp_all add: edx_grants_def)
  obtain s1 where s1: "leave_audit_target x u to_run keep s = (Inr (), s1)" "enrollments_ok s1"
      "\<forall>k. k \<noteq> (u, run_id to_run) \<longrightarrow> find_run_enrollment s1 k = find_run_enrollment s k"
      "paid_course_runs s1 = paid_course_runs s" "orders s1 = orders s"
    using leave_audit_run [OF ok un edx'(1)] by blast
  obtain es s2 where s2: "create_run_enrollments x u [to_run] None (Some keep) verified_mode s1 = (Inr (es, True), s2)"
      "enrollments_ok s2" "\<exists>e. find_run_enrollment s2 (u, run_id to_run) = Some e \<and> enrolled_as verified_mode True e"
      "\<forall>k. k \<noteq> (u, run_id to_run) \<longrightarrow> find_run_enrollment s2 k = find_run_enrollment s1 k"
      "paid_course_runs s2 = paid_course_runs s1" "orders s2 = orders s1"
    using create_enrollment_run [OF s1(2) edx'(2)] by blast
  let ?down = "if cre_change_status f = Some status_deferred then ret []
      else bindP (create_run_enrollments x u [cre_run f] (Some status_deferred) (Some keep) audit_mode) (\<lambda>(es, ok).
             if \<not> ok \<and> \<not> keep then raise GenericException else ret es)"
  obtain ds s3 where s3: "?down s2 = (Inr ds, s3)" "paid_course_runs s3 = paid_course_runs s" "orders s3 = orders s"
      "find_run_enrollment s3 (u, run_id to_run) = find_run_enrollment s2 (u, run_id to_run)"
      "if cre_change_status f = Some status_deferred
       then find_run_enrollment s3 (u, run_id (cre_run f)) = find_run_enrollment s (u, run_id (cre_run f))
       else \<exists>b. find_run_enrollment s3 (u, run_id (cre_run f)) = Some b \<and> enrolled_as audit_mode True b"
  proof (cases "cre_change_status f = Some status_deferred")
    case True
    then show thesis using that [of "[]" s2] s1(3-5) s2(4-6) ne by (simp add: ret_def)
  next
    case False
    obtain ds t where t: "create_run_enrollments x u [cre_run f] (Some status_deferred) (Some keep) audit_mode s2 = (Inr (ds, True), t)"
        "\<exists>e. find_run_enrollment t (u, run_id (cre_run f)) = Some e \<and> enrolled_as audit_mode True e"
        "\<forall>k. k \<noteq> (u, run_id (cre_run f)) \<longrightarrow> find_run_enrollment t k = find_run_enrollment s2 k"
        "paid_course_runs t = paid_course_runs s2" "orders t = orders s2"
      using create_enrollment_run [OF s2(2) edx'(3)] by blast
    then show thesis using that [of ds t] False s1(4,5) s2(5,6) ne
      by (simp add: ret_def bindP_Inr [where m = "create_run_enrollments x u [cre_run f] (Some status_deferred) (Some keep) audit_mode"])
  qed
  let ?pay = "bindP (gets (\<lambda>s. fulfilled_paid_course_run_exists s u (cre_run f))) (\<lambda>paid.
      whenP paid (change_payment_to_run f to_run))"
  have same: "fulfilled_payment s3 u r = fulfilled_payment s u r" for r
    by (rule ext) (simp add: fulfilled_payment_def order_state_def find_order_def s3(3))
  obtain t where t: "?pay s3 = (Inr (), t)" "same_enrollments s3 t"
      "paid_course_runs t = update_first (fulfilled_payment s u (run_id (cre_run f)))
        (\<lambda>p. p\<lparr>pcr_course_run := run_id to_run\<rparr>) (paid_course_runs s)"
    using move_payment_run [OF user, of to_run s3] un s3(2) same by (auto simp: unpaid_def)
  have "move_enrollment x u f to_run keep s = (Inr (first_or_none ds, first_or_none es), t)"
    unfolding move_enrollment_def thenP_Inr [where m = "leave_audit_target x u to_run keep", OF s1(1)]
      bindP_Inr [where m = "create_run_enrollments x u [to_run] None (Some keep) verified_mode", OF s2(1)]
    using s3(1) t(1) by (simp add: bindP_Inr [where m = ?down] thenP_Inr [where m = ?pay] ret_def)
  moreover have "defer_enrollment x u from_id (Some to_id) keep force s = move_enrollment x u f to_run keep s"
    unfolding defer_enrollment_def
    using f to_run check new by (simp add: bindP_def liftE_def thenP_def gets_def deferred_before_def)
      (auto simp: ret_def)
  ultimately show ?thesis using t(2,3) s2(3) s3(4,5) same_enrollments_find [OF t(2)] by simp
qed

text \<open>Deferring again changes nothing.\<close>

lemma deferred_again:
  assumes "filter (\<lambda>e. cre_user e = u \<and> run_courseware_id (cre_run e) = from_id) (run_enrollments s) = [f]"
    and "filter (\<lambda>r. run_courseware_id r = to_id) (usable_runs s) = [to_run]" "to_id \<noteq> ''''"
    and "check_deferral s f to_run force = Inr ()" "deferred_before s u f to_run"
  shows "defer_enrollment x u from_id (Some to_id) keep force s
    = (Inr (Some f, active_enrollment_in_mode s u to_run verified_mode), s)"
  using assms by (simp add: defer_enrollment_def bindP_def liftE_def thenP_def gets_def deferred_before_def ret_def)

end
