(* ===== verification/Requirements.thy ===== *)
theory Requirements
  imports Courseware
begin

text \<open>
  The requirements tree of a program (\<open>Program\<close> and \<open>ProgramRequirement\<close> in
  \<open>src/courses/models.py\<close>).  The nodes are rows of a \<open>treebeard\<close> materialized-path tree; the
  package is a parameter, and \<open>treebeard_contract\<close> states what its documentation promises of the
  paths and depths.  The table of requirements is in path order, as the managers of the package
  return it.
\<close>

section \<open>The tree package\<close>

record treebeard =
  tb_roots :: "ProgramRequirement list \<Rightarrow> ProgramRequirement list"
  tb_children :: "ProgramRequirement list \<Rightarrow> ProgramRequirement \<Rightarrow> ProgramRequirement list"
  tb_parent :: "ProgramRequirement list \<Rightarrow> ProgramRequirement \<Rightarrow> ProgramRequirement option"
  tb_add_root :: "ProgramRequirement list \<Rightarrow> ProgramRequirement
                   \<Rightarrow> exn + ProgramRequirement \<times> ProgramRequirement list"
  tb_add_child :: "ProgramRequirement list \<Rightarrow> ProgramRequirement \<Rightarrow> ProgramRequirement
                    \<Rightarrow> exn + ProgramRequirement \<times> ProgramRequirement list"
  tb_delete :: "ProgramRequirement list \<Rightarrow> ProgramRequirement list \<Rightarrow> ProgramRequirement list"

definition is_child :: "ProgramRequirement \<Rightarrow> ProgramRequirement \<Rightarrow> bool" where
  "is_child n c \<longleftrightarrow> req_depth c = Suc (req_depth n) \<and> starts_with (req_path n) (req_path c)"

text \<open>A row at a path that no other row has, put somewhere in the table; when a level is full, the
  package raises \<open>PathOverflow\<close>.\<close>

definition adds_row :: "ProgramRequirement list \<Rightarrow> string \<Rightarrow> nat \<Rightarrow> ProgramRequirement
    \<Rightarrow> ProgramRequirement \<times> ProgramRequirement list \<Rightarrow> bool" where
  "adds_row rows p d tmpl out \<longleftrightarrow>
     (\<exists>step before after. length step = 4 \<and> fst out = tmpl\<lparr>req_path := p @ step, req_depth := d\<rparr>
        \<and> p @ step \<notin> req_path ` set rows \<and> rows = before @ after \<and> snd out = before @ fst out # after)"

definition treebeard_contract :: "treebeard \<Rightarrow> bool" where
  "treebeard_contract tb \<longleftrightarrow>
     (\<forall>rows. tb_roots tb rows = filter (\<lambda>r. req_depth r = 1) rows
      \<and> (\<forall>n. tb_children tb rows n = filter (is_child n) rows
          \<and> tb_parent tb rows n = first (filter (\<lambda>r. is_child r n) rows))
      \<and> (\<forall>tmpl out. tb_add_root tb rows tmpl = Inr out \<longrightarrow> adds_row rows [] 1 tmpl out)
      \<and> (\<forall>n tmpl out. tb_add_child tb rows n tmpl = Inr out \<longrightarrow>
           adds_row rows (req_path n) (Suc (req_depth n)) tmpl out)
      \<and> (\<forall>gone. tb_delete tb rows gone =
           filter (\<lambda>r. \<not> exists_row (\<lambda>n. starts_with (req_path n) (req_path r)) gone) rows))"

section \<open>Nodes\<close>

definition is_all_of_operator :: "ProgramRequirement \<Rightarrow> bool" where
  "is_all_of_operator n \<longleftrightarrow> req_operator n = Some ALL_OF"

definition is_min_number_of_operator :: "ProgramRequirement \<Rightarrow> bool" where
  "is_min_number_of_operator n \<longleftrightarrow> req_operator n = Some MIN_NUMBER_OF"

definition is_operator :: "ProgramRequirement \<Rightarrow> bool" where
  "is_operator n \<longleftrightarrow> req_node_type n = NT_OPERATOR"

definition is_course_node :: "ProgramRequirement \<Rightarrow> bool" where
  "is_course_node n \<longleftrightarrow> req_node_type n = NT_COURSE"

definition is_program_node :: "ProgramRequirement \<Rightarrow> bool" where
  "is_program_node n \<longleftrightarrow> req_node_type n = NT_PROGRAM"

definition is_root :: "ProgramRequirement \<Rightarrow> bool" where
  "is_root n \<longleftrightarrow> req_node_type n = NT_PROGRAM_ROOT"

definition clean_requirement :: "ProgramRequirement \<Rightarrow> exn + unit" where
  "clean_requirement n =
     (case (req_operator n, req_operator_value n) of
        (Some MIN_NUMBER_OF, Some v) \<Rightarrow>
          (case parse_int v of None \<Rightarrow> Inl ValidationError
           | Some k \<Rightarrow> if k < 0 then Inl ValidationError else Inr ())
      | _ \<Rightarrow> Inr ())"

text \<open>The check constraint of the table.\<close>

definition node_check :: "ProgramRequirement \<Rightarrow> bool" where
  "node_check n =
     (case req_node_type n of
        NT_PROGRAM_ROOT \<Rightarrow> req_operator n = None \<and> req_operator_value n = None \<and> req_course n = None
          \<and> req_required_program n = None \<and> req_depth n = 1
      | NT_OPERATOR \<Rightarrow> req_operator n \<noteq> None \<and> req_course n = None \<and> req_required_program n = None
          \<and> req_depth n > 1
      | NT_COURSE \<Rightarrow> req_operator n = None \<and> req_operator_value n = None \<and> req_course n \<noteq> None
          \<and> req_required_program n = None \<and> req_depth n > 1
      | NT_PROGRAM \<Rightarrow> req_operator n = None \<and> req_operator_value n = None \<and> req_course n = None
          \<and> req_required_program n \<noteq> None \<and> req_depth n > 1)"

text \<open>A row with the defaults of the columns.\<close>

definition new_node :: "nat \<Rightarrow> node_type \<Rightarrow> ProgramRequirement" where
  "new_node g ty = \<lparr>req_id = 0, req_path = [], req_depth = 0, req_node_type = ty, req_operator = None,
     req_operator_value = None, req_program = g, req_course = None, req_required_program = None,
     req_title = [], req_elective_flag = False\<rparr>"

definition add_child :: "treebeard \<Rightarrow> ProgramRequirement \<Rightarrow> ProgramRequirement \<Rightarrow> ProgramRequirement op" where
  "add_child tb n tmpl =
     bindP fresh_id (\<lambda>i.
     bindP (liftE (\<lambda>s. tb_add_child tb (requirements s) n (tmpl\<lparr>req_id := i, req_program := req_program n\<rparr>)))
       (\<lambda>(row, rows). if node_check row then thenP (modify (\<lambda>s. s\<lparr>requirements := rows\<rparr>)) (ret row)
                      else raise IntegrityError))"

section \<open>The tree of a program\<close>

definition get_requirements_root :: "treebeard \<Rightarrow> db \<Rightarrow> Program \<Rightarrow> ProgramRequirement option" where
  "get_requirements_root tb s g =
     first (filter (\<lambda>r. req_program r = prg_id g) (tb_roots tb (requirements s)))"

text \<open>\<open>Program.save\<close> gives a program its root.\<close>

definition save_program :: "treebeard \<Rightarrow> Program \<Rightarrow> unit op" where
  "save_program tb g =
     thenP (modify (\<lambda>s. s\<lparr>programs := (if exists_row (\<lambda>p. prg_id p = prg_id g) (programs s)
              then update_rows (\<lambda>p. prg_id p = prg_id g) (\<lambda>_. g) (programs s) else programs s @ [g])\<rparr>))
       (bindP (gets (\<lambda>s. get_requirements_root tb s g)) (\<lambda>root.
        if root \<noteq> None then ret ()
        else bindP fresh_id (\<lambda>i.
             bindP (liftE (\<lambda>s. tb_add_root tb (requirements s)
                      ((new_node (prg_id g) NT_PROGRAM_ROOT)\<lparr>req_id := i\<rparr>)))
               (\<lambda>(_, rows). modify (\<lambda>s. s\<lparr>requirements := rows\<rparr>)))))"

definition required_root :: "treebeard \<Rightarrow> Program \<Rightarrow> ProgramRequirement op" where
  "required_root tb g =
     liftE (\<lambda>s. case get_requirements_root tb s g of None \<Rightarrow> Inl PyAttributeError | Some r \<Rightarrow> Inr r)"

definition required_courses_title :: string where "required_courses_title = ''Required Courses''"
definition elective_courses_title :: string where "elective_courses_title = ''Elective Courses''"

definition operator_node :: "nat \<Rightarrow> req_operator \<Rightarrow> nat \<Rightarrow> ProgramRequirement" where
  "operator_node g op min_courses =
     (if op = MIN_NUMBER_OF
      then (new_node g NT_OPERATOR)\<lparr>req_operator := Some op, req_title := elective_courses_title,
             req_operator_value := Some (show_nat min_courses), req_elective_flag := True\<rparr>
      else (new_node g NT_OPERATOR)\<lparr>req_operator := Some op, req_title := required_courses_title\<rparr>)"

definition add_course_node :: "treebeard \<Rightarrow> Program \<Rightarrow> req_operator \<Rightarrow> nat \<Rightarrow> ProgramRequirement op" where
  "add_course_node tb g op min_courses =
     bindP (required_root tb g) (\<lambda>root.
     bindP (gets (\<lambda>s. first (filter (\<lambda>n. req_operator n = Some op) (tb_children tb (requirements s) root))))
       (\<lambda>found. case found of
          Some n \<Rightarrow> ret n
        | None \<Rightarrow> add_child tb root (operator_node (prg_id g) op min_courses)))"

datatype requirement = ReqCourse Course | ReqProgram Program

fun requires :: "requirement \<Rightarrow> ProgramRequirement \<Rightarrow> bool" where
  "requires (ReqCourse c) n = (map_option crs_id (req_course n) = Some (crs_id c))"
| "requires (ReqProgram p) n = (map_option prg_id (req_required_program n) = Some (prg_id p))"

fun requirement_node :: "nat \<Rightarrow> requirement \<Rightarrow> ProgramRequirement" where
  "requirement_node g (ReqCourse c) = (new_node g NT_COURSE)\<lparr>req_course := Some c\<rparr>"
| "requirement_node g (ReqProgram p) = (new_node g NT_PROGRAM)\<lparr>req_required_program := Some p\<rparr>"

text \<open>The deletion looks at the children of the root, which are operators.\<close>

definition add_under :: "treebeard \<Rightarrow> Program \<Rightarrow> req_operator \<Rightarrow> requirement \<Rightarrow> ProgramRequirement op" where
  "add_under tb g op q =
     bindP (required_root tb g) (\<lambda>root.
     thenP (modify (\<lambda>s. s\<lparr>requirements :=
              tb_delete tb (requirements s) (filter (requires q) (tb_children tb (requirements s) root))\<rparr>))
     (bindP (add_course_node tb g op 1) (\<lambda>n. add_child tb n (requirement_node (prg_id g) q))))"

definition add_requirement :: "treebeard \<Rightarrow> Program \<Rightarrow> requirement \<Rightarrow> ProgramRequirement op" where
  "add_requirement tb g q = add_under tb g ALL_OF q"

definition add_elective :: "treebeard \<Rightarrow> Program \<Rightarrow> Course \<Rightarrow> ProgramRequirement op" where
  "add_elective tb g c = add_under tb g MIN_NUMBER_OF (ReqCourse c)"

definition add_program_requirement :: "treebeard \<Rightarrow> Program \<Rightarrow> Program \<Rightarrow> ProgramRequirement op" where
  "add_program_requirement tb g p = add_under tb g ALL_OF (ReqProgram p)"

definition add_program_elective :: "treebeard \<Rightarrow> Program \<Rightarrow> Program \<Rightarrow> ProgramRequirement op" where
  "add_program_elective tb g p = add_under tb g MIN_NUMBER_OF (ReqProgram p)"

section \<open>Courses and programs that a program requires\<close>

record course_requirements =
  cr_courses :: "(Course \<times> string) list"
  cr_required_courses :: "Course list"
  cr_elective_courses :: "Course list"
  cr_required_title :: string
  cr_elective_title :: string
  cr_minimum_elective_requirement :: "int option"

definition empty_course_requirements_data :: course_requirements where
  "empty_course_requirements_data = \<lparr>cr_courses = [], cr_required_courses = [], cr_elective_courses = [],
     cr_required_title = required_courses_title, cr_elective_title = elective_courses_title,
     cr_minimum_elective_requirement = None\<rparr>"

definition or_title :: "string \<Rightarrow> string \<Rightarrow> string" where
  "or_title t u = (if t = [] then u else t)"

text \<open>\<open>int(op.operator_value) if op.operator_value else None\<close>\<close>

definition minimum_of :: "ProgramRequirement \<Rightarrow> exn + int option" where
  "minimum_of op =
     (case req_operator_value op of None \<Rightarrow> Inr None
      | Some v \<Rightarrow> if v = [] then Inr None
                  else (case parse_int v of None \<Rightarrow> Inl PyValueError | Some k \<Rightarrow> Inr (Some k)))"

definition read_operator :: "ProgramRequirement \<Rightarrow> course_requirements \<Rightarrow> exn + course_requirements" where
  "read_operator op d =
     (if \<not> req_elective_flag op \<and> cr_required_title d = required_courses_title
      then Inr (d\<lparr>cr_required_title := or_title (req_title op) (cr_required_title d)\<rparr>)
      else if req_elective_flag op \<and> cr_elective_title d = elective_courses_title
      then (let d = d\<lparr>cr_elective_title := or_title (req_title op) (cr_elective_title d)\<rparr>
            in if is_min_number_of_operator op \<and> cr_minimum_elective_requirement d = None
               then bindE (minimum_of op) (\<lambda>k. Inr (d\<lparr>cr_minimum_elective_requirement := k\<rparr>))
               else Inr d)
      else Inr d)"

fun read_operators :: "ProgramRequirement list \<Rightarrow> course_requirements \<Rightarrow> exn + course_requirements" where
  "read_operators [] d = Inr d"
| "read_operators (op # ops) d = bindE (read_operator op d) (read_operators ops)"

definition find_parent_operator :: "ProgramRequirement list \<Rightarrow> ProgramRequirement \<Rightarrow> ProgramRequirement option" where
  "find_parent_operator ops r =
     first (filter (\<lambda>op. starts_with (req_path op) (req_path r) \<and> req_path r \<noteq> req_path op) ops)"

definition read_course :: "ProgramRequirement list \<Rightarrow> ProgramRequirement \<Rightarrow> course_requirements \<Rightarrow> course_requirements" where
  "read_course ops r d =
     (case (req_course r, find_parent_operator ops r) of
        (Some c, Some op) \<Rightarrow>
          if req_elective_flag op
          then d\<lparr>cr_courses := cr_courses d @ [(c, elective_courses_title)],
                 cr_elective_courses := cr_elective_courses d @ [c]\<rparr>
          else d\<lparr>cr_courses := cr_courses d @ [(c, required_courses_title)],
                 cr_required_courses := cr_required_courses d @ [c]\<rparr>
      | _ \<Rightarrow> d)"

definition process_course_requirements ::
  "ProgramRequirement list \<Rightarrow> ProgramRequirement list \<Rightarrow> exn + course_requirements" where
  "process_course_requirements course_reqs ops =
     bindE (read_operators ops empty_course_requirements_data) (\<lambda>d.
       Inr (fold (read_course ops) course_reqs d))"

definition get_courses_with_requirements_data :: "ProgramRequirement list \<Rightarrow> exn + course_requirements" where
  "get_courses_with_requirements_data rows =
     (let main_ops = filter (\<lambda>r. req_depth r = 2) rows
      in if main_ops = [] then Inr empty_course_requirements_data
         else process_course_requirements
           (filter (\<lambda>r. is_course_node r \<and> list_ex (\<lambda>op. starts_with (req_path op) (req_path r)) main_ops) rows)
           main_ops)"

definition get_operator_course_requirements ::
  "db \<Rightarrow> Program \<Rightarrow> ProgramRequirement list \<Rightarrow> ProgramRequirement list" where
  "get_operator_course_requirements s g main_ops =
     (if main_ops = [] then []
      else filter (\<lambda>r. req_program r = prg_id g \<and> is_course_node r
                     \<and> list_ex (\<lambda>op. starts_with (req_path op) (req_path r)) main_ops) (requirements s))"

definition courses_with_requirements_data :: "db \<Rightarrow> Program \<Rightarrow> exn + course_requirements" where
  "courses_with_requirements_data s g =
     (let main_ops = filter (\<lambda>r. req_program r = prg_id g \<and> req_depth r = 2) (requirements s)
      in if main_ops = [] then Inr empty_course_requirements_data
         else process_course_requirements (get_operator_course_requirements s g main_ops) main_ops)"

definition required_courses :: "db \<Rightarrow> Program \<Rightarrow> exn + Course list" where
  "required_courses s g = bindE (courses_with_requirements_data s g) (\<lambda>d. Inr (cr_required_courses d))"

definition elective_courses :: "db \<Rightarrow> Program \<Rightarrow> exn + Course list" where
  "elective_courses s g = bindE (courses_with_requirements_data s g) (\<lambda>d. Inr (cr_elective_courses d))"

definition minimum_elective_courses_requirement :: "db \<Rightarrow> Program \<Rightarrow> exn + int option" where
  "minimum_elective_courses_requirement s g =
     bindE (courses_with_requirements_data s g) (\<lambda>d. Inr (cr_minimum_elective_requirement d))"

definition courses_qset :: "db \<Rightarrow> Program \<Rightarrow> nat set" where
  "courses_qset s g =
     crs_id ` set (List.map_filter req_course (filter (\<lambda>r. req_program r = prg_id g) (requirements s)))"

definition required_program_nodes :: "db \<Rightarrow> Program \<Rightarrow> ProgramRequirement list" where
  "required_program_nodes s g =
     filter (\<lambda>r. is_program_node r \<and> req_program r = prg_id g \<and> req_required_program r \<noteq> None) (requirements s)"

definition program_nodes :: "db \<Rightarrow> Program \<Rightarrow> Program list" where
  "program_nodes s g = List.map_filter req_required_program (required_program_nodes s g)"

definition parent_elective_flag :: "treebeard \<Rightarrow> db \<Rightarrow> ProgramRequirement \<Rightarrow> exn + bool" where
  "parent_elective_flag tb s r =
     (case tb_parent tb (requirements s) r of None \<Rightarrow> Inl PyAttributeError | Some p \<Rightarrow> Inr (req_elective_flag p))"

definition programs_by_flag :: "bool \<Rightarrow> treebeard \<Rightarrow> db \<Rightarrow> Program \<Rightarrow> exn + Program list" where
  "programs_by_flag f tb s g =
     bindE (mapE (parent_elective_flag tb s) (required_program_nodes s g)) (\<lambda>fs.
       Inr (map fst (filter (\<lambda>(p, e). e = f) (zip (program_nodes s g) fs))))"

definition required_programs :: "treebeard \<Rightarrow> db \<Rightarrow> Program \<Rightarrow> exn + Program list" where
  "required_programs = programs_by_flag False"

definition elective_programs :: "treebeard \<Rightarrow> db \<Rightarrow> Program \<Rightarrow> exn + Program list" where
  "elective_programs = programs_by_flag True"

lemma requirements_data_from_rows:
  "get_courses_with_requirements_data (filter (\<lambda>r. req_program r = prg_id g) (requirements s))
   = courses_with_requirements_data s g"
proof -
  have "filter (\<lambda>r. req_depth r = 2) (filter (\<lambda>r. req_program r = prg_id g) (requirements s))
      = filter (\<lambda>r. req_program r = prg_id g \<and> req_depth r = 2) (requirements s)"
    by (simp add: conj_commute)
  then show ?thesis
    by (simp add: get_courses_with_requirements_data_def courses_with_requirements_data_def Let_def
        get_operator_course_requirements_def conj_ac)
qed

section \<open>Well-formed trees\<close>

text \<open>
  What the table of requirements always looks like: every row passes the check constraint, paths
  are distinct and have four characters per level, every row below the roots has a parent of the
  same program, and a program has one root.
\<close>

definition tree_ok :: "ProgramRequirement list \<Rightarrow> bool" where
  "tree_ok rows \<longleftrightarrow> distinct (map req_path rows)
     \<and> distinct (map req_program (filter (\<lambda>r. req_depth r = 1) rows))
     \<and> (\<forall>r \<in> set rows. node_check r \<and> 1 \<le> req_depth r \<and> length (req_path r) = 4 * req_depth r
          \<and> (req_depth r = 1 \<or> (\<exists>p \<in> set rows. is_child p r \<and> req_program p = req_program r)))"

lemma starts_with_append: "starts_with p t \<longleftrightarrow> (\<exists>u. t = p @ u)"
  unfolding starts_with_def by (metis append_take_drop_id append_eq_conv_conj)

lemma tree_ok_add:
  assumes ok: "tree_ok rows" and out: "adds_row rows p d tmpl (r, rows')" and check: "node_check r"
    and at: "(d = 1 \<and> p = [] \<and> req_program r \<notin> req_program ` {x \<in> set rows. req_depth x = 1})
      \<or> (\<exists>n \<in> set rows. p = req_path n \<and> d = Suc (req_depth n) \<and> req_program r = req_program n)"
  shows "tree_ok rows' \<and> set rows' = insert r (set rows)"
proof -
  from out obtain step before after where r: "r = tmpl\<lparr>req_path := p @ step, req_depth := d\<rparr>"
    and len: "length step = 4" and new: "p @ step \<notin> req_path ` set rows"
    and rows: "rows = before @ after" "rows' = before @ r # after"
    by (auto simp: adds_row_def)
  have set: "set rows' = insert r (set rows)" using rows by auto
  have old: "\<forall>x \<in> set rows. node_check x \<and> 1 \<le> req_depth x \<and> length (req_path x) = 4 * req_depth x
      \<and> (req_depth x = 1 \<or> (\<exists>p \<in> set rows'. is_child p x \<and> req_program p = req_program x))"
    using ok set by (auto simp: tree_ok_def)
  have r': "1 \<le> req_depth r \<and> length (req_path r) = 4 * req_depth r
      \<and> (req_depth r = 1 \<or> (\<exists>p \<in> set rows'. is_child p r \<and> req_program p = req_program r))"
  proof (cases "\<exists>n \<in> set rows. p = req_path n \<and> d = Suc (req_depth n) \<and> req_program r = req_program n")
    case True
    then obtain n where n: "n \<in> set rows" "p = req_path n" "d = Suc (req_depth n)" "req_program r = req_program n" by blast
    then have "is_child n r" by (simp add: is_child_def r starts_with_append)
    then show ?thesis using n len old set by (auto simp: r)
  qed (use at len in \<open>auto simp: r\<close>)
  have paths: "distinct (map req_path rows')"
    using ok new by (auto simp: tree_ok_def rows r)
  have roots: "distinct (map req_program (filter (\<lambda>x. req_depth x = 1) rows'))"
  proof (cases "d = 1")
    case True
    have "False" if "n \<in> set rows" "d = Suc (req_depth n)" for n
    proof -
      have "1 \<le> req_depth n" using old that(1) by blast
      then show False using True that(2) by simp
    qed
    then have "req_program r \<notin> req_program ` {x \<in> set rows. req_depth x = 1}" using at by blast
    then show ?thesis using ok by (auto simp: tree_ok_def rows)
  next
    case False
    then have "filter (\<lambda>x. req_depth x = 1) rows' = filter (\<lambda>x. req_depth x = 1) rows" by (simp add: rows r)
    then show ?thesis using ok by (simp add: tree_ok_def)
  qed
  have "\<forall>x \<in> set rows'. node_check x \<and> 1 \<le> req_depth x \<and> length (req_path x) = 4 * req_depth x
      \<and> (req_depth x = 1 \<or> (\<exists>p \<in> set rows'. is_child p x \<and> req_program p = req_program x))"
    (is "\<forall>x \<in> _. ?good x")
  proof
    fix x assume "x \<in> set rows'"
    then consider "x = r" | "x \<in> set rows" unfolding set by blast
    then show "?good x"
    proof cases
      case 1
      then show ?thesis using r' check by blast
    next
      case 2
      then show ?thesis using old by blast
    qed
  qed
  then show ?thesis unfolding tree_ok_def using paths roots set by blast
qed

lemma tree_ok_delete:
  assumes ok: "tree_ok rows"
  shows "tree_ok (filter (\<lambda>r. \<not> exists_row (\<lambda>n. starts_with (req_path n) (req_path r)) gone) rows)"
    (is "tree_ok ?rows")
proof -
  have up: "p \<in> set ?rows" if "p \<in> set rows" "r \<in> set ?rows" "is_child p r" for p r
    using that by (auto simp: exists_row_iff is_child_def starts_with_append)
  have "\<forall>r \<in> set ?rows. req_depth r = 1 \<or> (\<exists>p \<in> set ?rows. is_child p r \<and> req_program p = req_program r)"
  proof
    fix r assume r: "r \<in> set ?rows"
    then have "r \<in> set rows" by simp
    then consider "req_depth r = 1" | p where "p \<in> set rows" "is_child p r" "req_program p = req_program r"
      using ok unfolding tree_ok_def by blast
    then show "req_depth r = 1 \<or> (\<exists>p \<in> set ?rows. is_child p r \<and> req_program p = req_program r)"
      using up [OF _ r] by cases blast+
  qed
  moreover have "distinct (map req_path ?rows)" using ok by (simp add: tree_ok_def distinct_map_filter)
  moreover have "distinct (map req_program (filter (\<lambda>r. req_depth r = 1) ?rows))"
  proof -
    have "filter (\<lambda>r. req_depth r = 1) ?rows
        = filter (\<lambda>r. \<not> exists_row (\<lambda>n. starts_with (req_path n) (req_path r)) gone) (filter (\<lambda>r. req_depth r = 1) rows)"
      by (simp add: conj_commute)
    then show ?thesis using ok by (simp only: tree_ok_def distinct_map_filter)
  qed
  ultimately show ?thesis using ok by (auto simp: tree_ok_def)
qed

abbreviation trees_ok :: "db \<Rightarrow> bool" where
  "trees_ok s \<equiv> tree_ok (requirements s)"

lemma contractD:
  assumes "treebeard_contract tb"
  shows "tb_roots tb rows = filter (\<lambda>r. req_depth r = 1) rows"
    "tb_children tb rows n = filter (is_child n) rows"
    "tb_parent tb rows n = first (filter (\<lambda>r. is_child r n) rows)"
    "tb_add_root tb rows tmpl = Inr out \<Longrightarrow> adds_row rows [] 1 tmpl out"
    "tb_add_child tb rows n tmpl = Inr out \<Longrightarrow> adds_row rows (req_path n) (Suc (req_depth n)) tmpl out"
    "tb_delete tb rows gone = filter (\<lambda>r. \<not> exists_row (\<lambda>n. starts_with (req_path n) (req_path r)) gone) rows"
  using assms unfolding treebeard_contract_def by blast+

lemma add_child_cases:
  assumes "treebeard_contract tb"
  obtains (added) row rows where "add_child tb n tmpl s
        = (Inr row, s\<lparr>next_id := Suc (next_id s), requirements := rows\<rparr>)"
      "adds_row (requirements s) (req_path n) (Suc (req_depth n))
         (tmpl\<lparr>req_id := next_id s, req_program := req_program n\<rparr>) (row, rows)" "node_check row"
    | (refused) e where "add_child tb n tmpl s = (Inl e, s\<lparr>next_id := Suc (next_id s)\<rparr>)"
proof -
  let ?tmpl = "tmpl\<lparr>req_id := next_id s, req_program := req_program n\<rparr>"
  show ?thesis
  proof (cases "tb_add_child tb (requirements s) n ?tmpl")
    case (Inl e)
    show ?thesis by (rule that(2) [of e]) (simp add: add_child_def bindP_def fresh_id_def liftE_def Inl)
  next
    case (Inr out)
    obtain row rows where o: "out = (row, rows)" by fastforce
    have run: "add_child tb n tmpl s = (if node_check row
        then (Inr row, s\<lparr>next_id := Suc (next_id s), requirements := rows\<rparr>)
        else (Inl IntegrityError, s\<lparr>next_id := Suc (next_id s)\<rparr>))"
      by (simp add: add_child_def bindP_def fresh_id_def liftE_def thenP_def modify_def ret_def raise_def Inr o)
    show ?thesis using that run contractD(5) [OF assms Inr] o by (cases "node_check row") auto
  qed
qed

lemma add_child_ok:
  assumes tb: "treebeard_contract tb"
  shows "ensures trees_ok (\<lambda>s. n \<in> set (requirements s)) (\<lambda>r s. r \<in> set (requirements s)) (add_child tb n tmpl)"
proof (rule ensuresI)
  fix s assume s: "trees_ok s" "n \<in> set (requirements s)"
  show "trees_ok (snd (add_child tb n tmpl s))"
  proof (rule add_child_cases [OF tb, of n tmpl s])
    fix row rows assume a: "adds_row (requirements s) (req_path n) (Suc (req_depth n))
        (tmpl\<lparr>req_id := next_id s, req_program := req_program n\<rparr>) (row, rows)" "node_check row"
      and run: "add_child tb n tmpl s = (Inr row, s\<lparr>next_id := Suc (next_id s), requirements := rows\<rparr>)"
    have "req_program row = req_program n" using a(1) by (auto simp: adds_row_def)
    then show ?thesis using tree_ok_add [OF s(1) a] s(2) run by auto
  qed (simp add: s)
next
  fix s r t assume s: "trees_ok s" "n \<in> set (requirements s)" and run: "add_child tb n tmpl s = (Inr r, t)"
  show "r \<in> set (requirements t)"
    by (rule add_child_cases [OF tb, of n tmpl s]) (use run in \<open>auto simp: adds_row_def\<close>)
qed

lemma required_root_ok:
  assumes "treebeard_contract tb"
  shows "ensures trees_ok (\<lambda>_. True) (\<lambda>r s. r \<in> set (requirements s) \<and> req_program r = prg_id g \<and> req_depth r = 1)
    (required_root tb g)"
  by (rule ensuresI) (auto simp: required_root_def liftE_def get_requirements_root_def contractD [OF assms]
      split: option.splits dest!: first_filter_SomeD)

lemma add_course_node_ok:
  assumes tb: "treebeard_contract tb"
  shows "ensures trees_ok (\<lambda>_. True) (\<lambda>n s. n \<in> set (requirements s)) (add_course_node tb g op k)"
  unfolding add_course_node_def
proof (rule ensures_bindP [OF required_root_ok [OF tb]])
  fix root :: ProgramRequirement
  let ?P = "\<lambda>s. root \<in> set (requirements s) \<and> req_program root = prg_id g \<and> req_depth root = 1"
  show "ensures trees_ok ?P (\<lambda>n s. n \<in> set (requirements s))
     (bindP (gets (\<lambda>s. first (filter (\<lambda>n. req_operator n = Some op) (tb_children tb (requirements s) root))))
       (\<lambda>found. case found of Some n \<Rightarrow> ret n | None \<Rightarrow> add_child tb root (operator_node (prg_id g) op k)))"
  proof (rule ensures_bindP)
    show "ensures trees_ok ?P (\<lambda>f s. root \<in> set (requirements s) \<and> (\<forall>n. f = Some n \<longrightarrow> n \<in> set (requirements s)))
        (gets (\<lambda>s. first (filter (\<lambda>n. req_operator n = Some op) (tb_children tb (requirements s) root))))"
      by (rule ensuresI) (auto simp: gets_def contractD [OF tb] dest!: first_filter_SomeD)
  next
    fix f
    show "ensures trees_ok (\<lambda>s. root \<in> set (requirements s) \<and> (\<forall>n. f = Some n \<longrightarrow> n \<in> set (requirements s)))
        (\<lambda>n s. n \<in> set (requirements s))
        (case f of Some n \<Rightarrow> ret n | None \<Rightarrow> add_child tb root (operator_node (prg_id g) op k))"
    proof (cases f)
      case None
      then show ?thesis using ensures_weaken [OF add_child_ok [OF tb]] by simp
    qed (auto simp: ensures_def ret_def)
  qed
qed

lemma add_under_ok:
  assumes tb: "treebeard_contract tb"
  shows "ensures trees_ok (\<lambda>_. True) (\<lambda>n s. n \<in> set (requirements s)) (add_under tb g op q)"
  unfolding add_under_def
proof (rule ensures_bindP [OF required_root_ok [OF tb]])
  fix root :: ProgramRequirement
  show "ensures trees_ok (\<lambda>s. root \<in> set (requirements s) \<and> req_program root = prg_id g \<and> req_depth root = 1)
     (\<lambda>n s. n \<in> set (requirements s))
     (thenP (modify (\<lambda>s. s\<lparr>requirements :=
              tb_delete tb (requirements s) (filter (requires q) (tb_children tb (requirements s) root))\<rparr>))
       (bindP (add_course_node tb g op 1) (\<lambda>n. add_child tb n (requirement_node (prg_id g) q))))"
    by (rule ensures_thenP [where Q = "\<lambda>_. True"], rule ensuresI)
      (auto simp: modify_def contractD [OF tb] intro: tree_ok_delete
        intro!: ensures_bindP [OF add_course_node_ok [OF tb] add_child_ok [OF tb]])
qed

lemma save_program_ok:
  assumes tb: "treebeard_contract tb"
  shows "keeps trees_ok (save_program tb g)"
  unfolding save_program_def
proof (rule keeps_thenP)
  let ?tmpl = "\<lambda>i. (new_node (prg_id g) NT_PROGRAM_ROOT)\<lparr>req_id := i\<rparr>"
  let ?add = "bindP fresh_id (\<lambda>i. bindP (liftE (\<lambda>s. tb_add_root tb (requirements s) (?tmpl i)))
      (\<lambda>(_, rows). modify (\<lambda>s. s\<lparr>requirements := rows\<rparr>)))"
  show "keeps trees_ok (bindP (gets (\<lambda>s. get_requirements_root tb s g)) (\<lambda>root.
        if root \<noteq> None then ret () else ?add))"
  proof (rule keepsI)
    fix s assume s: "trees_ok s"
    have "tree_ok rows" if none: "get_requirements_root tb s g = None"
      and out: "tb_add_root tb (requirements s) (?tmpl (next_id s)) = Inr (row, rows)" for row rows
    proof -
      have a: "adds_row (requirements s) [] 1 (?tmpl (next_id s)) (row, rows)" by (rule contractD(4) [OF tb out])
      then have row: "node_check row" "req_program row = prg_id g"
        by (auto simp: adds_row_def node_check_def new_node_def)
      have "prg_id g \<notin> req_program ` {x \<in> set (requirements s). req_depth x = 1}"
        using none by (auto simp: get_requirements_root_def contractD [OF tb])
      then show ?thesis using tree_ok_add [OF s a row(1)] row(2) by auto
    qed
    then show "trees_ok (snd (bindP (gets (\<lambda>s. get_requirements_root tb s g)) (\<lambda>root.
        if root \<noteq> None then ret () else ?add) s))"
      using s by (auto simp: bindP_def gets_def fresh_id_def liftE_def modify_def ret_def split: sum.split)
  qed
qed (simp add: keeps_modify)

section \<open>A course that is added is listed\<close>

text \<open>The course is a child of an operator of the program with that elective flag.\<close>

definition under :: "ProgramRequirement list \<Rightarrow> nat \<Rightarrow> bool \<Rightarrow> Course \<Rightarrow> bool" where
  "under rows g f c \<longleftrightarrow> (\<exists>n \<in> set rows. \<exists>r \<in> set rows. req_depth n = 2 \<and> is_operator n \<and> req_elective_flag n = f
     \<and> req_program n = g \<and> is_course_node r \<and> req_program r = g \<and> req_course r = Some c \<and> is_child n r)"

text \<open>Operators below the root that require all courses are not elective, the others are; the
  courses of \<open>K\<close> have their places.\<close>

definition flags_ok :: "ProgramRequirement list \<Rightarrow> bool" where
  "flags_ok rows \<longleftrightarrow> (\<forall>r \<in> set rows. req_depth r = 2 \<longrightarrow>
     (\<forall>op. req_operator r = Some op \<longrightarrow> req_elective_flag r = (op = MIN_NUMBER_OF)))"

definition listing :: "(nat \<times> bool \<times> Course) set \<Rightarrow> db \<Rightarrow> bool" where
  "listing K s \<longleftrightarrow> trees_ok s \<and> flags_ok (requirements s) \<and> (\<forall>(g, f, c) \<in> K. under (requirements s) g f c)"

lemma under_mono: "under rows g f c \<Longrightarrow> set rows \<subseteq> set rows' \<Longrightarrow> under rows' g f c"
  unfolding under_def by blast

lemma same_prefix: "starts_with p t \<Longrightarrow> starts_with q t \<Longrightarrow> length p = length q \<Longrightarrow> p = q"
  by (auto simp: starts_with_append)

lemma unique_path: "tree_ok rows \<Longrightarrow> a \<in> set rows \<Longrightarrow> b \<in> set rows \<Longrightarrow> req_path a = req_path b \<Longrightarrow> a = b"
  unfolding tree_ok_def distinct_map inj_on_def by blast

lemma path_length: "tree_ok rows \<Longrightarrow> r \<in> set rows \<Longrightarrow> length (req_path r) = 4 * req_depth r"
  unfolding tree_ok_def by blast

lemma node_depth: "tree_ok rows \<Longrightarrow> r \<in> set rows \<Longrightarrow> 1 \<le> req_depth r"
  unfolding tree_ok_def by blast

lemma unique_parent:
  assumes ok: "tree_ok rows" and p: "p \<in> set rows" "is_child p c" and q: "q \<in> set rows" "is_child q c"
  shows "p = q"
proof -
  have "length (req_path p) = length (req_path q)"
    using path_length [OF ok p(1)] path_length [OF ok q(1)] p(2) q(2) by (simp add: is_child_def)
  then have "req_path p = req_path q"
    using p(2) q(2) by (intro same_prefix [of _ "req_path c"]) (auto simp: is_child_def)
  then show ?thesis by (rule unique_path [OF ok p(1) q(1)])
qed

lemma child_program:
  assumes ok: "tree_ok rows" and n: "n \<in> set rows" and c: "c \<in> set rows" "is_child n c"
  shows "req_program c = req_program n"
proof -
  have "req_depth c \<noteq> 1" using node_depth [OF ok n] c(2) by (simp add: is_child_def)
  then obtain p where p: "p \<in> set rows" "is_child p c" "req_program p = req_program c"
    using ok c(1) unfolding tree_ok_def by blast
  from unique_parent [OF ok p(1,2) n c(2)] p(3) show ?thesis by simp
qed

lemma first_unique:
  assumes x: "x \<in> set xs" "p x" and u: "\<And>y. y \<in> set xs \<Longrightarrow> p y \<Longrightarrow> y = x"
  shows "first (filter p xs) = Some x"
proof (cases "first (filter p xs)")
  case None
  then have "\<forall>y \<in> set xs. \<not> p y" by (simp only: first_filter_None)
  then show ?thesis using x by blast
next
  case (Some y)
  from first_filter_SomeD [OF this] have "y = x" using u by blast
  then show ?thesis using Some by simp
qed

lemma find_parent_found:
  assumes ok: "tree_ok rows" and n: "n \<in> set rows" "req_depth n = 2" "req_program n = g"
    and r: "r \<in> set rows" "is_child n r"
  shows "find_parent_operator (filter (\<lambda>r. req_program r = g \<and> req_depth r = 2) rows) r = Some n"
proof -
  let ?ops = "filter (\<lambda>r. req_program r = g \<and> req_depth r = 2) rows"
  have p: "starts_with (req_path n) (req_path r)" "req_path r \<noteq> req_path n"
    using r(2) path_length [OF ok n(1)] path_length [OF ok r(1)] by (auto simp: is_child_def)
  have "x = n" if "x \<in> set ?ops" "starts_with (req_path x) (req_path r)" for x
  proof (rule unique_path [OF ok _ n(1)])
    show "x \<in> set rows" using that by simp
    then have "length (req_path x) = length (req_path n)"
      using that n path_length [OF ok, of x] path_length [OF ok n(1)] by simp
    then show "req_path x = req_path n" by (rule same_prefix [OF that(2) p(1)])
  qed
  moreover have "n \<in> set ?ops" using n by simp
  ultimately show ?thesis unfolding find_parent_operator_def
    using first_unique [of n ?ops "\<lambda>op. starts_with (req_path op) (req_path r) \<and> req_path r \<noteq> req_path op"] p by blast
qed

lemma read_course_mono:
  "set (cr_required_courses d) \<subseteq> set (cr_required_courses (read_course ops r d))
   \<and> set (cr_elective_courses d) \<subseteq> set (cr_elective_courses (read_course ops r d))"
  by (auto simp: read_course_def split: option.splits)

lemma fold_read_course_mono:
  "set (cr_required_courses d) \<subseteq> set (cr_required_courses (fold (read_course ops) rs d))
   \<and> set (cr_elective_courses d) \<subseteq> set (cr_elective_courses (fold (read_course ops) rs d))"
proof (induction rs arbitrary: d)
  case (Cons r rs)
  show ?case using read_course_mono [of d ops r] Cons [of "read_course ops r d"] by auto
qed simp

lemma fold_read_course_lists:
  assumes "r \<in> set rs" "req_course r = Some c" "find_parent_operator ops r = Some op"
  shows "c \<in> set (if req_elective_flag op then cr_elective_courses (fold (read_course ops) rs d)
                  else cr_required_courses (fold (read_course ops) rs d))"
  using assms(1)
proof (induction rs arbitrary: d)
  case (Cons a rs)
  show ?case
  proof (cases "a = r")
    case True
    have "c \<in> set (if req_elective_flag op then cr_elective_courses (read_course ops r d)
                    else cr_required_courses (read_course ops r d))"
      using assms(2,3) by (simp add: read_course_def)
    then show ?thesis using True fold_read_course_mono [of "read_course ops r d" ops rs]
      by (cases "req_elective_flag op") auto
  next
    case False
    then have "r \<in> set rs" using Cons.prems by simp
    from Cons.IH [OF this, of "read_course ops a d"] show ?thesis by (cases "req_elective_flag op") simp_all
  qed
qed simp

lemma under_listed:
  assumes ok: "trees_ok s" and u: "under (requirements s) (prg_id g) f c"
    and d: "courses_with_requirements_data s g = Inr d"
  shows "c \<in> set (if f then cr_elective_courses d else cr_required_courses d)"
proof -
  let ?ops = "filter (\<lambda>r. req_program r = prg_id g \<and> req_depth r = 2) (requirements s)"
  from u obtain n r where n: "n \<in> set (requirements s)" "req_depth n = 2" "req_elective_flag n = f" "req_program n = prg_id g"
    and r: "r \<in> set (requirements s)" "is_course_node r" "req_program r = prg_id g" "req_course r = Some c" "is_child n r"
    unfolding under_def by blast
  have ops: "n \<in> set ?ops" using n by simp
  then have ne: "?ops \<noteq> []" by (auto simp: filter_empty_conv)
  let ?rs = "get_operator_course_requirements s g ?ops"
  have "list_ex (\<lambda>op. starts_with (req_path op) (req_path r)) ?ops"
    using ops r(5) unfolding list_ex_iff is_child_def by blast
  then have mem: "r \<in> set ?rs"
    unfolding get_operator_course_requirements_def if_not_P [OF ne] set_filter using r(1-3) by blast
  from d ne obtain d0 where "d = fold (read_course ?ops) ?rs d0"
    by (auto simp: courses_with_requirements_data_def Let_def process_course_requirements_def bindE_eq_Inr)
  then show ?thesis
    using fold_read_course_lists [OF mem r(4) find_parent_found [OF ok n(1,2,4) r(1,5)], of d0] n(3)
    by (cases f) simp_all
qed

lemma under_delete:
  assumes ok: "tree_ok rows" and u: "under rows g f c" and gone: "\<forall>x \<in> set gone. x \<in> set rows \<and> req_depth x = 2 \<and> requires q x"
  shows "under (filter (\<lambda>r. \<not> exists_row (\<lambda>n. starts_with (req_path n) (req_path r)) gone) rows) g f c"
proof -
  from u obtain n r where n: "n \<in> set rows" "req_depth n = 2" "is_operator n" "req_elective_flag n = f" "req_program n = g"
    and r: "r \<in> set rows" "is_course_node r" "req_program r = g" "req_course r = Some c" "is_child n r"
    unfolding under_def by blast
  have "False" if "x \<in> set gone" "starts_with (req_path x) (req_path n) \<or> starts_with (req_path x) (req_path r)" for x
  proof -
    have x: "x \<in> set rows" "req_depth x = 2" "requires q x" using gone that(1) by blast+
    have "starts_with (req_path x) (req_path r)"
      using that(2) r(5) by (auto simp: is_child_def starts_with_append)
    moreover have "length (req_path x) = length (req_path n)"
      using path_length [OF ok x(1)] path_length [OF ok n(1)] x(2) n(2) by simp
    ultimately have "req_path x = req_path n"
      using r(5) by (intro same_prefix [of _ "req_path r"]) (auto simp: is_child_def)
    then have "x = n" by (rule unique_path [OF ok x(1) n(1)])
    moreover have "node_check n" using ok n(1) unfolding tree_ok_def by blast
    ultimately show False using x(3) n(3) by (cases q) (auto simp: node_check_def is_operator_def split: node_type.splits)
  qed
  then have "n \<in> set (filter (\<lambda>r. \<not> exists_row (\<lambda>n. starts_with (req_path n) (req_path r)) gone) rows)"
      "r \<in> set (filter (\<lambda>r. \<not> exists_row (\<lambda>n. starts_with (req_path n) (req_path r)) gone) rows)"
    using n(1) r(1) by (auto simp: exists_row_iff)
  then show ?thesis unfolding under_def using n r by blast
qed

lemma listing_add_child:
  assumes tb: "treebeard_contract tb"
    and tmpl: "req_operator tmpl = Some op \<longrightarrow> req_elective_flag tmpl = (op = MIN_NUMBER_OF)" "req_operator tmpl = Some op \<or> req_operator tmpl = None"
  shows "ensures (listing K) (\<lambda>s. n \<in> set (requirements s))
    (\<lambda>r s. n \<in> set (requirements s) \<and> r \<in> set (requirements s) \<and> is_child n r \<and> req_program r = req_program n
       \<and> req_node_type r = req_node_type tmpl \<and> req_operator r = req_operator tmpl
       \<and> req_elective_flag r = req_elective_flag tmpl \<and> req_course r = req_course tmpl)
    (add_child tb n tmpl)"
proof (rule ensuresI)
  fix s assume s: "listing K s" "n \<in> set (requirements s)"
  show "listing K (snd (add_child tb n tmpl s))"
  proof (rule add_child_cases [OF tb, of n tmpl s])
    fix row rows assume a: "adds_row (requirements s) (req_path n) (Suc (req_depth n))
        (tmpl\<lparr>req_id := next_id s, req_program := req_program n\<rparr>) (row, rows)" "node_check row"
      and run: "add_child tb n tmpl s = (Inr row, s\<lparr>next_id := Suc (next_id s), requirements := rows\<rparr>)"
    have "req_program row = req_program n" and row: "req_operator row = req_operator tmpl" "req_elective_flag row = req_elective_flag tmpl"
      using a(1) by (auto simp: adds_row_def)
    then have ok: "tree_ok rows" "set rows = insert row (set (requirements s))"
      using tree_ok_add [OF _ a] s by (auto simp: listing_def)
    have "flags_ok rows" using s(1) ok(2) tmpl row by (auto simp: listing_def flags_ok_def)
    moreover have "\<forall>(g, f, c) \<in> K. under rows g f c"
    proof -
      have "set (requirements s) \<subseteq> set rows" using ok(2) by blast
      moreover have "\<forall>x \<in> K. case x of (g, f, c) \<Rightarrow> under (requirements s) g f c" using s(1) by (simp add: listing_def)
      ultimately show ?thesis using under_mono by (auto split: prod.splits)
    qed
    ultimately show ?thesis using ok(1) run by (simp add: listing_def)
  qed (use s in \<open>simp add: listing_def\<close>)
next
  fix s r t assume s: "listing K s" "n \<in> set (requirements s)" and run: "add_child tb n tmpl s = (Inr r, t)"
  show "n \<in> set (requirements t) \<and> r \<in> set (requirements t) \<and> is_child n r \<and> req_program r = req_program n
       \<and> req_node_type r = req_node_type tmpl \<and> req_operator r = req_operator tmpl
       \<and> req_elective_flag r = req_elective_flag tmpl \<and> req_course r = req_course tmpl"
    by (rule add_child_cases [OF tb, of n tmpl s])
      (use run s(2) in \<open>auto simp: adds_row_def is_child_def starts_with_append\<close>)
qed

lemma listing_course_node:
  assumes tb: "treebeard_contract tb"
  shows "ensures (listing K) (\<lambda>_. True)
    (\<lambda>n s. n \<in> set (requirements s) \<and> req_depth n = 2 \<and> is_operator n \<and> req_elective_flag n = (op = MIN_NUMBER_OF)
       \<and> req_program n = prg_id g) (add_course_node tb g op k)"
proof -
  let ?P = "\<lambda>root s. root \<in> set (requirements s) \<and> req_program root = prg_id g \<and> req_depth root = 1"
  let ?Q = "\<lambda>n s. n \<in> set (requirements s) \<and> req_depth n = 2 \<and> is_operator n
      \<and> req_elective_flag n = (op = MIN_NUMBER_OF) \<and> req_program n = prg_id g"
  have root: "ensures (listing K) (\<lambda>_. True) ?P (required_root tb g)"
    by (rule ensuresI) (auto simp: required_root_def liftE_def get_requirements_root_def contractD [OF tb]
      split: option.splits dest!: first_filter_SomeD)
  have found: "ensures (listing K) (?P root) (\<lambda>f s. ?P root s \<and> (\<forall>n. f = Some n \<longrightarrow> ?Q n s))
      (gets (\<lambda>s. first (filter (\<lambda>n. req_operator n = Some op) (tb_children tb (requirements s) root))))" for root
  proof (rule ensuresI)
    fix s f t assume s: "listing K s" "?P root s"
      and run: "gets (\<lambda>s. first (filter (\<lambda>n. req_operator n = Some op) (tb_children tb (requirements s) root))) s = (Inr f, t)"
    have "?Q n s" if "f = Some n" for n
    proof -
      have n: "n \<in> set (requirements s)" "is_child root n" "req_operator n = Some op"
        using run that by (auto simp: gets_def contractD [OF tb] dest!: first_filter_SomeD)
      have d: "req_depth n = 2" using n(2) s(2) by (simp add: is_child_def)
      have ok: "tree_ok (requirements s)" using s(1) by (simp add: listing_def)
      have "node_check n" using ok n(1) unfolding tree_ok_def by blast
      then have op: "is_operator n" using n(3) by (auto simp: node_check_def is_operator_def split: node_type.splits)
      have "req_program n = prg_id g" using child_program [OF ok _ n(1,2)] s(2) by simp
      moreover have "req_elective_flag n = (op = MIN_NUMBER_OF)"
        using s(1) n(1,3) d by (auto simp: listing_def flags_ok_def)
      ultimately show ?thesis using n(1) d op by blast
    qed
    then show "?P root t \<and> (\<forall>n. f = Some n \<longrightarrow> ?Q n t)" using run s(2) by (simp add: gets_def)
  qed (simp add: gets_def)
  have rest: "ensures (listing K) (\<lambda>s. ?P root s \<and> (\<forall>n. f = Some n \<longrightarrow> ?Q n s)) ?Q
      (case f of Some n \<Rightarrow> ret n | None \<Rightarrow> add_child tb root (operator_node (prg_id g) op k))" for root f
  proof (cases f)
    case None
    have "ensures (listing K) (?P root) ?Q (add_child tb root (operator_node (prg_id g) op k))"
    proof (rule ensuresI)
      let ?tmpl = "operator_node (prg_id g) op k"
      have t: "req_operator ?tmpl = Some op \<longrightarrow> req_elective_flag ?tmpl = (op = MIN_NUMBER_OF)"
        "req_operator ?tmpl = Some op \<or> req_operator ?tmpl = None" "req_node_type ?tmpl = NT_OPERATOR"
        by (cases op; simp add: operator_node_def new_node_def)+
      note child = listing_add_child [OF tb t(1,2), of K root]
      fix s assume s: "listing K s" "?P root s"
      show "listing K (snd (add_child tb root ?tmpl s))" by (rule ensures_state [OF child s(1)]) (use s(2) in simp)
      fix n u assume run: "add_child tb root ?tmpl s = (Inr n, u)"
      show "?Q n u" using ensures_result [OF child s(1) _ run] s(2) t
        by (cases op) (auto simp: is_child_def is_operator_def operator_node_def new_node_def)
    qed
    then show ?thesis using None by simp
  qed (simp add: ensures_def ret_def)
  show ?thesis unfolding add_course_node_def
    by (rule ensures_bindP [OF root ensures_bindP [OF found rest]])
qed

lemma listing_add_course:
  assumes tb: "treebeard_contract tb"
  shows "ensures (listing K) (\<lambda>_. True) (\<lambda>_. listing (insert (prg_id g, op = MIN_NUMBER_OF, c) K))
    (add_under tb g op (ReqCourse c))"
proof -
  let ?P = "\<lambda>root s. root \<in> set (requirements s) \<and> req_depth root = 1"
  let ?N = "\<lambda>n s. n \<in> set (requirements s) \<and> req_depth n = 2 \<and> is_operator n \<and> req_elective_flag n = (op = MIN_NUMBER_OF)
       \<and> req_program n = prg_id g"
  let ?tmpl = "requirement_node (prg_id g) (ReqCourse c)"
  have root: "ensures (listing K) (\<lambda>_. True) ?P (required_root tb g)"
    by (rule ensuresI) (auto simp: required_root_def liftE_def get_requirements_root_def contractD [OF tb]
      split: option.splits dest!: first_filter_SomeD)
  have del: "ensures (listing K) (?P root) (\<lambda>_ _. True) (modify (\<lambda>s. s\<lparr>requirements :=
      tb_delete tb (requirements s) (filter (requires (ReqCourse c)) (tb_children tb (requirements s) root))\<rparr>))" for root
  proof (rule ensuresI)
    fix s assume s: "listing K s" "?P root s"
    let ?gone = "filter (requires (ReqCourse c)) (filter (is_child root) (requirements s))"
    let ?rows = "filter (\<lambda>r. \<not> exists_row (\<lambda>n. starts_with (req_path n) (req_path r)) ?gone) (requirements s)"
    have g: "\<forall>x \<in> set ?gone. x \<in> set (requirements s) \<and> req_depth x = 2 \<and> requires (ReqCourse c) x"
      using s(2) by (auto simp: is_child_def)
    have ok: "tree_ok (requirements s)" using s(1) by (simp add: listing_def)
    have "tree_ok ?rows" by (rule tree_ok_delete [OF ok])
    moreover have "flags_ok ?rows" using s(1) by (auto simp: listing_def flags_ok_def)
    moreover have "\<forall>(g, f, c) \<in> K. under ?rows g f c"
      using s(1) under_delete [OF ok _ g] by (auto simp: listing_def)
    ultimately show "listing K (snd (modify (\<lambda>s. s\<lparr>requirements :=
        tb_delete tb (requirements s) (filter (requires (ReqCourse c)) (tb_children tb (requirements s) root))\<rparr>) s))"
      by (simp add: modify_def contractD [OF tb] listing_def)
  qed simp
  have child: "ensures (listing K) (?N n) (\<lambda>_. listing (insert (prg_id g, op = MIN_NUMBER_OF, c) K)) (add_child tb n ?tmpl)" for n
  proof (rule ensuresI)
    have t: "req_operator ?tmpl = Some op \<longrightarrow> req_elective_flag ?tmpl = (op = MIN_NUMBER_OF)"
        "req_operator ?tmpl = Some op \<or> req_operator ?tmpl = None" by (simp_all add: new_node_def)
    note child = listing_add_child [OF tb t, of K n]
    fix s assume s: "listing K s" "?N n s"
    show "listing K (snd (add_child tb n ?tmpl s))" by (rule ensures_state [OF child s(1)]) (use s(2) in simp)
    fix r u assume run: "add_child tb n ?tmpl s = (Inr r, u)"
    have "listing K u" and r: "n \<in> set (requirements u)" "r \<in> set (requirements u)" "is_child n r" "req_program r = req_program n"
        "req_node_type r = NT_COURSE" "req_course r = Some c"
      using ensures_result [OF child s(1) _ run] s(2) by (auto simp: new_node_def)
    moreover have "under (requirements u) (prg_id g) (op = MIN_NUMBER_OF) c"
      unfolding under_def is_course_node_def using r s(2) by metis
    ultimately show "listing (insert (prg_id g, op = MIN_NUMBER_OF, c) K) u" by (simp add: listing_def)
  qed
  show ?thesis unfolding add_under_def
    by (rule ensures_bindP [OF root ensures_thenP [OF del ensures_bindP [OF listing_course_node [OF tb] child]]])
qed

text \<open>
  A course that is made an elective after it was required is both: the deletion before the new
  node looks for the old one among the operators.
\<close>

lemma course_added_twice:
  assumes tb: "treebeard_contract tb" and ok: "trees_ok s" "flags_ok (requirements s)"
    and run: "add_requirement tb g (ReqCourse c) s = (Inr r, t)" "add_elective tb g c t = (Inr e, u)"
    and d: "courses_with_requirements_data u g = Inr d"
  shows "c \<in> set (cr_required_courses d) \<and> c \<in> set (cr_elective_courses d)"
proof -
  have "listing {} s" using ok by (simp add: listing_def)
  from ensures_result [OF listing_add_course [OF tb] this _ run(1) [unfolded add_requirement_def]]
  have "listing {(prg_id g, False, c)} t" by simp
  from ensures_result [OF listing_add_course [OF tb] this _ run(2) [unfolded add_elective_def]]
  have l: "listing {(prg_id g, True, c), (prg_id g, False, c)} u" by simp
  then have u: "trees_ok u" "under (requirements u) (prg_id g) True c" "under (requirements u) (prg_id g) False c"
    by (auto simp: listing_def)
  show ?thesis using under_listed [OF u(1,2) d] under_listed [OF u(1,3) d] by simp
qed

end
