(* ===== verification/Certificates.thy ===== *)
theory Certificates
  imports Requirements Lines
begin

text \<open>
  Grades and certificates (\<open>src/courses/api.py\<close>, \<open>src/courses/signals.py\<close>): storing the grades
  that edX reports, creating, deleting and revoking course run certificates, deciding whether the
  requirements of a program are met and creating its certificates.  The edX grades client, the
  credential signing service and the tree package are parameters.  The operations run outside
  of an atomic block (Celery tasks, commands and a webhook), so that the callbacks of a saved
  certificate run as soon as it is saved.
\<close>

section \<open>Services\<close>

record edx_grade =
  eg_username :: string
  eg_percent :: rat
  eg_passed :: bool
  eg_letter_grade :: "string option"

text \<open>
  The grades client; whether the signing service answers with a credential (with the page of the
  certificate, which the CMS holds); \<open>has_equal_properties\<close> of the common package; the tree
  package; and the depth of calls at which Python raises \<open>RecursionError\<close>.
\<close>

record grade_services =
  gs_course_grades :: "CourseRun \<Rightarrow> exn + edx_grade list"
  gs_student_grade :: "User \<Rightarrow> CourseRun \<Rightarrow> exn + edx_grade"
  gs_signs_run :: "CourseRunCertificate \<Rightarrow> db \<Rightarrow> bool"
  gs_signs_program :: "ProgramCertificate \<Rightarrow> db \<Rightarrow> bool"
  gs_has_equal_properties :: "CourseRunGrade \<Rightarrow> edx_grade \<Rightarrow> bool"
  gs_tree :: treebeard
  gs_recursion_limit :: nat

definition sync_hubspot_user :: "nat \<Rightarrow> unit op" where
  "sync_hubspot_user u =
     bindP (gets (\<lambda>s. (case find_user s u of None \<Rightarrow> False | Some r \<Rightarrow> usr_b2b_contracts r \<noteq> [])
                    \<or> \<not> set_hubspot_token (conf s))) (\<lambda>skip.
     if skip then ret () else emit (SyncHubspotUser u))"

section \<open>Grades\<close>

text \<open>The validators of the grade columns; \<open>create\<close> does not run them, the database then refuses
  only a letter grade that is too long.\<close>

definition letter_fits :: "string option \<Rightarrow> bool" where
  "letter_fits l = (case l of None \<Rightarrow> True | Some t \<Rightarrow> length t \<le> 10)"

definition clean_grade :: "CourseRunGrade \<Rightarrow> exn + unit" where
  "clean_grade g =
     (if 0 \<le> crg_grade g \<and> crg_grade g \<le> 2 \<and> letter_fits (crg_letter_grade g) then Inr () else Inl ValidationError)"

definition find_grade :: "db \<Rightarrow> nat \<Rightarrow> CourseRun \<Rightarrow> CourseRunGrade option" where
  "find_grade s u r = first (filter (\<lambda>g. crg_user g = u \<and> run_id (crg_run g) = run_id r) (run_grades s))"

definition save_grade :: "CourseRunGrade \<Rightarrow> unit op" where
  "save_grade g =
     bindP (liftE (\<lambda>_. clean_grade g)) (\<lambda>_.
       modify (\<lambda>s. s\<lparr>run_grades := update_rows (\<lambda>x. crg_id x = crg_id g) (\<lambda>_. g) (run_grades s)\<rparr>))"

definition create_grade :: "nat \<Rightarrow> CourseRun \<Rightarrow> edx_grade \<Rightarrow> CourseRunGrade op" where
  "create_grade u r eg =
     (if \<not> letter_fits (eg_letter_grade eg) then raise DataError
      else bindP fresh_id (\<lambda>i.
        let g = \<lparr>crg_id = i, crg_user = u, crg_run = r, crg_grade = eg_percent eg,
                 crg_letter_grade = eg_letter_grade eg, crg_passed = eg_passed eg, crg_set_by_admin = False\<rparr>
        in thenP (modify (\<lambda>s. s\<lparr>run_grades := run_grades s @ [g]\<rparr>)) (ret g)))"

definition with_edx_grade :: "edx_grade \<Rightarrow> CourseRunGrade \<Rightarrow> CourseRunGrade" where
  "with_edx_grade eg g = g\<lparr>crg_grade := eg_percent eg, crg_passed := eg_passed eg,
                            crg_letter_grade := eg_letter_grade eg\<rparr>"

definition ensure_course_run_grade ::
  "grade_services \<Rightarrow> nat \<Rightarrow> CourseRun \<Rightarrow> edx_grade \<Rightarrow> bool \<Rightarrow> (CourseRunGrade \<times> bool \<times> bool) op" where
  "ensure_course_run_grade gs u r eg should_update =
     bindP (gets (\<lambda>s. find_grade s u r)) (\<lambda>found.
     case found of
       None \<Rightarrow> bindP (create_grade u r eg) (\<lambda>g. ret (g, True, False))
     | Some g \<Rightarrow>
         if should_update \<and> \<not> crg_set_by_admin g \<and> \<not> gs_has_equal_properties gs g eg
         then thenP (save_grade (with_edx_grade eg g)) (ret (with_edx_grade eg g, False, True))
         else ret (g, False, False))"

definition override_user_grade :: "nat \<Rightarrow> rat \<Rightarrow> string \<Rightarrow> string \<Rightarrow> bool \<Rightarrow> CourseRunGrade op" where
  "override_user_grade u override_grade letter_grade courseware_id should_force_pass =
     (if \<not> is_grade_valid override_grade then raise ValidationError
      else if \<not> is_letter_grade_valid letter_grade then raise ValidationError
      else atomicP
        (bindP (liftE (\<lambda>s. get_one (filter (\<lambda>g. crg_user g = u \<and> run_courseware_id (crg_run g) = courseware_id)
                                      (run_grades s)))) (\<lambda>g.
         let g = g\<lparr>crg_grade := override_grade, crg_passed := (if should_force_pass then override_grade \<noteq> 0 else False),
                   crg_letter_grade := Some letter_grade, crg_set_by_admin := True\<rparr>
         in thenP (save_grade g) (ret g))))"

section \<open>Program certificates\<close>

text \<open>The runs of the program's courses that the learner takes.\<close>

definition nonvariant :: "CourseRun \<Rightarrow> bool" where
  "nonvariant r \<longleftrightarrow> run_variant_industry r = [] \<and> run_variant_length r = []"

definition user_courseruns :: "db \<Rightarrow> nat \<Rightarrow> Program \<Rightarrow> CourseRun list" where
  "user_courseruns s u g =
     filter (\<lambda>r. exists_row (\<lambda>e. cre_user e = u \<and> run_id (cre_run e) = run_id r \<and> cre_active e
                     \<and> cre_change_status e = None) (run_enrollments s)
               \<and> nonvariant r \<and> crs_id (run_course r) \<in> courses_qset s g) (usable_runs s)"

definition cert_courses :: "db \<Rightarrow> nat \<Rightarrow> Program \<Rightarrow> nat list" where
  "cert_courses s u g = map (crs_id \<circ> run_course)
     (filter (\<lambda>r. exists_row (\<lambda>c. crc_user c = u \<and> run_id (crc_run c) = run_id r \<and> \<not> crc_is_revoked c)
                (run_certificates s)) (user_courseruns s u g))"

definition grade_courses :: "db \<Rightarrow> nat \<Rightarrow> Program \<Rightarrow> nat list" where
  "grade_courses s u g = map (crs_id \<circ> run_course)
     (filter (\<lambda>r. exists_row (\<lambda>x. crg_user x = u \<and> run_id (crg_run x) = run_id r \<and> crg_passed x) (run_grades s))
       (filter (\<lambda>r. verified_mode \<notin> set (run_enrollment_modes r)) (user_courseruns s u g)))"

definition program_root :: "treebeard \<Rightarrow> db \<Rightarrow> Program \<Rightarrow> exn + ProgramRequirement" where
  "program_root tb s g = get_one (filter (\<lambda>r. req_program r = prg_id g) (tb_roots tb (requirements s)))"

definition has_program_certificate :: "db \<Rightarrow> nat \<Rightarrow> Program \<Rightarrow> bool" where
  "has_program_certificate s u g =
     exists_row (\<lambda>c. pc_user c = u \<and> prg_id (pc_program c) = prg_id g \<and> \<not> pc_is_revoked c) (program_certificates s)"

text \<open>\<open>all(f(x) for x in xs)\<close> stops at the first \<open>False\<close>.\<close>

fun allE :: "('a \<Rightarrow> exn + bool) \<Rightarrow> 'a list \<Rightarrow> exn + bool" where
  "allE f [] = Inr True"
| "allE f (x # xs) = bindE (f x) (\<lambda>b. if b then allE f xs else Inr False)"

definition operator_number :: "ProgramRequirement \<Rightarrow> exn + int" where
  "operator_number n =
     (case req_operator_value n of None \<Rightarrow> Inl PyTypeError
      | Some v \<Rightarrow> (case parse_int v of None \<Rightarrow> Inl PyValueError | Some k \<Rightarrow> Inr k))"

definition earned_course :: "db \<Rightarrow> nat \<Rightarrow> Program \<Rightarrow> ProgramRequirement \<Rightarrow> bool" where
  "earned_course s u g n =
     (case req_course n of None \<Rightarrow> False
      | Some c \<Rightarrow> crs_id c \<in> set (cert_courses s u g) \<or> crs_id c \<in> set (grade_courses s u g))"

text \<open>
  \<open>_has_earned\<close> of a node of the tree of \<open>g\<close>, with the number of calls that are still allowed; a
  required program that needs no payment is decided by the tree of that program.
\<close>

primrec has_earned :: "nat \<Rightarrow> treebeard \<Rightarrow> db \<Rightarrow> nat \<Rightarrow> Program \<Rightarrow> ProgramRequirement \<Rightarrow> exn + bool" where
  "has_earned 0 tb s u g n = Inl RecursionError"
| "has_earned (Suc k) tb s u g n =
     (if is_root n \<or> is_all_of_operator n
      then allE (has_earned k tb s u g) (tb_children tb (requirements s) n)
      else if is_min_number_of_operator n
      then bindE (mapE (has_earned k tb s u g) (tb_children tb (requirements s) n)) (\<lambda>bs.
           bindE (operator_number n) (\<lambda>m. Inr (m \<le> int (length (filter id bs)))))
      else if is_course_node n then Inr (earned_course s u g n)
      else if is_program_node n
      then (case req_required_program n of
              None \<Rightarrow> Inl PyAttributeError
            | Some p \<Rightarrow> if prg_requires_payment p then Inr (has_program_certificate s u p)
                        else bindE (program_root tb s p) (has_earned k tb s u p))
      else Inr False)"

definition has_earned_program_cert :: "nat \<Rightarrow> treebeard \<Rightarrow> db \<Rightarrow> nat \<Rightarrow> Program \<Rightarrow> exn + bool" where
  "has_earned_program_cert k tb s u g = bindE (program_root tb s g) (has_earned k tb s u g)"

text \<open>\<open>create_verifiable_credential\<close> of a certificate, which swallows its exceptions.\<close>

definition sign_program_certificate :: "grade_services \<Rightarrow> ProgramCertificate \<Rightarrow> unit op" where
  "sign_program_certificate gs c =
     bindP (gets (gs_signs_program gs c)) (\<lambda>signed.
     whenP signed (thenP (modify (\<lambda>s. s\<lparr>program_certificates :=
         update_rows (\<lambda>x. pc_id x = pc_id c) (\<lambda>x. x\<lparr>pc_has_credential := True\<rparr>) (program_certificates s)\<rparr>))
       (emit_on_commit (SyncProgramCertificate (pc_id c)))))"

definition create_program_certificate :: "grade_services \<Rightarrow> nat \<Rightarrow> Program \<Rightarrow> ProgramCertificate op" where
  "create_program_certificate gs u g =
     bindP fresh_id (\<lambda>i.
     bindP (gets (\<lambda>s. \<lparr>pc_id = i, pc_user = u, pc_program = g, pc_is_revoked = False, pc_has_credential = False,
                        pc_issue_date = now s\<rparr>)) (\<lambda>c.
     thenP (modify (\<lambda>s. s\<lparr>program_certificates := program_certificates s @ [c]\<rparr>))
     (thenP (emit_on_commit (SyncProgramCertificate i))
     (thenP (sync_hubspot_user u)
     (thenP (sign_program_certificate gs c) (ret c))))))"

definition verified_program_enrollment :: "db \<Rightarrow> nat \<Rightarrow> Program \<Rightarrow> bool" where
  "verified_program_enrollment s u g =
     exists_row (\<lambda>e. prg_id (pe_program e) = prg_id g \<and> pe_user e = u \<and> pe_enrollment_mode e = verified_mode
                   \<and> pe_active e) (program_enrollments s)"

definition find_program_certificate :: "db \<Rightarrow> nat \<Rightarrow> Program \<Rightarrow> ProgramCertificate option" where
  "find_program_certificate s u g =
     first (filter (\<lambda>c. pc_user c = u \<and> prg_id (pc_program c) = prg_id g) (program_certificates s))"

definition generate_program_certificate ::
  "grade_services \<Rightarrow> nat \<Rightarrow> Program \<Rightarrow> bool \<Rightarrow> (ProgramCertificate option \<times> bool) op" where
  "generate_program_certificate gs u g force_create =
     bindP (gets (\<lambda>s. verified_program_enrollment s u g)) (\<lambda>verified.
     if \<not> force_create \<and> \<not> verified then ret (None, False)
     else bindP (gets (\<lambda>s. find_program_certificate s u g)) (\<lambda>existing.
     case existing of
       Some c \<Rightarrow> ret (Some c, False)
     | None \<Rightarrow>
         bindP (if force_create then ret True
                else liftE (\<lambda>s. has_earned_program_cert (gs_recursion_limit gs) (gs_tree gs) s u g)) (\<lambda>earned.
         if \<not> earned then ret (None, False)
         else bindP (create_program_certificate gs u g) (\<lambda>c. ret (Some c, True)))))"

fun generate_multiple_programs_certificate ::
  "grade_services \<Rightarrow> nat \<Rightarrow> Program list \<Rightarrow> (ProgramCertificate option \<times> bool) list op" where
  "generate_multiple_programs_certificate gs u [] = ret []"
| "generate_multiple_programs_certificate gs u (g # gs') =
     bindP (generate_program_certificate gs u g False) (\<lambda>x.
     bindP (generate_multiple_programs_certificate gs u gs') (\<lambda>xs. ret (x # xs)))"

definition manage_program_certificate_access :: "nat \<Rightarrow> Program \<Rightarrow> bool \<Rightarrow> bool op" where
  "manage_program_certificate_access u g revoke_state =
     bindP (gets (\<lambda>s. find_program_certificate s u g)) (\<lambda>found.
     case found of
       None \<Rightarrow> ret False
     | Some c \<Rightarrow>
         thenP (modify (\<lambda>s. s\<lparr>program_certificates :=
             update_rows (\<lambda>x. pc_id x = pc_id c) (\<lambda>x. x\<lparr>pc_is_revoked := revoke_state\<rparr>) (program_certificates s)\<rparr>))
         (thenP (emit_on_commit (SyncProgramCertificate (pc_id c))) (ret True)))"

section \<open>The job that creates missing program certificates\<close>

definition get_eligible_program_certificate_candidates :: "db \<Rightarrow> ProgramEnrollment list" where
  "get_eligible_program_certificate_candidates s =
     filter (\<lambda>e. pe_active e \<and> pe_enrollment_mode e = verified_mode \<and> prg_live (pe_program e)
               \<and> \<not> exists_row (\<lambda>c. pc_user c = pe_user e \<and> prg_id (pc_program c) = prg_id (pe_program e))
                    (program_certificates s)) (program_enrollments s)"

record job_stats =
  js_processed :: nat
  js_created :: nat
  js_ineligible :: nat
  js_failed :: nat

definition process_candidate :: "grade_services \<Rightarrow> job_stats \<Rightarrow> ProgramEnrollment \<Rightarrow> job_stats op" where
  "process_candidate gs st e =
     (let st = st\<lparr>js_processed := Suc (js_processed st)\<rparr>
      in catchP (bindP (generate_program_certificate gs (pe_user e) (pe_program e) False) (\<lambda>(_, created).
             ret (if created then st\<lparr>js_created := Suc (js_created st)\<rparr>
                  else st\<lparr>js_ineligible := Suc (js_ineligible st)\<rparr>)))
           (\<lambda>_. ret (st\<lparr>js_failed := Suc (js_failed st)\<rparr>)))"

text \<open>The loop over the batches, at most \<open>k\<close> of them; \<open>None\<close> means that it has not ended.\<close>

fun missing_batches :: "nat \<Rightarrow> grade_services \<Rightarrow> nat \<Rightarrow> nat \<Rightarrow> job_stats \<Rightarrow> job_stats option op" where
  "missing_batches 0 gs batch_size last_id st = ret None"
| "missing_batches (Suc k) gs batch_size last_id st =
     bindP (gets (\<lambda>s. take batch_size (filter (\<lambda>e. last_id < pe_id e) (get_eligible_program_certificate_candidates s))))
       (\<lambda>batch. if batch = [] then ret (Some st)
                else bindP (foldP (process_candidate gs) st batch) (\<lambda>st.
                  missing_batches k gs batch_size (pe_id (last batch)) st))"

definition no_stats :: job_stats where
  "no_stats = \<lparr>js_processed = 0, js_created = 0, js_ineligible = 0, js_failed = 0\<rparr>"

definition generate_missing_program_certificates :: "nat \<Rightarrow> grade_services \<Rightarrow> nat \<Rightarrow> job_stats option op" where
  "generate_missing_program_certificates k gs batch_size = missing_batches k gs batch_size 0 no_stats"

section \<open>Course run certificates\<close>

definition is_certificate_eligible :: "db \<Rightarrow> CourseRunGrade \<Rightarrow> bool" where
  "is_certificate_eligible s g \<longleftrightarrow>
     crg_passed g \<and> exists_row (\<lambda>e. cre_user e = crg_user g \<and> run_id (cre_run e) = run_id (crg_run g)
                                \<and> cre_enrollment_mode e = verified_mode \<and> cre_active e) (run_enrollments s)"

definition for_run :: "nat \<Rightarrow> CourseRun \<Rightarrow> CourseRunCertificate \<Rightarrow> bool" where
  "for_run u r c \<longleftrightarrow> crc_user c = u \<and> run_id (crc_run c) = run_id r"

text \<open>The default manager shows certificates that are issued and not revoked.\<close>

definition active_certificate :: "db \<Rightarrow> CourseRunCertificate \<Rightarrow> bool" where
  "active_certificate s c \<longleftrightarrow> \<not> crc_is_revoked c \<and> crc_issue_date c \<le> now s"

definition sign_run_certificate :: "grade_services \<Rightarrow> CourseRunCertificate \<Rightarrow> unit op" where
  "sign_run_certificate gs c =
     bindP (gets (gs_signs_run gs c)) (\<lambda>signed.
     whenP signed (thenP (modify (\<lambda>s. s\<lparr>run_certificates :=
         update_rows (\<lambda>x. crc_id x = crc_id c) (\<lambda>x. x\<lparr>crc_has_credential := True\<rparr>) (run_certificates s)\<rparr>))
       (emit_on_commit (SyncRunCertificate (crc_id c)))))"

definition programs_with_course :: "db \<Rightarrow> Course \<Rightarrow> Program list" where
  "programs_with_course s c =
     filter (\<lambda>g. prg_live g \<and> exists_row (\<lambda>r. req_program r = prg_id g
                    \<and> map_option crs_id (req_course r) = Some (crs_id c)) (requirements s)) (programs s)"

text \<open>A new row and the callbacks of \<open>handle_create_course_run_certificate\<close>.\<close>

definition create_run_certificate :: "grade_services \<Rightarrow> nat \<Rightarrow> CourseRun \<Rightarrow> CourseRunCertificate op" where
  "create_run_certificate gs u r =
     bindP fresh_id (\<lambda>i.
     bindP (gets (\<lambda>s. \<lparr>crc_id = i, crc_user = u, crc_run = r, crc_is_revoked = False, crc_has_credential = False,
                        crc_issue_date = now s\<rparr>)) (\<lambda>c.
     thenP (modify (\<lambda>s. s\<lparr>run_certificates := run_certificates s @ [c]\<rparr>))
     (bindP (gets (\<lambda>s. programs_with_course s (run_course r))) (\<lambda>ps.
      thenP (bindP (generate_multiple_programs_certificate gs u ps) (\<lambda>_. ret ()))
      (thenP (emit_on_commit (SyncRunCertificate i)) (ret c))))))"

text \<open>\<open>get_or_create\<close> of the default manager: a row that it hides makes the insertion fail.\<close>

definition get_or_create_run_certificate :: "grade_services \<Rightarrow> nat \<Rightarrow> CourseRun \<Rightarrow> (CourseRunCertificate \<times> bool) op" where
  "get_or_create_run_certificate gs u r =
     bindP (gets (\<lambda>s. (first (filter (\<lambda>c. for_run u r c \<and> active_certificate s c) (run_certificates s)),
                       exists_row (for_run u r) (run_certificates s)))) (\<lambda>(found, any).
     case found of
       Some c \<Rightarrow> ret (c, False)
     | None \<Rightarrow> if any then raise IntegrityError
               else bindP (create_run_certificate gs u r) (\<lambda>c. ret (c, True)))"

definition process_course_run_grade_certificate ::
  "grade_services \<Rightarrow> CourseRunGrade \<Rightarrow> bool \<Rightarrow> (CourseRunCertificate option \<times> bool \<times> bool) op" where
  "process_course_run_grade_certificate gs g should_force_create =
     (let u = crg_user g; r = crg_run g in
      bindP (gets (\<lambda>s. is_certificate_eligible s g)) (\<lambda>eligible.
      if crg_grade g = 0
      then bindP (gets (\<lambda>s. exists_row (\<lambda>c. for_run u r c \<and> active_certificate s c) (run_certificates s))) (\<lambda>deleted.
           thenP (modify (\<lambda>s. s\<lparr>run_certificates :=
                    filter (\<lambda>c. \<not> (for_run u r c \<and> active_certificate s c)) (run_certificates s)\<rparr>))
           (thenP (sync_hubspot_user u) (ret (None, False, deleted))))
      else if eligible \<or> should_force_create
      then catchP
        (bindP (get_or_create_run_certificate gs u r) (\<lambda>(c, created).
           thenP (sync_hubspot_user u)
           (thenP (whenP (\<not> crc_has_credential c) (sign_run_certificate gs c))
             (ret (Some c, created, False)))))
        (\<lambda>e. if e = IntegrityError then ret (None, False, False) else raise e)
      else ret (None, False, False)))"

definition manage_course_run_certificate_access :: "nat \<Rightarrow> string \<Rightarrow> bool \<Rightarrow> bool op" where
  "manage_course_run_certificate_access u courseware_id revoke_state =
     bindP (liftE (\<lambda>s. get_one (filter (\<lambda>r. run_courseware_id r = courseware_id) (usable_runs s)))) (\<lambda>r.
     bindP (gets (\<lambda>s. first (filter (for_run u r) (run_certificates s)))) (\<lambda>found.
     case found of
       None \<Rightarrow> ret False
     | Some c \<Rightarrow>
         thenP (modify (\<lambda>s. s\<lparr>run_certificates :=
             update_rows (\<lambda>x. crc_id x = crc_id c) (\<lambda>x. x\<lparr>crc_is_revoked := revoke_state\<rparr>) (run_certificates s)\<rparr>))
         (thenP (emit_on_commit (SyncRunCertificate (crc_id c))) (ret True))))"

section \<open>The job over the runs\<close>

definition get_certificate_grade_eligible_runs :: "db \<Rightarrow> CourseRun list" where
  "get_certificate_grade_eligible_runs s =
     filter (\<lambda>r. run_certificate_available_date r = None
               \<or> q_gt (run_certificate_available_date r) (now s - set_certificate_window (conf s)))
       (filter nonvariant (live_runs True (usable_runs s)))"

text \<open>The grades of known users; the iteration ends at the first exception of the client or of a
  name that several users have, which is logged.\<close>

fun known_users :: "db \<Rightarrow> edx_grade list \<Rightarrow> (edx_grade \<times> nat) list" where
  "known_users s [] = []"
| "known_users s (eg # egs) =
     (case get_one (filter (\<lambda>r. usr_edx_username r = Some (eg_username eg)) (users s)) of
        Inr r \<Rightarrow> (eg, usr_id r) # known_users s egs
      | Inl e \<Rightarrow> if e = ObjectDoesNotExist then known_users s egs else [])"

definition get_edx_grades_with_users :: "grade_services \<Rightarrow> db \<Rightarrow> CourseRun \<Rightarrow> User option \<Rightarrow> (edx_grade \<times> nat) list" where
  "get_edx_grades_with_users gs s r user =
     (case user of
        Some v \<Rightarrow> (case gs_student_grade gs v r of Inl _ \<Rightarrow> [] | Inr eg \<Rightarrow> [(eg, usr_id v)])
      | None \<Rightarrow> (case gs_course_grades gs r of Inl _ \<Rightarrow> [] | Inr egs \<Rightarrow> known_users s egs))"

definition certificate_due :: "db \<Rightarrow> CourseRun \<Rightarrow> bool \<Rightarrow> bool" where
  "certificate_due s r force \<longleftrightarrow> force \<or> run_is_self_paced r \<or> q_lte (run_certificate_available_date r) (now s)"

definition process_grade :: "grade_services \<Rightarrow> CourseRun \<Rightarrow> bool \<Rightarrow> edx_grade \<times> nat \<Rightarrow> unit op" where
  "process_grade gs r force = (\<lambda>(eg, u).
     bindP (catchP (bindP (ensure_course_run_grade gs u r eg True) (\<lambda>(g, _). ret (Some g)))
              (\<lambda>e. if e = ValidationError then ret None else raise e)) (\<lambda>found.
     case found of
       None \<Rightarrow> ret ()
     | Some g \<Rightarrow>
         bindP (gets (\<lambda>s. certificate_due s r force)) (\<lambda>due.
         whenP due (catchP (bindP (process_course_run_grade_certificate gs g False) (\<lambda>_. ret ())) (\<lambda>_. ret ())))))"

definition generate_course_run_certificates :: "grade_services \<Rightarrow> User option \<Rightarrow> CourseRun option \<Rightarrow> bool \<Rightarrow> unit op" where
  "generate_course_run_certificates gs user course_run force =
     bindP (gets (\<lambda>s. case course_run of Some r \<Rightarrow> [r] | None \<Rightarrow> get_certificate_grade_eligible_runs s)) (\<lambda>rs.
     forP (\<lambda>r. bindP (gets (\<lambda>s. get_edx_grades_with_users gs s r user)) (\<lambda>gus.
                 forP (process_grade gs r force) gus)) rs)"

section \<open>Upgrading an enrollment in a program\<close>

definition verified_course_ids :: "db \<Rightarrow> nat \<Rightarrow> nat set \<Rightarrow> nat set" where
  "verified_course_ids s u cs =
     {c \<in> cs. exists_row (\<lambda>e. cre_user e = u \<and> crs_id (run_course (cre_run e)) = c
                 \<and> cre_enrollment_mode e = verified_mode \<and> cre_active e) (run_enrollments s)}"

definition program_certificate_shown :: "db \<Rightarrow> ProgramEnrollment \<Rightarrow> bool" where
  "program_certificate_shown s e =
     exists_row (\<lambda>c. prg_id (pc_program c) = prg_id (pe_program e) \<and> pc_user c = pe_user e
                   \<and> \<not> pc_is_revoked c \<and> pc_issue_date c \<le> now s) (program_certificates s)"

definition upgrade_eligible :: "db \<Rightarrow> nat \<Rightarrow> course_requirements \<Rightarrow> bool" where
  "upgrade_eligible s u d =
     (let verified = verified_course_ids s u (crs_id ` set (map fst (cr_courses d)))
      in list_all (\<lambda>c. crs_id c \<in> verified) (cr_required_courses d)
         \<and> (case cr_minimum_elective_requirement d of
              None \<Rightarrow> True
            | Some k \<Rightarrow> k \<le> int (card (verified \<inter> crs_id ` set (cr_elective_courses d)))))"

definition upgrade_program_enrollment_if_eligible :: "ProgramEnrollment \<Rightarrow> (ProgramEnrollment \<times> bool) op" where
  "upgrade_program_enrollment_if_eligible e =
     bindP (gets (\<lambda>s. program_certificate_shown s e)) (\<lambda>certified.
     if certified then ret (e, False)
     else bindP (liftE (\<lambda>s. courses_with_requirements_data s (pe_program e))) (\<lambda>d.
     bindP (gets (\<lambda>s. upgrade_eligible s (pe_user e) d)) (\<lambda>eligible.
     if \<not> eligible then ret (e, False)
     else (let e' = e\<lparr>pe_enrollment_mode := verified_mode\<rparr>
           in thenP (modify (\<lambda>s. s\<lparr>program_enrollments :=
                       update_rows (\<lambda>x. pe_id x = pe_id e) (\<lambda>_. e') (program_enrollments s)\<rparr>))
                (ret (e', True))))))"

end
