(* ===== verification/LearnerRecords.thy ===== *)
theory LearnerRecords
  imports Certificates
begin

text \<open>
  Sharing a learner's program record (\<open>src/courses/views/v1/__init__.py\<close>, \<open>src/courses/models.py\<close>,
  \<open>src/courses/serializers/v1/programs.py\<close>, \<open>src/courses/mail_api.py\<close>): the public link and its
  revocation, the shares with partner schools and who is mailed, what the record shows; and the
  ordered collections of programs.

  These tables are the state \<open>sharing\<close>; the enrollments, grades and certificates are read from the
  database that it contains.
\<close>

section \<open>Tables\<close>

record PartnerSchool =
  ps_id :: nat
  ps_name :: string
  ps_email :: string
  ps_is_active :: bool

record PartnerSchoolProgram =
  psp_id :: nat
  psp_school :: nat
  psp_program :: nat
  psp_email :: string

record LearnerProgramRecordShare =
  lps_uuid :: nat
  lps_user :: nat
  lps_program :: nat
  lps_school :: "nat option"
  lps_is_active :: bool

record ProgramCollectionItem =
  pci_collection :: nat
  pci_program :: nat
  pci_sort_order :: int

text \<open>\<open>sh_school_flag\<close> is the feature flag of program-specific schools; \<open>sh_mailed\<close> the messages that were
  handed over: the share and the recipient; \<open>sh_mail_tasks\<close> the queued tasks.\<close>

record sharing =
  sh_db :: db
  sh_school_flag :: bool
  sh_next_uuid :: nat
  partner_schools :: "PartnerSchool list"
  school_programs :: "PartnerSchoolProgram list"
  record_shares :: "LearnerProgramRecordShare list"
  collection_items :: "ProgramCollectionItem list"
  sh_mail_tasks :: "nat list"
  sh_mailed :: "(nat \<times> string) list"

type_synonym 'a sop = "(sharing, 'a) py"

section \<open>Partner schools\<close>

text \<open>The default manager hides the schools that were deleted.\<close>

definition active_schools :: "sharing \<Rightarrow> PartnerSchool list" where
  "active_schools s = filter ps_is_active (partner_schools s)"

definition delete_partner_school :: "nat \<Rightarrow> unit sop" where
  "delete_partner_school i = modify (\<lambda>s. s\<lparr>partner_schools :=
     update_rows (\<lambda>p. ps_id p = i) (\<lambda>p. p\<lparr>ps_is_active := False\<rparr>) (partner_schools s)\<rparr>)"

definition emails_for_program :: "sharing \<Rightarrow> PartnerSchool \<Rightarrow> nat \<Rightarrow> string list" where
  "emails_for_program s p program =
     (let es = filter (\<lambda>e. e \<noteq> []) (map psp_email
                 (filter (\<lambda>l. psp_school l = ps_id p \<and> psp_program l = program) (school_programs s)))
      in if es = [] then [ps_email p] else es)"

definition partner_schools_for_program :: "sharing \<Rightarrow> nat \<Rightarrow> PartnerSchool list" where
  "partner_schools_for_program s program =
     (if sh_school_flag s
      then filter (\<lambda>p. exists_row (\<lambda>l. psp_school l = ps_id p \<and> psp_program l = program) (school_programs s))
             (active_schools s)
      else active_schools s)"

text \<open>The list of schools of the API, whose program filter has to be a number.\<close>

definition list_partner_schools :: "sharing \<Rightarrow> string option \<Rightarrow> exn + PartnerSchool list" where
  "list_partner_schools s program =
     (if \<not> has_text program then Inr (active_schools s)
      else (case parse_int (the program) of
          None \<Rightarrow> Inl ValidationError
        | Some i \<Rightarrow> Inr (filter (\<lambda>p. exists_row (\<lambda>l. psp_school l = ps_id p \<and> int (psp_program l) = i)
                      (school_programs s)) (active_schools s))))"

section \<open>Shares\<close>

definition enrolled_program :: "sharing \<Rightarrow> nat \<Rightarrow> nat \<Rightarrow> exn + Program" where
  "enrolled_program s user program =
     (case get_one (filter (\<lambda>e. pe_user e = user \<and> prg_id (pe_program e) = program \<and> pe_active e)
                           (program_enrollments (sh_db s))) of
        Inl e \<Rightarrow> Inl e | Inr e \<Rightarrow> Inr (pe_program e))"

definition new_share :: "nat \<Rightarrow> nat \<Rightarrow> nat option \<Rightarrow> LearnerProgramRecordShare sop" where
  "new_share user program school = (\<lambda>s.
     let r = \<lparr>lps_uuid = sh_next_uuid s, lps_user = user, lps_program = program, lps_school = school, lps_is_active = True\<rparr>
     in (Inr r, s\<lparr>record_shares := record_shares s @ [r], sh_next_uuid := Suc (sh_next_uuid s)\<rparr>))"

definition get_or_create_share ::
    "(LearnerProgramRecordShare \<Rightarrow> bool) \<Rightarrow> nat \<Rightarrow> nat \<Rightarrow> nat option \<Rightarrow> LearnerProgramRecordShare sop" where
  "get_or_create_share p user program school =
     bindP (gets (\<lambda>s. get_one (filter p (record_shares s)))) (\<lambda>r. case r of
         Inr x \<Rightarrow> ret x
       | Inl e \<Rightarrow> if e = ObjectDoesNotExist then new_share user program school else raise e)"

definition is_share :: "nat \<Rightarrow> nat \<Rightarrow> nat option \<Rightarrow> LearnerProgramRecordShare \<Rightarrow> bool" where
  "is_share user program school r \<longleftrightarrow> lps_user r = user \<and> lps_program r = program \<and> lps_school r = school"

definition activate_share :: "LearnerProgramRecordShare \<Rightarrow> unit sop" where
  "activate_share r = modify (\<lambda>s. s\<lparr>record_shares :=
     update_rows (\<lambda>x. lps_uuid x = lps_uuid r) (\<lambda>x. x\<lparr>lps_is_active := True\<rparr>) (record_shares s)\<rparr>)"

text \<open>The answer is whether the school was found; the record itself is read afterwards.\<close>

definition share_record :: "nat \<Rightarrow> nat \<Rightarrow> nat option \<Rightarrow> bool sop" where
  "share_record user pk school =
     bindP (liftE (\<lambda>s. enrolled_program s user pk)) (\<lambda>p.
     case school of
       Some i \<Rightarrow>
         bindP (gets (\<lambda>s. get_one (filter (\<lambda>x. ps_id x = i) (partner_schools_for_program s (prg_id p))))) (\<lambda>found.
         case found of
           Inl e \<Rightarrow> if e = ObjectDoesNotExist then ret False else raise e
         | Inr ps \<Rightarrow>
             bindP (get_or_create_share (is_share user (prg_id p) (Some (ps_id ps))) user (prg_id p) (Some (ps_id ps))) (\<lambda>r.
             thenP (activate_share r)
             (thenP (modify (\<lambda>s. s\<lparr>sh_mail_tasks := sh_mail_tasks s @ [lps_uuid r]\<rparr>)) (ret True))))
     | None \<Rightarrow>
         bindP (get_or_create_share (\<lambda>r. is_share user (prg_id p) None r \<and> lps_is_active r) user (prg_id p) None) (\<lambda>_.
         ret True))"

definition revoke_share :: "nat \<Rightarrow> nat \<Rightarrow> unit sop" where
  "revoke_share user pk =
     bindP (liftE (\<lambda>s. enrolled_program s user pk)) (\<lambda>p.
     modify (\<lambda>s. s\<lparr>record_shares :=
       update_rows (is_share user (prg_id p) None) (\<lambda>r. r\<lparr>lps_is_active := False\<rparr>) (record_shares s)\<rparr>))"

definition shared_record :: "sharing \<Rightarrow> nat \<Rightarrow> LearnerProgramRecordShare option" where
  "shared_record s uuid = first (filter (\<lambda>r. lps_is_active r \<and> lps_uuid r = uuid) (record_shares s))"

text \<open>\<open>delivers\<close>: the mail service accepts the message.  A failure for one recipient does not keep the others
  from theirs; a share without a school, or whose school is gone, mails no one.\<close>

definition send_partner_school_sharing_message :: "(string \<Rightarrow> bool) \<Rightarrow> LearnerProgramRecordShare \<Rightarrow> unit sop" where
  "send_partner_school_sharing_message delivers r = modify (\<lambda>s.
     case (case lps_school r of None \<Rightarrow> None | Some i \<Rightarrow> first (filter (\<lambda>p. ps_id p = i) (partner_schools s))) of
       None \<Rightarrow> s
     | Some p \<Rightarrow>
         let recipients = (if sh_school_flag s then emails_for_program s p (lps_program r) else [ps_email p])
         in s\<lparr>sh_mailed := sh_mailed s @ map (\<lambda>e. (lps_uuid r, e)) (filter delivers recipients)\<rparr>)"

definition send_partner_school_email :: "(string \<Rightarrow> bool) \<Rightarrow> nat \<Rightarrow> unit sop" where
  "send_partner_school_email delivers uuid =
     bindP (liftE (\<lambda>s. get_one (filter (\<lambda>r. lps_uuid r = uuid) (record_shares s))))
       (send_partner_school_sharing_message delivers)"

section \<open>What a record shows\<close>

record course_record =
  cr_course :: Course
  cr_reqtype :: string
  cr_grade :: "CourseRunGrade option"
  cr_certificate :: "CourseRunCertificate option"

text \<open>The certificates with the newest first; of several grades the best.\<close>

definition course_certificates :: "db \<Rightarrow> nat \<Rightarrow> Course \<Rightarrow> CourseRunCertificate list" where
  "course_certificates d u c = rev (filter (\<lambda>x. crc_user x = u \<and> crs_id (run_course (crc_run x)) = crs_id c
     \<and> active_certificate d x) (run_certificates d))"

definition graded_enrollment :: "db \<Rightarrow> nat \<Rightarrow> Course \<Rightarrow> CourseRunEnrollment \<Rightarrow> bool" where
  "graded_enrollment d u c e \<longleftrightarrow> cre_user e = u \<and> crs_id (run_course (cre_run e)) = crs_id c \<and> cre_active e
     \<and> cre_enrollment_mode e = verified_mode \<and> cre_change_status e = None
     \<and> (q_lt (run_certificate_available_date (cre_run e)) (now d)
        \<or> (run_certificate_available_date (cre_run e) = None \<and> q_lt (run_end_date (cre_run e)) (now d)))"

definition best_grade :: "CourseRunGrade list \<Rightarrow> CourseRunGrade option" where
  "best_grade gs = first (sort_key (\<lambda>g. - crg_grade g) gs)"

definition course_record_of :: "db \<Rightarrow> nat \<Rightarrow> Course \<times> string \<Rightarrow> course_record" where
  "course_record_of d u = (\<lambda>(c, reqtype).
     let certs = course_certificates d u c;
          run_ids = (if certs \<noteq> [] then map (\<lambda>x. run_id (crc_run x)) certs
                     else map (\<lambda>e. run_id (cre_run e)) (filter (graded_enrollment d u c) (run_enrollments d)))
      in \<lparr>cr_course = c, cr_reqtype = reqtype,
          cr_grade = best_grade (filter (\<lambda>g. crg_user g = u \<and> run_id (crg_run g) \<in> set run_ids) (run_grades d)),
          cr_certificate = first certs\<rparr>)"

text \<open>The record of a program; an anonymous reader sees neither the shares nor the schools.\<close>

record learner_record =
  lr_user :: nat
  lr_courses :: "course_record list"
  lr_sharing :: "LearnerProgramRecordShare list"
  lr_partner_schools :: "PartnerSchool list"

definition learner_record_of :: "sharing \<Rightarrow> nat \<Rightarrow> Program \<Rightarrow> bool \<Rightarrow> exn + learner_record" where
  "learner_record_of s u p anonymous =
     bindE (courses_with_requirements_data (sh_db s) p) (\<lambda>d.
     Inr \<lparr>lr_user = u, lr_courses = map (course_record_of (sh_db s) u) (cr_courses d),
          lr_sharing = (if anonymous then []
             else filter (\<lambda>r. lps_user r = u \<and> lps_program r = prg_id p \<and> lps_is_active r) (record_shares s)),
          lr_partner_schools = (if anonymous then [] else partner_schools_for_program s (prg_id p))\<rparr>)"

definition record_from_uuid :: "sharing \<Rightarrow> nat \<Rightarrow> exn + learner_record option" where
  "record_from_uuid s uuid = (case shared_record s uuid of
      None \<Rightarrow> Inr None
    | Some r \<Rightarrow> (case first (filter (\<lambda>p. prg_id p = lps_program r) (programs (sh_db s))) of
          None \<Rightarrow> Inl ObjectDoesNotExist
        | Some p \<Rightarrow> bindE (learner_record_of s (lps_user r) p True) (\<lambda>x. Inr (Some x))))"

section \<open>Collections of programs\<close>

definition items_of_collection :: "sharing \<Rightarrow> nat \<Rightarrow> ProgramCollectionItem list" where
  "items_of_collection s c = sort_key pci_sort_order (filter (\<lambda>i. pci_collection i = c) (collection_items s))"

definition collection_programs :: "sharing \<Rightarrow> nat \<Rightarrow> nat list" where
  "collection_programs s c = map pci_program (items_of_collection s c)"

definition next_order :: "sharing \<Rightarrow> nat \<Rightarrow> int" where
  "next_order s c = (case last_opt (items_of_collection s c) of None \<Rightarrow> 0 | Some i \<Rightarrow> pci_sort_order i + 1)"

definition add_program_to_collection :: "nat \<Rightarrow> nat \<Rightarrow> int option \<Rightarrow> unit sop" where
  "add_program_to_collection c program order = modify (\<lambda>s.
     let k = (case order of None \<Rightarrow> next_order s c | Some k \<Rightarrow> k);
         mine = (\<lambda>i. pci_collection i = c \<and> pci_program i = program)
     in s\<lparr>collection_items := (if exists_row mine (collection_items s)
          then update_rows mine (\<lambda>i. i\<lparr>pci_sort_order := k\<rparr>) (collection_items s)
          else collection_items s @ [\<lparr>pci_collection = c, pci_program = program, pci_sort_order = k\<rparr>])\<rparr>)"

definition remove_program_from_collection :: "nat \<Rightarrow> nat \<Rightarrow> unit sop" where
  "remove_program_from_collection c program = modify (\<lambda>s. s\<lparr>collection_items :=
     filter (\<lambda>i. \<not> (pci_collection i = c \<and> pci_program i = program)) (collection_items s)\<rparr>)"

definition reorder_programs :: "nat \<Rightarrow> (nat \<times> int) list \<Rightarrow> unit sop" where
  "reorder_programs c ps = forP (\<lambda>(program, k). modify (\<lambda>s. s\<lparr>collection_items :=
     update_rows (\<lambda>i. pci_collection i = c \<and> pci_program i = program) (\<lambda>i. i\<lparr>pci_sort_order := k\<rparr>)
       (collection_items s)\<rparr>)) ps"

section \<open>Who can read a record\<close>

text \<open>Uuids are used once, and a learner has at most one public link of a program that works.\<close>

definition shares_ok :: "sharing \<Rightarrow> bool" where
  "shares_ok s \<longleftrightarrow> distinct (map lps_uuid (record_shares s)) \<and> list_all (\<lambda>r. lps_uuid r < sh_next_uuid s) (record_shares s)
     \<and> list_all (\<lambda>r. list_all (\<lambda>x. lps_school r = None \<longrightarrow> is_share (lps_user r) (lps_program r) None x \<longrightarrow>
          lps_is_active r \<longrightarrow> lps_is_active x \<longrightarrow> x = r) (record_shares s)) (record_shares s)"

lemma enrolled_program_id: "enrolled_program s user pk = Inr p \<Longrightarrow> prg_id p = pk"
proof -
  assume p: "enrolled_program s user pk = Inr p"
  then obtain e where e: "filter (\<lambda>e. pe_user e = user \<and> prg_id (pe_program e) = pk \<and> pe_active e)
      (program_enrollments (sh_db s)) = [e]" "p = pe_program e"
    by (auto simp: enrolled_program_def split: sum.splits)
  have "e \<in> set (filter (\<lambda>e. pe_user e = user \<and> prg_id (pe_program e) = pk \<and> pe_active e)
      (program_enrollments (sh_db s)))" using e(1) by simp
  then show "prg_id p = pk" using e(2) by simp
qed

lemma shared_record_iff:
  assumes "distinct (map lps_uuid (record_shares s))"
  shows "shared_record s uuid = Some r \<longleftrightarrow> r \<in> set (record_shares s) \<and> lps_is_active r \<and> lps_uuid r = uuid"
proof -
  have "first (filter (\<lambda>r. lps_is_active r \<and> lps_uuid r = uuid) xs) = Some r \<longleftrightarrow>
      r \<in> set xs \<and> lps_is_active r \<and> lps_uuid r = uuid" if "distinct (map lps_uuid xs)" for xs
    using that by (induction xs) (auto simp: image_iff)
  then show ?thesis using assms unfolding shared_record_def .
qed

lemma shares_okD:
  assumes "shares_ok s"
  shows "distinct (map lps_uuid (record_shares s))"
    "\<And>r. r \<in> set (record_shares s) \<Longrightarrow> lps_uuid r < sh_next_uuid s"
    "\<And>r x. r \<in> set (record_shares s) \<Longrightarrow> x \<in> set (record_shares s) \<Longrightarrow> lps_school r = None \<Longrightarrow>
       is_share (lps_user r) (lps_program r) None x \<Longrightarrow> lps_is_active r \<Longrightarrow> lps_is_active x \<Longrightarrow> x = r"
  using assms by (auto simp: shares_ok_def list_all_iff)

lemma shares_okI:
  assumes "distinct (map lps_uuid (record_shares s))"
    "\<And>r. r \<in> set (record_shares s) \<Longrightarrow> lps_uuid r < sh_next_uuid s"
    "\<And>r x. r \<in> set (record_shares s) \<Longrightarrow> x \<in> set (record_shares s) \<Longrightarrow> lps_school r = None \<Longrightarrow>
       is_share (lps_user r) (lps_program r) None x \<Longrightarrow> lps_is_active r \<Longrightarrow> lps_is_active x \<Longrightarrow> x = r"
  shows "shares_ok s"
  using assms by (auto simp: shares_ok_def list_all_iff)

text \<open>Rows may be switched off, and those of the schools also on.\<close>

lemma shares_ok_update:
  assumes ok: "shares_ok s" and f: "\<And>r. lps_uuid (f r) = lps_uuid r" "\<And>r. lps_user (f r) = lps_user r"
      "\<And>r. lps_program (f r) = lps_program r" "\<And>r. lps_school (f r) = lps_school r"
    and on: "\<And>r. r \<in> set (record_shares s) \<Longrightarrow> q r \<Longrightarrow> lps_school r = None \<Longrightarrow> \<not> lps_is_active (f r)"
  shows "shares_ok (s\<lparr>record_shares := update_rows q f (record_shares s)\<rparr>)"
proof (rule shares_okI)
  show "distinct (map lps_uuid (record_shares (s\<lparr>record_shares := update_rows q f (record_shares s)\<rparr>)))"
    using shares_okD(1) [OF ok] by (simp add: map_update_rows f)
next
  fix r assume "r \<in> set (record_shares (s\<lparr>record_shares := update_rows q f (record_shares s)\<rparr>))"
  then show "lps_uuid r < sh_next_uuid (s\<lparr>record_shares := update_rows q f (record_shares s)\<rparr>)"
    using shares_okD(2) [OF ok] by (auto simp: f dest!: set_update_rowsD)
next
  fix r x
  assume r: "r \<in> set (record_shares (s\<lparr>record_shares := update_rows q f (record_shares s)\<rparr>))"
    and x: "x \<in> set (record_shares (s\<lparr>record_shares := update_rows q f (record_shares s)\<rparr>))"
    and *: "lps_school r = None" "is_share (lps_user r) (lps_program r) None x" "lps_is_active r" "lps_is_active x"
  have "r \<in> set (record_shares s)" "x \<in> set (record_shares s)"
    using r x * on by (auto simp: is_share_def f update_rows_def split: if_splits)
  then show "x = r" using * shares_okD(3) [OF ok] by blast
qed

lemma revoke_share_Inr:
  assumes "revoke_share user pk s = (Inr (), t)"
  shows "t = s\<lparr>record_shares :=
    update_rows (is_share user pk None) (\<lambda>r. r\<lparr>lps_is_active := False\<rparr>) (record_shares s)\<rparr>"
  using assms unfolding revoke_share_def by (auto simp: run_eqs dest!: enrolled_program_id)

text \<open>What the links show after a revocation: nothing of the revoked kind, the rest unchanged.\<close>

lemma revoked_links:
  assumes ok: "shares_ok s" and run: "revoke_share user pk s = (Inr (), t)"
  shows "shared_record t uuid = (case shared_record s uuid of
      None \<Rightarrow> None | Some r \<Rightarrow> if is_share user pk None r then None else Some r)"
proof -
  have "first (filter (\<lambda>r. lps_is_active r \<and> lps_uuid r = uuid)
        (update_rows (is_share user pk None) (\<lambda>r. r\<lparr>lps_is_active := False\<rparr>) xs)) =
      (case first (filter (\<lambda>r. lps_is_active r \<and> lps_uuid r = uuid) xs) of
        None \<Rightarrow> None | Some r \<Rightarrow> if is_share user pk None r then None else Some r)"
    if "distinct (map lps_uuid xs)" for xs
    using that
  proof (induction xs)
    case (Cons x xs)
    show ?case
    proof (cases "lps_is_active x \<and> lps_uuid x = uuid")
      case True
      then have "first (filter (\<lambda>r. lps_is_active r \<and> lps_uuid r = uuid) xs) = None"
        using Cons.prems by (auto simp: image_iff)
      then show ?thesis using Cons True by auto
    qed (use Cons in auto)
  qed simp
  then show ?thesis using revoke_share_Inr [OF run] shares_okD(1) [OF ok] by (simp add: shared_record_def)
qed

lemma revoke_share_keeps: "keeps shares_ok (revoke_share user pk)"
  unfolding revoke_share_def
  by (intro keeps_intro keeps_modify shares_ok_update) (auto simp: keeps_liftE)

text \<open>A new share has a fresh uuid; where it is a public link, none was active before.\<close>

lemma shares_ok_new:
  assumes ok: "shares_ok s" and none: "school = None \<Longrightarrow>
      filter (\<lambda>r. is_share user program None r \<and> lps_is_active r) (record_shares s) = []"
    and new: "new_share user program school s = (Inr r, t)"
  shows "shares_ok t \<and> r \<in> set (record_shares t) \<and> is_share user program school r \<and> lps_is_active r"
proof -
  have r: "r = \<lparr>lps_uuid = sh_next_uuid s, lps_user = user, lps_program = program, lps_school = school,
      lps_is_active = True\<rparr>" and t: "t = s\<lparr>record_shares := record_shares s @ [r], sh_next_uuid := Suc (sh_next_uuid s)\<rparr>"
    using new by (auto simp: new_share_def Let_def)
  have none': "\<not> (is_share user program None x \<and> lps_is_active x)" if "school = None" "x \<in> set (record_shares s)" for x
    using none that by (auto simp: filter_empty_conv)
  have "shares_ok t"
  proof (rule shares_okI)
    show "distinct (map lps_uuid (record_shares t))"
      using shares_okD(1) [OF ok] by (auto simp: t r dest!: shares_okD(2) [OF ok])
    show "lps_uuid x < sh_next_uuid t" if "x \<in> set (record_shares t)" for x
      using that shares_okD(2) [OF ok] by (auto simp: t r less_Suc_eq)
    show "y = x" if "x \<in> set (record_shares t)" "y \<in> set (record_shares t)" "lps_school x = None"
        "is_share (lps_user x) (lps_program x) None y" "lps_is_active x" "lps_is_active y" for x y
    proof -
      have old: "x \<in> set (record_shares s) \<or> x = r" "y \<in> set (record_shares s) \<or> y = r" using that t by auto
      show ?thesis
      proof (cases "school = None")
        case True
        have new: "is_share user program None z \<and> lps_is_active z" if "z = r" for z
          using that True by (simp add: r is_share_def)
        have both: "is_share user program None x \<longleftrightarrow> is_share user program None y"
          using that(3,4) by (simp add: is_share_def)
        show ?thesis using old both new none' [OF True] that shares_okD(3) [OF ok, of x y] by blast
      next
        case False
        then have "x \<noteq> r" "y \<noteq> r" using that(3,4) by (auto simp: r is_share_def)
        then show ?thesis using old that shares_okD(3) [OF ok, of x y] by blast
      qed
    qed
  qed
  then show ?thesis by (simp add: t r is_share_def)
qed

lemma get_or_create_share_run:
  assumes run: "get_or_create_share p user program school s = (res, t)"
  shows "(\<exists>r. res = Inr r \<and> t = s \<and> filter p (record_shares s) = [r]) \<or>
    (filter p (record_shares s) = [] \<and> new_share user program school s = (res, t)) \<or>
    (res = Inl MultipleObjectsReturned \<and> t = s)"
proof (cases "filter p (record_shares s)")
  case Nil
  then show ?thesis using run by (simp add: get_or_create_share_def)
next
  case (Cons x xs)
  then show ?thesis using run by (cases xs) (auto simp: get_or_create_share_def ret_def raise_def)
qed

lemma public_share_Inr:
  assumes ok: "shares_ok s"
    and run: "get_or_create_share (\<lambda>r. is_share user program None r \<and> lps_is_active r) user program None s = (Inr r, t)"
  shows "shares_ok t \<and> r \<in> set (record_shares t) \<and> is_share user program None r \<and> lps_is_active r"
  using get_or_create_share_run [OF run]
proof (elim disjE exE conjE)
  fix x assume x: "(Inr r :: exn + LearnerProgramRecordShare) = Inr x" and t: "t = s"
    and f: "filter (\<lambda>r. is_share user program None r \<and> lps_is_active r) (record_shares s) = [x]"
  have "x \<in> set (filter (\<lambda>r. is_share user program None r \<and> lps_is_active r) (record_shares s))" using f by simp
  then show ?thesis using x t ok by simp
next
  assume "filter (\<lambda>r. is_share user program None r \<and> lps_is_active r) (record_shares s) = []"
    "new_share user program None s = (Inr r, t)"
  then show ?thesis using shares_ok_new [OF ok] by blast
qed simp

text \<open>A share with a school is found or made, then switched on.\<close>

lemma activated_row: "r \<in> set xs \<Longrightarrow> r\<lparr>lps_is_active := True\<rparr> \<in>
    set (update_rows (\<lambda>x. lps_uuid x = lps_uuid r) (\<lambda>x. x\<lparr>lps_is_active := True\<rparr>) xs)"
  by (force simp: update_rows_def)

lemma school_share_Inr:
  assumes ok: "shares_ok s"
    and run: "get_or_create_share (is_share user program (Some i)) user program (Some i) s = (Inr r, t)"
  shows "shares_ok t \<and> r \<in> set (record_shares t) \<and> is_share user program (Some i) r"
  using get_or_create_share_run [OF run]
proof (elim disjE exE conjE)
  fix x assume x: "(Inr r :: exn + LearnerProgramRecordShare) = Inr x" and t: "t = s"
    and f: "filter (is_share user program (Some i)) (record_shares s) = [x]"
  have "x \<in> set (filter (is_share user program (Some i)) (record_shares s))" using f by simp
  then show ?thesis using x t ok by simp
next
  assume "new_share user program (Some i) s = (Inr r, t)"
  then show ?thesis using shares_ok_new [OF ok] by blast
qed simp

lemma activate_keeps:
  assumes ok: "shares_ok s" and r: "r \<in> set (record_shares s)" "lps_school r = Some i"
  shows "shares_ok (s\<lparr>record_shares :=
    update_rows (\<lambda>x. lps_uuid x = lps_uuid r) (\<lambda>x. x\<lparr>lps_is_active := True\<rparr>) (record_shares s)\<rparr>)"
proof (rule shares_ok_update [OF ok])
  fix x assume "x \<in> set (record_shares s)" "lps_uuid x = lps_uuid r" "lps_school x = None"
  then have "x = r" using r(1) shares_okD(1) [OF ok] by (simp add: distinct_map inj_on_def)
  then show "\<not> lps_is_active (x\<lparr>lps_is_active := True\<rparr>)" using r(2) \<open>lps_school x = None\<close> by simp
qed simp_all

lemma share_public:
  assumes "enrolled_program s user pk = Inr p"
  shows "share_record user pk None s =
    bindP (get_or_create_share (\<lambda>r. is_share user pk None r \<and> lps_is_active r) user pk None) (\<lambda>_. ret True) s"
  using assms enrolled_program_id [OF assms] by (simp add: share_record_def liftE_bind)

lemma share_record_Inr:
  assumes ok: "shares_ok s" and run: "share_record user pk school s = (Inr True, t)"
  shows "shares_ok t \<and> (\<exists>r \<in> set (record_shares t). is_share user pk school r \<and> lps_is_active r)"
proof -
  obtain p where p: "enrolled_program s user pk = Inr p" "prg_id p = pk"
    using run by (auto simp: share_record_def run_eqs dest: enrolled_program_id)
  show ?thesis
  proof (cases school)
    case None
    have "\<exists>r. get_or_create_share (\<lambda>r. is_share user pk None r \<and> lps_is_active r) user pk None s = (Inr r, t)"
      using run None share_public [OF p(1)] by (simp add: run_eqs)
    then show ?thesis using public_share_Inr [OF ok] None by blast
  next
    case (Some i)
    obtain ps where ps: "filter (\<lambda>x. ps_id x = i) (partner_schools_for_program s pk) = [ps]"
      using run p Some by (auto simp: share_record_def run_eqs split: sum.splits if_splits)
    have "ps \<in> set (filter (\<lambda>x. ps_id x = i) (partner_schools_for_program s pk))" using ps by simp
    then have i: "ps_id ps = i" by simp
    have "bindP (get_or_create_share (is_share user pk (Some i)) user pk (Some i)) (\<lambda>r.
        thenP (activate_share r)
        (thenP (modify (\<lambda>s. s\<lparr>sh_mail_tasks := sh_mail_tasks s @ [lps_uuid r]\<rparr>)) (ret True))) s = (Inr True, t)"
      using run p Some ps i by (simp add: share_record_def liftE_bind)
    then obtain r u where u: "get_or_create_share (is_share user pk (Some i)) user pk (Some i) s = (Inr r, u)"
      and act: "thenP (activate_share r)
        (thenP (modify (\<lambda>s. s\<lparr>sh_mail_tasks := sh_mail_tasks s @ [lps_uuid r]\<rparr>)) (ret True)) u = (Inr True, t)"
      unfolding bindP_eq_Inr by blast
    have t: "t = (u\<lparr>record_shares := update_rows (\<lambda>x. lps_uuid x = lps_uuid r) (\<lambda>x. x\<lparr>lps_is_active := True\<rparr>)
          (record_shares u)\<rparr>)\<lparr>sh_mail_tasks := sh_mail_tasks u @ [lps_uuid r]\<rparr>"
      using act by (simp add: activate_share_def thenP_def bindP_def modify_def ret_def)
    note r = school_share_Inr [OF ok u]
    then have "shares_ok (u\<lparr>record_shares := update_rows (\<lambda>x. lps_uuid x = lps_uuid r)
        (\<lambda>x. x\<lparr>lps_is_active := True\<rparr>) (record_shares u)\<rparr>)"
      using activate_keeps [where i = i] by (simp add: is_share_def)
    then have "shares_ok t" by (simp add: t shares_ok_def)
    moreover have "r\<lparr>lps_is_active := True\<rparr> \<in> set (record_shares t)"
      using r activated_row [of r "record_shares u"] by (simp add: t)
    ultimately show ?thesis using r Some
      by (intro conjI bexI [where x = "r\<lparr>lps_is_active := True\<rparr>"]) (simp_all add: is_share_def)
  qed
qed

text \<open>Sharing with the public again makes no second link.\<close>

lemma share_again:
  assumes ok: "shares_ok s" and run: "share_record user pk None s = (Inr True, t)"
  shows "share_record user pk None t = (Inr True, t)"
proof -
  obtain p r where p: "enrolled_program s user pk = Inr p" "prg_id p = pk"
    and r: "get_or_create_share (\<lambda>r. is_share user pk None r \<and> lps_is_active r) user pk None s = (Inr r, t)"
  proof -
    obtain p where "enrolled_program s user pk = Inr p" using run by (auto simp: share_record_def run_eqs)
    moreover from this have "prg_id p = pk" by (rule enrolled_program_id)
    ultimately show thesis using that run by (auto simp: share_record_def run_eqs)
  qed
  note t = public_share_Inr [OF ok r]
  have "enrolled_program t user pk = Inr p"
    using p(1) get_or_create_share_run [OF r] by (auto simp: new_share_def Let_def enrolled_program_def)
  moreover have "filter (\<lambda>r. is_share user pk None r \<and> lps_is_active r) (record_shares t) = [r]"
  proof -
    have ok': "shares_ok t" and mem: "r \<in> set (record_shares t)" and is': "is_share user pk None r" "lps_is_active r"
      using t by auto
    have uniq: "is_share user pk None x \<and> lps_is_active x \<longleftrightarrow> lps_uuid x = lps_uuid r" if "x \<in> set (record_shares t)" for x
    proof
      assume "is_share user pk None x \<and> lps_is_active x"
      then show "lps_uuid x = lps_uuid r"
        using shares_okD(3) [OF ok' mem that] is' by (auto simp: is_share_def)
    next
      assume "lps_uuid x = lps_uuid r"
      then have "x = r" using shares_okD(1) [OF ok'] mem that by (simp add: distinct_map inj_on_def)
      then show "is_share user pk None x \<and> lps_is_active x" using is' by simp
    qed
    have "filter (\<lambda>r. is_share user pk None r \<and> lps_is_active r) (record_shares t)
        = filter (\<lambda>x. lps_uuid x = lps_uuid r) (record_shares t)"
      by (rule filter_cong) (use uniq in auto)
    also have "\<dots> = [r]" by (rule filter_key_unique [OF shares_okD(1) [OF ok'] mem])
    finally show ?thesis .
  qed
  ultimately show ?thesis using p(2)
    by (simp add: share_public get_or_create_share_def bindP_def gets_def ret_def)
qed

section \<open>The order of a collection\<close>

text \<open>A program that is added without a place comes last, and programs are listed once.\<close>

definition collections_ok :: "sharing \<Rightarrow> bool" where
  "collections_ok s \<longleftrightarrow> distinct (map (\<lambda>i. (pci_collection i, pci_program i)) (collection_items s))"

lemma update_sort_keys: "map (\<lambda>i. (pci_collection i, pci_program i))
    (update_rows q (\<lambda>i. i\<lparr>pci_sort_order := k\<rparr>) xs) = map (\<lambda>i. (pci_collection i, pci_program i)) xs"
  by (simp add: map_update_rows)

lemma collections_ok_add: "keeps collections_ok (add_program_to_collection c program k)"
  unfolding add_program_to_collection_def Let_def
  by (rule keeps_modify) (auto simp: collections_ok_def update_sort_keys exists_row_iff)

lemma collections_ok_remove: "keeps collections_ok (remove_program_from_collection c program)"
  unfolding remove_program_from_collection_def
  by (rule keeps_modify) (simp add: collections_ok_def distinct_map_filter)

lemma collections_ok_reorder: "keeps collections_ok (reorder_programs c ps)"
  unfolding reorder_programs_def
  by (intro keeps_intro keeps_modify) (simp add: collections_ok_def update_sort_keys)

text \<open>The last place is behind every other.\<close>

lemma sort_key_last: "x \<in> set xs \<Longrightarrow> f x \<le> (f (last (sort_key f xs)) :: int)"
proof -
  assume x: "x \<in> set xs"
  let ?ys = "sort_key f xs"
  have x': "x \<in> set ?ys" using x by simp
  have "f y \<le> f (last ys)" if "sorted (map f ys)" "y \<in> set ys" for y ys
    using that by (induction ys) auto
  then show ?thesis using x' by simp
qed

lemma next_order_last:
  assumes "i \<in> set (collection_items s)" "pci_collection i = c"
  shows "pci_sort_order i < next_order s c"
proof -
  have i: "i \<in> set (filter (\<lambda>i. pci_collection i = c) (collection_items s))" using assms by simp
  then have "items_of_collection s c \<noteq> []"
    unfolding items_of_collection_def by (metis empty_iff list.set(1) set_sort)
  then show ?thesis using sort_key_last [OF i, of pci_sort_order]
    by (simp add: next_order_def last_opt_def items_of_collection_def)
qed

end
