(* ===== verification/Accounts.thy ===== *)
theory Accounts
  imports Decimals
begin

text \<open>
  The accounts of the learners (\<open>src/users/models.py\<close>, \<open>src/users/serializers.py\<close>,
  \<open>src/users/views.py\<close>, \<open>src/users/adapters.py\<close>, \<open>src/authentication/api_gateway\<close>): the tables
  that belong to a user, their unique constraints, the creation of users, the requests to change
  an email address, the provisioning of users by SCIM, and which users have to be repaired.

  These tables are the state \<open>accounts\<close>; the rest of the development sees of them only the
  columns of \<open>User\<close> in \<open>Schema\<close>.
\<close>

section \<open>Tables\<close>

record LegalAddress =
  la_first_name :: string
  la_last_name :: string
  la_country :: string
  la_state :: "string option"
  la_postal_code :: string
  la_street_address_1 :: string
  la_street_address_2 :: string
  la_city :: string

record UserProfile =
  up_completed_onboarding :: bool
  up_gender :: "string option"
  up_year_of_birth :: "int option"
  up_addl_field_flag :: bool
  up_highest_education :: "string option"

text \<open>\<open>au_in_contract\<close>: the user has contracts (\<open>user.b2b_contracts.exists()\<close>); \<open>au_has_enrollment\<close>: they
  have an enrollment, active or not.\<close>

record AppUser =
  au_id :: nat
  au_username :: string
  au_email :: string
  au_name :: string
  au_global_id :: "string option"
  au_scim_username :: "string option"
  au_scim_external_id :: "string option"
  au_is_active :: bool
  au_is_staff :: bool
  au_is_superuser :: bool
  au_last_login :: "int option"
  au_created_on :: int
  au_legal_address :: "LegalAddress option"
  au_user_profile :: "UserProfile option"
  au_in_contract :: bool
  au_has_enrollment :: bool

record OpenEdxUser =
  oeu_id :: nat
  oeu_user :: nat
  oeu_platform :: string
  oeu_edx_username :: "string option"
  oeu_desired_edx_username :: "string option"
  oeu_has_been_synced :: bool
  oeu_has_sync_error :: bool
  oeu_sync_error_data :: "json option"

record OpenEdxApiAuth =
  oaa_user :: nat
  oaa_refresh_token :: string
  oaa_access_token :: "string option"
  oaa_access_token_expires_on :: "int option"

record AccessToken =
  act_user :: nat
  act_token :: string
  act_expires :: int

record ChangeEmailRequest =
  cem_id :: nat
  cem_user :: nat
  cem_new_email :: string
  cem_code :: string
  cem_confirmed :: bool
  cem_expires_on :: int

text \<open>What Open edX is told of a user; the requests that it is sent; the tasks that are queued.\<close>

record EdxProfile =
  ep_name :: string
  ep_country :: string
  ep_state :: "string option"
  ep_gender :: "string option"
  ep_year_of_birth :: "int option"
  ep_level_of_education :: string

datatype edx_call =
    RegisterUser string string EdxProfile string
  | FixLtiUser string
  | GetUserInfo "string option"
  | SocialLogin nat
  | Authorize
  | RedeemCode "string list"
  | RefreshToken string
  | PatchProfile string EdxProfile "string option"
  | ValidateRegistration string string
  | UpdateUserName "string option" string "string option"

datatype account_task =
    SyncContact nat
  | ChangeEdxUserEmail nat
  | ChangeEdxUserName nat
  | UpdateEdxUserProfile nat
  | SendVerifyEmail nat
  | RepairUsers "nat list"

record account_settings =
  as_ignore_edx_failures :: bool
  as_hubspot_token :: bool
  as_oauth_app_name :: string
  as_token_expires_hours :: int
  as_change_email_ttl :: int
  as_disable_repair :: bool
  as_redirect_uri :: string
  as_service_token :: bool

text \<open>
  \<open>acs_random\<close> are the values that the random generator draws, \<open>acs_drawn\<close> how many were drawn;
  \<open>acs_locks\<close> the locks that are held in Redis, \<open>acs_sent\<close> the requests that were sent.
\<close>

record accounts =
  acs_conf :: account_settings
  acs_now :: int
  acs_next_id :: nat
  acs_random :: "nat \<Rightarrow> nat"
  acs_drawn :: nat
  app_users :: "AppUser list"
  openedx_users :: "OpenEdxUser list"
  api_auths :: "OpenEdxApiAuth list"
  access_tokens :: "AccessToken list"
  oauth_applications :: "string list"
  change_requests :: "ChangeEmailRequest list"
  acs_locks :: "string list"
  acs_sent :: "edx_call list"
  acs_queued :: "account_task list"
  acs_in_atomic :: bool
  acs_on_commit :: "nat list"

type_synonym 'a aop = "(accounts, 'a) py"

definition fresh_account_id :: "nat aop" where
  "fresh_account_id = (\<lambda>s. (Inr (acs_next_id s), s\<lparr>acs_next_id := Suc (acs_next_id s)\<rparr>))"

definition queue_task :: "account_task \<Rightarrow> unit aop" where
  "queue_task t = modify (\<lambda>s. s\<lparr>acs_queued := acs_queued s @ [t]\<rparr>)"

definition find_app_user :: "accounts \<Rightarrow> nat \<Rightarrow> AppUser option" where
  "find_app_user s u = first (filter (\<lambda>r. au_id r = u) (app_users s))"

text \<open>A contact is synchronised with HubSpot unless the user is in a contract.\<close>

definition contact_task :: "accounts \<Rightarrow> nat \<Rightarrow> account_task list" where
  "contact_task s u =
     (case find_app_user s u of
        None \<Rightarrow> []
      | Some r \<Rightarrow> if \<not> au_in_contract r \<and> as_hubspot_token (acs_conf s) then [SyncContact u] else [])"

definition sync_account_with_hubspot :: "nat \<Rightarrow> unit aop" where
  "sync_account_with_hubspot u = modify (\<lambda>s. s\<lparr>acs_queued := acs_queued s @ contact_task s u\<rparr>)"

text \<open>
  \<open>transaction.atomic\<close> over these tables: what was sent, queued, locked or drawn stays when the
  block raises; the callbacks run at the end of the outermost block.
\<close>

definition leave_account_atomic :: "accounts \<Rightarrow> accounts \<Rightarrow> accounts" where
  "leave_account_atomic s t = (if acs_in_atomic s then t\<lparr>acs_in_atomic := True\<rparr>
     else t\<lparr>acs_in_atomic := False, acs_on_commit := [],
            acs_queued := acs_queued t @ concat (map (contact_task t) (acs_on_commit t))\<rparr>)"

definition undo_tables :: "accounts \<Rightarrow> accounts \<Rightarrow> accounts" where
  "undo_tables s t = s\<lparr>acs_next_id := acs_next_id t, acs_drawn := acs_drawn t, acs_locks := acs_locks t,
     acs_sent := acs_sent t, acs_queued := acs_queued t\<rparr>"

definition atomicA :: "'a aop \<Rightarrow> 'a aop" where
  "atomicA m = (\<lambda>s. case m (s\<lparr>acs_in_atomic := True\<rparr>) of
      (Inl e, t) \<Rightarrow> (Inl e, undo_tables s t)
    | (Inr x, t) \<Rightarrow> (Inr x, leave_account_atomic s t))"

lemma atomicA_Inl: "m (s\<lparr>acs_in_atomic := True\<rparr>) = (Inl e, t) \<Longrightarrow> atomicA m s = (Inl e, undo_tables s t)"
  by (simp add: atomicA_def)

lemma atomicA_Inr: "m (s\<lparr>acs_in_atomic := True\<rparr>) = (Inr x, t) \<Longrightarrow> atomicA m s = (Inr x, leave_account_atomic s t)"
  by (simp add: atomicA_def)

lemma leave_account_atomic_simps [simp]:
  "app_users (leave_account_atomic s t) = app_users t" "openedx_users (leave_account_atomic s t) = openedx_users t"
  "api_auths (leave_account_atomic s t) = api_auths t" "acs_locks (leave_account_atomic s t) = acs_locks t"
  "acs_sent (leave_account_atomic s t) = acs_sent t" "change_requests (leave_account_atomic s t) = change_requests t"
  "acs_conf (leave_account_atomic s t) = acs_conf t" "acs_now (leave_account_atomic s t) = acs_now t"
  "acs_in_atomic (leave_account_atomic s t) = acs_in_atomic s"
  by (simp_all add: leave_account_atomic_def)

lemma undo_tables_simps [simp]:
  "app_users (undo_tables s t) = app_users s" "openedx_users (undo_tables s t) = openedx_users s"
  "api_auths (undo_tables s t) = api_auths s" "change_requests (undo_tables s t) = change_requests s"
  "acs_locks (undo_tables s t) = acs_locks t" "acs_sent (undo_tables s t) = acs_sent t"
  "acs_conf (undo_tables s t) = acs_conf s" "acs_now (undo_tables s t) = acs_now s"
  by (simp_all add: undo_tables_def)

lemma keeps_atomicA [keeps_intro]:
  assumes m: "keeps P m"
    and enter: "\<And>s. P s \<Longrightarrow> P (s\<lparr>acs_in_atomic := True\<rparr>)"
    and leave: "\<And>s t. P t \<Longrightarrow> P (leave_account_atomic s t)"
    and undo: "\<And>s t. P s \<Longrightarrow> P t \<Longrightarrow> P (undo_tables s t)"
  shows "keeps P (atomicA m)"
proof (rule keepsI)
  fix s assume s: "P s"
  have t: "P (snd (m (s\<lparr>acs_in_atomic := True\<rparr>)))" by (rule keepsD [OF m enter [OF s]])
  show "P (snd (atomicA m s))"
    using t leave undo [OF s] by (auto simp: atomicA_def split: prod.splits sum.splits)
qed

section \<open>Text\<close>

text \<open>Lower case and case-insensitive comparison of ASCII text.\<close>

definition lower_char :: "char \<Rightarrow> char" where
  "lower_char c = (let n = (of_char c :: nat) in if 65 \<le> n \<and> n \<le> 90 then char_of (n + 32) else c)"

definition lower :: "string \<Rightarrow> string" where
  "lower t = map lower_char t"

definition iexact :: "string \<Rightarrow> string \<Rightarrow> bool" where
  "iexact a b \<longleftrightarrow> lower a = lower b"


text \<open>\<open>normalize_email\<close> of Django: the domain, after the last at sign, in lower case.\<close>

definition normalize_email :: "string \<Rightarrow> string" where
  "normalize_email e = (let t = strip e; d = takeWhile (\<lambda>c. c \<noteq> CHR ''@'') (rev t) in
     if CHR ''@'' \<in> set t then take (length t - length d) t @ lower (rev d) else e)"

section \<open>Saving rows\<close>

text \<open>
  A table with unique constraints: no two rows have the same key, and rows that conflict are the
  same row.  Saving a row updates the one with its key or appends it.
\<close>

definition unique_rows_ok :: "('a \<Rightarrow> nat) \<Rightarrow> ('a \<Rightarrow> 'a \<Rightarrow> bool) \<Rightarrow> 'a list \<Rightarrow> bool" where
  "unique_rows_ok key conflict xs \<longleftrightarrow> distinct (map key xs)
     \<and> list_all (\<lambda>x. list_all (\<lambda>y. conflict x y \<longrightarrow> key x = key y) xs) xs"

definition clashes :: "('a \<Rightarrow> nat) \<Rightarrow> ('a \<Rightarrow> 'a \<Rightarrow> bool) \<Rightarrow> 'a \<Rightarrow> 'a list \<Rightarrow> bool" where
  "clashes key conflict r xs = exists_row (\<lambda>x. key x \<noteq> key r \<and> conflict x r) xs"

definition put_row :: "('a \<Rightarrow> nat) \<Rightarrow> 'a \<Rightarrow> 'a list \<Rightarrow> 'a list" where
  "put_row key r xs = (if exists_row (\<lambda>x. key x = key r) xs
     then update_rows (\<lambda>x. key x = key r) (\<lambda>_. r) xs else xs @ [r])"

lemma put_row_mem: "r \<in> set (put_row key r xs)"
  by (auto simp: put_row_def exists_row_iff update_rows_def)

lemma put_row_set: "x \<in> set (put_row key r xs) \<Longrightarrow> x = r \<or> (x \<in> set xs \<and> key x \<noteq> key r)"
  by (auto simp: put_row_def exists_row_iff update_rows_def split: if_splits)

lemma put_row_other: "x \<in> set xs \<Longrightarrow> key x \<noteq> key r \<Longrightarrow> x \<in> set (put_row key r xs)"
  by (auto simp: put_row_def update_rows_def)

lemma put_row_keys: "map key (put_row key r xs) =
    (if key r \<in> key ` set xs then map key xs else map key xs @ [key r])"
  unfolding put_row_def exists_row_iff update_rows_def image_iff by (auto simp: eq_commute)

lemma first_update_key: "x \<in> set xs \<Longrightarrow> key x = key r \<Longrightarrow>
    first (filter (\<lambda>x. key x = key r) (update_rows (\<lambda>x. key x = key r) (\<lambda>_. r) xs)) = Some r"
  by (induction xs) auto

lemma first_put_row: "first (filter (\<lambda>x. key x = key r) (put_row key r xs)) = Some r"
proof (cases "\<exists>x \<in> set xs. key x = key r")
  case True
  then obtain x where "x \<in> set xs" "key x = key r" by blast
  then show ?thesis using True by (simp add: put_row_def exists_row_iff first_update_key)
next
  case False
  then have "filter (\<lambda>x. key x = key r) xs = []" by (simp add: filter_empty_conv)
  then show ?thesis using False by (simp add: put_row_def exists_row_iff)
qed

lemma put_row_id:
  assumes "distinct (map key xs)" "r \<in> set xs"
  shows "put_row key r xs = xs"
proof -
  have "(if key x = key r then r else x) = x" if "x \<in> set xs" for x
    using that assms by (auto dest: distinct_map [THEN iffD1, THEN conjunct2, THEN inj_onD])
  then have "update_rows (\<lambda>x. key x = key r) (\<lambda>_. r) xs = xs" by (simp add: update_rows_def map_idI)
  then show ?thesis using assms(2) by (auto simp: put_row_def exists_row_iff)
qed

locale unique_rows =
  fixes key :: "'a \<Rightarrow> nat"
    and conflict :: "'a \<Rightarrow> 'a \<Rightarrow> bool"
  assumes conflict_sym: "conflict x y \<Longrightarrow> conflict y x"
begin

lemma put_ok:
  assumes ok: "unique_rows_ok key conflict xs" and free: "\<not> clashes key conflict r xs"
  shows "unique_rows_ok key conflict (put_row key r xs)"
proof -
  have "distinct (map key (put_row key r xs))"
    using ok by (simp add: put_row_keys unique_rows_ok_def)
  moreover have "key x = key y"
    if "x \<in> set (put_row key r xs)" "y \<in> set (put_row key r xs)" "conflict x y" for x y
  proof -
    have other: "key z = key r" if "z \<in> set xs" "conflict z r" for z
      using free that by (auto simp: clashes_def exists_row_iff)
    from put_row_set [OF that(1)] put_row_set [OF that(2)] show ?thesis
      using ok other [of x] other [of y] that(3) conflict_sym [OF that(3)]
      by (auto simp: unique_rows_ok_def list_all_iff)
  qed
  ultimately show ?thesis by (simp add: unique_rows_ok_def list_all_iff)
qed

lemma update_ok:
  assumes "unique_rows_ok key conflict xs" "\<And>x. key (f x) = key x"
    "\<And>x y. conflict (f x) y = conflict x y"
  shows "unique_rows_ok key conflict (update_rows p f xs)"
proof -
  have "conflict x (f y) = conflict x y" for x y using assms(3) conflict_sym by metis
  then show ?thesis using assms unfolding unique_rows_ok_def list_all_iff
    by (auto simp: map_update_rows dest!: set_update_rowsD)
qed

lemma same_row:
  assumes "unique_rows_ok key conflict xs" "x \<in> set xs" "y \<in> set xs" "conflict x y"
  shows "x = y"
proof -
  have "key x = key y" using assms by (simp add: unique_rows_ok_def list_all_iff)
  then show ?thesis using assms by (auto simp: unique_rows_ok_def distinct_map dest: inj_onD)
qed

end

text \<open>The unique constraints of a user: the username, the email without its case, the global id.\<close>

definition user_conflict :: "AppUser \<Rightarrow> AppUser \<Rightarrow> bool" where
  "user_conflict r u \<longleftrightarrow> au_username r = au_username u \<or> iexact (au_email r) (au_email u)
     \<or> (au_global_id u \<noteq> None \<and> au_global_id r = au_global_id u)"

interpretation user_rows: unique_rows au_id user_conflict
  by unfold_locales (auto simp: user_conflict_def iexact_def)

definition save_app_user :: "AppUser \<Rightarrow> unit aop" where
  "save_app_user u = bindP (gets (\<lambda>s. clashes au_id user_conflict u (app_users s))) (\<lambda>clash.
     if clash then raise IntegrityError
     else modify (\<lambda>s. s\<lparr>app_users := put_row au_id u (app_users s)\<rparr>))"

text \<open>The constraints of \<open>OpenEdxUser\<close>: one row per user and platform, a username is taken once, and
  both usernames have at most 30 characters.\<close>

definition OPENEDX_USERNAME_MAX_LEN :: nat where
  "OPENEDX_USERNAME_MAX_LEN = 30"

definition PLATFORM_EDX :: string where
  "PLATFORM_EDX = ''edx''"

definition too_long :: "string option \<Rightarrow> bool" where
  "too_long t = (case t of None \<Rightarrow> False | Some x \<Rightarrow> OPENEDX_USERNAME_MAX_LEN < length x)"

definition edx_conflict :: "OpenEdxUser \<Rightarrow> OpenEdxUser \<Rightarrow> bool" where
  "edx_conflict x r \<longleftrightarrow> (oeu_user x = oeu_user r \<and> oeu_platform x = oeu_platform r)
     \<or> (oeu_edx_username r \<noteq> None \<and> oeu_edx_username x = oeu_edx_username r)"

interpretation edx_rows: unique_rows oeu_id edx_conflict
  by unfold_locales (auto simp: edx_conflict_def)

definition save_edx_user :: "OpenEdxUser \<Rightarrow> unit aop" where
  "save_edx_user r =
     (if too_long (oeu_edx_username r) \<or> too_long (oeu_desired_edx_username r) then raise DataError
      else bindP (gets (\<lambda>s. clashes oeu_id edx_conflict r (openedx_users s))) (\<lambda>clash.
        if clash then raise IntegrityError
        else modify (\<lambda>s. s\<lparr>openedx_users := put_row oeu_id r (openedx_users s)\<rparr>)))"

text \<open>\<open>user.openedx_users\<close>, \<open>user.edx_username\<close>, \<open>user.openedx_user_exists\<close>.\<close>

definition edx_users_of :: "accounts \<Rightarrow> nat \<Rightarrow> OpenEdxUser list" where
  "edx_users_of s u = filter (\<lambda>r. oeu_user r = u) (openedx_users s)"

definition edx_username :: "accounts \<Rightarrow> nat \<Rightarrow> string option" where
  "edx_username s u = (case first (edx_users_of s u) of None \<Rightarrow> None | Some r \<Rightarrow> oeu_edx_username r)"

definition openedx_user_exists :: "accounts \<Rightarrow> nat \<Rightarrow> bool" where
  "openedx_user_exists s u = (case first (edx_users_of s u) of None \<Rightarrow> False | Some r \<Rightarrow> oeu_has_been_synced r)"

section \<open>Creation of users\<close>

definition blank_address :: LegalAddress where
  "blank_address = \<lparr>la_first_name = [], la_last_name = [], la_country = [], la_state = None, la_postal_code = [],
     la_street_address_1 = [], la_street_address_2 = [], la_city = []\<rparr>"

definition blank_profile :: UserProfile where
  "blank_profile = \<lparr>up_completed_onboarding = False, up_gender = None, up_year_of_birth = None,
     up_addl_field_flag = False, up_highest_education = Some []\<rparr>"

definition new_app_user :: "nat \<Rightarrow> int \<Rightarrow> string \<Rightarrow> string \<Rightarrow> string option \<Rightarrow> bool \<Rightarrow> bool \<Rightarrow> AppUser" where
  "new_app_user i t username email gid staff super =
     \<lparr>au_id = i, au_username = username, au_email = email, au_name = [], au_global_id = gid,
      au_scim_username = None, au_scim_external_id = None, au_is_active = True, au_is_staff = staff,
      au_is_superuser = super, au_last_login = None, au_created_on = t, au_legal_address = None,
      au_user_profile = None, au_in_contract = False, au_has_enrollment = False\<rparr>"

definition new_edx_user :: "nat \<Rightarrow> nat \<Rightarrow> string option \<Rightarrow> OpenEdxUser" where
  "new_edx_user i u name = \<lparr>oeu_id = i, oeu_user = u, oeu_platform = PLATFORM_EDX, oeu_edx_username = name,
     oeu_desired_edx_username = name, oeu_has_been_synced = False, oeu_has_sync_error = False,
     oeu_sync_error_data = None\<rparr>"

definition post_create_user :: "AppUser \<Rightarrow> string option \<Rightarrow> unit aop" where
  "post_create_user u username =
     thenP (modify (\<lambda>s. s\<lparr>app_users := update_rows (\<lambda>r. au_id r = au_id u)
              (\<lambda>r. r\<lparr>au_legal_address := Some blank_address, au_user_profile := Some blank_profile\<rparr>) (app_users s)\<rparr>))
     (case username of
        None \<Rightarrow> raise PyTypeError
      | Some t \<Rightarrow> bindP fresh_account_id (\<lambda>i.
          save_edx_user (new_edx_user i (au_id u) (Some (take OPENEDX_USERNAME_MAX_LEN t)))))"

text \<open>The row is saved and its creation is announced to HubSpot when the transaction commits.\<close>

definition on_user_created :: "nat \<Rightarrow> unit aop" where
  "on_user_created u = modify (\<lambda>s. if acs_in_atomic s then s\<lparr>acs_on_commit := acs_on_commit s @ [u]\<rparr>
      else s\<lparr>acs_queued := acs_queued s @ contact_task s u\<rparr>)"

definition create_user_row ::
    "string option \<Rightarrow> string \<Rightarrow> string option \<Rightarrow> bool \<Rightarrow> bool \<Rightarrow> nat aop" where
  "create_user_row username email gid staff super = atomicA (
     bindP fresh_account_id (\<lambda>i.
     bindP (gets acs_now) (\<lambda>t.
     let u = new_app_user i t (case username of None \<Rightarrow> [] | Some n \<Rightarrow> n) (normalize_email email) gid staff super
     in thenP (save_app_user u) (thenP (on_user_created i) (thenP (post_create_user u username) (ret i))))))"

definition manager_create_user :: "string option \<Rightarrow> string \<Rightarrow> string option \<Rightarrow> nat aop" where
  "manager_create_user username email gid = create_user_row username email gid False False"

definition create_superuser :: "string option \<Rightarrow> string \<Rightarrow> string option \<Rightarrow> bool \<Rightarrow> bool \<Rightarrow> nat aop" where
  "create_superuser username email gid staff super =
     (if \<not> staff \<or> \<not> super then raise PyValueError else create_user_row username email gid staff super)"

section \<open>Which users have to be repaired\<close>

definition is_faulty :: "accounts \<Rightarrow> AppUser \<Rightarrow> bool" where
  "is_faulty s u \<longleftrightarrow> au_is_active u \<and> au_last_login u \<noteq> None
     \<and> (edx_users_of s (au_id u) = [] \<or> \<not> exists_row (\<lambda>a. oaa_user a = au_id u) (api_auths s)
         \<or> list_ex (\<lambda>r. \<not> oeu_has_been_synced r) (edx_users_of s (au_id u)))
     \<and> \<not> list_ex oeu_has_sync_error (edx_users_of s (au_id u))"

definition OPENEDX_REPAIR_GRACE_PERIOD_MINS :: int where
  "OPENEDX_REPAIR_GRACE_PERIOD_MINS = 5"

text \<open>The trailing comma makes the result a tuple whose only element is the list of ids.\<close>

definition user_ids_with_grace_period :: "accounts \<Rightarrow> nat list list" where
  "user_ids_with_grace_period s =
     [map au_id (filter (\<lambda>u. is_faulty s u \<and> au_created_on u < acs_now s - OPENEDX_REPAIR_GRACE_PERIOD_MINS * 60)
        (app_users s))]"

text \<open>\<open>chunks\<close> is a function of \<open>mitol.common\<close>; a list of lists of ids in a query is their union.\<close>

definition faulty_users_iterator :: "(nat \<Rightarrow> nat list list \<Rightarrow> nat list list list) \<Rightarrow> accounts \<Rightarrow> AppUser list" where
  "faulty_users_iterator chunks s = concat (map (\<lambda>ids. filter (\<lambda>u. au_id u \<in> set (concat ids)) (app_users s))
     (chunks 1000 (user_ids_with_grace_period s)))"

definition repair_faulty_openedx_users_parallel :: "(nat \<Rightarrow> nat list list \<Rightarrow> nat list list list) \<Rightarrow> unit aop" where
  "repair_faulty_openedx_users_parallel chunks =
     bindP (gets (\<lambda>s. chunks 1000 (user_ids_with_grace_period s))) (\<lambda>cs.
     forP (\<lambda>c. case c of [] \<Rightarrow> raise PyIndexError | ids # _ \<Rightarrow> queue_task (RepairUsers ids)) cs)"

text \<open>The contract of \<open>chunks\<close>: consecutive pieces of at most the given size.\<close>

definition chunks_contract :: "(nat \<Rightarrow> 'a list \<Rightarrow> 'a list list) \<Rightarrow> bool" where
  "chunks_contract chunks \<longleftrightarrow> (\<forall>n xs. 0 < n \<longrightarrow>
     concat (chunks n xs) = xs \<and> list_all (\<lambda>c. c \<noteq> [] \<and> length c \<le> n) (chunks n xs))"

section \<open>Requests to change an email address\<close>

text \<open>\<open>password_ok\<close>: the password verifies for the user.\<close>

definition create_change_email_request :: "AppUser \<Rightarrow> string \<Rightarrow> bool \<Rightarrow> nat aop" where
  "create_change_email_request user new_email password_ok =
     bindP (gets (\<lambda>s. au_email user = new_email \<or> exists_row (\<lambda>r. au_email r = new_email) (app_users s))) (\<lambda>bad.
     if bad \<or> \<not> password_ok then raise ValidationError
     else bindP fresh_account_id (\<lambda>i.
       thenP (modify (\<lambda>s. s\<lparr>change_requests := change_requests s @
         [\<lparr>cem_id = i, cem_user = au_id user, cem_new_email = new_email, cem_code = ''code-'' @ show_nat i,
           cem_confirmed = False, cem_expires_on = acs_now s + as_change_email_ttl (acs_conf s) * 60\<rparr>]\<rparr>))
       (thenP (queue_task (SendVerifyEmail i)) (ret i))))"

definition pending_change_requests :: "accounts \<Rightarrow> ChangeEmailRequest list" where
  "pending_change_requests s = filter (\<lambda>c. acs_now s < cem_expires_on c \<and> \<not> cem_confirmed c) (change_requests s)"

definition apply_change_request :: "ChangeEmailRequest \<Rightarrow> bool \<Rightarrow> unit aop" where
  "apply_change_request c confirmed = atomicA (
     bindP (gets (\<lambda>s. exists_row (\<lambda>r. iexact (au_email r) (cem_new_email c)) (app_users s))) (\<lambda>taken.
     if taken then raise ValidationError
     else thenP (modify (\<lambda>s. s\<lparr>change_requests :=
                  update_rows (\<lambda>x. cem_id x = cem_id c) (\<lambda>x. x\<lparr>cem_confirmed := confirmed\<rparr>) (change_requests s)\<rparr>))
       (if \<not> confirmed then ret ()
        else bindP (gets (\<lambda>s. find_app_user s (cem_user c))) (\<lambda>u. case u of
            None \<Rightarrow> raise ObjectDoesNotExist
          | Some r \<Rightarrow> thenP (save_app_user (r\<lparr>au_email := cem_new_email c\<rparr>))
                       (queue_task (ChangeEdxUserEmail (au_id r)))))))"

definition update_change_email_request :: "string \<Rightarrow> bool \<Rightarrow> unit aop" where
  "update_change_email_request code confirmed =
     bindP (gets (\<lambda>s. get_one (filter (\<lambda>c. cem_code c = code) (pending_change_requests s)))) (\<lambda>r. case r of
         Inl e \<Rightarrow> raise e
       | Inr c \<Rightarrow> apply_change_request c confirmed)"


section \<open>What Open edX is told about a user\<close>

definition EDX_STATE_CHOICES :: "string list" where
  "EDX_STATE_CHOICES = [''AL'', ''AK'', ''AZ'', ''AR'', ''AA'', ''AE'', ''AP'', ''CA'', ''CO'', ''CT'', ''DE'', ''DC'',
     ''FL'', ''GA'', ''HI'', ''ID'', ''IL'', ''IN'', ''IA'', ''KS'', ''KY'', ''LA'', ''ME'', ''MD'',
     ''MA'', ''MI'', ''MN'', ''MS'', ''MO'', ''MT'', ''NE'', ''NV'', ''NH'', ''NJ'', ''NM'', ''NY'',
     ''NC'', ''ND'', ''OH'', ''OK'', ''OR'', ''PA'', ''RI'', ''SC'', ''SD'', ''TN'', ''TX'', ''UT'',
     ''VT'', ''VA'', ''WA'', ''WV'', ''WI'', ''WY'']"

definition EDX_GENDER_CHOICES :: "string list" where
  "EDX_GENDER_CHOICES = [''m'', ''f'', ''o'']"

definition OPENEDX_HIGHEST_EDUCATION_MAPPINGS :: "(string \<times> string) list" where
  "OPENEDX_HIGHEST_EDUCATION_MAPPINGS =
     [(''Doctorate'', ''p''), (''Master'' @ [CHR 0x27] @ ''s or professional degree'', ''m''),
      (''Bachelor'' @ [CHR 0x27] @ ''s degree'', ''b''), (''Associate degree'', ''a''),
      (''Secondary/high school'', ''hs''), (''Junior secondary/junior high/middle school'', ''jhs''),
      (''Elementary/primary school'', ''el''), (''No formal education'', ''none''), (''Other education'', ''other'')]"

text \<open>The text between the first and the second hyphen; there has to be one.\<close>

definition after_hyphen :: "string \<Rightarrow> exn + string" where
  "after_hyphen t = (case dropWhile (\<lambda>c. c \<noteq> CHR ''-'') t of
      [] \<Rightarrow> Inl PyIndexError
    | _ # r \<Rightarrow> Inr (takeWhile (\<lambda>c. c \<noteq> CHR ''-'') r))"

definition us_state :: "LegalAddress \<Rightarrow> exn + string option" where
  "us_state a =
     (case la_state a of
        None \<Rightarrow> Inr None
      | Some st \<Rightarrow> if la_country a \<noteq> ''US'' then Inr None
          else bindE (after_hyphen st) (\<lambda>x. Inr (if x \<in> set EDX_STATE_CHOICES then Some x else None)))"

definition edx_us_state :: "LegalAddress \<Rightarrow> exn + string option" where
  "edx_us_state a = bindE (us_state a) (\<lambda>st. Inr (case st of
      None \<Rightarrow> None
    | Some x \<Rightarrow> if x \<in> set EDX_STATE_CHOICES then Some x else None))"

definition edx_gender :: "UserProfile \<Rightarrow> string option" where
  "edx_gender p = (case up_gender p of
      None \<Rightarrow> None
    | Some g \<Rightarrow> if g \<in> set EDX_GENDER_CHOICES then Some g else Some ''o'')"

definition level_of_education :: "UserProfile \<Rightarrow> exn + string" where
  "level_of_education p =
     (if has_text (up_highest_education p)
      then (case map_of OPENEDX_HIGHEST_EDUCATION_MAPPINGS (the (up_highest_education p)) of
              None \<Rightarrow> Inl PyIndexError | Some c \<Rightarrow> Inr c)
      else Inr [])"

section \<open>Profiles\<close>

text \<open>\<open>subdivision\<close>: pycountry knows the code.\<close>

definition legal_address_valid :: "(string \<Rightarrow> bool) \<Rightarrow> LegalAddress \<Rightarrow> bool" where
  "legal_address_valid subdivision a \<longleftrightarrow> la_country a \<notin> {''US'', ''CA''} \<or> (case la_state a of
      None \<Rightarrow> True | Some st \<Rightarrow> subdivision st)"

definition year_of_birth_valid :: "int \<Rightarrow> int \<Rightarrow> bool" where
  "year_of_birth_valid this_year year \<longleftrightarrow> year \<noteq> 0 \<and> 13 \<le> this_year - year"

text \<open>\<open>addl\<close>: one of the four kinds of learner is given.\<close>

definition flagged_profile :: "bool \<Rightarrow> UserProfile \<Rightarrow> UserProfile" where
  "flagged_profile addl p = p\<lparr>up_addl_field_flag := has_text (up_highest_education p) \<and> addl\<rparr>"

definition update_user :: "(string \<Rightarrow> bool) \<Rightarrow> int \<Rightarrow> AppUser \<Rightarrow> LegalAddress option \<Rightarrow> UserProfile option \<Rightarrow> bool
    \<Rightarrow> string option \<Rightarrow> unit aop" where
  "update_user subdivision this_year user address profile addl name = atomicA (
     thenP (case address of None \<Rightarrow> ret () | Some a \<Rightarrow>
              (if legal_address_valid subdivision a then ret () else raise ValidationError))
     (thenP (case profile of None \<Rightarrow> ret () | Some p \<Rightarrow>
               (case up_year_of_birth p of None \<Rightarrow> ret () | Some y \<Rightarrow>
                  (if year_of_birth_valid this_year y then ret () else raise ValidationError)))
     (thenP (modify (\<lambda>s. s\<lparr>openedx_users := update_rows (\<lambda>r. oeu_user r = au_id user)
               (\<lambda>r. r\<lparr>oeu_has_sync_error := False, oeu_sync_error_data := None\<rparr>) (openedx_users s)\<rparr>))
     (save_app_user (user\<lparr>au_name := (case name of None \<Rightarrow> au_name user | Some n \<Rightarrow> n),
        au_legal_address := (case address of None \<Rightarrow> au_legal_address user | Some a \<Rightarrow> Some a),
        au_user_profile := (case profile of None \<Rightarrow> au_user_profile user
                            | Some p \<Rightarrow> Some (flagged_profile addl p))\<rparr>)))))"

definition update_current_user :: "(string \<Rightarrow> bool) \<Rightarrow> int \<Rightarrow> AppUser \<Rightarrow> LegalAddress option \<Rightarrow> UserProfile option \<Rightarrow> bool
    \<Rightarrow> string option \<Rightarrow> unit aop" where
  "update_current_user subdivision this_year user address profile addl name = atomicA (
     thenP (update_user subdivision this_year user address profile addl name)
     (thenP (whenP (Some (au_name user) \<noteq> name) (queue_task (ChangeEdxUserName (au_id user))))
     (thenP (queue_task (UpdateEdxUserProfile (au_id user)))
       (sync_account_with_hubspot (au_id user)))))"

text \<open>The answer of the user information endpoint that Open edX asks.\<close>

definition user_info_status :: "accounts \<Rightarrow> nat option \<Rightarrow> nat" where
  "user_info_status s user = (case user of
      None \<Rightarrow> 409
    | Some u \<Rightarrow> if has_text (edx_username s u) then 200 else 409)"

section \<open>Signing in\<close>

text \<open>\<open>allowed\<close>: Django's \<open>url_has_allowed_host_and_scheme\<close>.\<close>

datatype login_redirect = NextPage string | NewUserPage string

definition login_next_url :: "(string \<Rightarrow> bool) \<Rightarrow> string option \<Rightarrow> string option \<Rightarrow> string" where
  "login_next_url allowed next_param cookie =
     (let t = (if has_text next_param then next_param else cookie) in
      if has_text t \<and> allowed (the t) then the t else ''/dashboard'')"

definition should_skip_onboarding :: "AppUser \<Rightarrow> bool" where
  "should_skip_onboarding u \<longleftrightarrow>
     (case au_user_profile u of None \<Rightarrow> False | Some p \<Rightarrow> up_completed_onboarding p) \<or> au_has_enrollment u"

definition gateway_login :: "(string \<Rightarrow> bool) \<Rightarrow> AppUser option \<Rightarrow> string option \<Rightarrow> string option \<Rightarrow> string option
    \<Rightarrow> login_redirect aop" where
  "gateway_login allowed user next_param cookie skip =
     (let url = login_next_url allowed next_param cookie in
      case user of
        None \<Rightarrow> ret (NextPage url)
      | Some u \<Rightarrow>
          if \<not> should_skip_onboarding u \<and> (skip = None \<or> skip = Some ''0'')
          then thenP (modify (\<lambda>s. s\<lparr>app_users := update_rows (\<lambda>r. au_id r = au_id u)
                 (\<lambda>r. r\<lparr>au_user_profile := Some ((case au_user_profile r of None \<Rightarrow> blank_profile | Some p \<Rightarrow> p)
                     \<lparr>up_completed_onboarding := True\<rparr>)\<rparr>) (app_users s)\<rparr>))
               (ret (NewUserPage url))
          else ret (NextPage url))"

section \<open>Provisioning by SCIM\<close>

text \<open>A user of the SCIM schema; an attribute that is absent, null or blank is \<open>None\<close> where the
  adapter does not distinguish them.  \<open>parse_emails\<close> belongs to the SCIM package.\<close>

record ScimUser =
  scim_active :: "bool option"
  scim_user_name :: string
  scim_external_id :: "string option"
  scim_full_name :: "string option"
  scim_given_name :: "string option"
  scim_family_name :: "string option"
  scim_emails :: "string list"

definition given_text :: "string option \<Rightarrow> string \<Rightarrow> string" where
  "given_text x old = (case x of None \<Rightarrow> old | Some t \<Rightarrow> if strip t = [] then old else strip t)"

definition scim_from_dict :: "(string list \<Rightarrow> string \<Rightarrow> string) \<Rightarrow> ScimUser \<Rightarrow> AppUser \<Rightarrow> AppUser" where
  "scim_from_dict parse_emails d u =
     (let a = (case au_legal_address u of None \<Rightarrow> blank_address | Some a \<Rightarrow> a);
          p = (case au_user_profile u of None \<Rightarrow> blank_profile | Some p \<Rightarrow> p)
      in u\<lparr>au_email := parse_emails (scim_emails d) (au_email u),
           au_is_active := (case scim_active d of None \<Rightarrow> True | Some b \<Rightarrow> b),
           au_username := scim_user_name d, au_scim_username := Some (scim_user_name d),
           au_scim_external_id := scim_external_id d,
           au_global_id := Some (case scim_external_id d of None \<Rightarrow> [] | Some i \<Rightarrow> i),
           au_name := (case scim_full_name d of None \<Rightarrow> au_name u | Some n \<Rightarrow> n),
           au_legal_address := Some (a\<lparr>la_first_name := given_text (scim_given_name d) (la_first_name a),
                                       la_last_name := given_text (scim_family_name d) (la_last_name a)\<rparr>),
           au_user_profile := Some p\<rparr>)"

definition scim_resolve_name :: "AppUser \<Rightarrow> string \<times> string" where
  "scim_resolve_name u =
     (let a = (case au_legal_address u of None \<Rightarrow> blank_address | Some a \<Rightarrow> a) in
      if la_first_name a \<noteq> [] \<and> la_last_name a \<noteq> [] then (la_first_name a, la_last_name a) else ([], []))"

definition scim_to_dict :: "AppUser \<Rightarrow> ScimUser" where
  "scim_to_dict u = \<lparr>scim_active = Some (au_is_active u), scim_user_name = au_username u,
     scim_external_id = au_scim_external_id u, scim_full_name = Some (au_name u),
     scim_given_name = Some (fst (scim_resolve_name u)), scim_family_name = Some (snd (scim_resolve_name u)),
     scim_emails = [au_email u]\<rparr>"

text \<open>The rows that belong to a provisioned user; one that has no \<open>OpenEdxUser\<close> gets an empty one.\<close>

definition scim_save_related :: "AppUser \<Rightarrow> unit aop" where
  "scim_save_related u =
     bindP (gets (\<lambda>s. first (edx_users_of s (au_id u)))) (\<lambda>r. case r of
         Some _ \<Rightarrow> ret ()
       | None \<Rightarrow> bindP fresh_account_id (\<lambda>i. save_edx_user (new_edx_user i (au_id u) None)))"

section \<open>Finding users\<close>

datatype user_property = ByUserId | ByEmail | ByEdxUsername

definition determine_filter_field :: "(string \<Rightarrow> bool) \<Rightarrow> string \<Rightarrow> user_property" where
  "determine_filter_field is_email t =
     (if t \<noteq> [] \<and> list_all is_digit t then ByUserId else if is_email t then ByEmail else ByEdxUsername)"

definition has_property :: "accounts \<Rightarrow> user_property \<Rightarrow> bool \<Rightarrow> string \<Rightarrow> AppUser \<Rightarrow> bool" where
  "has_property s p ignore_case t u = (case p of
      ByUserId \<Rightarrow> parse_int t = Some (int (au_id u))
    | ByEmail \<Rightarrow> if ignore_case then iexact (au_email u) t else au_email u = t
    | ByEdxUsername \<Rightarrow> list_ex (\<lambda>r. oeu_edx_username r = Some t) (edx_users_of s (au_id u)))"

definition fetch_user :: "(string \<Rightarrow> bool) \<Rightarrow> accounts \<Rightarrow> string \<Rightarrow> bool \<Rightarrow> exn + AppUser" where
  "fetch_user is_email s t ignore_case =
     get_one (filter (has_property s (determine_filter_field is_email t) ignore_case t) (app_users s))"

text \<open>Several users by the same property: the kind of property is that of the first value.\<close>

definition fetch_users :: "(string \<Rightarrow> bool) \<Rightarrow> accounts \<Rightarrow> string list \<Rightarrow> bool \<Rightarrow> exn + AppUser list option" where
  "fetch_users is_email s ts ignore_case =
     (case ts of
        [] \<Rightarrow> Inr None
      | t # _ \<Rightarrow> if t = [] then Inr None
         else (let p = determine_filter_field is_email t;
                   ci = (p = ByEmail \<and> ignore_case);
                   found = filter (\<lambda>u. list_ex (\<lambda>x. has_property s p ignore_case x u) ts) (app_users s)
               in if p = ByUserId \<and> list_ex (\<lambda>x. parse_int x = None) ts then Inl PyValueError
                  else if \<not> distinct (if ci then map lower ts else ts) then Inl ValidationError
                  else if length found \<noteq> length ts then Inl ObjectDoesNotExist else Inr (Some found)))"


section \<open>The constraints hold always\<close>

text \<open>\<open>accounts_ok\<close>: the unique constraints of both tables, and no username beyond its column.\<close>

definition accounts_ok :: "accounts \<Rightarrow> bool" where
  "accounts_ok s \<longleftrightarrow> unique_rows_ok au_id user_conflict (app_users s)
     \<and> unique_rows_ok oeu_id edx_conflict (openedx_users s)
     \<and> list_all (\<lambda>r. \<not> too_long (oeu_edx_username r) \<and> \<not> too_long (oeu_desired_edx_username r)) (openedx_users s)"

lemma accounts_ok_cong:
  "app_users t = app_users s \<Longrightarrow> openedx_users t = openedx_users s \<Longrightarrow> accounts_ok t = accounts_ok s"
  by (simp add: accounts_ok_def)

lemma accounts_ok_frame [keeps_intro]:
  "keeps accounts_ok fresh_account_id" "keeps accounts_ok (queue_task t)" "keeps accounts_ok (sync_account_with_hubspot u)"
  "keeps accounts_ok (on_user_created u)"
  by (simp_all add: keeps_def fresh_account_id_def queue_task_def sync_account_with_hubspot_def on_user_created_def
      modify_def accounts_ok_def)

lemma save_app_user_ok [keeps_intro]: "keeps accounts_ok (save_app_user u)"
  unfolding save_app_user_def
  by (rule keepsI) (simp add: raise_def modify_def accounts_ok_def user_rows.put_ok)

lemma save_edx_user_ok [keeps_intro]: "keeps accounts_ok (save_edx_user r)"
  unfolding save_edx_user_def
  by (rule keepsI) (auto simp: raise_def modify_def accounts_ok_def edx_rows.put_ok list_all_iff dest!: put_row_set)

lemma atomicA_ok [keeps_intro]: "keeps accounts_ok m \<Longrightarrow> keeps accounts_ok (atomicA m)"
  by (rule keeps_atomicA) (simp_all add: accounts_ok_def)

lemma update_users_ok:
  assumes "\<And>r. au_id (f r) = au_id r \<and> au_username (f r) = au_username r \<and> au_email (f r) = au_email r
      \<and> au_global_id (f r) = au_global_id r"
  shows "keeps accounts_ok (modify (\<lambda>s. s\<lparr>app_users := update_rows p f (app_users s)\<rparr>))"
  by (rule keeps_modify) (simp add: accounts_ok_def user_rows.update_ok assms user_conflict_def)

lemma update_edx_users_ok:
  assumes "\<And>r. oeu_id (f r) = oeu_id r \<and> oeu_user (f r) = oeu_user r \<and> oeu_platform (f r) = oeu_platform r
      \<and> oeu_edx_username (f r) = oeu_edx_username r \<and> oeu_desired_edx_username (f r) = oeu_desired_edx_username r"
  shows "keeps accounts_ok (modify (\<lambda>s. s\<lparr>openedx_users := update_rows p f (openedx_users s)\<rparr>))"
  by (rule keeps_modify)
    (auto simp: accounts_ok_def edx_rows.update_ok assms edx_conflict_def list_all_iff dest!: set_update_rowsD)

lemma keeps_accounts_modify:
  "(\<And>s. app_users (f s) = app_users s \<and> openedx_users (f s) = openedx_users s) \<Longrightarrow> keeps accounts_ok (modify f)"
  by (rule keeps_modify) (simp add: accounts_ok_def)

lemma post_create_user_ok [keeps_intro]: "keeps accounts_ok (post_create_user u n)"
  unfolding post_create_user_def by (intro keeps_intro update_users_ok) simp_all

lemma create_user_row_ok [keeps_intro]: "keeps accounts_ok (create_user_row username email gid staff super)"
  unfolding create_user_row_def Let_def by (intro keeps_intro)

lemma create_superuser_ok: "keeps accounts_ok (create_superuser username email gid staff super)"
  unfolding create_superuser_def by (intro keeps_intro)

lemma create_change_email_request_ok: "keeps accounts_ok (create_change_email_request user new ok)"
  unfolding create_change_email_request_def by (intro keeps_intro keeps_accounts_modify) simp_all

lemma update_change_email_request_ok: "keeps accounts_ok (update_change_email_request code confirmed)"
  unfolding update_change_email_request_def apply_change_request_def
  by (intro keeps_intro keeps_accounts_modify) simp_all

lemma update_current_user_ok: "keeps accounts_ok (update_current_user sub year user address profile addl name)"
  unfolding update_current_user_def update_user_def by (intro keeps_intro update_edx_users_ok) simp_all

lemma gateway_login_ok: "keeps accounts_ok (gateway_login allowed user n c skip)"
  unfolding gateway_login_def Let_def by (intro keeps_intro update_users_ok) simp_all

lemma scim_save_related_ok: "keeps accounts_ok (scim_save_related u)"
  unfolding scim_save_related_def by (intro keeps_intro)

section \<open>What the operations do\<close>

text \<open>A user that was created has their address, profile and a username for Open edX that no one else
  has, at most 30 characters of the requested one; nothing is written otherwise.\<close>

lemma create_user_row_undone:
  assumes "create_user_row username email gid staff super s = (Inl e, t)"
  shows "app_users t = app_users s \<and> openedx_users t = openedx_users s"
  using assms unfolding create_user_row_def atomicA_def by (auto split: prod.splits sum.splits)

text \<open>An email address that a request has confirmed belongs to its user, and to no one else whatever
  the case of its letters.\<close>

lemma pending_code:
  "get_one (filter (\<lambda>c. cem_code c = code) (pending_change_requests s)) = Inr c \<Longrightarrow>
   cem_code c = code \<and> \<not> cem_confirmed c \<and> acs_now s < cem_expires_on c \<and> c \<in> set (change_requests s)"
proof -
  assume "get_one (filter (\<lambda>c. cem_code c = code) (pending_change_requests s)) = Inr c"
  then have "c \<in> set (filter (\<lambda>c. cem_code c = code) (pending_change_requests s))" by simp
  then show ?thesis by (simp add: pending_change_requests_def)
qed

text \<open>A user who only changes the case of their address gets a request that cannot be confirmed.\<close>

lemma change_of_case_refused:
  assumes "u \<in> set (app_users s)" "iexact (au_email u) (cem_new_email c)"
  shows "apply_change_request c b s = (Inl ValidationError, undo_tables s (s\<lparr>acs_in_atomic := True\<rparr>))"
  using assms unfolding apply_change_request_def
  by (subst atomicA_Inl [where e = ValidationError and t = "s\<lparr>acs_in_atomic := True\<rparr>"])
    (auto simp: exists_row_iff raise_def)


lemma find_app_user_mem: "find_app_user s i = Some u \<Longrightarrow> u \<in> set (app_users s) \<and> au_id u = i"
  unfolding find_app_user_def by (drule first_filter_SomeD) simp

lemma find_put_user: "find_app_user (s\<lparr>app_users := put_row au_id u (app_users s)\<rparr>) (au_id u) = Some u"
  by (simp add: find_app_user_def first_put_row)

lemma save_app_user_Inr: "save_app_user u s = (Inr x, t) \<Longrightarrow>
    t = s\<lparr>app_users := put_row au_id u (app_users s)\<rparr> \<and> \<not> clashes au_id user_conflict u (app_users s)"
  by (auto simp: save_app_user_def raise_def modify_def split: if_splits)

text \<open>What the confirmation of a request has done when it returns.\<close>

lemma apply_change_request_Inr:
  assumes "apply_change_request c True s = (Inr (), t)"
  obtains u where "find_app_user s (cem_user c) = Some u"
    and "find_app_user t (cem_user c) = Some (u\<lparr>au_email := cem_new_email c\<rparr>)"
    and "change_requests t = update_rows (\<lambda>x. cem_id x = cem_id c) (\<lambda>x. x\<lparr>cem_confirmed := True\<rparr>) (change_requests s)"
    and "acs_now t = acs_now s" "ChangeEdxUserEmail (au_id u) \<in> set (acs_queued t)"
proof -
  define s1 where "s1 = s\<lparr>acs_in_atomic := True,
    change_requests := update_rows (\<lambda>x. cem_id x = cem_id c) (\<lambda>x. x\<lparr>cem_confirmed := True\<rparr>) (change_requests s)\<rparr>"
  have find: "find_app_user s1 i = find_app_user s i" for i by (simp add: s1_def find_app_user_def)
  from assms obtain u t1 where u: "find_app_user s1 (cem_user c) = Some u"
    and run: "thenP (save_app_user (u\<lparr>au_email := cem_new_email c\<rparr>)) (queue_task (ChangeEdxUserEmail (au_id u))) s1
      = (Inr (), t1)" and t: "t = leave_account_atomic s t1"
    unfolding apply_change_request_def atomicA_def s1_def
    by (auto simp: raise_def thenP_def bindP_def gets_def modify_def
        split: prod.splits sum.splits if_splits option.splits)
  from run obtain t2 where save: "save_app_user (u\<lparr>au_email := cem_new_email c\<rparr>) s1 = (Inr (), t2)"
    and q: "t1 = t2\<lparr>acs_queued := acs_queued t2 @ [ChangeEdxUserEmail (au_id u)]\<rparr>"
    by (auto simp: thenP_def bindP_def queue_task_def modify_def split: prod.splits sum.splits)
  note t2 = save_app_user_Inr [OF save, THEN conjunct1]
  have id: "au_id (u\<lparr>au_email := cem_new_email c\<rparr>) = cem_user c" using find_app_user_mem [OF u] by simp
  have "find_app_user t2 (cem_user c) = Some (u\<lparr>au_email := cem_new_email c\<rparr>)"
    unfolding t2 using find_put_user [where s = s1 and u = "u\<lparr>au_email := cem_new_email c\<rparr>"] id by simp
  then have "find_app_user t (cem_user c) = Some (u\<lparr>au_email := cem_new_email c\<rparr>)"
    by (simp add: t q find_app_user_def)
  then show ?thesis using that u unfolding find t q t2 by (simp add: s1_def leave_account_atomic_def)
qed

end
