(* ===== verification/Earned.thy ===== *)
theory Earned
  imports Certificates
begin

text \<open>
  What \<open>has_earned_program_cert\<close> decides: the requirements of a program as an inductive relation,
  the refinement of the relation by the recursive function, the calls that suffice when programs
  do not require each other in a circle, and the safety of revoked certificates.
\<close>

section \<open>Requirements that are met\<close>

inductive earned :: "treebeard \<Rightarrow> db \<Rightarrow> nat \<Rightarrow> Program \<Rightarrow> ProgramRequirement \<Rightarrow> bool" for tb s u where
  all_of: "is_root n \<or> is_all_of_operator n \<Longrightarrow>
    (\<And>c. c \<in> set (tb_children tb (requirements s) n) \<Longrightarrow> earned tb s u g c) \<Longrightarrow> earned tb s u g n"
| min_of: "\<not> is_root n \<Longrightarrow> is_min_number_of_operator n \<Longrightarrow> operator_number n = Inr m \<Longrightarrow>
    I \<subseteq> {..<length (tb_children tb (requirements s) n)} \<Longrightarrow> m \<le> int (card I) \<Longrightarrow>
    (\<And>i. i \<in> I \<Longrightarrow> earned tb s u g (tb_children tb (requirements s) n ! i)) \<Longrightarrow> earned tb s u g n"
| course: "is_course_node n \<Longrightarrow> req_operator n = None \<Longrightarrow> earned_course s u g n \<Longrightarrow> earned tb s u g n"
| certified: "is_program_node n \<Longrightarrow> req_operator n = None \<Longrightarrow> req_required_program n = Some p \<Longrightarrow>
    prg_requires_payment p \<Longrightarrow> has_program_certificate s u p \<Longrightarrow> earned tb s u g n"
| free_program: "is_program_node n \<Longrightarrow> req_operator n = None \<Longrightarrow> req_required_program n = Some p \<Longrightarrow>
    \<not> prg_requires_payment p \<Longrightarrow> program_root tb s p = Inr r \<Longrightarrow> earned tb s u p r \<Longrightarrow> earned tb s u g n"

inductive_simps earned_simp: "earned tb s u g n"

lemma node_types [simp]:
  "is_root n \<longleftrightarrow> req_node_type n = NT_PROGRAM_ROOT" "is_course_node n \<longleftrightarrow> req_node_type n = NT_COURSE"
  "is_program_node n \<longleftrightarrow> req_node_type n = NT_PROGRAM"
  by (simp_all add: is_root_def is_course_node_def is_program_node_def)

lemma allE_True: "allE f xs = Inr True \<longleftrightarrow> (\<forall>x \<in> set xs. f x = Inr True)"
  by (induction xs) (auto simp: bindE_def split: sum.splits)

fun_cases allE_NilE: "allE f [] = Inr b" and allE_ConsE: "allE f (x # xs) = Inr b"

lemma allE_False: "allE f xs = Inr False \<Longrightarrow> \<exists>x \<in> set xs. f x = Inr False"
  by (induction xs) (auto elim!: allE_NilE allE_ConsE simp: bindE_def split: sum.splits if_splits)

lemma mapE_nth: "mapE f xs = Inr ys \<Longrightarrow> i < length xs \<Longrightarrow> f (xs ! i) = Inr (ys ! i)"
  by (induction xs arbitrary: ys i) (auto simp: nth_Cons split: sum.splits nat.splits)

text \<open>The rows of the tree satisfy the check constraint, so that the cases of a node exclude each other.\<close>

lemma node_cases:
  assumes "node_check n"
  obtains (all) "is_root n \<or> is_all_of_operator n"
    | (min) "\<not> (is_root n \<or> is_all_of_operator n)" "\<not> is_root n" "is_min_number_of_operator n"
    | (course) "\<not> (is_root n \<or> is_all_of_operator n)" "\<not> is_min_number_of_operator n" "is_course_node n" "req_operator n = None"
    | (program) p where "\<not> (is_root n \<or> is_all_of_operator n)" "\<not> is_min_number_of_operator n" "\<not> is_course_node n"
        "is_program_node n" "req_operator n = None" "req_required_program n = Some p"
proof (cases "req_node_type n")
  case NT_PROGRAM_ROOT
  then show ?thesis using that(1) by simp
next
  case NT_OPERATOR
  then obtain op where op: "req_operator n = Some op" using assms by (auto simp: node_check_def)
  show ?thesis
  proof (cases op)
    case ALL_OF
    then show ?thesis using that(1) op by (simp add: is_all_of_operator_def)
  next
    case MIN_NUMBER_OF
    then show ?thesis using that(2) op NT_OPERATOR
      by (simp add: is_all_of_operator_def is_min_number_of_operator_def)
  qed
next
  case NT_COURSE
  then have "req_operator n = None" using assms by (simp add: node_check_def)
  then show ?thesis using that(3) NT_COURSE by (simp add: is_all_of_operator_def is_min_number_of_operator_def)
next
  case NT_PROGRAM
  then have "req_operator n = None \<and> req_required_program n \<noteq> None" using assms by (simp add: node_check_def)
  then obtain p where "req_operator n = None" "req_required_program n = Some p" by auto
  then show ?thesis using that(4) NT_PROGRAM by (simp add: is_all_of_operator_def is_min_number_of_operator_def)
qed

lemma earned_all: "is_root n \<or> is_all_of_operator n \<Longrightarrow> node_check n \<Longrightarrow>
    earned tb s u g n \<longleftrightarrow> (\<forall>c \<in> set (tb_children tb (requirements s) n). earned tb s u g c)"
  by (subst earned_simp) (auto simp: is_all_of_operator_def is_min_number_of_operator_def node_check_def
    split: node_type.splits)

lemma earned_min: "\<not> is_root n \<Longrightarrow> is_min_number_of_operator n \<Longrightarrow> node_check n \<Longrightarrow>
    earned tb s u g n \<longleftrightarrow> (\<exists>m I. operator_number n = Inr m \<and> I \<subseteq> {..<length (tb_children tb (requirements s) n)}
      \<and> m \<le> int (card I) \<and> (\<forall>i \<in> I. earned tb s u g (tb_children tb (requirements s) n ! i)))"
  by (subst earned_simp) (auto simp: is_all_of_operator_def is_min_number_of_operator_def node_check_def
    split: node_type.splits)

lemma earned_course_node: "is_course_node n \<Longrightarrow> req_operator n = None \<Longrightarrow>
    earned tb s u g n \<longleftrightarrow> earned_course s u g n"
  by (subst earned_simp) (auto simp: is_all_of_operator_def is_min_number_of_operator_def)

lemma earned_program_node: "is_program_node n \<Longrightarrow> req_operator n = None \<Longrightarrow> req_required_program n = Some p \<Longrightarrow>
    earned tb s u g n \<longleftrightarrow> (if prg_requires_payment p then has_program_certificate s u p
      else (\<exists>r. program_root tb s p = Inr r \<and> earned tb s u p r))"
  by (subst earned_simp) (auto simp: is_all_of_operator_def is_min_number_of_operator_def)

lemma count_earned:
  assumes bs: "mapE f cs = Inr bs" and f: "\<And>i. i < length cs \<Longrightarrow> (f (cs ! i) = Inr (bs ! i)) \<Longrightarrow> bs ! i \<longleftrightarrow> P (cs ! i)"
  shows "m \<le> int (length (filter id bs)) \<longleftrightarrow> (\<exists>I. I \<subseteq> {..<length cs} \<and> m \<le> int (card I) \<and> (\<forall>i \<in> I. P (cs ! i)))"
proof -
  let ?J = "{i. i < length bs \<and> bs ! i}"
  have len: "length bs = length cs" using bs by (rule mapE_length)
  have P: "bs ! i \<longleftrightarrow> P (cs ! i)" if "i < length cs" for i using f [OF that] mapE_nth [OF bs that] by blast
  have J: "length (filter id bs) = card ?J" by (simp add: length_filter_conv_card)
  have le: "card I \<le> card ?J" if "I \<subseteq> {..<length cs}" "\<forall>i \<in> I. P (cs ! i)" for I
    using that P len by (intro card_mono) auto
  show ?thesis
  proof
    assume m: "m \<le> int (length (filter id bs))"
    have "?J \<subseteq> {..<length cs} \<and> (\<forall>i \<in> ?J. P (cs ! i))" using P len by auto
    then show "\<exists>I. I \<subseteq> {..<length cs} \<and> m \<le> int (card I) \<and> (\<forall>i \<in> I. P (cs ! i))" using m J by auto
  next
    assume "\<exists>I. I \<subseteq> {..<length cs} \<and> m \<le> int (card I) \<and> (\<forall>i \<in> I. P (cs ! i))"
    then obtain I where "I \<subseteq> {..<length cs}" "m \<le> int (card I)" "\<forall>i \<in> I. P (cs ! i)" by blast
    then show "m \<le> int (length (filter id bs))" using le [of I] J by simp
  qed
qed

lemma check_node: "tree_ok rows \<Longrightarrow> n \<in> set rows \<Longrightarrow> node_check n"
  unfolding tree_ok_def by blast

lemma program_rootD:
  assumes "treebeard_contract tb" "program_root tb s g = Inr r"
  shows "r \<in> set (requirements s)" "req_program r = prg_id g" "req_depth r = 1"
proof -
  have "filter (\<lambda>r. req_program r = prg_id g) (filter (\<lambda>r. req_depth r = 1) (requirements s)) = [r]"
    using assms(2) by (simp add: program_root_def contractD [OF assms(1)])
  then have "r \<in> set (filter (\<lambda>r. req_program r = prg_id g) (filter (\<lambda>r. req_depth r = 1) (requirements s)))" by simp
  then show "r \<in> set (requirements s)" "req_program r = prg_id g" "req_depth r = 1" by auto
qed

section \<open>The function refines the relation\<close>

lemma has_earned_sound:
  assumes tb: "treebeard_contract tb" and ok: "tree_ok (requirements s)"
  shows "n \<in> set (requirements s) \<Longrightarrow> has_earned k tb s u g n = Inr b \<Longrightarrow> b \<longleftrightarrow> earned tb s u g n"
proof (induction k arbitrary: g n b)
  case (Suc k)
  let ?cs = "tb_children tb (requirements s) n"
  have cs: "c \<in> set (requirements s)" if "c \<in> set ?cs" for c using that by (simp add: contractD [OF tb])
  have check: "node_check n" by (rule check_node [OF ok Suc.prems(1)])
  show ?case
  proof (rule node_cases [OF check])
    assume all: "is_root n \<or> is_all_of_operator n"
    then have run: "allE (has_earned k tb s u g) ?cs = Inr b" using Suc.prems(2) by (simp del: node_types)
    show ?thesis
    proof (cases b)
      case True
      have "earned tb s u g c" if "c \<in> set ?cs" for c
        using Suc.IH [OF cs [OF that], of g True] that run True by (simp add: allE_True)
      then show ?thesis using True by (simp add: earned_all [OF all check])
    next
      case False
      then have "allE (has_earned k tb s u g) ?cs = Inr False" using run by simp
      from allE_False [OF this] obtain c where "c \<in> set ?cs" "has_earned k tb s u g c = Inr False" by blast
      then show ?thesis using Suc.IH [OF cs] False by (auto simp: earned_all [OF all check])
    qed
  next
    assume min: "\<not> (is_root n \<or> is_all_of_operator n)" "\<not> is_root n" "is_min_number_of_operator n"
    from Suc.prems(2) min obtain bs m where bs: "mapE (has_earned k tb s u g) ?cs = Inr bs"
        and m: "operator_number n = Inr m" and b: "b = (m \<le> int (length (filter id bs)))"
      by (auto simp: bindE_eq_Inr simp del: node_types)
    have "(m \<le> int (length (filter id bs))) \<longleftrightarrow>
        (\<exists>I. I \<subseteq> {..<length ?cs} \<and> m \<le> int (card I) \<and> (\<forall>i \<in> I. earned tb s u g (?cs ! i)))"
      by (rule count_earned [OF bs]) (use Suc.IH [OF cs] in auto)
    then show ?thesis using m b by (simp add: earned_min [OF min(2,3) check])
  next
    assume "\<not> (is_root n \<or> is_all_of_operator n)" "\<not> is_min_number_of_operator n" "is_course_node n" "req_operator n = None"
    then show ?thesis using Suc.prems(2) by (simp add: earned_course_node del: node_types)
  next
    fix p assume p: "\<not> (is_root n \<or> is_all_of_operator n)" "\<not> is_min_number_of_operator n" "\<not> is_course_node n"
        "is_program_node n" "req_operator n = None" "req_required_program n = Some p"
    show ?thesis
    proof (cases "prg_requires_payment p")
      case True
      then show ?thesis using Suc.prems(2) p by (simp add: earned_program_node [OF p(4-6)] del: node_types)
    next
      case False
      then obtain r where r: "program_root tb s p = Inr r" "has_earned k tb s u p r = Inr b"
        using Suc.prems(2) p by (auto simp: bindE_eq_Inr simp del: node_types)
      then show ?thesis using Suc.IH [OF program_rootD(1) [OF tb r(1)] r(2)] False
        by (auto simp: earned_program_node [OF p(4-6)])
    qed
  qed
qed simp

section \<open>Enough calls\<close>

text \<open>
  The requirements can be decided: minimum numbers are numbers, programs that need no payment have
  a tree, and following such requirements the rank of the program decreases.
\<close>

definition decidable :: "(nat \<Rightarrow> nat) \<Rightarrow> treebeard \<Rightarrow> db \<Rightarrow> bool" where
  "decidable rank tb s \<longleftrightarrow> (\<forall>n \<in> set (requirements s).
     (is_min_number_of_operator n \<longrightarrow> (\<exists>m. operator_number n = Inr m))
     \<and> (\<forall>p. req_required_program n = Some p \<longrightarrow> \<not> prg_requires_payment p \<longrightarrow>
          (\<exists>r. program_root tb s p = Inr r) \<and> rank (prg_id p) < rank (req_program n)))"

text \<open>The same for some of the programs: those that \<open>G\<close> holds of, which has to hold of the free
  programs that they require.\<close>

definition decidable_within :: "(nat \<Rightarrow> bool) \<Rightarrow> (nat \<Rightarrow> nat) \<Rightarrow> treebeard \<Rightarrow> db \<Rightarrow> bool" where
  "decidable_within G rank tb s \<longleftrightarrow> (\<forall>n \<in> set (requirements s). G (req_program n) \<longrightarrow>
     (is_min_number_of_operator n \<longrightarrow> (\<exists>m. operator_number n = Inr m))
     \<and> (\<forall>p. req_required_program n = Some p \<longrightarrow> \<not> prg_requires_payment p \<longrightarrow>
          G (prg_id p) \<and> (\<exists>r. program_root tb s p = Inr r) \<and> rank (prg_id p) < rank (req_program n)))"

lemma decidable_within_all: "decidable_within (\<lambda>_. True) = decidable"
  by (intro ext) (simp add: decidable_within_def decidable_def)

lemma allE_total: "(\<And>x. x \<in> set xs \<Longrightarrow> \<exists>b. f x = Inr b) \<Longrightarrow> \<exists>b. allE f xs = Inr b"
  by (induction xs) fastforce+

lemma mapE_total: "(\<And>x. x \<in> set xs \<Longrightarrow> \<exists>b. f x = Inr b) \<Longrightarrow> \<exists>bs. mapE f xs = Inr bs"
  by (induction xs) fastforce+

lemma has_earned_total:
  assumes tb: "treebeard_contract tb" and ok: "tree_ok (requirements s)" and dec: "decidable_within G rank tb s"
    and D: "\<forall>n \<in> set (requirements s). req_depth n \<le> D"
  shows "n \<in> set (requirements s) \<Longrightarrow> req_program n = prg_id g \<Longrightarrow> G (prg_id g) \<Longrightarrow>
    rank (prg_id g) * Suc D + (D - req_depth n) < k \<Longrightarrow> \<exists>b. has_earned k tb s u g n = Inr b"
proof (induction k arbitrary: g n)
  case (Suc k)
  let ?cs = "tb_children tb (requirements s) n"
  have check: "node_check n" by (rule check_node [OF ok Suc.prems(1)])
  have cs: "\<exists>b. has_earned k tb s u g c = Inr b" if "c \<in> set ?cs" for c
  proof -
    have c: "c \<in> set (requirements s)" "is_child n c" using that by (simp_all add: contractD [OF tb])
    have "req_program c = prg_id g" using child_program [OF ok Suc.prems(1) c] Suc.prems(2) by simp
    moreover have "req_depth c \<le> D" using D c(1) by blast
    then have "rank (prg_id g) * Suc D + (D - req_depth c) < k"
      using Suc.prems(4) c(2) by (simp add: is_child_def)
    ultimately show ?thesis using Suc.IH [OF c(1)] Suc.prems(3) by blast
  qed
  show ?case
  proof (rule node_cases [OF check])
    assume all: "is_root n \<or> is_all_of_operator n"
    obtain b where "allE (has_earned k tb s u g) ?cs = Inr b" using allE_total [of ?cs "has_earned k tb s u g"] cs by blast
    then show ?thesis using all by (simp del: node_types)
  next
    assume min: "\<not> (is_root n \<or> is_all_of_operator n)" "\<not> is_root n" "is_min_number_of_operator n"
    obtain bs where "mapE (has_earned k tb s u g) ?cs = Inr bs" using mapE_total [of ?cs "has_earned k tb s u g"] cs by blast
    moreover obtain m where "operator_number n = Inr m" using dec Suc.prems(1-3) min(3) unfolding decidable_within_def by metis
    ultimately show ?thesis using min by (simp del: node_types)
  next
    assume "\<not> (is_root n \<or> is_all_of_operator n)" "\<not> is_min_number_of_operator n" "is_course_node n" "req_operator n = None"
    then show ?thesis by (simp del: node_types)
  next
    fix p assume p: "\<not> (is_root n \<or> is_all_of_operator n)" "\<not> is_min_number_of_operator n" "\<not> is_course_node n"
        "is_program_node n" "req_operator n = None" "req_required_program n = Some p"
    show ?thesis
    proof (cases "prg_requires_payment p")
      case True
      then show ?thesis using p by (simp del: node_types)
    next
      case False
      then obtain r where r: "program_root tb s p = Inr r" and less: "rank (prg_id p) < rank (prg_id g)"
          and G: "G (prg_id p)"
        using dec Suc.prems(1-3) p(6) unfolding decidable_within_def by metis
      note rr = program_rootD [OF tb r]
      have "Suc (rank (prg_id p)) * Suc D \<le> rank (prg_id g) * Suc D" using less by (intro mult_le_mono1) simp
      then have "rank (prg_id p) * Suc D + (D - req_depth r) < k" using Suc.prems(4) by simp
      then obtain b where "has_earned k tb s u p r = Inr b" using Suc.IH [OF rr(1,2) G] by blast
      then show ?thesis using p False r by (simp del: node_types)
    qed
  qed
qed simp

definition calls_enough :: "(nat \<Rightarrow> nat) \<Rightarrow> db \<Rightarrow> Program \<Rightarrow> nat" where
  "calls_enough rank s g = (let D = Max (insert 0 (req_depth ` set (requirements s)))
     in rank (prg_id g) * Suc D + Suc D)"

lemma program_cert_decided_within:
  assumes tb: "treebeard_contract tb" and ok: "tree_ok (requirements s)"
    and dec: "decidable_within G rank tb s" "G (prg_id g)"
    and root: "program_root tb s g = Inr r" and k: "calls_enough rank s g \<le> k"
  shows "has_earned_program_cert k tb s u g = Inr (earned tb s u g r)"
proof -
  let ?D = "Max (insert 0 (req_depth ` set (requirements s)))"
  have D: "\<forall>n \<in> set (requirements s). req_depth n \<le> ?D" by simp
  note r = program_rootD [OF tb root]
  have "rank (prg_id g) * Suc ?D + (?D - req_depth r) < k" using k by (simp add: calls_enough_def Let_def)
  from has_earned_total [OF tb ok dec(1) D r(1,2) dec(2) this] obtain b where b: "has_earned k tb s u g r = Inr b" by blast
  then have "b \<longleftrightarrow> earned tb s u g r" by (rule has_earned_sound [OF tb ok r(1)])
  then show ?thesis using b by (simp add: has_earned_program_cert_def root)
qed

lemma program_cert_decided:
  assumes "treebeard_contract tb" "tree_ok (requirements s)" "decidable rank tb s"
    and "program_root tb s g = Inr r" "calls_enough rank s g \<le> k"
  shows "has_earned_program_cert k tb s u g = Inr (earned tb s u g r)"
  by (rule program_cert_decided_within [OF assms(1,2) _ _ assms(4,5)])
    (use assms(3) in \<open>simp_all only: decidable_within_all\<close>)

text \<open>A free program that requires itself is never decided: the calls do not come to an end.\<close>

lemma circular_program:
  assumes root: "program_root tb s g = Inr r" "is_root r" and free: "\<not> prg_requires_payment g"
    and op: "tb_children tb (requirements s) r = op # ops" "is_all_of_operator op"
    and self: "tb_children tb (requirements s) op = n # ns" "req_required_program n = Some g" "is_program_node n"
      "req_operator n = None"
  shows "has_earned_program_cert k tb s u g = Inl RecursionError"
proof -
  have "has_earned k tb s u g r = Inl RecursionError" for k
  proof (induction k rule: less_induct)
    case (less k)
    consider "k = 0" | "k = 1" | "k = 2" | j where "k = Suc (Suc (Suc j))"
      by (metis One_nat_def Suc_1 not0_implies_Suc)
    then show ?case
    proof cases
      case 4
      then have "has_earned (Suc j) tb s u g n = Inl RecursionError"
        using less [of j] free root(1) self(2-4)
        by (simp add: is_root_def is_all_of_operator_def is_min_number_of_operator_def is_course_node_def is_program_node_def)
      then show ?thesis using 4 root(2) op self(1) by simp
    qed (use root(2) op self(1) in \<open>simp_all add: numeral_2_eq_2\<close>)
  qed
  then show ?thesis by (simp add: has_earned_program_cert_def root(1))
qed

section \<open>More certificates\<close>

lemma earned_mono:
  assumes "earned tb s u g n" and "requirements t = requirements s"
    and c: "\<And>g n. earned_course s u g n \<Longrightarrow> earned_course t u g n"
    and p: "\<And>p. has_program_certificate s u p \<Longrightarrow> has_program_certificate t u p"
  shows "earned tb t u g n"
  using assms(1)
proof induction
  case (all_of n g)
  show ?case by (rule earned.all_of [OF all_of(1)]) (use all_of(3) assms(2) in simp)
next
  case (min_of n m I g)
  show ?case by (rule earned.min_of [OF min_of(1-3), where I = I]) (use min_of(4-7) assms(2) in simp_all)
next
  case (course n g)
  show ?case by (rule earned.course [OF course(1,2) c [OF course(3)]])
next
  case (certified n p' g)
  show ?case by (rule earned.certified [OF certified(1-4) p [OF certified(5)]])
next
  case (free_program n p' r g)
  have "program_root tb t p' = Inr r" using free_program(5) assms(2) by (simp add: program_root_def)
  then show ?case by (rule earned.free_program [OF free_program(1-4)]) (rule free_program(7))
qed

lemma earned_with_certificates:
  assumes "earned tb s u g n"
  shows "earned tb (s\<lparr>run_certificates := run_certificates s @ cs, program_certificates := program_certificates s @ ps\<rparr>) u g n"
    (is "earned tb ?t u g n")
proof (rule earned_mono [OF assms])
  have runs: "user_courseruns ?t u g = user_courseruns s u g" for g
    by (simp add: user_courseruns_def courses_qset_def usable_runs_def)
  have certs: "set (cert_courses s u g) \<subseteq> set (cert_courses ?t u g)" for g
    unfolding cert_courses_def runs by (auto simp: exists_row_iff)
  have grades: "grade_courses ?t u g = grade_courses s u g" for g
    by (simp add: grade_courses_def runs)
  fix g n assume "earned_course s u g n"
  then show "earned_course ?t u g n"
    unfolding earned_course_def grades using certs [of g] by (cases "req_course n") auto
qed (auto simp: has_program_certificate_def exists_row_iff)

end
