(* ===== verification/CertificateJobs.thy ===== *)
theory CertificateJobs
  imports Earned
begin

text \<open>
  The jobs that issue certificates: a revoked certificate is never issued again, and the job over
  the enrollments in programs looks at every candidate once and leaves none behind that has met
  requirements which can be decided.
\<close>

lemma keeps_gets_bind: "(\<And>s. P s \<Longrightarrow> P (snd (f (g s) s))) \<Longrightarrow> keeps P (bindP (gets g) f)"
  by (simp add: keeps_def)

lemma thenP_modify: "thenP (modify f) m s = m (f s)"
  by (simp add: thenP_def bindP_def modify_def)

section \<open>What issuing a program certificate leaves alone\<close>

text \<open>The interface between a predicate of the tables and the operations that issue program
  certificates: the predicate survives new keys and queued tasks, a credential, and a new row.\<close>

locale program_certificate_frame =
  fixes P :: "db \<Rightarrow> bool"
  assumes book: "P s \<Longrightarrow> P (s\<lparr>next_id := i, outbox := es, on_commit := cs\<rparr>)"
    and signed: "P s \<Longrightarrow> P (s\<lparr>program_certificates :=
        update_rows (\<lambda>x. pc_id x = j) (\<lambda>x. x\<lparr>pc_has_credential := True\<rparr>) (program_certificates s)\<rparr>)"
    and issued: "P s \<Longrightarrow> \<not> pc_is_revoked c \<Longrightarrow> P (s\<lparr>program_certificates := program_certificates s @ [c]\<rparr>)"
begin

lemma keeps_book_fresh: "keeps P fresh_id"
proof (rule keepsI)
  fix s assume "P s"
  then show "P (snd (fresh_id s))" using book [where s = s and i = "Suc (next_id s)" and es = "outbox s" and cs = "on_commit s"] by (simp add: fresh_id_def)
qed

lemma keeps_book_emit: "keeps P (emit e)"
proof (rule keepsI)
  fix s assume "P s"
  then show "P (snd (emit e s))"
    using book [where s = s and i = "next_id s" and es = "outbox s @ [e]" and cs = "on_commit s"] by (simp add: emit_result)
qed

lemma keeps_book_on_commit: "keeps P (emit_on_commit e)"
proof (rule keepsI)
  fix s assume P: "P s"
  show "P (snd (emit_on_commit e s))"
    using book [OF P, where i = "next_id s" and es = "outbox s @ [e]" and cs = "on_commit s"]
      book [OF P, where i = "next_id s" and es = "outbox s" and cs = "on_commit s @ [e]"]
    by (simp add: emit_on_commit_def modify_def)
qed

lemma keeps_sync_user: "keeps P (sync_hubspot_user u)"
  unfolding sync_hubspot_user_def by (intro keeps_intro keeps_book_emit)

lemma keeps_sign_program: "keeps P (sign_program_certificate gs c)"
  unfolding sign_program_certificate_def by (intro keeps_intro keeps_book_on_commit keeps_modify signed)

lemma keeps_new_program: "keeps P (create_program_certificate gs u g)"
  unfolding create_program_certificate_def
proof (rule keeps_bindP [OF keeps_book_fresh], rule keeps_gets_bind)
  fix i s assume s: "P s"
  let ?c = "\<lparr>pc_id = i, pc_user = u, pc_program = g, pc_is_revoked = False, pc_has_credential = False, pc_issue_date = now s\<rparr>"
  have "keeps P (thenP (emit_on_commit (SyncProgramCertificate i))
      (thenP (sync_hubspot_user u) (thenP (sign_program_certificate gs ?c) (ret ?c))))"
    by (intro keeps_intro keeps_book_on_commit keeps_sync_user keeps_sign_program)
  moreover have "P (s\<lparr>program_certificates := program_certificates s @ [?c]\<rparr>)" by (rule issued [OF s]) simp
  ultimately show "P (snd (thenP (modify (\<lambda>s. s\<lparr>program_certificates := program_certificates s @ [?c]\<rparr>))
      (thenP (emit_on_commit (SyncProgramCertificate i))
        (thenP (sync_hubspot_user u) (thenP (sign_program_certificate gs ?c) (ret ?c)))) s))"
    unfolding thenP_modify by (rule keepsD)
qed

lemma keeps_program_certificate: "keeps P (generate_program_certificate gs u g f)"
  unfolding generate_program_certificate_def by (intro keeps_intro keeps_new_program)

lemma keeps_program_certificates: "keeps P (generate_multiple_programs_certificate gs u gs')"
  by (induction gs') (auto intro: keeps_ret keeps_bindP keeps_program_certificate)

end

section \<open>Revoked certificates\<close>

text \<open>All certificates of the learner for the run are revoked, and there is one.\<close>

definition run_revoked :: "nat \<Rightarrow> CourseRun \<Rightarrow> db \<Rightarrow> bool" where
  "run_revoked u r s \<longleftrightarrow> exists_row (for_run u r) (run_certificates s)
     \<and> (\<forall>c \<in> set (run_certificates s). for_run u r c \<longrightarrow> crc_is_revoked c)"

interpretation revoked_frame: program_certificate_frame "run_revoked u r"
  by unfold_locales (simp_all add: run_revoked_def)

lemma keeps_revoked_grade: "keeps (run_revoked u r) (ensure_course_run_grade gs v q eg b)"
  unfolding ensure_course_run_grade_def create_grade_def save_grade_def
  by (intro keeps_intro keeps_modify revoked_frame.keeps_book_fresh) (simp_all add: run_revoked_def)

lemma keeps_revoked_sign: "keeps (run_revoked u r) (sign_run_certificate gs c)"
  unfolding sign_run_certificate_def
proof (intro keeps_intro keeps_modify revoked_frame.keeps_book_on_commit)
  fix s assume s: "run_revoked u r s"
  let ?rows = "update_rows (\<lambda>x. crc_id x = crc_id c) (\<lambda>x. x\<lparr>crc_has_credential := True\<rparr>) (run_certificates s)"
  have "exists_row (for_run u r) ?rows = exists_row (for_run u r) (run_certificates s)"
    unfolding exists_row_iff update_rows_def set_map bex_simps for_run_def by (rule bex_cong) auto
  moreover have "\<forall>c \<in> set ?rows. for_run u r c \<longrightarrow> crc_is_revoked c"
    using s by (auto simp: run_revoked_def update_rows_def for_run_def)
  ultimately show "run_revoked u r (s\<lparr>run_certificates := ?rows\<rparr>)" using s by (simp add: run_revoked_def)
qed

lemma keeps_revoked_create:
  assumes "\<not> (v = u \<and> run_id q = run_id r)"
  shows "keeps (run_revoked u r) (create_run_certificate gs v q)"
proof -
  have add: "keeps (run_revoked u r) (thenP (modify (\<lambda>s. s\<lparr>run_certificates := run_certificates s @ [c]\<rparr>)) m)"
    if "keeps (run_revoked u r) m" "\<not> for_run u r c" for m :: "'a op" and c
    by (intro keeps_thenP keeps_modify that(1)) (use that(2) in \<open>auto simp: run_revoked_def exists_row_iff\<close>)
  show ?thesis unfolding create_run_certificate_def
  proof (rule keeps_bindP [OF revoked_frame.keeps_book_fresh], rule keeps_gets_bind)
    fix i s assume s: "run_revoked u r s"
    let ?c = "\<lparr>crc_id = i, crc_user = v, crc_run = q, crc_is_revoked = False, crc_has_credential = False, crc_issue_date = now s\<rparr>"
    let ?rest = "bindP (gets (\<lambda>s. programs_with_course s (run_course q))) (\<lambda>ps.
      thenP (bindP (generate_multiple_programs_certificate gs v ps) (\<lambda>_. ret ()))
      (thenP (emit_on_commit (SyncRunCertificate i)) (ret ?c)))"
    have "keeps (run_revoked u r) (thenP (modify (\<lambda>s. s\<lparr>run_certificates := run_certificates s @ [?c]\<rparr>)) ?rest)"
    proof (rule add)
      show "keeps (run_revoked u r) ?rest"
        by (intro keeps_intro revoked_frame.keeps_program_certificates revoked_frame.keeps_book_on_commit)
    qed (use assms in \<open>auto simp: for_run_def\<close>)
    then show "run_revoked u r (snd (thenP (modify (\<lambda>s. s\<lparr>run_certificates := run_certificates s @ [?c]\<rparr>)) ?rest s))"
      using s by (rule keepsD)
  qed
qed

lemma keeps_revoked_get: "keeps (run_revoked u r) (get_or_create_run_certificate gs v q)"
proof (rule keepsI)
  fix s assume s: "run_revoked u r s"
  show "run_revoked u r (snd (get_or_create_run_certificate gs v q s))"
  proof (cases "v = u \<and> run_id q = run_id r")
    case True
    then have "for_run v q = for_run u r" by (auto simp: for_run_def fun_eq_iff)
    moreover have "first (filter (\<lambda>c. for_run u r c \<and> active_certificate s c) (run_certificates s)) = None"
      using s by (auto simp: run_revoked_def active_certificate_def)
    ultimately show ?thesis using s
      by (simp add: get_or_create_run_certificate_def run_revoked_def raise_def)
  next
    case False
    have "keeps (run_revoked u r) (get_or_create_run_certificate gs v q)"
      unfolding get_or_create_run_certificate_def by (intro keeps_intro keeps_revoked_create False)
    then show ?thesis using s by (rule keepsD)
  qed
qed

lemma keeps_revoked_process: "keeps (run_revoked u r) (process_course_run_grade_certificate gs g f)"
proof -
  have del: "keeps (run_revoked u r) (modify (\<lambda>s. s\<lparr>run_certificates :=
      filter (\<lambda>c. \<not> (for_run v q c \<and> active_certificate s c)) (run_certificates s)\<rparr>))" for v q
    by (rule keeps_modify) (auto simp: run_revoked_def exists_row_iff active_certificate_def)
  show ?thesis unfolding process_course_run_grade_certificate_def Let_def
    by (intro keeps_intro del keeps_revoked_get keeps_revoked_sign revoked_frame.keeps_sync_user)
qed

lemma keeps_revoked_job: "keeps (run_revoked u r) (generate_course_run_certificates gs user run f)"
proof -
  have grade: "keeps (run_revoked u r) (process_grade gs q f x)" for q x
    unfolding process_grade_def by (intro keeps_intro keeps_revoked_grade keeps_revoked_process)
  show ?thesis unfolding generate_course_run_certificates_def by (intro keeps_intro grade)
qed

section \<open>No candidate is left behind\<close>

text \<open>Nothing that decides a certificate is changed, and certificates are only added.\<close>

definition grows :: "db \<Rightarrow> db \<Rightarrow> bool" where
  "grows s t \<longleftrightarrow> requirements t = requirements s \<and> course_runs t = course_runs s \<and> run_enrollments t = run_enrollments s
     \<and> run_certificates t = run_certificates s \<and> run_grades t = run_grades s
     \<and> program_enrollments t = program_enrollments s
     \<and> (\<forall>u g. has_program_certificate s u g \<longrightarrow> has_program_certificate t u g)"

lemma exists_row_update: "(\<And>x. q (f x) = q x) \<Longrightarrow> exists_row q (update_rows p f xs) = exists_row q xs"
  by (induction xs) auto

interpretation grows_frame: program_certificate_frame "grows s"
proof
  fix t i es cs assume "grows s t"
  then show "grows s (t\<lparr>next_id := i, outbox := es, on_commit := cs\<rparr>)"
    by (simp add: grows_def has_program_certificate_def)
next
  fix t j assume t: "grows s t"
  have "has_program_certificate (t\<lparr>program_certificates :=
      update_rows (\<lambda>x. pc_id x = j) (\<lambda>x. x\<lparr>pc_has_credential := True\<rparr>) (program_certificates t)\<rparr>) u g
    = has_program_certificate t u g" for u g
    by (simp add: has_program_certificate_def exists_row_update)
  then show "grows s (t\<lparr>program_certificates :=
      update_rows (\<lambda>x. pc_id x = j) (\<lambda>x. x\<lparr>pc_has_credential := True\<rparr>) (program_certificates t)\<rparr>)"
    using t by (simp add: grows_def)
next
  fix t and c :: ProgramCertificate assume "grows s t" "\<not> pc_is_revoked c"
  then show "grows s (t\<lparr>program_certificates := program_certificates t @ [c]\<rparr>)"
    by (auto simp: grows_def has_program_certificate_def exists_row_iff)
qed

lemma grows_refl: "grows s s" by (simp add: grows_def)

lemma grows_trans: "grows s t \<Longrightarrow> grows t u \<Longrightarrow> grows s u" by (simp add: grows_def)

lemma earned_grows:
  assumes "grows s t" "earned tb s u g n"
  shows "earned tb t u g n"
proof (rule earned_mono [OF assms(2)])
  have runs: "user_courseruns t u g = user_courseruns s u g" for g
    using assms(1) by (simp add: grows_def user_courseruns_def courses_qset_def usable_runs_def)
  have "cert_courses t u g = cert_courses s u g" "grade_courses t u g = grade_courses s u g" for g
    using assms(1) by (simp_all add: cert_courses_def grade_courses_def runs grows_def)
  then show "earned_course t u g n" if "earned_course s u g n" for g n
    using that unfolding earned_course_def by (cases "req_course n") simp_all
qed (use assms(1) in \<open>simp_all add: grows_def\<close>)

definition cert_key :: "ProgramCertificate \<Rightarrow> nat \<times> nat" where
  "cert_key c = (pc_user c, prg_id (pc_program c))"

definition candidate_key :: "ProgramEnrollment \<Rightarrow> nat \<times> nat" where
  "candidate_key e = (pe_user e, prg_id (pe_program e))"

abbreviation cert_keys :: "db \<Rightarrow> (nat \<times> nat) list" where
  "cert_keys s \<equiv> map cert_key (program_certificates s)"

lemma has_key: "exists_row (\<lambda>c. pc_user c = u \<and> prg_id (pc_program c) = k) (program_certificates s) \<longleftrightarrow> (u, k) \<in> set (cert_keys s)"
  by (auto simp: exists_row_iff cert_key_def)

lemma sign_program_run:
  "\<exists>t. sign_program_certificate gs c s = (Inr (), t) \<and> cert_keys t = cert_keys s"
  by (auto simp: sign_program_certificate_def gets_def bindP_def whenP_def thenP_def modify_def emit_on_commit_def ret_def
      cert_key_def update_rows_def comp_def)

lemma sync_user_run: "\<exists>t. sync_hubspot_user u s = (Inr (), t) \<and> program_certificates t = program_certificates s"
  by (simp add: sync_hubspot_user_def ret_def emit_result)

lemma create_program_certificate_run:
  "\<exists>c t. create_program_certificate gs u g s = (Inr c, t) \<and> cert_keys t = cert_keys s @ [(u, prg_id g)]"
proof -
  let ?c = "\<lparr>pc_id = next_id s, pc_user = u, pc_program = g, pc_is_revoked = False, pc_has_credential = False, pc_issue_date = now s\<rparr>"
  let ?s = "s\<lparr>next_id := Suc (next_id s), program_certificates := program_certificates s @ [?c]\<rparr>"
  obtain s1 where s1: "emit_on_commit (SyncProgramCertificate (next_id s)) ?s = (Inr (), s1)"
      "program_certificates s1 = program_certificates ?s"
    by (simp add: emit_on_commit_def modify_def)
  obtain s2 where s2: "sync_hubspot_user u s1 = (Inr (), s2)" "program_certificates s2 = program_certificates s1"
    using sync_user_run by blast
  obtain t where t: "sign_program_certificate gs ?c s2 = (Inr (), t)" "cert_keys t = cert_keys s2"
    using sign_program_run by blast
  have fresh: "fresh_id s = (Inr (next_id s), s\<lparr>next_id := Suc (next_id s)\<rparr>)" by (simp add: fresh_id_def)
  have "create_program_certificate gs u g s = (Inr ?c, t)"
    unfolding create_program_certificate_def bindP_Inr [where m = fresh_id and s = s, OF fresh] gets_bind
    by (simp add: thenP_modify
        thenP_Inr [where m = "emit_on_commit (SyncProgramCertificate (next_id s))", OF s1(1)]
        thenP_Inr [where m = "sync_hubspot_user u", OF s2(1)]
        thenP_Inr [where m = "sign_program_certificate gs ?c", OF t(1)] ret_def)
  then show ?thesis using t(2) s2(2) s1(2) by (simp add: cert_key_def)
qed

text \<open>What \<open>generate_program_certificate\<close> does for a candidate.\<close>

lemma generate_cases:
  assumes v: "verified_program_enrollment s u g" and key: "(u, prg_id g) \<notin> set (cert_keys s)"
  obtains (failed) e where "has_earned_program_cert (gs_recursion_limit gs) (gs_tree gs) s u g = Inl e"
        "generate_program_certificate gs u g False s = (Inl e, s)"
    | (ineligible) "has_earned_program_cert (gs_recursion_limit gs) (gs_tree gs) s u g = Inr False"
        "generate_program_certificate gs u g False s = (Inr (None, False), s)"
    | (created) c t where "generate_program_certificate gs u g False s = (Inr (Some c, True), t)"
        "cert_keys t = cert_keys s @ [(u, prg_id g)]" "grows s t"
proof -
  have none: "find_program_certificate s u g = None"
    using key by (auto simp: find_program_certificate_def cert_key_def)
  let ?h = "has_earned_program_cert (gs_recursion_limit gs) (gs_tree gs) s u g"
  have run: "generate_program_certificate gs u g False s = (case ?h of Inl e \<Rightarrow> (Inl e, s)
      | Inr b \<Rightarrow> if b then bindP (create_program_certificate gs u g) (\<lambda>c. ret (Some c, True)) s else (Inr (None, False), s))"
    using v none by (simp add: generate_program_certificate_def liftE_bind ret_def split: sum.split)
  show ?thesis
  proof (cases ?h)
    case (Inr b)
    show ?thesis
    proof (cases b)
      case True
      obtain c t where c: "create_program_certificate gs u g s = (Inr c, t)" "cert_keys t = cert_keys s @ [(u, prg_id g)]"
        using create_program_certificate_run by blast
      have r: "generate_program_certificate gs u g False s = (Inr (Some c, True), t)"
        unfolding run using Inr True bindP_Inr [where m = "create_program_certificate gs u g", OF c(1)] by (simp add: ret_def)
      have "grows s (snd (generate_program_certificate gs u g False s))"
        by (rule keepsD [OF grows_frame.keeps_program_certificate grows_refl])
      then show ?thesis using created [OF r c(2)] r by simp
    qed (use run Inr ineligible in simp)
  qed (use run failed in simp)
qed

text \<open>What is known of the statistics and the certificates after some candidates were processed.\<close>

definition processed :: "job_stats \<Rightarrow> db \<Rightarrow> ProgramEnrollment list \<Rightarrow> job_stats \<Rightarrow> db \<Rightarrow> bool" where
  "processed st s es st' t \<longleftrightarrow> grows s t
     \<and> js_processed st' = js_processed st + length es
     \<and> js_created st' + js_ineligible st' + js_failed st' = js_created st + js_ineligible st + js_failed st + length es
     \<and> (\<exists>new. cert_keys t = cert_keys s @ new \<and> set new \<subseteq> candidate_key ` set es
          \<and> js_created st' = js_created st + length new)"

text \<open>The requirements of the program of a candidate can be decided within the limit of calls.\<close>

definition decided :: "grade_services \<Rightarrow> db \<Rightarrow> ProgramEnrollment \<Rightarrow> bool" where
  "decided gs s e \<longleftrightarrow> (\<forall>r. program_root (gs_tree gs) s (pe_program e) = Inr r \<longrightarrow>
     (\<forall>t :: db. requirements t = requirements s \<longrightarrow>
       has_earned_program_cert (gs_recursion_limit gs) (gs_tree gs) t (pe_user e) (pe_program e)
         = Inr (earned (gs_tree gs) t (pe_user e) (pe_program e) r)))"

text \<open>Those whose program can be decided and who have earned the certificate have it in the end.\<close>

definition complete :: "grade_services \<Rightarrow> db \<Rightarrow> ProgramEnrollment list \<Rightarrow> db \<Rightarrow> bool" where
  "complete gs s es t \<longleftrightarrow> (\<forall>e \<in> set es. \<forall>r. program_root (gs_tree gs) s (pe_program e) = Inr r
     \<longrightarrow> decided gs s e
     \<longrightarrow> earned (gs_tree gs) s (pe_user e) (pe_program e) r \<longrightarrow> candidate_key e \<in> set (cert_keys t))"

definition is_candidate :: "db \<Rightarrow> ProgramEnrollment \<Rightarrow> bool" where
  "is_candidate s e \<longleftrightarrow> e \<in> set (program_enrollments s) \<and> pe_active e \<and> pe_enrollment_mode e = verified_mode
     \<and> candidate_key e \<notin> set (cert_keys s)"

lemma process_candidate_run:
  assumes e: "is_candidate s e"
  shows "\<exists>st' t. process_candidate gs st e s = (Inr st', t) \<and> processed st s [e] st' t
    \<and> complete gs s [e] t"
proof -
  have v: "verified_program_enrollment s (pe_user e) (pe_program e)"
    using e by (auto simp: verified_program_enrollment_def exists_row_iff is_candidate_def)
  have key: "(pe_user e, prg_id (pe_program e)) \<notin> set (cert_keys s)"
    using e by (simp add: is_candidate_def candidate_key_def)
  have dec: "has_earned_program_cert (gs_recursion_limit gs) (gs_tree gs) s (pe_user e) (pe_program e)
      = Inr (earned (gs_tree gs) s (pe_user e) (pe_program e) r)"
    if "decided gs s e" "program_root (gs_tree gs) s (pe_program e) = Inr r" for r
    using that by (simp add: decided_def)
  show ?thesis
  proof (rule generate_cases [OF v key, of gs])
    fix x assume h: "has_earned_program_cert (gs_recursion_limit gs) (gs_tree gs) s (pe_user e) (pe_program e) = Inl x"
      and run: "generate_program_certificate gs (pe_user e) (pe_program e) False s = (Inl x, s)"
    have "complete gs s [e] s" using dec h by (auto simp: complete_def)
    then show ?thesis
      by (simp add: process_candidate_def Let_def catchP_def bindP_def run ret_def processed_def grows_refl)
  next
    assume h: "has_earned_program_cert (gs_recursion_limit gs) (gs_tree gs) s (pe_user e) (pe_program e) = Inr False"
      and run: "generate_program_certificate gs (pe_user e) (pe_program e) False s = (Inr (None, False), s)"
    have "complete gs s [e] s" using dec h by (auto simp: complete_def)
    then show ?thesis
      by (simp add: process_candidate_def Let_def catchP_def bindP_def run ret_def processed_def grows_refl)
  next
    fix c t assume run: "generate_program_certificate gs (pe_user e) (pe_program e) False s = (Inr (Some c, True), t)"
      and t: "cert_keys t = cert_keys s @ [(pe_user e, prg_id (pe_program e))]" "grows s t"
    have "candidate_key e \<in> set (cert_keys t)" unfolding t(1) by (simp add: candidate_key_def)
    then have "complete gs s [e] t" unfolding complete_def by simp
    then show ?thesis
      using t by (simp add: process_candidate_def Let_def catchP_def bindP_def run ret_def processed_def candidate_key_def)
  qed
qed

lemma processed_trans:
  assumes "processed st s es st1 s1" "processed st1 s1 fs st2 s2"
  shows "processed st s (es @ fs) st2 s2"
proof -
  obtain n1 n2 where n: "cert_keys s1 = cert_keys s @ n1" "set n1 \<subseteq> candidate_key ` set es" "js_created st1 = js_created st + length n1"
      "cert_keys s2 = cert_keys s1 @ n2" "set n2 \<subseteq> candidate_key ` set fs" "js_created st2 = js_created st1 + length n2"
    using assms unfolding processed_def by blast
  have "cert_keys s2 = cert_keys s @ (n1 @ n2) \<and> set (n1 @ n2) \<subseteq> candidate_key ` set (es @ fs)
      \<and> js_created st2 = js_created st + length (n1 @ n2)" using n by auto
  then show ?thesis using assms grows_trans unfolding processed_def by (auto simp del: set_append)
qed

lemma processed_keys:
  assumes "processed st s es st' t"
  shows "set (cert_keys s) \<subseteq> set (cert_keys t) \<and> set (cert_keys t) \<subseteq> set (cert_keys s) \<union> candidate_key ` set es"
proof -
  obtain new where "cert_keys t = cert_keys s @ new" "set new \<subseteq> candidate_key ` set es"
    using assms unfolding processed_def by blast
  then show ?thesis by (simp only: set_append) blast
qed

lemma processed_root: "processed st s es st' t \<Longrightarrow> program_root tb t g = program_root tb s g"
  by (simp add: processed_def grows_def program_root_def)

lemma decided_grows: "grows s t \<Longrightarrow> decided gs s e \<Longrightarrow> decided gs t e"
  by (simp add: decided_def grows_def program_root_def)

lemma complete_trans:
  assumes "processed st s es st1 s1" "complete gs s es s1" "processed st1 s1 fs st2 s2" "complete gs s1 fs s2"
  shows "complete gs s (es @ fs) s2"
  unfolding complete_def
proof (intro ballI allI impI)
  fix e r assume e: "e \<in> set (es @ fs)" "program_root (gs_tree gs) s (pe_program e) = Inr r" "decided gs s e"
    "earned (gs_tree gs) s (pe_user e) (pe_program e) r"
  show "candidate_key e \<in> set (cert_keys s2)"
  proof (cases "e \<in> set es")
    case True
    then have "candidate_key e \<in> set (cert_keys s1)" using assms(2) e unfolding complete_def by blast
    then show ?thesis using processed_keys [OF assms(3)] by blast
  next
    case False
    have "program_root (gs_tree gs) s1 (pe_program e) = Inr r" using e(2) processed_root [OF assms(1)] by simp
    moreover have "earned (gs_tree gs) s1 (pe_user e) (pe_program e) r"
      using earned_grows [OF _ e(4)] assms(1) by (simp add: processed_def)
    moreover have "decided gs s1 e" using decided_grows [OF _ e(3)] assms(1) by (simp add: processed_def)
    ultimately show ?thesis using assms(4) e(1) False unfolding complete_def by auto
  qed
qed

lemma candidate_after:
  assumes "processed st s es st' t" "is_candidate s e" "candidate_key e \<notin> candidate_key ` set es"
  shows "is_candidate t e"
  using assms processed_keys [OF assms(1)] by (auto simp: is_candidate_def processed_def grows_def)

lemma process_batch_run:
  assumes "\<forall>e \<in> set es. is_candidate s e" "distinct (map candidate_key es)"
  shows "\<exists>st' t. foldP (process_candidate gs) st es s = (Inr st', t) \<and> processed st s es st' t
    \<and> complete gs s es t"
  using assms
proof (induction es arbitrary: st s)
  case Nil
  then show ?case by (simp add: ret_def processed_def complete_def grows_refl)
next
  case (Cons e es)
  from Cons.prems have e: "is_candidate s e" by simp
  from process_candidate_run [OF this, of gs st] obtain st1 s1 where
    1: "process_candidate gs st e s = (Inr st1, s1)" "processed st s [e] st1 s1" "complete gs s [e] s1" by blast
  have "\<forall>x \<in> set es. is_candidate s1 x"
  proof
    fix x assume x: "x \<in> set es"
    then have "candidate_key x \<noteq> candidate_key e" using Cons.prems(2) by (auto simp: image_iff)
    moreover have "is_candidate s x" using Cons.prems(1) x by simp
    ultimately show "is_candidate s1 x" using candidate_after [OF 1(2)] by simp
  qed
  from Cons.IH [OF this, of st1] Cons.prems(2) obtain st2 s2 where
    2: "foldP (process_candidate gs) st1 es s1 = (Inr st2, s2)" "processed st1 s1 es st2 s2" "complete gs s1 es s2"
    by auto
  have run: "foldP (process_candidate gs) st (e # es) s = (Inr st2, s2)"
    using 2(1) by (simp add: bindP_Inr [where m = "process_candidate gs st e", OF 1(1)])
  have "complete gs s (e # es) s2" using complete_trans [OF 1(2,3) 2(2,3)] by simp
  moreover have "processed st s (e # es) st2 s2" using processed_trans [OF 1(2) 2(2)] by simp
  ultimately show ?case using run by blast
qed

text \<open>The enrollments of the table: increasing keys, one enrollment per learner and program.\<close>

definition candidates_ok :: "db \<Rightarrow> bool" where
  "candidates_ok s \<longleftrightarrow> sorted_wrt (<) (map pe_id (program_enrollments s)) \<and> distinct (map candidate_key (program_enrollments s))"

abbreviation candidates :: "db \<Rightarrow> ProgramEnrollment list" where
  "candidates \<equiv> get_eligible_program_certificate_candidates"

lemma candidates_eq: "candidates s = filter (\<lambda>e. pe_active e \<and> pe_enrollment_mode e = verified_mode \<and> prg_live (pe_program e)
    \<and> candidate_key e \<notin> set (cert_keys s)) (program_enrollments s)"
  unfolding get_eligible_program_certificate_candidates_def has_key candidate_key_def ..

lemma candidates_after:
  assumes ok: "candidates_ok s" and p: "processed st s es st' t" and es: "set es \<subseteq> set (program_enrollments s)"
  shows "candidates t = filter (\<lambda>e. e \<notin> set es \<or> candidate_key e \<notin> set (cert_keys t)) (candidates s)"
proof -
  have pe: "program_enrollments t = program_enrollments s" using p by (simp add: processed_def grows_def)
  have "candidate_key e \<notin> set (cert_keys t) \<longleftrightarrow> candidate_key e \<notin> set (cert_keys s) \<and> (e \<notin> set es \<or> candidate_key e \<notin> set (cert_keys t))"
    if e: "e \<in> set (program_enrollments s)" for e
  proof (cases "e \<in> set es")
    case False
    then have "candidate_key e \<notin> candidate_key ` set es"
      using ok e es unfolding candidates_ok_def distinct_map inj_on_def by blast
    then show ?thesis using processed_keys [OF p] False by blast
  qed (use processed_keys [OF p] in blast)
  then show ?thesis unfolding candidates_eq pe filter_filter by (intro filter_cong) auto
qed

lemma filter_after_take:
  assumes "sorted_wrt (<) (map f xs)" "take n xs = ys @ [y]"
  shows "filter (\<lambda>x. f y < (f x :: nat)) xs = drop n xs"
proof -
  have xs: "xs = (ys @ [y]) @ drop n xs" using assms(2) by (metis append_take_drop_id)
  then have "sorted_wrt (<) (map f ((ys @ [y]) @ drop n xs))" using assms(1) by simp
  then have "\<forall>x \<in> set (ys @ [y]). \<not> f y < f x" "\<forall>x \<in> set (drop n xs). f y < f x"
    by (auto simp: sorted_wrt_append simp del: append_assoc)
  then show ?thesis by (subst xs) (simp add: filter_id_conv filter_empty_conv del: append_assoc append.simps)
qed

lemma missing_batches_run:
  assumes "candidates_ok s" "0 < b" "length (filter (\<lambda>e. last_id < pe_id e) (candidates s)) < k"
  shows "\<exists>st' t. missing_batches k gs b last_id st s = (Inr (Some st'), t)
    \<and> processed st s (filter (\<lambda>e. last_id < pe_id e) (candidates s)) st' t
    \<and> complete gs s (filter (\<lambda>e. last_id < pe_id e) (candidates s)) t"
  using assms
proof (induction k arbitrary: s st last_id)
  case (Suc k)
  let ?todo = "filter (\<lambda>e. last_id < pe_id e) (candidates s)"
  let ?batch = "take b ?todo"
  show ?case
  proof (cases "?todo = []")
    case True
    then have "missing_batches (Suc k) gs b last_id st s = (Inr (Some st), s)" by (simp add: ret_def)
    then show ?thesis using True by (simp add: processed_def complete_def grows_refl)
  next
    case False
    then obtain ys y where y: "?batch = ys @ [y]" using Suc.prems(2) by (cases ?batch rule: rev_cases) auto
    have sub: "set ?todo \<subseteq> set (program_enrollments s)" by (auto simp: candidates_eq)
    have cand: "\<forall>e \<in> set ?batch. is_candidate s e"
      by (auto dest!: in_set_takeD simp: candidates_eq is_candidate_def)
    have dist: "distinct (map candidate_key ?todo)" using Suc.prems(1)
      by (simp add: candidates_ok_def candidates_eq distinct_map_filter)
    then have "distinct (map candidate_key ?batch)" by (metis distinct_take take_map)
    from process_batch_run [OF cand this, of gs st] obtain st1 s1 where
      1: "foldP (process_candidate gs) st ?batch s = (Inr st1, s1)" "processed st s ?batch st1 s1"
        "complete gs s ?batch s1" by blast
    have pe: "program_enrollments s1 = program_enrollments s" using 1(2) by (simp add: processed_def grows_def)
    have sorted: "sorted_wrt (<) (map pe_id ?todo)" using Suc.prems(1)
      by (simp add: candidates_ok_def candidates_eq sorted_wrt_map sorted_wrt_filter)
    have "filter (\<lambda>e. pe_id y < pe_id e) (candidates s1) = filter (\<lambda>e. pe_id y < pe_id e) ?todo"
    proof -
      have "y \<in> set ?batch" unfolding y by simp
      from in_set_takeD [OF this] have le: "last_id < pe_id y" by simp
      have "e \<notin> set ?batch" if "pe_id y < pe_id e" for e
      proof
        assume "e \<in> set ?batch"
        moreover have "sorted_wrt (<) (map pe_id (ys @ [y]))" using sorted y by (metis sorted_wrt_take take_map)
        ultimately show False using that y by (auto simp: sorted_wrt_append)
      qed
      then show ?thesis
        unfolding candidates_after [OF Suc.prems(1) 1(2) subset_trans [OF set_take_subset sub]] filter_filter
        using le by (intro filter_cong) auto
    qed
    also have "\<dots> = drop b ?todo" by (rule filter_after_take [OF sorted y])
    finally have todo: "filter (\<lambda>e. pe_id y < pe_id e) (candidates s1) = drop b ?todo" .
    have ok1: "candidates_ok s1" using Suc.prems(1) pe by (simp add: candidates_ok_def)
    have "length (drop b ?todo) < k" using Suc.prems(2,3) False by (cases ?todo) auto
    from Suc.IH [OF ok1 Suc.prems(2), of "pe_id y" st1, unfolded todo, OF this] obtain st2 s2 where
      2: "missing_batches k gs b (pe_id y) st1 s1 = (Inr (Some st2), s2)" "processed st1 s1 (drop b ?todo) st2 s2"
        "complete gs s1 (drop b ?todo) s2" by blast
    have "missing_batches (Suc k) gs b last_id st s = (Inr (Some st2), s2)"
    proof -
      have ne: "?batch \<noteq> []" using y by simp
      have "missing_batches (Suc k) gs b last_id st s
          = bindP (foldP (process_candidate gs) st ?batch) (\<lambda>st. missing_batches k gs b (pe_id (last ?batch)) st) s"
        using ne by (simp only: missing_batches.simps gets_bind if_False)
      then show ?thesis
        using 2(1) y by (simp only: bindP_Inr [where m = "foldP (process_candidate gs) st ?batch", OF 1(1), unfolded y] last_snoc)
    qed
    moreover have "processed st s ?todo st2 s2" using processed_trans [OF 1(2) 2(2)] by simp
    moreover have "complete gs s ?todo s2" using complete_trans [OF 1(2,3) 2(2,3)] by simp
    ultimately show ?thesis by blast
  qed
qed simp

theorem missing_certificates:
  assumes ok: "candidates_ok s" "\<forall>e \<in> set (program_enrollments s). 0 < pe_id e" and b: "0 < b" "length (candidates s) < k"
  shows "\<exists>st t. generate_missing_program_certificates k gs b s = (Inr (Some st), t)
    \<and> js_processed st = length (candidates s)
    \<and> js_created st + js_ineligible st + js_failed st = js_processed st
    \<and> length (program_certificates t) = length (program_certificates s) + js_created st
    \<and> complete gs s (candidates s) t"
proof -
  have all: "filter (\<lambda>e. 0 < pe_id e) (candidates s) = candidates s"
    using ok(2) unfolding filter_id_conv candidates_eq by simp
  from missing_batches_run [of s b 0 k gs no_stats, unfolded all, OF ok(1) b] obtain st t where
    r: "missing_batches k gs b 0 no_stats s = (Inr (Some st), t)" "processed no_stats s (candidates s) st t"
      "complete gs s (candidates s) t" by blast
  then obtain new where "cert_keys t = cert_keys s @ new" "js_created st = length new"
    by (auto simp: processed_def no_stats_def)
  then have "length (program_certificates t) = length (program_certificates s) + js_created st"
    by (metis length_append length_map)
  then show ?thesis using r
    by (auto simp: generate_missing_program_certificates_def processed_def no_stats_def)
qed

lemma decided_by_rank:
  assumes tb: "treebeard_contract (gs_tree gs)" and ok: "tree_ok (requirements s)"
    and dec: "decidable_within G rank (gs_tree gs) s" "G (prg_id (pe_program e))"
    and k: "calls_enough rank s (pe_program e) \<le> gs_recursion_limit gs"
  shows "decided gs s e"
  unfolding decided_def
proof (intro allI impI)
  fix r and t :: db assume e: "program_root (gs_tree gs) s (pe_program e) = Inr r" and t: "requirements t = requirements s"
  have root: "program_root (gs_tree gs) t = program_root (gs_tree gs) s" by (rule ext) (simp add: program_root_def t)
  then have "decidable_within G rank (gs_tree gs) t" using dec(1) t by (simp add: decidable_within_def)
  moreover have "calls_enough rank t (pe_program e) \<le> gs_recursion_limit gs" using k t by (simp add: calls_enough_def)
  ultimately show "has_earned_program_cert (gs_recursion_limit gs) (gs_tree gs) t (pe_user e) (pe_program e)
      = Inr (earned (gs_tree gs) t (pe_user e) (pe_program e) r)"
    using program_cert_decided_within [OF tb, of t G rank "pe_program e" r] ok t e dec(2) root by simp
qed

text \<open>A learner who is owed a certificate: the requirements of the program, and of the free programs
  that it requires, can be decided within the limit of calls, and they are met.\<close>

definition owed_certificate :: "grade_services \<Rightarrow> db \<Rightarrow> ProgramEnrollment \<Rightarrow> bool" where
  "owed_certificate gs s e \<longleftrightarrow> (\<exists>G rank r. decidable_within G rank (gs_tree gs) s \<and> G (prg_id (pe_program e))
     \<and> calls_enough rank s (pe_program e) \<le> gs_recursion_limit gs
     \<and> program_root (gs_tree gs) s (pe_program e) = Inr r
     \<and> earned (gs_tree gs) s (pe_user e) (pe_program e) r)"

lemma owed_candidates:
  assumes "treebeard_contract (gs_tree gs)" "tree_ok (requirements s)" "complete gs s es t"
    and "e \<in> set es" "owed_certificate gs s e"
  shows "candidate_key e \<in> set (cert_keys t)"
  using assms decided_by_rank [OF assms(1,2)] unfolding owed_certificate_def complete_def by blast

end
