(* ===== verification/EdxSync.thy ===== *)
theory EdxSync
  imports Accounts Enrollments CertificateJobs
begin

text \<open>
  Enrollments that edX reports (\<open>sync_enrollments_with_edx\<close> and the course emails of
  \<open>src/openedx/api.py\<close>, the webhooks of \<open>src/openedx/views.py\<close>, the enrollment list and its email preference of
  \<open>src/courses/views/v1/__init__.py\<close>, the email task of \<open>src/courses/tasks.py\<close>).

  What the REST client of the user answers is an argument; users are found by email in the table of
  \<open>Accounts\<close>.  The enrollments are those of \<open>Enrollments\<close>.
\<close>

section \<open>Synchronising the enrollments of a user\<close>

record sync_result =
  sr_created :: "CourseRunEnrollment list"
  sr_reactivated :: "CourseRunEnrollment list"
  sr_deactivated :: "CourseRunEnrollment list"

definition no_sync :: sync_result where
  "no_sync = \<lparr>sr_created = [], sr_reactivated = [], sr_deactivated = []\<rparr>"

definition get_partitioned_set_difference :: "'a list \<Rightarrow> 'a list \<Rightarrow> 'a list \<times> 'a list \<times> 'a list" where
  "get_partitioned_set_difference xs ys =
     (let common = filter (\<lambda>x. x \<in> set ys) xs
      in (filter (\<lambda>x. x \<notin> set common) xs, common, filter (\<lambda>y. y \<notin> set common) ys))"

definition cre_courseware :: "CourseRunEnrollment \<Rightarrow> string" where
  "cre_courseware e = run_courseware_id (cre_run e)"

text \<open>The local enrollments of the user by courseware id; of equal ids the last counts.\<close>

definition local_enrollments :: "db \<Rightarrow> nat \<Rightarrow> (string \<times> CourseRunEnrollment) list" where
  "local_enrollments s u = rev (map (\<lambda>e. (cre_courseware e, e)) (filter (\<lambda>e. cre_user e = u) (run_enrollments s)))"

text \<open>The flags of the enrollments that both sides know.\<close>

definition sync_common_one :: "(string \<times> CourseRunEnrollment) list \<Rightarrow> (string \<times> bool) list \<Rightarrow>
    sync_result \<Rightarrow> string \<Rightarrow> sync_result op" where
  "sync_common_one local edx res i =
     (case (map_of edx i, map_of local i) of
        (Some edx_active, Some e) \<Rightarrow>
          if cre_active e \<and> \<not> edx_active
          then bindP (deactivate_and_save e (Some status_unenrolled)) (\<lambda>e'.
                 ret (res\<lparr>sr_deactivated := sr_deactivated res @ [e']\<rparr>))
          else if \<not> cre_active e \<and> edx_active
          then bindP (reactivate_and_save e) (\<lambda>e'. ret (res\<lparr>sr_reactivated := sr_reactivated res @ [e']\<rparr>))
          else ret res
      | _ \<Rightarrow> raise PyKeyError)"

text \<open>A row for a run that only edX knew; its mode is the default one.\<close>

definition create_synced :: "nat \<Rightarrow> (string \<times> bool) list \<Rightarrow> sync_result \<Rightarrow> CourseRun \<Rightarrow> sync_result op" where
  "create_synced u edx res r =
     (case map_of edx (run_courseware_id r) of
        None \<Rightarrow> raise PyKeyError
      | Some edx_active \<Rightarrow> (\<lambda>s.
          if exists_row (\<lambda>e. cre_key e = (u, run_id r)) (run_enrollments s) then (Inl IntegrityError, s)
          else let e = \<lparr>cre_id = next_id s, cre_user = u, cre_run = r, cre_change_status = None,
                        cre_active = edx_active, cre_enrollment_mode = audit_mode, cre_edx_enrolled = True,
                        cre_edx_emails_subscription = True, cre_retry_count = 0, cre_created_on = now s\<rparr>
               in (Inr (res\<lparr>sr_created := sr_created res @ [e]\<rparr>),
                   s\<lparr>run_enrollments := run_enrollments s @ [e], next_id := Suc (next_id s)\<rparr>)))"

text \<open>\<open>client\<close>: no credentials, or what edX answers: the courseware ids and whether the enrollment is active.
  Enrollments that only exist locally are logged.\<close>

definition sync_enrollments_with_edx :: "exn + (exn + (string \<times> bool) list) option \<Rightarrow> nat \<Rightarrow> sync_result op" where
  "sync_enrollments_with_edx client u =
     (case client of
        Inl e \<Rightarrow> raise e
      | Inr None \<Rightarrow> ret no_sync
      | Inr (Some (Inl e)) \<Rightarrow> raise e
      | Inr (Some (Inr edx)) \<Rightarrow>
          bindP (gets (\<lambda>s. local_enrollments s u)) (\<lambda>local.
          case get_partitioned_set_difference (remdups (map fst local)) (map fst edx) of (_, common_ids, edx_only_ids) \<Rightarrow>
          bindP (foldP (sync_common_one local edx) no_sync common_ids) (\<lambda>res.
          bindP (gets (\<lambda>s. filter (\<lambda>r. run_courseware_id r \<in> set edx_only_ids) (usable_runs s)))
            (foldP (create_synced u edx) res))))"

text \<open>The dashboard's list synchronises first, when the flag is on, and goes on when that fails.\<close>

definition list_enrollments :: "bool \<Rightarrow> exn + (exn + (string \<times> bool) list) option \<Rightarrow> nat \<Rightarrow> CourseRunEnrollment list op" where
  "list_enrollments sync_on_load client u =
     thenP (whenP sync_on_load (catchP (thenP (sync_enrollments_with_edx client u) (ret ())) (\<lambda>_. ret ())))
       (gets (\<lambda>s. filter (\<lambda>e. cre_active e \<and> cre_user e = u) (run_enrollments s)))"

section \<open>Course emails\<close>

text \<open>\<open>em_client\<close>: \<open>get_edx_api_client\<close>, which may find no credentials or raise; the other two are the calls
  of the client.\<close>

record edx_emails =
  em_client :: "nat \<Rightarrow> exn + bool"
  em_subscribe :: "nat \<Rightarrow> string \<Rightarrow> exn + bool"
  em_unsubscribe :: "nat \<Rightarrow> string \<Rightarrow> exn + bool"

fun email_settings_result :: "exn + bool \<Rightarrow> exn + bool option" where
  "email_settings_result (Inl (HTTPError r)) = Inl EdxApiEmailSettingsErrorException"
| "email_settings_result (Inl e) = Inl UnknownEdxApiEmailSettingsException"
| "email_settings_result (Inr b) = Inr (Some b)"

definition subscribe_to_edx_course_emails :: "edx_emails \<Rightarrow> nat \<Rightarrow> CourseRun \<Rightarrow> exn + bool option" where
  "subscribe_to_edx_course_emails em u r =
     bindE (em_client em u) (\<lambda>ready. if \<not> ready then Inr None
       else email_settings_result (em_subscribe em u (run_courseware_id r)))"

definition unsubscribe_from_edx_course_emails :: "edx_emails \<Rightarrow> nat \<Rightarrow> CourseRun \<Rightarrow> exn + bool option" where
  "unsubscribe_from_edx_course_emails em u r =
     bindE (em_client em u) (\<lambda>ready. if \<not> ready then Inr None
       else email_settings_result (em_unsubscribe em u (run_courseware_id r)))"

text \<open>\<open>if subscribed:\<close> both no client and a refusal leave the row alone.\<close>

definition subscribe_edx_course_emails :: "edx_emails \<Rightarrow> nat \<Rightarrow> unit op" where
  "subscribe_edx_course_emails em i =
     bindP (liftE (\<lambda>s. get_one (filter (\<lambda>e. cre_active e \<and> cre_id e = i) (run_enrollments s)))) (\<lambda>e.
     bindP (liftE (\<lambda>_. subscribe_to_edx_course_emails em (cre_user e) (cre_run e))) (\<lambda>subscribed.
     whenP (subscribed = Some True) (save_run_enrollment (e\<lparr>cre_edx_emails_subscription := True\<rparr>))))"

definition settings_error :: "exn \<Rightarrow> bool" where
  "settings_error e = (case e of
      EdxApiEmailSettingsErrorException \<Rightarrow> True | UnknownEdxApiEmailSettingsException \<Rightarrow> True
    | NoEdxApiAuthError \<Rightarrow> True | HTTPError _ \<Rightarrow> True | ConnectionError \<Rightarrow> True | _ \<Rightarrow> False)"

text \<open>The email preference of an enrollment: 200 or 400.\<close>

definition partial_update :: "edx_emails \<Rightarrow> nat \<Rightarrow> nat \<Rightarrow> bool option \<Rightarrow> nat op" where
  "partial_update em u i receive_emails =
     bindP (liftE (\<lambda>s. get_one (filter (\<lambda>e. cre_active e \<and> cre_user e = u \<and> cre_id e = i) (run_enrollments s)))) (\<lambda>e.
     case receive_emails of
       None \<Rightarrow> raise PyNotImplementedError
     | Some receive \<Rightarrow>
         atomicP (catchP
           (bindP (liftE (\<lambda>_. if receive then subscribe_to_edx_course_emails em u (cre_run e)
                              else unsubscribe_from_edx_course_emails em u (cre_run e))) (\<lambda>response.
            thenP (save_run_enrollment (e\<lparr>cre_edx_emails_subscription :=
                     (if receive then response = Some True else response \<noteq> Some True)\<rparr>))
              (ret 200)))
           (\<lambda>err. if settings_error err then ret 400 else raise err)))"

text \<open>Leaving a course run from the dashboard: 204, or 400 where edX refused.\<close>

definition destroy_enrollment :: "edx \<Rightarrow> nat \<Rightarrow> nat \<Rightarrow> nat op" where
  "destroy_enrollment x u i =
     bindP (liftE (\<lambda>s. get_one (filter (\<lambda>e. cre_active e \<and> cre_user e = u \<and> cre_id e = i) (run_enrollments s)))) (\<lambda>e.
     bindP (gets (\<lambda>s. set_ignore_edx_failures (conf s))) (\<lambda>keep.
     bindP (deactivate_run_enrollment x e status_unenrolled (Some keep) True) (\<lambda>res.
     ret (if res = None then 400 else 204))))"

section \<open>The webhooks of the edX plugin\<close>

text \<open>\<open>email__iexact\<close> finds at most one user where the table is as its constraint wants it.\<close>

definition user_with_email :: "AppUser list \<Rightarrow> string \<Rightarrow> exn + nat" where
  "user_with_email accounts_table email =
     (case get_one (filter (\<lambda>a. iexact (au_email a) email) accounts_table) of Inl e \<Rightarrow> Inl e | Inr a \<Rightarrow> Inr (au_id a))"

definition run_with_courseware_id :: "db \<Rightarrow> string \<Rightarrow> exn + CourseRun" where
  "run_with_courseware_id s i = get_one (filter (\<lambda>r. run_courseware_id r = i) (usable_runs s))"

text \<open>Status codes: 400 for a missing field or a failure, 404 for an unknown user or run, 201 for a new
  enrollment, 200 for one that was there.\<close>

definition edx_enrollment_webhook :: "AppUser list \<Rightarrow> string option \<Rightarrow> string option \<Rightarrow> nat op" where
  "edx_enrollment_webhook accounts_table email course_id =
     (if \<not> has_text email \<or> \<not> has_text course_id then ret 400
      else (case user_with_email accounts_table (the email) of
          Inl e \<Rightarrow> if e = ObjectDoesNotExist then ret 404 else raise e
        | Inr u \<Rightarrow>
            bindP (gets (\<lambda>s. run_with_courseware_id s (the course_id))) (\<lambda>found.
            case found of
              Inl e \<Rightarrow> if e = ObjectDoesNotExist then ret 404 else raise e
            | Inr r \<Rightarrow> catchP
                (bindP (create_local_enrollment u r audit_mode) (\<lambda>(_, created). ret (if created then 201 else 200)))
                (\<lambda>_. ret 400))))"

definition edx_certificate_webhook :: "grade_services \<Rightarrow> AppUser list \<Rightarrow> string option \<Rightarrow> string option \<Rightarrow> nat op" where
  "edx_certificate_webhook gs accounts_table email course_id =
     (if \<not> has_text email \<or> \<not> has_text course_id then ret 400
      else (case user_with_email accounts_table (the email) of
          Inl e \<Rightarrow> if e = ObjectDoesNotExist then ret 404 else raise e
        | Inr u \<Rightarrow>
            bindP (gets (\<lambda>s. run_with_courseware_id s (the course_id))) (\<lambda>found.
            case found of
              Inl e \<Rightarrow> if e = ObjectDoesNotExist then ret 404 else raise e
            | Inr r \<Rightarrow>
                bindP (gets (\<lambda>s. exists_row (\<lambda>c. for_run u r c \<and> active_certificate s c) (run_certificates s))) (\<lambda>issued.
                if issued then ret 200
                else bindP (gets (\<lambda>s. find_user s u)) (\<lambda>row. case row of
                    None \<Rightarrow> raise ObjectDoesNotExist
                  | Some v \<Rightarrow> thenP (generate_course_run_certificates gs (Some v) (Some r) True) (ret 200))))))"

section \<open>What a synchronisation leaves behind\<close>

text \<open>The specification: each enrollment of the user takes the flag that edX reports for its run.\<close>

definition synced :: "(string \<times> bool) list \<Rightarrow> CourseRunEnrollment \<Rightarrow> CourseRunEnrollment" where
  "synced edx e = (case map_of edx (cre_courseware e) of
      None \<Rightarrow> e
    | Some a \<Rightarrow> if cre_active e = a then e
        else e\<lparr>cre_active := a, cre_change_status := (if a then None else Some status_unenrolled)\<rparr>)"

definition synced_row :: "nat \<Rightarrow> (string \<times> bool) list \<Rightarrow> CourseRunEnrollment \<Rightarrow> CourseRunEnrollment" where
  "synced_row u edx e = (if cre_user e = u then synced edx e else e)"

lemma synced_same [simp]:
  "cre_courseware (synced edx e) = cre_courseware e" "cre_user (synced edx e) = cre_user e"
  "cre_id (synced edx e) = cre_id e" "cre_run (synced edx e) = cre_run e"
  by (simp_all add: synced_def cre_courseware_def split: option.splits)

lemma synced_row_same [simp]:
  "cre_courseware (synced_row u edx e) = cre_courseware e" "cre_user (synced_row u edx e) = cre_user e"
  "cre_id (synced_row u edx e) = cre_id e" "cre_run (synced_row u edx e) = cre_run e"
  by (simp_all add: synced_row_def)

lemma synced_active: "map_of edx (cre_courseware e) = Some a \<Longrightarrow> cre_active (synced edx e) = a"
  by (simp add: synced_def)

lemma synced_again [simp]: "synced edx (synced edx e) = synced edx e"
  by (auto simp: synced_def cre_courseware_def split: option.splits)

lemma synced_row_again [simp]: "synced_row u edx (synced_row u edx e) = synced_row u edx e"
  by (simp add: synced_row_def)

text \<open>One common id: its row is replaced, and nothing is reported where the flags agreed.\<close>

lemma save_as_map:
  assumes "distinct (map cre_id xs)" "e \<in> set xs" "cre_id e' = cre_id e"
  shows "update_rows (\<lambda>r. cre_id r = cre_id e') (\<lambda>_. e') xs = map (\<lambda>r. if r = e then e' else r) xs"
  unfolding update_rows_def
proof (rule map_cong [OF refl])
  fix r assume "r \<in> set xs"
  then show "(if cre_id r = cre_id e' then e' else r) = (if r = e then e' else r)"
    using assms by (auto simp: distinct_map dest: inj_onD)
qed

lemma sync_common_one_run:
  assumes ids: "distinct (map cre_id (run_enrollments s))"
    and e: "map_of local i = Some e" "e \<in> set (run_enrollments s)" "cre_courseware e = i"
    and a: "map_of edx i = Some a"
  shows "\<exists>res'. sync_common_one local edx res i s = (Inr res',
      s\<lparr>run_enrollments := map (\<lambda>r. if r = e then synced edx e else r) (run_enrollments s)\<rparr>)
    \<and> sr_created res' = sr_created res \<and> (synced edx e = e \<longrightarrow> res' = res)"
proof (cases "cre_active e = a")
  case True
  then have "synced edx e = e" using a e(3) by (simp add: synced_def)
  then have "map (\<lambda>r. if r = e then synced edx e else r) (run_enrollments s) = run_enrollments s"
    by (intro map_idI) simp
  then have same: "s\<lparr>run_enrollments := map (\<lambda>r. if r = e then synced edx e else r) (run_enrollments s)\<rparr> = s"
    by (simp only: ) simp
  have "sync_common_one local edx res i s = (Inr res, s)"
    using True a e(1) by (simp add: sync_common_one_def ret_def)
  then show ?thesis unfolding same by blast
next
  case False
  then have syn: "synced edx e = e\<lparr>cre_active := a, cre_change_status := (if a then None else Some status_unenrolled)\<rparr>"
    using a e by (simp add: synced_def)
  have rows: "update_rows (\<lambda>r. cre_id r = cre_id e) (\<lambda>_. synced edx e) (run_enrollments s) =
      map (\<lambda>r. if r = e then synced edx e else r) (run_enrollments s)"
    using save_as_map [OF ids e(2), of "synced edx e"] by simp
  have ne: "synced edx e \<noteq> e"
  proof
    assume "synced edx e = e"
    then have "cre_active e = a" using synced_active [of edx e a] a e(3) by simp
    then show False using False by simp
  qed
  have "\<exists>res'. sync_common_one local edx res i s = (Inr res',
      s\<lparr>run_enrollments := update_rows (\<lambda>r. cre_id r = cre_id e) (\<lambda>_. synced edx e) (run_enrollments s)\<rparr>)
    \<and> sr_created res' = sr_created res"
    unfolding syn using False a e(1)
    by (cases a) (simp_all add: sync_common_one_def deactivate_and_save_def reactivate_and_save_def
        save_run_enrollment_def bindP_def thenP_def modify_def ret_def Let_def)
  then show ?thesis unfolding rows using ne by blast
qed

lemma sync_common_run:
  assumes "distinct (map cre_id (run_enrollments s))" "distinct ids"
    and "\<forall>i \<in> set ids. \<exists>e a. map_of local i = Some e \<and> map_of edx i = Some a
      \<and> e \<in> set (run_enrollments s) \<and> cre_courseware e = i"
  shows "\<exists>res'. foldP (sync_common_one local edx) res ids s = (Inr res', s\<lparr>run_enrollments :=
      map (\<lambda>r. if cre_courseware r \<in> set ids \<and> map_of local (cre_courseware r) = Some r then synced edx r else r)
        (run_enrollments s)\<rparr>)
    \<and> sr_created res' = sr_created res
    \<and> ((\<forall>i e. i \<in> set ids \<longrightarrow> map_of local i = Some e \<longrightarrow> synced edx e = e) \<longrightarrow> res' = res)"
  using assms
proof (induction ids arbitrary: s res)
  case Nil
  then show ?case by (simp add: ret_def)
next
  case (Cons i ids)
  obtain e a where e: "map_of local i = Some e" "map_of edx i = Some a" "e \<in> set (run_enrollments s)" "cre_courseware e = i"
    using bspec [OF Cons.prems(3), of i] by auto
  let ?s = "s\<lparr>run_enrollments := map (\<lambda>r. if r = e then synced edx e else r) (run_enrollments s)\<rparr>"
  obtain r1 where one: "sync_common_one local edx res i s = (Inr r1, ?s)" "sr_created r1 = sr_created res"
      "synced edx e = e \<longrightarrow> r1 = res"
    using sync_common_one_run [OF Cons.prems(1) e(1) e(3) e(4) e(2)] by blast
  have "map cre_id (run_enrollments ?s) = map cre_id (run_enrollments s)" by (auto simp: comp_def)
  then have d1: "distinct (map cre_id (run_enrollments ?s))" using Cons.prems(1) by (simp only:)
  have d2: "distinct ids" using Cons.prems(2) by simp
  have rest: "\<forall>j \<in> set ids. \<exists>f b. map_of local j = Some f \<and> map_of edx j = Some b
      \<and> f \<in> set (run_enrollments ?s) \<and> cre_courseware f = j"
  proof
    fix j assume j: "j \<in> set ids"
    then have "j \<in> set (i # ids)" by simp
    from bspec [OF Cons.prems(3) this] obtain f b where
      f: "map_of local j = Some f" "map_of edx j = Some b" "f \<in> set (run_enrollments s)" "cre_courseware f = j" by blast
    have "f \<noteq> e" using j Cons.prems(2) f(4) e(4) by auto
    then have "f \<in> set (run_enrollments ?s)" using f(3) by force
    then show "\<exists>f b. map_of local j = Some f \<and> map_of edx j = Some b
      \<and> f \<in> set (run_enrollments ?s) \<and> cre_courseware f = j" using f by blast
  qed
  let ?G = "\<lambda>ids r. if cre_courseware r \<in> set ids \<and> map_of local (cre_courseware r) = Some r then synced edx r else r"
  obtain r2 where two: "foldP (sync_common_one local edx) r1 ids ?s = (Inr r2, ?s\<lparr>run_enrollments :=
        map (?G ids) (run_enrollments ?s)\<rparr>)" "sr_created r2 = sr_created r1"
      "(\<forall>i e. i \<in> set ids \<longrightarrow> map_of local i = Some e \<longrightarrow> synced edx e = e) \<longrightarrow> r2 = r1"
    using Cons.IH [where s = ?s and res = r1, OF d1 d2 rest] by (elim exE conjE) blast
  have point: "?G ids (if r = e then synced edx e else r) = ?G (i # ids) r" for r
    using Cons.prems(2) e(1,4) by auto
  have "map (?G ids) (run_enrollments ?s) = map (?G (i # ids)) (run_enrollments s)"
    by (simp add: comp_def point del: list.set)
  then have "foldP (sync_common_one local edx) res (i # ids) s =
      (Inr r2, s\<lparr>run_enrollments := map (?G (i # ids)) (run_enrollments s)\<rparr>)"
    using one(1) two(1) by (simp add: bindP_Inr)
  moreover have "sr_created r2 = sr_created res" using one(2) two(2) by simp
  moreover have "(\<forall>j f. j \<in> set (i # ids) \<longrightarrow> map_of local j = Some f \<longrightarrow> synced edx f = f) \<longrightarrow> r2 = res"
    using one(3) two(3) e(1) by simp
  ultimately show ?case by blast
qed

text \<open>The new rows: one for each run that only edX knew, in the order of the runs.\<close>

definition edx_only_runs :: "db \<Rightarrow> nat \<Rightarrow> (string \<times> bool) list \<Rightarrow> CourseRun list" where
  "edx_only_runs s u edx = filter (\<lambda>r. run_courseware_id r \<in> fst ` set edx
     \<and> \<not> exists_row (\<lambda>e. cre_user e = u \<and> cre_courseware e = run_courseware_id r) (run_enrollments s)) (usable_runs s)"

definition mirrors :: "(string \<times> bool) list \<Rightarrow> nat \<Rightarrow> CourseRun \<Rightarrow> CourseRunEnrollment \<Rightarrow> bool" where
  "mirrors edx u r e \<longleftrightarrow> cre_user e = u \<and> cre_run e = r \<and> map_of edx (run_courseware_id r) = Some (cre_active e)
     \<and> cre_edx_enrolled e \<and> cre_enrollment_mode e = audit_mode \<and> cre_change_status e = None"

lemma create_synced_run:
  assumes "\<forall>r \<in> set rs. run_courseware_id r \<in> fst ` set edx" "distinct (map run_id rs)"
    and "\<forall>r \<in> set rs. \<not> exists_row (\<lambda>e. cre_key e = (u, run_id r)) (run_enrollments s)"
    and "\<forall>e \<in> set (run_enrollments s). cre_id e < next_id s" "distinct (map cre_id (run_enrollments s))"
  shows "\<exists>res' t new. foldP (create_synced u edx) res rs s = (Inr res', t)
    \<and> run_enrollments t = run_enrollments s @ new \<and> list_all2 (mirrors edx u) rs new
    \<and> res' = res\<lparr>sr_created := sr_created res @ new\<rparr> \<and> course_runs t = course_runs s
    \<and> distinct (map cre_id (run_enrollments t)) \<and> (\<forall>e \<in> set (run_enrollments t). cre_id e < next_id t)
    \<and> (rs = [] \<longrightarrow> t = s)"
  using assms
proof (induction rs arbitrary: s res)
  case Nil
  then show ?case by (simp add: ret_def)
next
  case (Cons r rs)
  obtain a where a: "map_of edx (run_courseware_id r) = Some a"
    using Cons.prems(1) by (metis list.set_intros(1) map_of_eq_None_iff option.exhaust)
  define e where "e = \<lparr>cre_id = next_id s, cre_user = u, cre_run = r, cre_change_status = None,
                        cre_active = a, cre_enrollment_mode = audit_mode, cre_edx_enrolled = True,
                        cre_edx_emails_subscription = True, cre_retry_count = 0, cre_created_on = now s\<rparr>"
  define s1 where "s1 = s\<lparr>run_enrollments := run_enrollments s @ [e], next_id := Suc (next_id s)\<rparr>"
  define r1 where "r1 = res\<lparr>sr_created := sr_created res @ [e]\<rparr>"
  have one: "create_synced u edx res r s = (Inr r1, s1)"
    using a Cons.prems(3) by (simp add: create_synced_def s1_def r1_def e_def Let_def)
  have fresh: "\<forall>q \<in> set rs. \<not> exists_row (\<lambda>e. cre_key e = (u, run_id q)) (run_enrollments s1)"
  proof
    fix q assume q: "q \<in> set rs"
    then have "run_id q \<in> run_id ` set rs" by blast
    then have "run_id q \<noteq> run_id r" using Cons.prems(2) by auto
    then show "\<not> exists_row (\<lambda>e. cre_key e = (u, run_id q)) (run_enrollments s1)"
      using Cons.prems(3) q by (auto simp: s1_def e_def cre_key_def exists_row_iff)
  qed
  have ids: "\<forall>x \<in> set (run_enrollments s1). cre_id x < next_id s1" "distinct (map cre_id (run_enrollments s1))"
    using Cons.prems(4,5) by (auto simp: s1_def e_def less_Suc_eq)
  have "\<forall>r \<in> set rs. run_courseware_id r \<in> fst ` set edx" "distinct (map run_id rs)"
    using Cons.prems(1,2) by auto
  from Cons.IH [where s = s1 and res = r1, OF this fresh ids] obtain res' t new where
    two: "foldP (create_synced u edx) r1 rs s1 = (Inr res', t)"
      "run_enrollments t = run_enrollments s1 @ new" "list_all2 (mirrors edx u) rs new"
      "res' = r1\<lparr>sr_created := sr_created r1 @ new\<rparr>" "course_runs t = course_runs s1"
      "distinct (map cre_id (run_enrollments t))" "\<forall>e \<in> set (run_enrollments t). cre_id e < next_id t" by blast
  have "mirrors edx u r e" using a by (simp add: mirrors_def e_def)
  then have "list_all2 (mirrors edx u) (r # rs) (e # new)" using two(3) by simp
  moreover have "run_enrollments t = run_enrollments s @ (e # new)" using two(2) by (simp add: s1_def)
  moreover have "res' = res\<lparr>sr_created := sr_created res @ (e # new)\<rparr>" using two(4) by (simp add: r1_def)
  moreover have "foldP (create_synced u edx) res (r # rs) s = (Inr res', t)"
    using one two(1) by (simp add: bindP_Inr)
  moreover have "course_runs t = course_runs s" using two(5) by (simp add: s1_def)
  ultimately show ?case using two(6,7) by blast
qed

text \<open>What the tables guarantee: a run has one courseware id, and a courseware id one run.\<close>

definition syncable :: "db \<Rightarrow> nat \<Rightarrow> bool" where
  "syncable s u \<longleftrightarrow> enrollments_ok s
     \<and> distinct (map cre_courseware (filter (\<lambda>e. cre_user e = u) (run_enrollments s)))
     \<and> distinct (map run_id (course_runs s)) \<and> distinct (map run_courseware_id (course_runs s))
     \<and> list_all (\<lambda>r. list_all (\<lambda>e. run_id (cre_run e) = run_id r \<longrightarrow> cre_courseware e = run_courseware_id r)
          (run_enrollments s)) (course_runs s)"

lemma map_of_local:
  assumes "distinct (map cre_courseware (filter (\<lambda>e. cre_user e = u) (run_enrollments s)))"
  shows "map_of (local_enrollments s u) i = Some e \<longleftrightarrow>
    e \<in> set (run_enrollments s) \<and> cre_user e = u \<and> cre_courseware e = i"
proof -
  have "distinct (map fst (local_enrollments s u))"
    using assms by (simp add: local_enrollments_def rev_map [symmetric] comp_def)
  then have "map_of (local_enrollments s u) i = Some e \<longleftrightarrow> (i, e) \<in> set (local_enrollments s u)" by simp
  then show ?thesis by (auto simp: local_enrollments_def)
qed

lemma local_ids: "set (map fst (local_enrollments s u)) =
    cre_courseware ` {e \<in> set (run_enrollments s). cre_user e = u}"
  by (force simp: local_enrollments_def)

lemma sync_run:
  assumes ok: "syncable s u"
  shows "\<exists>res t new. sync_enrollments_with_edx (Inr (Some (Inr edx))) u s = (Inr res, t)
    \<and> run_enrollments t = map (synced_row u edx) (run_enrollments s) @ new
    \<and> list_all2 (mirrors edx u) (edx_only_runs s u edx) new \<and> course_runs t = course_runs s
    \<and> sr_created res = new \<and> distinct (map cre_id (run_enrollments t))
    \<and> (\<forall>e \<in> set (run_enrollments t). cre_id e < next_id t)
    \<and> (edx_only_runs s u edx = [] \<longrightarrow> map (synced_row u edx) (run_enrollments s) = run_enrollments s \<longrightarrow>
         res = no_sync \<and> t = s)"
proof -
  let ?local = "local_enrollments s u"
  let ?common = "filter (\<lambda>x. x \<in> set (map fst edx)) (remdups (map fst ?local))"
  have ids: "distinct (map cre_id (run_enrollments s))" "\<forall>e \<in> set (run_enrollments s). cre_id e < next_id s"
    and keys: "distinct (map cre_key (run_enrollments s))"
    and cids: "distinct (map cre_courseware (filter (\<lambda>e. cre_user e = u) (run_enrollments s)))"
    using ok by (simp_all add: syncable_def enrollments_ok_def)
  have pre: "\<forall>i \<in> set ?common. \<exists>e a. map_of ?local i = Some e \<and> map_of edx i = Some a
      \<and> e \<in> set (run_enrollments s) \<and> cre_courseware e = i"
  proof
    fix i assume "i \<in> set ?common"
    then have "i \<in> set (map fst ?local)" and e2: "i \<in> fst ` set edx" by auto
    then obtain e where "e \<in> set (run_enrollments s)" "cre_user e = u" "cre_courseware e = i"
      unfolding local_ids by auto
    moreover obtain a where "map_of edx i = Some a" using e2 by (metis map_of_eq_None_iff option.exhaust)
    ultimately show "\<exists>e a. map_of ?local i = Some e \<and> map_of edx i = Some a
      \<and> e \<in> set (run_enrollments s) \<and> cre_courseware e = i" using map_of_local [OF cids] by blast
  qed
  have point: "(if cre_courseware r \<in> set ?common \<and> map_of ?local (cre_courseware r) = Some r then synced edx r else r)
      = synced_row u edx r" if "r \<in> set (run_enrollments s)" for r
  proof (cases "cre_user r = u \<and> cre_courseware r \<in> fst ` set edx")
    case True
    then have "cre_courseware r \<in> set (map fst ?local)" using that unfolding local_ids by blast
    then show ?thesis using True that map_of_local [OF cids] by (simp add: synced_row_def)
  next
    case False
    then show ?thesis using map_of_local [OF cids]
      by (auto simp: synced_row_def synced_def split: option.splits dest!: map_of_SomeD)
         (metis fst_conv image_eqI)+
  qed
  define s1 where "s1 = s\<lparr>run_enrollments := map (synced_row u edx) (run_enrollments s)\<rparr>"
  have rows: "map (\<lambda>r. if cre_courseware r \<in> set ?common \<and> map_of ?local (cre_courseware r) = Some r
      then synced edx r else r) (run_enrollments s) = map (synced_row u edx) (run_enrollments s)"
    by (rule map_cong [OF refl point])
  from sync_common_run [where res = no_sync, OF ids(1) _ pre, unfolded rows] obtain r1 where
    one: "foldP (sync_common_one ?local edx) no_sync ?common s = (Inr r1, s1)" "sr_created r1 = []"
      "(\<forall>i e. i \<in> set ?common \<longrightarrow> map_of ?local i = Some e \<longrightarrow> synced edx e = e) \<longrightarrow> r1 = no_sync"
    by (auto simp: s1_def no_sync_def)
  let ?only = "filter (\<lambda>y. y \<notin> set ?common) (map fst edx)"
  have s1: "usable_runs s1 = usable_runs s" "course_runs s1 = course_runs s" "next_id s1 = next_id s"
    by (simp_all add: s1_def usable_runs_def)
  have only: "filter (\<lambda>r. run_courseware_id r \<in> set ?only) (usable_runs s1) = edx_only_runs s u edx"
    unfolding edx_only_runs_def s1(1)
  proof (rule filter_cong [OF refl])
    fix r
    have "run_courseware_id r \<in> set (map fst ?local) \<longleftrightarrow>
        exists_row (\<lambda>e. cre_user e = u \<and> cre_courseware e = run_courseware_id r) (run_enrollments s)"
      unfolding local_ids exists_row_iff by force
    then show "run_courseware_id r \<in> set ?only \<longleftrightarrow> run_courseware_id r \<in> fst ` set edx \<and>
        \<not> exists_row (\<lambda>e. cre_user e = u \<and> cre_courseware e = run_courseware_id r) (run_enrollments s)"
      by auto
  qed
  have rs: "\<forall>r \<in> set (edx_only_runs s u edx). run_courseware_id r \<in> fst ` set edx"
      "distinct (map run_id (edx_only_runs s u edx))"
    using ok by (auto simp: edx_only_runs_def usable_runs_def syncable_def distinct_map_filter)
  have none: "\<forall>r \<in> set (edx_only_runs s u edx). \<not> exists_row (\<lambda>e. cre_key e = (u, run_id r)) (run_enrollments s1)"
  proof
    fix r assume r: "r \<in> set (edx_only_runs s u edx)"
    then have mem: "r \<in> set (course_runs s)" by (simp add: edx_only_runs_def usable_runs_def)
    show "\<not> exists_row (\<lambda>e. cre_key e = (u, run_id r)) (run_enrollments s1)"
    proof
      assume "exists_row (\<lambda>e. cre_key e = (u, run_id r)) (run_enrollments s1)"
      then obtain e where e: "e \<in> set (run_enrollments s)" "cre_user e = u" "run_id (cre_run e) = run_id r"
        by (auto simp: exists_row_iff s1_def cre_key_def)
      then have "cre_courseware e = run_courseware_id r"
        using ok mem by (auto simp: syncable_def list_all_iff)
      then show False using r e by (auto simp: edx_only_runs_def exists_row_iff)
    qed
  qed
  have "\<forall>e \<in> set (run_enrollments s1). cre_id e < next_id s1" "distinct (map cre_id (run_enrollments s1))"
    using ids by (auto simp: s1_def s1(3) comp_def)
  from create_synced_run [where res = r1, OF rs none this] obtain res t new where
    two: "foldP (create_synced u edx) r1 (edx_only_runs s u edx) s1 = (Inr res, t)"
      "run_enrollments t = run_enrollments s1 @ new" "list_all2 (mirrors edx u) (edx_only_runs s u edx) new"
      "res = r1\<lparr>sr_created := sr_created r1 @ new\<rparr>" "course_runs t = course_runs s1"
      "distinct (map cre_id (run_enrollments t))" "edx_only_runs s u edx = [] \<longrightarrow> t = s1"
      "\<forall>e \<in> set (run_enrollments t). cre_id e < next_id t"
    by blast
  have run: "sync_enrollments_with_edx (Inr (Some (Inr edx))) u s = (Inr res, t)"
    using one(1) two(1)
    by (simp add: sync_enrollments_with_edx_def get_partitioned_set_difference_def bindP_Inr only [simplified])
  have quiet: "res = no_sync \<and> t = s"
    if none: "edx_only_runs s u edx = []" and same: "map (synced_row u edx) (run_enrollments s) = run_enrollments s"
  proof -
    have "synced edx e = e" if "map_of ?local i = Some e" for i e
    proof -
      have e: "e \<in> set (run_enrollments s)" "cre_user e = u" using that map_of_local [OF cids] by auto
      have "map (synced_row u edx) (run_enrollments s) = map (\<lambda>x. x) (run_enrollments s)" using same by simp
      then have "synced_row u edx e = e" using e(1) by (simp only: map_eq_conv)
      then show ?thesis using e(2) by (simp add: synced_row_def)
    qed
    then have "r1 = no_sync" using one(3) by blast
    moreover have "s1 = s" unfolding s1_def same by simp
    moreover have "new = []" using two(3) none by simp
    ultimately show ?thesis using two(4,7) none by (simp add: no_sync_def)
  qed
  show ?thesis
  proof (intro exI conjI impI ballI)
    show "sync_enrollments_with_edx (Inr (Some (Inr edx))) u s = (Inr res, t)" by (rule run)
    show "run_enrollments t = map (synced_row u edx) (run_enrollments s) @ new" using two(2) by (simp add: s1_def)
    show "list_all2 (mirrors edx u) (edx_only_runs s u edx) new" by (rule two(3))
    show "course_runs t = course_runs s" using two(5) s1(2) by simp
    show "sr_created res = new" using two(4) one(2) by simp
    show "distinct (map cre_id (run_enrollments t))" by (rule two(6))
    show "\<And>e. e \<in> set (run_enrollments t) \<Longrightarrow> cre_id e < next_id t" using two(8) by blast
  qed (use quiet in auto)
qed

lemma sync_rows:
  assumes ok: "syncable s u" and run: "sync_enrollments_with_edx (Inr (Some (Inr edx))) u s = (res, t)"
  obtains new where "run_enrollments t = map (synced_row u edx) (run_enrollments s) @ new"
    "list_all2 (mirrors edx u) (edx_only_runs s u edx) new" "course_runs t = course_runs s"
    "distinct (map cre_id (run_enrollments t))" "\<forall>e \<in> set (run_enrollments t). cre_id e < next_id t"
  using sync_run [OF ok, of edx] run by (elim exE conjE) (simp only: prod.inject)

lemma mirrors_runs: "list_all2 (mirrors edx u) rs new \<Longrightarrow> map cre_run new = rs"
  by (induction rs new rule: list_all2_induct) (simp_all add: mirrors_def)

lemma mirrors_all: "list_all2 (mirrors edx u) rs new \<Longrightarrow> e \<in> set new \<Longrightarrow> mirrors edx u (cre_run e) e"
  by (induction rs new rule: list_all2_induct) (auto simp: mirrors_def)

text \<open>Afterwards the flags are those of edX, and each run of edX that can be used has an enrollment.\<close>

lemma sync_agrees:
  assumes ok: "syncable s u" and run: "sync_enrollments_with_edx (Inr (Some (Inr edx))) u s = (res, t)"
    and a: "map_of edx i = Some a"
  shows "(\<forall>e \<in> set (run_enrollments t). cre_user e = u \<longrightarrow> cre_courseware e = i \<longrightarrow> cre_active e = a)
    \<and> (\<forall>r \<in> set (usable_runs t). run_courseware_id r = i \<longrightarrow>
         exists_row (\<lambda>e. cre_user e = u \<and> cre_courseware e = i) (run_enrollments t))"
proof -
  obtain new where rows: "run_enrollments t = map (synced_row u edx) (run_enrollments s) @ new"
    and new: "list_all2 (mirrors edx u) (edx_only_runs s u edx) new" and runs: "course_runs t = course_runs s"
    by (rule sync_rows [OF ok run])
  have "cre_active e = a" if e: "e \<in> set (run_enrollments t)" "cre_user e = u" "cre_courseware e = i" for e
  proof (cases "e \<in> set new")
    case True
    then show ?thesis using mirrors_all [OF new] a e by (auto simp: mirrors_def cre_courseware_def)
  next
    case False
    then obtain x where "e = synced_row u edx x" using e(1) rows by auto
    then show ?thesis using e a synced_active [of edx x a] by (auto simp: synced_row_def)
  qed
  moreover have "exists_row (\<lambda>e. cre_user e = u \<and> cre_courseware e = i) (run_enrollments t)"
    if r: "r \<in> set (usable_runs t)" "run_courseware_id r = i" for r
  proof (cases "exists_row (\<lambda>e. cre_user e = u \<and> cre_courseware e = i) (run_enrollments s)")
    case True
    then obtain x where "x \<in> set (run_enrollments s)" "cre_user x = u" "cre_courseware x = i" by (auto simp: exists_row_iff)
    then show ?thesis unfolding exists_row_iff rows by (intro bexI [where x = "synced_row u edx x"]) auto
  next
    case False
    have "i \<in> fst ` set edx" using a by (metis map_of_SomeD fst_conv image_eqI)
    then have "r \<in> set (edx_only_runs s u edx)"
      using r False runs by (simp add: edx_only_runs_def usable_runs_def)
    then obtain e where e: "e \<in> set new" "cre_run e = r"
      using mirrors_runs [OF new] by (metis (no_types, lifting) in_set_conv_nth length_map nth_map)
    then have "cre_user e = u" "cre_courseware e = i"
      using mirrors_all [OF new e(1)] r by (simp_all add: mirrors_def cre_courseware_def)
    then show ?thesis using e(1) unfolding exists_row_iff rows by auto
  qed
  ultimately show ?thesis by blast
qed

lemma sync_syncable:
  assumes ok: "syncable s u" and run: "sync_enrollments_with_edx (Inr (Some (Inr edx))) u s = (res, t)"
  shows "syncable t u"
proof -
  obtain new where rows: "run_enrollments t = map (synced_row u edx) (run_enrollments s) @ new"
    and new: "list_all2 (mirrors edx u) (edx_only_runs s u edx) new" and runs: "course_runs t = course_runs s"
    and ids: "distinct (map cre_id (run_enrollments t))" "\<forall>e \<in> set (run_enrollments t). cre_id e < next_id t"
    by (rule sync_rows [OF ok run])
  have d: "distinct (map run_id (course_runs s))" "distinct (map run_courseware_id (course_runs s))"
    and keys: "distinct (map cre_key (run_enrollments s))"
    and cids: "distinct (map cre_courseware (filter (\<lambda>e. cre_user e = u) (run_enrollments s)))"
    and same: "\<And>r e. r \<in> set (course_runs s) \<Longrightarrow> e \<in> set (run_enrollments s) \<Longrightarrow> run_id (cre_run e) = run_id r \<Longrightarrow>
        cre_courseware e = run_courseware_id r"
    using ok by (auto simp: syncable_def enrollments_ok_def list_all_iff)
  have only: "r \<in> set (course_runs s)" "e \<in> set (run_enrollments s) \<Longrightarrow> cre_user e = u \<Longrightarrow>
      cre_courseware e \<noteq> run_courseware_id r" if "r \<in> set (edx_only_runs s u edx)" for r e
    using that by (auto simp: edx_only_runs_def usable_runs_def exists_row_iff)
  have mem: "cre_run e \<in> set (edx_only_runs s u edx)" "cre_user e = u" if "e \<in> set new" for e
  proof -
    show "cre_run e \<in> set (edx_only_runs s u edx)"
      using that unfolding mirrors_runs [OF new, symmetric] by simp
    show "cre_user e = u" using mirrors_all [OF new that] by (simp add: mirrors_def)
  qed
  have new_keys: "map cre_key new = map (\<lambda>r. (u, run_id r)) (edx_only_runs s u edx)"
    using new by (induction rule: list_all2_induct) (auto simp: mirrors_def cre_key_def)
  have new_cids: "map cre_courseware new = map run_courseware_id (edx_only_runs s u edx)"
    using new by (induction rule: list_all2_induct) (auto simp: mirrors_def cre_courseware_def)
  have old_keys: "map cre_key (map (synced_row u edx) (run_enrollments s)) = map cre_key (run_enrollments s)"
    by (simp add: cre_key_def)
  have users: "filter (\<lambda>e. cre_user e = u) (run_enrollments t) =
      map (synced_row u edx) (filter (\<lambda>e. cre_user e = u) (run_enrollments s)) @ new"
    using mem(2) by (simp add: rows filter_map comp_def)
  have sub: "distinct (map f (edx_only_runs s u edx))" if "distinct (map f (course_runs s))" for f :: "CourseRun \<Rightarrow> 'b"
    using that by (simp add: edx_only_runs_def usable_runs_def distinct_map_filter)
  have "distinct (map cre_key (run_enrollments t))"
  proof -
    have "inj_on (\<lambda>r. (u, run_id r)) (set (edx_only_runs s u edx))"
      using sub [OF d(1)] by (auto simp: distinct_map inj_on_def)
    then have "distinct (map cre_key new)" using sub [OF d(1)] by (simp add: new_keys distinct_map)
    moreover have "set (map cre_key (run_enrollments s)) \<inter> set (map cre_key new) = {}"
      unfolding new_keys using only same by (fastforce simp: cre_key_def)
    ultimately show ?thesis using keys unfolding rows map_append old_keys by simp
  qed
  moreover have "distinct (map cre_courseware (filter (\<lambda>e. cre_user e = u) (run_enrollments t)))"
  proof -
    have "distinct (map cre_courseware new)" unfolding new_cids by (rule sub [OF d(2)])
    moreover have "set (map cre_courseware (filter (\<lambda>e. cre_user e = u) (run_enrollments s))) \<inter> set (map cre_courseware new) = {}"
      unfolding new_cids using only by auto
    ultimately show ?thesis using cids unfolding users by (simp add: comp_def)
  qed
  moreover have "cre_courseware e = run_courseware_id r"
    if "r \<in> set (course_runs s)" "e \<in> set (run_enrollments t)" "run_id (cre_run e) = run_id r" for r e
  proof (cases "e \<in> set new")
    case True
    then have "cre_run e = r" using only(1) [OF mem(1) [OF True]] that(1,3) d(1) by (simp add: distinct_map inj_on_def)
    then show ?thesis by (simp add: cre_courseware_def)
  next
    case False
    with that(2) rows obtain x where "x \<in> set (run_enrollments s)" "e = synced_row u edx x" by auto
    then show ?thesis using same [OF that(1)] that(3) by simp
  qed
  ultimately show ?thesis using ids d by (simp add: syncable_def enrollments_ok_def runs list_all_iff)
qed

text \<open>A second synchronisation has nothing to do.\<close>

lemma sync_settled:
  assumes ok: "syncable s u" and run: "sync_enrollments_with_edx (Inr (Some (Inr edx))) u s = (res, t)"
  shows "sync_enrollments_with_edx (Inr (Some (Inr edx))) u t = (Inr no_sync, t)"
proof -
  have ok': "syncable t u" by (rule sync_syncable [OF ok run])
  obtain new where rows: "run_enrollments t = map (synced_row u edx) (run_enrollments s) @ new"
    and new: "list_all2 (mirrors edx u) (edx_only_runs s u edx) new" and runs: "course_runs t = course_runs s"
    by (rule sync_rows [OF ok run])
  have "synced_row u edx e = e" if "e \<in> set new" for e
    using mirrors_all [OF new that] by (auto simp: mirrors_def synced_row_def synced_def cre_courseware_def)
  then have "map (synced_row u edx) new = new" by (simp add: map_idI)
  then have settled: "map (synced_row u edx) (run_enrollments t) = run_enrollments t" by (simp add: rows comp_def)
  have "edx_only_runs t u edx = []"
  proof -
    have "exists_row (\<lambda>e. cre_user e = u \<and> cre_courseware e = run_courseware_id r) (run_enrollments t)"
      if "r \<in> set (usable_runs t)" "run_courseware_id r \<in> fst ` set edx" for r
    proof -
      have "map_of edx (run_courseware_id r) \<noteq> None" using that(2) by (simp add: map_of_eq_None_iff)
      then show ?thesis using sync_agrees [OF ok run] that(1) by blast
    qed
    then show ?thesis by (auto simp: edx_only_runs_def filter_empty_conv)
  qed
  then show ?thesis using sync_run [OF ok', of edx] settled by auto
qed

section \<open>The webhooks\<close>

text \<open>A revoked certificate stays revoked, whatever edX reports.\<close>

lemma keeps_revoked_webhook: "keeps (run_revoked u r) (edx_certificate_webhook gs as email course_id)"
  unfolding edx_certificate_webhook_def by (intro keeps_intro keeps_revoked_job)

text \<open>A local enrollment ends up active and enrolled in edX, in the mode it had.\<close>

definition settled :: "db \<Rightarrow> nat \<Rightarrow> CourseRun \<Rightarrow> string \<Rightarrow> CourseRunEnrollment \<Rightarrow> bool" where
  "settled s u r mode e \<longleftrightarrow> cre_key e = (u, run_id r) \<and> cre_active e \<and> cre_edx_enrolled e
     \<and> cre_enrollment_mode e = (case find_run_enrollment s (u, run_id r) of
          None \<Rightarrow> mode | Some e0 \<Rightarrow> cre_enrollment_mode e0)"

lemma reactivate_found:
  assumes "enrollments_ok s" "find_run_enrollment s k = Some e"
  shows "\<exists>t. reactivate_and_save e s = (Inr (e\<lparr>cre_active := True, cre_change_status := None\<rparr>), t) \<and> enrollments_ok t
    \<and> find_run_enrollment t = (find_run_enrollment s)(k \<mapsto> e\<lparr>cre_active := True, cre_change_status := None\<rparr>)"
proof -
  have k: "cre_key (e\<lparr>cre_active := True, cre_change_status := None\<rparr>) = k"
    using find_run_enrollment_Some [OF assms(2)] by (simp add: cre_key_def)
  from save_found [OF assms, of "e\<lparr>cre_active := True, cre_change_status := None\<rparr>"] k obtain t where
    "save_run_enrollment (e\<lparr>cre_active := True, cre_change_status := None\<rparr>) s = (Inr (), t)" "enrollments_ok t"
    "find_run_enrollment t = (find_run_enrollment s)(k \<mapsto> e\<lparr>cre_active := True, cre_change_status := None\<rparr>)"
    by auto
  then show ?thesis by (simp add: reactivate_and_save_def thenP_Inr ret_def Let_def)
qed

lemma create_local_ok:
  assumes ok: "enrollments_ok s"
  shows "\<exists>e t. create_local_enrollment u r mode s = (Inr (e, find_run_enrollment s (u, run_id r) = None), t)
    \<and> settled s u r mode e \<and> enrollments_ok t
    \<and> find_run_enrollment t = (find_run_enrollment s)((u, run_id r) \<mapsto> e)"
  using get_or_create_cases [OF ok, of u r None True mode]
proof (elim disjE exE conjE)
  fix e t
  assume "find_run_enrollment s (u, run_id r) = None" "get_or_create_run_enrollment u r None True mode s = (Inr (e, True), t)"
    "enrollments_ok t" "cre_key e = (u, run_id r)" "enrolled_as mode True e"
    "find_run_enrollment t = (find_run_enrollment s)((u, run_id r) \<mapsto> e)"
  then show ?thesis
    by (simp add: create_local_enrollment_def bindP_Inr ret_def settled_def enrolled_as_def)
next
  fix e
  assume e: "find_run_enrollment s (u, run_id r) = Some e"
    and go: "get_or_create_run_enrollment u r None True mode s = (Inr (e, False), s)"
  have key: "cre_key e = (u, run_id r)" using find_run_enrollment_Some [OF e] by simp
  obtain e1 t1 where one: "(if \<not> False \<and> \<not> cre_active e then reactivate_and_save e else ret e) s = (Inr e1, t1)"
      "enrollments_ok t1" "find_run_enrollment t1 = (find_run_enrollment s)((u, run_id r) \<mapsto> e1)"
      "cre_active e1" "cre_enrollment_mode e1 = cre_enrollment_mode e" "cre_key e1 = cre_key e" "cre_edx_enrolled e1 = cre_edx_enrolled e"
  proof (cases "cre_active e")
    case True
    then show ?thesis using that [of e s] ok e by (simp add: ret_def fun_upd_idem)
  next
    case False
    then show ?thesis using reactivate_found [OF ok e] that by (auto simp: cre_key_def)
  qed
  have run: "create_local_enrollment u r mode s = (if \<not> cre_edx_enrolled e1
      then thenP (save_run_enrollment (e1\<lparr>cre_edx_enrolled := True\<rparr>)) (ret (e1\<lparr>cre_edx_enrolled := True\<rparr>, False))
      else ret (e1, False)) t1"
    using one(1) by (simp add: create_local_enrollment_def bindP_Inr [where m = "get_or_create_run_enrollment u r None True mode", OF go]
        bindP_Inr Let_def)
  show ?thesis
  proof (cases "cre_edx_enrolled e1")
    case True
    then show ?thesis using run one key e by (simp add: ret_def settled_def)
  next
    case False
    have found: "find_run_enrollment t1 (u, run_id r) = Some e1" using one(3) by simp
    have "cre_key (e1\<lparr>cre_edx_enrolled := True\<rparr>) = (u, run_id r)" using one(6) key by (simp add: cre_key_def)
    with save_found [OF one(2) found, of "e1\<lparr>cre_edx_enrolled := True\<rparr>"] obtain t where
      t: "save_run_enrollment (e1\<lparr>cre_edx_enrolled := True\<rparr>) t1 = (Inr (), t)" "enrollments_ok t"
        "find_run_enrollment t = (find_run_enrollment t1)((u, run_id r) \<mapsto> e1\<lparr>cre_edx_enrolled := True\<rparr>)" by auto
    have "create_local_enrollment u r mode s = (Inr (e1\<lparr>cre_edx_enrolled := True\<rparr>, False), t)"
      using run False t(1) by (simp add: thenP_Inr ret_def)
    then show ?thesis using t(2,3) one key e by (simp add: settled_def cre_key_def)
  qed
qed

text \<open>So the webhook never fails on a known user and run: 201 for a new enrollment, 200 otherwise.\<close>

lemma enrollment_webhook_run:
  assumes ok: "enrollments_ok s" and given: "email \<noteq> []" "course_id \<noteq> []"
    and u: "user_with_email as email = Inr u" and r: "run_with_courseware_id s course_id = Inr r"
  shows "\<exists>e t. edx_enrollment_webhook as (Some email) (Some course_id) s =
      (Inr (if find_run_enrollment s (u, run_id r) = None then 201 else 200), t)
    \<and> settled s u r audit_mode e \<and> find_run_enrollment t = (find_run_enrollment s)((u, run_id r) \<mapsto> e)"
proof -
  obtain e t where e: "create_local_enrollment u r audit_mode s = (Inr (e, find_run_enrollment s (u, run_id r) = None), t)"
    "settled s u r audit_mode e" "find_run_enrollment t = (find_run_enrollment s)((u, run_id r) \<mapsto> e)"
    using create_local_ok [OF ok] by blast
  have "edx_enrollment_webhook as (Some email) (Some course_id) s =
      (Inr (if find_run_enrollment s (u, run_id r) = None then 201 else 200), t)"
    using given u r e(1) by (simp add: edx_enrollment_webhook_def catchP_def bindP_Inr ret_def)
  then show ?thesis using e(2,3) by blast
qed

end
