(* ===== verification/EnrollmentViews.thy ===== *)
theory EnrollmentViews
  imports PaidEnrollments Requirements EdxSync
begin

text \<open>
  The requests that enroll a learner and those that end an enrollment: the views of
  \<open>src/courses/views/v1\<close>, \<open>v2\<close> and \<open>v3\<close> and the serializers that create enrollments
  (\<open>src/courses/serializers/v1/courses.py\<close>, \<open>v2/courses.py\<close>, \<open>v3/courses.py\<close>, \<open>v3/programs.py\<close>).

  The views compose the operations of \<open>Enrollments\<close>, \<open>PendingOrders\<close>, \<open>PaidEnrollments\<close> and
  \<open>Requirements\<close>.
\<close>

section \<open>Enrolling from a form\<close>

datatype enroll_message = EnrollBlocked | EnrollDuplicated | Enrolled string | EnrollFailed

datatype enroll_page = ToReferer | ToUserDashboard | ApiReply bool

definition verified_enrollment_exists :: "db \<Rightarrow> nat \<Rightarrow> CourseRun \<Rightarrow> bool" where
  "verified_enrollment_exists s u r = exists_row (\<lambda>e. cre_active e \<and> cre_key e = (u, run_id r)
     \<and> cre_change_status e = None \<and> cre_enrollment_mode e = verified_mode) (run_enrollments s)"

definition validate_enrollment_post_request ::
  "db \<Rightarrow> User \<Rightarrow> nat option \<Rightarrow> (enroll_page \<times> enroll_message option) + CourseRun" where
  "validate_enrollment_post_request s user run_key =
     (case (case run_key of None \<Rightarrow> None | Some i \<Rightarrow> first (filter (\<lambda>r. run_id r = i) (usable_runs s))) of
        None \<Rightarrow> Inl (ToReferer, None)
      | Some r \<Rightarrow>
          if is_country_blocked (run_course r) user then Inl (ToReferer, Some EnrollBlocked)
          else if fulfilled_paid_course_run_exists s (usr_id user) r \<or> verified_enrollment_exists s (usr_id user) r
          then Inl (ToUserDashboard, Some EnrollDuplicated)
          else Inr r)"

text \<open>The fulfilled order for the run's product, or a new pending one, goes to HubSpot.\<close>

definition run_product :: "db \<Rightarrow> CourseRun \<Rightarrow> Product option" where
  "run_product s r = first (filter (\<lambda>p. prod_is_active p \<and> prod_content_type p = CT_CourseRun
     \<and> prod_object_id p = run_id r) (products s))"

definition fulfilled_order_of :: "db \<Rightarrow> nat \<Rightarrow> Product \<Rightarrow> Order option" where
  "fulfilled_order_of s u p =
     first (filter (\<lambda>r. ord_state r = FULFILLED \<and> ord_purchaser r = u
       \<and> exists_row (\<lambda>l. ln_purchased_object_id l = Some (prod_object_id p)
            \<and> ln_purchased_content_type l = Some (prod_content_type p)
            \<and> Some (ver_id (ln_product_version l)) = map_option ver_id (last_opt (versions_for s p)))
           (lines_of s (ord_id r))) (orders s))"

definition note_order :: "nat \<Rightarrow> CourseRun \<Rightarrow> unit op" where
  "note_order u r = bindP (gets (\<lambda>s. run_product s r)) (\<lambda>found.
     case found of
       None \<Rightarrow> ret ()
     | Some p \<Rightarrow>
         bindP (gets (\<lambda>s. fulfilled_order_of s u p)) (\<lambda>o1.
         case o1 of
           Some r \<Rightarrow> sync_hubspot_deal (ord_id r)
         | None \<Rightarrow> bindP (gets (\<lambda>s. set_default_gateway (conf s))) (\<lambda>g.
                   bindP (create_from_product p u None g) sync_hubspot_deal)))"

text \<open>\<open>edx_user\<close>: whether the user exists in edX; \<open>create_user\<close> creates it.\<close>

definition create_enrollment_view ::
  "edx \<Rightarrow> (nat \<Rightarrow> bool) \<Rightarrow> (User \<Rightarrow> unit op) \<Rightarrow> User \<Rightarrow> nat option \<Rightarrow> bool \<Rightarrow> (enroll_page \<times> enroll_message option) op" where
  "create_enrollment_view x edx_user create_user user run_key isapi =
     bindP (gets (\<lambda>s. validate_enrollment_post_request s user run_key)) (\<lambda>v.
     case v of
       Inl reply \<Rightarrow> ret reply
     | Inr r \<Rightarrow>
         thenP (whenP (\<not> edx_user (usr_id user)) (create_user user))
         (bindP (gets (\<lambda>s. set_ignore_edx_failures (conf s))) (\<lambda>ignore.
          bindP (create_run_enrollments x (usr_id user) [r] None (Some ignore) audit_mode) (\<lambda>(_, ok).
          if ok \<or> ignore
          then thenP (note_order (usr_id user) r)
                 (ret (if isapi then ApiReply True else ToUserDashboard, Some (Enrolled (crs_title (run_course r)))))
          else ret (if isapi then ApiReply True else ToReferer, Some EnrollFailed)))))"

section \<open>Enrolling through the API\<close>

text \<open>A seat: an active enrollment of the learner in the run.\<close>

definition holds_seat :: "db \<Rightarrow> nat \<Rightarrow> CourseRun \<Rightarrow> bool" where
  "holds_seat s u r = exists_row (\<lambda>e. cre_active e \<and> cre_key e = (u, run_id r)) (run_enrollments s)"

definition run_by_id :: "db \<Rightarrow> nat \<Rightarrow> exn + CourseRun" where
  "run_by_id s i = (case first (filter (\<lambda>r. run_id r = i) (usable_runs s)) of
      None \<Rightarrow> Inl ValidationError
    | Some r \<Rightarrow> if run_b2b_contract r \<noteq> None then Inl ValidationError else Inr r)"

text \<open>\<open>create\<close> of the serializers of the versions 1 and 2, and of version 3.\<close>

definition serializer_create :: "edx \<Rightarrow> nat \<Rightarrow> nat \<Rightarrow> CourseRunEnrollment option op" where
  "serializer_create x u i =
     bindP (liftE (\<lambda>s. run_by_id s i)) (\<lambda>r.
     bindP (gets (\<lambda>s. (is_enrollable s r \<or> holds_seat s u r, set_ignore_edx_failures (conf s)))) (\<lambda>(allowed, keep).
     if \<not> allowed then raise ValidationError
     else bindP (create_run_enrollments x u [r] None (Some keep) audit_mode) (\<lambda>(es, _). ret (first es))))"

definition serializer_create_v3 :: "edx \<Rightarrow> nat \<Rightarrow> nat \<Rightarrow> CourseRunEnrollment op" where
  "serializer_create_v3 x u i =
     bindP (liftE (\<lambda>s. run_by_id s i)) (\<lambda>r.
     bindP (gets (\<lambda>s. set_ignore_edx_failures (conf s))) (\<lambda>keep.
     bindP (create_run_enrollments x u [r] None (Some keep) audit_mode) (\<lambda>(es, _).
     case es of [] \<Rightarrow> raise PyValueError | e # _ \<Rightarrow> ret e)))"

text \<open>The list with its filters, and the list of version 2, which may raise when the synchronisation does.\<close>

definition filtered_enrollments :: "db \<Rightarrow> nat \<Rightarrow> bool \<Rightarrow> nat option \<Rightarrow> CourseRunEnrollment list" where
  "filtered_enrollments s u exclude_b2b org =
     filter (\<lambda>e. cre_active e \<and> cre_user e = u
       \<and> (exclude_b2b \<longrightarrow> run_b2b_contract (cre_run e) = None)
       \<and> (case org of None \<Rightarrow> True | Some i \<Rightarrow> i = 0 \<or>
            map_option ctr_organization (run_b2b_contract (cre_run e)) = Some i)) (run_enrollments s)"

definition list_enrollments_v2 ::
  "bool \<Rightarrow> exn + (exn + (string \<times> bool) list) option \<Rightarrow> nat \<Rightarrow> bool \<Rightarrow> nat option \<Rightarrow> CourseRunEnrollment list op" where
  "list_enrollments_v2 sync_on_load client u exclude_b2b org =
     bindP (gets (\<lambda>s. set_ignore_edx_failures (conf s))) (\<lambda>ignore.
     thenP (whenP sync_on_load (catchP (thenP (sync_enrollments_with_edx client u) (ret ()))
              (\<lambda>e. if ignore then ret () else raise e)))
       (gets (\<lambda>s. filtered_enrollments s u exclude_b2b org)))"

section \<open>Programs\<close>

definition my_program_enrollments :: "db \<Rightarrow> nat \<Rightarrow> ProgramEnrollment list" where
  "my_program_enrollments s u = filter (\<lambda>e. pe_active e \<and> pe_user e = u \<and> pe_change_status e \<noteq> Some status_unenrolled)
     (program_enrollments s)"

text \<open>\<open>has_page\<close>: the program has a page with a certificate page.\<close>

definition get_program_certificate_by_enrollment ::
  "(nat \<Rightarrow> bool) \<Rightarrow> db \<Rightarrow> nat \<Rightarrow> Program option \<Rightarrow> exn + ProgramCertificate option" where
  "get_program_certificate_by_enrollment has_page s u program =
     (case program of
        None \<Rightarrow> Inr None
      | Some g \<Rightarrow>
          if \<not> has_page (prg_id g) then Inr None
          else (case get_one (filter (\<lambda>c. pc_user c = u \<and> prg_id (pc_program c) = prg_id g
                                   \<and> \<not> pc_is_revoked c \<and> pc_issue_date c \<le> now s) (program_certificates s)) of
              Inr c \<Rightarrow> Inr (Some c)
            | Inl e \<Rightarrow> if e = ObjectDoesNotExist then Inr None else Inl e))"

record program_listing =
  pl_enrollments :: "CourseRunEnrollment list"
  pl_program :: Program
  pl_certificate :: "ProgramCertificate option"

definition program_listing_of :: "(nat \<Rightarrow> bool) \<Rightarrow> db \<Rightarrow> nat \<Rightarrow> ProgramEnrollment \<Rightarrow> exn + program_listing" where
  "program_listing_of has_page s u e =
     bindE (courses_with_requirements_data s (pe_program e)) (\<lambda>d.
     bindE (get_program_certificate_by_enrollment has_page s (pe_user e) (Some (pe_program e))) (\<lambda>c.
     Inr \<lparr>pl_enrollments = rev (filter (\<lambda>x. cre_active x \<and> cre_user x = u
              \<and> crs_id (run_course (cre_run x)) \<in> crs_id ` set (map fst (cr_courses d))
              \<and> cre_change_status x \<noteq> Some status_unenrolled) (run_enrollments s)),
          pl_program = pe_program e, pl_certificate = c\<rparr>))"

definition list_program_enrollments :: "(nat \<Rightarrow> bool) \<Rightarrow> db \<Rightarrow> nat \<Rightarrow> exn + program_listing list" where
  "list_program_enrollments has_page s u =
     mapE (program_listing_of has_page s u) (rev (my_program_enrollments s u))"

definition deactivate_program :: "ProgramEnrollment \<Rightarrow> unit op" where
  "deactivate_program e = save_program_enrollment (e\<lparr>pe_active := False, pe_change_status := Some status_unenrolled\<rparr>)"

text \<open>Leaving a program: the rows that versions 1 and 2 look at, and those of version 3.  404 where there is
  no such program, 400 where it was paid for.\<close>

definition leave_program :: "(ProgramEnrollment \<Rightarrow> bool) \<Rightarrow> nat \<Rightarrow> nat \<Rightarrow> nat \<Rightarrow> nat op" where
  "leave_program shown left u pk =
     bindP (gets (\<lambda>s. (find_program s pk,
        first (filter (\<lambda>e. pe_active e \<and> shown e \<and> pe_user e = u \<and> prg_id (pe_program e) = pk) (program_enrollments s)))))
       (\<lambda>(found, enrollment).
     case found of
       None \<Rightarrow> ret 404
     | Some _ \<Rightarrow>
         (case enrollment of
            None \<Rightarrow> ret left
          | Some e \<Rightarrow>
              bindP (gets (\<lambda>s. program_can_unenroll s e)) (\<lambda>may.
              if \<not> may then ret 400 else thenP (deactivate_program e) (ret left))))"

definition destroy_program_enrollment :: "nat \<Rightarrow> nat \<Rightarrow> nat op" where
  "destroy_program_enrollment = leave_program (\<lambda>_. True) 200"

definition destroy_program_enrollment_v3 :: "nat \<Rightarrow> nat \<Rightarrow> nat op" where
  "destroy_program_enrollment_v3 = leave_program (\<lambda>e. pe_change_status e \<noteq> Some status_unenrolled) 204"

definition create_program_enrollment_view :: "nat \<Rightarrow> nat \<Rightarrow> nat op" where
  "create_program_enrollment_view u pk =
     bindP (liftE (\<lambda>s. get_one (filter (\<lambda>g. prg_id g = pk \<and> prg_live g) (programs s)))) (\<lambda>g.
     bindP (gets (\<lambda>s. exists_row (\<lambda>e. prg_id (pe_program e) = pk) (my_program_enrollments s u))) (\<lambda>there.
     if there then ret 200
     else bindP (create_program_enrollments u [g] audit_mode) (\<lambda>es.
          if es = [] then raise PyValueError else ret 201)))"

section \<open>A course run of a program\<close>

definition VPE_MAX_PROGRAMS :: nat where
  "VPE_MAX_PROGRAMS = 2"

definition effective_mode :: "db \<Rightarrow> CourseRun \<Rightarrow> ProgramEnrollment \<Rightarrow> exn + string" where
  "effective_mode s r e =
     bindE (required_courses s (pe_program e)) (\<lambda>required.
     bindE (elective_courses s (pe_program e)) (\<lambda>electives.
     Inr (if pe_enrollment_mode e = audit_mode
             \<or> crs_id (run_course r) \<notin> crs_id ` set (required @ electives)
             \<or> \<not> is_upgradable s r
          then audit_mode else pe_enrollment_mode e)))"

definition create_course_enrollment_from_program ::
  "ext \<Rightarrow> processor \<Rightarrow> User \<Rightarrow> string \<Rightarrow> string \<Rightarrow> ProgramEnrollment \<Rightarrow> nat op" where
  "create_course_enrollment_from_program x px user ip courserun_id e =
     bindP (liftE (\<lambda>s. run_with_courseware_id s courserun_id)) (\<lambda>r.
     bindP (gets (\<lambda>s. is_enrollable s r \<or> holds_seat s (usr_id user) r)) (\<lambda>allowed.
     if \<not> allowed then ret 400
     else bindP (liftE (\<lambda>s. effective_mode s r e)) (\<lambda>mode.
       bindP (gets (\<lambda>s. exists_row (\<lambda>y. cre_active y \<and> cre_courseware y = courserun_id \<and> cre_user y = usr_id user
                          \<and> cre_enrollment_mode y = mode) (run_enrollments s))) (\<lambda>there.
       if there then ret 204
       else if mode = audit_mode
       then bindP (create_run_enrollments (x_edx x) (usr_id user) [r] None (Some True) audit_mode) (\<lambda>(es, _).
              if es = [] then raise EnrollmentCreationFailedError else ret 201)
       else thenP (create_verified_program_course_run_enrollment x px user ip r (pe_program e)) (ret 201)))))"

text \<open>The programs that are asked for, the enrollments in them, and how they depend on each other.\<close>

definition requires_program :: "db \<Rightarrow> Program \<Rightarrow> Program \<Rightarrow> bool" where
  "requires_program s g h \<longleftrightarrow> prg_id h \<in> prg_id ` set (program_nodes s g)"

definition enrollments_in :: "db \<Rightarrow> nat \<Rightarrow> Program list \<Rightarrow> ProgramEnrollment list" where
  "enrollments_in s u gs = filter (\<lambda>e. pe_active e \<and> pe_user e = u \<and> prg_id (pe_program e) \<in> prg_id ` set gs)
     (program_enrollments s)"

definition fill_program_enrollments :: "nat \<Rightarrow> Program \<Rightarrow> Program list \<Rightarrow> ProgramEnrollment list \<Rightarrow> bool op" where
  "fill_program_enrollments u upstream gs es =
     (let verified = filter (\<lambda>e. pe_enrollment_mode e = verified_mode) es in
      case verified of
        [] \<Rightarrow> thenP (create_program_enrollments u gs audit_mode) (ret True)
      | [e] \<Rightarrow> if prg_id (pe_program e) = prg_id upstream
               then thenP (create_program_enrollments u gs verified_mode) (ret True)
               else ret False
      | _ \<Rightarrow> ret True)"

definition enroll_via_programs ::
  "ext \<Rightarrow> processor \<Rightarrow> User \<Rightarrow> string \<Rightarrow> string \<Rightarrow> Program \<Rightarrow> Program \<Rightarrow> ProgramEnrollment list \<Rightarrow> nat op" where
  "enroll_via_programs x px user ip courserun_id g h es =
     bindP (gets (\<lambda>s. (requires_program s h g, requires_program s g h))) (\<lambda>(g_in_h, h_in_g).
     if g_in_h = h_in_g then ret 400
     else bindP (fill_program_enrollments (usr_id user) (if \<not> g_in_h then g else h) [g, h] es) (\<lambda>filled.
       if \<not> filled then ret 400
       else bindP (gets (\<lambda>s. if exists_row (\<lambda>r. run_courseware_id r = courserun_id
                               \<and> crs_id (run_course r) \<in> courses_qset s g) (course_runs s) then g else h)) (\<lambda>course_program.
         bindP (gets (\<lambda>s. get_one (filter (\<lambda>e. pe_active e \<and> pe_user e = usr_id user
                  \<and> prg_id (pe_program e) = prg_id course_program) (program_enrollments s)))) (\<lambda>found.
         case found of
           Inr e \<Rightarrow> create_course_enrollment_from_program x px user ip courserun_id e
         | Inl err \<Rightarrow> raise (if err = ObjectDoesNotExist then EnrollmentCreationFailedError else err)))))"

definition add_verified_program_course_enrollment ::
  "ext \<Rightarrow> processor \<Rightarrow> User \<Rightarrow> string \<Rightarrow> string \<Rightarrow> string list option \<Rightarrow> nat op" where
  "add_verified_program_course_enrollment x px user ip courserun_id program_ids =
     (case program_ids of
        None \<Rightarrow> ret 400
      | Some ids \<Rightarrow>
          if ids = [] \<or> VPE_MAX_PROGRAMS < length ids then ret 400
          else
            bindP (gets (\<lambda>s. filter (\<lambda>g. prg_readable_id g \<in> set ids) (programs s))) (\<lambda>gs.
            bindP (gets (\<lambda>s. enrollments_in s (usr_id user) gs)) (\<lambda>es.
            if es = [] \<or> gs = [] \<or> length gs \<noteq> length ids then ret 404
            else (case gs of
                [g] \<Rightarrow> (case es of
                    [e] \<Rightarrow> create_course_enrollment_from_program x px user ip courserun_id e
                  | _ \<Rightarrow> raise PyIndexError)
              | g # h # _ \<Rightarrow> enroll_via_programs x px user ip courserun_id g h es
              | [] \<Rightarrow> ret 404))))"

section \<open>The runs of a variant\<close>

text \<open>Empty parameters have their defaults already; the status is 400 or 404 where there is no list.\<close>

definition may_see_contract :: "db \<Rightarrow> User \<Rightarrow> bool \<Rightarrow> int \<Rightarrow> bool" where
  "may_see_contract s user superuser c =
     (if superuser then exists_row (\<lambda>k. int (ctr_id k) = c) (contracts s)
      else list_ex (\<lambda>k. int k = c) (usr_b2b_contracts user))"

definition get_course_variant_runs ::
  "db \<Rightarrow> User \<Rightarrow> bool \<Rightarrow> string list \<Rightarrow> string option \<Rightarrow> string \<Rightarrow> string \<Rightarrow> string \<Rightarrow>
   nat + (Course \<times> CourseRun list) list" where
  "get_course_variant_runs s user superuser course_ids contract language len industry =
     (if course_ids = [] \<or> \<not> has_text contract then Inl 400
      else (case (those (map parse_int course_ids), parse_int (the contract)) of
          (Some ids, Some c) \<Rightarrow>
            if \<not> may_see_contract s user superuser c then Inl 400
            else (let cs = filter (\<lambda>x. int (crs_id x) \<in> set ids) (courses s) in
              if cs = [] then Inl 404
              else Inr (map (\<lambda>x. (x, filter (\<lambda>r. crs_id (run_course r) = crs_id x
                       \<and> map_option (\<lambda>k. int (ctr_id k)) (run_b2b_contract r) = Some c
                       \<and> run_language r = language \<and> run_variant_length r = len
                       \<and> run_variant_industry r = industry) (get_enrollable_courseruns_qs s None None))) cs))
        | _ \<Rightarrow> Inl 400))"

section \<open>What the requests guarantee\<close>

subsection \<open>The enrollment window\<close>

lemma run_by_id_Inr: "run_by_id s i = Inr r \<Longrightarrow> r \<in> set (usable_runs s) \<and> run_id r = i \<and> run_b2b_contract r = None"
  by (auto simp: run_by_id_def split: option.splits if_splits dest: first_filter_SomeD)

lemma window_refused:
  assumes "run_by_id s i = Inr r" "\<not> is_enrollable s r" "\<not> holds_seat s u r"
  shows "serializer_create x u i s = (Inl ValidationError, s)"
  using assms by (simp add: serializer_create_def liftE_bind raise_def)

text \<open>What both serializers do once they let the learner in: the run is audited, whatever it was before.\<close>

lemma audit_enrollment:
  assumes ok: "enrollments_ok s" and edx: "edx_request x u r [r] audit_mode"
  shows "\<exists>e es t. create_run_enrollments x u [r] None (Some keep) audit_mode s = (Inr (e # es, True), t)
    \<and> (\<exists>a. find_run_enrollment t (u, run_id r) = Some a \<and> enrolled_as audit_mode True a)"
proof -
  have "edx_request x u (hd [r]) [r] audit_mode \<or> keep" "[r] \<noteq> []" using edx by simp_all
  from create_run_enrollments_ok [OF ok this, of None] edx obtain es t where
    "create_run_enrollments x u [r] None (Some keep) audit_mode s = (Inr (es, True), t)" "length es = 1"
    "\<exists>a. find_run_enrollment t (u, run_id r) = Some a \<and> enrolled_as audit_mode True a"
    by auto
  then show ?thesis by (cases es) auto
qed

lemma serializer_create_downgrades:
  assumes ok: "enrollments_ok s" and r: "run_by_id s i = Inr r" and edx: "edx_request x u r [r] audit_mode"
    and seat: "holds_seat s u r"
  shows "\<exists>e t a. serializer_create x u i s = (Inr (Some e), t)
    \<and> find_run_enrollment t (u, i) = Some a \<and> cre_active a \<and> cre_enrollment_mode a = audit_mode"
proof -
  obtain e es t a where run: "create_run_enrollments x u [r] None (Some (set_ignore_edx_failures (conf s))) audit_mode s
      = (Inr (e # es, True), t)"
    and a: "find_run_enrollment t (u, run_id r) = Some a" "enrolled_as audit_mode True a"
    using audit_enrollment [OF ok edx, of "set_ignore_edx_failures (conf s)"] by blast
  have "serializer_create x u i s = (Inr (Some e), t)"
    using r seat run by (simp add: serializer_create_def liftE_bind bindP_Inr ret_def)
  then show ?thesis using a run_by_id_Inr [OF r] by (auto simp: enrolled_as_def)
qed

lemma serializer_create_v3_open:
  assumes ok: "enrollments_ok s" and r: "run_by_id s i = Inr r" and edx: "edx_request x u r [r] audit_mode"
  shows "\<exists>e t a. serializer_create_v3 x u i s = (Inr e, t)
    \<and> find_run_enrollment t (u, i) = Some a \<and> cre_active a \<and> cre_edx_enrolled a"
proof -
  obtain e es t a where run: "create_run_enrollments x u [r] None (Some (set_ignore_edx_failures (conf s))) audit_mode s
      = (Inr (e # es, True), t)"
    and a: "find_run_enrollment t (u, run_id r) = Some a" "enrolled_as audit_mode True a"
    using audit_enrollment [OF ok edx, of "set_ignore_edx_failures (conf s)"] by blast
  have "serializer_create_v3 x u i s = (Inr e, t)"
    using r run by (simp add: serializer_create_v3_def liftE_bind bindP_Inr ret_def)
  then show ?thesis using a run_by_id_Inr [OF r] by (auto simp: enrolled_as_def)
qed

subsection \<open>Leaving a program\<close>

lemma leave_paid_program:
  assumes "find_program s pk = Some g"
    and "first (filter (\<lambda>e. pe_active e \<and> shown e \<and> pe_user e = u \<and> prg_id (pe_program e) = pk) (program_enrollments s)) = Some e"
    and "fulfilled_paid_program_exists s u (pe_program e)"
  shows "leave_program shown left u pk s = (Inr 400, s)"
proof -
  have "pe_user e = u" using first_filter_SomeD [OF assms(2)] by simp
  then show ?thesis using assms by (simp add: leave_program_def program_can_unenroll_def ret_def)
qed

lemma leave_program_again:
  assumes one: "distinct (map (\<lambda>e. (pe_user e, prg_id (pe_program e))) (program_enrollments s))"
    and run: "leave_program shown left u pk s = (Inr left, t)" "left \<noteq> 404" "left \<noteq> 400"
  shows "leave_program shown left u pk t = (Inr left, t)"
proof -
  let ?mine = "\<lambda>e. pe_active e \<and> shown e \<and> pe_user e = u \<and> prg_id (pe_program e) = pk"
  obtain g where g: "find_program s pk = Some g"
    using run by (cases "find_program s pk") (auto simp: leave_program_def ret_def)
  show ?thesis
  proof (cases "first (filter ?mine (program_enrollments s))")
    case None
    then have "leave_program shown left u pk s = (Inr left, s)" using g by (simp add: leave_program_def ret_def)
    then show ?thesis using run(1) by simp
  next
    case (Some e)
    have e: "e \<in> set (program_enrollments s)" "?mine e" using first_filter_SomeD [OF Some] by auto
    define e' where "e' = e\<lparr>pe_active := False, pe_change_status := Some status_unenrolled\<rparr>"
    let ?rows = "update_rows (\<lambda>r. pe_id r = pe_id e') (\<lambda>_. e') (program_enrollments s)"
    have "thenP (deactivate_program e) (ret left) s = (Inr left, s\<lparr>program_enrollments := ?rows\<rparr>)"
      by (simp add: deactivate_program_def save_program_enrollment_def e'_def thenP_def bindP_def modify_def ret_def)
    then have t: "t = s\<lparr>program_enrollments := ?rows\<rparr>"
      using run Some g by (auto simp: leave_program_def ret_def split: if_splits)
    have "\<not> ?mine x" if x: "x \<in> set ?rows" for x
    proof (cases "x = e'")
      case False
      then have "x \<in> set (program_enrollments s)" "pe_id x \<noteq> pe_id e"
        using x by (auto simp: update_rows_def e'_def split: if_splits)
      then have "(pe_user x, prg_id (pe_program x)) \<noteq> (pe_user e, prg_id (pe_program e))"
        using one e(1) by (metis (mono_tags, lifting) distinct_map inj_onD)
      then show ?thesis using e(2) by auto
    qed (simp add: e'_def)
    then have "first (filter ?mine (program_enrollments t)) = None" by (auto simp: t)
    moreover have "find_program t pk = Some g" using g by (simp add: t find_program_def)
    ultimately show ?thesis by (simp add: leave_program_def ret_def)
  qed
qed

subsection \<open>Verified seats\<close>

text \<open>Only the learners and runs of \<open>V\<close> have a verified enrollment.\<close>

definition seats_within :: "(nat \<times> nat) set \<Rightarrow> db \<Rightarrow> bool" where
  "seats_within V s \<longleftrightarrow> enrollments_ok s
     \<and> (\<forall>e \<in> set (run_enrollments s). cre_enrollment_mode e = verified_mode \<longrightarrow> cre_key e \<in> V)"

lemma keeps_seats_audit: "keeps (seats_within V) (create_run_enrollments x u [r] None (Some True) audit_mode)"
proof (rule keepsI)
  fix s assume s: "seats_within V s"
  then have ok: "enrollments_ok s" by (simp add: seats_within_def)
  have "edx_request x u (hd [r]) [r] audit_mode \<or> True" "[r] \<noteq> []" by simp_all
  from create_run_enrollments_ok [OF ok this, of None] obtain es t where
    t: "create_run_enrollments x u [r] None (Some True) audit_mode s =
        (Inr (es, edx_request x u (hd [r]) [r] audit_mode), t)" "enrollments_ok t"
    and rows: "\<forall>q \<in> set [r]. \<exists>e. find_run_enrollment t (u, run_id q) = Some e
          \<and> enrolled_as audit_mode (edx_request x u (hd [r]) [r] audit_mode) e"
      "\<forall>k. k \<notin> (\<lambda>q. (u, run_id q)) ` set [r] \<longrightarrow> find_run_enrollment t k = find_run_enrollment s k"
    by blast
  have new: "\<exists>e. find_run_enrollment t (u, run_id r) = Some e \<and> cre_enrollment_mode e = audit_mode"
    using rows(1) by (simp add: enrolled_as_def) blast
  have old: "find_run_enrollment t k = find_run_enrollment s k" if "k \<noteq> (u, run_id r)" for k
    using rows(2) that by (cases k) simp
  have "cre_key e \<in> V" if e: "e \<in> set (run_enrollments t)" "cre_enrollment_mode e = verified_mode" for e
  proof (cases "cre_key e = (u, run_id r)")
    case True
    then have "find_run_enrollment t (u, run_id r) = Some e" using find_run_enrollment_mem [OF t(2) e(1)] by simp
    then show ?thesis using new e(2) by (auto simp: audit_mode_def verified_mode_def)
  next
    case False
    then have "find_run_enrollment s (cre_key e) = Some e"
      using find_run_enrollment_mem [OF t(2) e(1)] old by simp
    then have "e \<in> set (run_enrollments s)" using find_run_enrollment_Some by blast
    then show ?thesis using e(2) s unfolding seats_within_def by blast
  qed
  then have "seats_within V t" using t(2) unfolding seats_within_def by blast
  then show "seats_within V (snd (create_run_enrollments x u [r] None (Some True) audit_mode s))"
    by (simp add: t(1))
qed

text \<open>The learner has no verified enrollment in the programs with these keys.\<close>

definition unverified :: "nat \<Rightarrow> nat set \<Rightarrow> db \<Rightarrow> bool" where
  "unverified u G s \<longleftrightarrow> (\<forall>e \<in> set (program_enrollments s).
     pe_user e = u \<longrightarrow> pe_active e \<longrightarrow> prg_id (pe_program e) \<in> G \<longrightarrow> pe_enrollment_mode e \<noteq> verified_mode)"

definition no_upgrade :: "(nat \<times> nat) set \<Rightarrow> nat \<Rightarrow> nat set \<Rightarrow> db \<Rightarrow> bool" where
  "no_upgrade V u G s \<longleftrightarrow> seats_within V s \<and> unverified u G s"

lemma keeps_program_audit: "keeps (no_upgrade V u G) (create_program_enrollments v gs audit_mode)"
proof -
  have out: "no_upgrade V u G s \<Longrightarrow> no_upgrade V u G (s\<lparr>outbox := es\<rparr>)" for s es
    by (simp add: no_upgrade_def seats_within_def enrollments_ok_def unverified_def)
  have one: "keeps (no_upgrade V u G) (enroll_program v audit_mode g)" for g
  proof (rule keepsI)
    fix s assume s: "no_upgrade V u G s"
    have new: "no_upgrade V u G (s\<lparr>program_enrollments := program_enrollments s @ [e], next_id := Suc (next_id s)\<rparr>)"
      if "pe_enrollment_mode e = audit_mode" for e
      using s that by (auto simp: no_upgrade_def seats_within_def enrollments_ok_def unverified_def
          audit_mode_def verified_mode_def less_Suc_eq)
    have saved: "no_upgrade V u G (s\<lparr>program_enrollments :=
        update_rows (\<lambda>r. pe_id r = pe_id e) (\<lambda>_. e) (program_enrollments s)\<rparr>)"
      if "pe_enrollment_mode e = audit_mode" for e
      using s that by (auto simp: no_upgrade_def seats_within_def enrollments_ok_def unverified_def
          audit_mode_def verified_mode_def dest!: set_update_rowsD)
    show "no_upgrade V u G (snd (enroll_program v audit_mode g s))"
      using s new saved by (simp add: enroll_program_def Let_def save_program_enrollment_def thenP_def bindP_def
          modify_def ret_def split: sum.split)
  qed
  show ?thesis
    by (induction gs) (auto intro!: keeps_intro one keeps_emit out)
qed

lemma course_from_program_seats:
  assumes s: "seats_within V s" and e: "pe_enrollment_mode e \<noteq> verified_mode"
    and no: "\<not> has_verified_program_enrollment s user (pe_program e)"
  shows "seats_within V (snd (create_course_enrollment_from_program x px user ip i e s))"
proof -
  have verified: "create_verified_program_course_run_enrollment x px user ip r (pe_program e) s =
      (Inl VerifiedProgramNoEnrollmentError, s)" for r
    using no by (simp add: create_verified_program_course_run_enrollment_def raise_def)
  have audit: "keeps (seats_within V) (bindP (create_run_enrollments (x_edx x) (usr_id user) [r] None (Some True) audit_mode)
      (\<lambda>(es, _). if es = [] then raise EnrollmentCreationFailedError else ret 201))" for r
    by (intro keeps_intro keeps_seats_audit)
  show ?thesis
    using s keepsD [OF audit s] verified
    by (auto simp: create_course_enrollment_from_program_def liftE_bind ret_def thenP_def bindP_Inl split: sum.splits)
qed

lemma unverified_has:
  "unverified (usr_id user) G s \<Longrightarrow> prg_id g \<in> G \<Longrightarrow> \<not> has_verified_program_enrollment s user g"
  by (auto simp: unverified_def has_verified_program_enrollment_def exists_row_iff)

lemma fill_unverified:
  assumes s: "no_upgrade V u G s" and es: "\<forall>e \<in> set es. pe_enrollment_mode e \<noteq> verified_mode"
  shows "no_upgrade V u G (snd (fill_program_enrollments u p gs es s))"
proof -
  have "filter (\<lambda>e. pe_enrollment_mode e = verified_mode) es = []" using es by (simp add: filter_empty_conv)
  moreover have "keeps (no_upgrade V u G) (thenP (create_program_enrollments u gs audit_mode) (ret True))"
    by (intro keeps_intro keeps_program_audit)
  ultimately show ?thesis using keepsD s by (simp add: fill_program_enrollments_def)
qed

lemma via_programs_seats:
  assumes s: "no_upgrade V (usr_id user) G s" and es: "\<forall>e \<in> set es. pe_enrollment_mode e \<noteq> verified_mode"
    and G: "prg_id g \<in> G" "prg_id h \<in> G"
  shows "seats_within V (snd (enroll_via_programs x px user ip i g h es s))"
proof -
  obtain b t where fill: "fill_program_enrollments (usr_id user) (if \<not> requires_program s h g then g else h) [g, h] es s = (b, t)"
    by (cases "fill_program_enrollments (usr_id user) (if \<not> requires_program s h g then g else h) [g, h] es s")
  have t: "no_upgrade V (usr_id user) G t" using fill_unverified [OF s es] fill by (metis snd_conv)
  have found: "seats_within V (snd (create_course_enrollment_from_program x px user ip i e t))"
    if "get_one (filter (\<lambda>e. pe_active e \<and> pe_user e = usr_id user \<and> prg_id (pe_program e) = prg_id p)
          (program_enrollments t)) = Inr e" "p = g \<or> p = h" for e p
  proof -
    have "e \<in> set (filter (\<lambda>e. pe_active e \<and> pe_user e = usr_id user \<and> prg_id (pe_program e) = prg_id p)
        (program_enrollments t))" using that(1) by simp
    then have e: "e \<in> set (program_enrollments t)" "pe_active e" "pe_user e = usr_id user" "prg_id (pe_program e) \<in> G"
      using that(2) G by auto
    then have "pe_enrollment_mode e \<noteq> verified_mode" using t by (auto simp: no_upgrade_def unverified_def)
    moreover have "\<not> has_verified_program_enrollment t user (pe_program e)"
      using t e(4) by (intro unverified_has [where G = G]) (auto simp: no_upgrade_def)
    moreover have "seats_within V t" using t by (simp add: no_upgrade_def)
    ultimately show ?thesis by (intro course_from_program_seats)
  qed
  have st: "seats_within V s" "seats_within V t" using s t by (simp_all add: no_upgrade_def)
  show ?thesis
  proof (cases b)
    case (Inl err)
    then show ?thesis using fill st
      by (cases "requires_program s h g"; cases "requires_program s g h")
        (simp_all add: enroll_via_programs_def bindP_Inl ret_def)
  next
    case (Inr filled)
    then show ?thesis
      using fill st found
      by (cases "requires_program s h g"; cases "requires_program s g h")
        (simp_all add: enroll_via_programs_def bindP_Inr ret_def raise_def split: sum.split)
  qed
qed

lemma verified_runs_need_verified_program:
  assumes s: "seats_within V s" and u: "unverified (usr_id user) (prg_id ` {g \<in> set (programs s). prg_readable_id g \<in> set ids}) s"
  shows "seats_within V (snd (add_verified_program_course_enrollment x px user ip i (Some ids) s))"
proof -
  define gs where "gs = filter (\<lambda>g. prg_readable_id g \<in> set ids) (programs s)"
  let ?G = "prg_id ` set gs"
  have G: "{g \<in> set (programs s). prg_readable_id g \<in> set ids} = set gs" by (auto simp: gs_def)
  have un: "unverified (usr_id user) ?G s" using u unfolding G .
  then have nu: "no_upgrade V (usr_id user) ?G s" using s by (simp add: no_upgrade_def)
  have es: "\<forall>e \<in> set (enrollments_in s (usr_id user) gs). pe_enrollment_mode e \<noteq> verified_mode"
    using un by (auto simp: enrollments_in_def unverified_def)
  have one: "seats_within V (snd (create_course_enrollment_from_program x px user ip i e s))"
    if "enrollments_in s (usr_id user) gs = [e]" for e
  proof (rule course_from_program_seats [OF s])
    have e: "e \<in> set (enrollments_in s (usr_id user) gs)" using that by simp
    then show "pe_enrollment_mode e \<noteq> verified_mode" using es by blast
    show "\<not> has_verified_program_enrollment s user (pe_program e)"
      by (rule unverified_has [OF un]) (use e in \<open>auto simp: enrollments_in_def\<close>)
  qed
  have two: "seats_within V (snd (enroll_via_programs x px user ip i g h (enrollments_in s (usr_id user) gs) s))"
    if "gs = g # h # rest" for g h rest
    by (rule via_programs_seats [OF nu es]) (use that in auto)
  show ?thesis
    unfolding add_verified_program_course_enrollment_def
    using s one two by (auto simp: gs_def [symmetric] ret_def raise_def split: list.split)
qed

end
