(* ===== verification/EdxAccounts.thy ===== *)
theory EdxAccounts
  imports Accounts
begin

text \<open>
  Creating a learner's account in Open edX (\<open>src/openedx/api.py\<close>): the choice of a username that is
  free here, the registration request and what is done when Open edX says that the username or the
  email address is taken there, and the row that records the account.

  Open edX answers as the parameter \<open>edx_server\<close> says: its answers depend on everything it was sent
  before.  The registration loop has no bound, so it is an operation that may not return.
\<close>

section \<open>The server\<close>

record http_response =
  rsp_status :: nat
  rsp_body :: "json option"
  rsp_url :: string

text \<open>
  \<open>srv_answer\<close> gets the earlier requests and the request; \<open>srv_meanwhile\<close> is what other processes
  have written while a lock was waited for; \<open>srv_token\<close> are the tokens of \<open>oauthlib\<close>;
  \<open>srv_usernameify\<close> is the function of \<open>mitol.common\<close> that makes a username of a name and an email
  address.
\<close>

record edx_server =
  srv_answer :: "edx_call list \<Rightarrow> edx_call \<Rightarrow> exn + http_response"
  srv_meanwhile :: "accounts \<Rightarrow> accounts"
  srv_token :: "nat \<Rightarrow> string"
  srv_usernameify :: "string \<Rightarrow> string \<Rightarrow> nat \<Rightarrow> string"

definition send_request :: "edx_server \<Rightarrow> edx_call \<Rightarrow> http_response aop" where
  "send_request srv q = (\<lambda>s. (srv_answer srv (acs_sent s) q, s\<lparr>acs_sent := acs_sent s @ [q]\<rparr>))"

definition raise_for_status :: "http_response \<Rightarrow> unit aop" where
  "raise_for_status r = (if 400 \<le> rsp_status r \<and> rsp_status r < 600
     then raise (HTTPError (Some (rsp_status r, rsp_body r))) else ret ())"

section \<open>Usernames\<close>

text \<open>\<open>random.randint\<close>: the next draw, brought into the range.\<close>

definition randint :: "nat \<Rightarrow> nat \<Rightarrow> nat aop" where
  "randint lo hi = (\<lambda>s. (Inr (lo + acs_random s (acs_drawn s) mod (hi - lo + 1)), s\<lparr>acs_drawn := Suc (acs_drawn s)\<rparr>))"

definition username_ranges :: "(nat \<times> nat) list" where
  "username_ranges = [(0, 9), (10, 99), (100, 999), (1000, 9999), (10000, 99999)]"

definition username_exists :: "accounts \<Rightarrow> string option \<Rightarrow> bool" where
  "username_exists s t = exists_row (\<lambda>r. oeu_edx_username r = t) (openedx_users s)"

definition candidate_username :: "string \<Rightarrow> nat \<Rightarrow> nat \<Rightarrow> string" where
  "candidate_username base n max_length =
     (let t = base @ ''_'' @ show_nat n in
      if max_length < length t then take (length t - max_length) base @ ''-'' @ show_nat n else t)"

fun try_usernames :: "string \<Rightarrow> nat \<Rightarrow> (nat \<times> nat) list \<Rightarrow> string option aop" where
  "try_usernames base max_length [] = ret None"
| "try_usernames base max_length ((lo, hi) # ranges) =
     bindP (randint lo hi) (\<lambda>n.
     bindP (gets (\<lambda>s. username_exists s (Some (candidate_username base n max_length)))) (\<lambda>taken.
     if taken then try_usernames base max_length ranges
     else ret (Some (candidate_username base n max_length))))"

text \<open>The base is formatted into the candidates; slicing a base that is \<open>None\<close> raises.  (The text of
  \<open>None\<close> is so short that its candidates are never cut.)\<close>

definition generate_unique_username :: "string option \<Rightarrow> nat \<Rightarrow> string option aop" where
  "generate_unique_username base max_length =
     try_usernames (case base of None \<Rightarrow> ''None'' | Some t \<Rightarrow> t) max_length username_ranges"

definition extract_username_from_email :: "string \<Rightarrow> string" where
  "extract_username_from_email t = takeWhile (\<lambda>c. c \<noteq> CHR ''@'') t"

definition get_attemptable_username :: "AppUser \<Rightarrow> string option \<Rightarrow> string option aop" where
  "get_attemptable_username user desired =
     bindP (gets (\<lambda>s. exists_row (\<lambda>r. oeu_edx_username r = desired \<and> oeu_user r \<noteq> au_id user) (openedx_users s))) (\<lambda>taken.
     if taken then generate_unique_username desired OPENEDX_USERNAME_MAX_LEN else ret desired)"

section \<open>The username of a user\<close>

definition edx_row_of :: "accounts \<Rightarrow> nat \<Rightarrow> OpenEdxUser option" where
  "edx_row_of s u = first (filter (\<lambda>r. oeu_platform r = PLATFORM_EDX \<and> oeu_user r = u) (openedx_users s))"

definition get_or_create_edx_user :: "nat \<Rightarrow> OpenEdxUser aop" where
  "get_or_create_edx_user u = bindP (gets (\<lambda>s. edx_row_of s u)) (\<lambda>r. case r of
       Some r \<Rightarrow> ret r
     | None \<Rightarrow> bindP fresh_account_id (\<lambda>i. let r = new_edx_user i u None in thenP (save_edx_user r) (ret r)))"

definition wanted_username :: "edx_server \<Rightarrow> AppUser \<Rightarrow> string option \<Rightarrow> string" where
  "wanted_username srv user desired =
     (if has_text desired \<and> CHR ''@'' \<notin> set (the desired) then the desired
      else if au_username user \<noteq> [] \<and> CHR ''@'' \<notin> set (au_username user) \<and> au_username user \<noteq> au_email user
      then take OPENEDX_USERNAME_MAX_LEN (au_username user)
      else srv_usernameify srv (au_name user) (au_email user) OPENEDX_USERNAME_MAX_LEN)"

definition with_username :: "string option \<Rightarrow> OpenEdxUser \<Rightarrow> OpenEdxUser" where
  "with_username t r = r\<lparr>oeu_edx_username := t, oeu_desired_edx_username := t\<rparr>"

definition reconcile_edx_username :: "edx_server \<Rightarrow> AppUser \<Rightarrow> string option \<Rightarrow> bool aop" where
  "reconcile_edx_username srv user desired =
     bindP (get_or_create_edx_user (au_id user)) (\<lambda>r.
     if has_text (oeu_edx_username r) then ret False
     else let t = wanted_username srv user desired in
       bindP (gets (\<lambda>s. username_exists s (Some t))) (\<lambda>taken.
       if \<not> taken then thenP (save_edx_user (with_username (Some t) r)) (ret True)
       else bindP (generate_unique_username (Some t) OPENEDX_USERNAME_MAX_LEN) (\<lambda>u.
         if has_text u then thenP (save_edx_user (with_username u r)) (ret True)
         else ret True)))"

section \<open>The registration\<close>

text \<open>The related rows have to exist: reading the one of a user who has none raises.\<close>

definition build_user_data :: "AppUser \<Rightarrow> exn + EdxProfile" where
  "build_user_data user =
     (case (au_legal_address user, au_user_profile user) of
        (None, _) \<Rightarrow> Inl ObjectDoesNotExist
      | (Some a, p) \<Rightarrow> bindE (us_state a) (\<lambda>st. case p of
            None \<Rightarrow> Inl ObjectDoesNotExist
          | Some p \<Rightarrow> bindE (level_of_education p) (\<lambda>l.
              Inr \<lparr>ep_name = au_name user, ep_country = la_country a, ep_state = st, ep_gender = up_gender p,
                   ep_year_of_birth = up_year_of_birth p, ep_level_of_education = l\<rparr>)))"

text \<open>The parsed answer; what is not JSON counts as an empty object.\<close>

definition parse_openedx_response :: "http_response \<Rightarrow> json" where
  "parse_openedx_response r = (case rsp_body r of None \<Rightarrow> JObj [] | Some j \<Rightarrow> j)"

text \<open>\<open>data.get(k)\<close>, which only a dict has.\<close>

definition dict_get :: "json \<Rightarrow> string \<Rightarrow> exn + json option" where
  "dict_get j k = (case j of JObj kvs \<Rightarrow> Inr (map_of kvs k) | _ \<Rightarrow> Inl PyAttributeError)"

definition is_conflict_with :: "string \<Rightarrow> http_response \<Rightarrow> json \<Rightarrow> exn + bool" where
  "is_conflict_with code r data =
     (if rsp_status r \<noteq> 409 then Inr False
      else bindE (dict_get data ''error_code'') (\<lambda>c. Inr (c = Some (JStr code))))"

definition is_duplicate_username_error :: "http_response \<Rightarrow> json \<Rightarrow> exn + bool" where
  "is_duplicate_username_error = is_conflict_with ''duplicate-username''"

definition is_duplicate_email_error :: "http_response \<Rightarrow> json \<Rightarrow> exn + bool" where
  "is_duplicate_email_error = is_conflict_with ''duplicate-email''"

definition is_bad_request :: "http_response \<Rightarrow> bool" where
  "is_bad_request r \<longleftrightarrow> rsp_status r = 400 \<or> rsp_status r = 409"

text \<open>The suggestions are a list of usernames; the parameters for those of earlier answers are always
  empty, because the caller never gets them back.\<close>

definition json_texts :: "json option \<Rightarrow> string list" where
  "json_texts j = (case j of Some (JArr xs) \<Rightarrow> concat (map (\<lambda>x. case x of JStr t \<Rightarrow> [t] | _ \<Rightarrow> []) xs) | _ \<Rightarrow> [])"

definition extract_username_suggestions :: "json \<Rightarrow> bool \<Rightarrow> string list \<times> bool" where
  "extract_username_suggestions data extracted =
     (let ts = json_texts (jget data ''username_suggestions'') in
      if \<not> extracted \<and> ts \<noteq> [] then (ts, True) else ([], extracted))"

definition taken_elsewhere :: "accounts \<Rightarrow> nat \<Rightarrow> string \<Rightarrow> bool" where
  "taken_elsewhere s u t = exists_row (\<lambda>r. oeu_edx_username r = Some t \<and> oeu_user r \<noteq> u) (openedx_users s)"

definition free_suggestions :: "accounts \<Rightarrow> AppUser \<Rightarrow> string list \<Rightarrow> string list" where
  "free_suggestions s user ts = filter (\<lambda>t. \<not> taken_elsewhere s (au_id user) t) ts"

text \<open>The new username, whether to go on, and whether the attempts are counted anew.\<close>

definition handle_username_collision ::
    "http_response \<Rightarrow> json \<Rightarrow> OpenEdxUser \<Rightarrow> AppUser \<Rightarrow> string list \<Rightarrow> bool \<Rightarrow> (string option \<times> bool \<times> bool) aop" where
  "handle_username_collision r data oeu user suggested extracted =
     bindP (liftE (\<lambda>_. is_duplicate_username_error r data)) (\<lambda>dup.
     if \<not> dup then ret (None, False, False)
     else let new = fst (extract_username_suggestions data extracted);
              pool = (if new \<noteq> [] then new else suggested) in
       bindP (gets (\<lambda>s. free_suggestions s user pool)) (\<lambda>free. case free of
           t # _ \<Rightarrow> ret (Some t, True, False)
         | [] \<Rightarrow> bindP (generate_unique_username
                   (Some (if has_text (oeu_desired_edx_username oeu) then the (oeu_desired_edx_username oeu)
                          else extract_username_from_email (au_username user))) OPENEDX_USERNAME_MAX_LEN) (\<lambda>g.
             if has_text g then ret (g, True, True) else ret (None, False, False))))"

datatype step_result =
    Returned bool
  | Again nat string bool "string \<times> http_response"
  | Broke string http_response

text \<open>\<open>Again\<close> carries the username that was tried and the answer to it.  One round of the loop: \<open>attempt\<close> rounds were counted so far, \<open>name\<close> is tried next, \<open>tried\<close> tells
  whether the repair of a duplicate email address was requested before.\<close>

definition registration_answered ::
    "edx_server \<Rightarrow> AppUser \<Rightarrow> OpenEdxUser \<Rightarrow> nat \<Rightarrow> string \<Rightarrow> bool \<Rightarrow> http_response \<Rightarrow> step_result aop" where
  "registration_answered srv user row attempt name tried r =
     (if rsp_status r = 200 then thenP (save_edx_user (row\<lparr>oeu_has_been_synced := True\<rparr>)) (ret (Returned True))
      else let data = parse_openedx_response r in
        bindP (liftE (\<lambda>_. is_duplicate_email_error r data)) (\<lambda>dup.
        if dup \<and> \<not> tried
        then bindP (gets (\<lambda>s. as_service_token (acs_conf s))) (\<lambda>worker.
             if \<not> worker then raise ImproperlyConfigured
             else bindP (send_request srv (FixLtiUser (au_email user))) (\<lambda>f.
               ret (if rsp_status f = 200 then Again (Suc attempt) name True (name, r) else Broke name r)))
        else bindP (handle_username_collision r data row user [] False) (\<lambda>(new, continue, reset).
             ret (case new of
                    Some t \<Rightarrow> if continue then Again (if reset then 0 else Suc attempt) t tried (name, r) else Broke name r
                  | None \<Rightarrow> Broke name r))))"

definition registration_step ::
    "edx_server \<Rightarrow> AppUser \<Rightarrow> string \<Rightarrow> OpenEdxUser \<Rightarrow> nat \<Rightarrow> string \<Rightarrow> bool \<Rightarrow> step_result aop" where
  "registration_step srv user token oeu attempt name tried =
     (let row = oeu\<lparr>oeu_edx_username := Some name\<rparr> in
      thenP (save_edx_user row)
      (bindP (liftE (\<lambda>_. build_user_data user)) (\<lambda>d.
       bindP (send_request srv (RegisterUser name (au_email user) d token)) (\<lambda>r.
       registration_answered srv user row attempt name tried r))))"

definition max_attempts :: nat where
  "max_attempts = 4"

partial_function (option) registration_loop ::
    "edx_server \<Rightarrow> AppUser \<Rightarrow> string \<Rightarrow> OpenEdxUser \<Rightarrow> nat \<Rightarrow> string \<Rightarrow> bool \<Rightarrow> (string \<times> http_response) option
     \<Rightarrow> accounts \<Rightarrow> ((exn + step_result) \<times> accounts) option" where
  [code]: "registration_loop srv user token oeu attempt name tried latest s =
     (if max_attempts \<le> attempt
      then Some (case latest of None \<Rightarrow> Inl PyAttributeError | Some (n, r) \<Rightarrow> Inr (Broke n r), s)
      else (case registration_step srv user token oeu attempt name tried s of
              (Inl e, t) \<Rightarrow> Some (Inl e, t)
            | (Inr (Again a n d r), t) \<Rightarrow> registration_loop srv user token oeu a n d (Some r) t
            | (Inr x, t) \<Rightarrow> Some (Inr x, t)))"

definition set_edx_error :: "OpenEdxUser \<Rightarrow> json \<Rightarrow> unit aop" where
  "set_edx_error r data =
     save_edx_user (r\<lparr>oeu_has_sync_error := True, oeu_sync_error_data := (if data = JNull then None else Some data)\<rparr>)"

text \<open>What follows the loop: a known kind of failure is recorded in the row.  Python's \<open>None\<close>, returned
  where the function ends without a \<open>return\<close>, is \<open>None\<close>.\<close>

definition after_registration :: "OpenEdxUser \<Rightarrow> step_result \<Rightarrow> bool option aop" where
  "after_registration oeu x = (case x of
       Returned b \<Rightarrow> ret (Some b)
     | Again _ _ _ _ \<Rightarrow> ret None
     | Broke name r \<Rightarrow> if is_bad_request r
         then thenP (set_edx_error (oeu\<lparr>oeu_edx_username := Some name\<rparr>) (parse_openedx_response r)) (ret (Some False))
         else thenP (raise_for_status r) (ret None))"

definition user_lock :: "AppUser \<Rightarrow> string" where
  "user_lock user = ''openedx-create-user-lock.'' @ (case au_global_id user of None \<Rightarrow> ''None'' | Some i \<Rightarrow> i)"

text \<open>Other processes go on while the lock is waited for; it is got if none of them holds it then.\<close>

definition acquire_lock :: "edx_server \<Rightarrow> string \<Rightarrow> bool aop" where
  "acquire_lock srv name = (\<lambda>s. let t = srv_meanwhile srv s in
     if name \<in> set (acs_locks t) then (Inr False, t) else (Inr True, t\<lparr>acs_locks := name # acs_locks t\<rparr>))"

definition release_lock :: "string \<Rightarrow> accounts \<Rightarrow> accounts" where
  "release_lock name s = s\<lparr>acs_locks := filter (\<lambda>x. x \<noteq> name) (acs_locks s)\<rparr>"

definition refresh_edx_user :: "OpenEdxUser \<Rightarrow> OpenEdxUser aop" where
  "refresh_edx_user r = bindP (gets (\<lambda>s. first (filter (\<lambda>x. oeu_id x = oeu_id r) (openedx_users s)))) (\<lambda>x.
     case x of None \<Rightarrow> raise ObjectDoesNotExist | Some x \<Rightarrow> ret x)"

definition create_edx_user_request ::
    "edx_server \<Rightarrow> OpenEdxUser \<Rightarrow> AppUser \<Rightarrow> string \<Rightarrow> (accounts, bool option) pyo" where
  "create_edx_user_request srv oeu user token =
     bindO (liftO (get_attemptable_username user (oeu_desired_edx_username oeu))) (\<lambda>name. case name of
       None \<Rightarrow> liftO (ret (Some False))
     | Some name \<Rightarrow>
       bindO (liftO (acquire_lock srv (user_lock user))) (\<lambda>got.
       if \<not> got then liftO (ret (Some False))
       else bindO (liftO (refresh_edx_user oeu)) (\<lambda>oeu.
         if oeu_has_been_synced oeu then liftO (ret (Some True))
         else finallyO
           (bindO (\<lambda>s. registration_loop srv user token oeu 0 name False None s)
              (\<lambda>x. liftO (after_registration oeu x)))
           (release_lock (user_lock user)))))"


section \<open>Usernames that are generated\<close>

lemma show_nat_fuel_length: "n < 10 ^ d \<Longrightarrow> 0 < d \<Longrightarrow> length (show_nat_fuel k n) \<le> d"
proof (induction k arbitrary: n d)
  case (Suc k)
  show ?case
  proof (cases "n < 10")
    case False
    with Suc.prems obtain d' where d: "d = Suc d'" "0 < d'" by (cases d; cases "d - 1") auto
    with Suc.prems False have "length (show_nat_fuel k (n div 10)) \<le> d'"
      by (intro Suc.IH) (simp_all add: less_mult_imp_div_less mult.commute)
    with False d show ?thesis by simp
  qed (use Suc.prems in simp)
qed simp

lemma show_nat_length: "n < 100000 \<Longrightarrow> length (show_nat n) \<le> 5"
  unfolding show_nat_def by (rule show_nat_fuel_length) simp_all

lemma candidate_length: "length base \<le> 48 \<Longrightarrow> n < 100000 \<Longrightarrow> length (candidate_username base n OPENEDX_USERNAME_MAX_LEN) \<le> 30"
  using show_nat_length [of n] by (auto simp: candidate_username_def OPENEDX_USERNAME_MAX_LEN_def Let_def min_def)

text \<open>What only draws numbers leaves the tables alone.\<close>

definition drawn :: "accounts \<Rightarrow> nat \<Rightarrow> accounts" where
  "drawn s n = s\<lparr>acs_drawn := n\<rparr>"

lemma drawn_simps [simp]:
  "openedx_users (drawn s n) = openedx_users s" "app_users (drawn s n) = app_users s"
  "acs_sent (drawn s n) = acs_sent s" "acs_locks (drawn s n) = acs_locks s" "acs_conf (drawn s n) = acs_conf s"
  "drawn (drawn s n) m = drawn s m" "username_exists (drawn s n) t = username_exists s t"
  "api_auths (drawn s n) = api_auths s"
  by (simp_all add: drawn_def username_exists_def)

lemma randint_run: "randint lo hi s = (Inr x, t) \<Longrightarrow> t = drawn s (Suc (acs_drawn s)) \<and> x \<le> max lo hi"
proof -
  assume run: "randint lo hi s = (Inr x, t)"
  define k where "k = acs_random s (acs_drawn s) mod (hi - lo + 1)"
  have "k < hi - lo + 1" unfolding k_def by (rule mod_less_divisor) simp
  moreover have "x = lo + k" "t = drawn s (Suc (acs_drawn s))" using run by (simp_all add: randint_def drawn_def k_def)
  ultimately show ?thesis by simp
qed

lemma try_usernames_Cons:
  "randint lo hi s = (Inr x, s1) \<Longrightarrow> try_usernames base m ((lo, hi) # ranges) s =
     (if username_exists s1 (Some (candidate_username base x m)) then try_usernames base m ranges s1
      else (Inr (Some (candidate_username base x m)), s1))"
  by (simp add: bindP_Inr [where m = "randint lo hi"] ret_def)

lemma try_usernames_run:
  assumes "try_usernames base m ranges s = (r, t)" "length base \<le> 48" "m = OPENEDX_USERNAME_MAX_LEN"
    "\<forall>(lo, hi) \<in> set ranges. lo < 100000 \<and> hi < 100000"
  shows "(\<exists>n. t = drawn s n) \<and> (\<exists>x. r = Inr x \<and> (\<forall>y. x = Some y \<longrightarrow> \<not> username_exists s (Some y) \<and> length y \<le> 30))"
  using assms
proof (induction ranges arbitrary: s)
  case Nil
  then have "r = Inr None" "t = s" by (simp_all add: ret_def)
  moreover have "s = drawn s (acs_drawn s)" by (simp add: drawn_def)
  ultimately show ?case by blast
next
  case (Cons p ranges)
  obtain lo hi where p: "p = (lo, hi)" by fastforce
  obtain x s1 where x: "randint lo hi s = (Inr x, s1)" by (simp add: randint_def)
  note s1 = randint_run [OF x, THEN conjunct1]
  have "x < 100000" using randint_run [OF x] Cons.prems(4) p by auto
  then have len: "length (candidate_username base x m) \<le> 30"
    using Cons.prems(2,3) candidate_length by simp
  show ?case
  proof (cases "username_exists s1 (Some (candidate_username base x m))")
    case True
    then have "try_usernames base m ranges s1 = (r, t)" using Cons.prems(1) p try_usernames_Cons [OF x] by simp
    from Cons.IH [OF this Cons.prems(2,3)] Cons.prems(4) show ?thesis by (auto simp: s1)
  next
    case False
    then have "r = Inr (Some (candidate_username base x m))" "t = s1"
      using Cons.prems(1) p try_usernames_Cons [OF x] by simp_all
    then show ?thesis using False len s1 by auto
  qed
qed

text \<open>A generated username is not taken here and fits its column, if the base has at most 48 characters.\<close>

lemma generate_unique_username_run:
  assumes "generate_unique_username base OPENEDX_USERNAME_MAX_LEN s = (r, t)" "\<And>b. base = Some b \<Longrightarrow> length b \<le> 48"
  shows "(\<exists>n. t = drawn s n) \<and> (\<exists>x. r = Inr x \<and> (\<forall>y. x = Some y \<longrightarrow> \<not> username_exists s (Some y) \<and> length y \<le> 30))"
  by (rule try_usernames_run [OF assms(1) [unfolded generate_unique_username_def]])
    (use assms(2) in \<open>auto simp: username_ranges_def split: option.splits\<close>)

text \<open>Whatever the base, only numbers are drawn.\<close>

lemma try_usernames_draws: "\<exists>x n. try_usernames base m ranges s = (Inr x, drawn s n)"
proof (induction ranges arbitrary: s)
  case Nil
  have "s = drawn s (acs_drawn s)" by (simp add: drawn_def)
  then show ?case by (auto simp: ret_def)
next
  case (Cons p ranges)
  obtain lo hi where p: "p = (lo, hi)" by fastforce
  obtain x s1 where x: "randint lo hi s = (Inr x, s1)" by (simp add: randint_def)
  note s1 = randint_run [OF x, THEN conjunct1]
  obtain y n where "try_usernames base m ranges s1 = (Inr y, drawn s1 n)" using Cons.IH by blast
  moreover have "s1 = drawn s1 (acs_drawn s1)" by (simp add: drawn_def)
  ultimately show ?case using p s1 try_usernames_Cons [OF x] by auto
qed

lemma candidate_nonempty: "candidate_username base n m \<noteq> []"
  using show_nat_digits(1) by (simp add: candidate_username_def Let_def)

lemma try_usernames_nonempty: "try_usernames base m ranges s = (Inr (Some y), t) \<Longrightarrow> y \<noteq> []"
proof (induction ranges arbitrary: s)
  case (Cons p ranges)
  obtain lo hi where p: "p = (lo, hi)" by fastforce
  obtain x s1 where x: "randint lo hi s = (Inr x, s1)" by (simp add: randint_def)
  show ?case using Cons.prems Cons.IH [of s1] candidate_nonempty
    unfolding p try_usernames_Cons [OF x] by (auto split: if_splits)
qed (simp add: ret_def)

lemma generate_nonempty: "generate_unique_username base m s = (Inr (Some y), t) \<Longrightarrow> y \<noteq> []"
  unfolding generate_unique_username_def by (rule try_usernames_nonempty)

lemma generate_draws: "\<exists>x n. generate_unique_username base m s = (Inr x, drawn s n)"
  unfolding generate_unique_username_def by (rule try_usernames_draws)

text \<open>With one username taken, the first two ranges already give a free one: their numbers differ in
  length.\<close>

lemma show_nat_digits_1: "n < 10 \<Longrightarrow> length (show_nat n) = 1"
  by (simp add: show_nat_def)

lemma show_nat_digits_2:
  assumes "10 \<le> n" "n < 100" shows "length (show_nat n) = 2"
proof -
  obtain k where k: "n = Suc k" using assms by (cases n) auto
  have "n div 10 < 10" using assms by auto
  then show ?thesis using assms k by (simp add: show_nat_def)
qed


lemma candidate_differs:
  assumes "m < 10" "10 \<le> n" "n < 100" "length base \<le> 26"
  shows "candidate_username base m OPENEDX_USERNAME_MAX_LEN \<noteq> candidate_username base n OPENEDX_USERNAME_MAX_LEN"
  using assms show_nat_digits_1 [of m] show_nat_digits_2 [of n]
  by (auto simp: candidate_username_def OPENEDX_USERNAME_MAX_LEN_def dest: arg_cong [where f = length])

lemma randint_first: "\<exists>x. randint 0 9 s = (Inr x, drawn s (Suc (acs_drawn s))) \<and> x < 10"
  by (simp add: randint_def drawn_def less_Suc_eq_le [symmetric])

lemma randint_second: "\<exists>x. randint 10 99 s = (Inr x, drawn s (Suc (acs_drawn s))) \<and> 10 \<le> x \<and> x < 100"
  by (simp add: randint_def drawn_def)

text \<open>No other learner has one of the first candidates for a username.\<close>

definition candidates_free :: "accounts \<Rightarrow> nat \<Rightarrow> string \<Rightarrow> bool" where
  "candidates_free s u base \<longleftrightarrow>
     list_all (\<lambda>n. \<not> taken_elsewhere s u (candidate_username base n OPENEDX_USERNAME_MAX_LEN)) [0..<100]"

lemma candidates_freeD:
  "candidates_free s u base \<Longrightarrow> n < 100 \<Longrightarrow> \<not> taken_elsewhere s u (candidate_username base n OPENEDX_USERNAME_MAX_LEN)"
  by (simp add: candidates_free_def list_all_iff)

text \<open>Then a username is always generated: if the candidate of the first range is the learner's own, that
  of the second is longer.\<close>

lemma generate_room:
  assumes free: "candidates_free s u base" and base: "length base \<le> 26"
    and own: "\<forall>x \<in> set (openedx_users s). oeu_user x = u \<longrightarrow> oeu_edx_username x = nm"
  obtains y n where "generate_unique_username (Some base) OPENEDX_USERNAME_MAX_LEN s = (Inr (Some y), drawn s n)"
    "length y \<le> 30" "\<not> taken_elsewhere s u y"
proof -
  obtain x where x: "randint 0 9 s = (Inr x, drawn s (Suc (acs_drawn s)))" "x < 10" using randint_first by blast
  obtain z where z: "randint 10 99 (drawn s (Suc (acs_drawn s)))
      = (Inr z, drawn s (Suc (Suc (acs_drawn s))))" "10 \<le> z" "z < 100"
    using randint_second [of "drawn s (Suc (acs_drawn s))"] by (auto simp: drawn_def)
  let ?c = "\<lambda>n. candidate_username base n OPENEDX_USERNAME_MAX_LEN"
  have len: "length (?c n) \<le> 30" if "n < 100" for n using candidate_length base that by simp
  have exists: "nm = Some (?c n)" if "username_exists s (Some (?c n))" "n < 100" for n
    using that own candidates_freeD [OF free that(2)] by (auto simp: username_exists_def taken_elsewhere_def exists_row_iff)
  show ?thesis
  proof (cases "username_exists s (Some (?c x))")
    case False
    then have "generate_unique_username (Some base) OPENEDX_USERNAME_MAX_LEN s
        = (Inr (Some (?c x)), drawn s (Suc (acs_drawn s)))"
      using try_usernames_Cons [OF x(1)] by (simp add: generate_unique_username_def username_ranges_def)
    then show ?thesis using that len [of x] x(2) candidates_freeD [OF free] by simp
  next
    case True
    then have "\<not> username_exists s (Some (?c z))"
      using exists [of x] exists [of z] candidate_differs [OF x(2) z(2,3) base] x(2) z(3) by auto
    then have "generate_unique_username (Some base) OPENEDX_USERNAME_MAX_LEN s
        = (Inr (Some (?c z)), drawn s (Suc (Suc (acs_drawn s))))"
      using True try_usernames_Cons [OF x(1)] try_usernames_Cons [OF z(1)]
      by (simp add: generate_unique_username_def username_ranges_def)
    then show ?thesis using that len [of z] z(3) candidates_freeD [OF free] by simp
  qed
qed

section \<open>A server that never gives way\<close>

text \<open>It answers every registration with a conflict of usernames and suggests none.\<close>

definition stubborn :: "edx_server \<Rightarrow> bool" where
  "stubborn srv \<longleftrightarrow> (\<forall>h n e d k. \<exists>r kvs. srv_answer srv h (RegisterUser n e d k) = Inr r \<and> rsp_status r = 409
     \<and> rsp_body r = Some (JObj kvs) \<and> map_of kvs ''error_code'' = Some (JStr ''duplicate-username'')
     \<and> map_of kvs ''username_suggestions'' = None)"

text \<open>The learner has one row, and the other learners leave room for the usernames that are generated.\<close>

definition room :: "OpenEdxUser \<Rightarrow> string \<Rightarrow> accounts \<Rightarrow> bool" where
  "room oeu base s \<longleftrightarrow> candidates_free s (oeu_user oeu) base
     \<and> list_all (\<lambda>x. oeu_id x = oeu_id oeu \<longleftrightarrow> oeu_user x = oeu_user oeu) (openedx_users s)"

lemma save_room:
  assumes room: "room oeu base s" and r: "oeu_id r = oeu_id oeu" "oeu_user r = oeu_user oeu" "oeu_edx_username r = Some name"
    and len: "\<not> too_long (Some name)" "\<not> too_long (oeu_desired_edx_username r)"
    and free: "\<not> taken_elsewhere s (oeu_user oeu) name"
  shows "save_edx_user r s = (Inr (), s\<lparr>openedx_users := put_row oeu_id r (openedx_users s)\<rparr>)"
proof -
  have "\<not> clashes oeu_id edx_conflict r (openedx_users s)"
    using room r free
    by (auto simp: clashes_def exists_row_iff edx_conflict_def room_def list_all_iff taken_elsewhere_def)
  then show ?thesis using r(3) len by (simp add: save_edx_user_def modify_def)
qed

lemma taken_put_row:
  assumes "list_all (\<lambda>x. oeu_id x = oeu_id oeu \<longleftrightarrow> oeu_user x = oeu_user oeu) (openedx_users s)"
    "oeu_id r = oeu_id oeu" "oeu_user r = oeu_user oeu" "openedx_users t = put_row oeu_id r (openedx_users s)"
  shows "taken_elsewhere t (oeu_user oeu) = taken_elsewhere s (oeu_user oeu)"
  using assms unfolding taken_elsewhere_def exists_row_iff list_all_iff fun_eq_iff
  by (metis put_row_other put_row_set)

lemma room_put_row:
  assumes "room oeu base s" "oeu_id r = oeu_id oeu" "oeu_user r = oeu_user oeu"
    "openedx_users t = put_row oeu_id r (openedx_users s)"
  shows "room oeu base t" "\<forall>x \<in> set (openedx_users t). oeu_user x = oeu_user oeu \<longrightarrow> x = r"
    "taken_elsewhere t (oeu_user oeu) = taken_elsewhere s (oeu_user oeu)"
  using assms taken_put_row [of oeu s r t]
  by (auto simp: room_def candidates_free_def list_all_iff dest!: put_row_set)

lemma stubborn_step:
  assumes srv: "stubborn srv" and room: "room oeu base s" and data: "build_user_data user = Inr d"
    and base: "oeu_desired_edx_username oeu = Some base" "base \<noteq> []" "length base \<le> 26"
    and name: "length name \<le> 30" "\<not> taken_elsewhere s (oeu_user oeu) name"
  obtains y r t where "registration_step srv user token oeu a name tried s = (Inr (Again 0 y tried (name, r)), t)"
    "room oeu base t" "length y \<le> 30" "\<not> taken_elsewhere t (oeu_user oeu) y"
proof -
  let ?row = "oeu\<lparr>oeu_edx_username := Some name\<rparr>"
  let ?q = "RegisterUser name (au_email user) d token"
  define s1 where "s1 = s\<lparr>openedx_users := put_row oeu_id ?row (openedx_users s)\<rparr>"
  define s2 where "s2 = s1\<lparr>acs_sent := acs_sent s1 @ [?q]\<rparr>"
  have save: "save_edx_user ?row s = (Inr (), s1)"
    unfolding s1_def by (rule save_room [OF room _ _ _ _ _ name(2)])
      (use name base in \<open>simp_all add: too_long_def OPENEDX_USERNAME_MAX_LEN_def\<close>)
  obtain r kvs where r: "srv_answer srv (acs_sent s1) ?q = Inr r" "rsp_status r = 409" "rsp_body r = Some (JObj kvs)"
      "map_of kvs ''error_code'' = Some (JStr ''duplicate-username'')" "map_of kvs ''username_suggestions'' = None"
    using srv unfolding stubborn_def by metis
  have sent: "send_request srv ?q s1 = (Inr r, s2)" by (simp add: send_request_def r s2_def)
  have s2: "room oeu base s2" "\<forall>x \<in> set (openedx_users s2). oeu_user x = oeu_user oeu \<longrightarrow> x = ?row"
    by (rule room_put_row [OF room, of ?row]; simp add: s1_def s2_def)+
  have "oeu_edx_username x = Some name" if "x \<in> set (openedx_users s2)" "oeu_user x = oeu_user oeu" for x
  proof -
    have "x = ?row" using s2(2) that by blast
    then show ?thesis by simp
  qed
  moreover have "candidates_free s2 (oeu_user oeu) base" using s2(1) by (simp add: room_def)
  ultimately obtain y n where
    y: "generate_unique_username (Some base) OPENEDX_USERNAME_MAX_LEN s2 = (Inr (Some y), drawn s2 n)"
      "length y \<le> 30" "\<not> taken_elsewhere s2 (oeu_user oeu) y"
    using generate_room [OF _ base(3), of s2 "oeu_user oeu" "Some name"] by blast
  have "y \<noteq> []" using generate_nonempty [OF y(1)] .
  then have "handle_username_collision r (JObj kvs) ?row user [] False s2 = (Inr (Some y, True, True), drawn s2 n)"
    using r y base by (simp add: handle_username_collision_def is_duplicate_username_error_def is_conflict_with_def
        dict_get_def liftE_bind extract_username_suggestions_def jget_def json_texts_def free_suggestions_def
        bindP_Inr [where m = "generate_unique_username (Some base) OPENEDX_USERNAME_MAX_LEN"] ret_def)
  then have "registration_step srv user token oeu a name tried s = (Inr (Again 0 y tried (name, r)), drawn s2 n)"
    using r by (simp add: registration_step_def registration_answered_def Let_def thenP_Inr [where m = "save_edx_user ?row", OF save]
        liftE_bind data bindP_Inr [where m = "send_request srv ?q", OF sent] parse_openedx_response_def
        is_duplicate_email_error_def is_conflict_with_def dict_get_def
        bindP_Inr [where m = "handle_username_collision r (JObj kvs) ?row user [] False"] ret_def)
  moreover have "taken_elsewhere (drawn s2 n) = taken_elsewhere s2" by (intro ext) (simp add: taken_elsewhere_def)
  moreover from this have "room oeu base (drawn s2 n)" using s2(1) by (simp add: room_def candidates_free_def)
  ultimately show ?thesis using that y(2,3) by simp
qed

text \<open>Then the loop never returns: each username that is generated here starts the attempts anew.\<close>

lemma stubborn_loop:
  assumes "stubborn srv" "build_user_data user = Inr d" "oeu_desired_edx_username oeu = Some base" "base \<noteq> []"
    "length base \<le> 26" "room oeu base s" "length name \<le> 30" "\<not> taken_elsewhere s (oeu_user oeu) name" "a < max_attempts"
  shows "registration_loop srv user token oeu a name tried latest s = None"
proof (rule ccontr)
  assume "registration_loop srv user token oeu a name tried latest s \<noteq> None"
  then obtain z where z: "registration_loop srv user token oeu a name tried latest s = Some z" by auto
  define P where "P = (\<lambda>srv user (token :: string) oeu a (name :: string) (tried :: bool) (latest :: (string \<times> http_response) option) s
      (z :: (exn + step_result) \<times> accounts). room oeu base s \<longrightarrow> length name \<le> 30 \<longrightarrow>
      \<not> taken_elsewhere s (oeu_user oeu) name \<longrightarrow> a < max_attempts \<longrightarrow>
      build_user_data user = Inr d \<longrightarrow> oeu_desired_edx_username oeu = Some base \<longrightarrow> stubborn srv \<longrightarrow> False)"
  have "P srv user token oeu a name tried latest s z"
  proof (rule registration_loop.raw_induct [of P, OF _ z])
    fix loop srv user token oeu a name tried latest s z
    assume ih: "\<And>srv user token oeu a name tried latest s z.
        loop srv user token oeu a name tried latest s = Some z \<Longrightarrow> P srv user token oeu a name tried latest s z"
      and run: "(if max_attempts \<le> a
          then Some (case latest of None \<Rightarrow> Inl PyAttributeError | Some (n, r) \<Rightarrow> Inr (Broke n r), s)
          else (case registration_step srv user token oeu a name tried s of
              (Inl e, t) \<Rightarrow> Some (Inl e, t)
            | (Inr (Again a n d r), t) \<Rightarrow> loop srv user token oeu a n d (Some r) t
            | (Inr x, t) \<Rightarrow> Some (Inr x, t))) = Some z"
    show "P srv user token oeu a name tried latest s z"
      unfolding P_def
    proof (intro impI)
      assume s: "room oeu base s" "length name \<le> 30" "\<not> taken_elsewhere s (oeu_user oeu) name" "a < max_attempts"
        "build_user_data user = Inr d" "oeu_desired_edx_username oeu = Some base" "stubborn srv"
      obtain y r t where step: "registration_step srv user token oeu a name tried s = (Inr (Again 0 y tried (name, r)), t)"
        "room oeu base t" "length y \<le> 30" "\<not> taken_elsewhere t (oeu_user oeu) y"
        using stubborn_step [OF s(7) s(1) s(5) s(6) assms(4,5) s(2,3)] by metis
      have "loop srv user token oeu 0 y tried (Some (name, r)) t = Some z"
        using run s(4) step(1) by simp
      from ih [OF this] show False using s step by (simp add: P_def max_attempts_def)
    qed
  qed
  then show False using assms by (simp add: P_def)
qed


section \<open>A server that helps\<close>

text \<open>With each conflict of usernames it suggests one that is not taken here.\<close>

definition helpful :: "edx_server \<Rightarrow> (string \<Rightarrow> bool) \<Rightarrow> bool" where
  "helpful srv taken \<longleftrightarrow> (\<forall>h n e d k r kvs. srv_answer srv h (RegisterUser n e d k) = Inr r \<longrightarrow> rsp_status r = 409 \<longrightarrow>
     rsp_body r = Some (JObj kvs) \<longrightarrow> map_of kvs ''error_code'' = Some (JStr ''duplicate-username'') \<longrightarrow>
     list_ex (\<lambda>t. \<not> taken t) (json_texts (map_of kvs ''username_suggestions'')))"

text \<open>The rows of the other users stay as they are: the row that is saved is the user's own.\<close>

definition own_row :: "OpenEdxUser \<Rightarrow> accounts \<Rightarrow> bool" where
  "own_row oeu s \<longleftrightarrow> list_all (\<lambda>x. oeu_id x = oeu_id oeu \<longrightarrow> oeu_user x = oeu_user oeu) (openedx_users s)"

definition others_are :: "OpenEdxUser \<Rightarrow> (string \<Rightarrow> bool) \<Rightarrow> accounts \<Rightarrow> bool" where
  "others_are oeu taken s \<longleftrightarrow> own_row oeu s \<and> taken_elsewhere s (oeu_user oeu) = taken"

lemma save_others:
  assumes "oeu_id r = oeu_id oeu" "oeu_user r = oeu_user oeu"
  shows "keeps (others_are oeu taken) (save_edx_user r)"
proof (rule keepsI)
  fix s assume s: "others_are oeu taken s"
  have "exists_row (\<lambda>x. oeu_edx_username x = Some n \<and> oeu_user x \<noteq> oeu_user oeu) (put_row oeu_id r (openedx_users s))
      = exists_row (\<lambda>x. oeu_edx_username x = Some n \<and> oeu_user x \<noteq> oeu_user oeu) (openedx_users s)" for n
    using s assms unfolding others_are_def own_row_def list_all_iff exists_row_iff
    by (metis put_row_other put_row_set)
  then show "others_are oeu taken (snd (save_edx_user r s))"
    using s assms by (auto simp: save_edx_user_def raise_def modify_def others_are_def own_row_def taken_elsewhere_def
        list_all_iff fun_eq_iff dest!: put_row_set)
qed

lemma keeps_send: "(\<And>s xs. P s \<Longrightarrow> P (s\<lparr>acs_sent := xs\<rparr>)) \<Longrightarrow> keeps P (send_request srv q)"
  by (simp add: keeps_def send_request_def)

lemma keeps_generate: "(\<And>s n. P s \<Longrightarrow> P (drawn s n)) \<Longrightarrow> keeps P (generate_unique_username base m)"
proof (rule keepsI)
  fix s assume P: "\<And>s n. P s \<Longrightarrow> P (drawn s n)" "P s"
  obtain x n where "generate_unique_username base m s = (Inr x, drawn s n)" using generate_draws by blast
  then show "P (snd (generate_unique_username base m s))" using P by simp
qed

lemma collision_keeps: "(\<And>s n. P s \<Longrightarrow> P (drawn s n)) \<Longrightarrow> keeps P (handle_username_collision r data oeu user ts b)"
  unfolding handle_username_collision_def Let_def by (intro keeps_intro keeps_generate) auto

lemma step_keeps:
  assumes "keeps P (save_edx_user (oeu\<lparr>oeu_edx_username := Some name\<rparr>))"
    "keeps P (save_edx_user (oeu\<lparr>oeu_edx_username := Some name, oeu_has_been_synced := True\<rparr>))"
    "\<And>s xs. P s \<Longrightarrow> P (s\<lparr>acs_sent := xs\<rparr>)" "\<And>s n. P s \<Longrightarrow> P (drawn s n)"
  shows "keeps P (registration_step srv user token oeu a name tried)"
  unfolding registration_step_def registration_answered_def Let_def
  by (intro keeps_intro keeps_send collision_keeps) (use assms in auto)

lemma step_others: "keeps (others_are oeu taken) (registration_step srv user token oeu a name tried)"
  by (rule step_keeps) (auto intro: save_others simp: others_are_def own_row_def taken_elsewhere_def drawn_def fun_eq_iff)

text \<open>How much an operation adds to a quantity at most.\<close>

definition adds :: "('s \<Rightarrow> nat) \<Rightarrow> nat \<Rightarrow> ('s, 'a) py \<Rightarrow> bool" where
  "adds f n m \<longleftrightarrow> (\<forall>s. f (snd (m s)) \<le> f s + n)"

lemma adds_keeps: "(\<And>k. keeps (\<lambda>s. f s \<le> k) m) \<Longrightarrow> adds f 0 m"
  unfolding adds_def keeps_def by simp

lemma adds_bindP:
  assumes m: "adds f a m" and g: "\<And>x. adds f b (g x)"
  shows "adds f (a + b) (bindP m g)"
  unfolding adds_def
proof
  fix s
  have "f (snd (m s)) \<le> f s + a" using m by (simp add: adds_def)
  moreover have "f (snd (g x t)) \<le> f t + b" for x t using g by (simp add: adds_def)
  ultimately show "f (snd (bindP m g s)) \<le> f s + (a + b)"
    unfolding bindP_def by (auto split: prod.splits sum.splits) (metis add_le_mono1 add.assoc order_trans snd_conv)
qed

definition registrations :: "accounts \<Rightarrow> nat" where
  "registrations s = count_rows (\<lambda>q. case q of RegisterUser _ _ _ _ \<Rightarrow> True | _ \<Rightarrow> False) (acs_sent s)"


lemma adds_first: "adds f 0 m \<Longrightarrow> (\<And>x. adds f n (g x)) \<Longrightarrow> adds f n (bindP m g)"
  using adds_bindP [of f 0 m n g] by simp

lemma adds_last: "adds f n m \<Longrightarrow> (\<And>x. adds f 0 (g x)) \<Longrightarrow> adds f n (bindP m g)"
  using adds_bindP [of f n m 0 g] by simp

lemma save_registrations: "keeps (\<lambda>s. registrations s \<le> k) (save_edx_user r)"
  by (auto simp: keeps_def save_edx_user_def raise_def modify_def registrations_def)

lemma step_registrations: "adds registrations 1 (registration_step srv user token oeu a name tried)"
  unfolding registration_step_def registration_answered_def Let_def thenP_def
  apply (rule adds_first, rule adds_keeps, rule save_registrations)
  apply (rule adds_first, rule adds_keeps, rule keeps_liftE)
  apply (rule adds_last, simp add: adds_def send_request_def registrations_def)
  apply (rule adds_keeps, intro keeps_intro save_registrations collision_keeps)
   apply (simp_all add: keeps_def send_request_def registrations_def drawn_def)
  done

lemma after_registration_registrations: "registrations (snd (after_registration oeu x s)) \<le> registrations s"
proof -
  have "keeps (\<lambda>t. registrations t \<le> registrations s) (after_registration oeu x)"
    unfolding after_registration_def set_edx_error_def raise_for_status_def
    by (cases x) (auto intro!: keeps_intro save_registrations)
  then show ?thesis by (rule keepsD) simp
qed

text \<open>With suggestions that can be used every round counts, so that the loop ends.\<close>

lemma helpful_again:
  assumes "helpful srv taken" "others_are oeu taken s" "oeu_user oeu = au_id user"
    "registration_step srv user token oeu a name tried s = (Inr (Again a' n d r), t)"
  shows "a' = Suc a"
proof -
  let ?row = "oeu\<lparr>oeu_edx_username := Some name\<rparr>"
  let ?q = "\<lambda>dat. RegisterUser name (au_email user) dat token"
  let ?h = "\<lambda>w. handle_username_collision w (parse_openedx_response w) ?row user [] False"
  from assms(4) obtain s1 dat w s2 where save: "save_edx_user ?row s = (Inr (), s1)"
    and sent: "send_request srv (?q dat) s1 = (Inr w, s2)"
    and answered: "registration_answered srv user ?row a name tried w s2 = (Inr (Again a' n d r), t)"
    unfolding registration_step_def Let_def by (auto simp: run_eqs)
  have rest: "a' = Suc a \<or> (\<exists>y c u. ?h w s2 = (Inr (Some y, c, True), u))"
  proof (cases "?h w s2")
    case (Pair z u)
    then show ?thesis using answered unfolding registration_answered_def Let_def
      by (cases z) (auto simp: run_eqs split: if_splits option.splits)
  qed
  have s1: "others_are oeu taken s1"
    using keepsD [OF save_others [of ?row oeu taken] assms(2)] save by simp
  have w: "srv_answer srv (acs_sent s1) (?q dat) = Inr w" and s2: "openedx_users s2 = openedx_users s1"
    using sent by (auto simp: send_request_def)
  have taken: "taken_elsewhere s2 (au_id user) = taken"
    using s1 assms(3) s2 by (simp add: others_are_def taken_elsewhere_def fun_eq_iff)
  have free: False if "?h w s2 = (Inr (Some y, c, True), u)" for y c u
  proof -
    from that have dup: "is_duplicate_username_error w (parse_openedx_response w) = Inr True"
      unfolding handle_username_collision_def Let_def by (auto simp: run_eqs split: if_splits)
    then obtain kvs where kvs: "rsp_status w = 409" "rsp_body w = Some (JObj kvs)"
        "map_of kvs ''error_code'' = Some (JStr ''duplicate-username'')"
      by (auto simp: is_duplicate_username_error_def is_conflict_with_def dict_get_def parse_openedx_response_def
          split: if_splits json.splits option.splits)
    then have ex: "list_ex (\<lambda>t. \<not> taken t) (json_texts (map_of kvs ''username_suggestions''))"
      using assms(1) w unfolding helpful_def by blast
    then have ne: "json_texts (map_of kvs ''username_suggestions'') \<noteq> []" by auto
    obtain z zs where z: "free_suggestions s2 user (json_texts (map_of kvs ''username_suggestions'')) = z # zs"
      using ex unfolding free_suggestions_def taken
      by (cases "filter (\<lambda>t. \<not> taken t) (json_texts (map_of kvs ''username_suggestions''))")
        (auto simp: list_ex_iff filter_empty_conv)
    show False using that dup kvs z ne
      by (simp add: handle_username_collision_def liftE_bind extract_username_suggestions_def jget_def
          parse_openedx_response_def ret_def)
  qed
  show ?thesis using rest free by blast
qed

lemma helpful_loop:
  assumes "helpful srv taken" "others_are oeu taken s" "oeu_user oeu = au_id user"
  shows "\<exists>r t. registration_loop srv user token oeu a name tried latest s = Some (r, t)
     \<and> registrations t \<le> registrations s + (max_attempts - a)"
  using assms(2)
proof (induction "max_attempts - a" arbitrary: a name tried latest s)
  case 0
  then show ?case by (simp add: registration_loop.simps)
next
  case (Suc k)
  obtain res t where step: "registration_step srv user token oeu a name tried s = (res, t)" by fastforce
  have t: "others_are oeu taken t" using keepsD [OF step_others Suc.prems] step by (metis snd_conv)
  have more: "registrations t \<le> Suc (registrations s)"
    using step_registrations [of srv user token oeu a name tried] step by (auto simp: adds_def dest!: spec [where x = s])
  show ?case
  proof (cases "\<exists>a' n d r. res = Inr (Again a' n d r)")
    case True
    then obtain a' n d r where res: "res = Inr (Again a' n d r)" by blast
    then have a': "a' = Suc a" using helpful_again [OF assms(1) Suc.prems assms(3)] step by blast
    have "k = max_attempts - a'" using Suc(2) a' by simp
    from Suc.hyps(1) [OF this t] obtain z u where
      "registration_loop srv user token oeu a' n d (Some r) t = Some (z, u)" "registrations u \<le> registrations t + (max_attempts - a')"
      by blast
    then show ?thesis using step res more Suc(2) a' by (subst registration_loop.simps) auto
  next
    case False
    then have "registration_loop srv user token oeu a name tried latest s = Some (res, t)"
      using step Suc(2) by (subst registration_loop.simps) (auto split: sum.splits step_result.splits)
    then show ?thesis using more Suc(2) by auto
  qed
qed


section \<open>What a registration has done\<close>

text \<open>The user was registered: the row carries the username that Open edX accepted.\<close>

definition registered_as :: "edx_server \<Rightarrow> AppUser \<Rightarrow> string \<Rightarrow> OpenEdxUser \<Rightarrow> accounts \<Rightarrow> bool" where
  "registered_as srv user token oeu t \<longleftrightarrow> (\<exists>name h d r.
     first (filter (\<lambda>x. oeu_id x = oeu_id oeu) (openedx_users t))
       = Some (oeu\<lparr>oeu_edx_username := Some name, oeu_has_been_synced := True\<rparr>)
     \<and> acs_sent t = h @ [RegisterUser name (au_email user) d token]
     \<and> srv_answer srv h (RegisterUser name (au_email user) d token) = Inr r \<and> rsp_status r = 200)"

lemma save_edx_user_Inr: "save_edx_user r s = (Inr x, t) \<Longrightarrow>
    t = s\<lparr>openedx_users := put_row oeu_id r (openedx_users s)\<rparr>
    \<and> \<not> too_long (oeu_edx_username r) \<and> \<not> clashes oeu_id edx_conflict r (openedx_users s)"
  by (auto simp: save_edx_user_def run_eqs split: if_splits)

lemma step_returned:
  assumes "registration_step srv user token oeu a name tried s = (Inr (Returned b), t)"
  shows "b \<and> registered_as srv user token oeu t"
proof -
  let ?row = "oeu\<lparr>oeu_edx_username := Some name\<rparr>"
  let ?done = "?row\<lparr>oeu_has_been_synced := True\<rparr>"
  from assms obtain s1 d w s2 where save: "save_edx_user ?row s = (Inr (), s1)"
    and sent: "send_request srv (RegisterUser name (au_email user) d token) s1 = (Inr w, s2)"
    and answered: "registration_answered srv user ?row a name tried w s2 = (Inr (Returned b), t)"
    unfolding registration_step_def Let_def by (auto simp: run_eqs)
  from answered have w: "rsp_status w = 200" and t: "save_edx_user ?done s2 = (Inr (), t)" and b
    unfolding registration_answered_def Let_def by (auto simp: run_eqs split: if_splits option.splits prod.splits)
  have "first (filter (\<lambda>x. oeu_id x = oeu_id oeu) (openedx_users t)) = Some ?done"
    using save_edx_user_Inr [OF t] first_put_row [of oeu_id ?done] by simp
  moreover have "acs_sent t = acs_sent s1 @ [RegisterUser name (au_email user) d token]"
    using save_edx_user_Inr [OF t] sent by (auto simp: send_request_def)
  moreover have "srv_answer srv (acs_sent s1) (RegisterUser name (au_email user) d token) = Inr w"
    using sent by (auto simp: send_request_def)
  ultimately show ?thesis using w \<open>b\<close> unfolding registered_as_def by blast
qed

lemma loop_returned:
  assumes "registration_loop srv user token oeu a name tried latest s = Some (Inr (Returned b), t)"
  shows "b \<and> registered_as srv user token oeu t"
proof -
  define P where "P = (\<lambda>srv user token oeu (a :: nat) (name :: string) (tried :: bool)
      (latest :: (string \<times> http_response) option) (s :: accounts) (z :: (exn + step_result) \<times> accounts).
      \<forall>b t. z = (Inr (Returned b), t) \<longrightarrow> b \<and> registered_as srv user token oeu t)"
  have "P srv user token oeu a name tried latest s (Inr (Returned b), t)"
  proof (rule registration_loop.raw_induct [of P, OF _ assms])
    fix loop srv user token oeu a name tried latest s z
    assume ih: "\<And>srv user token oeu a name tried latest s z.
        loop srv user token oeu a name tried latest s = Some z \<Longrightarrow> P srv user token oeu a name tried latest s z"
      and run: "(if max_attempts \<le> a
          then Some (case latest of None \<Rightarrow> Inl PyAttributeError | Some (n, r) \<Rightarrow> Inr (Broke n r), s)
          else (case registration_step srv user token oeu a name tried s of
              (Inl e, t) \<Rightarrow> Some (Inl e, t)
            | (Inr (Again a n d r), t) \<Rightarrow> loop srv user token oeu a n d (Some r) t
            | (Inr x, t) \<Rightarrow> Some (Inr x, t))) = Some z"
    show "P srv user token oeu a name tried latest s z"
      unfolding P_def
    proof (intro allI impI)
      fix b t assume z: "z = (Inr (Returned b), t)"
      obtain res u where step: "registration_step srv user token oeu a name tried s = (res, u)" by fastforce
      show "b \<and> registered_as srv user token oeu t"
      proof (cases "\<exists>a' n d r. res = Inr (Again a' n d r)")
        case True
        then obtain a' n d r where res: "res = Inr (Again a' n d r)" by blast
        have "loop srv user token oeu a' n d (Some r) u = Some z"
          using run step z res by (auto split: if_splits option.splits)
        from ih [OF this] z show ?thesis by (simp add: P_def)
      next
        case False
        then have "res = Inr (Returned b)" "u = t"
          using run step z by (auto split: if_splits option.splits sum.splits step_result.splits)
        then show ?thesis using step_returned step by blast
      qed
    qed
  qed
  then show ?thesis by (simp add: P_def)
qed

lemma loop_never_again:
  assumes "registration_loop srv user token oeu a name tried latest s = Some (Inr (Again a' n d r), t)"
  shows False
proof -
  define P where "P = (\<lambda>(srv :: edx_server) (user :: AppUser) (token :: string) (oeu :: OpenEdxUser) (a :: nat) (name :: string)
      (tried :: bool) (latest :: (string \<times> http_response) option) (s :: accounts) (z :: (exn + step_result) \<times> accounts).
      \<forall>a n d r t. z \<noteq> (Inr (Again a n d r), t))"
  have "P srv user token oeu a name tried latest s (Inr (Again a' n d r), t)"
    by (rule registration_loop.raw_induct [of P, OF _ assms])
      (force simp: P_def split: if_splits option.splits prod.splits sum.splits step_result.splits)
  then show False unfolding P_def by blast
qed

lemma after_returned: "after_registration oeu x s = (Inr (Some True), t) \<Longrightarrow> x = Returned True \<and> t = s"
  by (auto simp: after_registration_def run_eqs raise_for_status_def split: step_result.splits if_splits)

text \<open>The state in which the registration finds the lock.\<close>

definition locked_state :: "edx_server \<Rightarrow> AppUser \<Rightarrow> accounts \<Rightarrow> accounts" where
  "locked_state srv user s =
     (srv_meanwhile srv s)\<lparr>acs_locks := user_lock user # acs_locks (srv_meanwhile srv s)\<rparr>"

definition row_with_id :: "nat \<Rightarrow> accounts \<Rightarrow> OpenEdxUser option" where
  "row_with_id i s = first (filter (\<lambda>x. oeu_id x = i) (openedx_users s))"

lemma liftO_app: "liftO m s = Some (m s)"
  by (simp add: liftO_def)

lemma bindO_None: "m s = None \<Longrightarrow> bindO m f s = None"
  by (simp add: bindO_def)

lemma get_attemptable_draws: "\<exists>x n. get_attemptable_username user d s = (Inr x, drawn s n)"
proof -
  have "s = drawn s (acs_drawn s)" by (simp add: drawn_def)
  moreover obtain y m where "generate_unique_username d OPENEDX_USERNAME_MAX_LEN s = (Inr y, drawn s m)"
    using generate_draws by blast
  ultimately show ?thesis unfolding get_attemptable_username_def by (simp add: ret_def) metis
qed

lemma create_edx_user_request_run:
  assumes "create_edx_user_request srv oeu user token s = Some (res, t)"
  obtains (unnamed) n where "res = Inr (Some False)" "t = drawn s n"
  | (busy) n where "res = Inr (Some False)" "t = srv_meanwhile srv (drawn s n)" "user_lock user \<in> set (acs_locks t)"
  | (gone) n where "res = Inl ObjectDoesNotExist" "t = locked_state srv user (drawn s n)"
      "row_with_id (oeu_id oeu) t = None"
  | (synced) n row where "res = Inr (Some True)" "t = locked_state srv user (drawn s n)"
      "row_with_id (oeu_id oeu) t = Some row" "oeu_has_been_synced row"
  | (tried) n row name u where "row_with_id (oeu_id oeu) (locked_state srv user (drawn s n)) = Some row"
      "\<not> oeu_has_been_synced row" "t = release_lock (user_lock user) u"
      "bindO (\<lambda>s. registration_loop srv user token row 0 name False None s) (\<lambda>x. liftO (after_registration row x))
         (locked_state srv user (drawn s n)) = Some (res, u)"
proof -
  obtain x n where name: "get_attemptable_username user (oeu_desired_edx_username oeu) s = (Inr x, drawn s n)"
    using get_attemptable_draws by blast
  show ?thesis
  proof (cases x)
    case None
    then have "(res, t) = (Inr (Some False), drawn s n)"
      using assms name by (simp add: create_edx_user_request_def liftO_bind ret_def liftO_app)
    then show ?thesis using that(1) by simp
  next
    case (Some nm)
    let ?m = "srv_meanwhile srv (drawn s n)"
    let ?l = "locked_state srv user (drawn s n)"
    show ?thesis
    proof (cases "user_lock user \<in> set (acs_locks ?m)")
      case True
      then have "(res, t) = (Inr (Some False), ?m)" using assms name Some
        by (simp add: create_edx_user_request_def liftO_bind acquire_lock_def ret_def liftO_app)
      then show ?thesis using that(2) True by simp
    next
      case False
      then have got: "acquire_lock srv (user_lock user) (drawn s n) = (Inr True, ?l)"
        by (simp add: acquire_lock_def locked_state_def Let_def)
      show ?thesis
      proof (cases "row_with_id (oeu_id oeu) ?l")
        case None
        then have "(res, t) = (Inl ObjectDoesNotExist, ?l)" using assms name Some got
          by (simp add: create_edx_user_request_def liftO_bind refresh_edx_user_def row_with_id_def raise_def)
        then show ?thesis using that(3) None by simp
      next
        case (Some row)
        then have row: "refresh_edx_user oeu ?l = (Inr row, ?l)" by (simp add: refresh_edx_user_def row_with_id_def ret_def)
        show ?thesis
        proof (cases "oeu_has_been_synced row")
          case True
          then have "(res, t) = (Inr (Some True), ?l)" using assms name \<open>x = Some nm\<close> got row
            by (simp add: create_edx_user_request_def liftO_bind ret_def liftO_app)
          then show ?thesis using that(4) Some True by simp
        next
          case False
          then show ?thesis using assms name \<open>x = Some nm\<close> got row that(5) [OF Some False]
            by (auto simp: create_edx_user_request_def liftO_bind finallyO_def ret_def)
        qed
      qed
    qed
  qed
qed


text \<open>An answer of \<open>True\<close> is true: Open edX has just accepted the username of the row, or another process
  had registered the user before.\<close>

lemma create_edx_user_request_True:
  assumes "create_edx_user_request srv oeu user token s = Some (Inr (Some True), t)"
  shows "(\<exists>n row. row_with_id (oeu_id oeu) (srv_meanwhile srv (drawn s n)) = Some row
      \<and> (oeu_has_been_synced row \<or> registered_as srv user token row t))"
  using assms
proof (cases rule: create_edx_user_request_run)
  case (synced n row)
  then show ?thesis by (auto simp: locked_state_def row_with_id_def)
next
  case (tried n row name u)
  then obtain x v where loop: "registration_loop srv user token row 0 name False None
      (locked_state srv user (drawn s n)) = Some (Inr x, v)" and after: "after_registration row x v = (Inr (Some True), u)"
    by (auto simp: bindO_def liftO_app split: option.splits prod.splits sum.splits)
  from after_returned [OF after] loop_returned loop have "registered_as srv user token row u" by metis
  then have "registered_as srv user token row t" using tried(3) by (simp add: registered_as_def release_lock_def)
  moreover have "row_with_id (oeu_id oeu) (srv_meanwhile srv (drawn s n)) = Some row"
    using tried(1) by (simp add: locked_state_def row_with_id_def)
  ultimately show ?thesis by blast
qed simp_all

text \<open>When a registration was tried the lock is free again, whatever happened.\<close>

lemma lock_free_or_left:
  assumes "create_edx_user_request srv oeu user token s = Some (res, t)"
    and "\<And>n. user_lock user \<notin> set (acs_locks (srv_meanwhile srv (drawn s n)))" "user_lock user \<notin> set (acs_locks s)"
    and "\<And>n. \<exists>row. row_with_id (oeu_id oeu) (srv_meanwhile srv (drawn s n)) = Some row \<and> \<not> oeu_has_been_synced row"
  shows "user_lock user \<notin> set (acs_locks t)"
  using assms(1)
proof (cases rule: create_edx_user_request_run)
  case (busy n)
  then show ?thesis using assms(2) [of n] by simp
next
  case (gone n)
  then show ?thesis using assms(4) [of n] by (auto simp: locked_state_def row_with_id_def)
next
  case (synced n row)
  then show ?thesis using assms(4) [of n] by (auto simp: locked_state_def row_with_id_def)
next
  case (tried n row name u)
  then show ?thesis by (simp add: release_lock_def)
qed (use assms(3) in simp)

text \<open>A user whom another process registered while the lock was waited for keeps it locked.\<close>

lemma lock_left:
  assumes "get_attemptable_username user (oeu_desired_edx_username oeu) s = (Inr (Some name), s1)"
    "user_lock user \<notin> set (acs_locks (srv_meanwhile srv s1))"
    "row_with_id (oeu_id oeu) (srv_meanwhile srv s1) = Some row" "oeu_has_been_synced row"
  shows "create_edx_user_request srv oeu user token s = Some (Inr (Some True), locked_state srv user s1)"
proof -
  have "acquire_lock srv (user_lock user) s1 = (Inr True, locked_state srv user s1)"
    using assms(2) by (simp add: acquire_lock_def locked_state_def Let_def)
  moreover have "refresh_edx_user oeu (locked_state srv user s1) = (Inr row, locked_state srv user s1)"
    using assms(3) by (simp add: refresh_edx_user_def row_with_id_def locked_state_def ret_def)
  ultimately show ?thesis using assms(1,4) by (simp add: create_edx_user_request_def liftO_bind liftO_app ret_def)
qed

text \<open>A row without a desired username is never registered, unless another user's username is missing.\<close>

lemma no_desired_username:
  assumes "oeu_desired_edx_username oeu = None"
    "list_all (\<lambda>r. oeu_user r \<noteq> au_id user \<longrightarrow> oeu_edx_username r \<noteq> None) (openedx_users s)"
  shows "create_edx_user_request srv oeu user token s = Some (Inr (Some False), s)"
  using assms
  by (auto simp: create_edx_user_request_def get_attemptable_username_def liftO_bind liftO_app ret_def
      exists_row_iff list_all_iff)

section \<open>The constraints through the registration\<close>

lemma keeps_draw: "keeps accounts_ok (generate_unique_username base m)"
  by (rule keeps_generate) (simp add: accounts_ok_def)

lemma get_or_create_edx_user_ok [keeps_intro]: "keeps accounts_ok (get_or_create_edx_user u)"
  unfolding get_or_create_edx_user_def Let_def by (intro keeps_intro)

lemma reconcile_ok: "keeps accounts_ok (reconcile_edx_username srv user desired)"
  unfolding reconcile_edx_username_def Let_def by (intro keeps_intro keeps_draw)

lemma step_ok: "keeps accounts_ok (registration_step srv user token oeu a name tried)"
  by (rule step_keeps) (auto intro: save_edx_user_ok simp: accounts_ok_def)

lemma loop_keeps:
  assumes "\<And>user token oeu a name tried. keeps P (registration_step srv user token oeu a name tried)" "P s"
    "registration_loop srv user token oeu a name tried latest s = Some (r, t)"
  shows "P t"
proof -
  define Q where "Q = (\<lambda>srv' (user :: AppUser) (token :: string) (oeu :: OpenEdxUser) (a :: nat) (name :: string)
      (tried :: bool) (latest :: (string \<times> http_response) option) (s :: accounts) (z :: (exn + step_result) \<times> accounts).
      srv' = srv \<longrightarrow> P s \<longrightarrow> P (snd z))"
  have "Q srv user token oeu a name tried latest s (r, t)"
  proof (rule registration_loop.raw_induct [of Q, OF _ assms(3)])
    fix loop srv' user token oeu a name tried latest s z
    assume ih: "\<And>srv user token oeu a name tried latest s z.
        loop srv user token oeu a name tried latest s = Some z \<Longrightarrow> Q srv user token oeu a name tried latest s z"
      and run: "(if max_attempts \<le> a
          then Some (case latest of None \<Rightarrow> Inl PyAttributeError | Some (n, r) \<Rightarrow> Inr (Broke n r), s)
          else (case registration_step srv' user token oeu a name tried s of
              (Inl e, t) \<Rightarrow> Some (Inl e, t)
            | (Inr (Again a n d r), t) \<Rightarrow> loop srv' user token oeu a n d (Some r) t
            | (Inr x, t) \<Rightarrow> Some (Inr x, t))) = Some z"
    show "Q srv' user token oeu a name tried latest s z"
      unfolding Q_def
    proof (intro impI)
      assume srv: "srv' = srv" and s: "P s"
      obtain res u where step: "registration_step srv user token oeu a name tried s = (res, u)" by fastforce
      have u: "P u" using keepsD [OF assms(1) s] step by (metis snd_conv)
      show "P (snd z)"
        using run [unfolded srv step prod.case] u s ih unfolding Q_def
        by (auto split: if_splits sum.splits step_result.splits)
    qed
  qed
  then show ?thesis using assms(2) by (simp add: Q_def)
qed

lemma create_edx_user_request_ok:
  assumes "\<And>s. accounts_ok s \<Longrightarrow> accounts_ok (srv_meanwhile srv s)"
  shows "keepsO accounts_ok (create_edx_user_request srv oeu user token)"
  unfolding keepsO_def
proof (intro allI impI)
  fix s r t assume s: "accounts_ok s" and run: "create_edx_user_request srv oeu user token s = Some (r, t)"
  have l: "accounts_ok (locked_state srv user (drawn s n))" "accounts_ok (srv_meanwhile srv (drawn s n))" for n
    using assms [of "drawn s n"] s by (simp_all add: locked_state_def accounts_ok_def)
  from run show "accounts_ok t"
  proof (cases rule: create_edx_user_request_run)
    case (tried n row name u)
    then obtain x v where loop: "registration_loop srv user token row 0 name False None
        (locked_state srv user (drawn s n)) = Some (x, v)"
      and u: "u = v \<or> (\<exists>y. after_registration row y v = (r, u))"
      by (auto simp: bindO_def liftO_app split: option.splits prod.splits sum.splits)
    have v: "accounts_ok v" by (rule loop_keeps [OF step_ok l(1) loop])
    have "keeps accounts_ok (after_registration row y)" for y
      unfolding after_registration_def set_edx_error_def raise_for_status_def
      by (auto intro!: keeps_intro split: step_result.splits)
    then have "accounts_ok u" using u v keepsD by (metis snd_conv)
    then show ?thesis using tried(3) by (simp add: release_lock_def accounts_ok_def)
  qed (use l s in \<open>simp_all add: accounts_ok_def\<close>)
qed


section \<open>When the registration returns\<close>

lemma helpful_mono: "helpful srv taken \<Longrightarrow> (\<And>t. taken' t \<Longrightarrow> taken t) \<Longrightarrow> helpful srv taken'"
  unfolding helpful_def list_ex_iff by meson

lemma row_with_id_mem: "row_with_id i s = Some row \<Longrightarrow> row \<in> set (openedx_users s) \<and> oeu_id row = i"
  unfolding row_with_id_def by (drule first_filter_SomeD) simp

lemma own_row_unique: "accounts_ok s \<Longrightarrow> row \<in> set (openedx_users s) \<Longrightarrow> own_row row s"
  unfolding accounts_ok_def unique_rows_ok_def own_row_def list_all_iff by (auto simp: distinct_map dest: inj_onD)

text \<open>A server that helps, in whatever state the lock was got, gets an answer and at most four requests.\<close>

lemma registration_returns:
  assumes ok: "\<And>s. accounts_ok s \<Longrightarrow> accounts_ok (srv_meanwhile srv s)" "accounts_ok s"
    and helps: "\<And>n. helpful srv (taken_elsewhere (srv_meanwhile srv (drawn s n)) (au_id user))"
    and user: "\<And>n row. row_with_id (oeu_id oeu) (srv_meanwhile srv (drawn s n)) = Some row \<Longrightarrow> oeu_user row = au_id user"
  shows "\<exists>r t n. create_edx_user_request srv oeu user token s = Some (r, t)
    \<and> registrations t \<le> max (registrations s) (registrations (srv_meanwhile srv (drawn s n))) + 4"
proof -
  obtain x n where name: "get_attemptable_username user (oeu_desired_edx_username oeu) s = (Inr x, drawn s n)"
    using get_attemptable_draws by blast
  show ?thesis
  proof (cases x)
    case None
    then have "create_edx_user_request srv oeu user token s = Some (Inr (Some False), drawn s n)"
      using name by (simp add: create_edx_user_request_def liftO_bind liftO_app ret_def)
    then show ?thesis by (auto simp: registrations_def)
  next
    case (Some nm)
    let ?m = "srv_meanwhile srv (drawn s n)"
    let ?l = "locked_state srv user (drawn s n)"
    have more: ?thesis if "create_edx_user_request srv oeu user token s = Some (r, t)" "registrations t \<le> registrations ?m + 4"
      for r t using that by (intro exI [of _ r] exI [of _ t] exI [of _ n]) simp
    have lm: "registrations ?l = registrations ?m" by (simp add: locked_state_def registrations_def)
    have m: "accounts_ok ?m" by (rule ok(1)) (use ok(2) in \<open>simp add: accounts_ok_def\<close>)
    show ?thesis
    proof (cases "user_lock user \<in> set (acs_locks ?m)")
      case True
      then have "create_edx_user_request srv oeu user token s = Some (Inr (Some False), ?m)" using name Some
        by (simp add: create_edx_user_request_def liftO_bind acquire_lock_def ret_def liftO_app)
      then show ?thesis by (rule more) simp
    next
      case False
      then have got: "acquire_lock srv (user_lock user) (drawn s n) = (Inr True, ?l)"
        by (simp add: acquire_lock_def locked_state_def Let_def)
      show ?thesis
      proof (cases "row_with_id (oeu_id oeu) ?m")
        case None
        then have "create_edx_user_request srv oeu user token s = Some (Inl ObjectDoesNotExist, ?l)" using name Some got
          by (simp add: create_edx_user_request_def liftO_bind refresh_edx_user_def row_with_id_def locked_state_def raise_def)
        then show ?thesis by (rule more) (simp add: lm)
      next
        case row: (Some row)
        then have refresh: "refresh_edx_user oeu ?l = (Inr row, ?l)"
          by (simp add: refresh_edx_user_def row_with_id_def locked_state_def ret_def)
        have "own_row row ?m" using own_row_unique [OF m] row_with_id_mem [OF row] by blast
        then have l: "others_are row (taken_elsewhere ?m (au_id user)) ?l"
          using user [OF row] by (simp add: others_are_def own_row_def locked_state_def taken_elsewhere_def fun_eq_iff)
        show ?thesis
        proof (cases "oeu_has_been_synced row")
          case True
          then have "create_edx_user_request srv oeu user token s = Some (Inr (Some True), ?l)" using name Some got refresh
            by (simp add: create_edx_user_request_def liftO_bind ret_def liftO_app)
          then show ?thesis by (rule more) (simp add: lm)
        next
          case False
          obtain r t where loop: "registration_loop srv user token row 0 nm False None ?l = Some (r, t)"
              "registrations t \<le> registrations ?l + (max_attempts - 0)"
            using helpful_loop [OF helps l user [OF row]] by blast
          let ?f = "\<lambda>x. liftO (after_registration row x)"
          obtain r' t' where tail: "bindO (\<lambda>s. registration_loop srv user token row 0 nm False None s) ?f ?l = Some (r', t')"
              "registrations t' \<le> registrations t"
          proof (cases r)
            case (Inl e)
            then show ?thesis using that [of "Inl e" t] loop(1) by (simp add: bindO_def)
          next
            case (Inr y)
            then show ?thesis using that [of "fst (after_registration row y t)" "snd (after_registration row y t)"] loop(1)
                after_registration_registrations [of row y t] by (simp add: bindO_def liftO_app)
          qed
          have "create_edx_user_request srv oeu user token s = Some (r', release_lock (user_lock user) t')"
            using name Some got refresh False tail(1)
            by (simp add: create_edx_user_request_def liftO_bind liftO_app finallyO_def ret_def)
          then show ?thesis
            by (rule more) (use tail(2) loop(2) lm in \<open>simp add: release_lock_def registrations_def max_attempts_def\<close>)
        qed
      qed
    qed
  qed
qed

text \<open>A stubborn server gets requests for ever.\<close>

lemma registration_never_returns:
  assumes srv: "stubborn srv" "srv_meanwhile srv = (\<lambda>s. s)" and data: "build_user_data user = Inr d"
    and ok: "accounts_ok s" "edx_users_of s (au_id user) = [oeu]" "\<not> oeu_has_been_synced oeu"
    and base: "oeu_desired_edx_username oeu = Some base" "base \<noteq> []" "length base \<le> 26"
    and free: "candidates_free s (au_id user) base" "user_lock user \<notin> set (acs_locks s)"
  shows "create_edx_user_request srv oeu user token s = None"
proof -
  have "set (filter (\<lambda>r. oeu_user r = au_id user) (openedx_users s)) = {oeu}"
    using ok(2) by (simp add: edx_users_of_def)
  then have mem: "oeu \<in> set (openedx_users s)" "oeu_user oeu = au_id user"
    and own: "\<And>x. x \<in> set (openedx_users s) \<Longrightarrow> oeu_user x = au_id user \<Longrightarrow> x = oeu"
    by (auto simp: set_eq_iff)
  have ids: "distinct (map oeu_id (openedx_users s))" using ok(1) by (simp add: accounts_ok_def unique_rows_ok_def)
  have room: "room oeu base s" unfolding room_def list_all_iff
  proof (intro conjI ballI)
    fix x assume x: "x \<in> set (openedx_users s)"
    have "x = oeu" if "oeu_id x = oeu_id oeu"
      using inj_onD [OF ids [unfolded distinct_map, THEN conjunct2] that x mem(1)] .
    then show "(oeu_id x = oeu_id oeu) = (oeu_user x = oeu_user oeu)"
      using own [OF x] mem(2) by auto
  qed (use free(1) mem(2) in simp)
  obtain name n where name: "get_attemptable_username user (oeu_desired_edx_username oeu) s = (Inr (Some name), drawn s n)"
    "length name \<le> 30" "\<not> taken_elsewhere s (oeu_user oeu) name"
  proof (cases "taken_elsewhere s (au_id user) base")
    case True
    obtain y n where "generate_unique_username (Some base) OPENEDX_USERNAME_MAX_LEN s = (Inr (Some y), drawn s n)"
      "length y \<le> 30" "\<not> taken_elsewhere s (au_id user) y"
      by (rule generate_room [OF free(1) base(3), of "oeu_edx_username oeu"]) (use own in auto)
    then show ?thesis using that True base(1) mem(2) by (simp add: get_attemptable_username_def taken_elsewhere_def)
  next
    case False
    have "s = drawn s (acs_drawn s)" by (simp add: drawn_def)
    then show ?thesis using that [of base "acs_drawn s"] False base(1,3) mem(2)
      by (simp add: get_attemptable_username_def taken_elsewhere_def ret_def)
  qed
  let ?l = "locked_state srv user (drawn s n)"
  have l: "openedx_users ?l = openedx_users s" using srv(2) by (simp add: locked_state_def)
  have got: "acquire_lock srv (user_lock user) (drawn s n) = (Inr True, ?l)"
    using srv(2) free(2) by (simp add: acquire_lock_def locked_state_def)
  have "first (filter (\<lambda>x. oeu_id x = oeu_id oeu) (openedx_users s)) = Some oeu"
    using filter_key_unique [OF ids mem(1)] by simp
  then have refresh: "refresh_edx_user oeu ?l = (Inr oeu, ?l)" using l by (simp add: refresh_edx_user_def ret_def)
  have "taken_elsewhere ?l = taken_elsewhere s" using l by (intro ext) (simp add: taken_elsewhere_def)
  then have "room oeu base ?l" "\<not> taken_elsewhere ?l (oeu_user oeu) name"
    using room name(3) l by (simp_all add: room_def candidates_free_def)
  then have "registration_loop srv user token oeu 0 name False None ?l = None"
    using stubborn_loop [OF srv(1) data base _ name(2)] by (simp add: max_attempts_def)
  then show ?thesis using name(1) got refresh ok(3)
    by (simp add: create_edx_user_request_def liftO_bind finallyO_def bindO_None)
qed

section \<open>The username of a learner\<close>

lemma edx_row_of_mem:
  assumes "accounts_ok s" "r \<in> set (openedx_users s)" "oeu_platform r = PLATFORM_EDX"
  shows "edx_row_of s (oeu_user r) = Some r"
proof (cases "edx_row_of s (oeu_user r)")
  case None
  then show ?thesis using assms(2,3) by (auto simp: edx_row_of_def filter_empty_conv)
next
  case (Some x)
  then have "x \<in> set (openedx_users s)" "edx_conflict x r"
    using assms(3) by (auto simp: edx_row_of_def edx_conflict_def dest!: first_filter_SomeD)
  then show ?thesis using Some edx_rows.same_row [of "openedx_users s" x r] assms(1,2) by (simp add: accounts_ok_def)
qed

text \<open>Keys that were given out are below the next one.\<close>

definition edx_keys_ok :: "accounts \<Rightarrow> bool" where
  "edx_keys_ok s \<longleftrightarrow> list_all (\<lambda>r. oeu_id r < acs_next_id s) (openedx_users s)"

lemma get_or_create_run:
  assumes ok: "accounts_ok s" "edx_keys_ok s"
  shows "\<exists>r t. get_or_create_edx_user u s = (Inr r, t) \<and> accounts_ok t \<and> edx_row_of t u = Some r
    \<and> r \<in> set (openedx_users t) \<and> oeu_user r = u \<and> oeu_platform r = PLATFORM_EDX
    \<and> oeu_edx_username r = (case edx_row_of s u of None \<Rightarrow> None | Some x \<Rightarrow> oeu_edx_username x)
    \<and> (\<forall>x \<in> set (openedx_users s). x \<in> set (openedx_users t))
    \<and> (\<forall>y. username_exists t (Some y) = username_exists s (Some y))"
proof (cases "edx_row_of s u")
  case (Some r)
  moreover from this have "r \<in> set (openedx_users s) \<and> oeu_user r = u \<and> oeu_platform r = PLATFORM_EDX"
    unfolding edx_row_of_def by (drule_tac first_filter_SomeD) simp
  ultimately show ?thesis using ok(1) by (simp add: get_or_create_edx_user_def ret_def)
next
  case None
  let ?r = "new_edx_user (acs_next_id s) u None"
  let ?s = "s\<lparr>acs_next_id := Suc (acs_next_id s)\<rparr>"
  let ?t = "?s\<lparr>openedx_users := openedx_users s @ [?r]\<rparr>"
  have other: "\<not> (oeu_platform x = PLATFORM_EDX \<and> oeu_user x = u)" if "x \<in> set (openedx_users s)" for x
    using None that by (auto simp: edx_row_of_def filter_empty_conv)
  have new: "oeu_id x \<noteq> acs_next_id s" if "x \<in> set (openedx_users s)" for x
    using ok(2) that by (auto simp: edx_keys_ok_def list_all_iff)
  have "save_edx_user ?r ?s = (Inr (), ?t)"
    using other new by (auto simp: save_edx_user_def clashes_def exists_row_iff edx_conflict_def new_edx_user_def too_long_def
        put_row_def modify_def)
  then have "bindP fresh_account_id (\<lambda>i. thenP (save_edx_user (new_edx_user i u None)) (ret (new_edx_user i u None))) s
      = (Inr ?r, ?t)"
    by (simp add: fresh_account_id_def bindP_def thenP_def ret_def)
  then have run: "get_or_create_edx_user u s = (Inr ?r, ?t)"
    using None by (simp add: get_or_create_edx_user_def Let_def)
  moreover have t: "accounts_ok ?t" using keepsD [OF get_or_create_edx_user_ok ok(1), of u] run by simp
  moreover have "edx_row_of ?t u = Some ?r" using edx_row_of_mem [OF t, of ?r] by (simp add: new_edx_user_def)
  moreover have "username_exists ?t (Some y) = username_exists s (Some y)" for y
    by (auto simp: username_exists_def exists_row_iff new_edx_user_def)
  ultimately show ?thesis using None by (simp add: new_edx_user_def)
qed

text \<open>Five candidates, one of each range, are taken.\<close>

definition candidates_taken :: "accounts \<Rightarrow> string \<Rightarrow> bool" where
  "candidates_taken s base \<longleftrightarrow> (\<forall>(lo, hi) \<in> set username_ranges. \<exists>n. lo \<le> n \<and> n \<le> hi
     \<and> username_exists s (Some (candidate_username base n OPENEDX_USERNAME_MAX_LEN)))"

lemma try_usernames_None:
  assumes "try_usernames base m ranges s = (Inr None, t)" "\<forall>(lo, hi) \<in> set ranges. lo \<le> hi"
  shows "\<forall>(lo, hi) \<in> set ranges. \<exists>n. lo \<le> n \<and> n \<le> hi \<and> username_exists s (Some (candidate_username base n m))"
  using assms
proof (induction ranges arbitrary: s)
  case (Cons p ranges)
  obtain lo hi where p: "p = (lo, hi)" by fastforce
  obtain x s1 where x: "randint lo hi s = (Inr x, s1)" by (simp add: randint_def)
  have s1: "s1 = drawn s (Suc (acs_drawn s))" "lo \<le> x" "x \<le> hi"
    using randint_run [OF x] x Cons.prems(2) p by (auto simp: randint_def)
  have taken: "username_exists s1 (Some (candidate_username base x m))"
      "try_usernames base m ranges s1 = (Inr None, t)"
    using Cons.prems(1) unfolding p try_usernames_Cons [OF x] by (auto split: if_splits)
  then show ?case using Cons.IH [OF taken(2)] Cons.prems(2) s1 by (auto simp: p)
qed simp

lemma save_username:
  assumes ok: "accounts_ok s" and r: "r \<in> set (openedx_users s)"
    and free: "\<not> username_exists s (Some y)" "length y \<le> 30"
  shows "save_edx_user (with_username (Some y) r) s
    = (Inr (), s\<lparr>openedx_users := put_row oeu_id (with_username (Some y) r) (openedx_users s)\<rparr>)"
proof -
  have "oeu_id x = oeu_id r" if "x \<in> set (openedx_users s)" "oeu_user x = oeu_user r" "oeu_platform x = oeu_platform r" for x
    using that ok r edx_rows.same_row [of "openedx_users s" x r] by (simp add: accounts_ok_def edx_conflict_def)
  then have "\<not> clashes oeu_id edx_conflict (with_username (Some y) r) (openedx_users s)"
    using free(1) by (auto simp: clashes_def exists_row_iff edx_conflict_def with_username_def username_exists_def)
  then show ?thesis using free(2)
    by (simp add: save_edx_user_def modify_def too_long_def with_username_def OPENEDX_USERNAME_MAX_LEN_def)
qed

text \<open>The learner ends with a username that nobody had, unless five candidates were taken.\<close>

definition given_username :: "accounts \<Rightarrow> string \<Rightarrow> OpenEdxUser \<Rightarrow> bool" where
  "given_username s wanted row \<longleftrightarrow> (\<exists>y. oeu_edx_username row = Some y \<and> oeu_desired_edx_username row = Some y
     \<and> length y \<le> 30 \<and> \<not> username_exists s (Some y) \<and> (\<not> username_exists s (Some wanted) \<longrightarrow> y = wanted))"

lemma reconcile_run:
  assumes ok: "accounts_ok s" "edx_keys_ok s" and len: "length (wanted_username srv user desired) \<le> 30"
  shows "\<exists>b t row. reconcile_edx_username srv user desired s = (Inr b, t) \<and> accounts_ok t
    \<and> edx_row_of t (au_id user) = Some row
    \<and> b = (\<not> has_text (case edx_row_of s (au_id user) of None \<Rightarrow> None | Some r \<Rightarrow> oeu_edx_username r))
    \<and> (\<not> b \<longrightarrow> t = s)
    \<and> (b \<longrightarrow> given_username s (wanted_username srv user desired) row
           \<or> username_exists s (Some (wanted_username srv user desired))
             \<and> candidates_taken s (wanted_username srv user desired))
    \<and> (\<forall>x \<in> set (openedx_users s). oeu_user x \<noteq> au_id user \<longrightarrow> x \<in> set (openedx_users t))"
proof -
  let ?w = "wanted_username srv user desired"
  obtain r s1 where
    g: "get_or_create_edx_user (au_id user) s = (Inr r, s1)" "accounts_ok s1" "edx_row_of s1 (au_id user) = Some r"
      "r \<in> set (openedx_users s1)" "oeu_user r = au_id user" "oeu_platform r = PLATFORM_EDX"
      "oeu_edx_username r = (case edx_row_of s (au_id user) of None \<Rightarrow> None | Some x \<Rightarrow> oeu_edx_username x)"
      "\<forall>x \<in> set (openedx_users s). x \<in> set (openedx_users s1)"
      "\<forall>y. username_exists s1 (Some y) = username_exists s (Some y)"
    using get_or_create_run [OF ok] by blast
  note ok' = reconcile_ok [of srv user desired, THEN keepsD, OF ok(1)]
  have run: "reconcile_edx_username srv user desired s =
     (if has_text (oeu_edx_username r) then (Inr False, s1)
      else if \<not> username_exists s (Some ?w) then thenP (save_edx_user (with_username (Some ?w) r)) (ret True) s1
      else bindP (generate_unique_username (Some ?w) OPENEDX_USERNAME_MAX_LEN) (\<lambda>u.
         if has_text u then thenP (save_edx_user (with_username u r)) (ret True)
         else ret True) s1)"
    unfolding reconcile_edx_username_def bindP_Inr [where m = "get_or_create_edx_user (au_id user)", OF g(1)] Let_def
    using g(9) by (simp add: ret_def)
  show ?thesis
  proof (cases "has_text (oeu_edx_username r)")
    case True
    then have "edx_row_of s (au_id user) \<noteq> None" using g(7) by (auto simp: has_text_def split: option.splits)
    then have "s1 = s" using g(1) by (auto simp: get_or_create_edx_user_def ret_def)
    then show ?thesis using run True g by auto
  next
    case False
    have saved: ?thesis if y: "\<not> username_exists s (Some y)" "length y \<le> 30" "\<not> username_exists s (Some ?w) \<longrightarrow> y = ?w"
      and s2: "accounts_ok s2" "openedx_users s2 = openedx_users s1"
      and eq: "reconcile_edx_username srv user desired s = thenP (save_edx_user (with_username (Some y) r)) (ret True) s2" for y s2
    proof -
      let ?r = "with_username (Some y) r"
      let ?t = "s2\<lparr>openedx_users := put_row oeu_id ?r (openedx_users s2)\<rparr>"
      have "\<not> username_exists s2 (Some y)" using y(1) g(9) s2(2) by (simp add: username_exists_def)
      then have "save_edx_user ?r s2 = (Inr (), ?t)" using save_username [OF s2(1)] g(4) s2(2) y(2) by simp
      then have res: "reconcile_edx_username srv user desired s = (Inr True, ?t)"
        using eq by (simp add: thenP_Inr [where m = "save_edx_user ?r"] ret_def)
      have okt: "accounts_ok ?t" using ok' res by simp
      have "?r \<in> set (openedx_users ?t)" by (simp add: put_row_mem)
      then have row: "edx_row_of ?t (au_id user) = Some ?r"
        using edx_row_of_mem [OF okt, of ?r] g(5,6) by (simp add: with_username_def)
      have "given_username s ?w ?r" using y by (simp add: given_username_def with_username_def)
      moreover have "x \<in> set (openedx_users ?t)" if x: "x \<in> set (openedx_users s)" "oeu_user x \<noteq> au_id user" for x
      proof -
        have "x \<in> set (openedx_users s1)" using g(8) x(1) by blast
        then have "oeu_id x \<noteq> oeu_id r"
          using g(2,4,5) x(2) by (auto simp: accounts_ok_def unique_rows_ok_def distinct_map dest: inj_onD)
        then show ?thesis using \<open>x \<in> set (openedx_users s1)\<close> s2(2)
          by (simp add: with_username_def put_row_other)
      qed
      ultimately show ?thesis using res okt row False g(7) by (intro exI [of _ True] exI [of _ ?t] exI [of _ ?r]) simp
    qed
    show ?thesis
    proof (cases "username_exists s (Some ?w)")
      case free: False
      show ?thesis by (rule saved [OF free len _ g(2) refl]) (use run False free in simp_all)
    next
      case taken: True
      obtain u n where gen: "generate_unique_username (Some ?w) OPENEDX_USERNAME_MAX_LEN s1 = (Inr u, drawn s1 n)"
        using generate_draws by blast
      have okd: "accounts_ok (drawn s1 n)" using g(2) by (simp add: accounts_ok_def)
      show ?thesis
      proof (cases u)
        case (Some y)
        from generate_unique_username_run [OF gen] len Some have y: "\<not> username_exists s (Some y)" "length y \<le> 30"
          using g(9) by auto
        have "has_text u" using generate_nonempty gen Some by (auto simp: has_text_def)
        then have "reconcile_edx_username srv user desired s
            = thenP (save_edx_user (with_username (Some y) r)) (ret True) (drawn s1 n)"
          using run False taken Some
          by (simp add: bindP_Inr [where m = "generate_unique_username (Some ?w) OPENEDX_USERNAME_MAX_LEN", OF gen])
        from saved [OF y _ okd _ this] taken show ?thesis by simp
      next
        case None
        then have res: "reconcile_edx_username srv user desired s = (Inr True, drawn s1 n)"
          using run False taken
          by (simp add: bindP_Inr [where m = "generate_unique_username (Some ?w) OPENEDX_USERNAME_MAX_LEN", OF gen] has_text_def ret_def)
        have "candidates_taken s1 ?w" unfolding candidates_taken_def
          by (rule try_usernames_None [of _ _ _ _ "drawn s1 n"])
            (use gen None in \<open>auto simp: generate_unique_username_def username_ranges_def\<close>)
        then have "candidates_taken s ?w" using g(9) by (simp add: candidates_taken_def)
        then show ?thesis using res okd taken False g(3,7,8)
          by (intro exI [of _ True] exI [of _ "drawn s1 n"] exI [of _ r]) (simp add: edx_row_of_def)
      qed
    qed
  qed
qed

end
