(* ===== verification/EdxTokens.thy ===== *)
theory EdxTokens
  imports EdxAccounts
begin

text \<open>
  The OAuth2 tokens with which the program acts for a learner in Open edX (\<open>src/openedx/api.py\<close>):
  the authorization that issues them, their refreshing, the recovery from a refresh token that is
  dead; and what is built on them: creating the account of a user, repairing accounts that are
  incomplete, telling Open edX of changes, validating a registration.
\<close>

section \<open>Query strings\<close>

fun split_on :: "char \<Rightarrow> string \<Rightarrow> string list" where
  "split_on c [] = [[]]"
| "split_on c (x # xs) = (if x = c then [] # split_on c xs
     else (case split_on c xs of [] \<Rightarrow> [[x]] | w # ws \<Rightarrow> (x # w) # ws))"

definition hex_val :: "char \<Rightarrow> nat option" where
  "hex_val c = (let n = (of_char c :: nat) in
     if 48 \<le> n \<and> n \<le> 57 then Some (n - 48) else if 65 \<le> n \<and> n \<le> 70 then Some (n - 55)
     else if 97 \<le> n \<and> n \<le> 102 then Some (n - 87) else None)"

text \<open>\<open>unquote_plus\<close>, on bytes.\<close>

fun unquote_plus :: "string \<Rightarrow> string" where
  "unquote_plus [] = []"
| "unquote_plus (c # cs) =
     (if c = CHR ''+'' then CHR '' '' # unquote_plus cs
      else if c = CHR ''%'' then
        (case cs of
           h # l # r \<Rightarrow> (case (hex_val h, hex_val l) of
               (Some a, Some b) \<Rightarrow> char_of (16 * a + b) # unquote_plus r
             | _ \<Rightarrow> c # unquote_plus cs)
         | _ \<Rightarrow> c # unquote_plus cs)
      else c # unquote_plus cs)"

text \<open>The query of a URL, and the values of a parameter in it; blank ones are left out.\<close>

definition url_query :: "string \<Rightarrow> string" where
  "url_query u = (case dropWhile (\<lambda>c. c \<noteq> CHR ''?'') (takeWhile (\<lambda>c. c \<noteq> CHR ''#'') u) of [] \<Rightarrow> [] | _ # q \<Rightarrow> q)"

definition query_values :: "string \<Rightarrow> string \<Rightarrow> string list" where
  "query_values key q = concat (map (\<lambda>p. case dropWhile (\<lambda>c. c \<noteq> CHR ''='') p of
       _ # v \<Rightarrow> if v \<noteq> [] \<and> unquote_plus (takeWhile (\<lambda>c. c \<noteq> CHR ''='') p) = key then [unquote_plus v] else []
     | [] \<Rightarrow> []) (split_on CHR ''&'' q))"

definition startswith :: "string \<Rightarrow> string \<Rightarrow> bool" where
  "startswith t p \<longleftrightarrow> take (length p) t = p"

section \<open>Issuing tokens\<close>

definition OPENEDX_OAUTH2_ACCESS_TOKEN_EXPIRY_MARGIN_SECONDS :: int where
  "OPENEDX_OAUTH2_ACCESS_TOKEN_EXPIRY_MARGIN_SECONDS = 10"

definition OPENEDX_AUTH_DEFAULT_TTL_IN_SECONDS :: int where
  "OPENEDX_AUTH_DEFAULT_TTL_IN_SECONDS = 60"

definition OPENEDX_AUTH_MAX_TTL_IN_SECONDS :: int where
  "OPENEDX_AUTH_MAX_TTL_IN_SECONDS = 60 * 60"

text \<open>\<open>d[k]\<close> of a parsed body.  A token is a text or null, a duration a number of seconds.\<close>

definition dict_item :: "json \<Rightarrow> string \<Rightarrow> exn + json" where
  "dict_item j k = (case j of
      JObj kvs \<Rightarrow> (case map_of kvs k of None \<Rightarrow> Inl PyKeyError | Some v \<Rightarrow> Inr v)
    | _ \<Rightarrow> Inl PyTypeError)"

definition token_text :: "json \<Rightarrow> string option" where
  "token_text j = (case j of JStr t \<Rightarrow> Some t | _ \<Rightarrow> None)"

definition json_seconds :: "json \<Rightarrow> exn + int" where
  "json_seconds j = (case j of JNum r \<Rightarrow> Inr (floor r) | JBool b \<Rightarrow> Inr (if b then 1 else 0) | _ \<Rightarrow> Inl PyTypeError)"

definition save_auth :: "OpenEdxApiAuth \<Rightarrow> unit aop" where
  "save_auth a = modify (\<lambda>s. s\<lparr>api_auths := put_row oaa_user a (api_auths s)\<rparr>)"

definition find_auth :: "accounts \<Rightarrow> nat \<Rightarrow> OpenEdxApiAuth option" where
  "find_auth s u = first (filter (\<lambda>a. oaa_user a = u) (api_auths s))"

text \<open>The refresh token must not be null.\<close>

definition create_tokens_and_update_auth :: "edx_server \<Rightarrow> OpenEdxApiAuth \<Rightarrow> edx_call \<Rightarrow> OpenEdxApiAuth aop" where
  "create_tokens_and_update_auth srv auth q =
     bindP (send_request srv q) (\<lambda>r.
     thenP (raise_for_status r)
     (case rsp_body r of
        None \<Rightarrow> raise PyValueError
      | Some j \<Rightarrow>
          bindP (liftE (\<lambda>_. bindE (dict_item j ''expires_in'') json_seconds)) (\<lambda>secs.
          bindP (liftE (\<lambda>_. dict_item j ''refresh_token'')) (\<lambda>refresh.
          bindP (liftE (\<lambda>_. dict_item j ''access_token'')) (\<lambda>access.
          bindP (gets acs_now) (\<lambda>t.
          case token_text refresh of
            None \<Rightarrow> raise IntegrityError
          | Some rt \<Rightarrow>
              let a = auth\<lparr>oaa_refresh_token := rt, oaa_access_token := token_text access,
                  oaa_access_token_expires_on :=
                    Some (t + (secs - OPENEDX_OAUTH2_ACCESS_TOKEN_EXPIRY_MARGIN_SECONDS))\<rparr>
              in thenP (save_auth a) (ret a)))))))"

definition synced_with_edx :: "accounts \<Rightarrow> nat \<Rightarrow> bool" where
  "synced_with_edx s u = exists_row (\<lambda>r. oeu_user r = u \<and> oeu_edx_username r \<noteq> None \<and> oeu_has_been_synced r) (openedx_users s)"

definition get_or_create_auth :: "nat \<Rightarrow> OpenEdxApiAuth aop" where
  "get_or_create_auth u = bindP (gets (\<lambda>s. find_auth s u)) (\<lambda>a. case a of
       Some a \<Rightarrow> ret a
     | None \<Rightarrow> let a = \<lparr>oaa_user = u, oaa_refresh_token = [], oaa_access_token = None,
                         oaa_access_token_expires_on = None\<rparr> in thenP (save_auth a) (ret a))"

text \<open>The sessions are cookies that the requests carry: creating one writes nothing.\<close>

definition create_edx_auth_token :: "edx_server \<Rightarrow> nat \<Rightarrow> OpenEdxApiAuth option aop" where
  "create_edx_auth_token srv u = atomicA (
     bindP (gets (\<lambda>s. synced_with_edx s u)) (\<lambda>synced.
     if \<not> synced then ret None
     else bindP (get_or_create_auth u) (\<lambda>auth.
       if oaa_refresh_token auth \<noteq> [] \<and> has_text (oaa_access_token auth) then ret (Some auth)
       else bindP (send_request srv (SocialLogin u)) (\<lambda>r.
         thenP (raise_for_status r)
         (bindP (send_request srv Authorize) (\<lambda>r.
          thenP (raise_for_status r)
          (bindP (gets (\<lambda>s. as_redirect_uri (acs_conf s))) (\<lambda>uri.
           if \<not> startswith (rsp_url r) uri then raise OpenEdXOAuth2Error
           else let codes = query_values ''code'' (url_query (rsp_url r)) in
             if codes = [] then raise OpenEdXOAuth2Error
             else bindP (create_tokens_and_update_auth srv auth (RedeemCode codes)) (\<lambda>a. ret (Some a))))))))))"

section \<open>Valid tokens\<close>

definition is_dead_refresh_token_error :: "(nat \<times> json option) option \<Rightarrow> bool" where
  "is_dead_refresh_token_error resp = (case resp of
      Some (status, Some (JObj kvs)) \<Rightarrow> status = 400 \<and> map_of kvs ''error'' = Some (JStr ''invalid_grant'')
    | _ \<Rightarrow> False)"

definition refresh_edx_api_auth :: "edx_server \<Rightarrow> OpenEdxApiAuth \<Rightarrow> OpenEdxApiAuth aop" where
  "refresh_edx_api_auth srv auth =
     catchP (create_tokens_and_update_auth srv auth (RefreshToken (oaa_refresh_token auth)))
       (\<lambda>e. case e of
          HTTPError resp \<Rightarrow>
            if \<not> is_dead_refresh_token_error resp then raise e
            else thenP (save_auth (auth\<lparr>oaa_refresh_token := [], oaa_access_token := Some []\<rparr>))
              (bindP (create_edx_auth_token srv (oaa_user auth)) (\<lambda>a. case a of
                 None \<Rightarrow> raise NoEdxApiAuthError | Some a \<Rightarrow> ret a))
        | _ \<Rightarrow> raise e)"

definition valid_until :: "OpenEdxApiAuth \<Rightarrow> int \<Rightarrow> bool" where
  "valid_until a t = (case oaa_access_token_expires_on a of None \<Rightarrow> False | Some e \<Rightarrow> t < e)"

definition get_valid_edx_api_auth :: "edx_server \<Rightarrow> nat \<Rightarrow> int \<Rightarrow> OpenEdxApiAuth aop" where
  "get_valid_edx_api_auth srv u ttl =
     (if OPENEDX_AUTH_MAX_TTL_IN_SECONDS \<le> ttl then raise AssertionError
      else bindP (gets (\<lambda>s. first (filter (\<lambda>a. oaa_user a = u \<and> valid_until a (acs_now s + ttl)) (api_auths s)))) (\<lambda>a.
        case a of
          Some a \<Rightarrow> ret a
        | None \<Rightarrow> atomicA (
            bindP (gets (\<lambda>s. find_auth s u)) (\<lambda>a. case a of
                None \<Rightarrow> raise ObjectDoesNotExist
              | Some a \<Rightarrow>
                  bindP (gets (\<lambda>s. acs_now s + ttl)) (\<lambda>t.
                  case oaa_access_token_expires_on a of
                    None \<Rightarrow> raise PyTypeError
                  | Some e \<Rightarrow> if t < e then ret a else refresh_edx_api_auth srv a)))))"

text \<open>A client is the access token that it sends; \<open>None\<close> where failures are ignored and there is no account.\<close>

definition get_edx_api_client :: "edx_server \<Rightarrow> nat \<Rightarrow> int \<Rightarrow> string option option aop" where
  "get_edx_api_client srv u ttl =
     bindP (create_edx_auth_token srv u) (\<lambda>a. case a of
         None \<Rightarrow> bindP (gets (\<lambda>s. as_ignore_edx_failures (acs_conf s))) (\<lambda>ign.
                  if ign then ret None else raise NoEdxApiAuthError)
       | Some _ \<Rightarrow>
           bindP (catchP (get_valid_edx_api_auth srv u ttl)
             (\<lambda>e. raise (if e = ObjectDoesNotExist then NoEdxApiAuthError else e))) (\<lambda>a.
           ret (Some (oaa_access_token a))))"

section \<open>Creating the account\<close>

definition edx_user_exists :: "edx_server \<Rightarrow> nat \<Rightarrow> bool aop" where
  "edx_user_exists srv u =
     catchP (bindP (get_edx_api_client srv u OPENEDX_AUTH_DEFAULT_TTL_IN_SECONDS) (\<lambda>c. case c of
         None \<Rightarrow> ret False
       | Some token \<Rightarrow> bindP (send_request srv (GetUserInfo token)) (\<lambda>_. ret True)))
     (\<lambda>_. ret False)"

definition create_access_token :: "edx_server \<Rightarrow> nat \<Rightarrow> string aop" where
  "create_access_token srv u = bindP fresh_account_id (\<lambda>i. let t = srv_token srv i in
     thenP (modify (\<lambda>s. s\<lparr>access_tokens := access_tokens s @
       [\<lparr>act_user = u, act_token = t, act_expires = acs_now s + as_token_expires_hours (acs_conf s) * 3600\<rparr>]\<rparr>))
     (ret t))"

text \<open>\<open>user.refresh_from_db()\<close>.\<close>

definition refreshed_user :: "AppUser \<Rightarrow> AppUser aop" where
  "refreshed_user user = bindP (gets (\<lambda>s. find_app_user s (au_id user))) (\<lambda>r.
     case r of None \<Rightarrow> raise ObjectDoesNotExist | Some r \<Rightarrow> ret r)"

definition create_edx_user :: "edx_server \<Rightarrow> AppUser \<Rightarrow> string option \<Rightarrow> (accounts, bool option) pyo" where
  "create_edx_user srv user desired =
     bindO (liftO (gets acs_conf)) (\<lambda>conf.
     bindO (liftO (gets (\<lambda>s. get_one (filter (\<lambda>n. n = as_oauth_app_name conf) (oauth_applications s))))) (\<lambda>app.
     case app of
       Inl e \<Rightarrow> if e = ObjectDoesNotExist \<and> as_ignore_edx_failures conf then liftO (ret (Some False)) else liftO (raise e)
     | Inr _ \<Rightarrow>
       bindO (liftO (create_access_token srv (au_id user))) (\<lambda>token.
       bindO (liftO (bindP (reconcile_edx_username srv user desired) (\<lambda>new.
                if new then refreshed_user user else ret user))) (\<lambda>user.
       bindO (liftO (gets (\<lambda>s. first (edx_users_of s (au_id user))))) (\<lambda>row. case row of
         None \<Rightarrow> liftO (raise PyAttributeError)
       | Some row \<Rightarrow>
           if \<not> has_text (oeu_edx_username row) then liftO (ret (Some False))
           else bindO (liftO (if oeu_has_been_synced row then edx_user_exists srv (au_id user) else ret False)) (\<lambda>there.
             if there then liftO (ret (Some False))
             else catchO (create_edx_user_request srv row user token)
               (\<lambda>e. if as_ignore_edx_failures conf then liftO (ret (Some False)) else liftO (raise e))))))))"

definition create_user :: "edx_server \<Rightarrow> AppUser \<Rightarrow> string option \<Rightarrow> (accounts, unit) pyo" where
  "create_user srv user desired =
     bindO (liftO (gets (\<lambda>s. as_ignore_edx_failures (acs_conf s)))) (\<lambda>ign.
     bindO (catchO (bindO (create_edx_user srv user desired) (\<lambda>_. liftO (ret ())))
              (\<lambda>e. if ign then liftO (ret ()) else liftO (raise e))) (\<lambda>_.
     liftO (catchP (bindP (create_edx_auth_token srv (au_id user)) (\<lambda>_. ret ()))
              (\<lambda>e. if ign then ret () else raise e))))"

definition create_user_from_id :: "edx_server \<Rightarrow> nat \<Rightarrow> (accounts, unit) pyo" where
  "create_user_from_id srv u =
     bindO (liftO (gets (\<lambda>s. find_app_user s u))) (\<lambda>r. case r of
       None \<Rightarrow> liftO (raise ObjectDoesNotExist) | Some user \<Rightarrow> create_user srv user None)"

section \<open>Repairing accounts\<close>

text \<open>Whether a user was created, and whether a token was asked for.\<close>

definition repair_faulty_edx_user :: "edx_server \<Rightarrow> AppUser \<Rightarrow> (accounts, bool option \<times> bool) pyo" where
  "repair_faulty_edx_user srv user =
     bindO (create_edx_user srv user None) (\<lambda>created.
     bindO (liftO (gets (\<lambda>s. find_auth s (au_id user)))) (\<lambda>auth. case auth of
       Some _ \<Rightarrow> liftO (ret (created, False))
     | None \<Rightarrow>
         bindO (liftO (create_edx_auth_token srv (au_id user))) (\<lambda>_.
         bindO (liftO (gets (\<lambda>s. edx_row_of s (au_id user)))) (\<lambda>row. case row of
           Some _ \<Rightarrow> liftO (ret (created, True))
         | None \<Rightarrow> bindO (liftO (get_or_create_edx_user (au_id user))) (\<lambda>_. liftO (ret (created, True)))))))"

definition repair_faulty_openedx_users :: "edx_server \<Rightarrow> AppUser list \<Rightarrow> (accounts, unit) pyo" where
  "repair_faulty_openedx_users srv us =
     forO (\<lambda>u. catchO (bindO (repair_faulty_edx_user srv u) (\<lambda>_. liftO (ret ()))) (\<lambda>_. liftO (ret ()))) us"

definition repair_all_faulty_openedx_users ::
    "(nat \<Rightarrow> nat list list \<Rightarrow> nat list list list) \<Rightarrow> edx_server \<Rightarrow> (accounts, unit) pyo" where
  "repair_all_faulty_openedx_users chunks srv =
     bindO (liftO (gets (\<lambda>s. (as_disable_repair (acs_conf s), faulty_users_iterator chunks s)))) (\<lambda>(off, us).
     if off then liftO (ret ()) else repair_faulty_openedx_users srv us)"

definition repair_faulty_openedx_users_chunk :: "edx_server \<Rightarrow> nat list \<Rightarrow> (accounts, unit) pyo" where
  "repair_faulty_openedx_users_chunk srv ids =
     bindO (liftO (gets (\<lambda>s. filter (\<lambda>u. au_id u \<in> set ids) (app_users s)))) (\<lambda>us. repair_faulty_openedx_users srv us)"

section \<open>Telling Open edX of changes\<close>

definition profile_update :: "AppUser \<Rightarrow> exn + EdxProfile" where
  "profile_update user =
     (case (au_legal_address user, au_user_profile user) of
        (None, _) \<Rightarrow> Inl ObjectDoesNotExist
      | (Some a, p) \<Rightarrow> bindE (edx_us_state a) (\<lambda>st. case p of
            None \<Rightarrow> Inl ObjectDoesNotExist
          | Some p \<Rightarrow> bindE (level_of_education p) (\<lambda>l.
              Inr \<lparr>ep_name = au_name user, ep_country = la_country a, ep_state = st, ep_gender = edx_gender p,
                   ep_year_of_birth = up_year_of_birth p, ep_level_of_education = l\<rparr>)))"

definition update_edx_user_profile :: "edx_server \<Rightarrow> AppUser \<Rightarrow> unit aop" where
  "update_edx_user_profile srv user =
     bindP (gets (\<lambda>s. (openedx_user_exists s (au_id user), edx_username s (au_id user)))) (\<lambda>(there, name).
     if \<not> there then ret ()
     else bindP (get_valid_edx_api_auth srv (au_id user) OPENEDX_AUTH_DEFAULT_TTL_IN_SECONDS) (\<lambda>auth.
       bindP (liftE (\<lambda>_. profile_update user)) (\<lambda>d.
       bindP (send_request srv (PatchProfile (case name of None \<Rightarrow> [] | Some n \<Rightarrow> n) d (oaa_access_token auth))) (\<lambda>r.
       if rsp_status r \<noteq> 200 then raise EdxApiUserUpdateError else ret ()))))"

definition update_edx_user_email :: "edx_server \<Rightarrow> nat \<Rightarrow> unit aop" where
  "update_edx_user_email srv u =
     bindP (send_request srv (SocialLogin u)) (\<lambda>r.
     thenP (raise_for_status r)
     (bindP (send_request srv Authorize) (\<lambda>r. raise_for_status r)))"

definition update_edx_user_name :: "edx_server \<Rightarrow> AppUser \<Rightarrow> http_response option aop" where
  "update_edx_user_name srv user =
     bindP (get_edx_api_client srv (au_id user) OPENEDX_AUTH_DEFAULT_TTL_IN_SECONDS) (\<lambda>c. case c of
         None \<Rightarrow> ret None
       | Some token \<Rightarrow>
           bindP (gets (\<lambda>s. edx_username s (au_id user))) (\<lambda>name.
           catchP (bindP (send_request srv (UpdateUserName name (au_name user) token)) (\<lambda>r. ret (Some r)))
             (\<lambda>_. raise UserNameUpdateFailedException)))"

section \<open>Validating a registration\<close>

definition validate_username_email_with_edx :: "edx_server \<Rightarrow> string \<Rightarrow> string \<Rightarrow> json aop" where
  "validate_username_email_with_edx srv name email =
     bindP (send_request srv (ValidateRegistration name email)) (\<lambda>r.
     if rsp_status r \<noteq> 200 then raise EdxApiRegistrationValidationException
     else (case rsp_body r of
         None \<Rightarrow> raise PyValueError
       | Some j \<Rightarrow> liftE (\<lambda>_. dict_item j ''validation_decisions'')))"

text \<open>\<open>creating\<close>: there is no instance yet; \<open>posted\<close>: the request is a POST.\<close>

definition validate_user :: "edx_server \<Rightarrow> bool \<Rightarrow> bool \<Rightarrow> string option \<Rightarrow> string option \<Rightarrow> string \<Rightarrow> unit aop" where
  "validate_user srv creating posted password name email =
     (if posted \<and> (\<not> has_text password \<or> \<not> has_text name) then raise ValidationError
      else if \<not> has_text name then ret ()
      else bindP (gets (\<lambda>s. exists_row (\<lambda>r. case oeu_edx_username r of None \<Rightarrow> False | Some t \<Rightarrow> iexact t (the name))
                    (openedx_users s))) (\<lambda>taken.
        if creating \<and> taken then raise ValidationError
        else bindP (catchP (validate_username_email_with_edx srv (the name) email)
            (\<lambda>e. raise (case e of HTTPError _ \<Rightarrow> ValidationError | ConnectionError \<Rightarrow> ValidationError
                         | EdxApiRegistrationValidationException \<Rightarrow> ValidationError | _ \<Rightarrow> e))) (\<lambda>d.
          bindP (liftE (\<lambda>_. dict_item d ''username'')) (\<lambda>u.
          if jtruthy (Some u) then raise ValidationError
          else bindP (liftE (\<lambda>_. dict_item d ''email'')) (\<lambda>e.
            if jtruthy (Some e) then raise ValidationError else ret ())))))"


section \<open>Tokens that are issued\<close>

text \<open>The requests that are answered with tokens.\<close>

definition asks_for_tokens :: "edx_call \<Rightarrow> bool" where
  "asks_for_tokens q \<longleftrightarrow> (case q of RedeemCode _ \<Rightarrow> True | RefreshToken _ \<Rightarrow> True | _ \<Rightarrow> False)"

definition error_answer :: "http_response \<Rightarrow> bool" where
  "error_answer r \<longleftrightarrow> 400 \<le> rsp_status r \<and> rsp_status r < 600"

text \<open>
  The row holds both tokens of the last answer, which was the answer to a request for tokens and
  not an error, and expires when that answer says, less the margin.
\<close>

definition issued :: "edx_server \<Rightarrow> OpenEdxApiAuth \<Rightarrow> accounts \<Rightarrow> bool" where
  "issued srv a t \<longleftrightarrow> (\<exists>h q r j secs. acs_sent t = h @ [q] \<and> srv_answer srv h q = Inr r \<and> rsp_body r = Some j
     \<and> asks_for_tokens q \<and> \<not> error_answer r
     \<and> dict_item j ''refresh_token'' = Inr (JStr (oaa_refresh_token a))
     \<and> (\<exists>access. dict_item j ''access_token'' = Inr access
          \<and> oaa_access_token a = (case access of JStr x \<Rightarrow> Some x | _ \<Rightarrow> None))
     \<and> bindE (dict_item j ''expires_in'') json_seconds = Inr secs
     \<and> oaa_access_token_expires_on a = Some (acs_now t + (secs - OPENEDX_OAUTH2_ACCESS_TOKEN_EXPIRY_MARGIN_SECONDS)))"

lemma find_save_auth: "find_auth (s\<lparr>api_auths := put_row oaa_user a (api_auths s)\<rparr>) (oaa_user a) = Some a"
  by (simp add: find_auth_def first_put_row)

lemma raise_for_status_Inr: "raise_for_status r s = (Inr x, t) \<Longrightarrow> t = s \<and> \<not> error_answer r"
  by (auto simp: raise_for_status_def error_answer_def run_eqs split: if_splits)

lemma send_Inr: "send_request srv q s = (Inr r, t) \<longleftrightarrow>
    srv_answer srv (acs_sent s) q = Inr r \<and> t = s\<lparr>acs_sent := acs_sent s @ [q]\<rparr>"
  by (auto simp: send_request_def)

lemma create_tokens_Inr:
  assumes "create_tokens_and_update_auth srv auth q s = (Inr a, t)" "asks_for_tokens q"
  shows "issued srv a t \<and> find_auth t (oaa_user auth) = Some a \<and> acs_sent t = acs_sent s @ [q]
    \<and> oaa_user a = oaa_user auth \<and> acs_now t = acs_now s"
proof -
  from assms(1) obtain r j secs refresh access rt where
    r: "srv_answer srv (acs_sent s) q = Inr r" "rsp_body r = Some j" "\<not> error_answer r"
    and j: "bindE (dict_item j ''expires_in'') json_seconds = Inr secs" "dict_item j ''refresh_token'' = Inr refresh"
      "dict_item j ''access_token'' = Inr access" "token_text refresh = Some rt"
    and a: "a = auth\<lparr>oaa_refresh_token := rt, oaa_access_token := token_text access,
        oaa_access_token_expires_on := Some (acs_now s + (secs - OPENEDX_OAUTH2_ACCESS_TOKEN_EXPIRY_MARGIN_SECONDS))\<rparr>"
    and t: "t = s\<lparr>acs_sent := acs_sent s @ [q], api_auths := put_row oaa_user a (api_auths s)\<rparr>"
    unfolding create_tokens_and_update_auth_def Let_def
    by (auto simp: run_eqs send_Inr save_auth_def dest!: raise_for_status_Inr split: option.splits)
  have "refresh = JStr rt" using j(4) by (auto simp: token_text_def split: json.splits)
  then have "acs_sent t = acs_sent s @ [q] \<and> srv_answer srv (acs_sent s) q = Inr r \<and> rsp_body r = Some j
      \<and> asks_for_tokens q \<and> \<not> error_answer r
      \<and> dict_item j ''refresh_token'' = Inr (JStr (oaa_refresh_token a))
      \<and> (\<exists>access. dict_item j ''access_token'' = Inr access
           \<and> oaa_access_token a = (case access of JStr x \<Rightarrow> Some x | _ \<Rightarrow> None))
      \<and> bindE (dict_item j ''expires_in'') json_seconds = Inr secs
      \<and> oaa_access_token_expires_on a = Some (acs_now t + (secs - OPENEDX_OAUTH2_ACCESS_TOKEN_EXPIRY_MARGIN_SECONDS))"
    using r j a t assms(2) by (simp add: token_text_def)
  then have "issued srv a t" unfolding issued_def by blast
  moreover have "find_auth t (oaa_user auth) = Some a"
    using find_save_auth [where s = "s\<lparr>acs_sent := acs_sent s @ [q]\<rparr>" and a = a] a t by simp
  ultimately show ?thesis using a t by simp
qed

lemma issued_leave: "issued srv a (leave_account_atomic s t) = issued srv a t"
  by (simp add: issued_def)

lemma find_auth_leave: "find_auth (leave_account_atomic s t) u = find_auth t u"
  by (simp add: find_auth_def)

lemma find_auth_user: "find_auth s u = Some a \<Longrightarrow> oaa_user a = u"
  unfolding find_auth_def by (drule first_filter_SomeD) simp

lemma create_edx_auth_token_Inr:
  assumes "create_edx_auth_token srv u s = (Inr (Some a), t)"
  shows "find_auth t u = Some a \<and> (issued srv a t \<or>
     (find_auth s u = Some a \<and> oaa_refresh_token a \<noteq> [] \<and> has_text (oaa_access_token a) \<and> acs_sent t = acs_sent s))"
proof -
  obtain auth s1 where auth: "get_or_create_auth u (s\<lparr>acs_in_atomic := True\<rparr>) = (Inr auth, s1)"
    and rest: "\<exists>t1. t = leave_account_atomic s t1 \<and>
      ((oaa_refresh_token auth \<noteq> [] \<and> has_text (oaa_access_token auth) \<and> a = auth \<and> t1 = s1)
       \<or> (\<exists>codes s2. create_tokens_and_update_auth srv auth (RedeemCode codes) s2 = (Inr a, t1)))"
    using assms unfolding create_edx_auth_token_def atomicA_def
    by (auto simp: run_eqs Let_def split: prod.splits sum.splits if_splits)
  have user: "oaa_user auth = u" "find_auth s1 u = Some auth"
    using auth find_auth_user [of "s\<lparr>acs_in_atomic := True\<rparr>" u auth]
      find_save_auth [where s = "s\<lparr>acs_in_atomic := True\<rparr>" and a = "\<lparr>oaa_user = u, oaa_refresh_token = [], oaa_access_token = None,
        oaa_access_token_expires_on = None\<rparr>"]
    by (auto simp: get_or_create_auth_def run_eqs save_auth_def Let_def split: option.splits)
  from rest obtain t1 where t: "t = leave_account_atomic s t1" and
    cases: "(oaa_refresh_token auth \<noteq> [] \<and> has_text (oaa_access_token auth) \<and> a = auth \<and> t1 = s1)
       \<or> (\<exists>codes s2. create_tokens_and_update_auth srv auth (RedeemCode codes) s2 = (Inr a, t1))" by blast
  from cases show ?thesis
  proof
    assume old: "oaa_refresh_token auth \<noteq> [] \<and> has_text (oaa_access_token auth) \<and> a = auth \<and> t1 = s1"
    then have "find_auth s u = Some auth \<and> acs_sent s1 = acs_sent s"
      using auth by (auto simp: get_or_create_auth_def run_eqs save_auth_def Let_def find_auth_def split: option.splits)
    then show ?thesis using old user t by (simp add: find_auth_leave)
  next
    assume "\<exists>codes s2. create_tokens_and_update_auth srv auth (RedeemCode codes) s2 = (Inr a, t1)"
    then obtain codes s2 where new: "create_tokens_and_update_auth srv auth (RedeemCode codes) s2 = (Inr a, t1)" by blast
    show ?thesis using create_tokens_Inr [OF new] user t by (simp add: asks_for_tokens_def find_auth_leave issued_leave)
  qed
qed

text \<open>The record that \<open>get_valid_edx_api_auth\<close> returns is stored, and lasts long enough or was just issued.\<close>

lemma get_valid_edx_api_auth_Inr:
  assumes "get_valid_edx_api_auth srv u ttl s = (Inr a, t)" "distinct (map oaa_user (api_auths s))"
  shows "find_auth t u = Some a \<and> (valid_until a (acs_now s + ttl) \<or> issued srv a t)"
proof -
  let ?valid = "first (filter (\<lambda>a. oaa_user a = u \<and> valid_until a (acs_now s + ttl)) (api_auths s))"
  have ttl: "\<not> OPENEDX_AUTH_MAX_TTL_IN_SECONDS \<le> ttl"
    using assms(1) by (auto simp: get_valid_edx_api_auth_def run_eqs split: if_splits)
  show ?thesis
  proof (cases ?valid)
    case (Some b)
    then have "b \<in> set (api_auths s)" "oaa_user b = u" "valid_until b (acs_now s + ttl)"
      by (auto dest: first_filter_SomeD)
    moreover have "a = b" "t = s"
      using assms(1) ttl Some by (simp_all add: get_valid_edx_api_auth_def ret_def)
    ultimately show ?thesis using filter_key_unique [OF assms(2), of b] by (simp add: find_auth_def)
  next
    case None
    then obtain b e t1 where b: "find_auth (s\<lparr>acs_in_atomic := True\<rparr>) u = Some b"
      and e: "oaa_access_token_expires_on b = Some e" and t: "t = leave_account_atomic s t1"
      and rest: "(acs_now s + ttl < e \<and> a = b \<and> t1 = s\<lparr>acs_in_atomic := True\<rparr>)
        \<or> refresh_edx_api_auth srv b (s\<lparr>acs_in_atomic := True\<rparr>) = (Inr a, t1)"
      using assms(1) ttl by (auto simp: get_valid_edx_api_auth_def atomicA_def run_eqs
          split: prod.splits sum.splits option.splits if_splits)
    from rest show ?thesis
    proof
      assume "acs_now s + ttl < e \<and> a = b \<and> t1 = s\<lparr>acs_in_atomic := True\<rparr>"
      then show ?thesis using b e t by (simp add: find_auth_leave valid_until_def)
    next
      assume run: "refresh_edx_api_auth srv b (s\<lparr>acs_in_atomic := True\<rparr>) = (Inr a, t1)"
      have user: "oaa_user b = u" by (rule find_auth_user [OF b])
      obtain res s1 where tok: "create_tokens_and_update_auth srv b (RefreshToken (oaa_refresh_token b))
          (s\<lparr>acs_in_atomic := True\<rparr>) = (res, s1)" by fastforce
      show ?thesis
      proof (cases res)
        case (Inr x)
        then have "x = a" "s1 = t1" using run tok by (simp_all add: refresh_edx_api_auth_def catchP_def)
        then show ?thesis using create_tokens_Inr [of srv b _ _ a t1] tok Inr user t
          by (simp add: asks_for_tokens_def find_auth_leave issued_leave)
      next
        case (Inl x)
        let ?cleared = "b\<lparr>oaa_refresh_token := [], oaa_access_token := Some []\<rparr>"
        have new: "create_edx_auth_token srv u (s1\<lparr>api_auths := put_row oaa_user ?cleared (api_auths s1)\<rparr>)
            = (Inr (Some a), t1)"
          using run tok Inl user unfolding refresh_edx_api_auth_def catchP_def
          by (auto simp: run_eqs save_auth_def split: exn.splits if_splits option.splits)
        have "find_auth (s1\<lparr>api_auths := put_row oaa_user ?cleared (api_auths s1)\<rparr>) u = Some ?cleared"
          using find_save_auth [where s = s1 and a = ?cleared] user by simp
        then have "issued srv a t1 \<and> find_auth t1 u = Some a"
          using create_edx_auth_token_Inr [OF new] by auto
        then show ?thesis using t by (simp add: find_auth_leave issued_leave)
      qed
    qed
  qed
qed

text \<open>When no valid record can be had, the tokens that were stored survive.\<close>

lemma tokens_survive:
  assumes "get_valid_edx_api_auth srv u ttl s = (Inl e, t)"
  shows "api_auths t = api_auths s"
  using assms by (auto simp: get_valid_edx_api_auth_def atomicA_def run_eqs raise_def ret_def
      split: prod.splits sum.splits if_splits option.splits)

text \<open>A refusal that authorizing anew cannot cure is passed on, and nothing else is asked of Open edX.\<close>

lemma other_refusals_passed_on:
  assumes "srv_answer srv (acs_sent s) (RefreshToken (oaa_refresh_token auth)) = Inr r"
    "400 \<le> rsp_status r" "rsp_status r < 600" "\<not> is_dead_refresh_token_error (Some (rsp_status r, rsp_body r))"
  shows "refresh_edx_api_auth srv auth s = (Inl (HTTPError (Some (rsp_status r, rsp_body r))),
     s\<lparr>acs_sent := acs_sent s @ [RefreshToken (oaa_refresh_token auth)]\<rparr>)"
  using assms by (simp add: refresh_edx_api_auth_def create_tokens_and_update_auth_def catchP_def bindP_def thenP_def
      send_request_def raise_for_status_def raise_def)

text \<open>Creating a token is idempotent.\<close>

lemma create_edx_auth_token_again:
  assumes "create_edx_auth_token srv u s = (Inr (Some a), t)" "oaa_refresh_token a \<noteq> []" "has_text (oaa_access_token a)"
    "synced_with_edx t u" "\<not> acs_in_atomic t" "acs_on_commit t = []"
  shows "create_edx_auth_token srv u t = (Inr (Some a), t)"
proof -
  let ?t = "t\<lparr>acs_in_atomic := True\<rparr>"
  have a: "find_auth t u = Some a" using create_edx_auth_token_Inr [OF assms(1)] by blast
  have "get_or_create_auth u ?t = (Inr a, ?t)"
    using a by (simp add: get_or_create_auth_def find_auth_def ret_def)
  moreover have "synced_with_edx ?t u" using assms(4) by (simp add: synced_with_edx_def)
  moreover have "leave_account_atomic t ?t = t" using assms(5,6) by (simp add: leave_account_atomic_def)
  ultimately show ?thesis using assms(2,3)
    by (simp add: create_edx_auth_token_def atomicA_def bindP_Inr [where m = "get_or_create_auth u"] ret_def)
qed

section \<open>Repairs do not stop\<close>

text \<open>Whatever happens to one user, the next one is tried, and the job ends without an exception.\<close>

definition settles :: "('s, 'a) pyo \<Rightarrow> bool" where
  "settles m \<longleftrightarrow> (\<forall>s r t. m s = Some (r, t) \<longrightarrow> (\<exists>x. r = Inr x))"

lemma settles_for: "(\<And>x. settles (f x)) \<Longrightarrow> settles (forO f xs)"
proof (induction xs)
  case (Cons x xs)
  have "settles (f x)" by (rule Cons.prems)
  moreover have "settles (forO f xs)" using Cons by blast
  ultimately show ?case
    unfolding settles_def forO.simps bindO_def
    by (clarsimp split: option.splits sum.splits prod.splits) fastforce+
qed (auto simp: settles_def liftO_app ret_def)

lemma repair_settles: "settles (repair_faulty_openedx_users srv us)"
  unfolding repair_faulty_openedx_users_def
  by (rule settles_for) (auto simp: settles_def catchO_def liftO_app ret_def split: option.splits sum.splits prod.splits)

end
