(* ===== verification/Compliance.thy ===== *)
theory Compliance
  imports Accounts Schema "HOL-Library.List_Lexorder" "HOL-Library.Char_ord"
begin

text \<open>
  Export compliance checks (\<open>src/compliance\<close>): the billing data of a learner that CyberSource is
  asked about, what is missing from it, the inquiry, the log of the answers and when an earlier
  answer is used instead of a new inquiry.

  The SDK of CyberSource and the encryption are parameters (\<open>export_services\<close>).
\<close>

section \<open>Values of the SDK\<close>

text \<open>What the SDK returns: a dict, an object with attributes, or a tuple of the payload, the status
  and the text on the wire.\<close>

datatype sdk =
    SNone
  | SText string
  | SNum int
  | SBytes string
  | SList "sdk list"
  | STuple "sdk list"
  | SDict "(string \<times> sdk) list"
  | SObject "(string \<times> sdk) list"

fun sdk_true :: "sdk \<Rightarrow> bool" where
  "sdk_true SNone = False"
| "sdk_true (SText t) = (t \<noteq> [])"
| "sdk_true (SNum n) = (n \<noteq> 0)"
| "sdk_true (SBytes t) = (t \<noteq> [])"
| "sdk_true (SList xs) = (xs \<noteq> [])"
| "sdk_true (STuple xs) = (xs \<noteq> [])"
| "sdk_true (SDict kvs) = (kvs \<noteq> [])"
| "sdk_true (SObject kvs) = True"

fun get_response_payload :: "sdk \<Rightarrow> sdk" where
  "get_response_payload (STuple (x # xs)) = x"
| "get_response_payload x = x"

text \<open>\<open>_get_response_value\<close>: a dict answers with the first name it has, also when its value is
  \<open>None\<close>; an object with the first attribute that is not \<open>None\<close>.\<close>

fun dict_value :: "(string \<times> sdk) list \<Rightarrow> string list \<Rightarrow> sdk" where
  "dict_value kvs [] = SNone"
| "dict_value kvs (k # ks) = (case map_of kvs k of Some x \<Rightarrow> x | None \<Rightarrow> dict_value kvs ks)"

fun attribute_value :: "(string \<times> sdk) list \<Rightarrow> string list \<Rightarrow> sdk" where
  "attribute_value kvs [] = SNone"
| "attribute_value kvs (k # ks) =
     (case map_of kvs k of None \<Rightarrow> attribute_value kvs ks
      | Some x \<Rightarrow> if x = SNone then attribute_value kvs ks else x)"

definition get_response_value :: "sdk \<Rightarrow> string list \<Rightarrow> sdk" where
  "get_response_value r names =
     (case get_response_payload r of
        SDict kvs \<Rightarrow> dict_value kvs names
      | SObject kvs \<Rightarrow> attribute_value kvs names
      | _ \<Rightarrow> SNone)"

text \<open>\<open>",".join\<close> of a list of texts, or of the characters of a text.\<close>

fun comma_separated :: "string list \<Rightarrow> string" where
  "comma_separated [] = []"
| "comma_separated [t] = t"
| "comma_separated (t # ts) = t @ '','' @ comma_separated ts"

definition sdk_text :: "sdk \<Rightarrow> exn + string" where
  "sdk_text x = (case x of SText t \<Rightarrow> Inr t | _ \<Rightarrow> Inl PyTypeError)"

definition sdk_items :: "sdk \<Rightarrow> exn + sdk list" where
  "sdk_items x = (case x of
       SText t \<Rightarrow> Inr (map (\<lambda>c. SText [c]) t)
     | SList xs \<Rightarrow> Inr xs
     | STuple xs \<Rightarrow> Inr xs
     | SDict kvs \<Rightarrow> Inr (map (\<lambda>(k, _). SText k) kvs)
     | _ \<Rightarrow> Inl PyTypeError)"

definition sdk_join :: "sdk \<Rightarrow> exn + string" where
  "sdk_join x = bindE (sdk_items x) (\<lambda>xs. bindE (mapE sdk_text xs) (\<lambda>ts. Inr (comma_separated ts)))"

definition get_reason_code :: "sdk \<Rightarrow> exn + sdk" where
  "get_reason_code r =
     (let info = get_response_value r [''export_compliance_information'', ''exportComplianceInformation''];
          codes = get_response_value info [''info_codes'', ''infoCodes'']
      in if sdk_true codes then bindE (sdk_join codes) (\<lambda>t. Inr (SText t))
         else let err = get_response_value r [''error_information'', ''errorInformation''];
                  reason = get_response_value err [''reason'']
              in Inr (if sdk_true reason then reason else get_response_value r [''message'']))"

section \<open>The billing data of a learner\<close>

type_synonym bill_to = "(string \<times> string) list"

definition upper_char :: "char \<Rightarrow> char" where
  "upper_char c = (let n = (of_char c :: nat) in if 97 \<le> n \<and> n \<le> 122 then char_of (n - 32) else c)"

definition upper :: "string \<Rightarrow> string" where
  "upper t = map upper_char t"

text \<open>\<open>_normalize_administrative_area\<close>: the part of an ISO 3166-2 code after the country.\<close>

definition normalize_administrative_area :: "string \<Rightarrow> string \<Rightarrow> string" where
  "normalize_administrative_area country state =
     (let c = upper (strip country); t = strip state;
          before = takeWhile (\<lambda>x. x \<noteq> CHR ''-'') t; after = drop (Suc (length before)) t
      in if c \<noteq> [] \<and> CHR ''-'' \<in> set t \<and> upper before = c \<and> after \<noteq> [] then after else t)"

definition column_entry :: "string \<Rightarrow> string \<Rightarrow> bill_to" where
  "column_entry k v = (if v = [] then [] else [(k, v)])"

definition state_entry :: "string \<Rightarrow> string option \<Rightarrow> bill_to" where
  "state_entry country st = (case st of None \<Rightarrow> [] | Some st \<Rightarrow> if st = [] then []
     else [(''administrative_area'', normalize_administrative_area country st)])"

definition build_bill_to :: "AppUser \<Rightarrow> bill_to" where
  "build_bill_to u = (''email'', au_email u) #
     (case au_legal_address u of
        None \<Rightarrow> []
      | Some a \<Rightarrow>
          column_entry ''first_name'' (la_first_name a) @ column_entry ''last_name'' (la_last_name a)
          @ column_entry ''country'' (la_country a) @ column_entry ''address1'' (la_street_address_1 a)
          @ column_entry ''address2'' (la_street_address_2 a) @ column_entry ''locality'' (la_city a)
          @ state_entry (la_country a) (la_state a)
          @ column_entry ''postal_code'' (la_postal_code a))"

definition lacks :: "bill_to \<Rightarrow> string \<Rightarrow> bool" where
  "lacks b f \<longleftrightarrow> \<not> has_text (map_of b f)"

definition missing_bill_to_fields :: "bool \<Rightarrow> bill_to \<Rightarrow> string list" where
  "missing_bill_to_fields always b =
     filter (lacks b) ([''first_name'', ''last_name'', ''address1'', ''locality'', ''country'', ''email'']
       @ (if always \<or> map_of b ''country'' \<in> {Some ''US'', Some ''CA''}
          then [''administrative_area'', ''postal_code''] else []))"

definition BILL_TO_FIELD_TO_PROFILE_FIELD :: "(string \<times> string) list" where
  "BILL_TO_FIELD_TO_PROFILE_FIELD =
     [(''first_name'', ''first_name''), (''last_name'', ''last_name''), (''email'', ''email''),
      (''address1'', ''street_address_1''), (''locality'', ''city''), (''country'', ''country''),
      (''administrative_area'', ''state''), (''postal_code'', ''postal_code'')]"

definition profile_field :: "string \<Rightarrow> exn + string" where
  "profile_field f = (case map_of BILL_TO_FIELD_TO_PROFILE_FIELD f of None \<Rightarrow> Inl PyKeyError | Some p \<Rightarrow> Inr p)"

text \<open>\<open>sorted\<close> of a set of names.\<close>

definition sorted_names :: "string list \<Rightarrow> string list" where
  "sorted_names ts = sort (remdups ts)"

definition get_missing_export_compliance_fields :: "AppUser \<Rightarrow> exn + string list" where
  "get_missing_export_compliance_fields u =
     bindE (mapE profile_field (missing_bill_to_fields True (build_bill_to u))) (\<lambda>fs. Inr (sorted_names fs))"

text \<open>The billing data of a request, or the error that names what is missing.\<close>

definition validate_bill_to_fields :: "bill_to \<Rightarrow> exn + unit" where
  "validate_bill_to_fields b =
     (let missing = missing_bill_to_fields False b in
      if missing \<noteq> [] then Inl (ExportComplianceDataError (sorted_names missing)) else Inr ())"

definition build_export_payload :: "AppUser \<Rightarrow> exn + bill_to" where
  "build_export_payload u =
     (let b = build_bill_to u in
      bindE (validate_bill_to_fields b) (\<lambda>_. Inr (filter (\<lambda>(k, v). v \<noteq> []) b)))"

section \<open>The log and the inquiry\<close>

datatype export_decision = EXPORT_COMPLETED | EXPORT_INVALID_REQUEST | EXPORT_DECLINED | EXPORT_MANUALLY_APPROVED

definition decision_text :: "export_decision \<Rightarrow> string" where
  "decision_text d = (case d of EXPORT_COMPLETED \<Rightarrow> ''COMPLETED'' | EXPORT_INVALID_REQUEST \<Rightarrow> ''INVALID_REQUEST''
     | EXPORT_DECLINED \<Rightarrow> ''DECLINED'' | EXPORT_MANUALLY_APPROVED \<Rightarrow> ''MANUALLY_APPROVED'')"

definition ACCEPTED_DECISIONS :: "string list" where
  "ACCEPTED_DECISIONS = map decision_text [EXPORT_COMPLETED, EXPORT_MANUALLY_APPROVED]"

text \<open>\<open>ecl_courseware\<close>: the generic foreign key, its content type and the primary key.\<close>

record ExportComplianceLog =
  ecl_id :: nat
  ecl_user :: nat
  ecl_courseware :: "content_type \<times> nat"
  ecl_decision :: string
  ecl_reason_code :: string
  ecl_request_id :: string
  ecl_encrypted_request :: string
  ecl_encrypted_response :: string
  ecl_approved_by :: "nat option"
  ecl_approved_on :: "int option"
  ecl_created_on :: int

definition log_accepted :: "ExportComplianceLog \<Rightarrow> bool" where
  "log_accepted l \<longleftrightarrow> ecl_decision l \<in> set ACCEPTED_DECISIONS"

record ExportComplianceResult =
  ecr_decision :: sdk
  ecr_reason_code :: sdk
  ecr_request_id :: sdk
  ecr_raw :: sdk

definition result_accepted :: "ExportComplianceResult \<Rightarrow> bool" where
  "result_accepted r \<longleftrightarrow> (case ecr_decision r of SText t \<Rightarrow> t \<in> set ACCEPTED_DECISIONS | _ \<Rightarrow> False)"

record compliance_settings =
  cps_merchant_id :: string
  cps_merchant_key_id :: string
  cps_merchant_secret :: string
  cps_environment :: string
  cps_encryption_key :: string

text \<open>\<open>cp_sent\<close>: the requests that CyberSource was sent.\<close>

record compliance =
  cp_conf :: compliance_settings
  cp_now :: int
  cp_next_id :: nat
  cp_uuids :: nat
  cp_sent :: "string list"
  export_logs :: "ExportComplianceLog list"

type_synonym 'a cop = "(compliance, 'a) py"

text \<open>
  The parameters: the answer of CyberSource to a request, given the earlier ones; the JSON text that
  the SDK makes of a reference and billing data, without what is null; sealed boxes of NaCl, the JSON of an
  SDK object and \<open>str\<close> of a value that is not a text.
\<close>

record export_services =
  ex_answer :: "string list \<Rightarrow> string \<Rightarrow> exn + sdk"
  ex_payload :: "nat \<Rightarrow> bill_to \<Rightarrow> string"
  ex_encrypt :: "string \<Rightarrow> string \<Rightarrow> string"
  ex_decrypt :: "string \<Rightarrow> string \<Rightarrow> exn + string"
  ex_dumps :: "sdk \<Rightarrow> string"
  ex_str :: "sdk \<Rightarrow> string"

definition require_setting :: "string \<Rightarrow> exn + string" where
  "require_setting v = (if v = [] then Inl ImproperlyConfigured else Inr v)"

definition get_cybersource_configuration :: "compliance_settings \<Rightarrow> exn + string list" where
  "get_cybersource_configuration c =
     mapE require_setting [cps_merchant_id c, cps_merchant_key_id c, cps_merchant_secret c, cps_environment c]"

definition str_of :: "export_services \<Rightarrow> sdk \<Rightarrow> string" where
  "str_of ex x = (case x of SText t \<Rightarrow> t | _ \<Rightarrow> ex_str ex x)"

text \<open>The text on the wire is the third part of the answer, if there is one.\<close>

definition raw_part :: "sdk \<Rightarrow> sdk option" where
  "raw_part r = (case r of STuple (_ # _ # x # _) \<Rightarrow> if sdk_true x then Some x else None | _ \<Rightarrow> None)"

definition get_raw_response_text :: "export_services \<Rightarrow> sdk \<Rightarrow> string" where
  "get_raw_response_text ex r =
     (case raw_part r of
        Some x \<Rightarrow> (case x of SBytes t \<Rightarrow> t | _ \<Rightarrow> str_of ex x)
      | None \<Rightarrow> (case get_response_payload r of
            SObject kvs \<Rightarrow> ex_dumps ex (SObject kvs)
          | SDict kvs \<Rightarrow> ex_dumps ex (SDict kvs)
          | x \<Rightarrow> str_of ex x))"

text \<open>\<open>save\<close> refuses a manual approval without its columns; the columns have at most 30 and 255
  characters.\<close>

definition check_manual_approval_fields :: "ExportComplianceLog \<Rightarrow> exn + unit" where
  "check_manual_approval_fields l =
     (if ecl_decision l = decision_text EXPORT_MANUALLY_APPROVED \<and> (ecl_approved_by l = None \<or> ecl_approved_on l = None)
      then Inl ValidationError else Inr ())"

definition save_log :: "ExportComplianceLog \<Rightarrow> unit cop" where
  "save_log l =
     bindP (liftE (\<lambda>_. check_manual_approval_fields l)) (\<lambda>_.
     if 30 < length (ecl_decision l) \<or> 255 < length (ecl_reason_code l) \<or> 255 < length (ecl_request_id l)
     then raise DataError
     else modify (\<lambda>s. s\<lparr>export_logs := put_row ecl_id l (export_logs s)\<rparr>))"

definition or_empty :: "export_services \<Rightarrow> sdk \<Rightarrow> string" where
  "or_empty ex x = (if sdk_true x then str_of ex x else [])"

definition log_export_compliance_check ::
  "export_services \<Rightarrow> nat \<Rightarrow> content_type \<times> nat \<Rightarrow> string \<Rightarrow> sdk \<Rightarrow> ExportComplianceResult \<Rightarrow> ExportComplianceLog cop" where
  "log_export_compliance_check ex u run request response result =
     bindP (liftE (\<lambda>s. require_setting (cps_encryption_key (cp_conf s)))) (\<lambda>key.
     bindP (gets (\<lambda>s. \<lparr>ecl_id = cp_next_id s, ecl_user = u, ecl_courseware = run,
        ecl_decision = or_empty ex (ecr_decision result),
        ecl_reason_code = (if ecr_reason_code result = SNone then [] else str_of ex (ecr_reason_code result)),
        ecl_request_id = or_empty ex (ecr_request_id result),
        ecl_encrypted_request = ex_encrypt ex key request,
        ecl_encrypted_response = ex_encrypt ex key (get_raw_response_text ex response),
        ecl_approved_by = None, ecl_approved_on = None, ecl_created_on = cp_now s\<rparr>)) (\<lambda>l.
     thenP (modify (\<lambda>s. s\<lparr>cp_next_id := Suc (cp_next_id s)\<rparr>))
     (thenP (save_log l) (ret l))))"

text \<open>The window of 24 hours, in seconds.\<close>

definition RECENT_EXPORT_COMPLIANCE_CHECK_WINDOW :: int where
  "RECENT_EXPORT_COMPLIANCE_CHECK_WINDOW = 24 * 60 * 60"

definition reusable :: "int \<Rightarrow> nat \<Rightarrow> content_type \<times> nat \<Rightarrow> ExportComplianceLog \<Rightarrow> bool" where
  "reusable t u run l \<longleftrightarrow> ecl_user l = u
     \<and> (ecl_courseware l = run \<or> t - RECENT_EXPORT_COMPLIANCE_CHECK_WINDOW \<le> ecl_created_on l \<or> \<not> log_accepted l)"

definition get_latest_export_compliance_log :: "compliance \<Rightarrow> nat \<Rightarrow> content_type \<times> nat \<Rightarrow> ExportComplianceLog option" where
  "get_latest_export_compliance_log s u run =
     first (sort_key (\<lambda>l. - ecl_created_on l) (filter (reusable (cp_now s) u run) (export_logs s)))"

definition decrypt_export_compliance_log :: "export_services \<Rightarrow> ExportComplianceLog \<Rightarrow> string \<Rightarrow> exn + string \<times> string" where
  "decrypt_export_compliance_log ex l key =
     bindE (ex_decrypt ex key (ecl_encrypted_request l)) (\<lambda>q.
     bindE (ex_decrypt ex key (ecl_encrypted_response l)) (\<lambda>r. Inr (q, r)))"

definition cached_result :: "ExportComplianceLog \<Rightarrow> ExportComplianceResult" where
  "cached_result l = \<lparr>ecr_decision = SText (ecl_decision l), ecr_reason_code = SText (ecl_reason_code l),
     ecr_request_id = SText (ecl_request_id l), ecr_raw = SNone\<rparr>"

definition send_inquiry :: "export_services \<Rightarrow> string \<Rightarrow> sdk cop" where
  "send_inquiry ex q = (\<lambda>s. (ex_answer ex (cp_sent s) q, s\<lparr>cp_sent := cp_sent s @ [q]\<rparr>))"

definition next_uuid :: "nat cop" where
  "next_uuid = (\<lambda>s. (Inr (cp_uuids s), s\<lparr>cp_uuids := Suc (cp_uuids s)\<rparr>))"

definition verify_user_with_exports ::
  "export_services \<Rightarrow> AppUser \<Rightarrow> content_type \<times> nat \<Rightarrow> ExportComplianceResult cop" where
  "verify_user_with_exports ex u run =
     bindP (gets (\<lambda>s. get_latest_export_compliance_log s (au_id u) run)) (\<lambda>cached.
     case cached of
       Some l \<Rightarrow> ret (cached_result l)
     | None \<Rightarrow>
         bindP (liftE (\<lambda>s. get_cybersource_configuration (cp_conf s))) (\<lambda>_.
         bindP (liftE (\<lambda>_. build_export_payload u)) (\<lambda>b.
         bindP next_uuid (\<lambda>code.
         bindP (send_inquiry ex (ex_payload ex code b)) (\<lambda>response.
         bindP (liftE (\<lambda>_. get_reason_code response)) (\<lambda>reason.
         let result = \<lparr>ecr_decision = get_response_value response [''status''], ecr_reason_code = reason,
                       ecr_request_id = get_response_value response [''id''], ecr_raw = response\<rparr> in
         thenP (log_export_compliance_check ex (au_id u) run (ex_payload ex code b) response result) (ret result)))))))"

text \<open>The action of the admin that approves a log, and the newest log of a user, which a command
  decrypts.  \<open>full_clean\<close> refuses blank encrypted texts.\<close>

definition mark_manually_approved :: "nat \<Rightarrow> ExportComplianceLog \<Rightarrow> bool cop" where
  "mark_manually_approved admin l =
     bindP (gets (\<lambda>s. l\<lparr>ecl_decision := decision_text EXPORT_MANUALLY_APPROVED, ecl_approved_by := Some admin,
        ecl_approved_on := Some (cp_now s)\<rparr>)) (\<lambda>l.
     if ecl_encrypted_request l = [] \<or> ecl_encrypted_response l = [] then ret False
     else bindP (liftE (\<lambda>_. check_manual_approval_fields l)) (\<lambda>_. thenP (save_log l) (ret True)))"

definition latest_log_of :: "compliance \<Rightarrow> nat \<Rightarrow> exn + ExportComplianceLog" where
  "latest_log_of s u = (case first (sort_key (\<lambda>l. - ecl_created_on l) (filter (\<lambda>l. ecl_user l = u) (export_logs s))) of
     None \<Rightarrow> Inl GenericException | Some l \<Rightarrow> Inr l)"

text \<open>What the errors tell the API: \<open>to_error_detail\<close>, without the message text.\<close>

definition error_fields :: "exn \<Rightarrow> string list" where
  "error_fields e = (case e of ExportComplianceDataError fs \<Rightarrow> fs | _ \<Rightarrow> [])"

section \<open>A complete profile can be checked\<close>

lemma profile_field_of_missing: "f \<in> set (missing_bill_to_fields b x) \<Longrightarrow> \<exists>p. profile_field f = Inr p"
  by (auto simp: missing_bill_to_fields_def profile_field_def BILL_TO_FIELD_TO_PROFILE_FIELD_def split: if_splits)

lemma mapE_Inr_all: "(\<And>x. x \<in> set xs \<Longrightarrow> \<exists>y. f x = Inr y) \<Longrightarrow> \<exists>ys. mapE f xs = Inr ys \<and> length ys = length xs"
proof (induction xs)
  case (Cons x xs)
  then obtain y ys where "f x = Inr y" "mapE f xs = Inr ys" "length ys = length xs" by (metis list.set_intros)
  then show ?case by simp
qed simp

lemma missing_fields_Inr: "\<exists>fs. get_missing_export_compliance_fields u = Inr fs
    \<and> (fs = [] \<longleftrightarrow> missing_bill_to_fields True (build_bill_to u) = [])"
proof -
  obtain ys where "mapE profile_field (missing_bill_to_fields True (build_bill_to u)) = Inr ys"
    "length ys = length (missing_bill_to_fields True (build_bill_to u))"
    using mapE_Inr_all profile_field_of_missing by metis
  then show ?thesis
    by (auto simp: get_missing_export_compliance_fields_def sorted_names_def set_empty [symmetric] simp del: set_empty)
qed

lemma missing_fewer: "set (missing_bill_to_fields False b) \<subseteq> set (missing_bill_to_fields True b)"
  by (auto simp: missing_bill_to_fields_def)

lemma column_entry_keys: "x \<in> fst ` set (column_entry k v @ r) \<longleftrightarrow> (v \<noteq> [] \<and> x = k) \<or> x \<in> fst ` set r"
  by (auto simp: column_entry_def)

lemma column_entry_distinct:
  "distinct (map fst r) \<Longrightarrow> k \<notin> fst ` set r \<Longrightarrow> distinct (map fst (column_entry k v @ r))"
  by (auto simp: column_entry_def)

lemma column_entry_single: "x \<in> fst ` set (column_entry k v) \<longleftrightarrow> v \<noteq> [] \<and> x = k"
  "distinct (map fst (column_entry k v))"
  by (auto simp: column_entry_def)

lemma state_entry_cases: "state_entry c st = (if has_text st
    then [(''administrative_area'', normalize_administrative_area c (the st))] else [])"
  by (simp add: state_entry_def has_text_def split: option.splits)

lemma state_entry_keys:
  "x \<in> fst ` set (state_entry c st @ r) \<longleftrightarrow> (has_text st \<and> x = ''administrative_area'') \<or> x \<in> fst ` set r"
  "distinct (map fst r) \<Longrightarrow> ''administrative_area'' \<notin> fst ` set r \<Longrightarrow> distinct (map fst (state_entry c st @ r))"
  by (cases "has_text st"; simp add: state_entry_cases)+

lemma bill_to_distinct: "distinct (map fst (build_bill_to u))"
proof (cases "au_legal_address u")
  case (Some a)
  have rest: "distinct (map fst (column_entry ''first_name'' (la_first_name a) @ column_entry ''last_name'' (la_last_name a)
      @ column_entry ''country'' (la_country a) @ column_entry ''address1'' (la_street_address_1 a)
      @ column_entry ''address2'' (la_street_address_2 a) @ column_entry ''locality'' (la_city a)
      @ state_entry (la_country a) (la_state a) @ column_entry ''postal_code'' (la_postal_code a)))"
    by (intro column_entry_distinct state_entry_keys(2) column_entry_single)
       (simp_all only: column_entry_keys column_entry_single state_entry_keys(1), simp_all)
  show ?thesis
    unfolding build_bill_to_def Some option.case list.map distinct.simps
    by (intro conjI rest)
       (simp only: set_map fst_conv column_entry_keys column_entry_single state_entry_keys(1), simp)
qed (simp add: build_bill_to_def)

lemma has_text_filter:
  assumes given: "has_text (map_of b f)" and keys: "distinct (map fst b)"
  shows "has_text (map_of (filter (\<lambda>(k, v). v \<noteq> []) b) f)"
proof -
  obtain v where v: "map_of b f = Some v" "v \<noteq> []" using given by (cases "map_of b f") auto
  then have "(f, v) \<in> set (filter (\<lambda>(k, v). v \<noteq> []) b)" by (auto dest: map_of_SomeD)
  moreover have "distinct (map fst (filter (\<lambda>(k, v). v \<noteq> []) b))" using keys by (rule distinct_map_filter)
  ultimately show ?thesis using v(2) by simp
qed

text \<open>A learner who is told that nothing is missing has billing data for the inquiry.\<close>

lemma complete_profile:
  assumes "get_missing_export_compliance_fields u = Inr []"
  shows "\<exists>b. build_export_payload u = Inr b
    \<and> (\<forall>f \<in> fst ` set BILL_TO_FIELD_TO_PROFILE_FIELD. has_text (map_of b f))"
proof -
  let ?b = "build_bill_to u"
  have all: "missing_bill_to_fields True ?b = []" using missing_fields_Inr [of u] assms by auto
  then have "missing_bill_to_fields False ?b = []" using missing_fewer [of ?b] by simp
  then have "build_export_payload u = Inr (filter (\<lambda>(k, v). v \<noteq> []) ?b)"
    by (simp add: build_export_payload_def validate_bill_to_fields_def)
  moreover have "distinct (map fst ?b)" by (rule bill_to_distinct)
  moreover have "has_text (map_of ?b f)" if "f \<in> fst ` set BILL_TO_FIELD_TO_PROFILE_FIELD" for f
    using all that by (auto simp: missing_bill_to_fields_def lacks_def BILL_TO_FIELD_TO_PROFILE_FIELD_def filter_empty_conv
        split: if_splits)
  ultimately show ?thesis by (auto intro: has_text_filter)
qed

section \<open>Refused learners stay refused\<close>

text \<open>
  The rows of the log: the primary keys, no row is younger than the clock, and a refusal is the
  newest row of its user, because no inquiry is made after it.
\<close>

definition logs_ok :: "compliance \<Rightarrow> bool" where
  "logs_ok s \<longleftrightarrow> distinct (map ecl_id (export_logs s))
     \<and> (\<forall>l \<in> set (export_logs s). ecl_id l < cp_next_id s \<and> ecl_created_on l \<le> cp_now s)
     \<and> (\<forall>l \<in> set (export_logs s). \<forall>k \<in> set (export_logs s).
          ecl_user k = ecl_user l \<longrightarrow> \<not> log_accepted l \<longrightarrow> k = l \<or> ecl_created_on k < ecl_created_on l)"

lemma first_sorted_mem: "first (sort_key f xs) = Some x \<Longrightarrow> x \<in> set xs"
proof -
  assume "first (sort_key f xs) = Some x"
  then have "first (filter (\<lambda>_. True) (sort_key f xs)) = Some x" by simp
  from first_filter_SomeD [OF this] show "x \<in> set xs" by simp
qed

lemma newest_first:
  assumes "x \<in> set xs" "\<And>y. y \<in> set xs \<Longrightarrow> y = x \<or> (f y :: int) < f x"
  shows "first (sort_key (\<lambda>l. - f l) xs) = Some x"
proof -
  let ?ys = "sort_key (\<lambda>l. - f l) xs"
  have ys: "set ?ys = set xs" "sorted (map (\<lambda>l. - f l) ?ys)" by simp_all
  obtain y zs where y: "?ys = y # zs" using assms(1) ys(1) by (cases ?ys) auto
  have "x \<in> set (y # zs)" using assms(1) ys(1) y by simp
  then have "- f y \<le> - f x" using ys(2) y by auto
  moreover have "y \<in> set xs" using ys(1) y by auto
  ultimately have "y = x" using assms(2) by fastforce
  then show ?thesis using y by simp
qed

lemma refused_is_latest:
  assumes ok: "logs_ok s" and l: "l \<in> set (export_logs s)" "\<not> log_accepted l"
  shows "get_latest_export_compliance_log s (ecl_user l) run = Some l"
  unfolding get_latest_export_compliance_log_def
proof (rule newest_first)
  show "l \<in> set (filter (reusable (cp_now s) (ecl_user l) run) (export_logs s))"
    using l by (simp add: reusable_def)
  show "y = l \<or> ecl_created_on y < ecl_created_on l"
    if "y \<in> set (filter (reusable (cp_now s) (ecl_user l) run) (export_logs s))" for y
    using that ok l unfolding logs_ok_def reusable_def by auto
qed

lemma logs_ok_later: "logs_ok s \<Longrightarrow> cp_now s \<le> n \<Longrightarrow> logs_ok (s\<lparr>cp_now := n\<rparr>)"
  unfolding logs_ok_def by auto

text \<open>Once an inquiry was answered with a refusal, every later check of the learner, for whatever
  course and however much later, is answered from the log without an inquiry.\<close>

lemma refused_stays_refused:
  assumes "logs_ok s" "l \<in> set (export_logs s)" "\<not> log_accepted l" "ecl_user l = au_id u" "cp_now s \<le> n"
  shows "verify_user_with_exports ex u run (s\<lparr>cp_now := n\<rparr>) = (Inr (cached_result l), s\<lparr>cp_now := n\<rparr>)
    \<and> \<not> result_accepted (cached_result l)"
proof -
  have "get_latest_export_compliance_log (s\<lparr>cp_now := n\<rparr>) (au_id u) run = Some l"
    using refused_is_latest [OF logs_ok_later [OF assms(1,5)], of l run] assms by simp
  then show ?thesis
    using assms(3) by (simp add: verify_user_with_exports_def ret_def cached_result_def result_accepted_def log_accepted_def)
qed

lemma logs_ok_new:
  assumes ok: "logs_ok s" and none: "get_latest_export_compliance_log s u run = None"
    and l: "ecl_id l = cp_next_id s" "ecl_user l = u" "ecl_created_on l = cp_now s"
  shows "logs_ok (s\<lparr>cp_next_id := Suc (cp_next_id s), export_logs := put_row ecl_id l (export_logs s)\<rparr>)"
proof -
  have other: "k \<in> set (export_logs s) \<Longrightarrow> \<not> reusable (cp_now s) u run k" for k
    using none unfolding get_latest_export_compliance_log_def
    by (cases "sort_key (\<lambda>l. - ecl_created_on l) (filter (reusable (cp_now s) u run) (export_logs s))")
       (auto simp: filter_empty_conv dest: arg_cong [where f = set])
  have ids: "k \<in> set (export_logs s) \<Longrightarrow> ecl_id k < cp_next_id s" for k using ok by (simp add: logs_ok_def)
  then have fresh: "\<not> exists_row (\<lambda>k. ecl_id k = ecl_id l) (export_logs s)"
    using l(1) by (fastforce simp: exists_row_iff)
  then have rows: "put_row ecl_id l (export_logs s) = export_logs s @ [l]" by (simp add: put_row_def)
  have old: "k \<in> set (export_logs s) \<Longrightarrow> ecl_user k = u \<Longrightarrow> log_accepted k \<and> ecl_created_on k < cp_now s" for k
    using other [of k] by (auto simp: reusable_def RECENT_EXPORT_COMPLIANCE_CHECK_WINDOW_def)
  show ?thesis
    using ok l ids old unfolding logs_ok_def rows by (auto simp: less_Suc_eq) fastforce+
qed

text \<open>A check that is not answered from the log: the inquiry and the row that records it.\<close>

definition new_log :: "export_services \<Rightarrow> nat \<Rightarrow> content_type \<times> nat \<Rightarrow> string \<Rightarrow> sdk \<Rightarrow> ExportComplianceResult \<Rightarrow>
    compliance \<Rightarrow> ExportComplianceLog" where
  "new_log ex u run q response result s = \<lparr>ecl_id = cp_next_id s, ecl_user = u, ecl_courseware = run,
     ecl_decision = or_empty ex (ecr_decision result),
     ecl_reason_code = (if ecr_reason_code result = SNone then [] else str_of ex (ecr_reason_code result)),
     ecl_request_id = or_empty ex (ecr_request_id result),
     ecl_encrypted_request = ex_encrypt ex (cps_encryption_key (cp_conf s)) q,
     ecl_encrypted_response = ex_encrypt ex (cps_encryption_key (cp_conf s)) (get_raw_response_text ex response),
     ecl_approved_by = None, ecl_approved_on = None, ecl_created_on = cp_now s\<rparr>"

definition logged :: "ExportComplianceLog \<Rightarrow> compliance \<Rightarrow> compliance" where
  "logged l s = s\<lparr>cp_next_id := Suc (cp_next_id s), export_logs := put_row ecl_id l (export_logs s)\<rparr>"

lemma modify_bind: "bindP (modify f) g s = g () (f s)"
  by (simp add: bindP_def modify_def)

lemma next_uuid_bind: "bindP next_uuid f s = f (cp_uuids s) (s\<lparr>cp_uuids := Suc (cp_uuids s)\<rparr>)"
  by (simp add: bindP_def next_uuid_def)

lemma save_log_run: "(\<exists>e. save_log l s = (Inl e, s)) \<or> save_log l s = (Inr (), s\<lparr>export_logs := put_row ecl_id l (export_logs s)\<rparr>)"
  by (cases "check_manual_approval_fields l") (simp_all add: save_log_def liftE_bind raise_def modify_def)

lemma log_check_cases:
  obtains e where "log_export_compliance_check ex u run q response result s = (Inl e, s)"
  | e where "log_export_compliance_check ex u run q response result s = (Inl e, s\<lparr>cp_next_id := Suc (cp_next_id s)\<rparr>)"
  | "log_export_compliance_check ex u run q response result s =
       (Inr (new_log ex u run q response result s), logged (new_log ex u run q response result s) s)"
proof (cases "cps_encryption_key (cp_conf s) = []")
  case True
  then show ?thesis using that(1) by (simp add: log_export_compliance_check_def liftE_bind require_setting_def)
next
  case False
  let ?l = "new_log ex u run q response result s"
  let ?s = "s\<lparr>cp_next_id := Suc (cp_next_id s)\<rparr>"
  have run: "log_export_compliance_check ex u run q response result s = thenP (save_log ?l) (ret ?l) ?s"
    using False by (simp add: log_export_compliance_check_def liftE_bind require_setting_def new_log_def thenP_def modify_bind)
  consider e where "save_log ?l ?s = (Inl e, ?s)" | "save_log ?l ?s = (Inr (), logged ?l s)"
    using save_log_run [of ?l ?s] by (auto simp: logged_def)
  then show ?thesis
    by cases (use that(2,3) in \<open>auto simp: run thenP_Inl thenP_Inr ret_def\<close>)
qed

text \<open>What became of a check.\<close>

definition inquired :: "export_services \<Rightarrow> AppUser \<Rightarrow> bill_to \<Rightarrow> compliance \<Rightarrow> compliance" where
  "inquired ex u b s = s\<lparr>cp_uuids := Suc (cp_uuids s), cp_sent := cp_sent s @ [ex_payload ex (cp_uuids s) b]\<rparr>"

definition result_of :: "sdk \<Rightarrow> sdk \<Rightarrow> ExportComplianceResult" where
  "result_of response reason = \<lparr>ecr_decision = get_response_value response [''status''], ecr_reason_code = reason,
     ecr_request_id = get_response_value response [''id''], ecr_raw = response\<rparr>"

lemma verify_cases:
  obtains (cached) l where "get_latest_export_compliance_log s (au_id u) run = Some l"
      "verify_user_with_exports ex u run s = (Inr (cached_result l), s)"
  | (refused) e where "get_latest_export_compliance_log s (au_id u) run = None"
      "verify_user_with_exports ex u run s = (Inl e, s)"
  | (failed) e b k where "get_latest_export_compliance_log s (au_id u) run = None" "build_export_payload u = Inr b"
      "verify_user_with_exports ex u run s = (Inl e, inquired ex u b s\<lparr>cp_next_id := cp_next_id s + k\<rparr>)"
  | (answered) b response reason l where "get_latest_export_compliance_log s (au_id u) run = None"
      "build_export_payload u = Inr b" "ecl_decision l = or_empty ex (get_response_value response [''status''])"
      "ecl_id l = cp_next_id s" "ecl_user l = au_id u" "ecl_created_on l = cp_now s"
      "verify_user_with_exports ex u run s = (Inr (result_of response reason), logged l (inquired ex u b s))"
proof (cases "get_latest_export_compliance_log s (au_id u) run")
  case (Some l)
  then show ?thesis using cached by (simp add: verify_user_with_exports_def ret_def)
next
  case none: None
  show ?thesis
  proof (cases "get_cybersource_configuration (cp_conf s)")
    case (Inl e)
    then show ?thesis using refused [OF none, of e] none by (simp add: verify_user_with_exports_def liftE_bind)
  next
    case conf: (Inr c)
    show ?thesis
    proof (cases "build_export_payload u")
      case (Inl e)
      then show ?thesis using refused [OF none, of e] none conf by (simp add: verify_user_with_exports_def liftE_bind)
    next
      case b: (Inr b)
      let ?q = "ex_payload ex (cp_uuids s) b"
      have sent: "verify_user_with_exports ex u run s = bindP (\<lambda>s. (ex_answer ex (cp_sent s) ?q, s\<lparr>cp_sent := cp_sent s @ [?q]\<rparr>))
          (\<lambda>response. bindP (liftE (\<lambda>_. get_reason_code response)) (\<lambda>reason.
             thenP (log_export_compliance_check ex (au_id u) run ?q response (result_of response reason))
               (ret (result_of response reason)))) (s\<lparr>cp_uuids := Suc (cp_uuids s)\<rparr>)"
        using none conf b by (simp add: verify_user_with_exports_def liftE_bind next_uuid_bind send_inquiry_def result_of_def Let_def)
      show ?thesis
      proof (cases "ex_answer ex (cp_sent s) ?q")
        case (Inl e)
        then show ?thesis using failed [OF none b, of e 0] sent by (simp add: bindP_def inquired_def)
      next
        case answer: (Inr response)
        let ?s = "inquired ex u b s"
        have reply: "verify_user_with_exports ex u run s = bindP (liftE (\<lambda>_. get_reason_code response)) (\<lambda>reason.
             thenP (log_export_compliance_check ex (au_id u) run ?q response (result_of response reason))
               (ret (result_of response reason))) ?s"
          using sent answer by (simp add: bindP_def inquired_def)
        show ?thesis
        proof (cases "get_reason_code response")
          case (Inl e)
          then show ?thesis using failed [OF none b, of e 0] reply by (simp add: liftE_bind inquired_def)
        next
          case reason: (Inr reason)
          let ?log = "log_export_compliance_check ex (au_id u) run ?q response (result_of response reason)"
          have logs: "verify_user_with_exports ex u run s = thenP ?log (ret (result_of response reason)) ?s"
            using reply reason by (simp add: liftE_bind)
          show ?thesis
          proof (rule log_check_cases [of ex "au_id u" run ?q response "result_of response reason" ?s])
            fix e assume "?log ?s = (Inl e, ?s)"
            then show ?thesis using failed [OF none b, of e 0] logs by (simp add: thenP_Inl inquired_def)
          next
            fix e assume "?log ?s = (Inl e, ?s\<lparr>cp_next_id := Suc (cp_next_id ?s)\<rparr>)"
            then show ?thesis using failed [OF none b, of e 1] logs by (simp add: thenP_Inl inquired_def)
          next
            let ?l = "new_log ex (au_id u) run ?q response (result_of response reason) ?s"
            assume l: "?log ?s = (Inr ?l, logged ?l ?s)"
            show ?thesis
              by (rule answered [OF none b, of ?l response reason])
                 (use l logs in \<open>simp_all add: thenP_Inr ret_def new_log_def inquired_def result_of_def\<close>)
          qed
        qed
      qed
    qed
  qed
qed

lemma logs_ok_cong:
  "export_logs t = export_logs s \<Longrightarrow> cp_now t = cp_now s \<Longrightarrow> cp_next_id s \<le> cp_next_id t \<Longrightarrow> logs_ok s \<Longrightarrow> logs_ok t"
  unfolding logs_ok_def by auto

lemma answered_logs_ok:
  assumes "logs_ok s" "get_latest_export_compliance_log s u run = None"
    "ecl_id l = cp_next_id s" "ecl_user l = u" "ecl_created_on l = cp_now s"
  shows "logs_ok (logged l (inquired ex v b s))"
  using logs_ok_new [OF assms] by (simp add: logged_def inquired_def logs_ok_def)

lemma verify_logs_ok: "keeps logs_ok (verify_user_with_exports ex u run)"
proof (rule keepsI)
  fix s assume s: "logs_ok s"
  show "logs_ok (snd (verify_user_with_exports ex u run s))"
  proof (rule verify_cases [of s u run ex], goal_cases)
    case (3 e b k)
    then show ?thesis by (auto intro!: logs_ok_cong [OF _ _ _ s] simp: inquired_def)
  next
    case (4 b response reason l)
    then show ?thesis using answered_logs_ok [OF s 4(1,4,5,6)] by simp
  qed (use s in simp_all)
qed

lemma approval_logs_ok:
  assumes ok: "logs_ok s" and l: "l \<in> set (export_logs s)"
  shows "logs_ok (snd (mark_manually_approved admin l s))"
proof -
  let ?l = "l\<lparr>ecl_decision := decision_text EXPORT_MANUALLY_APPROVED, ecl_approved_by := Some admin, ecl_approved_on := Some (cp_now s)\<rparr>"
  have acc: "log_accepted ?l" by (simp add: log_accepted_def ACCEPTED_DECISIONS_def)
  have "snd (mark_manually_approved admin l s) \<in> {s, s\<lparr>export_logs := put_row ecl_id ?l (export_logs s)\<rparr>}"
    using save_log_run [of ?l s]
    by (auto simp: mark_manually_approved_def liftE_bind check_manual_approval_fields_def thenP_Inl thenP_Inr ret_def)
  moreover have "logs_ok (s\<lparr>export_logs := put_row ecl_id ?l (export_logs s)\<rparr>)"
  proof -
    have keys: "map ecl_id (put_row ecl_id ?l (export_logs s)) = map ecl_id (export_logs s)"
      using l by (auto simp: put_row_keys)
    have mem: "k = ?l \<or> (k \<in> set (export_logs s) \<and> ecl_id k \<noteq> ecl_id l)" if "k \<in> set (put_row ecl_id ?l (export_logs s))" for k
      using put_row_set [OF that] by auto
    show ?thesis
      unfolding logs_ok_def
    proof (intro conjI ballI impI)
      show "distinct (map ecl_id (export_logs (s\<lparr>export_logs := put_row ecl_id ?l (export_logs s)\<rparr>)))"
        using ok keys by (simp add: logs_ok_def)
    next
      fix k assume "k \<in> set (export_logs (s\<lparr>export_logs := put_row ecl_id ?l (export_logs s)\<rparr>))"
      then show "ecl_id k < cp_next_id (s\<lparr>export_logs := put_row ecl_id ?l (export_logs s)\<rparr>)"
        "ecl_created_on k \<le> cp_now (s\<lparr>export_logs := put_row ecl_id ?l (export_logs s)\<rparr>)"
        using mem [of k] ok l by (auto simp: logs_ok_def)
    next
      fix j k assume "j \<in> set (export_logs (s\<lparr>export_logs := put_row ecl_id ?l (export_logs s)\<rparr>))"
        "k \<in> set (export_logs (s\<lparr>export_logs := put_row ecl_id ?l (export_logs s)\<rparr>))" "ecl_user k = ecl_user j" "\<not> log_accepted j"
      then have j: "j \<in> set (export_logs s)" "j \<noteq> ?l" and k: "k = ?l \<or> k \<in> set (export_logs s)"
        and ids: "ecl_id j \<noteq> ecl_id l" and user: "ecl_user k = ecl_user j" "\<not> log_accepted j"
        using mem [of j] mem [of k] acc by auto
      have lt: "i = j \<or> ecl_created_on i < ecl_created_on j" if "i \<in> set (export_logs s)" "ecl_user i = ecl_user j" for i
        using ok j(1) user(2) that unfolding logs_ok_def by blast
      have "l \<noteq> j" using ids by auto
      then show "k = j \<or> ecl_created_on k < ecl_created_on j"
        using lt [of l] lt [of k] l k user by auto
    qed
  qed
  ultimately show ?thesis using ok by auto
qed

text \<open>\<open>str\<close> of a value that is not a text never reads like a decision.\<close>

definition str_contract :: "export_services \<Rightarrow> bool" where
  "str_contract ex \<longleftrightarrow> (\<forall>x. ex_str ex x \<notin> set ACCEPTED_DECISIONS)"

lemma refused_log:
  assumes "str_contract ex" "ecl_decision l = or_empty ex (ecr_decision r)"
  shows "log_accepted l = result_accepted r"
proof -
  have "[] \<notin> set ACCEPTED_DECISIONS" by code_simp
  then show ?thesis
    using assms by (cases "ecr_decision r")
      (auto simp: log_accepted_def result_accepted_def or_empty_def str_of_def str_contract_def)
qed

text \<open>A refusal stays the answer for every course and at every later time.\<close>

lemma refusal_is_final:
  assumes ok: "logs_ok s" and ex: "str_contract ex"
    and run: "verify_user_with_exports ex u run s = (Inr r, t)" "\<not> result_accepted r" and n: "cp_now t \<le> n"
  shows "\<exists>r'. verify_user_with_exports ex u run' (t\<lparr>cp_now := n\<rparr>) = (Inr r', t\<lparr>cp_now := n\<rparr>) \<and> \<not> result_accepted r'"
proof -
  have t: "logs_ok t" using keepsD [OF verify_logs_ok ok, of ex u run] run(1) by simp
  obtain l where "l \<in> set (export_logs t)" "\<not> log_accepted l" "ecl_user l = au_id u"
  proof (rule verify_cases [of s u run ex], goal_cases)
    case (1 l)
    have "first (sort_key (\<lambda>l. - ecl_created_on l) (filter (reusable (cp_now s) (au_id u) run) (export_logs s))) = Some l"
      using 1(2) by (simp add: get_latest_export_compliance_log_def)
    then have "l \<in> set (filter (reusable (cp_now s) (au_id u) run) (export_logs s))"
      by (rule first_sorted_mem)
    then show ?case using 1 run by (intro 1(1) [of l]) (auto simp: reusable_def cached_result_def result_accepted_def log_accepted_def)
  next
    case (4 b response reason l)
    have r: "r = result_of response reason" "t = logged l (inquired ex u b s)" using 4 run by simp_all
    have "\<not> log_accepted l" using refused_log [OF ex, of l r] 4(4) run(2) by (simp add: r(1) result_of_def)
    then show ?case using 4 by (intro 4(1) [of l]) (simp_all add: r(2) logged_def put_row_mem)
  qed (use run in simp_all)
  from refused_stays_refused [OF t this n, of ex run'] show ?thesis by blast
qed

text \<open>An inquiry is sent only when no earlier answer is usable and no required field is missing, and it
  is the one that the billing data make.\<close>

lemma inquiry_sent:
  assumes "cp_sent (snd (verify_user_with_exports ex u run s)) \<noteq> cp_sent s"
  shows "get_latest_export_compliance_log s (au_id u) run = None
    \<and> missing_bill_to_fields False (build_bill_to u) = []
    \<and> (\<exists>b. build_export_payload u = Inr b
        \<and> cp_sent (snd (verify_user_with_exports ex u run s)) = cp_sent s @ [ex_payload ex (cp_uuids s) b])"
proof -
  have data: "build_export_payload u = Inr b \<Longrightarrow> missing_bill_to_fields False (build_bill_to u) = []" for b
    by (auto simp: build_export_payload_def validate_bill_to_fields_def Let_def split: if_splits)
  show ?thesis
    by (rule verify_cases [of s u run ex]) (use assms data in \<open>auto simp: inquired_def logged_def\<close>)
qed

end
