(* ===== verification/ContractCodes.thy ===== *)
theory ContractCodes
  imports Contracts ContractBaskets Accounts "HOL-Library.Sublist"
begin

text \<open>
  The life of an enrollment code of a contract (\<open>src/b2b/views/v0/manager.py\<close>,
  \<open>src/b2b/views/v0/__init__.py\<close>, \<open>src/b2b/mail.py\<close>, \<open>src/b2b/api.py\<close>): a manager of the organization
  assigns it to an address, reminds, reassigns or revokes it, a learner redeems it and joins the
  contract, and the mail service reports what became of the message.

  A code without a row in \<open>attachments\<close> is unassigned; a row without a user and a time of redemption is
  an assignment.
\<close>

section \<open>Managers\<close>

definition is_organization_manager :: "db \<Rightarrow> User \<Rightarrow> nat \<Rightarrow> bool" where
  "is_organization_manager s u org \<longleftrightarrow> usr_is_authenticated u
     \<and> exists_row (\<lambda>o1. uo_user o1 = usr_id u \<and> uo_organization o1 = org \<and> uo_is_manager o1) (user_organizations s)"

definition has_manager_permission :: "db \<Rightarrow> bool \<Rightarrow> User \<Rightarrow> nat \<Rightarrow> bool" where
  "has_manager_permission s superuser u org \<longleftrightarrow>
     usr_is_authenticated u \<and> (superuser \<or> is_organization_manager s u org)"

definition has_contract_permission :: "db \<Rightarrow> bool \<Rightarrow> User \<Rightarrow> nat \<Rightarrow> Contract \<Rightarrow> bool" where
  "has_contract_permission s superuser u org c \<longleftrightarrow>
     superuser \<or> (is_organization_manager s u org \<and> ctr_organization c = org)"

text \<open>The contracts of the organization in the path, of those the user manages; a superuser sees no
  other contracts either.\<close>

definition managed_contracts :: "db \<Rightarrow> User \<Rightarrow> nat \<Rightarrow> Contract list" where
  "managed_contracts s u org = filter (\<lambda>c. ctr_organization c = org
     \<and> exists_row (\<lambda>o1. uo_user o1 = usr_id u \<and> uo_organization o1 = ctr_organization c \<and> uo_is_manager o1)
         (user_organizations s)) (contracts s)"

definition manager_contract :: "db \<Rightarrow> bool \<Rightarrow> User \<Rightarrow> nat \<Rightarrow> nat \<Rightarrow> nat + Contract" where
  "manager_contract s superuser u org pk =
     (if \<not> has_manager_permission s superuser u org then Inl 403
      else case first (filter (\<lambda>c. ctr_id c = pk) (managed_contracts s u org)) of
             None \<Rightarrow> Inl 404
           | Some c \<Rightarrow> if has_contract_permission s superuser u org c then Inr c else Inl 403)"

text \<open>What a view answers: a status, a code with its row, or the codes and the refusals of a batch.\<close>

datatype manager_reply =
    Status nat
  | OneCode Discount "ContractAttachment option"
  | Batch "(Discount \<times> ContractAttachment) list" "(string \<times> string) list"

definition for_contract ::
  "bool \<Rightarrow> User \<Rightarrow> nat \<Rightarrow> nat \<Rightarrow> (Contract \<Rightarrow> manager_reply op) \<Rightarrow> manager_reply op" where
  "for_contract superuser u org pk f =
     bindP (gets (\<lambda>s. manager_contract s superuser u org pk)) (\<lambda>r. case r of
       Inl st \<Rightarrow> ret (Status st) | Inr c \<Rightarrow> f c)"

section \<open>Codes and their rows\<close>

definition is_redeemed_attachment :: "ContractAttachment \<Rightarrow> bool" where
  "is_redeemed_attachment a \<longleftrightarrow> ca_user a \<noteq> None \<or> ca_redeemed_on a \<noteq> None"

definition contract_code :: "db \<Rightarrow> Contract \<Rightarrow> string \<Rightarrow> Discount option" where
  "contract_code s c code = first (sort_key disc_id (filter (\<lambda>d. disc_code d = code) (contract_discounts s c)))"

definition code_records :: "db \<Rightarrow> nat \<Rightarrow> ContractAttachment list" where
  "code_records s d = filter (\<lambda>a. ca_discount a = d) (attachments s)"

definition save_attachment :: "ContractAttachment \<Rightarrow> unit op" where
  "save_attachment a = modify (\<lambda>s. s\<lparr>attachments := update_rows (\<lambda>x. ca_id x = ca_id a) (\<lambda>_. a) (attachments s)\<rparr>)"

definition pending_status :: string where
  "pending_status = ''pending''"

definition clear_assignment_email_deliverability_fields :: "ContractAttachment \<Rightarrow> ContractAttachment" where
  "clear_assignment_email_deliverability_fields a =
     a\<lparr>ca_email_message_id := [], ca_email_status := [], ca_email_status_timestamp := None\<rparr>"

section \<open>Assigning codes\<close>

record CodeAssignment =
  cas_contract :: Contract
  cas_discount :: Discount
  cas_email :: string
  cas_name :: string

definition assignment_row :: "nat \<Rightarrow> int \<Rightarrow> nat \<Rightarrow> CodeAssignment \<Rightarrow> ContractAttachment" where
  "assignment_row manager t i x = \<lparr>ca_id = i, ca_discount = disc_id (cas_discount x), ca_user = None,
     ca_contract = ctr_id (cas_contract x), ca_assigned_email = cas_email x, ca_assigned_name = cas_name x,
     ca_assigned_by = Some manager, ca_redeemed_on = None, ca_created_on = t, ca_last_reminder_sent_on = None,
     ca_email_message_id = [], ca_email_status = pending_status, ca_email_status_timestamp = None\<rparr>"

text \<open>\<open>refused\<close>: the database raises on \<open>bulk_create\<close>.  \<open>None\<close> stands for the result \<open>False\<close>.\<close>

definition assign_codes_and_send_emails ::
  "bool \<Rightarrow> nat \<Rightarrow> CodeAssignment list \<Rightarrow> ContractAttachment list option op" where
  "assign_codes_and_send_emails refused manager xs =
     (if xs = [] then ret (Some [])
      else if refused then ret None
      else (\<lambda>s. let rows = map2 (assignment_row manager (now s)) [next_id s..<next_id s + length xs] xs
                in (Inr (Some rows), s\<lparr>attachments := attachments s @ rows, next_id := next_id s + length xs,
                      outbox := outbox s @ [SendCodeEmails (map ca_id rows)]\<rparr>)))"

text \<open>The request is the validated address and name, \<open>None\<close> if it is invalid.\<close>

definition assign_code ::
  "bool \<Rightarrow> bool \<Rightarrow> User \<Rightarrow> nat \<Rightarrow> nat \<Rightarrow> string \<Rightarrow> (string \<times> string) option \<Rightarrow> manager_reply op" where
  "assign_code refused superuser u org pk code request =
     for_contract superuser u org pk (\<lambda>c. case request of
       None \<Rightarrow> ret (Status 400)
     | Some (email, name) \<Rightarrow>
         bindP (gets (\<lambda>s. contract_code s c code)) (\<lambda>d. case d of
           None \<Rightarrow> ret (Status 404)
         | Some d \<Rightarrow>
             bindP (gets (\<lambda>s. code_records s (disc_id d))) (\<lambda>rows.
             if rows \<noteq> [] then ret (Status 409)
             else bindP (assign_codes_and_send_emails refused (usr_id u)
                    [\<lparr>cas_contract = c, cas_discount = d, cas_email = email, cas_name = name\<rparr>]) (\<lambda>done_rows.
               ret (case done_rows of None \<Rightarrow> Status 500 | Some rs \<Rightarrow> OneCode d (first rs))))))"

text \<open>The code and its first row, or the status that refuses: no such code, not assigned, redeemed.\<close>

definition assigned_code :: "db \<Rightarrow> Contract \<Rightarrow> string \<Rightarrow> nat + (Discount \<times> ContractAttachment)" where
  "assigned_code s c code =
     (case contract_code s c code of
        None \<Rightarrow> Inl 404
      | Some d \<Rightarrow> (case first (code_records s (disc_id d)) of
            None \<Rightarrow> Inl 404
          | Some a \<Rightarrow> if is_redeemed_attachment a then Inl 409 else Inr (d, a)))"

text \<open>A new code replaces the old one, so that the old one is worth nothing; saving a discount checks
  its dates.\<close>

definition save_discount_code :: "Discount \<Rightarrow> string \<Rightarrow> Discount op" where
  "save_discount_code d code =
     bindP (liftE (\<lambda>s. check_date_validity s d)) (\<lambda>_.
     thenP (modify (write_discount (disc_id d) (\<lambda>x. x\<lparr>disc_code := code\<rparr>)))
       (ret (d\<lparr>disc_code := code\<rparr>)))"

definition delete_attachment :: "ContractAttachment \<Rightarrow> unit op" where
  "delete_attachment a = modify (\<lambda>s. s\<lparr>attachments := filter (\<lambda>x. ca_id x \<noteq> ca_id a) (attachments s)\<rparr>)"

definition revoke_code :: "bool \<Rightarrow> User \<Rightarrow> nat \<Rightarrow> nat \<Rightarrow> string \<Rightarrow> manager_reply op" where
  "revoke_code superuser u org pk code =
     for_contract superuser u org pk (\<lambda>c.
     bindP (gets (\<lambda>s. assigned_code s c code)) (\<lambda>r. case r of
       Inl st \<Rightarrow> ret (Status st)
     | Inr (d, a) \<Rightarrow>
         thenP (delete_attachment a)
         (bindP uuid4 (\<lambda>new.
          bindP (save_discount_code d new) (\<lambda>d. ret (OneCode d None))))))"

definition send_reminder_for_code_assignment :: "bool \<Rightarrow> User \<Rightarrow> nat \<Rightarrow> nat \<Rightarrow> string \<Rightarrow> manager_reply op" where
  "send_reminder_for_code_assignment superuser u org pk code =
     for_contract superuser u org pk (\<lambda>c.
     bindP (gets (\<lambda>s. assigned_code s c code)) (\<lambda>r. case r of
       Inl st \<Rightarrow> ret (Status st)
     | Inr (d, a) \<Rightarrow>
         if ca_assigned_email a = [] then ret (Status 409)
         else let a' = (clear_assignment_email_deliverability_fields a)\<lparr>ca_email_status := pending_status\<rparr> in
           thenP (save_attachment a') (thenP (emit (SendCodeEmails [ca_id a])) (ret (OneCode d (Some a'))))))"

definition reassigned :: "nat \<Rightarrow> string \<Rightarrow> string \<Rightarrow> ContractAttachment \<Rightarrow> ContractAttachment" where
  "reassigned manager email name a =
     (clear_assignment_email_deliverability_fields (a\<lparr>ca_assigned_email := email, ca_assigned_name := name,
        ca_assigned_by := Some manager, ca_last_reminder_sent_on := None\<rparr>))\<lparr>ca_email_status := pending_status\<rparr>"

definition reassign_code ::
  "bool \<Rightarrow> User \<Rightarrow> nat \<Rightarrow> nat \<Rightarrow> string \<Rightarrow> (string \<times> string) option \<Rightarrow> manager_reply op" where
  "reassign_code superuser u org pk code request =
     for_contract superuser u org pk (\<lambda>c. case request of
       None \<Rightarrow> ret (Status 400)
     | Some (email, name) \<Rightarrow>
         bindP (gets (\<lambda>s. assigned_code s c code)) (\<lambda>r. case r of
           Inl st \<Rightarrow> ret (Status st)
         | Inr (d, a) \<Rightarrow>
             bindP uuid4 (\<lambda>new.
             bindP (save_discount_code d new) (\<lambda>d.
             let a' = reassigned (usr_id u) email name a in
             thenP (save_attachment a') (thenP (emit (SendCodeEmails [ca_id a])) (ret (OneCode d (Some a'))))))))"

definition send_test_email :: "bool \<Rightarrow> User \<Rightarrow> nat \<Rightarrow> nat \<Rightarrow> string option \<Rightarrow> manager_reply op" where
  "send_test_email superuser u org pk request =
     for_contract superuser u org pk (\<lambda>c. case request of
       None \<Rightarrow> ret (Status 400)
     | Some email \<Rightarrow> thenP (emit (SendTestCodeEmail email (ctr_id c))) (ret (Status 200)))"

section \<open>Assigning a batch\<close>

text \<open>The serializer keeps the first record of an address, in whatever case it is written.\<close>

fun dedupe_emails :: "string set \<Rightarrow> (string \<times> string) list \<Rightarrow> (string \<times> string) list" where
  "dedupe_emails seen [] = []"
| "dedupe_emails seen ((email, name) # rs) =
     (if lower email \<in> seen then dedupe_emails seen rs
      else (email, name) # dedupe_emails (insert (lower email) seen) rs)"

text \<open>\<open>mail u\<close> is the address of a user.\<close>

definition taken_emails :: "(nat \<Rightarrow> string) \<Rightarrow> db \<Rightarrow> Contract \<Rightarrow> string list" where
  "taken_emails mail s c = concat (map (\<lambda>a.
     (if ca_assigned_email a = [] then [] else [lower (ca_assigned_email a)])
     @ (case ca_user a of None \<Rightarrow> [] | Some u \<Rightarrow> if mail u = [] then [] else [lower (mail u)]))
     (filter (\<lambda>a. ca_contract a = ctr_id c) (attachments s)))"

definition available_discounts :: "db \<Rightarrow> Contract \<Rightarrow> Discount list" where
  "available_discounts s c = sort_key disc_id (filter (\<lambda>d. code_records s (disc_id d) = []) (contract_discounts s c))"

definition create_discount_codes_for_contract :: "Contract \<Rightarrow> nat \<Rightarrow> Discount list op" where
  "create_discount_codes_for_contract c n =
     bindP (gets (\<lambda>s. first (sort_key prod_id (contract_products s c)))) (\<lambda>p. case p of
       None \<Rightarrow> ret []
     | Some p \<Rightarrow> foldP (\<lambda>ds _. bindP (create_discount_with_product p 0 ONE_TIME) (\<lambda>d. ret (ds @ [d]))) [] [0..<n])"

definition bulk_assign ::
  "(nat \<Rightarrow> string) \<Rightarrow> bool \<Rightarrow> bool \<Rightarrow> User \<Rightarrow> nat \<Rightarrow> nat \<Rightarrow> (string \<times> string) list option \<Rightarrow> manager_reply op" where
  "bulk_assign mail refused superuser u org pk request =
     for_contract superuser u org pk (\<lambda>c. case request of
       None \<Rightarrow> ret (Status 400)
     | Some rs \<Rightarrow>
         bindP (gets (\<lambda>s. taken_emails mail s c)) (\<lambda>taken.
         let valid = dedupe_emails {} rs;
             errors = filter (\<lambda>(e, n). lower e \<in> set taken) valid;
             wanted = filter (\<lambda>(e, n). lower e \<notin> set taken) valid in
         bindP (gets (\<lambda>s. take (length wanted) (available_discounts s c))) (\<lambda>ds.
         bindP (if ctr_membership_type c \<notin> set membership_autos \<and> seat_limit c = None \<and> length ds < length wanted
                then create_discount_codes_for_contract c (length wanted - length ds) else ret []) (\<lambda>new.
         let codes = ds @ new;
             xs = map2 (\<lambda>(e, n) d. \<lparr>cas_contract = c, cas_discount = d, cas_email = e, cas_name = n\<rparr>) wanted codes in
         bindP (assign_codes_and_send_emails refused (usr_id u) xs) (\<lambda>done_rows.
           ret (case done_rows of
                  None \<Rightarrow> Status 500
                | Some rows \<Rightarrow> Batch (map2 (\<lambda>x a. (cas_discount x, a)) xs rows)
                                 (errors @ drop (length codes) wanted)))))))"

section \<open>Listing codes\<close>

definition latest_attachment :: "db \<Rightarrow> nat \<Rightarrow> ContractAttachment option" where
  "latest_attachment s d = first (sort_key (\<lambda>a. - ca_created_on a) (code_records s d))"

definition icontains :: "string \<Rightarrow> string \<Rightarrow> bool" where
  "icontains t x = sublist (lower t) (lower x)"

text \<open>\<open>name u\<close> is the full name of a user.\<close>

definition matches_search :: "(nat \<Rightarrow> string) \<Rightarrow> (nat \<Rightarrow> string) \<Rightarrow> string \<Rightarrow> ContractAttachment \<Rightarrow> bool" where
  "matches_search mail full_name t a \<longleftrightarrow> icontains t (ca_assigned_email a) \<or> icontains t (ca_assigned_name a)
     \<or> (case ca_user a of None \<Rightarrow> False | Some u \<Rightarrow> icontains t (mail u) \<or> icontains t (full_name u))"

definition matches_status :: "string \<Rightarrow> ContractAttachment \<Rightarrow> bool" where
  "matches_status st a \<longleftrightarrow>
     (if st = ''redeemed'' then is_redeemed_attachment a
      else if st = ''assigned'' then \<not> is_redeemed_attachment a
      else if st = ''failed'' then ca_email_status a = ''failed'' \<and> \<not> is_redeemed_attachment a
      else True)"

text \<open>The codes that have rows, those with most joined rows first; a filter looks at the newest row of a
  code only, and then only that row is joined.\<close>

definition listed_codes :: "(nat \<Rightarrow> string) \<Rightarrow> (nat \<Rightarrow> string) \<Rightarrow> db \<Rightarrow> Contract \<Rightarrow> string \<Rightarrow> string \<Rightarrow> Discount list" where
  "listed_codes mail full_name s c search st =
     (let t = strip search; f = strip st; ds = contract_discounts s c;
          shown = (\<lambda>d. if t = [] \<and> f = [] then code_records s (disc_id d) \<noteq> []
             else case latest_attachment s (disc_id d) of None \<Rightarrow> False
                  | Some a \<Rightarrow> (t = [] \<or> matches_search mail full_name t a) \<and> matches_status f a);
          joined = (\<lambda>d. length (filter (\<lambda>x. disc_id x = disc_id d) ds)
             * (if t = [] \<and> f = [] then length (code_records s (disc_id d)) else 1))
      in sort_key (\<lambda>d. - int (joined d)) (sort_key disc_id (remdups (filter shown ds))))"

definition codes_view ::
  "(nat \<Rightarrow> string) \<Rightarrow> (nat \<Rightarrow> string) \<Rightarrow> bool \<Rightarrow> User \<Rightarrow> nat \<Rightarrow> nat \<Rightarrow> string \<Rightarrow> string
   \<Rightarrow> (nat + (Discount \<times> ContractAttachment option) list) op" where
  "codes_view mail full_name superuser u org pk search st =
     gets (\<lambda>s. case manager_contract s superuser u org pk of
       Inl e \<Rightarrow> Inl e
     | Inr c \<Rightarrow> Inr (map (\<lambda>d. (d, latest_attachment s (disc_id d))) (listed_codes mail full_name s c search st)))"

definition redemption_status :: "ContractAttachment option \<Rightarrow> string" where
  "redemption_status a = (case a of None \<Rightarrow> ''unassigned''
     | Some a \<Rightarrow> if is_redeemed_attachment a then ''redeemed'' else ''assigned'')"

definition shown_email_status :: "ContractAttachment option \<Rightarrow> string option" where
  "shown_email_status a = (case a of None \<Rightarrow> None
     | Some a \<Rightarrow> if ca_email_status a = pending_status \<or> ca_email_status a = ''accepted'' then Some pending_status
                 else if ca_email_status a = [] then None else Some (ca_email_status a))"

text \<open>The numbers of codes of a contract: all, assigned, unassigned, redeemed.\<close>

definition codes_breakdown :: "db \<Rightarrow> Contract \<Rightarrow> nat option \<times> int \<times> int option \<times> int" where
  "codes_breakdown s c =
     (let rows = filter (\<lambda>a. ca_contract a = ctr_id c) (attachments s);
          redeemed_rows = int (length (filter is_redeemed_attachment rows));
          assigned = int (length rows) - redeemed_rows
      in (ctr_max_learners c, assigned,
          map_option (\<lambda>m. int m - assigned - redeemed_rows) (seat_limit c), redeemed_rows))"

definition get_assignments :: "db \<Rightarrow> Contract \<Rightarrow> ContractAttachment list" where
  "get_assignments s c =
     filter (\<lambda>a. ca_contract a = ctr_id c \<and> ca_user a = None \<and> ca_assigned_email a \<noteq> []) (attachments s)"

section \<open>Redeeming a code\<close>

definition redeemed_count :: "db \<Rightarrow> nat \<Rightarrow> nat" where
  "redeemed_count s d = count_rows (\<lambda>a. ca_discount a = d \<and> ca_user a \<noteq> None) (attachments s)"

definition in_window :: "db \<Rightarrow> Discount \<Rightarrow> bool" where
  "in_window s d \<longleftrightarrow> (disc_activation_date d = None \<or> q_lte (disc_activation_date d) (now s))
     \<and> (disc_expiration_date d = None \<or> q_gte (disc_expiration_date d) (now s))"

definition get_valid_discount :: "db \<Rightarrow> string \<Rightarrow> exn + Discount" where
  "get_valid_discount s code = get_one (filter (\<lambda>d. in_window s d
     \<and> (disc_redemption_type d = UNLIMITED \<or> redeemed_count s (disc_id d) < 1) \<and> disc_code d = code) (discounts s))"

text \<open>The contracts of a code that are open: one that starts today is not.\<close>

definition open_code_contracts :: "db \<Rightarrow> Discount \<Rightarrow> Contract list" where
  "open_code_contracts s d = filter (\<lambda>c. ctr_active c \<and> \<not> (q_gte (ctr_start c) (today s) \<or> q_lt (ctr_end c) (today s)))
     (b2b_contracts_of_discount s d)"

definition code_of_full_contract :: "db \<Rightarrow> string \<Rightarrow> bool" where
  "code_of_full_contract s code = list_ex (\<lambda>d. list_ex (is_full s) (open_code_contracts s d))
     (filter (\<lambda>d. in_window s d \<and> disc_code d = code) (discounts s))"

definition get_eligible_contracts :: "db \<Rightarrow> User \<Rightarrow> nat list \<Rightarrow> Contract list" where
  "get_eligible_contracts s u ids =
     filter (\<lambda>c. ctr_id c \<in> set ids \<and> ctr_id c \<notin> set (contracts_of_user s u)) (active_contracts s)"

text \<open>\<open>update_or_create\<close> with \<open>user=None\<close>: the open assignment of the code becomes the redemption,
  otherwise there is a new row.\<close>

definition redeem_row :: "nat \<Rightarrow> nat \<Rightarrow> nat \<Rightarrow> unit op" where
  "redeem_row d c u =
     bindP (gets (\<lambda>s. filter (\<lambda>a. ca_discount a = d \<and> ca_contract a = c \<and> ca_user a = None) (attachments s))) (\<lambda>rows.
     case rows of
       [] \<Rightarrow> bindP fresh_id (\<lambda>i. modify (\<lambda>s. s\<lparr>attachments := attachments s @
               [\<lparr>ca_id = i, ca_discount = d, ca_user = Some u, ca_contract = c, ca_assigned_email = [],
                 ca_assigned_name = [], ca_assigned_by = None, ca_redeemed_on = Some (now s), ca_created_on = now s,
                 ca_last_reminder_sent_on = None, ca_email_message_id = [], ca_email_status = [],
                 ca_email_status_timestamp = None\<rparr>]\<rparr>))
     | [a] \<Rightarrow> bindP (gets now) (\<lambda>t. save_attachment (a\<lparr>ca_user := Some u, ca_redeemed_on := Some t\<rparr>))
     | _ \<Rightarrow> raise MultipleObjectsReturned)"

definition attach_step :: "nat \<Rightarrow> nat \<Rightarrow> bool \<times> bool \<Rightarrow> Contract \<Rightarrow> (bool \<times> bool) op" where
  "attach_step u d flags c =
     bindP (gets (\<lambda>s. is_full s c)) (\<lambda>full.
     if full then ret (fst flags, True)
     else thenP (process_add_org_membership u (ctr_organization c) True)
       (thenP (add_user_contract u (ctr_id c))
       (thenP (redeem_row d (ctr_id c) u) (ret (True, snd flags)))))"

definition attach_user_to_contracts :: "nat \<Rightarrow> nat \<Rightarrow> Contract list \<Rightarrow> (bool \<times> bool) op" where
  "attach_user_to_contracts u d cs = foldP (attach_step u d) (False, False) cs"

definition get_active_code_user_contract :: "db \<Rightarrow> User \<Rightarrow> nat list \<Rightarrow> Contract option" where
  "get_active_code_user_contract s u ids =
     first (filter (\<lambda>c. ctr_id c \<in> set (contracts_of_user s u) \<and> ctr_id c \<in> set ids) (active_contracts s))"

text \<open>The status and the contract that is shown.\<close>

definition attach_contract :: "User \<Rightarrow> string \<Rightarrow> (nat \<times> Contract option) op" where
  "attach_contract u code =
     bindP (gets (\<lambda>s. get_valid_discount s code)) (\<lambda>found. case found of
       Inl e \<Rightarrow>
         if e = ObjectDoesNotExist
         then bindP (gets (\<lambda>s. code_of_full_contract s code)) (\<lambda>full. ret (if full then 409 else 404, None))
         else raise e
     | Inr d \<Rightarrow>
         bindP (gets (\<lambda>s. map ctr_id (open_code_contracts s d))) (\<lambda>ids.
         if ids = [] then ret (404, None)
         else bindP (gets (\<lambda>s. get_eligible_contracts s u ids)) (\<lambda>cs.
           bindP (attach_user_to_contracts (usr_id u) (disc_id d) cs) (\<lambda>(attached, full).
           bindP (gets (\<lambda>s. get_active_code_user_contract s u ids)) (\<lambda>shown.
             ret (if attached then (201, shown) else if full then (409, None) else (200, shown)))))))"

section \<open>The messages\<close>

text \<open>\<open>send email code\<close> is the message id that the mail service gave, \<open>None\<close> if it raised or gave none;
  the task reads the code and the address when it runs.\<close>

definition sent_row :: "string \<Rightarrow> int \<Rightarrow> ContractAttachment \<Rightarrow> ContractAttachment" where
  "sent_row m t a = a\<lparr>ca_email_message_id := m, ca_last_reminder_sent_on := Some t\<rparr>"

definition send_enrollment_code_assignment_email :: "(string \<Rightarrow> string \<Rightarrow> string option) \<Rightarrow> nat list \<Rightarrow> unit op" where
  "send_enrollment_code_assignment_email send ids =
     bindP (gets (\<lambda>s. filter (\<lambda>a. ca_id a \<in> set ids) (attachments s)))
       (forP (\<lambda>a.
          bindP (gets (\<lambda>s. first (filter (\<lambda>d. disc_id d = ca_discount a) (discounts s)))) (\<lambda>d. case d of
            None \<Rightarrow> raise ObjectDoesNotExist
          | Some d \<Rightarrow> (case send (ca_assigned_email a) (disc_code d) of
                None \<Rightarrow> ret ()
              | Some m \<Rightarrow> if m = [] then ret ()
                  else modify (\<lambda>s. s\<lparr>attachments :=
                    update_rows (\<lambda>x. ca_id x = ca_id a) (sent_row m (now s)) (attachments s)\<rparr>)))))"

section \<open>What became of a message\<close>

record mailgun_settings =
  mg_signing_secret :: string
  mg_validate_signature :: bool

record mailgun_event =
  me_token :: string
  me_timestamp :: string
  me_signature :: string
  me_event :: string
  me_tags :: "string list"
  me_severity :: "string option"
  me_message_id :: string
  me_event_timestamp :: rat

definition jtext :: "json option \<Rightarrow> string option" where
  "jtext j = (case j of Some (JStr t) \<Rightarrow> Some t | _ \<Rightarrow> None)"

definition jtexts :: "json option \<Rightarrow> string list option" where
  "jtexts j = (case j of None \<Rightarrow> Some []
     | Some (JArr xs) \<Rightarrow> those (map (\<lambda>x. jtext (Some x)) xs)
     | _ \<Rightarrow> None)"

definition joptional_text :: "json option \<Rightarrow> string option option" where
  "joptional_text j = (case j of None \<Rightarrow> Some None | Some JNull \<Rightarrow> Some None | Some (JStr t) \<Rightarrow> Some (Some t) | _ \<Rightarrow> None)"

definition jnumber :: "json option \<Rightarrow> rat option" where
  "jnumber j = (case j of Some (JNum r) \<Rightarrow> Some r | _ \<Rightarrow> None)"

definition jfield :: "json option \<Rightarrow> string \<Rightarrow> json option" where
  "jfield j k = (case j of None \<Rightarrow> None | Some j \<Rightarrow> jget j k)"

text \<open>A datetime has microseconds.\<close>

definition from_timestamp :: "rat \<Rightarrow> rat" where
  "from_timestamp t = of_int (half_even (t * 1000000)) / 1000000"

text \<open>The models that validate a payload, with their required fields; numbers are given as numbers.\<close>

definition mailgun_payload :: "json \<Rightarrow> mailgun_event option" where
  "mailgun_payload p =
     (let sig = jget p ''signature''; ev = jget p ''event-data'' in
      case (jtext (jfield sig ''token''), jtext (jfield sig ''timestamp''), jtext (jfield sig ''signature''),
            jtext (jfield ev ''event''), jtexts (jfield ev ''tags''), joptional_text (jfield ev ''severity''),
            jtext (jfield (jfield (jfield ev ''message'') ''headers'') ''message-id''), jnumber (jfield ev ''timestamp'')) of
        (Some tok, Some ts, Some sg, Some e, Some tags, Some sev, Some m, Some t) \<Rightarrow>
          Some \<lparr>me_token = tok, me_timestamp = ts, me_signature = sg, me_event = e, me_tags = tags, me_severity = sev,
                me_message_id = m, me_event_timestamp = from_timestamp t\<rparr>
      | _ \<Rightarrow> None)"

definition ENROLLMENT_CODE_ASSIGNMENT_TAG :: string where
  "ENROLLMENT_CODE_ASSIGNMENT_TAG = ''enrollment-code-assignment''"

definition is_potentially_valid_mailgun_webhook :: "mailgun_settings \<Rightarrow> json \<Rightarrow> bool" where
  "is_potentially_valid_mailgun_webhook cf p \<longleftrightarrow>
     \<not> (mg_signing_secret cf = [] \<and> mg_validate_signature cf)
     \<and> (case mailgun_payload p of None \<Rightarrow> False | Some e \<Rightarrow> ENROLLMENT_CODE_ASSIGNMENT_TAG \<in> set (me_tags e))"

text \<open>\<open>hmac key message\<close> is the hexadecimal HMAC-SHA256.\<close>

definition verify_mailgun_signature ::
  "(string \<Rightarrow> string \<Rightarrow> string) \<Rightarrow> mailgun_settings \<Rightarrow> mailgun_event \<Rightarrow> bool" where
  "verify_mailgun_signature hmac cf e \<longleftrightarrow> \<not> mg_validate_signature cf
     \<or> me_signature e = hmac (mg_signing_secret cf) (me_timestamp e @ me_token e)"

definition MAILGUN_EMAIL_EVENT_TYPES :: "string list" where
  "MAILGUN_EMAIL_EVENT_TYPES = [''delivered'', ''accepted'', ''opened'', ''clicked'', ''failed'']"

text \<open>The event of a payload that is looked at: signed, of a known kind, no temporary failure.\<close>

definition relevant_event ::
  "(string \<Rightarrow> string \<Rightarrow> string) \<Rightarrow> mailgun_settings \<Rightarrow> json \<Rightarrow> mailgun_event option" where
  "relevant_event hmac cf p =
     (if \<not> is_potentially_valid_mailgun_webhook cf p then None
      else case mailgun_payload p of None \<Rightarrow> None
        | Some e \<Rightarrow>
            if \<not> verify_mailgun_signature hmac cf e then None
            else if me_event e \<notin> set MAILGUN_EMAIL_EVENT_TYPES then None
            else if me_event e = ''failed'' \<and> me_severity e = Some ''temporary'' then None
            else Some e)"

text \<open>Zero seconds is a time as any other: the code compares with the stored datetime, which is true.\<close>

definition record_event :: "mailgun_event \<Rightarrow> ContractAttachment option op" where
  "record_event e =
     bindP (gets (\<lambda>s. get_one (filter (\<lambda>a. ca_email_message_id a = me_message_id e) (attachments s)))) (\<lambda>r. case r of
       Inl err \<Rightarrow> raise err
     | Inr a \<Rightarrow>
         if (case ca_email_status_timestamp a of None \<Rightarrow> False | Some t \<Rightarrow> t \<ge> me_event_timestamp e) then ret (Some a)
         else let a' = a\<lparr>ca_email_status := me_event e, ca_email_status_timestamp := Some (me_event_timestamp e)\<rparr> in
           thenP (save_attachment a') (ret (Some a')))"

definition process_mailgun_webhook ::
  "(string \<Rightarrow> string \<Rightarrow> string) \<Rightarrow> mailgun_settings \<Rightarrow> json \<Rightarrow> ContractAttachment option op" where
  "process_mailgun_webhook hmac cf p =
     (case relevant_event hmac cf p of None \<Rightarrow> ret None | Some e \<Rightarrow> record_event e)"

text \<open>The view only queues what may be valid, and always answers 200.\<close>

definition mailgun_webhook_view :: "mailgun_settings \<Rightarrow> json \<Rightarrow> nat op" where
  "mailgun_webhook_view cf p =
     thenP (whenP (is_potentially_valid_mailgun_webhook cf p) (emit (ProcessMailgunEvent p))) (ret 200)"

end
