(* ===== verification/CodeLife.thy ===== *)
theory CodeLife
  imports ContractCodes
begin

text \<open>
  What holds of an enrollment code through its life (\<open>ContractCodes\<close>): a redemption is never taken
  back, a code that admits one learner admits one, a contract is not filled beyond its seats, a code
  that was reassigned or revoked is worth nothing, a batch hands out free codes one by one, and the
  status of a message does not depend on the order in which its events arrive.
\<close>

section \<open>From a stronger condition\<close>

text \<open>\<open>leads K P m\<close>: from a state with \<open>K\<close>, \<open>m\<close> ends in one with \<open>P\<close>, also when it raises.\<close>

definition leads :: "('s \<Rightarrow> bool) \<Rightarrow> ('s \<Rightarrow> bool) \<Rightarrow> ('s, 'a) py \<Rightarrow> bool" where
  "leads K P m \<longleftrightarrow> (\<forall>s. K s \<longrightarrow> P (snd (m s)))"

named_theorems leads_intro \<open>rules that carry a stronger condition to where it is used\<close>

lemma leadsI: "(\<And>s. K s \<Longrightarrow> P (snd (m s))) \<Longrightarrow> leads K P m"
  by (simp add: leads_def)

lemma leads_keeps: "keeps P m \<Longrightarrow> (\<And>s. K s \<Longrightarrow> P s) \<Longrightarrow> leads K P m"
  by (simp add: leads_def keeps_def)

lemma leads_bindP: "keeps K m \<Longrightarrow> (\<And>s. K s \<Longrightarrow> P s) \<Longrightarrow> (\<And>x. leads K P (f x)) \<Longrightarrow> leads K P (bindP m f)"
  by (fastforce simp: leads_def keeps_def bindP_def split: prod.splits sum.splits)

lemma leads_thenP: "leads K P m \<Longrightarrow> keeps P n \<Longrightarrow> leads K P (thenP m n)"
  by (fastforce simp: leads_def keeps_def thenP_def bindP_def split: prod.splits sum.splits)

lemma keeps_read: "(\<And>s. P s \<Longrightarrow> leads (\<lambda>t. t = s) P (f (g s))) \<Longrightarrow> keeps P (bindP (gets g) f)"
  by (simp add: keeps_def leads_def)

lemma leads_at: "leads K P m \<Longrightarrow> K s \<Longrightarrow> leads (\<lambda>t. t = s) P m"
  by (simp add: leads_def)

section \<open>Rows that are added, written and deleted\<close>

definition redemption :: "ContractAttachment \<Rightarrow> nat \<times> nat \<times> nat \<times> nat option \<times> int option" where
  "redemption a = (ca_id a, ca_discount a, ca_contract a, ca_user a, ca_redeemed_on a)"

definition attachments_ok :: "db \<Rightarrow> bool" where
  "attachments_ok s \<longleftrightarrow> distinct (map ca_id (attachments s)) \<and> (\<forall>a \<in> set (attachments s). ca_id a < next_id s)"

text \<open>No discount changes how often it can be redeemed, and new ones have new ids.\<close>

definition grown :: "db \<Rightarrow> db \<Rightarrow> bool" where
  "grown s t \<longleftrightarrow> next_id s \<le> next_id t \<and> (\<forall>d \<in> set (discounts t). next_id s \<le> disc_id d
     \<or> (\<exists>e \<in> set (discounts s). disc_id e = disc_id d \<and> disc_redemption_type e = disc_redemption_type d))"

lemma grown_alike: "discounts t = discounts s \<Longrightarrow> next_id s \<le> next_id t \<Longrightarrow> grown s t"
  by (auto simp: grown_def)

lemma grown_trans [trans]: "grown s t \<Longrightarrow> grown t u \<Longrightarrow> grown s u"
  unfolding grown_def by (metis le_trans)

lemma attachments_ok_frame: "attachments t = attachments s \<Longrightarrow> grown s t \<Longrightarrow> attachments_ok s \<Longrightarrow> attachments_ok t"
  unfolding attachments_ok_def grown_def by fastforce

lemma attachments_ok_new:
  assumes ok: "attachments_ok s" and ids: "distinct (map ca_id rows)" "\<And>r. r \<in> set rows \<Longrightarrow> next_id s \<le> ca_id r \<and> ca_id r < n"
    and n: "next_id s \<le> n"
  shows "attachments_ok (s\<lparr>attachments := attachments s @ rows, next_id := n\<rparr>)"
proof -
  have "\<not> (ca_id a = ca_id b)" if "a \<in> set (attachments s)" "b \<in> set rows" for a b
    using ok that ids(2) [OF that(2)] by (force simp: attachments_ok_def)
  then show ?thesis using ok ids n unfolding attachments_ok_def by fastforce
qed

lemma attachments_ok_update:
  assumes "attachments_ok s" "\<And>x. x \<in> set (attachments s) \<Longrightarrow> p x \<Longrightarrow> ca_id (f x) = ca_id x"
  shows "attachments_ok (s\<lparr>attachments := update_rows p f (attachments s)\<rparr>)"
proof -
  have "map ca_id (update_rows p f (attachments s)) = map ca_id (attachments s)"
    using assms(2) by (simp add: update_rows_def)
  then show ?thesis using assms unfolding attachments_ok_def by (fastforce dest!: set_update_rowsD)
qed

lemma attachments_ok_delete:
  "attachments_ok s \<Longrightarrow> attachments_ok (s\<lparr>attachments := filter p (attachments s)\<rparr>)"
  by (auto simp: attachments_ok_def distinct_map intro: inj_on_subset)

lemma row_of_id: "attachments_ok s \<Longrightarrow> x \<in> set (attachments s) \<Longrightarrow> y \<in> set (attachments s) \<Longrightarrow> ca_id x = ca_id y \<Longrightarrow> x = y"
  by (auto simp: attachments_ok_def distinct_map dest: inj_onD)

text \<open>Operations that leave the rows alone.\<close>

definition rows_alone :: "('a op) \<Rightarrow> bool" where
  "rows_alone m \<longleftrightarrow> (\<forall>s. attachments (snd (m s)) = attachments s \<and> grown s (snd (m s)))"

named_theorems rows_alone_intro \<open>rules by which an operation is seen to leave the rows alone\<close>

lemma rows_alone_basic [rows_alone_intro]:
  "rows_alone (ret x)" "rows_alone (gets g)" "rows_alone (liftE h)" "rows_alone (raise e)" "rows_alone uuid4" "rows_alone (emit w)"
  "rows_alone fresh_id"
  by (simp_all add: rows_alone_def py_defs uuid4_def emit_def fresh_id_def grown_alike)

lemma rows_alone_bindP [rows_alone_intro]: "rows_alone m \<Longrightarrow> (\<And>x. rows_alone (f x)) \<Longrightarrow> rows_alone (bindP m f)"
  unfolding rows_alone_def bindP_def by (auto split: prod.splits sum.splits) (metis grown_trans snd_conv)+

lemma rows_alone_thenP [rows_alone_intro]: "rows_alone m \<Longrightarrow> rows_alone n \<Longrightarrow> rows_alone (thenP m n)"
  by (simp add: thenP_def rows_alone_bindP)

lemma rows_alone_whenP [rows_alone_intro]: "rows_alone m \<Longrightarrow> rows_alone (whenP b m)"
  by (simp add: whenP_def rows_alone_basic)

lemma rows_alone_forP [rows_alone_intro]: "(\<And>x. rows_alone (f x)) \<Longrightarrow> rows_alone (forP f xs)"
  by (induction xs) (auto intro: rows_alone_intro)

lemma rows_alone_foldP [rows_alone_intro]: "(\<And>b x. rows_alone (f b x)) \<Longrightarrow> rows_alone (foldP f b xs)"
  by (induction xs arbitrary: b) (auto intro: rows_alone_intro)

lemma rows_alone_case_option [rows_alone_intro]:
  "rows_alone m \<Longrightarrow> (\<And>y. rows_alone (f y)) \<Longrightarrow> rows_alone (case x of None \<Rightarrow> m | Some y \<Rightarrow> f y)"
  by (cases x) auto

lemma rows_alone_modify:
  "(\<And>s. attachments (g s) = attachments s) \<Longrightarrow> (\<And>s. grown s (g s)) \<Longrightarrow> rows_alone (modify g)"
  by (simp add: rows_alone_def modify_def)

lemma rows_alone_save_discount_code [rows_alone_intro]: "rows_alone (save_discount_code d code)"
  unfolding save_discount_code_def
  by (intro rows_alone_intro rows_alone_modify)
    (auto simp: write_discount_def map_discount_def grown_def dest!: set_update_rowsD split: if_splits)

lemma rows_alone_create_discount [rows_alone_intro]: "rows_alone (create_discount d)"
proof -
  have "rows_alone (bindP fresh_id (\<lambda>i. if b then thenP (modify (\<lambda>s. s\<lparr>discounts := discounts s @ [d\<lparr>disc_id := i\<rparr>]\<rparr>))
      (ret (d\<lparr>disc_id := i\<rparr>)) else ret (d\<lparr>disc_id := i\<rparr>)))" for b
    by (auto simp: rows_alone_def bindP_def thenP_def fresh_id_def modify_def ret_def grown_def)
  then show ?thesis unfolding create_discount_def Let_def by (rule rows_alone_bindP [OF rows_alone_basic(3)])
qed

lemma rows_alone_create_codes [rows_alone_intro]: "rows_alone (create_discount_codes_for_contract c n)"
  unfolding create_discount_codes_for_contract_def create_discount_with_product_def
  by (intro rows_alone_intro rows_alone_modify) (simp_all add: grown_alike)

lemma rows_alone_add_user_contract [rows_alone_intro]: "rows_alone (add_user_contract u c)"
  unfolding add_user_contract_def by (rule rows_alone_modify) (simp_all add: grown_alike)

lemma rows_alone_process_add_org_membership [rows_alone_intro]: "rows_alone (process_add_org_membership u org b)"
  unfolding process_add_org_membership_def add_user_contracts_def
  by (intro rows_alone_intro rows_alone_modify) (simp_all add: grown_alike)

lemma keeps_for_contract [keeps_intro]: "(\<And>c. keeps P (f c)) \<Longrightarrow> keeps P (for_contract superuser u org pk f)"
  unfolding for_contract_def by (intro keeps_intro)

lemma assigned_codeD:
  assumes "assigned_code s c code = Inr (d, x)"
  shows "x \<in> set (attachments s)" "ca_user x = None" "ca_redeemed_on x = None" "ca_discount x = disc_id d"
    "contract_code s c code = Some d"
proof -
  have "first (code_records s (disc_id d)) = Some x \<and> \<not> is_redeemed_attachment x \<and> contract_code s c code = Some d"
    using assms by (simp add: assigned_code_def split: option.splits if_splits)
  then show "x \<in> set (attachments s)" "ca_user x = None" "ca_redeemed_on x = None" "ca_discount x = disc_id d"
    "contract_code s c code = Some d"
    by (auto simp: code_records_def is_redeemed_attachment_def dest!: first_filter_SomeD)
qed

lemma get_one_mem: "get_one xs = Inr x \<Longrightarrow> set xs = {x}"
  by (auto simp: get_one_def split: list.splits)

section \<open>The life of the codes\<close>

text \<open>What can happen to the rows: a request of a manager, a learner who redeems, a message that is sent
  and a report of the mail service.  Each may be refused or raise.\<close>

inductive code_step :: "db \<Rightarrow> db \<Rightarrow> bool" where
  assign: "code_step s (snd (assign_code refused superuser u org pk code request s))"
| bulk: "code_step s (snd (bulk_assign mail refused superuser u org pk addresses s))"
| revoke: "code_step s (snd (revoke_code superuser u org pk code s))"
| remind: "code_step s (snd (send_reminder_for_code_assignment superuser u org pk code s))"
| reassign: "code_step s (snd (reassign_code superuser u org pk code request s))"
| test: "code_step s (snd (send_test_email superuser u org pk address s))"
| redeem: "code_step s (snd (attach_contract u code s))"
| send: "code_step s (snd (send_enrollment_code_assignment_email send ids s))"
| report: "code_step s (snd (process_mailgun_webhook hmac cf p s))"

section \<open>What the managers and the mail service keep\<close>

text \<open>A condition that holds when open rows are added, written and deleted and when the report of a message
  is written.\<close>

locale open_rows =
  fixes P :: "db \<Rightarrow> bool"
  assumes ok: "P s \<Longrightarrow> attachments_ok s"
    and frame: "P s \<Longrightarrow> attachments t = attachments s \<Longrightarrow> grown s t \<Longrightarrow> P t"
    and save: "P s \<Longrightarrow> x \<in> set (attachments s) \<Longrightarrow> ca_user x = None \<Longrightarrow> redemption b = redemption x \<Longrightarrow>
      P (s\<lparr>attachments := update_rows (\<lambda>r. ca_id r = ca_id b) (\<lambda>_. b) (attachments s)\<rparr>)"
    and delete: "P s \<Longrightarrow> x \<in> set (attachments s) \<Longrightarrow> ca_user x = None \<Longrightarrow>
      P (s\<lparr>attachments := filter (\<lambda>r. ca_id r \<noteq> ca_id x) (attachments s)\<rparr>)"
    and added: "P s \<Longrightarrow> distinct (map ca_id rows) \<Longrightarrow> (\<And>r. r \<in> set rows \<Longrightarrow> next_id s \<le> ca_id r \<and> ca_id r < n \<and> ca_user r = None) \<Longrightarrow>
      next_id s \<le> n \<Longrightarrow> P (s\<lparr>attachments := attachments s @ rows, next_id := n\<rparr>)"
    and marked: "P s \<Longrightarrow> (\<And>x. x \<in> set (attachments s) \<Longrightarrow> p x \<Longrightarrow> redemption (f x) = redemption x) \<Longrightarrow>
      P (s\<lparr>attachments := update_rows p f (attachments s)\<rparr>)"
begin

definition open_in :: "ContractAttachment \<Rightarrow> db \<Rightarrow> bool" where
  "open_in x s \<longleftrightarrow> P s \<and> x \<in> set (attachments s) \<and> ca_user x = None"

lemma alone: "rows_alone m \<Longrightarrow> keeps P m"
  unfolding rows_alone_def keeps_def by (blast intro: frame)

lemma open_alone: "rows_alone m \<Longrightarrow> keeps (open_in x) m"
  unfolding rows_alone_def keeps_def open_in_def by (auto intro: frame)

lemma leads_save: "redemption b = redemption x \<Longrightarrow> leads (open_in x) P (save_attachment b)"
  using save [of _ x b] by (intro leadsI) (simp add: open_in_def save_attachment_def modify_def)

lemma leads_delete: "leads (open_in x) P (delete_attachment x)"
  using delete [of _ x] by (intro leadsI) (simp add: open_in_def delete_attachment_def modify_def)

lemma keeps_assigned_code:
  assumes "\<And>st. keeps P (f (Inl st))" "\<And>d x. leads (open_in x) P (f (Inr (d, x)))"
  shows "keeps P (bindP (gets (\<lambda>s. assigned_code s c code)) f)"
proof (rule keeps_read)
  fix s assume k: "P s"
  show "leads (\<lambda>t. t = s) P (f (assigned_code s c code))"
  proof (cases "assigned_code s c code")
    case (Inl st)
    then show ?thesis using k leads_at [of P P "f (Inl st)" s] leads_keeps [OF assms(1), of P st] by simp
  next
    case (Inr y)
    then show ?thesis using k assigned_codeD [of s c code "fst y" "snd y"] leads_at [OF assms(2) [where d = "fst y" and x = "snd y"]]
      by (simp add: open_in_def)
  qed
qed

lemma keeps_send_codes: "keeps P (assign_codes_and_send_emails refused manager xs)"
proof (rule keepsI)
  fix s assume k: "P s"
  let ?rows = "map2 (assignment_row manager (now s)) [next_id s..<next_id s + length xs] xs"
  have ids: "map ca_id ?rows = [next_id s..<next_id s + length xs]"
    by (rule nth_equalityI) (simp_all add: assignment_row_def)
  have "next_id s \<le> ca_id r \<and> ca_id r < next_id s + length xs" if "r \<in> set ?rows" for r
    using that ids by (metis atLeastLessThan_iff image_eqI list.set_map set_upt)
  moreover have "ca_user r = None" if "r \<in> set ?rows" for r using that by (auto simp: assignment_row_def)
  ultimately have "P (s\<lparr>attachments := attachments s @ ?rows, next_id := next_id s + length xs\<rparr>)"
    using added [OF k, of ?rows "next_id s + length xs"] ids by simp
  then have "P (s\<lparr>attachments := attachments s @ ?rows, next_id := next_id s + length xs, outbox := w\<rparr>)" for w
    by (rule frame) (simp_all add: grown_alike)
  then show "P (snd (assign_codes_and_send_emails refused manager xs s))"
    using k by (simp add: assign_codes_and_send_emails_def Let_def ret_def)
qed

lemma keeps_assign_code: "keeps P (assign_code refused superuser u org pk code request)"
  unfolding assign_code_def by (intro keeps_intro keeps_send_codes)

lemma keeps_bulk_assign: "keeps P (bulk_assign mail refused superuser u org pk request)"
  unfolding bulk_assign_def by (intro keeps_intro keeps_send_codes alone rows_alone_intro)

lemma keeps_revoke_code: "keeps P (revoke_code superuser u org pk code)"
  unfolding revoke_code_def
  by (intro keeps_for_contract keeps_assigned_code)
    (auto intro!: keeps_ret leads_thenP leads_delete alone rows_alone_intro)

lemma keeps_remind: "keeps P (send_reminder_for_code_assignment superuser u org pk code)"
  unfolding send_reminder_for_code_assignment_def Let_def
  by (intro keeps_for_contract keeps_assigned_code)
    (auto intro!: keeps_ret leads_thenP leads_save alone rows_alone_intro leads_keeps [OF keeps_ret]
      simp: clear_assignment_email_deliverability_fields_def redemption_def open_in_def)

lemma keeps_reassign_code: "keeps P (reassign_code superuser u org pk code request)"
  unfolding reassign_code_def Let_def
  by (intro keeps_for_contract keeps_case_option keeps_case_prod keeps_assigned_code keeps_ret)
    (auto intro!: keeps_ret leads_bindP leads_thenP leads_save open_alone alone rows_alone_intro
      simp: clear_assignment_email_deliverability_fields_def reassigned_def redemption_def open_in_def)

lemma keeps_send_test_email: "keeps P (send_test_email superuser u org pk request)"
  unfolding send_test_email_def
  by (intro keeps_for_contract alone rows_alone_intro)

lemma keeps_send_email: "keeps P (send_enrollment_code_assignment_email send ids)"
  unfolding send_enrollment_code_assignment_email_def
  by (intro keeps_intro keeps_modify marked) (simp_all add: sent_row_def redemption_def)

lemma keeps_record_event: "keeps P (record_event e)"
  unfolding record_event_def
proof (rule keeps_read, goal_cases)
  case (1 s)
  show ?case
  proof (cases "get_one (filter (\<lambda>x. ca_email_message_id x = me_message_id e) (attachments s))")
    case (Inl err)
    then show ?thesis using 1 by (simp add: leads_def raise_def)
  next
    case (Inr x)
    let ?x = "x\<lparr>ca_email_status := me_event e, ca_email_status_timestamp := Some (me_event_timestamp e)\<rparr>"
    have x: "x \<in> set (attachments s)" using get_one_mem [OF Inr] by auto
    have "P (s\<lparr>attachments := update_rows (\<lambda>r. ca_id r = ca_id ?x) (\<lambda>_. ?x) (attachments s)\<rparr>)"
    proof (rule marked [OF 1])
      fix y assume y: "y \<in> set (attachments s)" "ca_id y = ca_id ?x"
      then have "y = x" using row_of_id [OF ok [OF 1]] x by simp
      then show "redemption ?x = redemption y" by (simp add: redemption_def)
    qed
    then show ?thesis using Inr 1
      by (simp add: leads_def Let_def ret_def thenP_def bindP_def save_attachment_def modify_def)
  qed
qed

lemma keeps_process_mailgun_webhook: "keeps P (process_mailgun_webhook hmac cf p)"
  unfolding process_mailgun_webhook_def by (intro keeps_intro keeps_record_event)

lemma step: "code_step s t \<Longrightarrow> (\<And>u code. keeps P (attach_contract u code)) \<Longrightarrow> P s \<Longrightarrow> P t"
  by (cases rule: code_step.cases)
    (auto intro: keeps_assign_code [THEN keepsD] keeps_bulk_assign [THEN keepsD] keeps_revoke_code [THEN keepsD]
      keeps_remind [THEN keepsD] keeps_reassign_code [THEN keepsD] keeps_send_test_email [THEN keepsD]
      keeps_send_email [THEN keepsD] keeps_process_mailgun_webhook [THEN keepsD] keepsD)

lemma life: "code_step\<^sup>*\<^sup>* s t \<Longrightarrow> (\<And>u code. keeps P (attach_contract u code)) \<Longrightarrow> P s \<Longrightarrow> P t"
  by (induction rule: rtranclp_induct) (auto intro: step)

end

section \<open>A redemption is never taken back\<close>

text \<open>The code with this redemption is redeemed.\<close>

definition kept :: "ContractAttachment \<Rightarrow> db \<Rightarrow> bool" where
  "kept a s \<longleftrightarrow> ca_user a \<noteq> None \<and> attachments_ok s \<and> redemption a \<in> redemption ` set (attachments s)"

lemma kept_frame: "kept a s \<Longrightarrow> attachments t = attachments s \<Longrightarrow> grown s t \<Longrightarrow> kept a t"
  by (auto simp: kept_def intro: attachments_ok_frame)

lemma kept_update:
  assumes k: "kept a s" and f: "\<And>x. x \<in> set (attachments s) \<Longrightarrow> p x \<Longrightarrow> ca_id (f x) = ca_id x"
    and same: "\<And>x. x \<in> set (attachments s) \<Longrightarrow> p x \<Longrightarrow> ca_user x \<noteq> None \<Longrightarrow> redemption (f x) = redemption x"
  shows "kept a (s\<lparr>attachments := update_rows p f (attachments s)\<rparr>)"
proof -
  obtain b where b: "b \<in> set (attachments s)" "redemption a = redemption b" using k by (auto simp: kept_def)
  then have user: "ca_user b \<noteq> None" using k by (simp add: redemption_def kept_def)
  have "(if p b then f b else b) \<in> set (update_rows p f (attachments s))"
    using b(1) by (force simp: update_rows_def)
  moreover have "redemption (if p b then f b else b) = redemption a"
    using same [OF b(1) _ user] b(2) by simp
  ultimately have "redemption a \<in> redemption ` set (update_rows p f (attachments s))" by (metis image_eqI)
  then show ?thesis using k attachments_ok_update [of s p f] f by (simp add: kept_def)
qed

lemma kept_save:
  assumes "kept a s" "x \<in> set (attachments s)" "ca_user x = None" "ca_id b = ca_id x"
  shows "kept a (s\<lparr>attachments := update_rows (\<lambda>r. ca_id r = ca_id b) (\<lambda>_. b) (attachments s)\<rparr>)"
proof (rule kept_update [OF assms(1)])
  have ok: "attachments_ok s" using assms(1) by (simp add: kept_def)
  fix y assume y: "y \<in> set (attachments s)" "ca_id y = ca_id b"
  then have "y = x" using row_of_id [OF ok y(1) assms(2)] assms(4) by simp
  then show "ca_id b = ca_id y" "ca_user y \<noteq> None \<Longrightarrow> redemption b = redemption y" using assms(3,4) by simp_all
qed

lemma kept_delete:
  assumes "kept a s" "x \<in> set (attachments s)" "ca_user x = None"
  shows "kept a (s\<lparr>attachments := filter (\<lambda>r. ca_id r \<noteq> ca_id x) (attachments s)\<rparr>)"
proof -
  obtain b where b: "b \<in> set (attachments s)" "redemption a = redemption b" using assms(1) by (auto simp: kept_def)
  then have "ca_id b \<noteq> ca_id x" using assms row_of_id [of s b x] by (auto simp: kept_def redemption_def)
  then have "redemption a \<in> redemption ` set (filter (\<lambda>r. ca_id r \<noteq> ca_id x) (attachments s))" using b by auto
  then show ?thesis using assms(1) attachments_ok_delete by (simp add: kept_def)
qed

lemma kept_new:
  assumes "kept a s" "distinct (map ca_id rows)" "\<And>r. r \<in> set rows \<Longrightarrow> next_id s \<le> ca_id r \<and> ca_id r < n" "next_id s \<le> n"
  shows "kept a (s\<lparr>attachments := attachments s @ rows, next_id := n\<rparr>)"
  using assms attachments_ok_new [OF _ assms(2-4)] unfolding kept_def by auto

interpretation kept: open_rows "kept a" for a
proof (unfold_locales, goal_cases)
  case (3 s x b) then show ?case by (intro kept_save) (simp_all add: redemption_def)
next
  case (5 s rows n) then show ?case by (intro kept_new) blast+
next
  case (6 s p f) then show ?case by (intro kept_update) (simp_all add: redemption_def)
qed (simp add: kept_def, rule kept_frame, assumption+, rule kept_delete)

text \<open>A learner redeems: an open row becomes the redemption, or there is a new one.\<close>

lemma kept_new_row:
  assumes "kept a s" "ca_id r = next_id s"
  shows "kept a (s\<lparr>next_id := Suc (next_id s), attachments := attachments s @ [r]\<rparr>)"
  by (rule kept_frame [OF kept_new [OF assms(1), of "[r]" "Suc (next_id s)"]]) (simp_all add: grown_alike assms(2))

lemma keeps_redeem_row: "keeps (kept a) (redeem_row d c u)"
  unfolding redeem_row_def
proof (rule keeps_read, goal_cases)
  case (1 s)
  let ?open = "filter (\<lambda>x. ca_discount x = d \<and> ca_contract x = c \<and> ca_user x = None) (attachments s)"
  show ?case
  proof (cases ?open)
    case Nil
    then show ?thesis using 1 kept_new_row [OF 1]
      by (simp add: leads_def bindP_def fresh_id_def modify_def)
  next
    case (Cons x more)
    have x: "x \<in> set (attachments s)" "ca_user x = None" using arg_cong [OF Cons, of set] by auto
    show ?thesis
    proof (cases more)
      case Nil
      then show ?thesis using Cons x kept_save [OF 1, of x "x\<lparr>ca_user := Some u, ca_redeemed_on := Some (now s)\<rparr>"] 1
        by (simp add: leads_def bindP_def gets_def save_attachment_def modify_def)
    qed (use Cons 1 in \<open>simp add: leads_def raise_def\<close>)
  qed
qed

lemma keeps_attach_step [keeps_intro]: "keeps (kept a) (attach_step u d flags c)"
  unfolding attach_step_def
  by (intro keeps_intro keeps_redeem_row kept.alone rows_alone_intro)

lemma keeps_attach_contract: "keeps (kept a) (attach_contract u code)"
  unfolding attach_contract_def attach_user_to_contracts_def by (intro keeps_intro)

lemmas life_kept = kept.life [OF _ keeps_attach_contract]

section \<open>A code for one learner\<close>

text \<open>The code is not unlimited, and \<open>u\<close> is the only learner who redeemed it, if there is one.\<close>

definition sole :: "nat \<Rightarrow> nat \<Rightarrow> db \<Rightarrow> bool" where
  "sole D u s \<longleftrightarrow> attachments_ok s \<and> D < next_id s
     \<and> (\<forall>d \<in> set (discounts s). disc_id d = D \<longrightarrow> disc_redemption_type d \<noteq> UNLIMITED)
     \<and> (\<forall>a \<in> set (attachments s). ca_discount a = D \<longrightarrow> ca_user a = None \<or> ca_user a = Some u)"

lemma sole_frame: "sole D u s \<Longrightarrow> attachments t = attachments s \<Longrightarrow> grown s t \<Longrightarrow> sole D u t"
  unfolding sole_def using attachments_ok_frame [of t s]
  by (simp add: grown_def) (metis le_less_trans less_le_not_le order.strict_trans2)

lemma sole_update:
  assumes k: "sole D u s" and f: "\<And>x. x \<in> set (attachments s) \<Longrightarrow> p x \<Longrightarrow> ca_id (f x) = ca_id x"
    and same: "\<And>x. x \<in> set (attachments s) \<Longrightarrow> p x \<Longrightarrow> ca_discount (f x) = D \<Longrightarrow>
      ca_user (f x) = Some u \<or> (ca_discount x = D \<and> ca_user (f x) = ca_user x)"
  shows "sole D u (s\<lparr>attachments := update_rows p f (attachments s)\<rparr>)"
proof -
  have "ca_user y = None \<or> ca_user y = Some u" if y: "y \<in> set (update_rows p f (attachments s))" "ca_discount y = D" for y
    using set_update_rowsD [OF y(1)] same k y(2) unfolding sole_def by metis
  then show ?thesis using k attachments_ok_update [of s p f] f by (simp add: sole_def)
qed

lemma sole_save:
  assumes "sole D u s" "x \<in> set (attachments s)" "ca_id b = ca_id x"
    and "ca_discount b = D \<Longrightarrow> ca_user b = Some u \<or> (ca_discount x = D \<and> ca_user b = ca_user x)"
  shows "sole D u (s\<lparr>attachments := update_rows (\<lambda>r. ca_id r = ca_id b) (\<lambda>_. b) (attachments s)\<rparr>)"
proof (rule sole_update [OF assms(1)])
  have ok: "attachments_ok s" using assms(1) by (simp add: sole_def)
  fix y assume y: "y \<in> set (attachments s)" "ca_id y = ca_id b"
  then have "y = x" using row_of_id [OF ok y(1) assms(2)] assms(3) by simp
  then show "ca_id b = ca_id y" "ca_discount b = D \<Longrightarrow> ca_user b = Some u \<or> (ca_discount y = D \<and> ca_user b = ca_user y)"
    using assms(3,4) by simp_all
qed

lemma sole_new:
  assumes "sole D u s" "distinct (map ca_id rows)" "next_id s \<le> n"
    and rows: "\<And>r. r \<in> set rows \<Longrightarrow> next_id s \<le> ca_id r \<and> ca_id r < n"
    "\<And>r. r \<in> set rows \<Longrightarrow> ca_discount r = D \<Longrightarrow> ca_user r = None \<or> ca_user r = Some u"
  shows "sole D u (s\<lparr>attachments := attachments s @ rows, next_id := n\<rparr>)"
  using assms attachments_ok_new [OF _ assms(2) rows(1) assms(3)] unfolding sole_def by auto

interpretation sole: open_rows "sole D u" for D u
proof (unfold_locales, goal_cases)
  case (3 s x b) then show ?case using sole_save [of D u s x b] by (auto simp: redemption_def)
next
  case (4 s x) then show ?case using attachments_ok_delete by (auto simp: sole_def)
next
  case (5 s rows n) then show ?case by (intro sole_new) blast+
next
  case (6 s p f) then show ?case by (intro sole_update) (simp_all add: redemption_def)
qed (simp add: sole_def, rule sole_frame)

lemma keeps_sole_redeem_row:
  assumes same: "d = D \<Longrightarrow> v = u"
  shows "keeps (sole D u) (redeem_row d c v)"
  unfolding redeem_row_def
proof (rule keeps_read, goal_cases)
  case (1 s)
  let ?open = "filter (\<lambda>x. ca_discount x = d \<and> ca_contract x = c \<and> ca_user x = None) (attachments s)"
  show ?case
  proof (cases ?open)
    case Nil
    have "sole D u (s\<lparr>next_id := Suc (next_id s), attachments := attachments s @ [r]\<rparr>)"
      if "ca_id r = next_id s" "ca_discount r = d" "ca_user r = Some v" for r
      by (rule sole_frame [OF sole_new [OF 1, of "[r]" "Suc (next_id s)"]]) (use that same in \<open>auto simp: grown_alike\<close>)
    then show ?thesis using Nil by (simp add: leads_def bindP_def fresh_id_def modify_def)
  next
    case (Cons x more)
    have x: "x \<in> set (attachments s)" "ca_discount x = d" using arg_cong [OF Cons, of set] by auto
    show ?thesis
    proof (cases more)
      case Nil
      then show ?thesis using Cons x same sole_save [OF 1, of x "x\<lparr>ca_user := Some v, ca_redeemed_on := Some (now s)\<rparr>"]
        by (simp add: leads_def bindP_def gets_def save_attachment_def modify_def)
    qed (use Cons 1 in \<open>simp add: leads_def raise_def\<close>)
  qed
qed

lemma keeps_sole_attach: "(d = D \<Longrightarrow> v = u) \<Longrightarrow> keeps (sole D u) (attach_user_to_contracts v d cs)"
  unfolding attach_user_to_contracts_def attach_step_def
  by (intro keeps_foldP keeps_bindP keeps_thenP keeps_if keeps_gets keeps_ret keeps_sole_redeem_row sole.alone rows_alone_intro)

definition admits_one :: "nat \<Rightarrow> db \<Rightarrow> bool" where
  "admits_one D s \<longleftrightarrow> (\<exists>u. sole D u s)"

interpretation one: open_rows "admits_one D" for D
  unfolding admits_one_def
  by unfold_locales (blast intro: sole.ok sole.frame sole.save sole.delete sole.added sole.marked)+

lemma leads_one: "keeps (sole D w) m \<Longrightarrow> sole D w s \<Longrightarrow> leads (\<lambda>t. t = s) (admits_one D) m"
  unfolding leads_def keeps_def admits_one_def by blast

text \<open>A learner is let through with a limited code only while nobody has redeemed it.\<close>

lemma get_valid_discountD:
  assumes "get_valid_discount s code = Inr d"
  shows "d \<in> set (discounts s)" "disc_code d = code" "disc_redemption_type d = UNLIMITED \<or> redeemed_count s (disc_id d) = 0"
  using get_one_mem [OF assms [unfolded get_valid_discount_def]] by auto

lemma keeps_attach_one: "keeps (admits_one D) (attach_contract v code)"
  unfolding attach_contract_def
proof (rule keeps_read, goal_cases)
  case (1 s)
  then obtain u where u: "sole D u s" by (auto simp: admits_one_def)
  show ?case
  proof (cases "get_valid_discount s code")
    case (Inl e)
    then show ?thesis using 1 by (simp add: leads_def raise_def ret_def gets_bind)
  next
    case (Inr d)
    have "sole D (usr_id v) s" if "disc_id d = D"
    proof -
      have "redeemed_count s D = 0" using get_valid_discountD [OF Inr] u that by (auto simp: sole_def)
      then show ?thesis using u by (auto simp: sole_def redeemed_count_def count_rows_def filter_empty_conv)
    qed
    then obtain w where w: "sole D w s" "disc_id d = D \<Longrightarrow> usr_id v = w"
      using u by (cases "disc_id d = D") auto
    show ?thesis unfolding Inr sum.case
      by (rule leads_one [OF _ w(1)], intro keeps_intro keeps_sole_attach, rule w(2))
  qed
qed

lemmas life_one = one.life [OF _ keeps_attach_one]

text \<open>Nobody has redeemed it yet.\<close>

lemma admits_one_unredeemed:
  assumes "attachments_ok s" "D < next_id s" "redeemed_count s D = 0"
    "list_all (\<lambda>d. disc_id d = D \<longrightarrow> disc_redemption_type d \<noteq> UNLIMITED) (discounts s)"
  shows "admits_one D s"
  using assms unfolding admits_one_def sole_def redeemed_count_def count_rows_def
  by (auto simp: list_all_iff filter_empty_conv)

lemma admits_oneD:
  assumes "admits_one D s" "a \<in> set (attachments s)" "b \<in> set (attachments s)" "ca_discount a = D" "ca_discount b = D"
    "ca_user a = Some u" "ca_user b = Some v"
  shows "u = v"
  using assms unfolding admits_one_def sole_def by (metis option.inject option.simps(3))

section \<open>A code that was withdrawn\<close>

definition uuid_text :: "nat \<Rightarrow> string" where
  "uuid_text n = ''uuid-'' @ show_nat n"

text \<open>New codes are strings that \<open>uuid4\<close> never returned before.\<close>

definition new_codes :: "db \<Rightarrow> db \<Rightarrow> bool" where
  "new_codes s t \<longleftrightarrow> next_id s \<le> next_id t
     \<and> (\<forall>d \<in> set (discounts t). disc_code d \<in> disc_code ` set (discounts s) \<or> (\<exists>n \<ge> next_id s. disc_code d = uuid_text n))"

lemma new_codes_alike: "discounts t = discounts s \<Longrightarrow> next_id s \<le> next_id t \<Longrightarrow> new_codes s t"
  by (auto simp: new_codes_def)

lemma new_codes_trans: "new_codes s t \<Longrightarrow> new_codes t u \<Longrightarrow> new_codes s u"
  unfolding new_codes_def by (smt (verit, best) image_iff le_trans)

definition fresh_codes :: "'a op \<Rightarrow> bool" where
  "fresh_codes m \<longleftrightarrow> (\<forall>s. new_codes s (snd (m s)))"

named_theorems fresh_intro \<open>rules by which an operation is seen to make only new codes\<close>

lemma fresh_basic [fresh_intro]:
  "fresh_codes (ret x)" "fresh_codes (gets g)" "fresh_codes (liftE h)" "fresh_codes (raise e)" "fresh_codes uuid4"
  "fresh_codes (emit w)" "fresh_codes fresh_id"
  by (simp_all add: fresh_codes_def py_defs uuid4_def emit_def fresh_id_def new_codes_alike)

lemma fresh_bindP [fresh_intro]: "fresh_codes m \<Longrightarrow> (\<And>x. fresh_codes (f x)) \<Longrightarrow> fresh_codes (bindP m f)"
  unfolding fresh_codes_def bindP_def by (auto split: prod.splits sum.splits) (metis new_codes_trans snd_conv)+

lemma fresh_thenP [fresh_intro]: "fresh_codes m \<Longrightarrow> fresh_codes n \<Longrightarrow> fresh_codes (thenP m n)"
  by (simp add: thenP_def fresh_bindP)

lemma fresh_whenP [fresh_intro]: "fresh_codes m \<Longrightarrow> fresh_codes (whenP b m)"
  by (simp add: whenP_def fresh_basic)

lemma fresh_forP [fresh_intro]: "(\<And>x. fresh_codes (f x)) \<Longrightarrow> fresh_codes (forP f xs)"
  by (induction xs) (auto intro: fresh_intro)

lemma fresh_foldP [fresh_intro]: "(\<And>b x. fresh_codes (f b x)) \<Longrightarrow> fresh_codes (foldP f b xs)"
  by (induction xs arbitrary: b) (auto intro: fresh_intro)

lemma fresh_cases [fresh_intro]:
  "fresh_codes m \<Longrightarrow> (\<And>y. fresh_codes (f y)) \<Longrightarrow> fresh_codes (case o1 of None \<Rightarrow> m | Some y \<Rightarrow> f y)"
  "(\<And>e. fresh_codes (g e)) \<Longrightarrow> (\<And>y. fresh_codes (f y)) \<Longrightarrow> fresh_codes (case r of Inl e \<Rightarrow> g e | Inr y \<Rightarrow> f y)"
  "fresh_codes m \<Longrightarrow> fresh_codes n \<Longrightarrow> fresh_codes (if b then m else n)"
  "(\<And>a b. fresh_codes (h a b)) \<Longrightarrow> fresh_codes (case p of (a, b) \<Rightarrow> h a b)"
  "fresh_codes m \<Longrightarrow> (\<And>y ys. fresh_codes (k y ys)) \<Longrightarrow> fresh_codes (case xs of [] \<Rightarrow> m | y # ys \<Rightarrow> k y ys)"
  by (simp_all split: option.split sum.split prod.split list.split)

lemma fresh_modify: "(\<And>s. discounts (g s) = discounts s) \<Longrightarrow> (\<And>s. next_id s \<le> next_id (g s)) \<Longrightarrow> fresh_codes (modify g)"
  by (simp add: fresh_codes_def modify_def new_codes_alike)

text \<open>A new code is stored under the discount, or in a new one.\<close>

lemma fresh_new_code:
  assumes "\<And>d. fresh_codes (f d)"
  shows "fresh_codes (bindP uuid4 (\<lambda>new. bindP (save_discount_code d new) f))"
proof -
  have "new_codes s (snd (bindP uuid4 (save_discount_code d) s))" for s
    by (auto simp: new_codes_def bindP_def uuid4_def save_discount_code_def liftE_def thenP_def modify_def ret_def uuid_text_def
        write_discount_def map_discount_def split: sum.split)
  then have "fresh_codes (bindP uuid4 (save_discount_code d))" by (simp add: fresh_codes_def)
  then have "fresh_codes (bindP (bindP uuid4 (save_discount_code d)) f)" using assms by (rule fresh_bindP)
  then show ?thesis by (simp add: bindP_assoc)
qed

lemma fresh_create_discount_with_product [fresh_intro]: "fresh_codes (create_discount_with_product p amount rt)"
proof -
  have "new_codes s (snd (bindP uuid4 (\<lambda>code. create_discount (code_discount 0 code amount rt)) s))" for s
    by (auto simp: new_codes_def bindP_def uuid4_def create_discount_def liftE_def thenP_def modify_def ret_def uuid_text_def
        Let_def fresh_id_def code_discount_def split: sum.split)
  then have "fresh_codes (bindP uuid4 (\<lambda>code. create_discount (code_discount 0 code amount rt)))"
    by (simp add: fresh_codes_def)
  then have "fresh_codes (bindP (bindP uuid4 (\<lambda>code. create_discount (code_discount 0 code amount rt)))
      (\<lambda>d. thenP (modify (\<lambda>s. s\<lparr>discount_products := discount_products s @ [\<lparr>dp_discount = disc_id d, dp_product = Some (prod_id p)\<rparr>]\<rparr>))
       (ret d)))"
    by (rule fresh_bindP) (intro fresh_thenP fresh_basic fresh_modify; simp)
  then show ?thesis by (simp add: create_discount_with_product_def bindP_assoc)
qed

lemma fresh_for_contract: "(\<And>c. fresh_codes (f c)) \<Longrightarrow> fresh_codes (for_contract superuser u org pk f)"
  unfolding for_contract_def by (intro fresh_intro)

lemma fresh_gets: "(\<And>x. fresh_codes (f x)) \<Longrightarrow> fresh_codes (bindP (gets g) f)"
  by (intro fresh_intro)

lemma fresh_rows [fresh_intro]: "fresh_codes (save_attachment a)" "fresh_codes (delete_attachment a)"
  "fresh_codes (assign_codes_and_send_emails refused manager xs)"
  by (simp_all add: save_attachment_def delete_attachment_def fresh_modify)
    (simp add: assign_codes_and_send_emails_def fresh_codes_def ret_def Let_def new_codes_alike)

lemma fresh_managers:
  "fresh_codes (assign_code refused superuser u org pk code request)"
  "fresh_codes (bulk_assign mail refused superuser u org pk addresses)"
  "fresh_codes (send_reminder_for_code_assignment superuser u org pk code)"
  "fresh_codes (send_test_email superuser u org pk address)"
  unfolding assign_code_def bulk_assign_def send_reminder_for_code_assignment_def send_test_email_def Let_def
    create_discount_codes_for_contract_def
  by (intro fresh_for_contract fresh_intro)+

lemma fresh_withdrawals:
  "fresh_codes (revoke_code superuser u org pk code)"
  "fresh_codes (reassign_code superuser u org pk code request)"
  unfolding revoke_code_def reassign_code_def Let_def
  by (intro fresh_for_contract fresh_gets fresh_cases fresh_thenP fresh_new_code fresh_rows fresh_basic)+

lemma fresh_attach: "fresh_codes (attach_contract u code)"
  unfolding attach_contract_def attach_user_to_contracts_def attach_step_def redeem_row_def
    process_add_org_membership_def add_user_contracts_def add_user_contract_def
  by (intro fresh_intro fresh_modify) simp_all

lemma fresh_messages: "fresh_codes (send_enrollment_code_assignment_email send ids)"
  "fresh_codes (process_mailgun_webhook hmac cf p)"
  unfolding send_enrollment_code_assignment_email_def process_mailgun_webhook_def record_event_def Let_def
  by (intro fresh_intro fresh_modify; simp)+

lemma fresh_codesD: "fresh_codes m \<Longrightarrow> new_codes s (snd (m s))"
  by (simp add: fresh_codes_def)

lemma code_step_new: "code_step s t \<Longrightarrow> new_codes s t"
  by (cases rule: code_step.cases)
    (auto intro: fresh_managers [THEN fresh_codesD] fresh_withdrawals [THEN fresh_codesD] fresh_attach [THEN fresh_codesD]
      fresh_messages [THEN fresh_codesD])

lemma life_new: "code_step\<^sup>*\<^sup>* s t \<Longrightarrow> new_codes s t"
  by (induction rule: rtranclp_induct) (auto intro: code_step_new new_codes_trans new_codes_alike)

text \<open>No discount has the code, and none will be given it.\<close>

definition gone :: "string \<Rightarrow> db \<Rightarrow> bool" where
  "gone code s \<longleftrightarrow> (\<forall>d \<in> set (discounts s). disc_code d \<noteq> code) \<and> (\<forall>n \<ge> next_id s. uuid_text n \<noteq> code)"

lemma gone_new: "gone code s \<Longrightarrow> new_codes s t \<Longrightarrow> gone code t"
  unfolding gone_def new_codes_def by (auto; force)

definition codes_distinct :: "db \<Rightarrow> bool" where
  "codes_distinct s \<longleftrightarrow> distinct (map disc_code (discounts s)) \<and> (\<forall>d \<in> set (discounts s). \<forall>n \<ge> next_id s. uuid_text n \<noteq> disc_code d)"

lemma contract_codeD: "contract_code s c code = Some d \<Longrightarrow> d \<in> set (discounts s) \<and> disc_code d = code"
proof -
  assume "contract_code s c code = Some d"
  then have "d \<in> set (sort_key disc_id (filter (\<lambda>d. disc_code d = code) (contract_discounts s c)))"
    unfolding contract_code_def by (metis first_eq_hd hd_in_set option.discI option.inject)
  then show ?thesis by (auto simp: contract_discounts_def)
qed

lemma new_code_ends_old:
  assumes ok: "codes_distinct s" and d: "d \<in> set (discounts s)" and f: "\<And>d. fresh_codes (f d)"
    and run: "bindP uuid4 (\<lambda>new. bindP (save_discount_code d new) f) s = (Inr r, t)"
  shows "gone (disc_code d) t"
proof -
  let ?new = "uuid_text (next_id s)"
  let ?s = "s\<lparr>next_id := Suc (next_id s)\<rparr>"
  let ?t = "write_discount (disc_id d) (\<lambda>x. x\<lparr>disc_code := ?new\<rparr>) ?s"
  have t: "f (d\<lparr>disc_code := ?new\<rparr>) ?t = (Inr r, t)"
    using run by (simp add: bindP_def uuid4_def save_discount_code_def liftE_def thenP_def modify_def ret_def uuid_text_def split: sum.splits)
  have new: "?new \<noteq> disc_code d" using ok d by (auto simp: codes_distinct_def)
  have same: "e = d" if "e \<in> set (discounts s)" "disc_code e = disc_code d" for e
    using ok d that by (auto simp: codes_distinct_def distinct_map dest: inj_onD)
  have "disc_code (map_discount (disc_id d) (\<lambda>x. x\<lparr>disc_code := ?new\<rparr>) e) \<noteq> disc_code d" if "e \<in> set (discounts s)" for e
    using new same [OF that] by (auto simp: map_discount_def)
  moreover have "uuid_text n \<noteq> disc_code d" if "n \<ge> Suc (next_id s)" for n
    using ok d that by (auto simp: codes_distinct_def)
  ultimately have "gone (disc_code d) ?t" by (auto simp: gone_def write_discount_def)
  then show ?thesis using gone_new fresh_codesD [OF f [of "d\<lparr>disc_code := ?new\<rparr>"], of ?t] t by simp
qed

lemma modify_thenP: "thenP (modify f) m s = m (f s)"
  by (simp add: thenP_def bindP_def modify_def)

text \<open>A manager takes the code back, or gives its place to somebody else.\<close>

inductive withdraws :: "string \<Rightarrow> db \<Rightarrow> db \<Rightarrow> bool" where
  revoked: "revoke_code superuser u org pk code s = (Inr (OneCode d x), t) \<Longrightarrow> withdraws code s t"
| reassigned: "reassign_code superuser u org pk code request s = (Inr (OneCode d x), t) \<Longrightarrow> withdraws code s t"

lemma for_contract_OneCode:
  assumes "for_contract superuser u org pk f s = (Inr (OneCode d x), t)"
  obtains c where "f c s = (Inr (OneCode d x), t)"
  using assms by (auto simp: for_contract_def gets_bind ret_def split: sum.splits)

lemma withdrawn_gone:
  assumes "withdraws code s t" and ok: "codes_distinct s"
  shows "gone code t"
  using assms(1)
proof (cases rule: withdraws.cases)
  case (revoked superuser u org pk d x)
  then obtain c e a where a: "assigned_code s c code = Inr (e, a)"
    and run: "thenP (delete_attachment a) (bindP uuid4 (\<lambda>new. bindP (save_discount_code e new) (\<lambda>d. ret (OneCode d None)))) s
      = (Inr (OneCode d x), t)"
    unfolding revoke_code_def by (auto elim!: for_contract_OneCode simp: gets_bind ret_def split: sum.splits)
  let ?s = "s\<lparr>attachments := filter (\<lambda>r. ca_id r \<noteq> ca_id a) (attachments s)\<rparr>"
  have "codes_distinct ?s" "e \<in> set (discounts ?s)" "disc_code e = code"
    using ok contract_codeD [OF assigned_codeD(5) [OF a]] by (simp_all add: codes_distinct_def)
  moreover have "bindP uuid4 (\<lambda>new. bindP (save_discount_code e new) (\<lambda>d. ret (OneCode d None))) ?s = (Inr (OneCode d x), t)"
    using run by (simp add: delete_attachment_def modify_thenP)
  ultimately show ?thesis using new_code_ends_old [of ?s e "\<lambda>d. ret (OneCode d None)"] by (simp add: fresh_basic)
next
  case (reassigned superuser u org pk request d x)
  then obtain c em nm e a where a: "assigned_code s c code = Inr (e, a)"
    and run: "bindP uuid4 (\<lambda>new. bindP (save_discount_code e new) (\<lambda>d.
       let a' = reassigned (usr_id u) em nm a in
       thenP (save_attachment a') (thenP (emit (SendCodeEmails [ca_id a])) (ret (OneCode d (Some a')))))) s = (Inr (OneCode d x), t)"
    unfolding reassign_code_def
    by (auto elim!: for_contract_OneCode simp: gets_bind ret_def split: sum.splits option.splits)
  have "e \<in> set (discounts s)" "disc_code e = code" using contract_codeD [OF assigned_codeD(5) [OF a]] by simp_all
  then show ?thesis using new_code_ends_old [OF ok _ _ run] unfolding Let_def
    by (blast intro: fresh_intro)
qed

lemma gone_attach:
  assumes "gone code s"
  shows "attach_contract u code s = (Inr (404, None), s)"
proof -
  have "get_valid_discount s code = Inl ObjectDoesNotExist" "\<not> code_of_full_contract s code"
    using assms by (auto simp: gone_def get_valid_discount_def get_one_def code_of_full_contract_def list_ex_iff
        filter_empty_conv split: list.splits dest!: arg_cong [where f = set])
  then show ?thesis by (simp add: attach_contract_def gets_bind ret_def)
qed

lemma withdrawn_is_worthless:
  "withdraws code s t \<Longrightarrow> codes_distinct s \<Longrightarrow> code_step\<^sup>*\<^sup>* t t' \<Longrightarrow> attach_contract u code t' = (Inr (404, None), t')"
  by (blast intro: gone_attach gone_new withdrawn_gone life_new)

section \<open>Reports of the mail service in any order\<close>

definition marked_row :: "mailgun_event \<Rightarrow> ContractAttachment \<Rightarrow> ContractAttachment" where
  "marked_row e a = (if (case ca_email_status_timestamp a of None \<Rightarrow> False | Some t \<Rightarrow> t \<ge> me_event_timestamp e) then a
     else a\<lparr>ca_email_status := me_event e, ca_email_status_timestamp := Some (me_event_timestamp e)\<rparr>)"

definition about_row :: "mailgun_event \<Rightarrow> ContractAttachment \<Rightarrow> bool" where
  "about_row e a \<longleftrightarrow> ca_email_message_id a = me_message_id e"

definition marked_rows :: "mailgun_event \<Rightarrow> ContractAttachment list \<Rightarrow> ContractAttachment list" where
  "marked_rows e xs = (if length (filter (about_row e) xs) = 1 then update_rows (about_row e) (marked_row e) xs else xs)"

lemma marked_row_same [simp]: "ca_email_message_id (marked_row e a) = ca_email_message_id a" "ca_id (marked_row e a) = ca_id a"
  by (simp_all add: marked_row_def)

lemma record_event_state:
  assumes ok: "attachments_ok s"
  shows "snd (record_event e s) = s\<lparr>attachments := marked_rows e (attachments s)\<rparr>"
proof (cases "filter (about_row e) (attachments s)" rule: list.exhaust [case_names none some])
  case none
  then show ?thesis
    by (simp add: record_event_def marked_rows_def get_one_def raise_def about_row_def [abs_def])
next
  case (some a more)
  show ?thesis
  proof (cases more)
    case Nil
    have only: "about_row e x \<longleftrightarrow> x = a" if "x \<in> set (attachments s)" for x
      using arg_cong [OF some, of set] that Nil by auto
    have a: "a \<in> set (attachments s)" using arg_cong [OF some, of set] by auto
    have "update_rows (about_row e) (marked_row e) (attachments s)
        = update_rows (\<lambda>x. ca_id x = ca_id a) (\<lambda>_. marked_row e a) (attachments s)"
      unfolding update_rows_def using only row_of_id [OF ok _ a] by (auto intro!: map_cong)
    moreover have "update_rows (\<lambda>x. ca_id x = ca_id a) (\<lambda>_. a) (attachments s) = attachments s"
      unfolding update_rows_def by (intro map_idI) (metis (full_types) row_of_id [OF ok _ a])
    ultimately show ?thesis using some Nil
      by (auto simp: record_event_def marked_rows_def get_one_def about_row_def [abs_def] marked_row_def Let_def ret_def
          save_attachment_def modify_thenP)
  qed (use some in \<open>simp add: record_event_def marked_rows_def get_one_def raise_def about_row_def [abs_def]\<close>)
qed

lemma filter_marked_rows: "length (filter (about_row e) (marked_rows f xs)) = length (filter (about_row e) xs)"
  unfolding marked_rows_def update_rows_def about_row_def
  by (auto simp: filter_map comp_def intro!: arg_cong [where f = length] filter_cong)

lemma marked_row_commute:
  "me_event_timestamp e \<noteq> me_event_timestamp f \<Longrightarrow> marked_row e (marked_row f a) = marked_row f (marked_row e a)"
  by (auto simp: marked_row_def split: option.splits)

lemma marked_rows_commute:
  assumes "me_event_timestamp e \<noteq> me_event_timestamp f"
  shows "marked_rows e (marked_rows f xs) = marked_rows f (marked_rows e xs)"
proof -
  have "map (\<lambda>x. if about_row e x then marked_row e x else x) (map (\<lambda>x. if about_row f x then marked_row f x else x) xs)
      = map (\<lambda>x. if about_row f x then marked_row f x else x) (map (\<lambda>x. if about_row e x then marked_row e x else x) xs)"
    using marked_row_commute [OF assms] by (auto simp: about_row_def)
  then show ?thesis using filter_marked_rows [of e f xs] filter_marked_rows [of f e xs]
    by (auto simp: marked_rows_def update_rows_def)
qed

lemma attachments_ok_marked: "attachments_ok s \<Longrightarrow> attachments_ok (s\<lparr>attachments := marked_rows e (attachments s)\<rparr>)"
  using attachments_ok_update [of s "about_row e" "marked_row e"] by (simp add: marked_rows_def)

lemma reports_commute:
  assumes ok: "attachments_ok s"
    and e: "relevant_event hmac cf p = Some e" and f: "relevant_event hmac cf q = Some f"
    and t: "me_event_timestamp e \<noteq> me_event_timestamp f"
  shows "snd (process_mailgun_webhook hmac cf q (snd (process_mailgun_webhook hmac cf p s)))
    = snd (process_mailgun_webhook hmac cf p (snd (process_mailgun_webhook hmac cf q s)))"
  using ok e f attachments_ok_marked [OF ok] marked_rows_commute [OF t, of "attachments s"]
  by (simp add: process_mailgun_webhook_def record_event_state)

end
