(* ===== verification/CourseRuns.thy ===== *)
theory CourseRuns
  imports Courseware
begin

text \<open>
  Course runs and their counterparts in Open edX (\<open>src/courses/api.py\<close>, \<open>src/courses/retirement.py\<close>,
  \<open>src/openedx/api.py\<close>): saving a run under its constraints, the synchronisation of schedules and
  modes, re-runs and clones, the import of a run, and the retirement of a run.

  Open edX is the parameter \<open>run_client\<close>; the requests that change something there are kept in
  \<open>studio_log\<close>, on which the answers depend.  The signals that tell HubSpot and the cache of the
  pages about a saved run or product are left out.
\<close>

section \<open>Rows of course runs\<close>

text \<open>A run that is saved is saved with all columns; the enrollment modes are a relation of their own.  Rows
  that refer to the run see it.\<close>

definition replace_run :: "CourseRun \<Rightarrow> CourseRun \<Rightarrow> CourseRun" where
  "replace_run r x = (if run_id x = run_id r then r\<lparr>run_enrollment_modes := run_enrollment_modes x\<rparr> else x)"

definition map_runs :: "(CourseRun \<Rightarrow> CourseRun) \<Rightarrow> db \<Rightarrow> db" where
  "map_runs f s = s\<lparr>course_runs := map f (course_runs s),
     run_enrollments := map (\<lambda>e. e\<lparr>cre_run := f (cre_run e)\<rparr>) (run_enrollments s),
     run_grades := map (\<lambda>g. g\<lparr>crg_run := f (crg_run g)\<rparr>) (run_grades s),
     run_certificates := map (\<lambda>c. c\<lparr>crc_run := f (crc_run c)\<rparr>) (run_certificates s)\<rparr>"

text \<open>The unique constraints: the courseware id, one primary language in a group, one run per variant
  in a group.\<close>

definition run_group :: "CourseRun \<Rightarrow> nat \<times> string \<times> bool \<times> nat option" where
  "run_group r = (crs_id (run_course r), run_tag r, run_is_source_run r, map_option ctr_id (run_b2b_contract r))"

definition run_variant :: "CourseRun \<Rightarrow> string \<times> string \<times> string" where
  "run_variant r = (run_language r, run_variant_length r, run_variant_industry r)"

definition runs_clash :: "CourseRun \<Rightarrow> CourseRun \<Rightarrow> bool" where
  "runs_clash r x \<longleftrightarrow> run_courseware_id x = run_courseware_id r
     \<or> (run_is_primary_language r \<and> run_is_primary_language x \<and> run_group x = run_group r)
     \<or> (run_language r \<noteq> [] \<and> run_variant x = run_variant r \<and> run_group x = run_group r)"

definition run_refused :: "CourseRun \<Rightarrow> db \<Rightarrow> bool" where
  "run_refused r s \<longleftrightarrow> exists_row (\<lambda>x. run_id x \<noteq> run_id r \<and> runs_clash r x) (course_runs s)"

text \<open>\<open>lang\<close> tells the languages that \<open>clean_language\<close> knows.\<close>

definition save_run :: "(string \<Rightarrow> bool) \<Rightarrow> CourseRun \<Rightarrow> unit op" where
  "save_run lang r =
     bindP (liftE (\<lambda>_. clean_course_run lang r)) (\<lambda>_.
     bindP (gets (run_refused r)) (\<lambda>refused.
     if refused then raise IntegrityError else modify (map_runs (replace_run r))))"

definition create_run :: "(string \<Rightarrow> bool) \<Rightarrow> CourseRun \<Rightarrow> CourseRun op" where
  "create_run lang r =
     bindP (liftE (\<lambda>_. clean_course_run lang r)) (\<lambda>_.
     bindP fresh_id (\<lambda>i.
     let r = r\<lparr>run_id := i\<rparr> in
     bindP (gets (run_refused r)) (\<lambda>refused.
     if refused then raise IntegrityError
     else thenP (modify (\<lambda>s. s\<lparr>course_runs := course_runs s @ [r]\<rparr>)) (ret r))))"

definition add_modes :: "nat \<Rightarrow> string list \<Rightarrow> unit op" where
  "add_modes i slugs = modify (map_runs (\<lambda>x. if run_id x = i
     then x\<lparr>run_enrollment_modes := run_enrollment_modes x @ filter (\<lambda>m. m \<notin> set (run_enrollment_modes x)) (remdups slugs)\<rparr>
     else x))"

text \<open>A run with the defaults of the model.\<close>

definition new_run :: "Course \<Rightarrow> string \<Rightarrow> string \<Rightarrow> CourseRun" where
  "new_run c key tag = \<lparr>run_id = 0, run_course = c, run_title = [], run_courseware_id = key, run_tag = tag,
     run_start_date = None, run_end_date = None, run_enrollment_start = None, run_enrollment_end = None,
     run_expiration_date = None, run_upgrade_deadline = None, run_live = False, run_is_self_paced = False,
     run_enrollment_modes = [], run_b2b_contract = None, run_is_source_run = False, run_is_primary_language = False,
     run_language = ''en'', run_certificate_available_date = None, run_variant_industry = [], run_variant_length = []\<rparr>"

section \<open>Open edX\<close>

record edx_detail =
  ed_course_id :: string
  ed_name :: string
  ed_start :: "int option"
  ed_end :: "int option"
  ed_enrollment_start :: "int option"
  ed_enrollment_end :: "int option"
  ed_is_self_paced :: bool
  ed_certificate_available_date :: "int option"

record edx_mode =
  xm_slug :: string
  xm_display_name :: string
  xm_expiration :: "int option"

text \<open>The answers, given the requests so far: to a request that changes something (a clone tells whether
  it succeeded), a run in Studio, the details of a course, of a list of courses (and how the list breaks off), the
  modes of a run.\<close>

record run_client =
  rc_answer :: "studio_request list \<Rightarrow> studio_request \<Rightarrow> exn + bool"
  rc_course :: "studio_request list \<Rightarrow> string \<Rightarrow> exn + edx_detail"
  rc_detail :: "studio_request list \<Rightarrow> string \<Rightarrow> exn + edx_detail"
  rc_courses :: "studio_request list \<Rightarrow> string list \<Rightarrow> edx_detail list \<times> exn option"
  rc_modes :: "studio_request list \<Rightarrow> string \<Rightarrow> exn + edx_mode list"

definition studio :: "run_client \<Rightarrow> studio_request \<Rightarrow> bool op" where
  "studio cl q = (\<lambda>s. (rc_answer cl (studio_log s) q, s\<lparr>studio_log := studio_log s @ [q]\<rparr>))"

definition get_edx_course :: "run_client \<Rightarrow> string \<Rightarrow> edx_detail op" where
  "get_edx_course cl k = liftE (\<lambda>s. rc_course cl (studio_log s) k)"

definition get_edx_course_modes :: "run_client \<Rightarrow> string \<Rightarrow> edx_mode list op" where
  "get_edx_course_modes cl k = liftE (\<lambda>s. rc_modes cl (studio_log s) k)"

section \<open>Synchronising schedules\<close>

text \<open>\<open>re.match\<close> with \<open>COURSE_KEY_PATTERN\<close>: three parts that are not empty.\<close>

fun split_plus :: "string \<Rightarrow> string list" where
  "split_plus [] = [[]]"
| "split_plus (c # cs) = (if c = CHR ''+'' then [] # split_plus cs
     else (case split_plus cs of [] \<Rightarrow> [[c]] | t # ts \<Rightarrow> (c # t) # ts))"

definition is_course_key :: "string \<Rightarrow> bool" where
  "is_course_key k \<longleftrightarrow> starts_with ''course-v1:'' k
     \<and> (case split_plus (drop 10 k) of [a, b, c] \<Rightarrow> a \<noteq> [] \<and> b \<noteq> [] \<and> c \<noteq> [] | _ \<Rightarrow> False)"

definition filter_valid_course_keys :: "CourseRun list \<Rightarrow> (string \<times> CourseRun) list" where
  "filter_valid_course_keys rs =
     fold (\<lambda>r d. if is_course_key (run_courseware_id r) then AList.update (run_courseware_id r) r d else d) rs []"

definition incoming_values :: "edx_detail \<Rightarrow> CourseRun \<Rightarrow> CourseRun" where
  "incoming_values d r = r\<lparr>run_title := ed_name d, run_start_date := ed_start d, run_end_date := ed_end d,
     run_enrollment_start := ed_enrollment_start d, run_enrollment_end := ed_enrollment_end d,
     run_is_self_paced := ed_is_self_paced d,
     run_certificate_available_date := (case ed_certificate_available_date d of None \<Rightarrow> ed_end d | Some t \<Rightarrow> Some t)\<rparr>"

text \<open>The run object as the synchronisation leaves it, saved or not.\<close>

definition synced_run :: "edx_detail \<Rightarrow> CourseRun \<Rightarrow> CourseRun" where
  "synced_run d r =
     (if incoming_values d r = r then r
      else incoming_values d (if run_start_date r \<noteq> ed_start d \<or> run_end_date r \<noteq> ed_end d
                              then r\<lparr>run_expiration_date := None\<rparr> else r))"

definition sync_course_run_from_edx :: "(string \<Rightarrow> bool) \<Rightarrow> CourseRun \<Rightarrow> edx_detail \<Rightarrow> bool op" where
  "sync_course_run_from_edx lang r d =
     (if incoming_values d r = r then ret False else thenP (save_run lang (synced_run d r)) (ret True))"

text \<open>The objects by their courseware id, and the numbers of runs that changed and that failed.\<close>

definition sync_detail ::
  "(string \<Rightarrow> bool) \<Rightarrow> (string \<times> CourseRun) list \<times> nat \<times> nat \<Rightarrow> edx_detail \<Rightarrow> ((string \<times> CourseRun) list \<times> nat \<times> nat) op" where
  "sync_detail lang st d =
     (case st of (objs, ok, failed) \<Rightarrow>
       (case map_of objs (ed_course_id d) of
          None \<Rightarrow> ret st
        | Some r \<Rightarrow>
            let objs = AList.update (ed_course_id d) (synced_run d r) objs in
            catchP (bindP (sync_course_run_from_edx lang r d) (\<lambda>changed. ret (objs, if changed then Suc ok else ok, failed)))
              (\<lambda>_. ret (objs, ok, Suc failed))))"

definition sync_course_runs :: "run_client \<Rightarrow> (string \<Rightarrow> bool) \<Rightarrow> CourseRun list \<Rightarrow> (nat \<times> nat) op" where
  "sync_course_runs cl lang rs =
     (let objs = filter_valid_course_keys rs in
      if objs = [] then ret (0, length rs)
      else bindP (gets (\<lambda>s. rc_courses cl (studio_log s) (map fst objs))) (\<lambda>(details, broken).
        bindP (foldP (sync_detail lang) (objs, 0, 0) details) (\<lambda>(_, ok, failed).
          ret (ok, if broken = None then failed else Suc failed))))"

text \<open>The task synchronises live runs that are not expired.\<close>

definition sync_courseruns_data :: "run_client \<Rightarrow> (string \<Rightarrow> bool) \<Rightarrow> unit op" where
  "sync_courseruns_data cl lang =
     bindP (gets (\<lambda>s. filter (\<lambda>r. (run_expiration_date r = None \<or> q_gt (run_expiration_date r) (now s))
        \<and> \<not> starts_with ''fake-'' (run_tag r)) (live_runs True (usable_runs s)))) (\<lambda>rs.
     thenP (sync_course_runs cl lang rs) (ret ()))"

section \<open>Modes\<close>

definition get_or_create_mode :: "string \<Rightarrow> string \<Rightarrow> bool \<Rightarrow> bool op" where
  "get_or_create_mode slug name pays =
     bindP (gets (\<lambda>s. exists_row (\<lambda>m. em_slug m = slug) (enrollment_modes s))) (\<lambda>found.
     if found then ret False
     else thenP (modify (\<lambda>s. s\<lparr>enrollment_modes := enrollment_modes s
         @ [\<lparr>em_slug = slug, em_display_name = (if name = [] then slug else name), em_requires_payment = pays\<rparr>]\<rparr>))
       (ret True))"

definition pull_course_modes :: "run_client \<Rightarrow> (string \<Rightarrow> bool) \<Rightarrow> CourseRun \<Rightarrow> (edx_mode list \<times> nat) op" where
  "pull_course_modes cl lang r =
     bindP (get_edx_course_modes cl (run_courseware_id r)) (\<lambda>modes.
     bindP (foldP (\<lambda>n m.
         bindP (get_or_create_mode (xm_slug m) (xm_display_name m) (xm_slug m = verified_mode)) (\<lambda>created.
         thenP (add_modes (run_id r) [xm_slug m]) (ret (if created then Suc n else n)))) 0 modes) (\<lambda>n.
     thenP (save_run lang r) (ret (modes, n))))"

text \<open>Which of the two modes were created.\<close>

definition check_course_modes :: "run_client \<Rightarrow> (string \<Rightarrow> bool) \<Rightarrow> CourseRun \<Rightarrow> (bool \<times> bool) op" where
  "check_course_modes cl lang r =
     bindP (pull_course_modes cl lang r) (\<lambda>(modes, _).
     thenP (bindP (get_or_create_mode audit_mode audit_mode False) (\<lambda>_. ret ()))
     (thenP (bindP (get_or_create_mode verified_mode verified_mode True) (\<lambda>_. ret ()))
     (let no_audit = audit_mode \<notin> xm_slug ` set modes; no_verified = verified_mode \<notin> xm_slug ` set modes in
      thenP (whenP no_audit (bindP (studio cl (CreateMode (run_courseware_id r) audit_mode ''Audit'' 0 None)) (\<lambda>_.
          add_modes (run_id r) [audit_mode])))
      (thenP (whenP no_verified (bindP (studio cl (CreateMode (run_courseware_id r) verified_mode ''Verified'' 10
            (run_upgrade_deadline r))) (\<lambda>_. add_modes (run_id r) [verified_mode])))
      (thenP (whenP (no_audit \<and> no_verified) (save_run lang r)) (ret (no_audit, no_verified)))))))"

text \<open>The numbers of changed and failed runs; \<open>e.response.status_code\<close> fails where there is no response.\<close>

definition mode_failed :: "exn \<Rightarrow> edx_mode list option op" where
  "mode_failed e = (case e of HTTPError None \<Rightarrow> raise PyAttributeError | _ \<Rightarrow> ret None)"

definition sync_deadline ::
  "(string \<Rightarrow> bool) \<Rightarrow> CourseRun \<times> nat \<times> nat \<Rightarrow> edx_mode \<Rightarrow> (CourseRun \<times> nat \<times> nat) op" where
  "sync_deadline lang st m =
     (case st of (r, ok, failed) \<Rightarrow>
        if xm_slug m = verified_mode \<and> run_upgrade_deadline r \<noteq> xm_expiration m
        then let r = r\<lparr>run_upgrade_deadline := xm_expiration m\<rparr> in
          catchP (thenP (save_run lang r) (ret (r, Suc ok, failed))) (\<lambda>_. ret (r, ok, Suc failed))
        else ret st)"

definition sync_course_mode :: "run_client \<Rightarrow> (string \<Rightarrow> bool) \<Rightarrow> CourseRun list \<Rightarrow> (nat \<times> nat) op" where
  "sync_course_mode cl lang rs =
     foldP (\<lambda>st r. case st of (ok, failed) \<Rightarrow>
       bindP (catchP (bindP (pull_course_modes cl lang r) (\<lambda>(modes, _). ret (Some modes))) mode_failed) (\<lambda>pulled.
       case pulled of
         None \<Rightarrow> ret (ok, Suc failed)
       | Some modes \<Rightarrow> bindP (foldP (sync_deadline lang) (r, ok, failed) modes) (\<lambda>(_, ok, failed). ret (ok, failed))))
     (0, 0) rs"

section \<open>Clones\<close>

definition fix_cloned_run_data :: "run_client \<Rightarrow> CourseRun \<Rightarrow> bool op" where
  "fix_cloned_run_data cl r =
     (let dated = run_start_date r \<noteq> None \<and> run_end_date r \<noteq> None;
          enrolling = dated \<and> run_enrollment_start r \<noteq> None \<and> run_enrollment_end r \<noteq> None
      in studio cl (UpdateRun (run_courseware_id r) (run_title r) (run_is_self_paced r)
           (if dated then run_start_date r else None) (if dated then run_end_date r else None)
           (if enrolling then run_enrollment_start r else None) (if enrolling then run_enrollment_end r else None)))"

text \<open>The modes of the run that Open edX does not have yet.\<close>

definition modes_of :: "db \<Rightarrow> CourseRun \<Rightarrow> string list" where
  "modes_of s r = (case first (filter (\<lambda>x. run_id x = run_id r) (course_runs s)) of
     None \<Rightarrow> [] | Some x \<Rightarrow> run_enrollment_modes x)"

definition push_edx_modes_from_run :: "run_client \<Rightarrow> CourseRun \<Rightarrow> nat op" where
  "push_edx_modes_from_run cl r =
     bindP (get_edx_course_modes cl (run_courseware_id r)) (\<lambda>existing.
     bindP (gets (\<lambda>s. filter (\<lambda>m. em_slug m \<in> set (modes_of s r)) (enrollment_modes s))) (\<lambda>modes.
     foldP (\<lambda>n m. if em_slug m \<in> xm_slug ` set existing then ret n
       else bindP (studio cl (CreateMode (run_courseware_id r) (em_slug m) (em_display_name m)
              (if em_requires_payment m then 1 else 0) None)) (\<lambda>_. ret (Suc n))) 0 modes))"

definition clone_edx_course :: "run_client \<Rightarrow> string \<Rightarrow> string \<Rightarrow> bool op" where
  "clone_edx_course cl base new =
     bindP (studio cl (CloneRun base new)) (\<lambda>ok.
     if ok then bindP (get_edx_course cl new) (\<lambda>_. ret True) else ret False)"

text \<open>The callbacks of \<open>on_commit\<close>: deferred to the end of a transaction, run at once where there is none.\<close>

definition after_clone :: "run_client \<Rightarrow> CourseRun \<Rightarrow> unit op" where
  "after_clone cl r =
     bindP (gets in_atomic) (\<lambda>deferred.
     if deferred then thenP (emit_on_commit (FixClonedRun (run_id r))) (emit_on_commit (PushEdxModes (run_id r)))
     else bindP (fix_cloned_run_data cl r) (\<lambda>_. bindP (push_edx_modes_from_run cl r) (\<lambda>_. ret ())))"

text \<open>Only an error of the course run API means that the target does not exist yet.\<close>

definition process_course_run_clone :: "run_client \<Rightarrow> CourseRun \<Rightarrow> string \<Rightarrow> unit op" where
  "process_course_run_clone cl r base =
     bindP (get_edx_course cl base) (\<lambda>_.
     bindP (catchP (bindP (get_edx_course cl (run_courseware_id r)) (\<lambda>_. ret True))
        (\<lambda>e. if e = CourseRunAPIError then ret False else raise e)) (\<lambda>present.
     if present then raise PyValueError
     else bindP (clone_edx_course cl base (run_courseware_id r)) (\<lambda>cloned.
       if \<not> cloned then raise PyValueError
       else after_clone cl r)))"

text \<open>The keys of Open edX (\<open>opaque_keys\<close>): what \<open>CourseKey.from_string\<close> reads, if the key is valid.\<close>

type_synonym key_parser = "string \<Rightarrow> (string \<times> string \<times> string) option"

definition key_text :: "string \<times> string \<times> string \<Rightarrow> string" where
  "key_text k = (case k of (org, course, run) \<Rightarrow> ''course-v1:'' @ org @ ''+'' @ course @ ''+'' @ run)"

definition course_key :: "key_parser \<Rightarrow> string \<Rightarrow> exn + string \<times> string \<times> string" where
  "course_key ck t = (case ck t of None \<Rightarrow> Inl InvalidKeyError | Some k \<Rightarrow> Inr k)"

definition rerun_key :: "key_parser \<Rightarrow> string \<Rightarrow> string \<Rightarrow> string option \<Rightarrow> exn + string" where
  "rerun_key ck base tag organization =
     bindE (course_key ck base) (\<lambda>(org, course, _).
     bindE (course_key ck (key_text (org, course, tag))) (\<lambda>(org, course, run).
     case organization of
       None \<Rightarrow> Inr (key_text (org, course, run))
     | Some o1 \<Rightarrow> if o1 = [] then Inr (key_text (org, course, run))
         else bindE (course_key ck (key_text (o1, course, run))) (\<lambda>k. Inr (key_text k))))"

record rerun_options =
  ro_courseware_id :: "string option"
  ro_organization :: "string option"
  ro_title :: "string option"
  ro_start_date :: "int option"
  ro_end_date :: "int option"
  ro_enrollment_start :: "int option"
  ro_enrollment_end :: "int option"
  ro_is_self_paced :: "bool option"
  ro_live :: "bool option"
  ro_enrollment_modes :: "string list"

definition given_or :: "'a option \<Rightarrow> 'a option \<Rightarrow> 'a option" where
  "given_or x y = (case x of None \<Rightarrow> y | Some z \<Rightarrow> Some z)"

text \<open>An atomic block that is undone does not undo what Open edX was sent.\<close>

definition atomic_but_sent :: "'a op \<Rightarrow> 'a op" where
  "atomic_but_sent m = (\<lambda>s. case atomicP m s of (r, t) \<Rightarrow> (r, t\<lparr>studio_log := studio_log (snd (m (s\<lparr>in_atomic := True\<rparr>)))\<rparr>))"

definition rerun_course_run ::
  "run_client \<Rightarrow> (string \<Rightarrow> bool) \<Rightarrow> key_parser \<Rightarrow> CourseRun \<Rightarrow> string \<Rightarrow> rerun_options \<Rightarrow> CourseRun op" where
  "rerun_course_run cl lang ck base tag opts =
     bindP (liftE (\<lambda>_. if has_text (ro_courseware_id opts) then Inr (the (ro_courseware_id opts))
                        else rerun_key ck (run_courseware_id base) tag (ro_organization opts))) (\<lambda>key.
     atomic_but_sent (
       bindP (create_run lang ((new_run (run_course base) key tag)\<lparr>
           run_title := (if has_text (ro_title opts) then the (ro_title opts) else run_title base),
           run_start_date := given_or (ro_start_date opts) (run_start_date base),
           run_end_date := given_or (ro_end_date opts) (run_end_date base),
           run_enrollment_start := given_or (ro_enrollment_start opts) (run_enrollment_start base),
           run_enrollment_end := given_or (ro_enrollment_end opts) (run_enrollment_end base),
           run_is_self_paced := (case ro_is_self_paced opts of None \<Rightarrow> run_is_self_paced base | Some b \<Rightarrow> b),
           run_live := (case ro_live opts of None \<Rightarrow> run_live base | Some b \<Rightarrow> b)\<rparr>)) (\<lambda>r.
       bindP (gets (\<lambda>s. modes_of s base)) (\<lambda>modes.
       thenP (add_modes (run_id r) (if ro_enrollment_modes opts \<noteq> [] then ro_enrollment_modes opts else modes))
       (thenP (process_course_run_clone cl r (run_courseware_id base)) (ret r))))))"

text \<open>The task that clones a run, with its retries: it is given up when they are used up.\<close>

definition clone_retried :: "exn \<Rightarrow> bool" where
  "clone_retried e = (case e of CourseRunAPIError \<Rightarrow> True | HTTPError _ \<Rightarrow> True | OpenEdXOAuth2Error \<Rightarrow> True
     | ConnectionError \<Rightarrow> True | _ \<Rightarrow> False)"

datatype task_result = TaskDone | TaskRetry | TaskFailed exn

definition clone_courserun :: "run_client \<Rightarrow> nat \<Rightarrow> nat \<Rightarrow> nat \<Rightarrow> string \<Rightarrow> task_result op" where
  "clone_courserun cl max_retries retries target base =
     bindP (liftE (\<lambda>s. get_one (filter (\<lambda>r. run_id r = target) (course_runs s)))) (\<lambda>r.
     catchP (thenP (process_course_run_clone cl r base) (ret TaskDone))
       (\<lambda>e. if \<not> clone_retried e then raise e
            else if retries \<ge> max_retries then ret (TaskFailed e) else ret TaskRetry))"

section \<open>Importing a run\<close>

text \<open>\<open>country t\<close> is the code of a country given by its name or code.  Departments and the CMS page are
  left out.\<close>

definition add_blocked_countries :: "(string \<Rightarrow> string option) \<Rightarrow> nat \<Rightarrow> string list \<Rightarrow> unit op" where
  "add_blocked_countries country i names = modify (\<lambda>s.
     let codes = remdups (concat (map (\<lambda>t. case country t of None \<Rightarrow> [] | Some c \<Rightarrow> [c]) names));
         f = (\<lambda>c. if crs_id c = i then c\<lparr>crs_blocked_countries := crs_blocked_countries c
                    @ filter (\<lambda>x. x \<notin> set (crs_blocked_countries c)) codes\<rparr> else c)
     in map_runs (\<lambda>r. r\<lparr>run_course := f (run_course r)\<rparr>) (s\<lparr>courses := map f (courses s)\<rparr>))"

definition import_course :: "bool \<Rightarrow> string option \<Rightarrow> string \<Rightarrow> string \<Rightarrow> Course op" where
  "import_course live specific root_id title =
     (if has_text specific
      then liftE (\<lambda>s. get_one (filter (\<lambda>c. crs_readable_id c = the specific) (courses s)))
      else bindP (gets (\<lambda>s. first (filter (\<lambda>c. crs_readable_id c = root_id) (courses s)))) (\<lambda>found.
        case found of
          Some c \<Rightarrow> ret c
        | None \<Rightarrow> bindP fresh_id (\<lambda>i.
            let c = \<lparr>crs_id = i, crs_readable_id = root_id, crs_title = title, crs_live = live, crs_blocked_countries = []\<rparr>
            in thenP (modify (\<lambda>s. s\<lparr>courses := courses s @ [c]\<rparr>)) (ret c))))"

text \<open>\<open>update_or_create\<close> looks at active products only; another product of the run is refused.\<close>

definition import_product :: "CourseRun \<Rightarrow> rat \<Rightarrow> unit op" where
  "import_product r price = (\<lambda>s.
     let sells = (\<lambda>p. prod_content_type p = CT_CourseRun \<and> prod_object_id p = run_id r);
         f = (\<lambda>p. if sells p \<and> prod_is_active p then p\<lparr>prod_price := price, prod_description := run_courseware_id r\<rparr> else p)
     in if exists_row (\<lambda>p. sells p \<and> prod_is_active p) (products s)
        then (Inr (), s\<lparr>products := map f (products s), basket_items := map (\<lambda>i. i\<lparr>bi_product := f (bi_product i)\<rparr>) (basket_items s)\<rparr>)
        else if exists_row sells (products s) then (Inl IntegrityError, s)
        else (Inr (), s\<lparr>products := products s @ [\<lparr>prod_id = next_id s, prod_content_type = CT_CourseRun,
               prod_object_id = run_id r, prod_price = price, prod_description = run_courseware_id r, prod_is_active = True\<rparr>],
             next_id := Suc (next_id s)\<rparr>))"

record import_options =
  io_live :: bool
  io_use_specific_course :: "string option"
  io_block_countries :: "string list"
  io_price :: "rat option"
  io_is_source_run :: bool
  io_language :: string
  io_is_primary_language :: bool
  io_variant_length :: string
  io_variant_industry :: string

text \<open>\<open>None\<close> stands for \<open>False\<close>: the run is known already.\<close>

definition import_courserun_from_edx ::
  "run_client \<Rightarrow> (string \<Rightarrow> bool) \<Rightarrow> key_parser \<Rightarrow> (string \<Rightarrow> string option) \<Rightarrow> string \<Rightarrow> import_options \<Rightarrow> CourseRun option op" where
  "import_courserun_from_edx cl lang ck country key opts =
     bindP (gets (\<lambda>s. exists_row (\<lambda>r. run_courseware_id r = key) (course_runs s))) (\<lambda>known.
     if known then ret None
     else bindP (liftE (\<lambda>_. course_key ck key)) (\<lambda>(org, course, _).
       bindP (liftE (\<lambda>s. rc_detail cl (studio_log s) key)) (\<lambda>d.
       bindP (liftE (\<lambda>_. course_key ck (ed_course_id d))) (\<lambda>(_, _, tag).
       bindP (import_course (io_live opts) (io_use_specific_course opts) (''course-v1:'' @ org @ ''+'' @ course) (ed_name d)) (\<lambda>c.
       bindP (create_run lang ((new_run c (ed_course_id d) tag)\<lparr>
           run_start_date := ed_start d, run_end_date := ed_end d, run_enrollment_start := ed_enrollment_start d,
           run_enrollment_end := ed_enrollment_end d, run_title := ed_name d, run_live := io_live opts,
           run_is_self_paced := ed_is_self_paced d, run_is_source_run := io_is_source_run opts,
           run_language := io_language opts, run_is_primary_language := io_is_primary_language opts,
           run_variant_industry := io_variant_industry opts, run_variant_length := io_variant_length opts\<rparr>)) (\<lambda>r.
       bindP (pull_course_modes cl lang r) (\<lambda>_.
       thenP (case io_price opts of None \<Rightarrow> ret () | Some p \<Rightarrow> if p = 0 then ret () else import_product r p)
       (thenP (whenP (io_block_countries opts \<noteq> []) (add_blocked_countries country (crs_id c) (io_block_countries opts)))
         (ret (Some r))))))))))"

section \<open>Resolving an id\<close>

datatype courseware_object = IsProgram Program | IsRun CourseRun | IsCourse Course

definition is_program_text_id :: "string \<Rightarrow> bool" where
  "is_program_text_id t \<longleftrightarrow> starts_with ''program-'' t"

definition resolve_courseware_object_from_id :: "db \<Rightarrow> string \<Rightarrow> courseware_object option" where
  "resolve_courseware_object_from_id s t =
     (if is_program_text_id t then map_option IsProgram (first (filter (\<lambda>p. prg_readable_id p = t) (programs s)))
      else case first (filter (\<lambda>r. run_courseware_id r = t) (usable_runs s)) of
             Some r \<Rightarrow> Some (IsRun r)
           | None \<Rightarrow> map_option IsCourse (first (filter (\<lambda>c. crs_readable_id c = t) (courses s))))"

section \<open>Retiring a run\<close>

definition RETIREMENT_DATE_OFFSET :: int where
  "RETIREMENT_DATE_OFFSET = 24 * 60 * 60"

definition get_run_products :: "db \<Rightarrow> CourseRun \<Rightarrow> Product list" where
  "get_run_products s r = filter (\<lambda>p. prod_content_type p = CT_CourseRun \<and> prod_object_id p = run_id r) (products s)"

definition switch_off :: "nat set \<Rightarrow> Product \<Rightarrow> Product" where
  "switch_off ids p = (if prod_id p \<in> ids then p\<lparr>prod_is_active := False\<rparr> else p)"

definition deactivate_run_products :: "CourseRun \<Rightarrow> Product list op" where
  "deactivate_run_products r =
     bindP (gets (\<lambda>s. filter prod_is_active (get_run_products s r))) (\<lambda>ps.
     thenP (modify (\<lambda>s. s\<lparr>products := map (switch_off (prod_id ` set ps)) (products s),
         basket_items := map (\<lambda>i. i\<lparr>bi_product := switch_off (prod_id ` set ps) (bi_product i)\<rparr>) (basket_items s)\<rparr>))
       (ret (map (\<lambda>p. p\<lparr>prod_is_active := False\<rparr>) ps)))"

record run_dates =
  rd_start :: int
  rd_end :: int
  rd_enrollment_start :: int
  rd_enrollment_end :: int

definition compute_retirement_dates :: "int \<Rightarrow> CourseRun \<Rightarrow> run_dates" where
  "compute_retirement_dates t r =
     (let cutoff = t - RETIREMENT_DATE_OFFSET;
          start = (if q_lt (run_start_date r) cutoff then the (run_start_date r) else cutoff - RETIREMENT_DATE_OFFSET);
          enrollment_start = (if q_lt (run_enrollment_start r) start then the (run_enrollment_start r) else start)
      in \<lparr>rd_start = start, rd_end = cutoff, rd_enrollment_start = enrollment_start, rd_enrollment_end = cutoff\<rparr>)"

text \<open>The schedule that is sent: \<open>dates\<close>, or that of the run; whether the enrollment dates were sent.\<close>

definition push_run_dates_to_edx :: "run_client \<Rightarrow> CourseRun \<Rightarrow> run_dates option \<Rightarrow> bool op" where
  "push_run_dates_to_edx cl r dates =
     (let (b, e, eb, ee) = (case dates of
            None \<Rightarrow> (run_start_date r, run_end_date r, run_enrollment_start r, run_enrollment_end r)
          | Some d \<Rightarrow> (Some (rd_start d), Some (rd_end d), Some (rd_enrollment_start d), Some (rd_enrollment_end d)));
          complete = (b \<noteq> None \<and> e \<noteq> None); enrollment_complete = (complete \<and> eb \<noteq> None \<and> ee \<noteq> None)
      in bindP (studio cl (UpdateRun (run_courseware_id r) (run_title r) (run_is_self_paced r)
             (if complete then b else None) (if complete then e else None)
             (if enrollment_complete then eb else None) (if enrollment_complete then ee else None)))
           (\<lambda>_. ret enrollment_complete))"

record ProductAudit =
  pa_product :: Product
  pa_was_active :: bool
  pa_discounts :: "Discount list"
  pa_basket_items :: nat

record RunAudit =
  ra_run :: CourseRun
  ra_active_enrollments :: "CourseRunEnrollment list"
  ra_inactive_enrollments :: "CourseRunEnrollment list"
  ra_products :: "ProductAudit list"
  ra_certificate_count :: nat
  ra_grade_count :: nat
  ra_edx_details :: "edx_detail option"
  ra_edx_error :: "exn option"

definition product_audit :: "db \<Rightarrow> Product \<Rightarrow> ProductAudit" where
  "product_audit s p = \<lparr>pa_product = p, pa_was_active = prod_is_active p,
     pa_discounts = filter (\<lambda>d. exists_row (\<lambda>dp. dp_discount dp = disc_id d \<and> dp_product dp = Some (prod_id p))
                                  (discount_products s)) (discounts s),
     pa_basket_items = count_rows (\<lambda>i. prod_id (bi_product i) = prod_id p) (basket_items s)\<rparr>"

text \<open>\<open>by_email\<close> sorts the enrollments by the address of their learner.\<close>

definition audit_course_run ::
  "run_client \<Rightarrow> (CourseRunEnrollment list \<Rightarrow> CourseRunEnrollment list) \<Rightarrow> CourseRun \<Rightarrow> bool \<Rightarrow> RunAudit op" where
  "audit_course_run cl by_email r fetch_edx =
     bindP (gets (\<lambda>s. by_email (filter (\<lambda>e. run_id (cre_run e) = run_id r) (run_enrollments s)))) (\<lambda>es.
     bindP (gets (\<lambda>s. \<lparr>ra_run = r, ra_active_enrollments = filter cre_active es,
        ra_inactive_enrollments = filter (\<lambda>e. \<not> cre_active e) es,
        ra_products = map (product_audit s) (get_run_products s r),
        ra_certificate_count = count_rows (\<lambda>c. run_id (crc_run c) = run_id r) (run_certificates s),
        ra_grade_count = count_rows (\<lambda>g. run_id (crg_run g) = run_id r) (run_grades s),
        ra_edx_details = None, ra_edx_error = None\<rparr>)) (\<lambda>a.
     if fetch_edx
     then catchP (bindP (get_edx_course cl (run_courseware_id r)) (\<lambda>d. ret (a\<lparr>ra_edx_details := Some d\<rparr>)))
            (\<lambda>e. ret (a\<lparr>ra_edx_error := Some e\<rparr>))
     else ret a))"

definition check_run_retirable :: "CourseRun \<Rightarrow> exn + unit" where
  "check_run_retirable r =
     (if run_is_source_run r \<or> run_tag r = ''SOURCE'' then Inl SourceRunRetirementError else Inr ())"

definition retired :: "run_dates \<Rightarrow> CourseRun \<Rightarrow> CourseRun" where
  "retired d r = r\<lparr>run_expiration_date := (case run_expiration_date r of None \<Rightarrow> None
       | Some x \<Rightarrow> if x < rd_end d \<or> x < rd_start d then None else Some x),
     run_start_date := Some (rd_start d), run_end_date := Some (rd_end d),
     run_enrollment_start := Some (rd_enrollment_start d), run_enrollment_end := Some (rd_enrollment_end d),
     run_live := False\<rparr>"

text \<open>Open edX is written first; the result has the dates, the products that were switched off and
  whether Open edX has the enrollment dates.\<close>

definition retire_course_run ::
  "run_client \<Rightarrow> (string \<Rightarrow> bool) \<Rightarrow> bool \<Rightarrow> bool \<Rightarrow> CourseRun \<Rightarrow> (run_dates \<times> Product list \<times> bool) op" where
  "retire_course_run cl lang deactivate_products skip_edx r =
     bindP (gets (\<lambda>s. compute_retirement_dates (now s) r)) (\<lambda>d.
     bindP (if skip_edx then ret False else push_run_dates_to_edx cl r (Some d)) (\<lambda>edx_updated.
     thenP (save_run lang (retired d r))
     (bindP (if deactivate_products then deactivate_run_products r else ret []) (\<lambda>ps.
       ret (d, ps, edx_updated)))))"

end
