(* ===== verification/RunLife.thy ===== *)
theory RunLife
  imports CourseRuns
begin

text \<open>
  What holds of course runs (\<open>CourseRuns\<close>): their unique constraints through every operation, what a
  retired run looks like, and that the synchronisation with Open edX does not bring it back.
\<close>

section \<open>The unique constraints\<close>

definition runs_ok :: "db \<Rightarrow> bool" where
  "runs_ok s \<longleftrightarrow> distinct (map run_id (course_runs s)) \<and> (\<forall>r \<in> set (course_runs s). run_id r < next_id s)
     \<and> (\<forall>r \<in> set (course_runs s). \<forall>x \<in> set (course_runs s). run_id x \<noteq> run_id r \<longrightarrow> \<not> runs_clash r x)"

lemma runs_clash_sym: "runs_clash r x \<longleftrightarrow> runs_clash x r"
  by (auto simp: runs_clash_def run_variant_def)

lemma runs_ok_frame: "course_runs t = course_runs s \<Longrightarrow> next_id s \<le> next_id t \<Longrightarrow> runs_ok s \<Longrightarrow> runs_ok t"
  unfolding runs_ok_def by fastforce

lemma run_of_id: "runs_ok s \<Longrightarrow> x \<in> set (course_runs s) \<Longrightarrow> y \<in> set (course_runs s) \<Longrightarrow> run_id x = run_id y \<Longrightarrow> x = y"
  by (auto simp: runs_ok_def distinct_map dest: inj_onD)

text \<open>A run with the same constraint columns.\<close>

definition alike :: "CourseRun \<Rightarrow> CourseRun \<Rightarrow> bool" where
  "alike x y \<longleftrightarrow> run_id x = run_id y \<and> (\<forall>z. runs_clash x z = runs_clash y z)"

lemma runs_ok_map:
  assumes ok: "runs_ok s" and id: "\<And>x. x \<in> set (course_runs s) \<Longrightarrow> run_id (f x) = run_id x"
    and clash: "\<And>x y. x \<in> set (course_runs s) \<Longrightarrow> y \<in> set (course_runs s) \<Longrightarrow> run_id y \<noteq> run_id x \<Longrightarrow> \<not> runs_clash (f x) (f y)"
  shows "runs_ok (map_runs f s)"
proof -
  have "map run_id (map f (course_runs s)) = map run_id (course_runs s)" using id by simp
  then have "distinct (map run_id (map f (course_runs s)))" using ok by (simp add: runs_ok_def del: map_map)
  then show ?thesis using ok id clash by (simp add: runs_ok_def map_runs_def del: map_map)
qed

lemma map_runs_ok:
  assumes ok: "runs_ok s" and f: "\<And>x. x \<in> set (course_runs s) \<Longrightarrow> alike (f x) x"
  shows "runs_ok (map_runs f s)"
proof (rule runs_ok_map [OF ok])
  fix x y assume "x \<in> set (course_runs s)" "y \<in> set (course_runs s)" "run_id y \<noteq> run_id x"
  then show "\<not> runs_clash (f x) (f y)" using f ok runs_clash_sym unfolding alike_def runs_ok_def by metis
qed (use f in \<open>simp add: alike_def\<close>)

lemma replace_run_alone: "run_id x \<noteq> run_id r \<Longrightarrow> replace_run r x = x"
  by (simp add: replace_run_def)

lemma clash_modes [simp]: "runs_clash (r\<lparr>run_enrollment_modes := m\<rparr>) x = runs_clash r x"
  "runs_clash r (x\<lparr>run_enrollment_modes := m\<rparr>) = runs_clash r x"
  by (simp_all add: runs_clash_def run_group_def run_variant_def)

lemma replaced_runs_ok:
  assumes ok: "runs_ok s" and free: "\<not> run_refused r s"
  shows "runs_ok (map_runs (replace_run r) s)"
proof (rule runs_ok_map [OF ok])
  fix x y assume x: "x \<in> set (course_runs s)" and y: "y \<in> set (course_runs s)" and ne: "run_id y \<noteq> run_id x"
  consider "run_id x = run_id r" | "run_id y = run_id r" | "run_id x \<noteq> run_id r" "run_id y \<noteq> run_id r" by blast
  then show "\<not> runs_clash (replace_run r x) (replace_run r y)"
  proof cases
    case 1
    then have "\<not> runs_clash r y" using free y ne by (auto simp: run_refused_def exists_row_def list_ex_iff)
    then show ?thesis using 1 ne by (simp add: replace_run_def)
  next
    case 2
    then have "\<not> runs_clash x r" using free x ne runs_clash_sym by (auto simp: run_refused_def exists_row_def list_ex_iff)
    then show ?thesis using 2 ne by (simp add: replace_run_def)
  next
    case 3
    then show ?thesis using ok x y ne by (simp add: runs_ok_def replace_run_alone)
  qed
qed (simp add: replace_run_def)

text \<open>The constraints hold, and ids are not used again.\<close>

definition runs_from :: "nat \<Rightarrow> db \<Rightarrow> bool" where
  "runs_from n s \<longleftrightarrow> runs_ok s \<and> n \<le> next_id s"

lemma runs_from_frame: "course_runs t = course_runs s \<Longrightarrow> next_id s \<le> next_id t \<Longrightarrow> runs_from n s \<Longrightarrow> runs_from n t"
  unfolding runs_from_def using runs_ok_frame by (metis le_trans)

lemma keeps_runs_frame:
  "(\<And>s. course_runs (snd (m s)) = course_runs s \<and> next_id s \<le> next_id (snd (m s))) \<Longrightarrow> keeps (runs_from n) m"
  unfolding keeps_def using runs_from_frame by blast

lemma keeps_map_runs: "(\<And>s. runs_ok s \<Longrightarrow> runs_ok (map_runs f s)) \<Longrightarrow> keeps (runs_from n) (modify (map_runs f))"
  by (rule keeps_modify) (simp add: runs_from_def map_runs_def)

lemma keeps_saved_run [keeps_intro]: "keeps (runs_from n) (save_run lang r)"
  unfolding save_run_def
proof (rule keeps_bindP [OF keeps_liftE])
  have "next_id (map_runs f s) = next_id s" for f s by (simp add: map_runs_def)
  then show "keeps (runs_from n) (bindP (gets (run_refused r)) (\<lambda>refused. if refused then raise IntegrityError else modify (map_runs (replace_run r))))"
    by (auto simp: keeps_def raise_def modify_def runs_from_def intro: replaced_runs_ok)
qed

lemma added_run_ok:
  assumes "runs_ok s" "run_id r = next_id s" "\<not> run_refused r s"
  shows "runs_ok (s\<lparr>next_id := Suc (next_id s), course_runs := course_runs s @ [r]\<rparr>)"
proof -
  have "\<not> runs_clash r x \<and> \<not> runs_clash x r" if "x \<in> set (course_runs s)" for x
    using assms that runs_clash_sym unfolding runs_ok_def run_refused_def exists_row_def list_ex_iff
    by (metis less_irrefl)
  then show ?thesis using assms unfolding runs_ok_def by auto
qed

lemma keeps_create_run [keeps_intro]: "keeps (runs_from n) (create_run lang r)"
  unfolding create_run_def
proof (rule keeps_bindP [OF keeps_liftE])
  have "run_refused x (s\<lparr>next_id := n\<rparr>) = run_refused x s" for x s n by (simp add: run_refused_def)
  then show "keeps (runs_from n) (bindP fresh_id (\<lambda>i. let r = r\<lparr>run_id := i\<rparr> in bindP (gets (run_refused r)) (\<lambda>refused.
      if refused then raise IntegrityError else thenP (modify (\<lambda>s. s\<lparr>course_runs := course_runs s @ [r]\<rparr>)) (ret r))))"
    unfolding keeps_def runs_from_def
    by (auto simp: fresh_id_def bindP_def gets_def Let_def raise_def thenP_def modify_def ret_def
        intro: added_run_ok runs_ok_frame)
qed

lemma keeps_add_modes [keeps_intro]: "keeps (runs_from n) (add_modes i slugs)"
  unfolding add_modes_def by (intro keeps_map_runs map_runs_ok) (simp_all add: alike_def)

lemma keeps_plain [keeps_intro]:
  "keeps (runs_from n) (studio cl q)" "keeps (runs_from n) (get_edx_course cl k)" "keeps (runs_from n) (get_edx_course_modes cl k)"
  "keeps (runs_from n) (get_or_create_mode slug name pays)" "keeps (runs_from n) (emit_on_commit e)" "keeps (runs_from n) fresh_id"
  "keeps (runs_from n) (import_product r price)" "keeps (runs_from n) (deactivate_run_products r)"
  by (rule keeps_runs_frame, simp add: studio_def get_edx_course_def get_edx_course_modes_def get_or_create_mode_def
      emit_on_commit_def fresh_id_def import_product_def deactivate_run_products_def py_defs Let_def)+

lemma keeps_add_blocked_countries [keeps_intro]: "keeps (runs_from n) (add_blocked_countries country i names)"
proof -
  have "runs_ok (map_runs f (s\<lparr>courses := cs\<rparr>)) \<and> next_id (map_runs f (s\<lparr>courses := cs\<rparr>)) = next_id s"
    if "runs_ok s" "\<And>x. alike (f x) x" for f s cs
    using map_runs_ok [of "s\<lparr>courses := cs\<rparr>" f] runs_ok_frame [of "s\<lparr>courses := cs\<rparr>" s] that by (simp add: map_runs_def)
  moreover have "alike (x\<lparr>run_course := (if b then (run_course x)\<lparr>crs_blocked_countries := ts\<rparr> else run_course x)\<rparr>) x" for x b ts
    by (simp add: alike_def runs_clash_def run_group_def run_variant_def)
  ultimately show ?thesis
    unfolding add_blocked_countries_def Let_def by (intro keeps_modify) (simp add: runs_from_def)
qed

lemma keeps_import_course [keeps_intro]: "keeps (runs_from n) (import_course live specific key title)"
proof -
  have "keeps (runs_from n) (modify (\<lambda>s. s\<lparr>courses := f s\<rparr>))" for f
    by (rule keeps_runs_frame) (simp add: modify_def)
  then show ?thesis unfolding import_course_def Let_def by (intro keeps_intro)
qed

lemma keeps_atomic_but_sent [keeps_intro]:
  assumes "\<And>k. keeps (runs_from k) m"
  shows "keeps (runs_from n) (atomic_but_sent m)"
proof (rule keepsI)
  fix s assume s: "runs_from n s"
  let ?s = "s\<lparr>in_atomic := True\<rparr>"
  have "runs_from (next_id s) ?s" using s runs_ok_frame [of ?s s] by (simp add: runs_from_def)
  then have t: "runs_from (next_id s) (snd (m ?s))" by (rule keepsD [OF assms])
  obtain r u where u: "m ?s = (r, u)" by force
  have undone: "runs_from n v" if "course_runs v = course_runs s" "next_id v = next_id u" for v
    using runs_ok_frame [of v s] s t that u by (simp add: runs_from_def)
  have ends: "runs_from n v" if "course_runs v = course_runs u" "next_id v = next_id u" for v
    using runs_ok_frame [of v u] s t that u by (simp add: runs_from_def)
  show "runs_from n (snd (atomic_but_sent m s))"
    by (cases r) (auto simp: u atomic_but_sent_def atomicP_def leave_atomic_def intro: undone ends)
qed

section \<open>The operations keep them\<close>

lemma keeps_pull_course_modes [keeps_intro]: "keeps (runs_from n) (pull_course_modes cl lang r)"
  unfolding pull_course_modes_def by (intro keeps_intro)

lemma keeps_check_course_modes: "keeps (runs_from n) (check_course_modes cl lang r)"
  unfolding check_course_modes_def Let_def by (intro keeps_intro)

lemma keeps_sync_course_runs [keeps_intro]: "keeps (runs_from n) (sync_course_runs cl lang rs)"
  unfolding sync_course_runs_def sync_detail_def sync_course_run_from_edx_def Let_def by (intro keeps_intro)

lemma keeps_sync_course_mode: "keeps (runs_from n) (sync_course_mode cl lang rs)"
proof -
  have "keeps (runs_from n) (mode_failed e)" for e
    unfolding mode_failed_def by (auto intro: keeps_intro split: exn.split option.split)
  then show ?thesis unfolding sync_course_mode_def sync_deadline_def Let_def by (intro keeps_intro)
qed

lemma keeps_process_course_run_clone [keeps_intro]: "keeps (runs_from n) (process_course_run_clone cl r base)"
  unfolding process_course_run_clone_def clone_edx_course_def after_clone_def fix_cloned_run_data_def
    push_edx_modes_from_run_def Let_def
  by (intro keeps_intro)

lemma keeps_rerun_course_run: "keeps (runs_from n) (rerun_course_run cl lang ck base tag opts)"
  unfolding rerun_course_run_def by (intro keeps_intro)

lemma keeps_clone_courserun: "keeps (runs_from n) (clone_courserun cl m k target base)"
  unfolding clone_courserun_def by (intro keeps_intro)

lemma keeps_import: "keeps (runs_from n) (import_courserun_from_edx cl lang ck country key opts)"
  unfolding import_courserun_from_edx_def by (intro keeps_intro)

lemma keeps_retire: "keeps (runs_from n) (retire_course_run cl lang dp skip r)"
  unfolding retire_course_run_def push_run_dates_to_edx_def Let_def by (intro keeps_intro)

text \<open>What can happen to the runs.\<close>

inductive run_step :: "db \<Rightarrow> db \<Rightarrow> bool" where
  sync: "run_step s (snd (sync_course_runs cl lang rs s))"
| modes: "run_step s (snd (check_course_modes cl lang r s))"
| deadlines: "run_step s (snd (sync_course_mode cl lang rs s))"
| rerun: "run_step s (snd (rerun_course_run cl lang ck base tag opts s))"
| clone: "run_step s (snd (clone_courserun cl m k target base s))"
| imported: "run_step s (snd (import_courserun_from_edx cl lang ck country key io s))"
| retire: "run_step s (snd (retire_course_run cl lang dp skip r s))"

lemma run_step_ok: "run_step s t \<Longrightarrow> runs_from n s \<Longrightarrow> runs_from n t"
  by (cases rule: run_step.cases)
    (auto intro: keeps_sync_course_runs [THEN keepsD] keeps_check_course_modes [THEN keepsD] keeps_sync_course_mode [THEN keepsD]
      keeps_rerun_course_run [THEN keepsD] keeps_clone_courserun [THEN keepsD] keeps_import [THEN keepsD] keeps_retire [THEN keepsD])

lemma runs_stay_ok: "run_step\<^sup>*\<^sup>* s t \<Longrightarrow> runs_ok s \<Longrightarrow> runs_ok t"
proof -
  assume "run_step\<^sup>*\<^sup>* s t" "runs_ok s"
  then have "runs_from 0 t" by (induction rule: rtranclp_induct) (auto simp: runs_from_def dest: run_step_ok [of _ _ 0])
  then show ?thesis by (simp add: runs_from_def)
qed

section \<open>A retired run\<close>

definition known_language :: "(string \<Rightarrow> bool) \<Rightarrow> CourseRun \<Rightarrow> bool" where
  "known_language lang r \<longleftrightarrow> run_language r = [] \<or> lang (run_language r)"

lemma retirement_dates:
  fixes t :: int and r :: CourseRun
  defines "d \<equiv> compute_retirement_dates t r"
  shows "rd_enrollment_start d \<le> rd_start d" "rd_start d < rd_end d" "rd_end d = t - RETIREMENT_DATE_OFFSET"
    "rd_enrollment_end d = rd_end d"
  by (auto simp: d_def compute_retirement_dates_def RETIREMENT_DATE_OFFSET_def Let_def q_lt_def split: option.splits if_splits)

lemma retired_clean: "known_language lang r \<Longrightarrow> clean_course_run lang (retired d r) = Inr ()"
  by (auto simp: clean_course_run_def clean_language_def retired_def known_language_def q_gt_def split: option.split)

lemma retired_clash [simp]: "runs_clash (retired d r) x = runs_clash r x" "run_id (retired d r) = run_id r"
  by (simp_all add: runs_clash_def run_group_def run_variant_def retired_def)

lemma save_retired:
  assumes ok: "runs_ok s" and r: "r \<in> set (course_runs s)" and lang: "known_language lang r"
  shows "save_run lang (retired d r) s = (Inr (), map_runs (replace_run (retired d r)) s)"
proof -
  have "\<not> run_refused (retired d r) s"
    using ok r by (auto simp: run_refused_def exists_row_def list_ex_iff runs_ok_def)
  then show ?thesis using retired_clean [OF lang] by (simp add: save_run_def liftE_def bindP_def modify_def gets_def)
qed

lemma retired_row:
  assumes "r \<in> set (course_runs s)"
  shows "retired d r \<in> set (course_runs (map_runs (replace_run (retired d r)) s))"
proof -
  have "replace_run (retired d r) r = retired d r" by (simp add: replace_run_def retired_def)
  then show ?thesis using assms by (force simp: map_runs_def)
qed

text \<open>The run is over, nobody can enroll in it or upgrade, and nothing sells it.\<close>

definition inert :: "db \<Rightarrow> CourseRun \<Rightarrow> bool" where
  "inert s r \<longleftrightarrow> is_past s r \<and> \<not> is_enrollable s r \<and> \<not> is_upgradable s r \<and> \<not> run_has_product s r
     \<and> r \<notin> set (live_runs True (course_runs s)) \<and> r \<notin> set (available s True (course_runs s))"

lemma deactivated_products:
  obtains ps where "deactivate_run_products r s = (Inr ps, s\<lparr>products := map (switch_off (prod_id ` set (filter prod_is_active (get_run_products s r)))) (products s),
      basket_items := map (\<lambda>i. i\<lparr>bi_product := switch_off (prod_id ` set (filter prod_is_active (get_run_products s r))) (bi_product i)\<rparr>) (basket_items s)\<rparr>)"
  by (simp add: deactivate_run_products_def modify_def thenP_def bindP_def gets_def ret_def)

lemma nothing_sells:
  assumes "deactivate_run_products r s = (Inr ps, t)"
  shows "\<not> run_has_product t r \<and> course_runs t = course_runs s \<and> now t = now s \<and> studio_log t = studio_log s \<and> next_id t = next_id s"
proof -
  let ?ids = "prod_id ` set (filter prod_is_active (get_run_products s r))"
  obtain ps' where "deactivate_run_products r s = (Inr ps', s\<lparr>products := map (switch_off ?ids) (products s),
      basket_items := map (\<lambda>i. i\<lparr>bi_product := switch_off ?ids (bi_product i)\<rparr>) (basket_items s)\<rparr>)"
    by (rule deactivated_products)
  then have t: "t = s\<lparr>products := map (switch_off ?ids) (products s),
      basket_items := map (\<lambda>i. i\<lparr>bi_product := switch_off ?ids (bi_product i)\<rparr>) (basket_items s)\<rparr>" using assms by simp
  have "\<not> (prod_is_active (switch_off ?ids p) \<and> prod_content_type (switch_off ?ids p) = CT_CourseRun
      \<and> prod_object_id (switch_off ?ids p) = run_id r)" if "p \<in> set (products s)" for p
    using that by (auto simp: switch_off_def get_run_products_def image_iff)
  then show ?thesis unfolding t by (simp add: run_has_product_def exists_row_def list_ex_iff del: de_Morgan_conj)
qed

definition retirement_request :: "CourseRun \<Rightarrow> run_dates \<Rightarrow> studio_request" where
  "retirement_request r d = UpdateRun (run_courseware_id r) (run_title r) (run_is_self_paced r)
     (Some (rd_start d)) (Some (rd_end d)) (Some (rd_enrollment_start d)) (Some (rd_enrollment_end d))"

lemma pushes:
  "push_run_dates_to_edx cl r (Some d) s = (case rc_answer cl (studio_log s) (retirement_request r d) of
     Inl e \<Rightarrow> (Inl e, s\<lparr>studio_log := studio_log s @ [retirement_request r d]\<rparr>)
   | Inr b \<Rightarrow> (Inr True, s\<lparr>studio_log := studio_log s @ [retirement_request r d]\<rparr>))"
  by (simp add: push_run_dates_to_edx_def studio_def bindP_def ret_def retirement_request_def split: sum.split)

lemma retires:
  assumes ok: "runs_ok s" and r: "r \<in> set (course_runs s)" and lang: "known_language lang r"
    and edx: "\<And>q. skip \<or> (\<exists>b. rc_answer cl (studio_log s) q = Inr b)"
  shows "\<exists>ps b t. retire_course_run cl lang True skip r s = (Inr (compute_retirement_dates (now s) r, ps, b), t)
    \<and> retired (compute_retirement_dates (now s) r) r \<in> set (course_runs t)
    \<and> inert t (retired (compute_retirement_dates (now s) r) r)"
proof -
  let ?d = "compute_retirement_dates (now s) r"
  let ?r = "retired ?d r"
  obtain b u where push: "(if skip then ret False else push_run_dates_to_edx cl r (Some ?d)) s = (Inr b, u)"
    and u: "course_runs u = course_runs s" "now u = now s" "next_id u = next_id s"
  proof (cases skip)
    case False
    then obtain b where "rc_answer cl (studio_log s) (retirement_request r ?d) = Inr b" using edx by blast
    then show ?thesis using False that by (simp add: pushes)
  next
    case True
    then show ?thesis using that [of False s] by (simp add: ret_def)
  qed
  have oku: "runs_ok u" using runs_ok_frame [OF u(1) _ ok] u(3) by simp
  let ?v = "map_runs (replace_run ?r) u"
  have saved: "save_run lang ?r u = (Inr (), ?v)" using save_retired [OF oku _ lang] r u(1) by simp
  obtain ps t where off: "deactivate_run_products r ?v = (Inr ps, t)" using deactivated_products by blast
  have run: "retire_course_run cl lang True skip r s = (Inr (?d, ps, b), t)"
    using push saved off by (simp add: retire_course_run_def bindP_Inr thenP_def ret_def)
  have row: "?r \<in> set (course_runs t)" using retired_row [of r u ?d] r u(1) nothing_sells [OF off] by simp
  have now: "now t = now s" using nothing_sells [OF off] u(2) by (simp add: map_runs_def)
  have "\<not> run_has_product t ?r" using nothing_sells [OF off] by (simp add: run_has_product_def)
  then have "inert t ?r"
    using retirement_dates(3) [of "now s" r] now
    by (auto simp: inert_def is_past_def is_enrollable_def is_upgradable_def retired_def live_runs_def available_def
        q_gt_def RETIREMENT_DATE_OFFSET_def Let_def)
  then show ?thesis using run row by blast
qed

section \<open>The synchronisation does not bring it back\<close>

text \<open>Open edX reports the title, pacing and schedule of the last update of a run that it accepted.\<close>

definition schedule_contract :: "run_client \<Rightarrow> bool" where
  "schedule_contract cl \<longleftrightarrow> (\<forall>log k title pacing b e eb ee ok ks x.
     rc_answer cl log (UpdateRun k title pacing b e eb ee) = Inr ok \<longrightarrow>
     x \<in> set (fst (rc_courses cl (log @ [UpdateRun k title pacing b e eb ee]) ks)) \<longrightarrow> ed_course_id x = k \<longrightarrow>
     ed_name x = title \<and> ed_is_self_paced x = pacing \<and> ed_start x = b \<and> ed_end x = e
     \<and> ed_enrollment_start x = eb \<and> ed_enrollment_end x = ee)"

text \<open>The run is off and has the dates of its retirement; a detail agrees with them.\<close>

definition still_retired :: "string \<Rightarrow> run_dates \<Rightarrow> CourseRun \<Rightarrow> bool" where
  "still_retired k d r \<longleftrightarrow> run_courseware_id r = k \<and> \<not> run_live r \<and> run_start_date r = Some (rd_start d)
     \<and> run_end_date r = Some (rd_end d) \<and> run_enrollment_start r = Some (rd_enrollment_start d)
     \<and> run_enrollment_end r = Some (rd_enrollment_end d)"

definition agrees :: "string \<Rightarrow> run_dates \<Rightarrow> edx_detail \<Rightarrow> bool" where
  "agrees k d x \<longleftrightarrow> ed_course_id x = k \<longrightarrow> ed_start x = Some (rd_start d) \<and> ed_end x = Some (rd_end d)
     \<and> ed_enrollment_start x = Some (rd_enrollment_start d) \<and> ed_enrollment_end x = Some (rd_enrollment_end d)"

definition objects_retired :: "nat \<Rightarrow> string \<Rightarrow> run_dates \<Rightarrow> (string \<times> CourseRun) list \<Rightarrow> bool" where
  "objects_retired i k d objs \<longleftrightarrow> (\<forall>(c, r) \<in> set objs. c = run_courseware_id r \<and> (run_id r = i \<longrightarrow> still_retired k d r))"

definition rows_retired :: "nat \<Rightarrow> string \<Rightarrow> run_dates \<Rightarrow> db \<Rightarrow> bool" where
  "rows_retired i k d s \<longleftrightarrow> i \<in> run_id ` set (course_runs s)
     \<and> (\<forall>r \<in> set (course_runs s). run_id r = i \<longrightarrow> still_retired k d r)"

lemma synced_run_same [simp]: "run_id (synced_run x r) = run_id r" "run_courseware_id (synced_run x r) = run_courseware_id r"
  "run_live (synced_run x r) = run_live r"
  by (simp_all add: synced_run_def incoming_values_def)

lemma synced_retired: "still_retired k d r \<Longrightarrow> agrees k d x \<Longrightarrow> ed_course_id x = k \<Longrightarrow> still_retired k d (synced_run x r)"
  by (simp add: still_retired_def agrees_def synced_run_def incoming_values_def)

lemma objects_update:
  assumes "objects_retired i k d objs" "c = run_courseware_id r" "run_id r = i \<longrightarrow> still_retired k d r"
  shows "objects_retired i k d (AList.update c r objs)"
proof -
  have "p \<in> set objs \<or> p = (c, r)" if "p \<in> set (AList.update c r objs)" for p
    using that by (induction objs) (auto split: if_splits)
  then show ?thesis using assms unfolding objects_retired_def by fastforce
qed

lemma keeps_rows_save: "(run_id r = i \<Longrightarrow> still_retired k d r) \<Longrightarrow> keeps (rows_retired i k d) (save_run lang r)"
  unfolding save_run_def
proof (intro keeps_intro keeps_modify)
  fix s assume r: "run_id r = i \<Longrightarrow> still_retired k d r" and s: "rows_retired i k d s"
  have "run_id (replace_run r x) = run_id x" for x by (simp add: replace_run_def)
  moreover have "still_retired k d (replace_run r x)" if "x \<in> set (course_runs s)" "run_id x = i" for x
    using s r that by (auto simp: rows_retired_def replace_run_def still_retired_def)
  ultimately show "rows_retired i k d (map_runs (replace_run r) s)"
    using s by (auto simp: rows_retired_def map_runs_def image_iff)
qed

lemma sync_detail_retired:
  assumes objs: "objects_retired i k d objs" and rows: "rows_retired i k d s" and x: "agrees k d x"
  shows "\<exists>objs' ok' failed' t. sync_detail lang (objs, ok, failed) x s = (Inr (objs', ok', failed'), t)
    \<and> objects_retired i k d objs' \<and> rows_retired i k d t"
proof (cases "map_of objs (ed_course_id x)")
  case None
  then show ?thesis using objs rows by (simp add: sync_detail_def ret_def)
next
  case (Some r)
  then have r: "ed_course_id x = run_courseware_id r" "run_id r = i \<longrightarrow> still_retired k d r"
    using objs by (auto simp: objects_retired_def dest: map_of_SomeD)
  then have new: "run_id r = i \<Longrightarrow> still_retired k d (synced_run x r)"
    using synced_retired [OF _ x] by (simp add: still_retired_def)
  let ?objs = "AList.update (ed_course_id x) (synced_run x r) objs"
  have "objects_retired i k d ?objs" using objects_update [OF objs, of "ed_course_id x" "synced_run x r"] r(1) new by simp
  moreover have "keeps (rows_retired i k d) (save_run lang (synced_run x r))" by (rule keeps_rows_save) (simp add: new)
  from keepsD [OF this rows] have "rows_retired i k d (snd (save_run lang (synced_run x r) s))" .
  ultimately show ?thesis using Some rows
    by (cases "save_run lang (synced_run x r) s")
      (auto simp: sync_detail_def sync_course_run_from_edx_def Let_def catchP_def bindP_def thenP_def ret_def split: sum.split)
qed

lemma sync_details_retired:
  "objects_retired i k d objs \<Longrightarrow> rows_retired i k d s \<Longrightarrow> (\<And>x. x \<in> set xs \<Longrightarrow> agrees k d x) \<Longrightarrow>
   \<exists>r t. foldP (sync_detail lang) (objs, ok, failed) xs s = (Inr r, t) \<and> rows_retired i k d t"
proof (induction xs arbitrary: objs ok failed s)
  case (Cons x xs)
  obtain objs' ok' failed' u where "sync_detail lang (objs, ok, failed) x s = (Inr (objs', ok', failed'), u)"
    "objects_retired i k d objs'" "rows_retired i k d u"
    using sync_detail_retired [OF Cons.prems(1,2)] Cons.prems(3) by (metis list.set_intros(1))
  then show ?case using Cons.IH [of objs' u ok' failed'] Cons.prems(3) by (simp add: bindP_Inr)
qed (simp add: ret_def)

lemma filter_keys_retired:
  assumes "\<And>r. r \<in> set rs \<Longrightarrow> run_id r = i \<longrightarrow> still_retired k d r"
  shows "objects_retired i k d (filter_valid_course_keys rs)"
proof -
  have "objects_retired i k d (fold (\<lambda>r m. if is_course_key (run_courseware_id r) then AList.update (run_courseware_id r) r m else m) rs objs)"
    if "objects_retired i k d objs" for objs
    using assms that by (induction rs arbitrary: objs) (simp_all add: objects_update)
  moreover have "objects_retired i k d []" by (simp add: objects_retired_def)
  ultimately show ?thesis unfolding filter_valid_course_keys_def by blast
qed

lemma sync_keeps_retired:
  assumes rows: "rows_retired i k d s" and rs: "set rs \<subseteq> set (course_runs s)"
    and edx: "\<And>ks x. x \<in> set (fst (rc_courses cl (studio_log s) ks)) \<Longrightarrow> agrees k d x"
  shows "rows_retired i k d (snd (sync_course_runs cl lang rs s))"
proof (cases "filter_valid_course_keys rs = []")
  case True
  then show ?thesis using rows by (simp add: sync_course_runs_def ret_def)
next
  case False
  obtain details broken where answer: "rc_courses cl (studio_log s) (map fst (filter_valid_course_keys rs)) = (details, broken)" by force
  have objs: "objects_retired i k d (filter_valid_course_keys rs)"
    using rows rs by (intro filter_keys_retired) (auto simp: rows_retired_def)
  have "agrees k d x" if "x \<in> set details" for x using edx answer that by (metis fst_conv)
  from sync_details_retired [OF objs rows this] obtain r t
    where "foldP (sync_detail lang) (filter_valid_course_keys rs, 0, 0) details s = (Inr r, t)" "rows_retired i k d t" by blast
  then show ?thesis using False answer
    by (simp add: sync_course_runs_def Let_def bindP_Inr ret_def split: prod.split)
qed

lemma retired_stays_retired:
  assumes contract: "schedule_contract cl" and ok: "runs_ok s" and r: "r \<in> set (course_runs s)" and lang: "known_language lang r"
    and run: "retire_course_run cl lang True False r s = (Inr (d, ps, b), t)" and rs: "set rs \<subseteq> set (course_runs t)"
  shows "rows_retired (run_id r) (run_courseware_id r) d (snd (sync_course_runs cl lang rs t))"
proof -
  let ?d = "compute_retirement_dates (now s) r"
  obtain ok' where answer: "rc_answer cl (studio_log s) (retirement_request r ?d) = Inr ok'"
  proof (cases "rc_answer cl (studio_log s) (retirement_request r ?d)")
    case (Inl e)
    then have push: "push_run_dates_to_edx cl r (Some ?d) s = (Inl e, s\<lparr>studio_log := studio_log s @ [retirement_request r ?d]\<rparr>)"
      by (simp add: pushes)
    show ?thesis using run
      by (simp add: retire_course_run_def bindP_Inl [where m = "push_run_dates_to_edx cl r (Some ?d)", OF push])
  qed (rule that)
  let ?u = "s\<lparr>studio_log := studio_log s @ [retirement_request r ?d]\<rparr>"
  have oku: "runs_ok ?u" using runs_ok_frame [of ?u s] ok by simp
  have saved: "save_run lang (retired ?d r) ?u = (Inr (), map_runs (replace_run (retired ?d r)) ?u)"
    using save_retired [OF oku _ lang] r by simp
  obtain ps' t' where off: "deactivate_run_products r (map_runs (replace_run (retired ?d r)) ?u) = (Inr ps', t')"
    using deactivated_products by blast
  have "retire_course_run cl lang True False r s = (Inr (?d, ps', True), t')"
    using answer saved off by (simp add: retire_course_run_def pushes bindP_Inr thenP_def ret_def)
  then have d: "d = ?d" "t = t'" using run by simp_all
  have t: "course_runs t = map (replace_run (retired ?d r)) (course_runs s)" "studio_log t = studio_log s @ [retirement_request r ?d]"
    using nothing_sells [OF off] d(2) by (simp_all add: map_runs_def)
  have "still_retired (run_courseware_id r) d (replace_run (retired ?d r) x)" if "run_id x = run_id r" for x
    using that d by (simp add: replace_run_def still_retired_def retired_def)
  moreover have "run_id (replace_run (retired ?d r) x) = run_id x" for x by (simp add: replace_run_def)
  ultimately have "rows_retired (run_id r) (run_courseware_id r) d t" using r t(1) by (auto simp: rows_retired_def image_iff)
  moreover have "agrees (run_courseware_id r) d x" if "x \<in> set (fst (rc_courses cl (studio_log t) ks))" for ks x
    using contract answer that unfolding t(2) d(1) schedule_contract_def agrees_def retirement_request_def by blast
  ultimately show ?thesis using sync_keeps_retired rs by blast
qed

section \<open>A clone that was made and not finished\<close>

text \<open>Without a transaction the callbacks run inside the task: when they fail, the task is retried, and the
  retry takes the clone for a run that must not exist.\<close>

lemma half_made_clone_fails:
  assumes "get_one (filter (\<lambda>r. run_id r = target) (course_runs s)) = Inr r"
    and "rc_course cl (studio_log s) base = Inr b" and "rc_course cl (studio_log s) (run_courseware_id r) = Inr c"
  shows "clone_courserun cl m k target base s = (Inl PyValueError, s)"
  using assms
  by (simp add: clone_courserun_def process_course_run_clone_def get_edx_course_def liftE_bind catchP_def thenP_def
      bindP_def liftE_def ret_def raise_def clone_retried_def)

end
