(* ===== verification/ContractRuns.thy ===== *)
theory ContractRuns
  imports CourseRuns ContractBaskets Requirements "HOL-Library.List_Lexorder" "HOL-Library.Char_ord"
begin

text \<open>
  The course runs of a contract (\<open>src/b2b/api.py\<close>, \<open>src/b2b/models.py\<close>, \<open>src/b2b/tasks.py\<close>,
  \<open>src/variants/models.py\<close>): the variants that courses and contracts support, the source runs that are
  cloned, the keys of the clones, the runs and products of a contract, and the contract that holds
  retired runs.

  Wagtail's tree of pages is left out: a page is the row of its table.
\<close>

section \<open>Variants\<close>

definition variant_of :: "SupportedVariant \<Rightarrow> string \<times> string \<times> string" where
  "variant_of v = (sv_language v, sv_variant_length v, sv_variant_industry v)"

definition variants_of_course :: "db \<Rightarrow> nat \<Rightarrow> SupportedVariant list" where
  "variants_of_course s i = filter (\<lambda>v. \<not> sv_of_contract v \<and> sv_object_id v = i) (supported_variants s)"

definition variants_of_contract :: "db \<Rightarrow> nat \<Rightarrow> SupportedVariant list" where
  "variants_of_contract s i = filter (\<lambda>v. sv_of_contract v \<and> sv_object_id v = i) (supported_variants s)"

definition course_default_variant_options :: "db \<Rightarrow> Course \<Rightarrow> SupportedVariant option" where
  "course_default_variant_options s c = first (filter sv_default_variant (variants_of_course s (crs_id c)))"

definition contract_default_variant_options :: "db \<Rightarrow> Contract \<Rightarrow> SupportedVariant option" where
  "contract_default_variant_options s c = first (filter sv_default_variant (variants_of_contract s (ctr_id c)))"

text \<open>One default for an object, which is not only for contracts.\<close>

definition save_supported_variant :: "(string \<Rightarrow> bool) \<Rightarrow> SupportedVariant \<Rightarrow> unit op" where
  "save_supported_variant lang v =
     bindP (liftE (\<lambda>_. clean_language lang (sv_language v))) (\<lambda>_.
     bindP (gets (\<lambda>s. exists_row (\<lambda>w. sv_id w \<noteq> sv_id v \<and> sv_default_variant w
        \<and> sv_of_contract w = sv_of_contract v \<and> sv_object_id w = sv_object_id v) (supported_variants s))) (\<lambda>another.
     if sv_default_variant v \<and> (another \<or> sv_b2b_only v) then raise IntegrityError
     else modify (\<lambda>s. s\<lparr>supported_variants :=
        (if exists_row (\<lambda>w. sv_id w = sv_id v) (supported_variants s)
         then update_rows (\<lambda>w. sv_id w = sv_id v) (\<lambda>_. v) (supported_variants s)
         else supported_variants s @ [v])\<rparr>)))"

definition validate_variant_run :: "db \<Rightarrow> Course \<Rightarrow> CourseRun \<Rightarrow> bool" where
  "validate_variant_run s c r \<longleftrightarrow> crs_id (run_course r) = crs_id c
     \<and> exists_row (\<lambda>v. variant_of v = run_variant r \<and> sv_b2b_only v = (run_b2b_contract r \<noteq> None)) (variants_of_course s (crs_id c))"

text \<open>The courses with a variant that the contract has; a contract without variants fails on
  \<open>filter(None)\<close>.\<close>

definition get_variant_courses :: "db \<Rightarrow> Contract \<Rightarrow> bool \<Rightarrow> exn + nat list" where
  "get_variant_courses s c only_relevant =
     (if variants_of_contract s (ctr_id c) = [] then Inl PyTypeError
      else Inr (map sv_object_id (filter (\<lambda>v. \<not> sv_of_contract v \<and> (sv_b2b_only v \<or> sv_default_variant v)
        \<and> variant_of v \<in> variant_of ` set (variants_of_contract s (ctr_id c))
        \<and> (only_relevant \<longrightarrow> sv_object_id v \<in> (crs_id \<circ> run_course) ` set (contract_runs s c))) (supported_variants s))))"

definition get_all_variant_runs :: "db \<Rightarrow> Contract \<Rightarrow> CourseRun list" where
  "get_all_variant_runs s c =
     (if contract_default_variant_options s c = None then []
      else filter (\<lambda>r. run_variant r \<in> variant_of ` set (variants_of_contract s (ctr_id c))) (contract_runs s c))"

section \<open>The keys of contract runs\<close>

text \<open>The year of a time in seconds since 1970, in the Gregorian calendar.\<close>

definition year_of :: "int \<Rightarrow> int" where
  "year_of t =
     (let z = t div 86400 + 719468; era = z div 146097; doe = z - era * 146097;
          yoe = (doe - doe div 1460 + doe div 36524 - doe div 146096) div 365;
          doy = doe - (365 * yoe + yoe div 4 - yoe div 100);
          mp = (5 * doy + 2) div 153
      in yoe + era * 400 + (if mp < 10 then 0 else 1))"

function show_pos :: "int \<Rightarrow> string" where
  "show_pos n = (if n < 10 then [''0123456789'' ! nat n] else show_pos (n div 10) @ [''0123456789'' ! nat (n mod 10)])"
  by auto

termination
  by (relation "measure nat") auto

declare show_pos.simps [simp del]

definition show_int :: "int \<Rightarrow> string" where
  "show_int n = (if n < 0 then CHR ''-'' # show_pos (- n) else show_pos n)"

definition organization_of :: "db \<Rightarrow> Contract \<Rightarrow> exn + Organization" where
  "organization_of s c = get_one (filter (\<lambda>o1. orgn_id o1 = ctr_organization c) (organizations s))"

definition key_prefix :: "Organization \<Rightarrow> string option \<Rightarrow> string" where
  "key_prefix o1 p = (if has_text p then the p else if orgn_org_key_prefix o1 \<noteq> [] then orgn_org_key_prefix o1 else ''UAI_'')"

definition contract_run_tag :: "string \<Rightarrow> Contract \<Rightarrow> int \<Rightarrow> string" where
  "contract_run_tag i c t = i @ ''T'' @ show_int (int (ctr_id c)) @ ''C'' @ show_int (year_of t)"

definition ends_with :: "string \<Rightarrow> string \<Rightarrow> bool" where
  "ends_with e t \<longleftrightarrow> drop (length t - length e) t = e"

fun split_T :: "string \<Rightarrow> string list" where
  "split_T [] = [[]]"
| "split_T (c # cs) = (if c = CHR ''T'' then [] # split_T cs
     else (case split_T cs of [] \<Rightarrow> [[c]] | t # ts \<Rightarrow> (c # t) # ts))"

text \<open>The number before the only \<open>T\<close> of the run in a key.\<close>

definition run_number :: "key_parser \<Rightarrow> string \<Rightarrow> exn + int" where
  "run_number ck key =
     bindE (course_key ck key) (\<lambda>(_, _, run).
     case split_T run of
       [a, b] \<Rightarrow> (case parse_int a of None \<Rightarrow> Inl PyValueError | Some n \<Rightarrow> Inr n)
     | _ \<Rightarrow> Inl PyValueError)"

text \<open>The keys are compared as texts, by code points.\<close>

definition last_run_with_tag :: "db \<Rightarrow> CourseRun \<Rightarrow> string \<Rightarrow> string \<Rightarrow> CourseRun option" where
  "last_run_with_tag s source new_key ending =
     (let rs = filter (\<lambda>r. starts_with new_key (run_courseware_id r) \<and> ends_with ending (run_tag r)
                 \<and> run_variant r = run_variant source) (usable_runs s)
      in first (filter (\<lambda>r. \<forall>x \<in> set rs. run_courseware_id x \<le> run_courseware_id r) rs))"

definition create_contract_run_key :: "key_parser \<Rightarrow> CourseRun \<Rightarrow> Contract \<Rightarrow> string option \<Rightarrow> (string \<times> string \<times> string) op" where
  "create_contract_run_key ck source c prefix =
     bindP (liftE (\<lambda>s. organization_of s c)) (\<lambda>o1.
     bindP (liftE (\<lambda>_. course_key ck (run_courseware_id source))) (\<lambda>(_, course, _).
     let new_key = ''course-v1:'' @ key_prefix o1 prefix @ orgn_org_key o1 @ ''+'' @ course in
     bindP (gets (\<lambda>s. last_run_with_tag s source new_key (contract_run_tag [] c (now s)))) (\<lambda>latest.
     bindP (liftE (\<lambda>_. case latest of None \<Rightarrow> Inr 1
        | Some r \<Rightarrow> bindE (run_number ck (run_courseware_id r)) (\<lambda>n. Inr (n + 1)))) (\<lambda>n.
     liftE (\<lambda>s. course_key ck (new_key @ ''+'' @ contract_run_tag (show_int n) c (now s)))))))"

section \<open>Source runs\<close>

record run_choice =
  ch_require_designated :: bool
  ch_ignore_langs :: bool
  ch_only_lang :: "string option"
  ch_filter_variants :: "SupportedVariant list"
  ch_no_variants :: bool

definition source_runs :: "db \<Rightarrow> nat \<Rightarrow> CourseRun list" where
  "source_runs s i = filter (\<lambda>r. crs_id (run_course r) = i \<and> (run_is_source_run r \<or> run_tag r = ''SOURCE'')) (course_runs s)"

text \<open>The variants that are asked for; the code indexes the first one.\<close>

definition wanted_variants :: "db \<Rightarrow> Course \<Rightarrow> run_choice \<Rightarrow> (string \<times> string \<times> string) list" where
  "wanted_variants s c ch =
     (let vs = map variant_of (filter sv_active (variants_of_course s (crs_id c)));
          vs = (if ch_filter_variants ch = [] then vs else filter (\<lambda>v. v \<in> variant_of ` set (ch_filter_variants ch)) vs)
      in if has_text (ch_only_lang ch) then filter (\<lambda>v. fst v = the (ch_only_lang ch)) vs else vs)"

definition matching_source_runs :: "db \<Rightarrow> Course \<Rightarrow> run_choice \<Rightarrow> exn + CourseRun list" where
  "matching_source_runs s c ch =
     (let src = source_runs s (crs_id c); default = course_default_variant_options s c in
      case default of
        Some d \<Rightarrow>
          if ch_ignore_langs ch
          then Inr (sort_key (\<lambda>r. if run_is_primary_language r then 0 else 1 :: nat)
                 (filter (\<lambda>r. run_language r \<in> {[], ''en''} \<or> run_is_primary_language r) src))
          else if ch_no_variants ch then Inr (filter (\<lambda>r. run_variant r = variant_of d) src)
          else let vs = wanted_variants s c ch in
            if vs = [] then Inl PyIndexError else Inr (filter (\<lambda>r. run_variant r \<in> set vs) src)
      | None \<Rightarrow> Inr (sort_key (\<lambda>r. if run_is_primary_language r then 0 else 1 :: nat)
                 (filter (\<lambda>r. run_language r \<in> {[], ''en''} \<or> run_is_primary_language r) src)))"

text \<open>The runs, or the single run that is returned when there is no source run.\<close>

datatype found_runs = SourceRuns "CourseRun list" | SingleRun CourseRun

definition newest_open_run :: "db \<Rightarrow> nat \<Rightarrow> CourseRun option" where
  "newest_open_run s i = first (rev (sort_key run_id (filter (\<lambda>r. crs_id (run_course r) = i \<and> run_b2b_contract r = None) (course_runs s))))"

definition get_source_runs_for_course :: "db \<Rightarrow> Course \<Rightarrow> run_choice \<Rightarrow> exn + found_runs" where
  "get_source_runs_for_course s c ch =
     bindE (matching_source_runs s c ch) (\<lambda>rs.
     if rs \<noteq> [] then Inr (SourceRuns rs)
     else if ch_require_designated ch then Inl SourceCourseIncompleteError
     else case newest_open_run s (crs_id c) of
            None \<Rightarrow> Inl SourceCourseIncompleteError
          | Some r \<Rightarrow> Inr (SingleRun r))"

section \<open>The runs of a contract\<close>

definition variant_suffix :: "CourseRun \<Rightarrow> string" where
  "variant_suffix r = concat (map (\<lambda>t. if t = [] then [] else ''_'' @ t) [run_language r, run_variant_industry r, run_variant_length r])"

definition has_contract_run :: "db \<Rightarrow> Course \<Rightarrow> Contract \<Rightarrow> CourseRun \<Rightarrow> bool" where
  "has_contract_run s c k source = exists_row (\<lambda>r. crs_id (run_course r) = crs_id c
     \<and> map_option ctr_id (run_b2b_contract r) = Some (ctr_id k) \<and> run_variant r = run_variant source) (usable_runs s)"

definition contract_run :: "db \<Rightarrow> Course \<Rightarrow> Contract \<Rightarrow> CourseRun \<Rightarrow> string \<times> string \<times> string \<Rightarrow> CourseRun" where
  "contract_run s c k source key =
     (let start = (case ctr_start k of None \<Rightarrow> now s | Some d \<Rightarrow> d * 86400); over = map_option (\<lambda>d. d * 86400) (ctr_end k)
      in (new_run c (key_text key @ variant_suffix source) (snd (snd key)))\<lparr>run_title := run_title source,
           run_start_date := Some start, run_end_date := over, run_enrollment_start := Some start,
           run_enrollment_end := over, run_certificate_available_date := Some start, run_is_self_paced := True,
           run_live := True, run_b2b_contract := Some k, run_language := run_language source,
           run_is_primary_language := run_is_primary_language source, run_variant_length := run_variant_length source,
           run_variant_industry := run_variant_industry source\<rparr>)"

text \<open>The product of a new run and its first version.\<close>

definition contract_run_description :: "Organization \<Rightarrow> Contract \<Rightarrow> Course \<Rightarrow> CourseRun \<Rightarrow> string" where
  "contract_run_description o1 k c r = orgn_name o1 @ '' #'' @ show_nat (ctr_id k) @ '' - '' @ crs_title c @ '' ''
     @ crs_readable_id c @ (if run_language r = [] then [] else '' ['' @ variant_suffix r @ '']'')"

definition add_run_product :: "rat \<Rightarrow> string \<Rightarrow> CourseRun \<Rightarrow> Product op" where
  "add_run_product price description r = (\<lambda>s.
     let p = \<lparr>prod_id = next_id s, prod_content_type = CT_CourseRun, prod_object_id = run_id r, prod_price = price,
              prod_description = description, prod_is_active = True\<rparr>
     in if exists_row (\<lambda>p. prod_content_type p = CT_CourseRun \<and> prod_object_id p = run_id r) (products s)
        then (Inl IntegrityError, s)
        else (Inr p, s\<lparr>products := products s @ [p], versions := versions s @
               [\<lparr>ver_id = Suc (next_id s), ver_object_id = prod_id p, ver_field_dict = p\<rparr>],
               next_id := Suc (Suc (next_id s))\<rparr>))"

record contract_run_options =
  co_choice :: run_choice
  co_skip_edx :: bool
  co_org_prefix :: "string option"
  co_no_reruns :: bool
  co_queue_codes :: bool

definition clone_for_contract ::
  "(string \<Rightarrow> bool) \<Rightarrow> key_parser \<Rightarrow> Contract \<Rightarrow> Course \<Rightarrow> contract_run_options
   \<Rightarrow> (CourseRun \<times> Product) list \<Rightarrow> CourseRun \<Rightarrow> (CourseRun \<times> Product) list op" where
  "clone_for_contract lang ck k c opts results source =
     bindP (create_contract_run_key ck source k (co_org_prefix opts)) (\<lambda>key.
     bindP (gets (\<lambda>s. has_contract_run s c k source)) (\<lambda>present.
     if present \<and> co_no_reruns opts then ret results
     else bindP (gets (\<lambda>s. contract_run s c k source key)) (\<lambda>r.
       bindP (create_run lang r) (\<lambda>r.
       bindP (gets (\<lambda>s. filter (\<lambda>m. m \<in> {verified_mode, audit_mode}) (map em_slug (enrollment_modes s)))) (\<lambda>modes.
       thenP (add_modes (run_id r) modes)
       (thenP (whenP (\<not> co_skip_edx opts) (emit (CloneCourserun (run_id r) (run_courseware_id source))))
       (bindP (liftE (\<lambda>s. organization_of s k)) (\<lambda>o1.
        bindP (add_run_product (contract_price k) (contract_run_description o1 k c r) r) (\<lambda>p.
          ret (results @ [(r, p)]))))))))))"

text \<open>The contract is saved with the columns of the object that was passed.\<close>

definition save_contract :: "Contract \<Rightarrow> unit op" where
  "save_contract k = modify (\<lambda>s. s\<lparr>contracts := update_rows (\<lambda>x. ctr_id x = ctr_id k) (\<lambda>_. k) (contracts s)\<rparr>)"

text \<open>A single run cannot be iterated over.\<close>

definition create_contract_run ::
  "(string \<Rightarrow> bool) \<Rightarrow> key_parser \<Rightarrow> Contract \<Rightarrow> Course \<Rightarrow> contract_run_options \<Rightarrow> (CourseRun \<times> Product) list op" where
  "create_contract_run lang ck k c opts =
     bindP (liftE (\<lambda>s. get_source_runs_for_course s c ((co_choice opts)\<lparr>ch_no_variants := False\<rparr>))) (\<lambda>found.
     case found of
       SingleRun r \<Rightarrow> raise PyTypeError
     | SourceRuns rs \<Rightarrow>
         bindP (foldP (clone_for_contract lang ck k c opts) [] rs) (\<lambda>results.
         thenP (whenP (co_queue_codes opts) (emit (CheckEnrollmentCodes (ctr_id k))))
         (thenP (save_contract k) (ret results))))"

definition import_and_create_contract_run ::
  "run_client \<Rightarrow> (string \<Rightarrow> bool) \<Rightarrow> key_parser \<Rightarrow> (string \<Rightarrow> string option) \<Rightarrow> Contract \<Rightarrow> string \<Rightarrow> import_options
   \<Rightarrow> contract_run_options \<Rightarrow> (CourseRun \<times> Product) list op" where
  "import_and_create_contract_run cl lang ck country k key io opts =
     bindP (gets (\<lambda>s. filter (\<lambda>r. run_courseware_id r = key) (course_runs s))) (\<lambda>known.
     bindP (if known \<noteq> [] then liftE (\<lambda>_. get_one known)
       else bindP (import_courserun_from_edx cl lang ck country key (io\<lparr>io_price := None, io_is_source_run := True,
               io_language := ''en'', io_is_primary_language := False, io_variant_length := [], io_variant_industry := []\<rparr>)) (\<lambda>r.
         case r of None \<Rightarrow> raise PyValueError | Some r \<Rightarrow> ret r)) (\<lambda>r.
     create_contract_run lang ck k (run_course r) (opts\<lparr>co_no_reruns := False, co_queue_codes := False,
       co_choice := \<lparr>ch_require_designated = ch_require_designated (co_choice opts), ch_ignore_langs = False,
         ch_only_lang = None, ch_filter_variants = [], ch_no_variants = False\<rparr>\<rparr>)))"

section \<open>The programs of a contract\<close>

definition courses_of_program :: "db \<Rightarrow> Program \<Rightarrow> Course list" where
  "courses_of_program s g = filter (\<lambda>c. crs_id c \<in> courses_qset s g) (courses s)"

definition save_program_item :: "Contract \<Rightarrow> Program \<Rightarrow> int \<Rightarrow> bool \<Rightarrow> unit op" where
  "save_program_item k g order skip_run_creation =
     bindP (gets (\<lambda>s. exists_row (\<lambda>i. cpi_contract i = ctr_id k \<and> cpi_program i = prg_id g) (contract_programs s))) (\<lambda>present.
     if present then raise IntegrityError
     else thenP (modify (\<lambda>s. s\<lparr>contract_programs := contract_programs s
            @ [\<lparr>cpi_contract = ctr_id k, cpi_program = prg_id g, cpi_sort_order = order\<rparr>]\<rparr>))
       (whenP (\<not> skip_run_creation) (bindP (liftE (\<lambda>s. organization_of s k)) (\<lambda>o1.
          emit (CreateContractRuns (ctr_id k) (prg_id g) (orgn_org_key_prefix o1))))))"

definition next_sort_order :: "db \<Rightarrow> Contract \<Rightarrow> int" where
  "next_sort_order s k =
     (let os = map cpi_sort_order (filter (\<lambda>i. cpi_contract i = ctr_id k) (contract_programs s))
      in if os = [] then 0 else Max (set os) + 1)"

text \<open>The numbers of runs that were created and of courses without a source run.\<close>

definition add_program_courses ::
  "(string \<Rightarrow> bool) \<Rightarrow> key_parser \<Rightarrow> Contract \<Rightarrow> Program \<Rightarrow> int option \<Rightarrow> contract_run_options \<Rightarrow> (nat \<times> nat) op" where
  "add_program_courses lang ck k g order opts =
     bindP (gets (\<lambda>s. courses_of_program s g)) (\<lambda>cs.
     bindP (gets (\<lambda>s. filter (\<lambda>c. source_runs s (crs_id c) = []) cs)) (\<lambda>without.
     bindP (gets (\<lambda>s. filter (\<lambda>c. source_runs s (crs_id c) \<noteq> []) cs)) (\<lambda>with_source.
     bindP (foldP (\<lambda>n c. bindP (create_contract_run lang ck k c (opts\<lparr>co_org_prefix := Some ''UAI_'', co_queue_codes := False,
         co_choice := (co_choice opts)\<lparr>ch_require_designated := True\<rparr>\<rparr>)) (\<lambda>rs. ret (n + length rs))) 0 with_source) (\<lambda>managed.
     bindP (gets (\<lambda>s. case order of None \<Rightarrow> next_sort_order s k | Some n \<Rightarrow> n)) (\<lambda>n.
     bindP (gets (\<lambda>s. exists_row (\<lambda>i. cpi_contract i = ctr_id k \<and> cpi_program i = prg_id g) (contract_programs s))) (\<lambda>present.
     thenP (whenP (\<not> present) (save_program_item k g n True)) (ret (managed, length without))))))))"

text \<open>The task: the numbers of created and skipped courses; \<open>None\<close> if another one runs.\<close>

definition create_program_contract_runs ::
  "(string \<Rightarrow> bool) \<Rightarrow> key_parser \<Rightarrow> bool \<Rightarrow> nat \<Rightarrow> nat \<Rightarrow> string option \<Rightarrow> (nat \<times> nat) option op" where
  "create_program_contract_runs lang ck locked contract program prefix =
     (if locked then ret None
      else bindP (liftE (\<lambda>s. get_one (filter (\<lambda>k. ctr_id k = contract) (contracts s)))) (\<lambda>k.
        bindP (liftE (\<lambda>s. get_one (filter (\<lambda>g. prg_id g = program) (programs s)))) (\<lambda>g.
        bindP (gets (\<lambda>s. filter (\<lambda>c. source_runs s (crs_id c) \<noteq> []) (courses_of_program s g))) (\<lambda>cs.
        bindP (foldP (\<lambda>n c. case n of (created, skipped) \<Rightarrow>
            bindP (gets (\<lambda>s. exists_row (\<lambda>r. crs_id (run_course r) = crs_id c
                \<and> map_option ctr_id (run_b2b_contract r) = Some (ctr_id k)) (usable_runs s))) (\<lambda>present.
            if present then ret (created, Suc skipped)
            else bindP (create_contract_run lang ck k c \<lparr>co_choice = \<lparr>ch_require_designated = True, ch_ignore_langs = False,
                    ch_only_lang = None, ch_filter_variants = [], ch_no_variants = False\<rparr>, co_skip_edx = False,
                    co_org_prefix = prefix, co_no_reruns = False, co_queue_codes = False\<rparr>) (\<lambda>_.
              ret (Suc created, skipped)))) (0, 0) cs) (\<lambda>ns.
        ret (Some ns))))))"

section \<open>The contract that holds retired runs\<close>

definition RETIREMENT_ORG_KEY :: string where "RETIREMENT_ORG_KEY = ''RETIRED''"
definition RETIREMENT_ORG_NAME :: string where "RETIREMENT_ORG_NAME = ''Retired Runs''"
definition RETIREMENT_CONTRACT_NAME :: string where "RETIREMENT_CONTRACT_NAME = ''Retired Runs Holding Contract''"

definition retirement_organization :: "Organization op" where
  "retirement_organization =
     bindP (gets (\<lambda>s. first (filter (\<lambda>o1. orgn_org_key o1 = RETIREMENT_ORG_KEY) (organizations s)))) (\<lambda>found.
     case found of
       Some o1 \<Rightarrow> ret o1
     | None \<Rightarrow> bindP fresh_id (\<lambda>i.
         let o1 = \<lparr>orgn_id = i, orgn_sso_organization_id = None, orgn_org_key = RETIREMENT_ORG_KEY, orgn_org_key_prefix = [],
                   orgn_name = RETIREMENT_ORG_NAME\<rparr>
         in thenP (modify (\<lambda>s. s\<lparr>organizations := organizations s @ [o1]\<rparr>)) (ret o1)))"

definition get_or_create_retirement_contract :: "Contract op" where
  "get_or_create_retirement_contract =
     bindP retirement_organization (\<lambda>o1.
     bindP (gets (\<lambda>s. first (filter (\<lambda>k. ctr_organization k = orgn_id o1 \<and> ctr_name k = RETIREMENT_CONTRACT_NAME) (contracts s)))) (\<lambda>found.
     case found of
       Some k \<Rightarrow> ret k
     | None \<Rightarrow> bindP fresh_id (\<lambda>i.
         let k = \<lparr>ctr_id = i, ctr_organization = orgn_id o1, ctr_active = False, ctr_start = None, ctr_end = None,
                  ctr_fixed_price = None, ctr_max_learners = Some 0, ctr_membership_type = ''managed'',
                  ctr_name = RETIREMENT_CONTRACT_NAME\<rparr>
         in thenP (modify (\<lambda>s. s\<lparr>contracts := contracts s @ [k]\<rparr>)) (ret k))))"

definition check_retirement_contract_collision :: "db \<Rightarrow> CourseRun \<Rightarrow> Contract \<Rightarrow> exn + unit" where
  "check_retirement_contract_collision s r k =
     (let siblings = filter (\<lambda>x. crs_id (run_course x) = crs_id (run_course r) \<and> run_tag x = run_tag r
             \<and> run_is_source_run x = run_is_source_run r \<and> map_option ctr_id (run_b2b_contract x) = Some (ctr_id k)
             \<and> run_id x \<noteq> run_id r) (course_runs s)
      in if run_language r \<noteq> [] \<and> list_ex (\<lambda>x. run_variant x = run_variant r) siblings
         then Inl RetirementContractCollisionError
         else if run_is_primary_language r \<and> list_ex run_is_primary_language siblings
         then Inl RetirementContractCollisionError else Inr ())"

definition move_run_to_retirement_contract :: "(string \<Rightarrow> bool) \<Rightarrow> CourseRun \<Rightarrow> Contract op" where
  "move_run_to_retirement_contract lang r =
     bindP get_or_create_retirement_contract (\<lambda>k.
     if map_option ctr_id (run_b2b_contract r) = Some (ctr_id k) then ret k
     else bindP (liftE (\<lambda>s. check_retirement_contract_collision s r k)) (\<lambda>_.
       thenP (save_run lang (r\<lparr>run_b2b_contract := Some k\<rparr>)) (ret k)))"

end
