(* ===== verification/ContractRunLife.thy ===== *)
theory ContractRunLife
  imports RunLife ContractRuns
begin

text \<open>
  What holds of the runs of contracts (\<open>ContractRuns\<close>): the unique constraints of runs through the operations
  that make and move them, which moves to the contract of retired runs are refused, and that the run of
  a variant is not made twice.
\<close>

section \<open>The unique constraints\<close>

lemma keeps_run_key [keeps_intro]: "keeps P (create_contract_run_key ck source k prefix)"
  unfolding create_contract_run_key_def Let_def by (intro keeps_intro)

lemma keeps_emit_runs [keeps_intro]: "keeps (runs_from n) (emit e)"
  by (rule keeps_runs_frame) (simp add: emit_def modify_def)

lemma keeps_add_run_product [keeps_intro]: "keeps (runs_from n) (add_run_product price description r)"
  by (rule keeps_runs_frame) (simp add: add_run_product_def Let_def)

lemma keeps_contract_rows [keeps_intro]:
  "keeps (runs_from n) (modify (\<lambda>s. s\<lparr>organizations := f s\<rparr>))" "keeps (runs_from n) (modify (\<lambda>s. s\<lparr>contracts := g s\<rparr>))"
  "keeps (runs_from n) (modify (\<lambda>s. s\<lparr>contract_programs := h s\<rparr>))" "keeps (runs_from n) (modify (\<lambda>s. s\<lparr>supported_variants := v s\<rparr>))"
  by (rule keeps_runs_frame, simp add: modify_def)+

lemma keeps_save_contract [keeps_intro]: "keeps (runs_from n) (save_contract k)"
  unfolding save_contract_def by (intro keeps_intro)

lemma keeps_clone_for_contract [keeps_intro]: "keeps (runs_from n) (clone_for_contract lang ck k c opts results source)"
  unfolding clone_for_contract_def by (intro keeps_intro)

lemma keeps_create_contract_run [keeps_intro]: "keeps (runs_from n) (create_contract_run lang ck k c opts)"
proof -
  have "keeps (runs_from n) (case found of SingleRun r \<Rightarrow> raise PyTypeError
     | SourceRuns rs \<Rightarrow> bindP (foldP (clone_for_contract lang ck k c opts) [] rs) (\<lambda>results.
         thenP (whenP (co_queue_codes opts) (emit (CheckEnrollmentCodes (ctr_id k)))) (thenP (save_contract k) (ret results))))" for found
    by (cases found) (auto intro!: keeps_intro)
  then show ?thesis unfolding create_contract_run_def by (intro keeps_intro)
qed

lemma keeps_import_and_create: "keeps (runs_from n) (import_and_create_contract_run cl lang ck country k key io opts)"
  unfolding import_and_create_contract_run_def import_courserun_from_edx_def by (intro keeps_intro)

lemma keeps_save_program_item [keeps_intro]: "keeps (runs_from n) (save_program_item k g order skip)"
  unfolding save_program_item_def by (intro keeps_intro)

lemma keeps_add_program_courses: "keeps (runs_from n) (add_program_courses lang ck k g order opts)"
  unfolding add_program_courses_def by (intro keeps_intro)

lemma keeps_create_program_contract_runs: "keeps (runs_from n) (create_program_contract_runs lang ck locked contract program prefix)"
  unfolding create_program_contract_runs_def by (intro keeps_intro)

lemma keeps_retirement_contract [keeps_intro]: "keeps (runs_from n) get_or_create_retirement_contract"
  unfolding get_or_create_retirement_contract_def retirement_organization_def Let_def by (intro keeps_intro)

lemma keeps_move: "keeps (runs_from n) (move_run_to_retirement_contract lang r)"
  unfolding move_run_to_retirement_contract_def by (intro keeps_intro)

inductive contract_run_step :: "db \<Rightarrow> db \<Rightarrow> bool" where
  run: "run_step s t \<Longrightarrow> contract_run_step s t"
| create: "contract_run_step s (snd (create_contract_run lang ck k c opts s))"
| import_and_create: "contract_run_step s (snd (import_and_create_contract_run cl lang ck country k key io opts s))"
| program: "contract_run_step s (snd (add_program_courses lang ck k g order opts s))"
| task: "contract_run_step s (snd (create_program_contract_runs lang ck locked contract program prefix s))"
| move: "contract_run_step s (snd (move_run_to_retirement_contract lang r s))"

lemma contract_run_step_ok: "contract_run_step s t \<Longrightarrow> runs_from n s \<Longrightarrow> runs_from n t"
  by (cases rule: contract_run_step.cases)
    (auto intro: run_step_ok keeps_create_contract_run [THEN keepsD] keeps_import_and_create [THEN keepsD]
      keeps_add_program_courses [THEN keepsD] keeps_create_program_contract_runs [THEN keepsD] keeps_move [THEN keepsD])

lemma contract_runs_stay_ok: "contract_run_step\<^sup>*\<^sup>* s t \<Longrightarrow> runs_ok s \<Longrightarrow> runs_ok t"
proof -
  assume "contract_run_step\<^sup>*\<^sup>* s t" "runs_ok s"
  then have "runs_from 0 t"
    by (induction rule: rtranclp_induct) (auto simp: runs_from_def dest: contract_run_step_ok [of _ _ 0])
  then show ?thesis by (simp add: runs_from_def)
qed

section \<open>Moving a run\<close>

text \<open>The check refuses a move exactly when the constraints of the table would.\<close>

lemma collision_exact:
  assumes ok: "runs_ok s" and r: "r \<in> set (course_runs s)"
  shows "check_retirement_contract_collision s r k
    = (if run_refused (r\<lparr>run_b2b_contract := Some k\<rparr>) s then Inl RetirementContractCollisionError else Inr ())"
proof -
  have "run_courseware_id x \<noteq> run_courseware_id r" if "x \<in> set (course_runs s)" "run_id x \<noteq> run_id r" for x
    using ok r that by (auto simp: runs_ok_def runs_clash_def)
  then show ?thesis
    by (auto simp: check_retirement_contract_collision_def run_refused_def runs_clash_def run_group_def run_variant_def
        exists_row_def list_ex_iff Let_def)
qed

lemma retirement_contract_frame:
  "\<exists>k t. get_or_create_retirement_contract s = (Inr k, t) \<and> course_runs t = course_runs s \<and> next_id s \<le> next_id t"
proof -
  obtain o1 u where u: "retirement_organization s = (Inr o1, u)" "course_runs u = course_runs s" "next_id s \<le> next_id u"
    by (cases "first (filter (\<lambda>o1. orgn_org_key o1 = RETIREMENT_ORG_KEY) (organizations s))")
      (auto simp: retirement_organization_def gets_bind fresh_id_def bindP_Inr thenP_def modify_def ret_def Let_def)
  show ?thesis
    by (cases "first (filter (\<lambda>k. ctr_organization k = orgn_id o1 \<and> ctr_name k = RETIREMENT_CONTRACT_NAME) (contracts u))")
      (use u in \<open>simp_all add: get_or_create_retirement_contract_def bindP_Inr gets_bind fresh_id_def thenP_def modify_def ret_def Let_def\<close>)
qed

text \<open>A move succeeds or is refused by the check: the table does not refuse it.\<close>

lemma move_or_collision:
  assumes ok: "runs_ok s" and r: "r \<in> set (course_runs s)" and clean: "clean_course_run lang r = Inr ()"
  shows "(\<exists>k x. fst (move_run_to_retirement_contract lang r s) = Inr k
      \<and> x \<in> set (course_runs (snd (move_run_to_retirement_contract lang r s)))
      \<and> run_id x = run_id r \<and> map_option ctr_id (run_b2b_contract x) = Some (ctr_id k))
    \<or> fst (move_run_to_retirement_contract lang r s) = Inl RetirementContractCollisionError"
proof -
  obtain k u where k: "get_or_create_retirement_contract s = (Inr k, u)" "course_runs u = course_runs s" "next_id s \<le> next_id u"
    using retirement_contract_frame by blast
  have oku: "runs_ok u" using runs_ok_frame [OF k(2,3) ok] .
  let ?r = "r\<lparr>run_b2b_contract := Some k\<rparr>"
  show ?thesis
  proof (cases "map_option ctr_id (run_b2b_contract r) = Some (ctr_id k)")
    case True
    then show ?thesis using k r by (auto simp: move_run_to_retirement_contract_def bindP_Inr ret_def)
  next
    case False
    have clean': "clean_course_run lang ?r = Inr ()"
      using clean by (simp add: clean_course_run_def cong: option.case_cong if_cong)
    show ?thesis
    proof (cases "run_refused ?r u")
      case True
      then show ?thesis using False collision_exact [OF oku, of r k] k r
        by (simp add: move_run_to_retirement_contract_def bindP_Inr liftE_bind del: map_option_eq_Some)
    next
      case free: False
      have "save_run lang ?r u = (Inr (), map_runs (replace_run ?r) u)"
        using clean' free by (simp add: save_run_def liftE_bind gets_bind modify_def)
      then have move: "move_run_to_retirement_contract lang r s = (Inr k, map_runs (replace_run ?r) u)"
        using False free collision_exact [OF oku, of r k] k r
        by (simp add: move_run_to_retirement_contract_def bindP_Inr liftE_bind thenP_def ret_def del: map_option_eq_Some)
      have "replace_run ?r r \<in> set (course_runs (map_runs (replace_run ?r) u))" using r k(2) by (simp add: map_runs_def)
      then show ?thesis unfolding move by (force simp: replace_run_def)
    qed
  qed
qed

section \<open>Every variant gets its run\<close>

text \<open>What a run is made for, and that making runs keeps the runs and products that are there.\<close>

definition run_purposes :: "db \<Rightarrow> (nat \<times> nat \<times> nat option \<times> string \<times> string \<times> string) set" where
  "run_purposes s = (\<lambda>x. (run_id x, crs_id (run_course x), map_option ctr_id (run_b2b_contract x), run_variant x)) ` set (course_runs s)"

definition serves :: "db \<Rightarrow> Course \<Rightarrow> Contract \<Rightarrow> CourseRun \<Rightarrow> bool" where
  "serves s c k source \<longleftrightarrow> (\<exists>i. (i, crs_id c, Some (ctr_id k), run_variant source) \<in> run_purposes s)"

definition offered :: "db \<Rightarrow> Course \<Rightarrow> Contract \<Rightarrow> CourseRun \<times> Product \<Rightarrow> bool" where
  "offered s c k rp \<longleftrightarrow> (\<exists>v. (run_id (fst rp), crs_id c, Some (ctr_id k), v) \<in> run_purposes s)
     \<and> snd rp \<in> set (products s) \<and> prod_is_active (snd rp) \<and> prod_content_type (snd rp) = CT_CourseRun
     \<and> prod_object_id (snd rp) = run_id (fst rp) \<and> prod_price (snd rp) = contract_price k"

definition only_adds :: "db \<Rightarrow> db \<Rightarrow> bool" where
  "only_adds s t \<longleftrightarrow> run_purposes s \<subseteq> run_purposes t \<and> set (products s) \<subseteq> set (products t)"

lemma adds_refl [simp]: "only_adds s s"
  by (simp add: only_adds_def)

lemma adds_trans: "only_adds s t \<Longrightarrow> only_adds t u \<Longrightarrow> only_adds s u"
  unfolding only_adds_def by blast

lemma adds_serves: "only_adds s t \<Longrightarrow> serves s c k source \<Longrightarrow> serves t c k source"
  unfolding only_adds_def serves_def by blast

lemma adds_offered: "only_adds s t \<Longrightarrow> offered s c k rp \<Longrightarrow> offered t c k rp"
  unfolding only_adds_def offered_def by blast

lemma created_run:
  assumes "create_run lang r s = (Inr x, t)"
  shows "only_adds s t" "x = r\<lparr>run_id := run_id x\<rparr>" "x \<in> set (course_runs t)"
  using assms
  by (auto simp: create_run_def run_eqs fresh_id_def Let_def only_adds_def run_purposes_def split: if_splits)

lemma mapped_purposes:
  assumes "\<And>x. (run_id (f x), crs_id (run_course (f x)), map_option ctr_id (run_b2b_contract (f x)), run_variant (f x))
      = (run_id x, crs_id (run_course x), map_option ctr_id (run_b2b_contract x), run_variant x)"
  shows "run_purposes (map_runs f s) = run_purposes s"
  unfolding run_purposes_def map_runs_def using assms by (simp add: image_image)

lemma added_modes:
  assumes "add_modes i modes s = (r, t)"
  shows "run_purposes t = run_purposes s" "products t = products s"
proof -
  let ?f = "\<lambda>x. if run_id x = i
     then x\<lparr>run_enrollment_modes := run_enrollment_modes x @ filter (\<lambda>m. m \<notin> set (run_enrollment_modes x)) (remdups modes)\<rparr> else x"
  have t: "t = map_runs ?f s" using assms by (simp add: add_modes_def run_eqs)
  have "(run_id (?f x), crs_id (run_course (?f x)), map_option ctr_id (run_b2b_contract (?f x)), run_variant (?f x))
      = (run_id x, crs_id (run_course x), map_option ctr_id (run_b2b_contract x), run_variant x)" for x
    by (simp add: run_variant_def)
  from mapped_purposes [of ?f, OF this] show "run_purposes t = run_purposes s" unfolding t .
  show "products t = products s" by (simp add: t map_runs_def)
qed

lemma added_product:
  assumes "add_run_product price description r s = (Inr p, t)"
  shows "only_adds s t" "p \<in> set (products t)" "prod_is_active p" "prod_content_type p = CT_CourseRun"
    "prod_object_id p = run_id r" "prod_price p = price"
  using assms by (auto simp: add_run_product_def Let_def only_adds_def run_purposes_def split: if_splits)

lemma key_keeps_state: "create_contract_run_key ck source k prefix s = (Inr key, t) \<Longrightarrow> t = s"
  by (auto simp: create_contract_run_key_def run_eqs Let_def split: prod.splits)

lemma sent_keeps: "whenP b (emit e) s = (r, t) \<Longrightarrow> run_purposes t = run_purposes s \<and> products t = products s"
  by (auto simp: whenP_def emit_def ret_eq modify_eq run_purposes_def split: if_splits)

lemma saved_contract: "save_contract k s = (r, t) \<Longrightarrow> run_purposes t = run_purposes s \<and> products t = products s"
  by (auto simp: save_contract_def modify_eq run_purposes_def)

text \<open>One source run: the contract has a run of its variant afterwards, and a run that was made is sold.\<close>

lemma cloned_for_contract:
  assumes "clone_for_contract lang ck k c opts results source s = (Inr results', t)"
  shows "only_adds s t \<and> serves t c k source \<and> (\<exists>new. results' = results @ new \<and> (\<forall>rp \<in> set new. offered t c k rp))"
proof -
  obtain key where key: "create_contract_run_key ck source k (co_org_prefix opts) s = (Inr key, s)"
    using assms key_keeps_state unfolding clone_for_contract_def bindP_eq_Inr by blast
  show ?thesis
  proof (cases "has_contract_run s c k source \<and> co_no_reruns opts")
    case True
    then obtain x where "x \<in> set (course_runs s)" "(run_id x, crs_id c, Some (ctr_id k), run_variant source)
        = (run_id x, crs_id (run_course x), map_option ctr_id (run_b2b_contract x), run_variant x)"
      by (auto simp: has_contract_run_def exists_row_def list_ex_iff usable_runs_def)
    then have "serves s c k source" unfolding serves_def run_purposes_def by blast
    then show ?thesis using assms key True by (simp add: clone_for_contract_def bindP_Inr ret_eq)
  next
    case False
    have new: "clone_for_contract lang ck k c opts results source s = bindP (create_run lang (contract_run s c k source key)) (\<lambda>r.
       bindP (gets (\<lambda>s. filter (\<lambda>m. m \<in> {verified_mode, audit_mode}) (map em_slug (enrollment_modes s)))) (\<lambda>modes.
       thenP (add_modes (run_id r) modes)
       (thenP (whenP (\<not> co_skip_edx opts) (emit (CloneCourserun (run_id r) (run_courseware_id source))))
       (bindP (liftE (\<lambda>s. organization_of s k)) (\<lambda>o1.
        bindP (add_run_product (contract_price k) (contract_run_description o1 k c r) r) (\<lambda>p.
          ret (results @ [(r, p)]))))))) s"
      using False by (simp only: clone_for_contract_def bindP_Inr [where m = "create_contract_run_key ck source k (co_org_prefix opts)", OF key] gets_bind if_False)
    obtain r u w v p desc modes y z where made: "create_run lang (contract_run s c k source key) s = (Inr r, u)"
      and modes: "add_modes (run_id r) modes u = (Inr y, w)"
      and mailed: "whenP (\<not> co_skip_edx opts) (emit (CloneCourserun (run_id r) (run_courseware_id source))) w = (Inr z, v)"
      and sold: "add_run_product (contract_price k) desc r v = (Inr p, t)" and results: "results' = results @ [(r, p)]"
      using assms unfolding new bindP_eq_Inr thenP_eq_Inr liftE_eq_Inr gets_eq ret_eq by blast
    note asked = sent_keeps [OF mailed]
    note created_run [OF made] added_modes [OF modes] added_product [OF sold]
    note facts = this
    have "crs_id (run_course r) = crs_id c" "map_option ctr_id (run_b2b_contract r) = Some (ctr_id k)" "run_variant r = run_variant source"
      by (subst facts(2), simp add: contract_run_def Let_def new_run_def run_variant_def)+
    then have "(run_id r, crs_id c, Some (ctr_id k), run_variant source) \<in> run_purposes u"
      using facts(3) unfolding run_purposes_def by (metis (mono_tags, lifting) image_eqI)
    moreover have "only_adds u t" "only_adds s t" using facts asked by (auto simp: only_adds_def)
    ultimately have purpose: "(run_id r, crs_id c, Some (ctr_id k), run_variant source) \<in> run_purposes t" "only_adds s t"
      unfolding only_adds_def by blast+
    then have "serves t c k source" "offered t c k (r, p)"
      unfolding serves_def offered_def fst_conv snd_conv using facts by blast+
    then show ?thesis using purpose(2) results by simp
  qed
qed

lemma cloned_all_for_contract:
  "foldP (clone_for_contract lang ck k c opts) results rs s = (Inr results', t) \<Longrightarrow> only_adds s t
     \<and> (\<forall>source \<in> set rs. serves t c k source) \<and> (\<exists>new. results' = results @ new \<and> (\<forall>rp \<in> set new. offered t c k rp))"
proof (induction rs arbitrary: results s)
  case (Cons source rs)
  then obtain mid u where one: "clone_for_contract lang ck k c opts results source s = (Inr mid, u)"
    and rest: "foldP (clone_for_contract lang ck k c opts) mid rs u = (Inr results', t)" by (auto simp: bindP_eq_Inr)
  note first = cloned_for_contract [OF one] and others = Cons.IH [OF rest]
  obtain new1 where new1: "mid = results @ new1" "\<forall>rp \<in> set new1. offered u c k rp" using first by blast
  obtain new2 where new2: "results' = mid @ new2" "\<forall>rp \<in> set new2. offered t c k rp" using others by blast
  have "results' = results @ (new1 @ new2)" "\<forall>rp \<in> set (new1 @ new2). offered t c k rp"
    using new1 new2 others adds_offered by auto
  then show ?case using first others adds_trans adds_serves by (metis set_ConsD)
qed (auto simp: ret_eq)

lemma contract_gets_variants:
  assumes "create_contract_run lang ck k c opts s = (Inr results, t)"
  shows "\<exists>rs. get_source_runs_for_course s c ((co_choice opts)\<lparr>ch_no_variants := False\<rparr>) = Inr (SourceRuns rs)
    \<and> (\<forall>source \<in> set rs. serves t c k source) \<and> (\<forall>rp \<in> set results. offered t c k rp)"
proof -
  obtain found where found: "get_source_runs_for_course s c ((co_choice opts)\<lparr>ch_no_variants := False\<rparr>) = Inr found"
    using assms by (auto simp: create_contract_run_def run_eqs)
  then obtain rs where rs: "found = SourceRuns rs"
    using assms by (cases found) (auto simp: create_contract_run_def run_eqs)
  obtain u where all: "foldP (clone_for_contract lang ck k c opts) [] rs s = (Inr results, u)"
    and t: "run_purposes t = run_purposes u" "products t = products u"
    using assms found rs by (auto simp: create_contract_run_def run_eqs dest!: sent_keeps saved_contract)
  have "only_adds u t" using t by (simp add: only_adds_def)
  then show ?thesis using cloned_all_for_contract [OF all] found rs adds_serves adds_offered by (metis append_Nil)
qed

section \<open>No variant gets a second run\<close>

text \<open>The variants of the runs of a course that belong to a contract.  The unique constraints allow
  a variant more than once, with different tags.\<close>

definition contract_variants :: "db \<Rightarrow> nat \<Rightarrow> nat \<Rightarrow> (string \<times> string \<times> string) list" where
  "contract_variants s c k = map run_variant (filter (\<lambda>r. crs_id (run_course r) = c
     \<and> map_option ctr_id (run_b2b_contract r) = Some k) (usable_runs s))"

abbreviation one_run_each :: "nat \<Rightarrow> nat \<Rightarrow> db \<Rightarrow> bool" where
  "one_run_each c k s \<equiv> distinct (contract_variants s c k)"

lemma holds_bindP: "P (snd (m s)) \<Longrightarrow> (\<And>x. keeps P (f x)) \<Longrightarrow> P (snd (bindP m f s))"
  unfolding bindP_def keeps_def by (auto split: prod.split sum.split)

lemma keeps_one_run_frame: "(\<And>s. course_runs (snd (m s)) = course_runs s) \<Longrightarrow> keeps (one_run_each c k) m"
  by (simp add: keeps_def contract_variants_def usable_runs_def)

lemma keeps_one_run_modes: "keeps (one_run_each c k) (add_modes i slugs)"
proof -
  let ?f = "\<lambda>x. if run_id x = i
     then x\<lparr>run_enrollment_modes := run_enrollment_modes x @ filter (\<lambda>m. m \<notin> set (run_enrollment_modes x)) (remdups slugs)\<rparr> else x"
  have f: "crs_id (run_course (?f x)) = crs_id (run_course x)" "run_b2b_contract (?f x) = run_b2b_contract x"
      "run_variant (?f x) = run_variant x" "run_is_source_run (?f x) = run_is_source_run x" "run_tag (?f x) = run_tag x" for x
    by (simp_all add: run_variant_def)
  have "contract_variants (map_runs ?f s) c k = contract_variants s c k" for s
    unfolding contract_variants_def usable_runs_def map_runs_def by (simp add: filter_map comp_def f)
  then show ?thesis by (simp add: keeps_def add_modes_def modify_def)
qed

lemma one_run_created:
  assumes s: "one_run_each c k s" and new: "\<not> has_contract_run s course contract source"
    and r: "crs_id (run_course r) = crs_id course" "map_option ctr_id (run_b2b_contract r) = Some (ctr_id contract)"
      "run_variant r = run_variant source"
  shows "one_run_each c k (snd (create_run lang r s))"
proof -
  have "one_run_each c k (t\<lparr>course_runs := course_runs t @ [r\<lparr>run_id := i\<rparr>]\<rparr>)" if t: "course_runs t = course_runs s" for t i
  proof -
    have "run_variant (r\<lparr>run_id := i\<rparr>) = run_variant r" by (simp add: run_variant_def)
    then show ?thesis using s new r t
      by (auto simp: contract_variants_def usable_runs_def has_contract_run_def exists_row_iff)
  qed
  moreover have "one_run_each c k (s\<lparr>next_id := i\<rparr>)" for i using s by (simp add: contract_variants_def usable_runs_def)
  ultimately show ?thesis using s
    by (auto simp: create_run_def liftE_def gets_def Let_def fresh_id_def raise_def thenP_def bindP_def
        modify_def ret_def split: sum.split)
qed

lemma keeps_one_run_clone:
  assumes "co_no_reruns opts"
  shows "keeps (one_run_each c k) (clone_for_contract lang ck contract course opts results source)"
  unfolding clone_for_contract_def
proof (rule keeps_bindP [OF keeps_run_key], rule keepsI)
  fix key s assume s: "one_run_each c k s"
  let ?modes = "gets (\<lambda>s. filter (\<lambda>m. m \<in> {verified_mode, audit_mode}) (map em_slug (enrollment_modes s)))"
  let ?rest = "\<lambda>r. bindP ?modes (\<lambda>modes.
       thenP (add_modes (run_id r) modes)
       (thenP (whenP (\<not> co_skip_edx opts) (emit (CloneCourserun (run_id r) (run_courseware_id source))))
       (bindP (liftE (\<lambda>s. organization_of s contract)) (\<lambda>o1.
        bindP (add_run_product (contract_price contract) (contract_run_description o1 contract course r) r) (\<lambda>p.
          ret (results @ [(r, p)]))))))"
  have rest: "keeps (one_run_each c k) (?rest r)" for r
    by (intro keeps_intro keeps_one_run_modes keeps_one_run_frame) (simp_all add: add_run_product_def Let_def emit_def modify_def)
  have run: "bindP (gets (\<lambda>s. has_contract_run s course contract source)) (\<lambda>present.
     if present \<and> co_no_reruns opts then ret results
     else bindP (gets (\<lambda>s. contract_run s course contract source key)) (\<lambda>r. bindP (create_run lang r) ?rest)) s
    = (if has_contract_run s course contract source then (Inr results, s)
       else bindP (create_run lang (contract_run s course contract source key)) ?rest s)"
    using assms by (simp add: ret_def)
  have "one_run_each c k (snd (bindP (create_run lang (contract_run s course contract source key)) ?rest s))"
    if new: "\<not> has_contract_run s course contract source"
  proof -
    have "one_run_each c k (snd (create_run lang (contract_run s course contract source key) s))"
      by (rule one_run_created [OF s new]) (simp_all add: contract_run_def Let_def new_run_def run_variant_def)
    then show ?thesis using rest by (rule holds_bindP)
  qed
  then show "one_run_each c k (snd (bindP (gets (\<lambda>s. has_contract_run s course contract source)) (\<lambda>present.
     if present \<and> co_no_reruns opts then ret results
     else bindP (gets (\<lambda>s. contract_run s course contract source key)) (\<lambda>r. bindP (create_run lang r) ?rest)) s))"
    unfolding run using s by simp
qed

lemma keeps_one_run_contract:
  assumes "co_no_reruns opts"
  shows "keeps (one_run_each c k) (create_contract_run lang ck contract course opts)"
proof -
  have saved: "keeps (one_run_each c k) (save_contract contract)"
    by (rule keeps_one_run_frame) (simp add: save_contract_def modify_def)
  have sent: "keeps (one_run_each c k) (emit e)" for e by (rule keeps_one_run_frame) (simp add: emit_def modify_def)
  have "keeps (one_run_each c k) (case found of SingleRun r \<Rightarrow> raise PyTypeError
     | SourceRuns rs \<Rightarrow> bindP (foldP (clone_for_contract lang ck contract course opts) [] rs) (\<lambda>results.
         thenP (whenP (co_queue_codes opts) (emit (CheckEnrollmentCodes (ctr_id contract)))) (thenP (save_contract contract) (ret results))))" for found
    by (cases found) (auto intro!: keeps_intro keeps_one_run_clone [OF assms] saved sent)
  then show ?thesis unfolding create_contract_run_def by (intro keeps_intro)
qed

lemma keeps_one_run_courses:
  assumes "co_no_reruns opts"
  shows "keeps (one_run_each c k) (add_program_courses lang ck contract g order opts)"
proof -
  have made: "keeps (one_run_each c k) (create_contract_run lang ck contract course (opts\<lparr>co_org_prefix := p, co_queue_codes := q, co_choice := h\<rparr>))"
    for course p q h by (rule keeps_one_run_contract) (use assms in simp)
  have item: "keeps (one_run_each c k) (save_program_item contract g n skip)" for n skip
    unfolding save_program_item_def
    by (intro keeps_intro keeps_one_run_frame) (simp_all add: emit_def modify_def)
  have rows: "keeps (one_run_each c k) (modify (\<lambda>s. s\<lparr>contract_programs := h s\<rparr>))" "keeps (one_run_each c k) (emit e)" for h e
    by (rule keeps_one_run_frame, simp add: emit_def modify_def)+
  show ?thesis unfolding add_program_courses_def by (intro keeps_intro made item rows)
qed

end
