(* ===== verification/Samples.thy ===== *)
theory Samples
  imports CartViews Organizations Deferrals LearnerRecords EnrollmentViews EdxTokens Compliance CodeLife ContractRunLife
begin

text \<open>
  Small tables on which the properties of the root theory are instantiated: a shop with a course,
  its open runs, products, discounts, a learner with a basket and an order; payment processors
  and an edX server that answer; a contract with one seat taken; programs with requirements trees
  and a tree package that meets its contract; organizations of a learner; accounts, and servers of
  Open edX that help, refuse and renew tokens; a record that is shared; codes of a contract that a
  manager gives out; an export service that declines; a studio of Open edX that reports the last update.
\<close>

lemma element_inside: "c \<notin> set z \<Longrightarrow> x @ c # y \<noteq> z \<and> z \<noteq> x @ c # y"
  by auto

definition course1 :: Course where
  "course1 = \<lparr>crs_id = 1, crs_readable_id = ''course-v1:MITx+6.00x'', crs_title = ''Programming'',
     crs_live = True, crs_blocked_countries = [''KP'']\<rparr>"

definition run1 :: CourseRun where
  "run1 = \<lparr>run_id = 1, run_course = course1, run_title = ''Programming'',
     run_courseware_id = ''course-v1:MITx+6.00x+1T2026'', run_tag = ''1T2026'',
     run_start_date = Some 50, run_end_date = Some 900, run_enrollment_start = Some 10,
     run_enrollment_end = Some 500, run_expiration_date = None, run_upgrade_deadline = Some 400,
     run_live = True, run_is_self_paced = False, run_enrollment_modes = [''audit'', ''verified''],
     run_b2b_contract = None, run_is_source_run = False, run_is_primary_language = True, run_language = ''en'',
     run_certificate_available_date = Some 950, run_variant_industry = [], run_variant_length = []\<rparr>"

definition run2 :: CourseRun where
  "run2 = run1\<lparr>run_id := 2, run_courseware_id := ''course-v1:MITx+6.00x+2T2026'', run_tag := ''2T2026'',
     run_start_date := Some 80\<rparr>"

definition program1 :: Program where
  "program1 = \<lparr>prg_id = 1, prg_readable_id = ''program-v1:MITx+DEDP'', prg_title = ''DEDP'', prg_live = True,
     prg_requires_payment = True\<rparr>"

definition product1 :: Product where
  "product1 = \<lparr>prod_id = 1, prod_content_type = CT_CourseRun, prod_object_id = 1, prod_price = 100,
     prod_description = ''Programming 1T2026'', prod_is_active = True\<rparr>"

definition product2 :: Product where
  "product2 = product1\<lparr>prod_id := 2, prod_object_id := 2, prod_price := 50\<rparr>"

definition version1 :: Version where
  "version1 = \<lparr>ver_id = 1, ver_object_id = 1, ver_field_dict = product1\<rparr>"

definition version2 :: Version where
  "version2 = \<lparr>ver_id = 2, ver_object_id = 2, ver_field_dict = product2\<rparr>"

definition discount1 :: Discount where
  "discount1 = \<lparr>disc_id = 1, disc_amount = 20, disc_automatic = False, disc_type = PERCENT_OFF,
     disc_redemption_type = UNLIMITED, disc_payment_type = Some MARKETING, disc_max_redemptions = Some 0,
     disc_code = ''SPRING20'', disc_activation_date = None, disc_expiration_date = None,
     disc_is_bulk = False, disc_is_program_discount = None\<rparr>"

definition discount2 :: Discount where
  "discount2 = discount1\<lparr>disc_id := 2, disc_amount := 30, disc_type := DOLLARS_OFF, disc_code := ''THIRTY''\<rparr>"

definition discount3 :: Discount where
  "discount3 = discount1\<lparr>disc_id := 3, disc_amount := 0, disc_type := FIXED_PRICE, disc_code := ''FREE''\<rparr>"

definition user1 :: User where
  "user1 = \<lparr>usr_id = 1, usr_is_authenticated = True, usr_is_staff = False, usr_is_active = True,
     usr_edx_username = Some ''ada'', usr_global_id = Some ''g1'', usr_country = ''US'', usr_b2b_contracts = []\<rparr>"

definition basket1 :: Basket where
  "basket1 = \<lparr>bkt_id = 1, bkt_user = Some 1, bkt_anonymous_id = None, bkt_updated_on = 90\<rparr>"

definition item1 :: BasketItem where
  "item1 = \<lparr>bi_id = 1, bi_basket = 1, bi_product = product1, bi_quantity = 1\<rparr>"

definition basket_discount1 :: BasketDiscount where
  "basket_discount1 = \<lparr>bd_id = 1, bd_redemption_date = 90, bd_redeemed_by = 1, bd_redeemed_discount = discount1,
     bd_redeemed_basket = 1\<rparr>"

definition order1 :: Order where
  "order1 = \<lparr>ord_id = 1, ord_state = PENDING, ord_purchaser = 1, ord_total_price_paid = 80,
     ord_reference_number = Some ''mitxonline-dev-1'', ord_gateway_type = GW_CYBERSOURCE, ord_created_on = 90\<rparr>"

definition line1 :: Line where
  "line1 = \<lparr>ln_id = 1, ln_order = 1, ln_product_version = version1, ln_quantity = 1,
     ln_purchased_content_type = Some CT_CourseRun, ln_purchased_object_id = Some 1\<rparr>"

definition redemption1 :: DiscountRedemption where
  "redemption1 = \<lparr>rd_id = 1, rd_redemption_date = 90, rd_redeemed_by = 1, rd_redeemed_discount = discount1,
     rd_redeemed_order = 1\<rparr>"

definition enrollment1 :: CourseRunEnrollment where
  "enrollment1 = \<lparr>cre_id = 1, cre_user = 1, cre_run = run1, cre_change_status = None, cre_active = True,
     cre_enrollment_mode = verified_mode, cre_edx_enrolled = True, cre_edx_emails_subscription = True,
     cre_retry_count = 0, cre_created_on = 60\<rparr>"

definition shop :: db where
  "shop = empty_db\<lparr>now := 100, next_id := 10, courses := [course1], course_runs := [run1, run2],
     programs := [program1], products := [product1, product2], versions := [version1, version2],
     discounts := [discount1, discount2, discount3], users := [user1], baskets := [basket1],
     basket_items := [item1]\<rparr>"

text \<open>The shop with a pending order of the first learner.\<close>

definition shop_with_order :: db where
  "shop_with_order = shop\<lparr>orders := [order1], order_lines := [line1], redemptions := [redemption1]\<rparr>"

text \<open>Two tiers of financial assistance for the course, and an approved application.\<close>

definition tier1 :: FlexiblePriceTier where
  "tier1 = \<lparr>tier_id = 1, tier_discount = discount1, tier_courseware_type = ''course'', tier_courseware_object_id = 1,
     tier_current = True, tier_income_threshold_usd = 0\<rparr>"

definition tier2 :: FlexiblePriceTier where
  "tier2 = tier1\<lparr>tier_id := 2, tier_discount := discount2, tier_income_threshold_usd := 50000\<rparr>"

definition application1 :: FlexiblePrice where
  "application1 = \<lparr>fp_id = 1, fp_user = 1, fp_status = FP_APPROVED, fp_income_usd = Some 60000,
     fp_country_of_income = Some ''US'', fp_courseware_type = ''course'', fp_courseware_object_id = 1,
     fp_tier = Some tier2\<rparr>"

definition shop_with_aid :: db where
  "shop_with_aid = shop\<lparr>tiers := [tier1, tier2], flexible_prices := [application1]\<rparr>"

text \<open>An edX server that is up and accepts everything, and one that is down.\<close>

definition edx_up :: edx where
  "edx_up = \<lparr>edx_user_ready = (\<lambda>_. True), edx_get_enrollments = (\<lambda>_ _. Inr []),
     edx_create_student_enrollment = (\<lambda>_ _ _. Inr True), edx_deactivate_enrollment = (\<lambda>_ _. Inr ())\<rparr>"

definition edx_down :: edx where
  "edx_down = \<lparr>edx_user_ready = (\<lambda>_. True), edx_get_enrollments = (\<lambda>_ _. Inl EdxUnknownError),
     edx_create_student_enrollment = (\<lambda>_ _ _. Inl EdxUnknownError),
     edx_deactivate_enrollment = (\<lambda>_ _. Inl EdxUnknownError)\<rparr>"

definition ext1 :: ext where
  "ext1 = \<lparr>x_fsm = viewflow_run, x_edx = edx_up\<rparr>"

text \<open>What the payment processor reports for the order.\<close>

definition payload1 :: json where
  "payload1 = JObj [(''transaction_id'', JStr ''tx1''), (''amount'', JNum 80)]"

definition refund1 :: order_op where
  "refund1 = OpRefund (Some (JObj [(''id'', JStr ''r1'')])) (Some (JNum 80)) ''requested''"

lemmas samples = course1_def run1_def run2_def program1_def product1_def product2_def version1_def version2_def
  discount1_def discount2_def discount3_def user1_def basket1_def item1_def basket_discount1_def order1_def
  line1_def redemption1_def enrollment1_def shop_def shop_with_order_def empty_db_def default_settings_def
  edx_up_def edx_down_def ext1_def

lemmas ext1_facts = ext1_def viewflow_run_contract

lemma ext1_contract: "viewflow_contract (x_fsm ext1)"
  by (simp add: ext1_facts)

lemma run_eq: "fst p = Inr x \<Longrightarrow> p = (Inr x, snd p)"
  by (cases p) simp

lemma shop_orders: "find_order shop_with_order 1 = Some order1" "order_state shop_with_order 1 = Some PENDING"
    "enrollments_ok shop_with_order" "enrollments_ok shop"
  by (simp_all add: samples order_state_def find_order_def enrollments_ok_def)

section \<open>Payment\<close>

text \<open>A processor that accepts every payment and refund, and a Stripe session that was paid.\<close>

definition session1 :: checkout_session where
  "session1 = \<lparr>cs_id = ''cs_1'', cs_status = ''complete'', cs_payment_status = ''paid'',
     cs_payment_intent = Some (''pi_1'', ''succeeded'', []), cs_dict = JObj []\<rparr>"

definition accepted :: processor_response where
  "accepted = \<lparr>pr_state = STATE_ACCEPTED, pr_response_code = Some ''100'',
     pr_response_data = JObj [(''id'', JStr ''r1'')]\<rparr>"

definition processor1 :: processor where
  "processor1 = \<lparr>px_start_payment = (\<lambda>_ _ _ _ _. Inr (JObj [(''method'', JStr ''POST''), (''payload'', JObj [])])),
     px_validate = (\<lambda>_. True), px_response = (\<lambda>_. accepted),
     px_reference = (\<lambda>req. case json_text (jget req ''req_reference_number'') of None \<Rightarrow> [] | Some t \<Rightarrow> t),
     px_refund = (\<lambda>_. Inr accepted), px_find_transactions = (\<lambda>_. []), px_session = (\<lambda>_. Inr session1),
     px_flag = (\<lambda>_ _. False), px_url = (\<lambda>n. n)\<rparr>"

definition request1 :: json where
  "request1 = JObj [(''req_reference_number'', JStr ''mitxonline-dev-1''), (''transaction_id'', JStr ''tx1''),
     (''amount'', JNum 80)]"

definition event1 :: stripe_event where
  "event1 = \<lparr>ev_id = ''evt_1'', ev_type = ''checkout.session.completed'', ev_session_id = ''cs_1'',
     ev_client_reference_id = Some ''mitxonline-dev-1'',
     ev_dict = JObj [(''id'', JStr ''evt_1''), (''type'', JStr ''checkout.session.completed''),
       (''data'', JObj [(''object'', JObj [(''amount_total'', JNum 8000)])])]\<rparr>"

definition stripe_shop :: db where
  "stripe_shop = shop_with_order\<lparr>orders := [order1\<lparr>ord_gateway_type := GW_STRIPE\<rparr>]\<rparr>"

text \<open>A basket that a code makes free, and the order after its payment.\<close>

definition free_shop :: db where
  "free_shop = shop\<lparr>basket_discounts := [basket_discount1\<lparr>bd_redeemed_discount := discount3\<rparr>]\<rparr>"

definition payment1 :: Transaction where
  "payment1 = \<lparr>tx_id = 1, tx_transaction_id = ''tx1'', tx_order = 1, tx_amount = 80,
     tx_data = JObj [(''transaction_id'', JStr ''tx1''), (''req_amount'', JNum 80)], tx_type = TX_PAYMENT, tx_reason = []\<rparr>"

definition paid_shop :: db where
  "paid_shop = shop_with_order\<lparr>orders := [order1\<lparr>ord_state := FULFILLED\<rparr>], transactions := [payment1]\<rparr>"

section \<open>A contract with two seats\<close>

definition contract1 :: Contract where
  "contract1 = \<lparr>ctr_id = 1, ctr_organization = 1, ctr_active = True, ctr_start = None, ctr_end = None,
     ctr_fixed_price = Some 10, ctr_max_learners = Some 2, ctr_membership_type = ''non-sso'', ctr_name = ''C''\<rparr>"

definition contract_run1 :: CourseRun where
  "contract_run1 = run1\<lparr>run_id := 3, run_b2b_contract := Some contract1\<rparr>"

definition contract_product1 :: Product where
  "contract_product1 = product1\<lparr>prod_id := 3, prod_object_id := 3, prod_price := 10\<rparr>"

definition contract_shop :: db where
  "contract_shop = shop\<lparr>course_runs := [run1, contract_run1], products := [product1, contract_product1],
     contracts := [contract1], discount_products := [\<lparr>dp_discount = 3, dp_product = Some 3\<rparr>]\<rparr>"

section \<open>Programs with requirements\<close>

text \<open>A tree package with room for nine children below each node.\<close>

definition tree_steps :: "string list" where
  "tree_steps = [''0001'', ''0002'', ''0003'', ''0004'', ''0005'', ''0006'', ''0007'', ''0008'', ''0009'']"

definition place :: "ProgramRequirement list \<Rightarrow> string \<Rightarrow> nat \<Rightarrow> ProgramRequirement
    \<Rightarrow> exn + ProgramRequirement \<times> ProgramRequirement list" where
  "place rows p d tmpl =
     (case first (filter (\<lambda>t. p @ t \<notin> set (map req_path rows)) tree_steps) of
        None \<Rightarrow> Inl PathOverflow
      | Some t \<Rightarrow> let row = tmpl\<lparr>req_path := p @ t, req_depth := d\<rparr> in Inr (row, rows @ [row]))"

definition tree1 :: treebeard where
  "tree1 = \<lparr>tb_roots = filter (\<lambda>r. req_depth r = 1), tb_children = (\<lambda>rows n. filter (is_child n) rows),
     tb_parent = (\<lambda>rows n. first (filter (\<lambda>r. is_child r n) rows)),
     tb_add_root = (\<lambda>rows tmpl. place rows [] 1 tmpl),
     tb_add_child = (\<lambda>rows n tmpl. place rows (req_path n) (Suc (req_depth n)) tmpl),
     tb_delete = (\<lambda>rows gone. filter (\<lambda>r. \<not> exists_row (\<lambda>n. starts_with (req_path n) (req_path r)) gone) rows)\<rparr>"

lemma place_adds_row: "place rows p d tmpl = Inr out \<Longrightarrow> adds_row rows p d tmpl out"
proof -
  assume "place rows p d tmpl = Inr out"
  then obtain t where t: "first (filter (\<lambda>t. p @ t \<notin> set (map req_path rows)) tree_steps) = Some t"
    and out: "out = (tmpl\<lparr>req_path := p @ t, req_depth := d\<rparr>, rows @ [tmpl\<lparr>req_path := p @ t, req_depth := d\<rparr>])"
    by (auto simp: place_def Let_def split: option.splits)
  have "t \<in> set tree_steps \<and> p @ t \<notin> set (map req_path rows)" using t by (auto dest!: first_filter_SomeD)
  then have "length t = 4" "p @ t \<notin> req_path ` set rows" by (auto simp: tree_steps_def)
  then show "adds_row rows p d tmpl out" unfolding adds_row_def out fst_conv snd_conv
    by (intro exI [of _ t] exI [of _ rows] exI [of _ "[]"]) simp
qed

lemma tree1_contract: "treebeard_contract tree1"
  by (simp add: treebeard_contract_def tree1_def place_adds_row)

text \<open>The first program requires the course and the second program, which needs no payment and
  requires one course.\<close>

definition program2 :: Program where
  "program2 = \<lparr>prg_id = 2, prg_readable_id = ''program-v1:MITx+FREE'', prg_title = ''Free'', prg_live = True,
     prg_requires_payment = False\<rparr>"

definition node :: "string \<Rightarrow> nat \<Rightarrow> nat \<Rightarrow> node_type \<Rightarrow> ProgramRequirement" where
  "node path d g ty = (new_node g ty)\<lparr>req_path := path, req_depth := d\<rparr>"

definition requirements1 :: "ProgramRequirement list" where
  "requirements1 =
     [node ''0001'' 1 1 NT_PROGRAM_ROOT,
      (node ''00010001'' 2 1 NT_OPERATOR)\<lparr>req_operator := Some ALL_OF\<rparr>,
      (node ''000100010001'' 3 1 NT_COURSE)\<lparr>req_course := Some course1\<rparr>,
      (node ''000100010002'' 3 1 NT_PROGRAM)\<lparr>req_required_program := Some program2\<rparr>,
      node ''0002'' 1 2 NT_PROGRAM_ROOT,
      (node ''00020001'' 2 2 NT_OPERATOR)\<lparr>req_operator := Some MIN_NUMBER_OF, req_operator_value := Some ''1'',
         req_elective_flag := True\<rparr>,
      (node ''000200010001'' 3 2 NT_COURSE)\<lparr>req_course := Some course1\<rparr>]"

definition rank1 :: "nat \<Rightarrow> nat" where
  "rank1 g = (if g = 1 then 1 else 0)"

definition certificate1 :: CourseRunCertificate where
  "certificate1 = \<lparr>crc_id = 1, crc_user = 1, crc_run = run1, crc_is_revoked = False, crc_has_credential = True,
     crc_issue_date = 90\<rparr>"

definition program_enrollment1 :: ProgramEnrollment where
  "program_enrollment1 = \<lparr>pe_id = 1, pe_user = 1, pe_program = program1, pe_change_status = None, pe_active = True,
     pe_enrollment_mode = verified_mode\<rparr>"

definition school :: db where
  "school = shop\<lparr>programs := [program1, program2], requirements := requirements1, run_enrollments := [enrollment1],
     run_certificates := [certificate1], program_enrollments := [program_enrollment1]\<rparr>"

definition grade1 :: edx_grade where
  "grade1 = \<lparr>eg_username = ''ada'', eg_percent = 9/10, eg_passed = True, eg_letter_grade = Some ''A''\<rparr>"

definition services1 :: grade_services where
  "services1 = \<lparr>gs_course_grades = (\<lambda>_. Inr [grade1]), gs_student_grade = (\<lambda>_ _. Inr grade1), gs_signs_run = (\<lambda>_ _. True),
     gs_signs_program = (\<lambda>_ _. True), gs_has_equal_properties = (\<lambda>_ _. False), gs_tree = tree1,
     gs_recursion_limit = 1000\<rparr>"

lemmas school_samples = requirements1_def node_def new_node_def program1_def program2_def course1_def

lemma requirements1_ok: "tree_ok requirements1"
  by (simp add: tree_ok_def school_samples node_check_def is_child_def starts_with_def)

lemma requirements1_decidable: "requirements s = requirements1 \<Longrightarrow> decidable rank1 tree1 s"
proof -
  have one: "parse_int ''1'' = Some 1" by code_simp
  show "requirements s = requirements1 \<Longrightarrow> decidable rank1 tree1 s"
    by (simp add: decidable_def program_root_def tree1_def school_samples is_min_number_of_operator_def
        operator_number_def one rank1_def get_one_def)
qed

text \<open>The free program requires itself.\<close>

definition circular_school :: db where
  "circular_school = school\<lparr>requirements :=
     [node ''0002'' 1 2 NT_PROGRAM_ROOT, (node ''00020001'' 2 2 NT_OPERATOR)\<lparr>req_operator := Some ALL_OF\<rparr>,
      (node ''000200010001'' 3 2 NT_PROGRAM)\<lparr>req_required_program := Some program2\<rparr>]\<rparr>"

section \<open>Organizations\<close>

definition org_db :: db where
  "org_db = shop\<lparr>organizations := [\<lparr>orgn_id = 1, orgn_sso_organization_id = Some ''a'', orgn_org_key = ''ORG'', orgn_org_key_prefix = [],
       orgn_name = ''Org''\<rparr>,
       \<lparr>orgn_id = 2, orgn_sso_organization_id = Some ''b'', orgn_org_key = ''ORG'', orgn_org_key_prefix = [],
       orgn_name = ''Org''\<rparr>, \<lparr>orgn_id = 3, orgn_sso_organization_id = Some ''c'', orgn_org_key = ''ORG'', orgn_org_key_prefix = [],
       orgn_name = ''Org''\<rparr>],
     user_organizations := [\<lparr>uo_user = 1, uo_organization = 1, uo_keep_until_seen = False, uo_is_manager = False\<rparr>,
       \<lparr>uo_user = 1, uo_organization = 3, uo_keep_until_seen = True, uo_is_manager = False\<rparr>]\<rparr>"

section \<open>Accounts\<close>

text \<open>A learner whose account in Open edX has not been created yet, and one who has tokens.\<close>

definition learner1 :: AppUser where
  "learner1 = (new_app_user 1 0 ''ada'' ''ada@example.com'' (Some ''g1'') False False)\<lparr>au_name := ''Ada'',
     au_legal_address := Some (blank_address\<lparr>la_country := ''GB''\<rparr>),
     au_user_profile := Some (blank_profile\<lparr>up_year_of_birth := Some 1990\<rparr>)\<rparr>"

definition edx_row1 :: OpenEdxUser where
  "edx_row1 = new_edx_user 1 1 (Some ''ada'')"

definition account_settings1 :: account_settings where
  "account_settings1 = \<lparr>as_ignore_edx_failures = False, as_hubspot_token = True, as_oauth_app_name = ''edx-oauth-app'',
     as_token_expires_hours = 7, as_change_email_ttl = 1440, as_disable_repair = False,
     as_redirect_uri = ''https://mitxonline.edu/login/_private/complete'', as_service_token = True\<rparr>"

definition accounts1 :: accounts where
  "accounts1 = \<lparr>acs_conf = account_settings1, acs_now = 100, acs_next_id = 10, acs_random = (\<lambda>n. n), acs_drawn = 0,
     app_users = [learner1], openedx_users = [edx_row1], api_auths = [], access_tokens = [],
     oauth_applications = [''edx-oauth-app''], change_requests = [], acs_locks = [], acs_sent = [], acs_queued = [],
     acs_in_atomic = False, acs_on_commit = []\<rparr>"

definition auth1 :: OpenEdxApiAuth where
  "auth1 = \<lparr>oaa_user = 1, oaa_refresh_token = ''r0'', oaa_access_token = Some ''a0'', oaa_access_token_expires_on = Some 50\<rparr>"

definition accounts2 :: accounts where
  "accounts2 = accounts1\<lparr>openedx_users := [edx_row1\<lparr>oeu_has_been_synced := True\<rparr>], api_auths := [auth1]\<rparr>"

text \<open>A server on which the username is taken, that names a free one; and one that names none.\<close>

definition conflict_with :: "(string \<times> json) list \<Rightarrow> http_response" where
  "conflict_with kvs = \<lparr>rsp_status = 409, rsp_body = Some (JObj ((''error_code'', JStr ''duplicate-username'') # kvs)), rsp_url = []\<rparr>"

definition renewed :: http_response where
  "renewed = \<lparr>rsp_status = 200, rsp_body = Some (JObj [(''expires_in'', JNum 3600), (''refresh_token'', JStr ''r1''),
     (''access_token'', JStr ''a1'')]), rsp_url = []\<rparr>"

definition helpful_server :: edx_server where
  "helpful_server = \<lparr>srv_answer = (\<lambda>_ q. case q of
       RegisterUser n _ _ _ \<Rightarrow> Inr (if n = ''ada'' then conflict_with [(''username_suggestions'', JArr [JStr ''ada_mit''])]
         else \<lparr>rsp_status = 200, rsp_body = None, rsp_url = []\<rparr>)
     | _ \<Rightarrow> Inr renewed),
     srv_meanwhile = (\<lambda>s. s), srv_token = show_nat, srv_usernameify = (\<lambda>n e _. n)\<rparr>"

definition stubborn_server :: edx_server where
  "stubborn_server = helpful_server\<lparr>srv_answer := (\<lambda>_ _. Inr (conflict_with []))\<rparr>"

lemma helpful_server_helpful: "\<not> taken ''ada_mit'' \<Longrightarrow> helpful helpful_server taken"
  by (auto simp: helpful_def helpful_server_def conflict_with_def json_texts_def)

lemma stubborn_server_stubborn: "stubborn stubborn_server"
  by (simp add: stubborn_def stubborn_server_def conflict_with_def)

lemmas account_samples = learner1_def edx_row1_def accounts1_def accounts2_def auth1_def account_settings1_def
  new_app_user_def new_edx_user_def helpful_server_def renewed_def

text \<open>The first username is taken, the one that the server suggests is accepted.\<close>

lemmas registration_defs = registration_step_def registration_answered_def liftE_bind save_edx_user_def clashes_def put_row_def
  update_rows_def exists_row_def send_request_def raise_for_status_def handle_username_collision_def
  parse_openedx_response_def is_duplicate_email_error_def is_duplicate_username_error_def is_conflict_with_def conflict_with_def
  dict_get_def extract_username_suggestions_def json_texts_def jget_def free_suggestions_def taken_elsewhere_def too_long_def OPENEDX_USERNAME_MAX_LEN_def edx_conflict_def

lemma learner1_data: "build_user_data learner1 = Inr \<lparr>ep_name = ''Ada'', ep_country = ''GB'', ep_state = None, ep_gender = None,
      ep_year_of_birth = Some 1990, ep_level_of_education = []\<rparr>" by code_simp

lemma learner1_columns: "au_id learner1 = 1" "au_email learner1 = ''ada@example.com''" by (simp_all add: learner1_def new_app_user_def)

lemma first_attempt:
  assumes "openedx_users s = [edx_row1]" 
  shows "\<exists>t r. registration_step helpful_server learner1 ''token'' edx_row1 0 ''ada'' False s = (Inr (Again 1 ''ada_mit'' False r), t)
  \<and> openedx_users t = [edx_row1] "
  using assms
  by (simp add: registration_defs learner1_data learner1_columns py_defs Let_def edx_row1_def new_edx_user_def helpful_server_def)

lemma second_attempt:
  assumes "openedx_users s = [edx_row1]"
  shows "\<exists>t. registration_step helpful_server learner1 ''token'' edx_row1 1 ''ada_mit'' False s = (Inr (Returned True), t)"
  using assms
  by (simp add: registration_defs learner1_data learner1_columns py_defs Let_def edx_row1_def new_edx_user_def helpful_server_def)

lemma helpful_registration: "\<exists>t. create_edx_user_request helpful_server edx_row1 learner1 ''token'' accounts1 = Some (Inr (Some True), t)"
proof -
  let ?s = "accounts1\<lparr>acs_locks := [user_lock learner1]\<rparr>"
  have s: "openedx_users ?s = [edx_row1]" by (simp add: accounts1_def)
  obtain t r where 1: "registration_step helpful_server learner1 ''token'' edx_row1 0 ''ada'' False ?s = (Inr (Again 1 ''ada_mit'' False r), t)"
    "openedx_users t = [edx_row1]" using first_attempt [OF s] by blast
  obtain t' where 2: "registration_step helpful_server learner1 ''token'' edx_row1 1 ''ada_mit'' False t = (Inr (Returned True), t')"
    using second_attempt [OF 1(2)] by blast
  have l: "registration_loop helpful_server learner1 ''token'' edx_row1 0 ''ada'' False None ?s = Some (Inr (Returned True), t')"
    using 1 2 by (simp add: registration_loop.simps [of _ _ _ _ 0] registration_loop.simps [of _ _ _ _ "Suc 0"] max_attempts_def)
  have "get_attemptable_username learner1 (oeu_desired_edx_username edx_row1) accounts1 = (Inr (Some ''ada''), accounts1)"
    by (simp add: get_attemptable_username_def exists_row_def accounts1_def edx_row1_def new_edx_user_def learner1_def new_app_user_def py_defs)
  then show ?thesis using l
    by (simp add: create_edx_user_request_def bindO_def liftO_app acquire_lock_def helpful_server_def Let_def finallyO_def
        refresh_edx_user_def after_registration_def py_defs accounts1_def edx_row1_def new_edx_user_def)
qed

section \<open>Records that are shared\<close>

definition sharing1 :: sharing where
  "sharing1 = \<lparr>sh_db = school, sh_school_flag = False, sh_next_uuid = 5, partner_schools = [], school_programs = [],
     record_shares = [\<lparr>lps_uuid = 4, lps_user = 1, lps_program = 1, lps_school = None, lps_is_active = True\<rparr>],
     collection_items = [], sh_mail_tasks = [], sh_mailed = []\<rparr>"

section \<open>Enrollments that Open edX reports\<close>

text \<open>The learner left the first run there and joined the second.\<close>

definition reported1 :: "(string \<times> bool) list" where
  "reported1 = [(''course-v1:MITx+6.00x+1T2026'', False), (''course-v1:MITx+6.00x+2T2026'', True)]"

section \<open>Codes that a manager gives out\<close>

text \<open>Two codes for one learner each, the first one assigned and its message sent.\<close>

definition code1 :: Discount where
  "code1 = discount3\<lparr>disc_redemption_type := ONE_TIME, disc_code := ''AAA''\<rparr>"

definition code2 :: Discount where
  "code2 = code1\<lparr>disc_id := 4, disc_code := ''BBB''\<rparr>"

definition assignment1 :: ContractAttachment where
  "assignment1 = (assignment_row 2 90 5 \<lparr>cas_contract = contract1, cas_discount = code1, cas_email = ''ada@example.com'',
     cas_name = ''Ada''\<rparr>)\<lparr>ca_email_message_id := ''m1''\<rparr>"

definition manager1 :: User where
  "manager1 = user1\<lparr>usr_id := 2, usr_edx_username := Some ''grace''\<rparr>"

definition code_shop :: db where
  "code_shop = contract_shop\<lparr>discounts := [code1, code2],
     discount_products := [\<lparr>dp_discount = 3, dp_product = Some 3\<rparr>, \<lparr>dp_discount = 4, dp_product = Some 3\<rparr>],
     organizations := [\<lparr>orgn_id = 1, orgn_sso_organization_id = None, orgn_org_key = ''ORG'', orgn_org_key_prefix = [],
       orgn_name = ''Org''\<rparr>],
     user_organizations := [\<lparr>uo_user = 2, uo_organization = 1, uo_keep_until_seen = False, uo_is_manager = True\<rparr>],
     users := [user1, manager1], attachments := [assignment1]\<rparr>"

definition mailgun1 :: mailgun_settings where
  "mailgun1 = \<lparr>mg_signing_secret = ''s'', mg_validate_signature = True\<rparr>"

definition report_of :: "string \<Rightarrow> rat \<Rightarrow> json" where
  "report_of e t = JObj [(''signature'', JObj [(''token'', JStr ''t''), (''timestamp'', JStr ''1''), (''signature'', JStr ''s1t'')]),
     (''event-data'', JObj [(''event'', JStr e), (''tags'', JArr [JStr ''enrollment-code-assignment'']),
        (''message'', JObj [(''headers'', JObj [(''message-id'', JStr ''m1'')])]), (''timestamp'', JNum t)])]"

section \<open>An export service that declines\<close>

definition declining :: export_services where
  "declining = \<lparr>ex_answer = (\<lambda>_ _. Inr (STuple [SDict [(''status'', SText ''DECLINED''), (''id'', SText ''7'')], SNum 201])),
     ex_payload = (\<lambda>n b. concat (map snd b)), ex_encrypt = (\<lambda>k t. k @ t), ex_decrypt = (\<lambda>k t. Inr (drop (length k) t)),
     ex_dumps = (\<lambda>_. ''{}''), ex_str = (\<lambda>_. ''None'')\<rparr>"

definition learner2 :: AppUser where
  "learner2 = learner1\<lparr>au_legal_address := Some (blank_address\<lparr>la_first_name := ''Ada'', la_last_name := ''L'',
     la_country := ''GB'', la_street_address_1 := ''1 High St'', la_city := ''London'', la_state := Some ''GB-LND'',
     la_postal_code := ''W1''\<rparr>)\<rparr>"

definition compliance1 :: compliance where
  "compliance1 = \<lparr>cp_conf = \<lparr>cps_merchant_id = ''m'', cps_merchant_key_id = ''k'', cps_merchant_secret = ''s'',
     cps_environment = ''test'', cps_encryption_key = ''e''\<rparr>, cp_now = 100, cp_next_id = 1, cp_uuids = 0, cp_sent = [],
     export_logs = []\<rparr>"

section \<open>A studio that reports the last update of a run\<close>

definition studio1 :: run_client where
  "studio1 = \<lparr>rc_answer = (\<lambda>_ _. Inr True), rc_course = (\<lambda>_ _. Inl CourseRunAPIError),
     rc_detail = (\<lambda>_ _. Inl CourseRunAPIError),
     rc_courses = (\<lambda>log _. (case log of [] \<Rightarrow> [] | _ \<Rightarrow> (case last log of
        UpdateRun k title pacing b e eb ee \<Rightarrow> [\<lparr>ed_course_id = k, ed_name = title, ed_start = b, ed_end = e,
          ed_enrollment_start = eb, ed_enrollment_end = ee, ed_is_self_paced = pacing, ed_certificate_available_date = None\<rparr>]
      | _ \<Rightarrow> []), None)),
     rc_modes = (\<lambda>_ _. Inr [])\<rparr>"

lemma studio1_contract: "schedule_contract studio1"
  by (simp add: schedule_contract_def studio1_def split: list.split)

definition parse_key :: key_parser where
  "parse_key k = (if is_course_key k then (case split_plus (drop 10 k) of [a, b, c] \<Rightarrow> Some (a, b, c) | _ \<Rightarrow> None) else None)"

definition any_language :: "string \<Rightarrow> bool" where
  "any_language t = True"

text \<open>A course with a source run in English and one in French.\<close>

definition source1 :: CourseRun where
  "source1 = run1\<lparr>run_id := 4, run_courseware_id := ''course-v1:MITx+6.00x+SOURCE'', run_tag := ''SOURCE'', run_is_source_run := True\<rparr>"

definition source2 :: CourseRun where
  "source2 = source1\<lparr>run_id := 5, run_courseware_id := ''course-v1:MITx+6.00x+SOURCE_fr'', run_is_primary_language := False,
     run_language := ''fr''\<rparr>"

definition variant1 :: SupportedVariant where
  "variant1 = \<lparr>sv_id = 1, sv_of_contract = False, sv_object_id = 1, sv_language = ''en'', sv_variant_length = [],
     sv_variant_industry = [], sv_active = True, sv_b2b_only = False, sv_default_variant = True\<rparr>"

definition studio_shop :: db where
  "studio_shop = contract_shop\<lparr>course_runs := [run1, run2, contract_run1\<lparr>run_courseware_id := ''course-v1:UAI_OTHER+6.00x+1T9C2025'', run_tag := ''1T9C2025'',
       run_is_primary_language := False, run_language := ''de''\<rparr>, source1, source2],
     organizations := [\<lparr>orgn_id = 1, orgn_sso_organization_id = None, orgn_org_key = ''ORG'', orgn_org_key_prefix = [],
       orgn_name = ''Org''\<rparr>],
     supported_variants := [variant1, variant1\<lparr>sv_id := 2, sv_language := ''fr'', sv_default_variant := False\<rparr>],
     enrollment_modes := [\<lparr>em_slug = audit_mode, em_display_name = ''Audit'', em_requires_payment = False\<rparr>,
       \<lparr>em_slug = verified_mode, em_display_name = ''Verified'', em_requires_payment = True\<rparr>]\<rparr>"

definition contract_options1 :: contract_run_options where
  "contract_options1 = \<lparr>co_choice = \<lparr>ch_require_designated = True, ch_ignore_langs = False, ch_only_lang = None,
     ch_filter_variants = [], ch_no_variants = False\<rparr>, co_skip_edx = False, co_org_prefix = None, co_no_reruns = True,
     co_queue_codes = False\<rparr>"

end
