(* ===== verification/Spec2Isabelle.thy ===== *)
theory Spec2Isabelle
  imports Samples
begin

text \<open>
  MITx Online is a Django application that sells and runs online courses.  This development models
  the operations that decide what a learner pays, what they are enrolled in and what they have
  earned, and proves what makes them correct.

  \<^bold>\<open>How the program is modelled.\<close>  A Django model is a record with the columns that the modelled
  operations use (\<open>Schema\<close>); a foreign key whose row is only read is the row, one whose row is
  written is its primary key.  The database is the record \<open>db\<close>: one list per table in primary-key
  order, the settings, the clock, the sequence of primary keys, the session, and the tasks that
  were queued (\<open>outbox\<close>, \<open>on_commit\<close>).  An operation is a function \<open>db \<Rightarrow> (exn + 'a) \<times> db\<close>
  (\<open>Prelude\<close>): it returns or raises, and what it wrote before it raised stays written unless an
  atomic block undoes it (\<open>atomicP\<close>, which puts the whole record back, the session and the log of
  requests included; \<open>atomic_but_sent\<close>, for reruns of a course run, keeps the requests that were sent).  A query is a filter of a table; \<open>get\<close> raises
  \<open>ObjectDoesNotExist\<close> or \<open>MultipleObjectsReturned\<close>; a unique constraint is an \<open>IntegrityError\<close>.
  Decimals are rationals with the quantization written out (\<open>Decimals\<close>), Python integers are
  \<open>int\<close>, strings are character lists, JSON is a datatype.

  \<^bold>\<open>Code that is not in the repository\<close> is a parameter, with its documented contract as a
  hypothesis where a property needs one: the transition wrapper of viewflow (\<open>viewflow_contract\<close>,
  a state is set before the body runs and put back when it raises), the tree package treebeard
  (\<open>treebeard_contract\<close>, paths and depths), the edX client (\<open>edx\<close>, \<open>grade_services\<close>), the payment
  processors and feature flags (\<open>processor\<close>), the answers of Open edX (\<open>edx_server\<close>, \<open>run_client\<close>; \<open>schedule_contract\<close>: it
  reports the last update of a run), the parser of course keys,
  the conversion of a text to a UUID (\<open>to_uuid\<close>), the export service and encryption (\<open>export_services\<close>), HMAC and the sending of mail.  \<open>Samples\<close> instantiates each with a concrete
  function that meets its contract.

  \<^bold>\<open>The theories\<close>, in the order of their imports:

  \<^item> \<open>Prelude\<close>, \<open>Decimals\<close>, \<open>Schema\<close>: the combinators of operations, with the rules by which an
    invariant (\<open>keeps\<close>), an assertion (\<open>ensures\<close>), the only way of losing an invariant (\<open>loses\<close>)
    and freedom from exceptions (\<open>never_raises\<close>) follow the text of a handler; decimals and the
    texts of numbers; the data model.
  \<^item> \<open>Courseware\<close> (\<open>src/courses/models.py\<close>, \<open>src/courses/utils.py\<close>): when runs can be enrolled in,
    upgraded, offered; programs of a course.
  \<^item> \<open>Discounts\<close>, \<open>FlexiblePricing\<close> (\<open>src/ecommerce/discounts.py\<close>, \<open>src/ecommerce/models.py\<close>,
    \<open>src/flexiblepricing\<close>): prices, validity of discounts, financial assistance.
  \<^item> \<open>Lines\<close>, \<open>Baskets\<close> (\<open>src/ecommerce/models.py\<close>, \<open>src/ecommerce/api.py\<close>,
    \<open>src/ecommerce/views/v0\<close>): products and lines at their versions; baskets, anonymous or not,
    and the discounts in them.
  \<^item> \<open>Enrollments\<close> (\<open>src/courses/api.py\<close>, \<open>src/openedx/api.py\<close>, \<open>src/b2b\<close>): enrolling, leaving,
    deferring, retries of failed edX requests.  \<open>Deferrals\<close>: what a deferral moves.
    \<open>Organizations\<close>: the memberships of a learner.
  \<^item> \<open>OrderFlow\<close>, \<open>PendingOrders\<close> (\<open>src/ecommerce/models.py\<close>): the state machine of orders, with
    \<open>order_step\<close>, \<open>order_reachable\<close> and \<open>order_path\<close> as its specification; the order of a basket.
  \<^item> \<open>Contracts\<close>, \<open>ContractBaskets\<close> (\<open>src/b2b\<close>): seats, products and enrollment codes of a
    contract; the checks of a basket with contract products.
  \<^item> \<open>ContractCodes\<close>, \<open>CodeLife\<close> (\<open>src/b2b/views/v0\<close>, \<open>src/b2b/mail.py\<close>, \<open>src/b2b/api.py\<close>): enrollment
    codes that managers assign, reassign and revoke, learners redeem, and the mail service reports on;
    \<open>code_step\<close> is the step relation of all of these, and the locale \<open>open_rows\<close> is what a condition
    on the rows must satisfy so that the managers and the mail service keep it.
  \<^item> \<open>CourseRuns\<close>, \<open>RunLife\<close> (\<open>src/courses/api.py\<close>, \<open>src/courses/retirement.py\<close>, \<open>src/openedx\<close>): course runs
    and their counterparts in Open edX, of which the requests that change something are a log
    (\<open>studio_log\<close>) on which its answers depend; \<open>run_step\<close>, the unique constraints, retired runs.
  \<^item> \<open>ContractRuns\<close>, \<open>ContractRunLife\<close> (\<open>src/b2b/api.py\<close>, \<open>src/b2b/models.py\<close>, \<open>src/variants\<close>): variants,
    source runs, keys, runs and products of a contract, of which none is of the same variant as another
    when reruns are not wanted, and the contract that holds retired runs.
  \<^item> \<open>Compliance\<close> (\<open>src/compliance\<close>): export compliance checks, on a state \<open>compliance\<close> of their own.
  \<^item> \<open>Checkout\<close>, \<open>Settlement\<close>, \<open>Payments\<close> (\<open>src/ecommerce/api.py\<close>, callback views, hooks): the
    checkout of a basket, what CyberSource and Stripe answer, refunds, orders that stay pending.
    \<open>Settlement\<close> shows which operations can fulfil an order.
  \<^item> \<open>PaidEnrollments\<close>, \<open>CartViews\<close>: enrollments that cost nothing (a bought program, a contract),
    and the cart and checkout views of \<open>src/ecommerce/views/legacy\<close>.
  \<^item> \<open>Requirements\<close>, \<open>Certificates\<close> (\<open>src/courses/models.py\<close>, \<open>src/courses/api.py\<close>,
    \<open>src/courses/signals.py\<close>): the requirements tree of a program, grades and certificates.
    \<open>Earned\<close> is the specification of an earned program certificate, an inductive relation that
    the recursive function refines; \<open>CertificateJobs\<close> treats the jobs.
  \<^item> \<open>Accounts\<close>, \<open>EdxAccounts\<close>, \<open>EdxTokens\<close> (\<open>src/users\<close>, \<open>src/openedx/api.py\<close>,
    \<open>src/openedx/tasks.py\<close>, \<open>src/authentication/api_gateway\<close>): accounts with their unique constraints,
    on a state \<open>accounts\<close> of their own; the registration of a learner in Open edX, whose loop is a
    partial function; tokens and the repair of accounts.
  \<^item> \<open>LearnerRecords\<close> (\<open>src/courses/views/v1\<close>, \<open>src/courses/serializers/v1/programs.py\<close>): records of a
    program, the links that share them, collections of programs.
  \<^item> \<open>EdxSync\<close>, \<open>EnrollmentViews\<close> (\<open>src/openedx\<close>, \<open>src/courses/views\<close>): enrollments that Open edX
    reports, webhooks; the views that enroll a learner, list and end enrollments.
  \<^item> \<open>Samples\<close>: small tables on which the properties below are instantiated.

  \<^bold>\<open>How the parts interact.\<close>  A checkout (\<open>generate_checkout_payload\<close>) reads the basket, makes a
  pending order (\<open>create_from_basket\<close>), and either fulfils it at once or starts a payment; the
  callbacks of the processors fulfil, decline or cancel the order through \<open>OrderFlow\<close>; fulfilment
  records a transaction and enrolls the learner (\<open>create_run_enrollments\<close>), which calls edX and the
  contract and organization memberships.  Certificates read enrollments and grades; a new course run
  certificate triggers the program certificates.  The interfaces are locales: a client's frame is
  proved once for every invariant that depends on few tables (\<open>enrollment_frame\<close>, \<open>line_frame\<close>,
  \<open>order_frame\<close>, \<open>order_table_frame\<close>, \<open>payment_frame\<close>, \<open>program_certificate_frame\<close>) and each is
  interpreted on the invariants of the model; \<open>unique_rows\<close> is the contract of a table with unique
  constraints, interpreted on users and on the rows of Open edX users.

  \<^bold>\<open>Bounds and fuel.\<close>  \<open>has_earned\<close> takes the number of nested calls that Python allows and raises
  \<open>RecursionError\<close> when they are used up; \<open>program_certificate_decided\<close> gives a number that is
  enough when free programs do not require each other in a circle, \<open>circular_program_never_decided\<close>
  shows that otherwise none is.  The loop over batches of
  \<open>generate_missing_program_certificates\<close> takes a bound on the batches and returns \<open>None\<close> when it is
  reached; \<open>missing_certificates_created\<close> shows that one more than the number of candidates is
  enough.  The registration loop of \<open>EdxAccounts\<close> has no bound: it is a partial function whose value is
  \<open>None\<close> when it does not end; \<open>registration_returns_when_server_helps\<close> gives a condition under which it
  ends (after at most four requests), \<open>registration_without_suggestions_loops\<close> one under which it does
  not.  All other recursion is structural.

  \<^bold>\<open>Not modelled.\<close>  Serializers, templates, mail texts and the admin; the HubSpot, Keycloak, Google
  Sheets and Mailgun clients, which are HTTP calls (those to Open edX are modelled with its answers
  as a parameter); departments and CMS pages;
  rows of requirements whose node type is null, which none of the modelled operations writes; reversion and audit tables; settings and URL configuration; management commands, which
  call the operations modelled here; the front end.
\<close>

section \<open>Properties\<close>

text \<open>
  C1. DiscountType.get_discounted_price of a product is the least of its list price and of the
  prices that each discount alone gives, in whatever order the discounts come; one discount of an
  unknown type makes the call raise KeyError.
\<close>

theorem discounted_price_is_least:
  "get_discounted_price s ds p None =
     (if list_all known_type ds
      then Inr (Min (insert (prod_price p) ((\<lambda>d. price_of d p) ` set ds)))
      else Inl PyKeyError)"
  by (simp add: get_discounted_price_def resolve_product_version_def apply_discounts_Min apply_discounts_unknown)

text \<open>
  C2. With percentages of at most 100 and no negative amounts, the discounted price of a product
  is never negative and never above the list price.
\<close>

theorem discounted_price_bounds:
  assumes "list_all sane_amount ds" "0 \<le> prod_price p" "get_discounted_price s ds p None = Inr x"
  shows "0 \<le> x \<and> x \<le> prod_price p"
  using assms apply_discounts_bounds [of ds p x]
  by (simp add: get_discounted_price_def resolve_product_version_def)

theorem discounted_price_bounds_witness: "(0 :: rat) \<le> 70 \<and> 70 \<le> prod_price product1"
  using discounted_price_bounds [of "[discount1, discount2]" product1 shop 70]
  by (simp add: sane_amount_def known_type_def samples get_discounted_price_def resolve_product_version_def
      get_product_price_def percent_off_price_def dollars_off_price_def quantize2_def half_even_def)

text \<open>
  C3. Whatever sequence of the five OrderFlow operations is called on an order (with any payloads,
  any answers of edX and any of them failing), its state stays among pending, fulfilled, declined,
  refunded, canceled and errored; review and partially refunded are never entered.
\<close>

theorem order_operations_reachable:
  assumes "viewflow_contract (x_fsm x)" "order_state s o1 = Some PENDING"
  shows "\<exists>st. order_state (run_order_ops x o1 ops s) o1 = Some st
    \<and> st \<in> {PENDING, FULFILLED, DECLINED, REFUNDED, CANCELED, ERRORED}"
  using run_order_ops_reachable [OF assms reach_new] by (simp only: order_reachable_iff)

theorem order_operations_reachable_witness:
  "\<exists>st. order_state (run_order_ops ext1 1 [OpDecline, OpRefund None None '''', OpCancel None] shop_with_order) 1 = Some st
    \<and> st \<in> {PENDING, FULFILLED, DECLINED, REFUNDED, CANCELED, ERRORED}"
  by (rule order_operations_reachable)
    (simp_all add: ext1_def viewflow_run_contract samples order_state_def find_order_def)

text \<open>
  C4. One OrderFlow operation on an order either is refused with TransitionNotAllowed and changes
  nothing (the state is not a source of the transition), or succeeds and leaves the order in the
  transition's target, or raises and leaves the order in the state it had.
\<close>

theorem order_operation_step:
  assumes "viewflow_contract (x_fsm x)" "order_state s o1 = Some st" "run_order_op x o1 p s = (res, t)"
  shows "(\<not> op_source p st \<and> res = Inl TransitionNotAllowed \<and> t = s)
    \<or> (op_source p st \<and> res = Inr () \<and> order_state t o1 = Some (op_target p))
    \<or> (op_source p st \<and> (\<exists>e. res = Inl e) \<and> order_state t o1 = Some st)"
  by (rule run_order_op_cases [OF assms(1,2), of p]) (use assms(3) in auto)

theorem order_operation_step_witness:
  "order_state (snd (run_order_op ext1 1 OpDecline shop_with_order)) 1 = Some DECLINED"
proof -
  obtain res t where run: "run_order_op ext1 1 OpDecline shop_with_order = (res, t)" by fastforce
  have "fst (run_order_op ext1 1 OpDecline shop_with_order) = Inr ()" by code_simp
  then have "res = Inr ()" by (simp only: run fst_conv)
  moreover have "order_state shop_with_order 1 = Some PENDING" "viewflow_contract (x_fsm ext1)"
    by (simp_all add: ext1_def viewflow_run_contract samples order_state_def find_order_def)
  ultimately show ?thesis
    unfolding run snd_conv using order_operation_step [OF _ _ run, of PENDING] by auto
qed

text \<open>
  C5. In every sequence of operations on a new order, failed ones included, fulfilling can only be
  the first thing that happens to the order (so it is fulfilled at most once), and a refund only
  comes directly after it.
\<close>

theorem refund_follows_fulfilment:
  assumes "viewflow_contract (x_fsm x)" "order_state s o1 = Some PENDING"
  shows "(REFUNDED \<in> set (order_history x o1 ops s) \<longrightarrow>
            (\<exists>rest. order_history x o1 ops s = FULFILLED # REFUNDED # rest))
    \<and> (\<forall>xs ys. order_history x o1 ops s = xs @ FULFILLED # ys \<longrightarrow> xs = [])"
  using order_history_refund [OF assms] order_history_fulfil [OF assms] by blast

theorem refund_follows_fulfilment_witness:
  "\<exists>rest. order_history ext1 1 [OpFulfill payload1 False False False, OpDecline, refund1] shop_with_order
     = FULFILLED # REFUNDED # rest"
proof -
  have "REFUNDED \<in> set (order_history ext1 1 [OpFulfill payload1 False False False, OpDecline, refund1] shop_with_order)"
    by code_simp
  then show ?thesis
    using refund_follows_fulfilment [OF ext1_contract shop_orders(2)] by blast
qed

text \<open>
  C6. A checkout never fulfils an order that costs something: when an order that was not fulfilled
  is fulfilled after generate_checkout_payload, the result says that nothing is to be paid for
  this very order and the order's total over its lines is zero. Whatever the payment processor,
  the basket and the discounts are.
\<close>

theorem checkout_fulfils_only_free_orders:
  assumes "viewflow_contract (x_fsm x)" and "order_state s o1 \<noteq> Some FULFILLED"
    and "generate_checkout_payload x px user ip skip skipr g s = (res, t)" and "order_state t o1 = Some FULFILLED"
  shows "res = Inr (NoCheckout o1) \<and> order_total t o1 = Inr 0"
  using losesD [OF loses_checkout [OF assms(1)] _ assms(3)] assms(2,4) by (simp add: unfulfilled_def)

theorem checkout_fulfils_only_free_orders_witness:
  "\<exists>o1. fst (generate_checkout_payload ext1 processor1 user1 ''ip'' False False None free_shop) = Inr (NoCheckout o1)
     \<and> order_total (snd (generate_checkout_payload ext1 processor1 user1 ''ip'' False False None free_shop)) o1 = Inr 0"
proof -
  let ?r = "generate_checkout_payload ext1 processor1 user1 ''ip'' False False None free_shop"
  have "order_state free_shop 10 \<noteq> Some FULFILLED" "order_state (snd ?r) 10 = Some FULFILLED" by code_simp+
  then show ?thesis
    using checkout_fulfils_only_free_orders [OF ext1_contract, of free_shop 10 processor1 user1 "''ip''" False False None
        "fst ?r" "snd ?r"] by auto
qed

text \<open>
  C7. The back-office callback of CyberSource settles a pending order in the state that belongs to
  the processor's response (declined, errored, canceled, or fulfilled) and leaves an order that is
  not pending alone; delivering the same message again answers 200 and changes nothing.
\<close>

theorem callback_settles_once:
  assumes "viewflow_contract (x_fsm x)" and "\<not> in_atomic s"
    and "get_order_from_cybersource_payment_response px req s = Inr (Some order)"
    and "backoffice_callback x px req s = (Inr (CallbackStatus 200), t)"
  shows "order_state t (ord_id order) =
      Some (if ord_state order = PENDING then response_target (px_response px req) else ord_state order)
    \<and> backoffice_callback x px req t = (Inr (CallbackStatus 200), t)"
  using assms by (rule backoffice_settles)

theorem callback_settles_once_witness:
  "order_state (snd (backoffice_callback ext1 processor1 request1 shop_with_order)) 1 = Some FULFILLED"
proof -
  let ?r = "backoffice_callback ext1 processor1 request1 shop_with_order"
  have found: "get_order_from_cybersource_payment_response processor1 request1 shop_with_order = Inr (Some order1)"
    by code_simp
  have "fst ?r = Inr (CallbackStatus 200)" by code_simp
  note run = run_eq [OF this]
  have "\<not> in_atomic shop_with_order" by (simp add: samples)
  note s = callback_settles_once [OF ext1_contract this found run]
  have "response_target (px_response processor1 request1) = FULFILLED" "ord_state order1 = PENDING" "ord_id order1 = 1"
    by code_simp+
  then show ?thesis using s by simp
qed

text \<open>
  C8. When a Stripe event fulfils an order that was not fulfilled, the event is a completed
  checkout that refers to the order by its reference number, and the session that Stripe then
  returns says that the payment succeeded or that nothing is due. No other event, and no event
  about another order, fulfils it.
\<close>

theorem stripe_fulfils_only_paid:
  assumes "viewflow_contract (x_fsm x)" and "order_state s o1 \<noteq> Some FULFILLED"
    and "stripe_webhook x px ev s = (res, t)" and "order_state t o1 = Some FULFILLED"
  shows "ev_type ev = ''checkout.session.completed'' \<and> order_of_event ev s = Some o1
    \<and> (\<exists>cs. px_session px (ev_session_id ev) = Inr cs \<and> session_paid cs)"
  using stripe_webhook_fulfils [OF assms(1) _ assms(3), of o1] assms(2,4) by (simp add: unfulfilled_def)

theorem stripe_fulfils_only_paid_witness:
  "\<exists>cs. px_session processor1 (ev_session_id event1) = Inr cs \<and> session_paid cs
     \<and> order_state (snd (stripe_webhook ext1 processor1 event1 stripe_shop)) 1 = Some FULFILLED"
proof -
  let ?r = "stripe_webhook ext1 processor1 event1 stripe_shop"
  have o: "order_state stripe_shop 1 \<noteq> Some FULFILLED" "order_state (snd ?r) 1 = Some FULFILLED" by code_simp+
  from stripe_fulfils_only_paid [OF ext1_contract o(1) prod.collapse [symmetric] o(2)] show ?thesis
    using o(2) by blast
qed

text \<open>
  C9. refund_order either changes nothing and does not report success, or the order was found, is
  fulfilled and has a payment, and the processor accepted (or queued) the refund of the amount
  asked for. If it returns then, it reports success, the order has gone from fulfilled to
  refunded, a refund transaction of the order holds the data of the processor's answer, the reason
  and that amount, and what is sent is the mail about the refund and, exactly when unenrolling was
  asked for, the downgrade of the learner. If it raises after the processor accepted, the refund
  could not be recorded: the order keeps its state and neither a transaction nor a mail nor a
  downgrade is added. Other orders stay as they are in every case. (The wrapper of the transitions
  behaves as viewflow documents it.)
\<close>

theorem refund_follows_processor:
  assumes "viewflow_contract (x_fsm x)"
    and "refund_order x px oid refno amount reason unenroll s = (res, t)"
  shows "t = s \<and> res \<noteq> Inr True
    \<or> (\<exists>order response a. refund_accepted px s oid refno amount order response a
        \<and> (\<forall>o2. o2 \<noteq> ord_id order \<longrightarrow> find_order t o2 = find_order s o2)
        \<and> (case res of
             Inl e \<Rightarrow> order_state t (ord_id order) = order_state s (ord_id order) \<and> transactions t = transactions s
               \<and> outbox t = outbox s
           | Inr b \<Rightarrow> b \<and> order_state s (ord_id order) = Some FULFILLED \<and> order_state t (ord_id order) = Some REFUNDED
               \<and> refund_recorded t (ord_id order) (pr_response_data response) a reason
               \<and> outbox t = outbox s @ SendOrderRefundEmail (ord_id order)
                   # (if unenroll then [QueueDowngrade (ord_id order)] else [])))"
  using assms by (rule refund_order_outcome)

theorem refund_follows_processor_witness:
  "\<exists>order response a. refund_accepted processor1 paid_shop (Some 1) None None order response a
     \<and> order_state (snd (refund_order ext1 processor1 (Some 1) None None ''requested'' True paid_shop)) (ord_id order) = Some REFUNDED
     \<and> refund_recorded (snd (refund_order ext1 processor1 (Some 1) None None ''requested'' True paid_shop)) (ord_id order)
         (pr_response_data response) a ''requested''"
proof -
  let ?r = "refund_order ext1 processor1 (Some 1) None None ''requested'' True paid_shop"
  have r: "fst ?r = Inr True" by code_simp
  show ?thesis using refund_follows_processor [OF ext1_contract run_eq [OF r]] by auto
qed

text \<open>
  C10. For a product of a contract with m seats and at most m rows of codes (codes joined with
  their products: a code that is linked to two products of the contract, or twice, has several
  rows), handle_limited_seats ends with m rows: the old rows are kept, in order, their codes set
  to the contract's price and to one redemption each, new codes are created for the missing rows,
  the returned counts are those, and no other discount is added or removed. The different codes
  are m less the rows by which codes were counted more than once; so there is one code per seat
  exactly when no code is counted twice.
\<close>

theorem codes_match_seats:
  assumes "codes_ok s" and "p \<in> set (contract_products s c)" and "seat_limit c = Some m"
    and "length (contract_product_discounts s c p) \<le> m"
  shows "\<exists>t new. handle_limited_seats c p s
      = (Inr (m - length (contract_product_discounts s c p), length (contract_product_discounts s c p), 0), t)
    \<and> codes_ok t \<and> contract_products t c = contract_products s c
    \<and> contract_product_discounts t c p
        = map (as_code (contract_price c) ONE_TIME) (contract_product_discounts s c p) @ new
    \<and> map disc_id (discounts t) = map disc_id (discounts s) @ map disc_id new
    \<and> length (contract_product_discounts t c p) = m
    \<and> card (disc_id ` set (contract_product_discounts t c p))
        = m - (length (contract_product_discounts s c p) - card (disc_id ` set (contract_product_discounts s c p)))
    \<and> (\<forall>d \<in> set new. as_code (contract_price c) ONE_TIME d = d)"
  using assms by (rule seats_distinct)

theorem codes_match_seats_witness:
  "card (disc_id ` set (contract_product_discounts (snd (handle_limited_seats contract1 contract_product1 contract_shop))
     contract1 contract_product1)) = 2"
proof -
  have ok: "codes_ok contract_shop" "contract_product1 \<in> set (contract_products contract_shop contract1)"
      "seat_limit contract1 = Some 2"
      "length (contract_product_discounts contract_shop contract1 contract_product1) \<le> 2"
    by (simp add: codes_ok_def contract_shop_def samples) code_simp+
  have "length (contract_product_discounts contract_shop contract1 contract_product1)
      = card (disc_id ` set (contract_product_discounts contract_shop contract1 contract_product1))" by code_simp
  with codes_match_seats [OF ok] show ?thesis by auto
qed

text \<open>
  C11. When OrderFlow.fulfill returns for an order with a line that sells a course run, the order
  was pending, the purchaser has an active enrollment of that run in the verified mode, and the
  payment of the run is recorded for the order, whatever other lines the order has and whatever
  edX answered.
\<close>

theorem fulfilled_order_enrolls:
  assumes "viewflow_contract (x_fsm x)" "enrollments_ok s" "find_order s o1 = Some order"
    and "l \<in> set (lines_of s o1)" "purchased_object s l = Some (PurchRun r)"
    and "fulfill x o1 d already skip_receipt False s = (Inr (), t)"
  shows "order_state s o1 = Some PENDING \<and> verified_in (ord_purchaser order) (run_id r) t
    \<and> \<lparr>pcr_user = ord_purchaser order, pcr_course_run = run_id r, pcr_order = o1\<rparr> \<in> set (paid_course_runs t)"
  using assms by (rule fulfill_enrolls)

theorem fulfilled_order_enrolls_witness:
  "verified_in 1 1 (snd (fulfill ext1 1 payload1 False False False shop_with_order))"
proof -
  have "fst (fulfill ext1 1 payload1 False False False shop_with_order) = Inr ()" by code_simp
  note run = run_eq [OF this]
  have l: "line1 \<in> set (lines_of shop_with_order 1)" "purchased_object shop_with_order line1 = Some (PurchRun run1)"
    by (simp_all add: samples lines_of_def purchased_object_def resolve_object_def)
  have "ord_purchaser order1 = 1" "run_id run1 = 1" "viewflow_contract (x_fsm ext1)"
    by (simp_all add: samples viewflow_run_contract)
  then show ?thesis
    using fulfilled_order_enrolls [OF _ shop_orders(3,1) l run] by simp
qed

text \<open>
  C12. A checkout of distinct products for which the user has no pending order with the same
  gateway creates one: pending, for that user and gateway, with one line per product at its latest
  version, one redemption per discount asked for, and a total that is the sum of the discounted
  prices of its lines.
\<close>

theorem checkout_creates_order:
  assumes "orders_ok s" "mapE (latest_version s) ps = Inr vs" "find_pending s ps vs user gw = None"
    and "distinct (map sold_key ps)" "pending_get_or_create ps user ds gw s = (Inr o1, t)"
  shows "o1 = next_id s \<and> order_for o1 ps vs user (given ds) gw t"
  using assms by (rule pending_order_new)

theorem checkout_creates_order_witness:
  "order_for 10 [product1, product2] [version1, version2] 1 [discount1] GW_CYBERSOURCE
     (snd (pending_get_or_create [product1, product2] 1 [Some discount1] GW_CYBERSOURCE shop))"
proof -
  have "fst (pending_get_or_create [product1, product2] 1 [Some discount1] GW_CYBERSOURCE shop) = Inr 10" by code_simp
  note run = run_eq [OF this]
  have "orders_ok shop" "mapE (latest_version shop) [product1, product2] = Inr [version1, version2]"
      "find_pending shop [product1, product2] [version1, version2] 1 GW_CYBERSOURCE = None"
      "distinct (map sold_key [product1, product2])"
    by (simp_all add: orders_ok_def samples latest_version_def versions_for_def last_opt_def find_pending_def sold_key_def)
  from checkout_creates_order [OF this run] show ?thesis by simp
qed

text \<open>
  C13. Checking out the same products again, with whatever discounts the basket has by then, finds
  the pending order of the first checkout: no second order and no second line is created, and the
  order has the new discounts and the total that they give.
\<close>

theorem checkout_again_reuses_order:
  assumes "orders_ok s" "mapE (latest_version s) ps = Inr vs" "find_pending s ps vs user gw = None"
    "distinct (map sold_key ps)" "ps \<noteq> []"
    "pending_get_or_create ps user ds gw s = (Inr o1, t)"
    "pending_get_or_create ps user ds' gw t = (Inr o2, u)"
  shows "o2 = o1 \<and> order_for o1 ps vs user (given ds') gw u
    \<and> order_lines u = order_lines t \<and> map ord_id (orders u) = map ord_id (orders t)"
  using assms by (rule checkout_again)

theorem checkout_again_reuses_order_witness:
  "order_for 10 [product1] [version1] 1 [] GW_CYBERSOURCE
     (snd (pending_get_or_create [product1] 1 [] GW_CYBERSOURCE
             (snd (pending_get_or_create [product1] 1 [Some discount1] GW_CYBERSOURCE shop))))"
proof -
  have a: "fst (pending_get_or_create [product1] 1 [Some discount1] GW_CYBERSOURCE shop) = Inr 10" by code_simp
  have b: "fst (pending_get_or_create [product1] 1 [] GW_CYBERSOURCE
             (snd (pending_get_or_create [product1] 1 [Some discount1] GW_CYBERSOURCE shop))) = Inr 10" by code_simp
  have "orders_ok shop" "mapE (latest_version shop) [product1] = Inr [version1]"
      "find_pending shop [product1] [version1] 1 GW_CYBERSOURCE = None" "distinct (map sold_key [product1])"
    by (simp_all add: orders_ok_def samples latest_version_def versions_for_def last_opt_def find_pending_def)
  from checkout_again_reuses_order [OF this _ run_eq [OF a] run_eq [OF b]] show ?thesis by simp
qed

text \<open>
  C14. Decoding the reference number that is sent to the payment processor gives back the order's
  primary key, whatever the deployment environment is called, and two orders never share a
  reference number.
\<close>

theorem reference_number_round_trip:
  "decode_reference_number s (generate_reference_number s o1) = show_nat o1
   \<and> (generate_reference_number s o1 = generate_reference_number s o2 \<longleftrightarrow> o1 = o2)"
  by (simp add: decode_generate generate_inject)

text \<open>
  C15. A deferral that passes its checks, between the learner's one enrollment with the courseware
  id to be left and the one usable run with the target id. If the enrollment was deferred before
  and the learner is actively verified in the target, it is answered with those enrollments and
  nothing changes. Otherwise, if edX grants what is asked of it (to leave an active audit
  enrollment in the target, the verified enrollment there, audit in the run left) and no payment
  of the learner is for the target yet, it returns; the learner then has an active verified
  enrollment in the target and an active audit one in the run left (one that was deferred before
  stays as it is), and the first fulfilled payment of the learner for the run left, if there is
  one, is for the target instead, every other payment being as before.
\<close>

theorem deferral_moves_enrollment:
  assumes "enrollments_ok s"
    and "filter (\<lambda>e. cre_user e = u \<and> run_courseware_id (cre_run e) = from_id) (run_enrollments s) = [f]"
    and "filter (\<lambda>r. run_courseware_id r = to_id) (usable_runs s) = [to_run]" "to_id \<noteq> ''''"
    and "check_deferral s f to_run force = Inr ()"
    and "edx_grants x s u (cre_run f) to_run" and "unpaid u (run_id to_run) s"
  shows "if deferred_before s u f to_run
    then defer_enrollment x u from_id (Some to_id) keep force s
      = (Inr (Some f, active_enrollment_in_mode s u to_run verified_mode), s)
    else \<exists>res t. defer_enrollment x u from_id (Some to_id) keep force s = (Inr res, t)
      \<and> (\<exists>a. find_run_enrollment t (u, run_id to_run) = Some a \<and> enrolled_as verified_mode True a)
      \<and> (if cre_change_status f = Some status_deferred
         then find_run_enrollment t (u, run_id (cre_run f)) = find_run_enrollment s (u, run_id (cre_run f))
         else \<exists>b. find_run_enrollment t (u, run_id (cre_run f)) = Some b \<and> enrolled_as audit_mode True b)
      \<and> paid_course_runs t = update_first (fulfilled_payment s u (run_id (cre_run f)))
          (\<lambda>p. p\<lparr>pcr_course_run := run_id to_run\<rparr>) (paid_course_runs s)"
  using deferred_again [OF assms(2-5)] defer_moves [OF assms(1-5) _ assms(6,7)] by simp

theorem deferral_moves_enrollment_witness:
  "paid_course_runs (snd (defer_enrollment edx_up 1 (run_courseware_id run1) (Some (run_courseware_id run2)) False False
        (paid_shop\<lparr>run_enrollments := [enrollment1],
           paid_course_runs := [\<lparr>pcr_user = 1, pcr_course_run = 1, pcr_order = 1\<rparr>]\<rparr>)))
     = [\<lparr>pcr_user = 1, pcr_course_run = 2, pcr_order = 1\<rparr>]"
proof -
  let ?s = "paid_shop\<lparr>run_enrollments := [enrollment1], paid_course_runs := [\<lparr>pcr_user = 1, pcr_course_run = 1, pcr_order = 1\<rparr>]\<rparr>"
  let ?r = "defer_enrollment edx_up 1 (run_courseware_id run1) (Some (run_courseware_id run2)) False False ?s"
  have ids: "run_id run1 = 1" "run_id run2 = 2" "cre_run enrollment1 = run1" by (simp_all add: samples)
  have "enrollments_ok ?s" by (simp add: enrollments_ok_def paid_shop_def samples)
  moreover have "filter (\<lambda>e. cre_user e = 1 \<and> run_courseware_id (cre_run e) = run_courseware_id run1)
      (run_enrollments ?s) = [enrollment1]" by (simp add: samples)
  moreover have "filter (\<lambda>r. run_courseware_id r = run_courseware_id run2) (usable_runs ?s) = [run2]"
      "run_courseware_id run2 \<noteq> ''''" by (simp_all add: paid_shop_def samples usable_runs_def)
  moreover have "check_deferral ?s enrollment1 run2 False = Inr ()"
    by (simp add: check_deferral_ok is_enrollable_def paid_shop_def samples)
  moreover have "edx_grants edx_up ?s 1 (cre_run enrollment1) run2"
    by (simp add: edx_grants_def active_enrollment_in_mode_def verified_mode_def audit_mode_def edx_request_def
        enroll_in_edx_course_runs_def existing_edx_enrollment_def samples)
  moreover have "unpaid 1 (run_id run2) ?s" by (simp add: unpaid_def samples)
  ultimately have "if deferred_before ?s 1 enrollment1 run2
    then ?r = (Inr (Some enrollment1, active_enrollment_in_mode ?s 1 run2 verified_mode), ?s)
    else \<exists>res t. ?r = (Inr res, t)
      \<and> (\<exists>a. find_run_enrollment t (1, run_id run2) = Some a \<and> enrolled_as verified_mode True a)
      \<and> (if cre_change_status enrollment1 = Some status_deferred
         then find_run_enrollment t (1, run_id (cre_run enrollment1)) = find_run_enrollment ?s (1, run_id (cre_run enrollment1))
         else \<exists>b. find_run_enrollment t (1, run_id (cre_run enrollment1)) = Some b \<and> enrolled_as audit_mode True b)
      \<and> paid_course_runs t = update_first (fulfilled_payment ?s 1 (run_id (cre_run enrollment1)))
          (\<lambda>p. p\<lparr>pcr_course_run := run_id run2\<rparr>) (paid_course_runs ?s)"
    by (rule deferral_moves_enrollment)
  moreover have "\<not> deferred_before ?s 1 enrollment1 run2" by (simp add: deferred_before_def samples)
  ultimately have "paid_course_runs (snd ?r) = update_first (fulfilled_payment ?s 1 (run_id (cre_run enrollment1)))
          (\<lambda>p. p\<lparr>pcr_course_run := run_id run2\<rparr>) (paid_course_runs ?s)" by auto
  moreover have "fulfilled_payment ?s 1 1 \<lparr>pcr_user = 1, pcr_course_run = 1, pcr_order = 1\<rparr>"
    by (simp add: fulfilled_payment_def order_state_def find_order_def paid_shop_def samples)
  ultimately show ?thesis by (simp add: ids)
qed

text \<open>
  C16. The table of requirements keeps its type through every operation of a program, also when
  one raises: every row passes the check constraint of the table, paths are distinct and have four
  characters per level, every row below a root has its parent in the same program, and no program
  has two roots.
\<close>

theorem requirements_tree_stays_well_formed:
  assumes "treebeard_contract tb" and "tree_ok (requirements s)"
  shows "tree_ok (requirements (snd (add_requirement tb g q s))) \<and> tree_ok (requirements (snd (add_elective tb g c s)))
    \<and> tree_ok (requirements (snd (add_program_requirement tb g p s)))
    \<and> tree_ok (requirements (snd (add_program_elective tb g p s)))
    \<and> tree_ok (requirements (snd (save_program tb g s)))"
  using ensures_state [OF add_under_ok [OF assms(1)] assms(2) TrueI] keepsD [OF save_program_ok [OF assms(1)] assms(2)]
  by (simp add: add_requirement_def add_elective_def add_program_requirement_def add_program_elective_def)

theorem requirements_tree_stays_well_formed_witness:
  "tree_ok (requirements (snd (add_elective tree1 program1 course1 school)))
   \<and> length (requirements (snd (add_elective tree1 program1 course1 school))) = 9"
proof -
  have "tree_ok (requirements school)" using requirements1_ok by (simp add: school_def)
  moreover have "length (requirements (snd (add_elective tree1 program1 course1 school))) = 9" by code_simp
  ultimately show ?thesis using requirements_tree_stays_well_formed [OF tree1_contract] by blast
qed

text \<open>
  C17. Whenever has_earned_program_cert answers, the answer is the meaning of the requirements
  tree: an inductive relation in which the root and "all of" operators need all their children,
  "minimum number of" operators need a set of that many children, a course needs a certificate or
  a passing grade, a required program needs its own certificate or, when it is free, its own
  requirements.
\<close>

theorem program_certificate_refines:
  assumes "treebeard_contract tb" "tree_ok (requirements s)" "program_root tb s g = Inr r"
    and "has_earned_program_cert k tb s u g = Inr b"
  shows "b \<longleftrightarrow> earned tb s u g r"
proof (rule has_earned_sound [OF assms(1,2)])
  show "r \<in> set (requirements s)" by (rule program_rootD [OF assms(1,3)])
  show "has_earned k tb s u g r = Inr b" using assms(3,4) by (simp add: has_earned_program_cert_def)
qed

theorem program_certificate_refines_witness:
  "earned tree1 school 1 program1 (node ''0001'' 1 1 NT_PROGRAM_ROOT)"
proof -
  have "program_root tree1 school program1 = Inr (node ''0001'' 1 1 NT_PROGRAM_ROOT)"
      "has_earned_program_cert 8 tree1 school 1 program1 = Inr True" by code_simp+
  moreover have "tree_ok (requirements school)" using requirements1_ok by (simp add: school_def)
  ultimately show ?thesis using program_certificate_refines [OF tree1_contract] by blast
qed

text \<open>
  C18. The recursion over the requirements comes to an end: when the free programs that are
  required do not require each other in a circle (a rank decreases), and the minimum numbers are
  numbers, then the calls counted by calls_enough (the depth of the trees for each rank) suffice,
  and the function returns whether the requirements are met instead of raising RecursionError.
\<close>

theorem program_certificate_decided:
  assumes "treebeard_contract tb" "tree_ok (requirements s)" "decidable rank tb s" "program_root tb s g = Inr r"
    and "calls_enough rank s g \<le> k"
  shows "has_earned_program_cert k tb s u g = Inr (earned tb s u g r)"
  using assms by (rule program_cert_decided)

theorem program_certificate_decided_witness:
  "\<exists>b. has_earned_program_cert 8 tree1 school 7 program1 = Inr b \<and> calls_enough rank1 school program1 = 8"
proof -
  have req: "requirements school = requirements1" by (simp add: school_def)
  have root: "program_root tree1 school program1 = Inr (node ''0001'' 1 1 NT_PROGRAM_ROOT)" by code_simp
  have k: "calls_enough rank1 school program1 = 8"
    by (simp add: calls_enough_def req school_samples rank1_def)
  then show ?thesis
    using program_certificate_decided [OF tree1_contract _ requirements1_decidable [OF req] root, of 8 7] requirements1_ok req
    by simp
qed

text \<open>
  C19. A free program whose first requirement is itself is never decided: whatever the learner has
  earned and however many calls Python allows, has_earned_program_cert raises RecursionError,
  since nothing stops the recursion through required programs.
\<close>

theorem circular_program_never_decided:
  assumes "program_root tb s g = Inr r" "is_root r" "\<not> prg_requires_payment g"
    and "tb_children tb (requirements s) r = op # ops" "is_all_of_operator op"
    and "tb_children tb (requirements s) op = n # ns" "req_required_program n = Some g" "is_program_node n"
      "req_operator n = None"
  shows "has_earned_program_cert k tb s u g = Inl RecursionError"
  using assms by (rule circular_program)

theorem circular_program_never_decided_witness:
  "has_earned_program_cert 1000 tree1 circular_school 1 program2 = Inl RecursionError"
proof (rule circular_program_never_decided)
  let ?op = "(node ''00020001'' 2 2 NT_OPERATOR)\<lparr>req_operator := Some ALL_OF\<rparr>"
  let ?n = "(node ''000200010001'' 3 2 NT_PROGRAM)\<lparr>req_required_program := Some program2\<rparr>"
  show "program_root tree1 circular_school program2 = Inr (node ''0002'' 1 2 NT_PROGRAM_ROOT)" by code_simp
  show "tb_children tree1 (requirements circular_school) (node ''0002'' 1 2 NT_PROGRAM_ROOT) = ?op # []" by code_simp
  show "tb_children tree1 (requirements circular_school) ?op = ?n # []" by code_simp
qed (simp_all add: node_def new_node_def program2_def is_root_def is_all_of_operator_def is_program_node_def)

text \<open>
  C20. The job over the missing program certificates ends after at most as many batches as there
  are candidates, for every batch size, and counts every candidate once. Afterwards every
  candidate who is owed a certificate has one for the program, whatever happens with the other
  candidates, whose own requirements may raise or never be decided. Owed means that the learner
  meets the requirements of the program, that these and those of the free programs they lead to
  can be decided (minimum numbers are numbers, the free programs have a tree and do not require
  each other in a circle), and that the limit of calls is enough for them. Premises: the library
  of trees behaves as documented, the requirement nodes form well-formed trees, and enrollments in
  programs have positive increasing keys, one for each learner and program.
\<close>

theorem missing_certificates_created:
  assumes "treebeard_contract (gs_tree gs)" "tree_ok (requirements s)"
    and "candidates_ok s" "\<forall>e \<in> set (program_enrollments s). 0 < pe_id e"
    and "0 < b" "length (get_eligible_program_certificate_candidates s) < k"
  shows "\<exists>st t. generate_missing_program_certificates k gs b s = (Inr (Some st), t)
    \<and> js_processed st = length (get_eligible_program_certificate_candidates s)
    \<and> js_created st + js_ineligible st + js_failed st = js_processed st
    \<and> length (program_certificates t) = length (program_certificates s) + js_created st
    \<and> (\<forall>e \<in> set (get_eligible_program_certificate_candidates s). owed_certificate gs s e
         \<longrightarrow> (pe_user e, prg_id (pe_program e)) \<in> set (map cert_key (program_certificates t)))"
  using missing_certificates [OF assms(3-6), of gs] owed_candidates [OF assms(1,2)]
  unfolding candidate_key_def by meson

theorem missing_certificates_created_witness:
  "(1, 1) \<in> set (map cert_key (program_certificates (snd (generate_missing_program_certificates 2 services1 500 school))))"
proof -
  have req: "requirements school = requirements1" by (simp add: school_def)
  have tree: "gs_tree services1 = tree1" "gs_recursion_limit services1 = 1000" by (simp_all add: services1_def)
  have e: "program_enrollments school = [program_enrollment1]" "pe_program program_enrollment1 = program1"
      "pe_user program_enrollment1 = 1" "pe_id program_enrollment1 = 1" by (simp_all add: school_def program_enrollment1_def)
  have c: "get_eligible_program_certificate_candidates school = [program_enrollment1]" by code_simp
  have root: "program_root tree1 school program1 = Inr (node ''0001'' 1 1 NT_PROGRAM_ROOT)" by code_simp
  have k: "calls_enough rank1 school program1 = 8"
    by (simp add: calls_enough_def req school_samples rank1_def)
  have p: "prg_id program1 = 1" by code_simp
  have "has_earned_program_cert 8 tree1 school 1 program1 = Inr True" by code_simp
  then have "earned tree1 school 1 program1 (node ''0001'' 1 1 NT_PROGRAM_ROOT)"
    using program_cert_decided [OF tree1_contract _ requirements1_decidable [OF req] root, of 8 1] requirements1_ok req k by simp
  moreover have "decidable_within (\<lambda>_. True) rank1 tree1 school"
    using requirements1_decidable [OF req] by (simp only: decidable_within_all)
  ultimately have owed: "owed_certificate services1 school program_enrollment1"
    unfolding owed_certificate_def tree e using root k by fastforce
  have "candidates_ok school" by (simp add: candidates_ok_def e)
  then show ?thesis
    using missing_certificates_created [of services1 school 500 2] requirements1_ok tree1_contract owed
    by (auto simp: req tree e c p)
qed

text \<open>
  C21. Once the certificate of a learner for a run is revoked, no run of the certificate job (for
  all runs or for one run or learner, forced or not, whatever grades edX reports) issues the
  learner a certificate for that run again.
\<close>

theorem revoked_certificate_stays_revoked:
  assumes "run_revoked u r s"
  shows "run_revoked u r (snd (generate_course_run_certificates gs user run force s))"
  using keeps_revoked_job assms by (rule keepsD)

theorem revoked_certificate_stays_revoked_witness:
  "run_revoked 1 run1 (snd (generate_course_run_certificates services1 None (Some run1) True
     (school\<lparr>run_certificates := [certificate1\<lparr>crc_is_revoked := True\<rparr>]\<rparr>)))"
  by (rule revoked_certificate_stays_revoked) (simp add: run_revoked_def for_run_def certificate1_def)

text \<open>
  C22. The reconciliation of a learner's organizations, in each of its cases. If there is a cache
  and the ids it expects in the payload are those of the payload, it returns (0, 0) and writes
  nothing, whether or not the memberships agree with the payload. Otherwise, if some id of the
  payload is no UUID, it raises ValidationError and writes nothing. Otherwise it returns and
  implements its specification on the map from organizations to membership: of the organizations
  known to the single sign-on, the learner is in those that the payload names and in those to be
  kept until they are seen, the flag is cleared when one is seen, other organizations and other
  learners are untouched; and one row per learner and organization is kept. (to_uuid stands for
  Django's conversion of texts to UUIDs.)
\<close>

theorem organizations_reconciled:
  assumes "organizations_ok s"
  shows "if nothing_to_do s user payload then reconcile_user_orgs to_uuid user payload s = (Inr (0, 0), s)
    else if list_ex (\<lambda>i. to_uuid i = None) payload then reconcile_user_orgs to_uuid user payload s = (Inl ValidationError, s)
    else \<exists>n t. reconcile_user_orgs to_uuid user payload s = (Inr n, t)
      \<and> memberships t = (memberships s)(user := reconciled s (map (\<lambda>i. the (to_uuid i)) payload) (memberships s user))
      \<and> organizations_ok t"
  using reconcile_cases [OF assms, of to_uuid user payload] by (auto simp: list_ex_iff list_all_iff)

theorem organizations_reconciled_witness:
  "memberships (snd (reconcile_user_orgs Some 1 [''b''] org_db)) 1 = [2 \<mapsto> False, 3 \<mapsto> True]"
proof -
  have ok: "organizations_ok org_db" "\<not> nothing_to_do org_db 1 [''b'']"
    by (simp_all add: organizations_ok_def nothing_to_do_def cached_membership_def org_db_def samples)
  have "reconciled org_db [''b''] (memberships org_db 1) org = [2 \<mapsto> False, 3 \<mapsto> True] org" for org
    by (simp add: reconciled_def sso_id_def memberships_def org_db_def samples)
  then have "reconciled org_db [''b''] (memberships org_db 1) = [2 \<mapsto> False, 3 \<mapsto> True]" by (rule ext)
  then show ?thesis using organizations_reconciled [OF ok(1), of 1 "[''b'']" Some] ok(2) by auto
qed

text \<open>
  C23. _create_edx_user_request returns (with a result or an exception) and sends at most four
  registration requests, beyond those that were sent before it or by others while the lock was
  waited for, when every username conflict that Open edX reports comes with a suggestion that no
  other learner has here; whatever else Open edX answers, whatever the random numbers are, and
  whatever other processes write while the lock is waited for, as long as they keep the
  constraints of the tables and the row stays the learner's own.
\<close>

theorem registration_returns_when_server_helps:
  assumes "\<And>s. accounts_ok s \<Longrightarrow> accounts_ok (srv_meanwhile srv s)" "accounts_ok s"
    and "\<And>n. helpful srv (taken_elsewhere (srv_meanwhile srv (drawn s n)) (au_id user))"
    and "\<And>n row. row_with_id (oeu_id oeu) (srv_meanwhile srv (drawn s n)) = Some row \<Longrightarrow> oeu_user row = au_id user"
  shows "\<exists>r t n. create_edx_user_request srv oeu user token s = Some (r, t)
    \<and> registrations t \<le> max (registrations s) (registrations (srv_meanwhile srv (drawn s n))) + 4"
  using assms by (rule registration_returns)

theorem registration_returns_when_server_helps_witness:
  "\<exists>r t. create_edx_user_request helpful_server edx_row1 learner1 ''token'' accounts1 = Some (r, t) \<and> registrations t \<le> 4"
proof -
  have "\<exists>r t n. create_edx_user_request helpful_server edx_row1 learner1 ''token'' accounts1 = Some (r, t)
    \<and> registrations t \<le> max (registrations accounts1) (registrations (srv_meanwhile helpful_server (drawn accounts1 n))) + 4"
  proof (rule registration_returns_when_server_helps)
    show "accounts_ok accounts1" by code_simp
    show "helpful helpful_server (taken_elsewhere (srv_meanwhile helpful_server (drawn accounts1 n)) (au_id learner1))" for n
      by (rule helpful_server_helpful) (simp add: taken_elsewhere_def account_samples drawn_def)
    show "accounts_ok (srv_meanwhile helpful_server s)" if "accounts_ok s" for s
      using that by (simp add: helpful_server_def)
    show "oeu_user row = au_id learner1"
      if "row_with_id (oeu_id edx_row1) (srv_meanwhile helpful_server (drawn accounts1 n)) = Some row" for n row
      using that by (auto simp: row_with_id_def account_samples drawn_def)
  qed
  moreover have "registrations accounts1 = 0" "registrations (srv_meanwhile helpful_server (drawn accounts1 n)) = 0" for n
    by (simp_all add: registrations_def account_samples drawn_def)
  ultimately show ?thesis by auto
qed

text \<open>
  C24. When Open edX answers every registration with a username conflict and no suggestions, the
  loop of _create_edx_user_request never returns: each conflict is answered with a freshly
  generated username and the counter of attempts is set back to zero. (None is the value of a loop
  that does not end.) That is so for every learner who is really tried, with a name that can be
  varied: the tables keep their constraints, the learner has one row, not yet synchronised, with a
  desired username that is not empty and has at most 26 characters, no other learner has one of
  its first hundred variants base_0 to base_99, the lock is free and no other process writes while
  it is waited for, and the profile has the data that the request needs. The table may hold any
  other learners.
\<close>

theorem registration_without_suggestions_loops:
  assumes "stubborn srv" "srv_meanwhile srv = (\<lambda>s. s)" "build_user_data user = Inr d"
    "accounts_ok s" "edx_users_of s (au_id user) = [oeu]" "\<not> oeu_has_been_synced oeu"
    "oeu_desired_edx_username oeu = Some base" "base \<noteq> []" "length base \<le> 26"
    "candidates_free s (au_id user) base" "user_lock user \<notin> set (acs_locks s)"
  shows "create_edx_user_request srv oeu user token s = None"
  using assms by (rule registration_never_returns)

theorem registration_without_suggestions_loops_witness:
  "create_edx_user_request stubborn_server edx_row1 learner1 ''token''
     (accounts1\<lparr>openedx_users := [edx_row1, new_edx_user 2 2 (Some ''bob'')]\<rparr>) = None"
proof (rule registration_without_suggestions_loops [OF stubborn_server_stubborn, where base = "''ada''"])
  show "build_user_data learner1 = Inr \<lparr>ep_name = ''Ada'', ep_country = ''GB'', ep_state = None, ep_gender = None,
      ep_year_of_birth = Some 1990, ep_level_of_education = []\<rparr>" by code_simp
  show "accounts_ok (accounts1\<lparr>openedx_users := [edx_row1, new_edx_user 2 2 (Some ''bob'')]\<rparr>)" by code_simp
  show "candidates_free (accounts1\<lparr>openedx_users := [edx_row1, new_edx_user 2 2 (Some ''bob'')]\<rparr>) (au_id learner1) ''ada''"
    unfolding candidates_free_def list_all_iff
    by (auto simp: taken_elsewhere_def candidate_username_def Let_def OPENEDX_USERNAME_MAX_LEN_def account_samples element_inside split: if_splits)
qed (simp_all add: account_samples stubborn_server_def edx_users_of_def)



text \<open>
  C26. When get_valid_edx_api_auth returns tokens, they are the stored tokens of that user, and
  they either stay valid for the time asked for, or they come from the last answer of Open edX,
  which answered a request for tokens and was no error: the access token and the refresh token of
  the row are those of the answer, and it expires after the lifetime that the answer names, less
  the safety margin. (There is one row of tokens per user.)
\<close>

theorem token_is_valid_or_was_just_issued:
  assumes "get_valid_edx_api_auth srv u ttl s = (Inr a, t)" "distinct (map oaa_user (api_auths s))"
  shows "find_auth t u = Some a \<and> (valid_until a (acs_now s + ttl) \<or> issued srv a t)"
  using assms by (rule get_valid_edx_api_auth_Inr)

theorem token_is_valid_or_was_just_issued_witness:
  "\<exists>a t. oaa_access_token a = Some ''a1'' \<and> find_auth t 1 = Some a
     \<and> (valid_until a 160 \<or> issued helpful_server a t)"
proof -
  have "fst (get_valid_edx_api_auth helpful_server 1 60 accounts2) = Inr (auth1\<lparr>oaa_refresh_token := ''r1'',
      oaa_access_token := Some ''a1'', oaa_access_token_expires_on := Some 3690\<rparr>)" by code_simp
  note run = run_eq [OF this]
  have "distinct (map oaa_user (api_auths accounts2))" "acs_now accounts2 = 100"
    by (simp_all add: accounts2_def accounts1_def)
  then show ?thesis using token_is_valid_or_was_just_issued [OF run] by (intro exI conjI) auto
qed

text \<open>
  C27. Revoking the sharing of a program record kills exactly the public links of that learner and
  program: every other link shows what it showed before.
\<close>

theorem revoked_record_links_are_dead:
  assumes "shares_ok s" "revoke_share user pk s = (Inr (), t)"
  shows "shared_record t uuid = (case shared_record s uuid of
      None \<Rightarrow> None | Some r \<Rightarrow> if is_share user pk None r then None else Some r)"
  using assms by (rule revoked_links)

theorem revoked_record_links_are_dead_witness:
  "shared_record sharing1 4 \<noteq> None \<and> shared_record (snd (revoke_share 1 1 sharing1)) 4 = None"
proof -
  have "shares_ok sharing1" by code_simp
  have "fst (revoke_share 1 1 sharing1) = Inr ()" by code_simp
  note run = run_eq [OF this]
  have r: "shared_record sharing1 4 = Some \<lparr>lps_uuid = 4, lps_user = 1, lps_program = 1, lps_school = None, lps_is_active = True\<rparr>"
    by code_simp
  show ?thesis using revoked_record_links_are_dead [OF \<open>shares_ok sharing1\<close> run, of 4] by (simp add: r is_share_def)
qed

text \<open>
  C28. After the synchronisation of a learner's enrollments the table agrees with what Open edX
  reported: every enrollment of the learner in a reported run is active exactly when Open edX says
  so, and every reported run that exists here has an enrollment of the learner.
\<close>

theorem sync_mirrors_edx:
  assumes "syncable s u" "sync_enrollments_with_edx (Inr (Some (Inr edx))) u s = (res, t)" "map_of edx i = Some a"
  shows "(\<forall>e \<in> set (run_enrollments t). cre_user e = u \<longrightarrow> cre_courseware e = i \<longrightarrow> cre_active e = a)
    \<and> (\<forall>r \<in> set (usable_runs t). run_courseware_id r = i \<longrightarrow>
         exists_row (\<lambda>e. cre_user e = u \<and> cre_courseware e = i) (run_enrollments t))"
  using assms by (rule sync_agrees)

theorem sync_mirrors_edx_witness:
  "cre_active enrollment1 \<and> \<not> cre_active (hd (run_enrollments
     (snd (sync_enrollments_with_edx (Inr (Some (Inr reported1))) 1 school))))"
proof -
  define t where "t = snd (sync_enrollments_with_edx (Inr (Some (Inr reported1))) 1 school)"
  have "syncable school 1" "map_of reported1 ''course-v1:MITx+6.00x+1T2026'' = Some False" by code_simp+
  moreover have "sync_enrollments_with_edx (Inr (Some (Inr reported1))) 1 school
      = (fst (sync_enrollments_with_edx (Inr (Some (Inr reported1))) 1 school), t)" by (simp add: t_def)
  ultimately have "\<forall>e \<in> set (run_enrollments t). cre_user e = 1 \<longrightarrow> cre_courseware e = ''course-v1:MITx+6.00x+1T2026''
      \<longrightarrow> cre_active e = False" using sync_mirrors_edx by blast
  moreover have "(run_enrollments t \<noteq> []) \<and> cre_user (hd (run_enrollments t)) = 1
      \<and> cre_courseware (hd (run_enrollments t)) = ''course-v1:MITx+6.00x+1T2026''" unfolding t_def by code_simp
  ultimately have "\<not> cre_active (hd (run_enrollments t))" using hd_in_set by blast
  then show ?thesis by (simp add: t_def enrollment1_def)
qed

text \<open>
  C29. Synchronising a second time with the same report changes nothing and reports nothing: the
  synchronisation is idempotent.
\<close>

theorem second_sync_changes_nothing:
  assumes "syncable s u" "sync_enrollments_with_edx (Inr (Some (Inr edx))) u s = (res, t)"
  shows "sync_enrollments_with_edx (Inr (Some (Inr edx))) u t = (Inr no_sync, t)"
  using assms by (rule sync_settled)

theorem second_sync_changes_nothing_witness:
  "fst (sync_enrollments_with_edx (Inr (Some (Inr reported1))) 1
     (snd (sync_enrollments_with_edx (Inr (Some (Inr reported1))) 1 school))) = Inr no_sync"
proof -
  have "syncable school 1" by code_simp
  then show ?thesis using second_sync_changes_nothing [of school 1 reported1] by (metis prod.collapse fst_conv)
qed

text \<open>
  C30. A learner who holds no verified enrollment in the programs that a request names gets no
  verified seat from it: after add_verified_program_course_enrollment, whatever its outcome, every
  verified course run enrollment was among the verified ones before.
\<close>

theorem verified_seats_need_a_verified_program:
  assumes "seats_within V s" "unverified (usr_id user) (prg_id ` {g \<in> set (programs s). prg_readable_id g \<in> set ids}) s"
  shows "seats_within V (snd (add_verified_program_course_enrollment x px user ip i (Some ids) s))"
  using assms by (rule verified_runs_need_verified_program)

theorem verified_seats_need_a_verified_program_witness:
  "seats_within {(1, 1)} (snd (add_verified_program_course_enrollment ext1 processor1 user1 ''127.0.0.1''
     ''course-v1:MITx+6.00x+2T2026'' (Some [''program-v1:MITx+DEDP''])
     (school\<lparr>program_enrollments := [program_enrollment1\<lparr>pe_enrollment_mode := audit_mode\<rparr>]\<rparr>)))"
  by (rule verified_seats_need_a_verified_program)
    (simp_all add: seats_within_def unverified_def school_def shop_def empty_db_def enrollments_ok_def enrollment1_def
      program_enrollment1_def verified_mode_def audit_mode_def run1_def cre_key_def)

text \<open>
  C31. Once a learner has redeemed an enrollment code, no sequence of requests of managers,
  redemptions of other learners, messages and mail reports removes or changes the redemption: row,
  code, contract, learner and time stay.
\<close>

theorem redemption_is_never_taken_back:
  assumes "code_step\<^sup>*\<^sup>* s t" and "attachments_ok s" and "a \<in> set (attachments s)" and "ca_user a \<noteq> None"
  shows "redemption a \<in> redemption ` set (attachments t)"
proof -
  have "kept a s" using assms(2-4) by (simp add: kept_def)
  from life_kept [OF assms(1) this] show ?thesis by (simp add: kept_def)
qed

theorem redemption_is_never_taken_back_witness:
  "\<exists>a. a \<in> set (attachments (snd (attach_contract user1 ''AAA'' code_shop))) \<and> ca_user a = Some 1
     \<and> redemption a \<in> redemption ` set (attachments (snd (revoke_code False manager1 1 1 ''AAA'' (snd (attach_contract user1 ''AAA'' code_shop)))))"
proof -
  let ?s = "snd (attach_contract user1 ''AAA'' code_shop)"
  let ?a = "hd (attachments ?s)"
  have step: "code_step\<^sup>*\<^sup>* ?s (snd (revoke_code False manager1 1 1 ''AAA'' ?s))" by (blast intro: code_step.revoke)
  have a: "?a \<in> set (attachments ?s)" by code_simp
  have user: "ca_user ?a = Some 1" by code_simp
  have ok: "attachments_ok ?s" by code_simp
  have "redemption ?a \<in> redemption ` set (attachments (snd (revoke_code False manager1 1 1 ''AAA'' ?s)))"
    using redemption_is_never_taken_back [OF step ok a] user by simp
  then show ?thesis using a user by blast
qed

text \<open>
  C32. A code that is not unlimited and that nobody has redeemed is never redeemed by two
  learners, whatever managers, learners and the mail service do.
\<close>

theorem code_admits_one_learner:
  assumes "code_step\<^sup>*\<^sup>* s t" and "attachments_ok s" and "D < next_id s" and "redeemed_count s D = 0"
    and "list_all (\<lambda>d. disc_id d = D \<longrightarrow> disc_redemption_type d \<noteq> UNLIMITED) (discounts s)"
    and "a \<in> set (attachments t)" and "b \<in> set (attachments t)" and "ca_discount a = D" and "ca_discount b = D"
    and "ca_user a = Some u" and "ca_user b = Some v"
  shows "u = v"
  using admits_oneD [OF life_one [OF assms(1) admits_one_unredeemed [OF assms(2-5)]] assms(6-11)] .

theorem code_admits_one_learner_witness:
  "\<exists>a \<in> set (attachments (snd (attach_contract manager1 ''AAA'' (snd (attach_contract user1 ''AAA'' code_shop))))).
     ca_discount a = 3 \<and> ca_user a = Some 1"
proof -
  let ?s = "snd (attach_contract user1 ''AAA'' code_shop)"
  let ?t = "snd (attach_contract manager1 ''AAA'' ?s)"
  have steps: "code_step\<^sup>*\<^sup>* code_shop ?t"
    by (rule rtranclp.rtrancl_into_rtrancl [OF r_into_rtranclp]) (rule code_step.redeem)+
  have a: "hd (attachments ?t) \<in> set (attachments ?t)" "ca_discount (hd (attachments ?t)) = 3" "ca_user (hd (attachments ?t)) = Some 1"
    by code_simp+
  have start: "attachments_ok code_shop" "3 < next_id code_shop" "redeemed_count code_shop 3 = 0"
    "list_all (\<lambda>d. disc_id d = 3 \<longrightarrow> disc_redemption_type d \<noteq> UNLIMITED) (discounts code_shop)"
    by code_simp+
  have "(1::nat) = 1" by (rule code_admits_one_learner [OF steps start a(1) a(1) a(2) a(2) a(3) a(3)])
  then show ?thesis using a by blast
qed

text \<open>
  C33. After a manager has revoked a code or reassigned it to somebody else, nobody can redeem the
  old code any more, now or after any later sequence of operations: the answer is 404 and nothing
  changes. (The codes are distinct and none is a string that uuid4 returns later.)
\<close>

theorem withdrawn_code_is_worthless:
  assumes "withdraws code s t" and "codes_distinct s" and "code_step\<^sup>*\<^sup>* t t'"
  shows "attach_contract u code t' = (Inr (404, None), t')"
  using assms by (rule withdrawn_is_worthless)

theorem withdrawn_code_is_worthless_witness:
  "\<exists>t. withdraws ''AAA'' code_shop t \<and> fst (attach_contract user1 ''AAA'' code_shop) = Inr (201, Some contract1)
     \<and> attach_contract user1 ''AAA'' t = (Inr (404, None), t)"
proof -
  let ?t = "snd (revoke_code False manager1 1 1 ''AAA'' code_shop)"
  have "fst (revoke_code False manager1 1 1 ''AAA'' code_shop) = Inr (OneCode (code1\<lparr>disc_code := ''uuid-'' @ show_nat 10\<rparr>) None)"
    by code_simp
  then have "withdraws ''AAA'' code_shop ?t"
    by (intro withdraws.revoked [where superuser = False and u = manager1 and org = 1 and pk = 1]) (rule prod_eqI, simp_all)
  moreover have "codes_distinct code_shop"
    by (simp add: codes_distinct_def code_shop_def code1_def code2_def discount3_def discount1_def uuid_text_def)
  moreover have "fst (attach_contract user1 ''AAA'' code_shop) = Inr (201, Some contract1)" by code_simp
  ultimately show ?thesis using withdrawn_code_is_worthless by blast
qed

text \<open>
  C34. Two reports of the mail service with different times leave the same rows in whatever order
  their tasks run, for the same or for different messages, known or unknown ones.
\<close>

theorem mail_reports_commute:
  assumes "attachments_ok s" and "relevant_event hmac cf p = Some e" and "relevant_event hmac cf q = Some f"
    and "me_event_timestamp e \<noteq> me_event_timestamp f"
  shows "snd (process_mailgun_webhook hmac cf q (snd (process_mailgun_webhook hmac cf p s)))
    = snd (process_mailgun_webhook hmac cf p (snd (process_mailgun_webhook hmac cf q s)))"
  using assms by (rule reports_commute)

theorem mail_reports_commute_witness:
  "snd (process_mailgun_webhook (@) mailgun1 (report_of ''delivered'' 7) (snd (process_mailgun_webhook (@) mailgun1 (report_of ''opened'' 8) code_shop)))
    = snd (process_mailgun_webhook (@) mailgun1 (report_of ''opened'' 8) (snd (process_mailgun_webhook (@) mailgun1 (report_of ''delivered'' 7) code_shop)))"
proof -
  let ?e = "\<lambda>k t. \<lparr>me_token = ''t'', me_timestamp = ''1'', me_signature = ''s1t'', me_event = k,
     me_tags = [''enrollment-code-assignment''], me_severity = None, me_message_id = ''m1'', me_event_timestamp = t\<rparr>"
  have ok: "attachments_ok code_shop" by code_simp
  have e: "relevant_event (@) mailgun1 (report_of ''opened'' 8) = Some (?e ''opened'' 8)" by code_simp
  have f: "relevant_event (@) mailgun1 (report_of ''delivered'' 7) = Some (?e ''delivered'' 7)" by code_simp
  show ?thesis by (rule mail_reports_commute [OF ok e f]) simp
qed

text \<open>
  C35. When the export compliance check of a learner is not accepted, every later check of the
  same learner, for whatever course and however much later, returns a refusal again without a new
  inquiry and without changing anything. (Only the admin's approval can lift it.)
\<close>

theorem refused_learner_stays_refused:
  assumes "logs_ok s" and "str_contract ex"
    and "verify_user_with_exports ex u run s = (Inr r, t)" and "\<not> result_accepted r" and "cp_now t \<le> n"
  shows "\<exists>r'. verify_user_with_exports ex u run' (t\<lparr>cp_now := n\<rparr>) = (Inr r', t\<lparr>cp_now := n\<rparr>) \<and> \<not> result_accepted r'"
  using assms by (rule refusal_is_final)

theorem refused_learner_stays_refused_witness:
  "\<exists>r t r'. verify_user_with_exports declining learner2 (CT_CourseRun, 1) compliance1 = (Inr r, t) \<and> length (cp_sent t) = 1
     \<and> verify_user_with_exports declining learner2 (CT_CourseRun, 2) (t\<lparr>cp_now := 1000000\<rparr>) = (Inr r', t\<lparr>cp_now := 1000000\<rparr>)"
proof -
  have ok: "logs_ok compliance1" by (simp add: logs_ok_def compliance1_def)
  have ex: "str_contract declining" by (simp add: str_contract_def declining_def) code_simp
  obtain r t where run: "verify_user_with_exports declining learner2 (CT_CourseRun, 1) compliance1 = (Inr r, t)"
    and t: "\<not> result_accepted r" "cp_now t \<le> 1000000" "length (cp_sent t) = 1"
  proof
    show "verify_user_with_exports declining learner2 (CT_CourseRun, 1) compliance1
        = (Inr (projr (fst (verify_user_with_exports declining learner2 (CT_CourseRun, 1) compliance1))),
           snd (verify_user_with_exports declining learner2 (CT_CourseRun, 1) compliance1))" by code_simp
  qed code_simp+
  from refused_learner_stays_refused [OF ok ex run t(1) t(2)] show ?thesis using run t(3) by blast
qed

text \<open>
  C36. Told not to make reruns, create_contract_run and add_program_courses keep it true of every
  contract and course that no two of its runs are of the same variant, also when they raise half
  way through. (Source runs, which the manager of the table hides, are not counted. The unique
  constraints of the table would allow such runs, with different tags.)
\<close>

theorem no_second_run_of_a_variant:
  assumes "co_no_reruns opts" and "distinct (contract_variants s c k)"
  shows "distinct (contract_variants (snd (create_contract_run lang ck contract course opts s)) c k)
    \<and> distinct (contract_variants (snd (add_program_courses lang ck contract g order opts s)) c k)"
  using keepsD [OF keeps_one_run_contract [OF assms(1)] assms(2)] keepsD [OF keeps_one_run_courses [OF assms(1)] assms(2)]
  by blast

theorem no_second_run_of_a_variant_witness:
  "distinct (contract_variants (snd (create_contract_run any_language parse_key contract1 course1
     (contract_options1\<lparr>co_no_reruns := True\<rparr>) studio_shop)) 1 1)"
proof -
  have "distinct (contract_variants studio_shop 1 1)" by code_simp
  from no_second_run_of_a_variant [OF _ this, of "contract_options1\<lparr>co_no_reruns := True\<rparr>"] show ?thesis by simp
qed

text \<open>
  C37. Retiring a run whose language is known always succeeds when Open edX accepts the schedule
  (or is skipped): no validation error and no constraint stops it, and the run is then over, not
  enrollable, not upgradable, sold by no active product and in no catalogue.
\<close>

theorem retired_run_is_inert:
  assumes "runs_ok s" and "r \<in> set (course_runs s)" and "known_language lang r"
    and "skip \<or> (\<forall>q. \<exists>b. rc_answer cl (studio_log s) q = Inr b)"
  shows "\<exists>ps b t. retire_course_run cl lang True skip r s = (Inr (compute_retirement_dates (now s) r, ps, b), t)
    \<and> retired (compute_retirement_dates (now s) r) r \<in> set (course_runs t)
    \<and> inert t (retired (compute_retirement_dates (now s) r) r)"
  by (rule retires [OF assms(1-3)]) (use assms(4) in blast)

theorem retired_run_is_inert_witness:
  "is_enrollable studio_shop run1 \<and> run_has_product studio_shop run1
     \<and> (\<exists>ps b t. retire_course_run studio1 any_language True False run1 studio_shop = (Inr (compute_retirement_dates 100 run1, ps, b), t)
       \<and> retired (compute_retirement_dates 100 run1) run1 \<in> set (course_runs t) \<and> inert t (retired (compute_retirement_dates 100 run1) run1))"
proof -
  have ok: "runs_ok studio_shop" "run1 \<in> set (course_runs studio_shop)" "known_language any_language run1"
    "is_enrollable studio_shop run1" "run_has_product studio_shop run1" "now studio_shop = 100" by code_simp+
  have edx: "False \<or> (\<forall>q. \<exists>b. rc_answer studio1 (studio_log studio_shop) q = Inr b)" by (auto simp: studio1_def)
  show ?thesis using retired_run_is_inert [OF ok(1-3) edx] ok(4-6) by simp
qed

text \<open>
  C38. A run that was retired with Open edX stays retired through the synchronisation of
  schedules: whatever current runs are synchronised next, the row keeps its dates in the past and
  stays off. (Open edX reports the schedule of the last update of a run that it accepted.)
\<close>

theorem retired_run_survives_sync:
  assumes "schedule_contract cl" and "runs_ok s" and "r \<in> set (course_runs s)" and "known_language lang r"
    and "retire_course_run cl lang True False r s = (Inr (d, ps, b), t)" and "set rs \<subseteq> set (course_runs t)"
  shows "rows_retired (run_id r) (run_courseware_id r) d (snd (sync_course_runs cl lang rs t))"
  using retired_stays_retired [OF assms] .

theorem retired_run_survives_sync_witness:
  "\<exists>ps b t. retire_course_run studio1 any_language True False run1 studio_shop = (Inr (compute_retirement_dates 100 run1, ps, b), t)
     \<and> rows_retired 1 ''course-v1:MITx+6.00x+1T2026'' (compute_retirement_dates 100 run1)
         (snd (sync_course_runs studio1 any_language (course_runs t) t))"
proof -
  let ?d = "compute_retirement_dates 100 run1"
  have ok: "runs_ok studio_shop" "run1 \<in> set (course_runs studio_shop)" "known_language any_language run1"
    "run_id run1 = 1" "run_courseware_id run1 = ''course-v1:MITx+6.00x+1T2026''" "now studio_shop = 100" by code_simp+
  have "\<And>q. False \<or> (\<exists>b. rc_answer studio1 (studio_log studio_shop) q = Inr b)" by (auto simp: studio1_def)
  from retires [OF ok(1-3) this] obtain ps b t
    where run: "retire_course_run studio1 any_language True False run1 studio_shop = (Inr (?d, ps, b), t)"
    unfolding ok(6) by blast
  show ?thesis using retired_run_survives_sync [OF studio1_contract ok(1-3) run subset_refl] run unfolding ok(4,5) by blast
qed

text \<open>
  C39. Moving a run to the contract of retired runs either succeeds, and the run's row belongs to
  that contract, or is refused by the collision check: the constraints of the table never refuse
  the save.
\<close>

theorem retirement_move_meets_no_constraint:
  assumes "runs_ok s" and "r \<in> set (course_runs s)" and "clean_course_run lang r = Inr ()"
  shows "(\<exists>k x. fst (move_run_to_retirement_contract lang r s) = Inr k
      \<and> x \<in> set (course_runs (snd (move_run_to_retirement_contract lang r s)))
      \<and> run_id x = run_id r \<and> map_option ctr_id (run_b2b_contract x) = Some (ctr_id k))
    \<or> fst (move_run_to_retirement_contract lang r s) = Inl RetirementContractCollisionError"
  using move_or_collision [OF assms] .

theorem retirement_move_meets_no_constraint_witness:
  "\<exists>k x. fst (move_run_to_retirement_contract any_language run2 studio_shop) = Inr k
     \<and> x \<in> set (course_runs (snd (move_run_to_retirement_contract any_language run2 studio_shop)))
     \<and> run_id x = 2 \<and> map_option ctr_id (run_b2b_contract x) = Some (ctr_id k)"
proof -
  have ok: "runs_ok studio_shop" "run2 \<in> set (course_runs studio_shop)" "clean_course_run any_language run2 = Inr ()" "run_id run2 = 2"
    by code_simp+
  have "fst (move_run_to_retirement_contract any_language run2 studio_shop) \<noteq> Inl RetirementContractCollisionError" by code_simp
  then show ?thesis using retirement_move_meets_no_constraint [OF ok(1-3)] unfolding ok(4) by blast
qed

text \<open>
  C40. When create_contract_run returns, the contract has a run of the course for the variant of
  every source run that was found, and each pair it returns is a run of the contract with an
  active product at the contract's price.
\<close>

theorem contract_gets_every_variant:
  assumes "create_contract_run lang ck k c opts s = (Inr results, t)"
  shows "\<exists>rs. get_source_runs_for_course s c ((co_choice opts)\<lparr>ch_no_variants := False\<rparr>) = Inr (SourceRuns rs)
    \<and> (\<forall>source \<in> set rs. serves t c k source) \<and> (\<forall>rp \<in> set results. offered t c k rp)"
  using contract_gets_variants [OF assms] .

theorem contract_gets_every_variant_witness:
  "\<exists>results t. create_contract_run any_language parse_key contract1 course1 contract_options1 studio_shop = (Inr results, t)
     \<and> map (run_courseware_id \<circ> fst) results = [''course-v1:UAI_ORG+6.00x+1T1C1970_en'', ''course-v1:UAI_ORG+6.00x+1T1C1970_fr'']
     \<and> serves t course1 contract1 source1 \<and> serves t course1 contract1 source2"
proof -
  let ?m = "create_contract_run any_language parse_key contract1 course1 contract_options1 studio_shop"
  obtain results where results: "fst ?m = Inr results"
    and keys: "map (run_courseware_id \<circ> fst) results = [''course-v1:UAI_ORG+6.00x+1T1C1970_en'', ''course-v1:UAI_ORG+6.00x+1T1C1970_fr'']"
  proof -
    have "case fst ?m of Inl _ \<Rightarrow> False | Inr results \<Rightarrow> map (run_courseware_id \<circ> fst) results
      = [''course-v1:UAI_ORG+6.00x+1T1C1970_en'', ''course-v1:UAI_ORG+6.00x+1T1C1970_fr'']" by code_simp
    then show thesis using that by (cases "fst ?m") auto
  qed
  have sources: "get_source_runs_for_course studio_shop course1 ((co_choice contract_options1)\<lparr>ch_no_variants := False\<rparr>) = Inr (SourceRuns [source1, source2])"
    by code_simp
  have run: "?m = (Inr results, snd ?m)" using results by (rule run_eq)
  have "serves (snd ?m) course1 contract1 source1 \<and> serves (snd ?m) course1 contract1 source2"
    using contract_gets_every_variant [OF run] sources by auto
  then show ?thesis by (intro exI [of _ results] exI [of _ "snd ?m"] conjI run keys) simp_all
qed

end
